(* ===== verification/Prelude.thy ===== *)
theory Prelude
  imports Main "HOL-Library.Word"
begin

text \<open>
  Shared vocabulary of the development: the machine integer types of the Rust sources, the
  result of polling a future, Rust panics as values, the state-passing monad in which a panic
  keeps the state changes made before it, checked and saturating arithmetic, and the generic
  lemmas on words, lists and logs that the component theories use.
\<close>

section \<open>Machine integers\<close>

type_synonym u8 = "8 word"
type_synonym u16 = "16 word"
type_synonym u32 = "32 word"
type_synonym u64 = "64 word"

text \<open>The targets of the crates are 64-bit: a \<open>usize\<close> has the width of a \<open>u64\<close>.\<close>

type_synonym usize = "64 word"

abbreviation U64_MAX :: u64 where
  "U64_MAX \<equiv> - 1"

text \<open>\<open>u64::checked_add(1)\<close> and \<open>u64::saturating_add\<close>.\<close>

definition checked_add1 :: "u64 \<Rightarrow> u64 option" where
  "checked_add1 c = (if c = U64_MAX then None else Some (c + 1))"

definition saturating_add :: "u64 \<Rightarrow> u64 \<Rightarrow> u64" where
  "saturating_add a b = (if unat a + unat b < 2 ^ 64 then a + b else U64_MAX)"

named_theorems word_facts \<open>word arithmetic used by the id counters, clocks and versions\<close>

lemma unat_U64_MAX [word_facts]: "unat U64_MAX = 2 ^ 64 - 1"
  by (simp add: unsigned_minus_1_eq_mask mask_eq_exp_minus_1)

lemma unat_u64_bound [word_facts]: "unat (c :: u64) < 2 ^ 64"
  using unsigned_less [of c] by simp

lemma unat_add1 [word_facts]: "(c :: u64) \<noteq> U64_MAX \<Longrightarrow> unat (c + 1) = unat c + 1"
proof -
  assume "c \<noteq> U64_MAX"
  then have "1 + c \<noteq> 0"
    by (metis add.commute add_diff_cancel diff_0)
  then show ?thesis by (simp add: unatSuc add.commute)
qed

lemma unat_not_max: "(c :: u64) \<noteq> U64_MAX \<longleftrightarrow> unat c < 2 ^ 64 - 1"
proof -
  have "c = U64_MAX \<longleftrightarrow> unat c = unat U64_MAX"
    by (simp add: word_unat_eq_iff)
  then show ?thesis
    using unat_u64_bound [of c] by (auto simp: unat_U64_MAX)
qed

lemma checked_add1_Some:
  "checked_add1 c = Some d \<longleftrightarrow> c \<noteq> U64_MAX \<and> d = c + 1"
  by (auto simp: checked_add1_def)

lemma unat_add_no_overflow:
  "unat (a :: u64) + unat b < 2 ^ 64 \<Longrightarrow> unat (a + b) = unat a + unat b"
  by (simp add: unat_word_ariths)

lemma unat_saturating_add [word_facts]:
  "unat (saturating_add a b) = min (unat a + unat b) (2 ^ 64 - 1)"
  by (auto simp: saturating_add_def unat_add_no_overflow unat_U64_MAX)

lemma unat_of_nat_u64: "n < 2 ^ 64 \<Longrightarrow> unat (of_nat n :: u64) = n"
  by (simp add: unat_of_nat)

section \<open>Polls and panics\<close>

text \<open>\<open>std::task::Poll\<close>.\<close>

datatype 'a poll = Pending | Ready 'a

primrec is_ready :: "'a poll \<Rightarrow> bool" where
  "is_ready Pending = False"
| "is_ready (Ready v) = True"

primrec map_poll :: "('a \<Rightarrow> 'b) \<Rightarrow> 'a poll \<Rightarrow> 'b poll" where
  "map_poll f Pending = Pending"
| "map_poll f (Ready v) = Ready (f v)"

lemma is_ready_iff: "is_ready p \<longleftrightarrow> (\<exists>v. p = Ready v)"
  by (cases p) auto

lemma map_poll_Ready [simp]: "map_poll f p = Ready w \<longleftrightarrow> (\<exists>v. p = Ready v \<and> w = f v)"
  by (cases p) auto

lemma map_poll_Pending [simp]: "map_poll f p = Pending \<longleftrightarrow> p = Pending"
  by (cases p) auto

text \<open>The panic sites of the modelled code, one constructor each.\<close>

datatype panic =
    LockIdExhausted        \<comment> \<open>model lock resource id namespace exhausted\<close>
  | TaskIdExhausted        \<comment> \<open>native dynamic task id namespace exhausted\<close>
  | AsyncIdExhausted       \<comment> \<open>model async resource id namespace exhausted\<close>
  | WaiterIdExhausted      \<comment> \<open>model async waiter id namespace exhausted\<close>
  | ContendedGrant         \<comment> \<open>lock hook granted a contended lock\<close>
  | TaskLimitExceeded      \<comment> \<open>engine model-task limit\<close>
  | OutputMissing          \<comment> \<open>finished task must publish its output\<close>
  | SenderConsumed         \<comment> \<open>oneshot Sender inner missing\<close>
  | VersionExhausted       \<comment> \<open>cell version counter exhausted\<close>
  | CellLockPoisoned       \<comment> \<open>cell version lock poisoned\<close>
  | ZeroPeriod             \<comment> \<open>\<open>period\<close> must be non-zero\<close>
  | Unreachable            \<comment> \<open>an \<open>unreachable!\<close> arm\<close>
  | GuardMissing           \<comment> \<open>model guard is present\<close>
  | ForeignPanic           \<comment> \<open>a panic raised by code outside the crate\<close>
  | VerdictMismatch        \<comment> \<open>\<open>assert_bug\<close> or \<open>assert_clean\<close> on the other verdict\<close>

section \<open>State and panics\<close>

text \<open>
  Rust code that mutates process state and may panic: a panic unwinds but does not undo what was
  written before it, so the state is returned on both sides of the sum.
\<close>

type_synonym ('s, 'a) rm = "'s \<Rightarrow> (panic + 'a) \<times> 's"

definition rret :: "'a \<Rightarrow> ('s, 'a) rm" where
  "rret x = (\<lambda>s. (Inr x, s))"

definition rpanic :: "panic \<Rightarrow> ('s, 'a) rm" where
  "rpanic p = (\<lambda>s. (Inl p, s))"

definition rbind :: "('s, 'a) rm \<Rightarrow> ('a \<Rightarrow> ('s, 'b) rm) \<Rightarrow> ('s, 'b) rm" where
  "rbind m f = (\<lambda>s. case m s of (Inl p, s') \<Rightarrow> (Inl p, s') | (Inr x, s') \<Rightarrow> f x s')"

definition rmodify :: "('s \<Rightarrow> 's) \<Rightarrow> ('s, unit) rm" where
  "rmodify g = (\<lambda>s. (Inr (), g s))"

primrec rreplicate :: "nat \<Rightarrow> ('s, 'a) rm \<Rightarrow> ('s, 'a list) rm" where
  "rreplicate 0 m = rret []"
| "rreplicate (Suc n) m = rbind m (\<lambda>x. rbind (rreplicate n m) (\<lambda>xs. rret (x # xs)))"

named_theorems rm_simps \<open>evaluation of the state-and-panic monad\<close>

lemma rret_apply [simp, rm_simps]: "rret x s = (Inr x, s)"
  by (simp add: rret_def)

lemma rpanic_apply [simp, rm_simps]: "rpanic p s = (Inl p, s)"
  by (simp add: rpanic_def)

lemma rmodify_apply [simp, rm_simps]: "rmodify g s = (Inr (), g s)"
  by (simp add: rmodify_def)

lemma rbind_Inr [simp, rm_simps]: "m s = (Inr x, s') \<Longrightarrow> rbind m f s = f x s'"
  by (simp add: rbind_def)

lemma rbind_Inl [simp, rm_simps]: "m s = (Inl p, s') \<Longrightarrow> rbind m f s = (Inl p, s')"
  by (simp add: rbind_def)

lemma rbind_eq_Inr:
  "rbind m f s = (Inr y, t) \<longleftrightarrow> (\<exists>x s'. m s = (Inr x, s') \<and> f x s' = (Inr y, t))"
  by (auto simp: rbind_def split: prod.splits sum.splits)

lemma rbind_assoc: "rbind (rbind m f) g = rbind m (\<lambda>x. rbind (f x) g)"
  by (rule ext) (auto simp: rbind_def split: prod.splits sum.splits)

section \<open>Logs\<close>

text \<open>
  The order in which an event of a log precedes another, and what a filtered log says; the
  component theories read the log of hook calls through these.
\<close>

definition precedes_in :: "'a list \<Rightarrow> 'a \<Rightarrow> 'a \<Rightarrow> bool" where
  "precedes_in xs a b \<longleftrightarrow> (\<exists>us vs ws. xs = us @ a # vs @ b # ws)"

lemma precedes_in_append: "a \<in> set xs \<Longrightarrow> b \<in> set ys \<Longrightarrow> precedes_in (xs @ ys) a b"
  unfolding precedes_in_def by (metis append.assoc append_Cons split_list)

lemma precedes_in_mono: "precedes_in xs a b \<Longrightarrow> precedes_in (ws @ xs @ ys) a b"
  unfolding precedes_in_def by (metis append.assoc append_Cons)

lemma count_list_append_single:
  "count_list (xs @ [y]) x = count_list xs x + (if x = y then 1 else 0)"
  by simp

section \<open>Counting threads\<close>

text \<open>How a weight summed over a finite pool of threads changes when one thread moves.\<close>

lemma sum_fun_upd:
  fixes w :: "'b \<Rightarrow> nat" and t n :: nat
  assumes "t < n"
  shows "(\<Sum>i<n. w ((f(t := x)) i)) + w (f t) = (\<Sum>i<n. w (f i)) + w x"
proof -
  have "(\<Sum>i<n. w ((f(t := x)) i)) = w x + (\<Sum>i\<in>{..<n} - {t}. w (f i))"
    using assms by (subst sum.remove [of _ t]) (auto intro!: sum.cong)
  moreover have "(\<Sum>i<n. w (f i)) = w (f t) + (\<Sum>i\<in>{..<n} - {t}. w (f i))"
    using assms by (subst sum.remove [of _ t]) auto
  ultimately show ?thesis by simp
qed

lemma sum_ge_two:
  fixes w :: "nat \<Rightarrow> nat"
  assumes "t < n" "u < n" "t \<noteq> u"
  shows "w t + w u \<le> (\<Sum>i<n. w i)"
proof -
  have "sum w {t, u} \<le> sum w {..<n}" using assms by (intro sum_mono2) auto
  then show ?thesis using assms by simp
qed

end
