(* ===== verification/Hooks.thy ===== *)
theory Hooks
  imports Prelude
begin

text \<open>
  The process-local hook registry and the deterministic id counters of
  \<^verbatim>\<open>laplace-model-rt/src/hooks.rs\<close>.

  Every engine hook is a trait object the engine or the probe installs. What the runtime does
  with one is to call it, so a hook is modelled by its identity and a call by an entry of the log
  \<open>calls\<close>: the pair of the hook that was called and the callback with its arguments. The value
  a hook returns (the virtual clock, a spawned task's control) is an argument of the operations
  that use it.

  The registry mutexes are private to this file and no code path of the crate panics while it
  holds one, so they are modelled unpoisoned.
\<close>

section \<open>The callbacks of the hook traits\<close>

datatype AsyncAcquireKind = AcqMutex | AcqRwRead | AcqRwWrite | AcqSemaphorePermits u32

datatype TaskPollOutcome = OutPending | OutReady | OutPanicked

datatype AsyncChannelKind = MpscBounded usize | MpscUnbounded | Oneshot | Watch

datatype AsyncChannelSide = SideSender | SideReceiver

datatype AsyncChannelOp = OpSend | OpRecv | OpChanged

datatype AsyncChannelOutcome = OutcomeOk | OutcomeClosed | OutcomeEmpty | OutcomeFull

datatype AsyncBroadcastOp = BSend | BRecv | BTryRecv | BResubscribe

datatype AsyncBroadcastOutcome = BOk usize | BClosed | BEmpty | BLagged u64

datatype LockCall = lock_acquire u64 | lock_release u64

datatype TaskCall =
    task_registered u64
  | dynamic_task_spawned u64
  | poll_started u64 u64
  | poll_completed u64 u64 TaskPollOutcome
  | task_completed u64
  | join_requested u64
  | join_resolved u64

datatype AsyncLockCall =
    al_requested u64 u64 AsyncAcquireKind
  | al_acquired u64 u64 AsyncAcquireKind
  | al_released u64 u64 AsyncAcquireKind
  | al_waiter_dropped u64 u64
  | al_semaphore_created u64 usize
  | al_permits_added u64 usize

datatype AsyncNotifyCall =
    an_wait_requested u64 u64
  | an_wait_resolved u64 u64
  | an_notify_one u64
  | an_notify_waiters u64
  | an_waiter_dropped u64 u64

datatype AsyncChannelCall =
    ch_created u64 AsyncChannelKind
  | ch_op_requested u64 u64 AsyncChannelOp
  | ch_op_resolved u64 u64 AsyncChannelOp AsyncChannelOutcome
  | ch_op_dropped u64 u64
  | ch_endpoint_cloned u64 AsyncChannelSide
  | ch_endpoint_dropped u64 AsyncChannelSide
  | ch_closed u64

datatype AsyncBroadcastCall =
    bc_created u64 usize
  | bc_subscribed u64 u64 u64
  | bc_op_requested u64 u64 "u64 option" AsyncBroadcastOp
  | bc_op_resolved u64 u64 "u64 option" AsyncBroadcastOp AsyncBroadcastOutcome
  | bc_op_dropped u64 u64
  | bc_endpoint_cloned u64 AsyncChannelSide "u64 option"
  | bc_endpoint_dropped u64 AsyncChannelSide "u64 option"

datatype AsyncCellCall = cell_created u64 | cell_load u64 u64 | cell_store u64 u64

text \<open>\<open>now_nanos\<close> only answers, so the log keeps the two callbacks that act on the timer.\<close>

datatype AsyncTimerCall = timer_register u64 u64 | timer_dropped u64

datatype HookCall =
    LockEv LockCall
  | TaskEv TaskCall
  | ALockEv AsyncLockCall
  | ANotifyEv AsyncNotifyCall
  | AChannelEv AsyncChannelCall
  | ABroadcastEv AsyncBroadcastCall
  | ACellEv AsyncCellCall
  | ATimerEv AsyncTimerCall

section \<open>The registry and the counters\<close>

type_synonym hook = nat

text \<open>A slot is \<open>OnceLock<Mutex<Option<Arc<dyn Hook>>>>\<close>: not initialised, or initialised
  with a hook or without one.\<close>

type_synonym slot = "hook option option"

record rt =
  SPAWN_HOOK :: slot
  ASYNC_SPAWN_HOOK :: slot
  LOCK_HOOK :: slot
  TASK_OBSERVER_HOOK :: slot
  NEXT_LOCK_RESOURCE_ID :: u64
  NEXT_NATIVE_DYNAMIC_TASK_ID :: u64
  ASYNC_LOCK_HOOK :: slot
  ASYNC_NOTIFY_HOOK :: slot
  ASYNC_CHANNEL_HOOK :: slot
  ASYNC_BROADCAST_HOOK :: slot
  ASYNC_CELL_HOOK :: slot
  ASYNC_TIMER_HOOK :: slot
  NEXT_ASYNC_LOCK_RESOURCE_ID :: u64
  NEXT_ASYNC_LOCK_WAITER_ID :: u64
  DETERMINISTIC_SELECT :: bool
  calls :: "(hook \<times> HookCall) list"

type_synonym 'a rtm = "(rt, 'a) rm"

definition NATIVE_DYNAMIC_TASK_ID_BASE :: u64 where
  "NATIVE_DYNAMIC_TASK_ID_BASE = push_bit 63 1"

text \<open>The statics as the process starts with them.\<close>

definition rt_init :: rt where
  "rt_init = \<lparr> SPAWN_HOOK = None, ASYNC_SPAWN_HOOK = None, LOCK_HOOK = None,
     TASK_OBSERVER_HOOK = None, NEXT_LOCK_RESOURCE_ID = 1,
     NEXT_NATIVE_DYNAMIC_TASK_ID = NATIVE_DYNAMIC_TASK_ID_BASE,
     ASYNC_LOCK_HOOK = None, ASYNC_NOTIFY_HOOK = None, ASYNC_CHANNEL_HOOK = None,
     ASYNC_BROADCAST_HOOK = None, ASYNC_CELL_HOOK = None, ASYNC_TIMER_HOOK = None,
     NEXT_ASYNC_LOCK_RESOURCE_ID = 1, NEXT_ASYNC_LOCK_WAITER_ID = 1,
     DETERMINISTIC_SELECT = False, calls = [] \<rparr>"

definition slot_install :: "hook \<Rightarrow> slot \<Rightarrow> slot" where
  "slot_install h sl = (let inited = (case sl of None \<Rightarrow> Some None | Some v \<Rightarrow> Some v)
                        in map_option (\<lambda>_. Some h) inited)"

definition slot_clear :: "slot \<Rightarrow> slot" where
  "slot_clear sl = (case sl of Some v \<Rightarrow> Some None | None \<Rightarrow> None)"

definition slot_get :: "slot \<Rightarrow> hook option" where
  "slot_get sl = (case sl of None \<Rightarrow> None | Some v \<Rightarrow> v)"

lemma slot_get_install [simp]: "slot_get (slot_install h sl) = Some h"
  by (simp add: slot_get_def slot_install_def split: option.splits)

lemma slot_get_clear [simp]: "slot_get (slot_clear sl) = None"
  by (simp add: slot_get_def slot_clear_def split: option.splits)

lemma slot_get_None [simp]: "slot_get None = None"
  by (simp add: slot_get_def)

definition install_spawn_hook :: "hook \<Rightarrow> rt \<Rightarrow> rt" where
  "install_spawn_hook h s = s\<lparr>SPAWN_HOOK := slot_install h (SPAWN_HOOK s)\<rparr>"

definition clear_spawn_hook :: "rt \<Rightarrow> rt" where
  "clear_spawn_hook s = s\<lparr>SPAWN_HOOK := slot_clear (SPAWN_HOOK s)\<rparr>"

definition spawn_hook :: "rt \<Rightarrow> hook option" where
  "spawn_hook s = slot_get (SPAWN_HOOK s)"

definition install_async_spawn_hook :: "hook \<Rightarrow> rt \<Rightarrow> rt" where
  "install_async_spawn_hook h s = s\<lparr>ASYNC_SPAWN_HOOK := slot_install h (ASYNC_SPAWN_HOOK s)\<rparr>"

definition clear_async_spawn_hook :: "rt \<Rightarrow> rt" where
  "clear_async_spawn_hook s = s\<lparr>ASYNC_SPAWN_HOOK := slot_clear (ASYNC_SPAWN_HOOK s)\<rparr>"

definition async_spawn_hook :: "rt \<Rightarrow> hook option" where
  "async_spawn_hook s = slot_get (ASYNC_SPAWN_HOOK s)"

definition install_lock_hook :: "hook \<Rightarrow> rt \<Rightarrow> rt" where
  "install_lock_hook h s = s\<lparr>LOCK_HOOK := slot_install h (LOCK_HOOK s)\<rparr>"

definition clear_lock_hook :: "rt \<Rightarrow> rt" where
  "clear_lock_hook s = s\<lparr>LOCK_HOOK := slot_clear (LOCK_HOOK s)\<rparr>"

definition lock_hook :: "rt \<Rightarrow> hook option" where
  "lock_hook s = slot_get (LOCK_HOOK s)"

definition install_task_observer_hook :: "hook \<Rightarrow> rt \<Rightarrow> rt" where
  "install_task_observer_hook h s =
     s\<lparr>TASK_OBSERVER_HOOK := slot_install h (TASK_OBSERVER_HOOK s)\<rparr>"

definition clear_task_observer_hook :: "rt \<Rightarrow> rt" where
  "clear_task_observer_hook s = s\<lparr>TASK_OBSERVER_HOOK := slot_clear (TASK_OBSERVER_HOOK s)\<rparr>"

definition task_observer_hook :: "rt \<Rightarrow> hook option" where
  "task_observer_hook s = slot_get (TASK_OBSERVER_HOOK s)"

definition install_async_lock_hook :: "hook \<Rightarrow> rt \<Rightarrow> rt" where
  "install_async_lock_hook h s = s\<lparr>ASYNC_LOCK_HOOK := slot_install h (ASYNC_LOCK_HOOK s)\<rparr>"

definition clear_async_lock_hook :: "rt \<Rightarrow> rt" where
  "clear_async_lock_hook s = s\<lparr>ASYNC_LOCK_HOOK := slot_clear (ASYNC_LOCK_HOOK s)\<rparr>"

definition async_lock_hook :: "rt \<Rightarrow> hook option" where
  "async_lock_hook s = slot_get (ASYNC_LOCK_HOOK s)"

definition install_async_notify_hook :: "hook \<Rightarrow> rt \<Rightarrow> rt" where
  "install_async_notify_hook h s =
     s\<lparr>ASYNC_NOTIFY_HOOK := slot_install h (ASYNC_NOTIFY_HOOK s)\<rparr>"

definition clear_async_notify_hook :: "rt \<Rightarrow> rt" where
  "clear_async_notify_hook s = s\<lparr>ASYNC_NOTIFY_HOOK := slot_clear (ASYNC_NOTIFY_HOOK s)\<rparr>"

definition async_notify_hook :: "rt \<Rightarrow> hook option" where
  "async_notify_hook s = slot_get (ASYNC_NOTIFY_HOOK s)"

definition install_async_channel_hook :: "hook \<Rightarrow> rt \<Rightarrow> rt" where
  "install_async_channel_hook h s =
     s\<lparr>ASYNC_CHANNEL_HOOK := slot_install h (ASYNC_CHANNEL_HOOK s)\<rparr>"

definition clear_async_channel_hook :: "rt \<Rightarrow> rt" where
  "clear_async_channel_hook s = s\<lparr>ASYNC_CHANNEL_HOOK := slot_clear (ASYNC_CHANNEL_HOOK s)\<rparr>"

definition async_channel_hook :: "rt \<Rightarrow> hook option" where
  "async_channel_hook s = slot_get (ASYNC_CHANNEL_HOOK s)"

definition install_async_broadcast_hook :: "hook \<Rightarrow> rt \<Rightarrow> rt" where
  "install_async_broadcast_hook h s =
     s\<lparr>ASYNC_BROADCAST_HOOK := slot_install h (ASYNC_BROADCAST_HOOK s)\<rparr>"

definition clear_async_broadcast_hook :: "rt \<Rightarrow> rt" where
  "clear_async_broadcast_hook s =
     s\<lparr>ASYNC_BROADCAST_HOOK := slot_clear (ASYNC_BROADCAST_HOOK s)\<rparr>"

definition async_broadcast_hook :: "rt \<Rightarrow> hook option" where
  "async_broadcast_hook s = slot_get (ASYNC_BROADCAST_HOOK s)"

definition install_async_cell_hook :: "hook \<Rightarrow> rt \<Rightarrow> rt" where
  "install_async_cell_hook h s = s\<lparr>ASYNC_CELL_HOOK := slot_install h (ASYNC_CELL_HOOK s)\<rparr>"

definition clear_async_cell_hook :: "rt \<Rightarrow> rt" where
  "clear_async_cell_hook s = s\<lparr>ASYNC_CELL_HOOK := slot_clear (ASYNC_CELL_HOOK s)\<rparr>"

definition async_cell_hook :: "rt \<Rightarrow> hook option" where
  "async_cell_hook s = slot_get (ASYNC_CELL_HOOK s)"

definition install_async_timer_hook :: "hook \<Rightarrow> rt \<Rightarrow> rt" where
  "install_async_timer_hook h s = s\<lparr>ASYNC_TIMER_HOOK := slot_install h (ASYNC_TIMER_HOOK s)\<rparr>"

definition clear_async_timer_hook :: "rt \<Rightarrow> rt" where
  "clear_async_timer_hook s = s\<lparr>ASYNC_TIMER_HOOK := slot_clear (ASYNC_TIMER_HOOK s)\<rparr>"

definition async_timer_hook :: "rt \<Rightarrow> hook option" where
  "async_timer_hook s = slot_get (ASYNC_TIMER_HOOK s)"

definition set_deterministic_select :: "bool \<Rightarrow> rt \<Rightarrow> rt" where
  "set_deterministic_select enabled s = s\<lparr>DETERMINISTIC_SELECT := enabled\<rparr>"

definition deterministic_select_enabled :: "rt \<Rightarrow> bool" where
  "deterministic_select_enabled s = DETERMINISTIC_SELECT s"

lemmas hook_reads = spawn_hook_def async_spawn_hook_def lock_hook_def task_observer_hook_def
  async_lock_hook_def async_notify_hook_def async_channel_hook_def async_broadcast_hook_def
  async_cell_hook_def async_timer_hook_def

lemmas hook_installs = install_spawn_hook_def install_async_spawn_hook_def install_lock_hook_def
  install_task_observer_hook_def install_async_lock_hook_def install_async_notify_hook_def
  install_async_channel_hook_def install_async_broadcast_hook_def install_async_cell_hook_def
  install_async_timer_hook_def

lemmas hook_clears = clear_spawn_hook_def clear_async_spawn_hook_def clear_lock_hook_def
  clear_task_observer_hook_def clear_async_lock_hook_def clear_async_notify_hook_def
  clear_async_channel_hook_def clear_async_broadcast_hook_def clear_async_cell_hook_def
  clear_async_timer_hook_def

section \<open>Reporting\<close>

text \<open>\<open>if let Some(hook) = read() { hook.callback(...) }\<close>: the call is logged at the hook that
  is installed at that moment, and nothing happens without one.\<close>

definition notify :: "hook option \<Rightarrow> HookCall \<Rightarrow> rt \<Rightarrow> rt" where
  "notify ho e s = (case ho of None \<Rightarrow> s | Some h \<Rightarrow> s\<lparr>calls := calls s @ [(h, e)]\<rparr>)"

named_theorems notify_frame \<open>what reporting leaves unchanged\<close>

lemma notify_None [simp]: "notify None e s = s"
  by (simp add: notify_def)

lemma calls_notify [simp]:
  "calls (notify ho e s) = calls s @ (case ho of None \<Rightarrow> [] | Some h \<Rightarrow> [(h, e)])"
  by (simp add: notify_def split: option.splits)

lemma slots_notify [simp, notify_frame]:
  "spawn_hook (notify ho e s) = spawn_hook s"
  "async_spawn_hook (notify ho e s) = async_spawn_hook s"
  "lock_hook (notify ho e s) = lock_hook s"
  "task_observer_hook (notify ho e s) = task_observer_hook s"
  "async_lock_hook (notify ho e s) = async_lock_hook s"
  "async_notify_hook (notify ho e s) = async_notify_hook s"
  "async_channel_hook (notify ho e s) = async_channel_hook s"
  "async_broadcast_hook (notify ho e s) = async_broadcast_hook s"
  "async_cell_hook (notify ho e s) = async_cell_hook s"
  "async_timer_hook (notify ho e s) = async_timer_hook s"
  by (simp_all add: notify_def hook_reads split: option.splits)

lemma counters_notify [simp, notify_frame]:
  "NEXT_LOCK_RESOURCE_ID (notify ho e s) = NEXT_LOCK_RESOURCE_ID s"
  "NEXT_NATIVE_DYNAMIC_TASK_ID (notify ho e s) = NEXT_NATIVE_DYNAMIC_TASK_ID s"
  "NEXT_ASYNC_LOCK_RESOURCE_ID (notify ho e s) = NEXT_ASYNC_LOCK_RESOURCE_ID s"
  "NEXT_ASYNC_LOCK_WAITER_ID (notify ho e s) = NEXT_ASYNC_LOCK_WAITER_ID s"
  "DETERMINISTIC_SELECT (notify ho e s) = DETERMINISTIC_SELECT s"
  by (simp_all add: notify_def split: option.splits)

section \<open>The registry as ten independent cells\<close>

datatype hook_kind = KSpawn | KAsyncSpawn | KLock | KTaskObserver | KAsyncLock | KAsyncNotify
  | KAsyncChannel | KAsyncBroadcast | KAsyncCell | KAsyncTimer

primrec install_hook :: "hook_kind \<Rightarrow> hook \<Rightarrow> rt \<Rightarrow> rt" where
  "install_hook KSpawn = install_spawn_hook"
| "install_hook KAsyncSpawn = install_async_spawn_hook"
| "install_hook KLock = install_lock_hook"
| "install_hook KTaskObserver = install_task_observer_hook"
| "install_hook KAsyncLock = install_async_lock_hook"
| "install_hook KAsyncNotify = install_async_notify_hook"
| "install_hook KAsyncChannel = install_async_channel_hook"
| "install_hook KAsyncBroadcast = install_async_broadcast_hook"
| "install_hook KAsyncCell = install_async_cell_hook"
| "install_hook KAsyncTimer = install_async_timer_hook"

primrec clear_hook :: "hook_kind \<Rightarrow> rt \<Rightarrow> rt" where
  "clear_hook KSpawn = clear_spawn_hook"
| "clear_hook KAsyncSpawn = clear_async_spawn_hook"
| "clear_hook KLock = clear_lock_hook"
| "clear_hook KTaskObserver = clear_task_observer_hook"
| "clear_hook KAsyncLock = clear_async_lock_hook"
| "clear_hook KAsyncNotify = clear_async_notify_hook"
| "clear_hook KAsyncChannel = clear_async_channel_hook"
| "clear_hook KAsyncBroadcast = clear_async_broadcast_hook"
| "clear_hook KAsyncCell = clear_async_cell_hook"
| "clear_hook KAsyncTimer = clear_async_timer_hook"

primrec read_hook :: "hook_kind \<Rightarrow> rt \<Rightarrow> hook option" where
  "read_hook KSpawn = spawn_hook"
| "read_hook KAsyncSpawn = async_spawn_hook"
| "read_hook KLock = lock_hook"
| "read_hook KTaskObserver = task_observer_hook"
| "read_hook KAsyncLock = async_lock_hook"
| "read_hook KAsyncNotify = async_notify_hook"
| "read_hook KAsyncChannel = async_channel_hook"
| "read_hook KAsyncBroadcast = async_broadcast_hook"
| "read_hook KAsyncCell = async_cell_hook"
| "read_hook KAsyncTimer = async_timer_hook"

text \<open>The interface a registry offers its clients: what a read returns after a write, of the
  same slot and of another one.\<close>

datatype 'k registry_op = Install 'k hook | Clear 'k

locale hook_registry =
  fixes install :: "'k \<Rightarrow> hook \<Rightarrow> 's \<Rightarrow> 's"
    and clear :: "'k \<Rightarrow> 's \<Rightarrow> 's"
    and read :: "'k \<Rightarrow> 's \<Rightarrow> hook option"
  assumes read_install: "read k (install k' h s) = (if k = k' then Some h else read k s)"
    and read_clear: "read k (clear k' s) = (if k = k' then None else read k s)"
begin

primrec registry_step :: "'k registry_op \<Rightarrow> 's \<Rightarrow> 's" where
  "registry_step (Install k h) s = install k h s"
| "registry_step (Clear k) s = clear k s"

primrec cells_step :: "'k registry_op \<Rightarrow> ('k \<Rightarrow> hook option) \<Rightarrow> ('k \<Rightarrow> hook option)" where
  "cells_step (Install k h) m = m(k := Some h)"
| "cells_step (Clear k) m = m(k := None)"

lemma read_step: "(\<lambda>k. read k (registry_step oper s)) = cells_step oper (\<lambda>k. read k s)"
  by (cases oper) (auto simp: fun_eq_iff read_install read_clear)

lemma read_fold:
  "(\<lambda>k. read k (fold registry_step ops s)) = fold cells_step ops (\<lambda>k. read k s)"
  by (induction ops arbitrary: s) (simp_all add: read_step)

lemma read_untouched:
  assumes "\<And>oper. oper \<in> set ops \<Longrightarrow> (\<forall>h. oper \<noteq> Install k h) \<and> oper \<noteq> Clear k"
  shows "read k (fold registry_step ops s) = read k s"
  using assms
proof (induction ops arbitrary: s)
  case Nil
  then show ?case by simp
next
  case (Cons oper ops)
  have "read k (registry_step oper s) = read k s"
    using Cons.prems [of oper] by (cases oper) (auto simp: read_install read_clear)
  with Cons show ?case by simp
qed

end

lemma read_hook_install_hook:
  "read_hook k (install_hook k' h s) = (if k = k' then Some h else read_hook k s)"
  by (cases k; cases k') (simp_all add: hook_reads hook_installs)

lemma read_hook_clear_hook:
  "read_hook k (clear_hook k' s) = (if k = k' then None else read_hook k s)"
  by (cases k; cases k') (simp_all add: hook_reads hook_clears)

interpretation reg: hook_registry install_hook clear_hook read_hook
  by unfold_locales (simp_all add: read_hook_install_hook read_hook_clear_hook)

text \<open>The abstract registry: ten cells that keep the last write.\<close>

primrec registry_apply :: "hook_kind registry_op \<Rightarrow> rt \<Rightarrow> rt" where
  "registry_apply (Install k h) s = install_hook k h s"
| "registry_apply (Clear k) s = clear_hook k s"

primrec cells_apply ::
    "hook_kind registry_op \<Rightarrow> (hook_kind \<Rightarrow> hook option) \<Rightarrow> (hook_kind \<Rightarrow> hook option)" where
  "cells_apply (Install k h) m = m(k := Some h)"
| "cells_apply (Clear k) m = m(k := None)"

lemma registry_apply_eq: "registry_apply = reg.registry_step"
  by (rule ext, rename_tac x, case_tac x) auto

lemma cells_apply_eq: "cells_apply = reg.cells_step"
  by (rule ext, rename_tac x, case_tac x) auto

lemma calls_registry_apply [simp]: "calls (registry_apply oper s) = calls s"
proof (cases oper)
  case (Install k h)
  then show ?thesis by (cases k) (simp_all add: hook_installs)
next
  case (Clear k)
  then show ?thesis by (cases k) (simp_all add: hook_clears)
qed

lemma calls_registry_fold: "calls (fold registry_apply ops s) = calls s"
  by (induction ops arbitrary: s) simp_all

text \<open>The ten hook slots refine ten independent last-writer cells: after any sequence of
  installs and clears, in a process in any state, each read returns the last hook installed in its
  own slot unless a clear of that slot came later, writes of the other slots do not show, and no
  hook is called by the registry itself.\<close>

theorem registry_refines_cells:
  "(\<lambda>k. read_hook k (fold registry_apply ops s)) = fold cells_apply ops (\<lambda>k. read_hook k s)
   \<and> calls (fold registry_apply ops s) = calls s"
  using reg.read_fold [of ops s] calls_registry_fold [of ops s]
  by (simp add: registry_apply_eq cells_apply_eq)

end
