(* ===== verification/Ids.thy ===== *)
theory Ids
  imports Hooks
begin

text \<open>
  The id counters of \<^verbatim>\<open>hooks.rs\<close> (lock resources, async resources, waiters, native
  dynamic tasks) and the lazily assigned \<open>AsyncResourceId\<close>, sequentially and under the race
  its \<open>get\<close> documents.
\<close>

section \<open>The counters\<close>

text \<open>\<open>fetch_update(|c| c.checked_add(1)).expect(...)\<close>: the old value on success; on
  exhaustion the counter is left as it is and the caller panics.\<close>

definition next_native_dynamic_task_id :: "u64 rtm" where
  "next_native_dynamic_task_id s =
     (case checked_add1 (NEXT_NATIVE_DYNAMIC_TASK_ID s) of
        None \<Rightarrow> (Inl TaskIdExhausted, s)
      | Some n \<Rightarrow> (Inr (NEXT_NATIVE_DYNAMIC_TASK_ID s), s\<lparr>NEXT_NATIVE_DYNAMIC_TASK_ID := n\<rparr>))"

definition reset_model_mutex_ids_for_model :: "rt \<Rightarrow> rt" where
  "reset_model_mutex_ids_for_model s = s\<lparr>NEXT_LOCK_RESOURCE_ID := 1\<rparr>"

definition next_lock_resource_id :: "u64 rtm" where
  "next_lock_resource_id s =
     (case checked_add1 (NEXT_LOCK_RESOURCE_ID s) of
        None \<Rightarrow> (Inl LockIdExhausted, s)
      | Some n \<Rightarrow> (Inr (NEXT_LOCK_RESOURCE_ID s), s\<lparr>NEXT_LOCK_RESOURCE_ID := n\<rparr>))"

definition reset_model_async_ids_for_model :: "rt \<Rightarrow> rt" where
  "reset_model_async_ids_for_model s =
     s\<lparr>NEXT_ASYNC_LOCK_RESOURCE_ID := 1, NEXT_ASYNC_LOCK_WAITER_ID := 1\<rparr>"

definition next_async_lock_resource_id :: "u64 rtm" where
  "next_async_lock_resource_id s =
     (case checked_add1 (NEXT_ASYNC_LOCK_RESOURCE_ID s) of
        None \<Rightarrow> (Inl AsyncIdExhausted, s)
      | Some n \<Rightarrow> (Inr (NEXT_ASYNC_LOCK_RESOURCE_ID s), s\<lparr>NEXT_ASYNC_LOCK_RESOURCE_ID := n\<rparr>))"

definition next_async_lock_waiter_id :: "u64 rtm" where
  "next_async_lock_waiter_id s =
     (case checked_add1 (NEXT_ASYNC_LOCK_WAITER_ID s) of
        None \<Rightarrow> (Inl WaiterIdExhausted, s)
      | Some n \<Rightarrow> (Inr (NEXT_ASYNC_LOCK_WAITER_ID s), s\<lparr>NEXT_ASYNC_LOCK_WAITER_ID := n\<rparr>))"

text \<open>What a client of an allocator may rely on: it hands out the counter and advances it, or
  panics and leaves the state alone.\<close>

locale id_allocator =
  fixes alloc :: "('s, u64) rm"
    and counter :: "'s \<Rightarrow> u64"
    and exhausted :: panic
  assumes alloc_ok: "counter s \<noteq> U64_MAX \<Longrightarrow>
      \<exists>s'. alloc s = (Inr (counter s), s') \<and> counter s' = counter s + 1"
    and alloc_full: "counter s = U64_MAX \<Longrightarrow> alloc s = (Inl exhausted, s)"
begin

lemma alloc_Inr:
  "alloc s = (Inr i, s') \<Longrightarrow>
     i = counter s \<and> counter s \<noteq> U64_MAX \<and> unat (counter s') = unat (counter s) + 1"
  using alloc_ok [of s] alloc_full [of s] unat_add1 [of "counter s"]
  by (cases "counter s = U64_MAX") auto

lemma alloc_Inl: "alloc s = (Inl p, s') \<Longrightarrow> p = exhausted \<and> s' = s \<and> counter s = U64_MAX"
  using alloc_ok [of s] alloc_full [of s] by (cases "counter s = U64_MAX") auto

lemma allocs_ok:
  assumes "rreplicate n alloc s = (Inr ids, s')"
  shows "map unat ids = [unat (counter s)..<unat (counter s) + n]
    \<and> unat (counter s') = unat (counter s) + n"
  using assms
proof (induction n arbitrary: s ids)
  case 0
  then show ?case by simp
next
  case (Suc n)
  then obtain i t js where step: "alloc s = (Inr i, t)"
    and rest: "rreplicate n alloc t = (Inr js, s')" and ids: "ids = i # js"
    by (auto simp: rbind_eq_Inr)
  from alloc_Inr [OF step] have i: "i = counter s" and t: "unat (counter t) = Suc (unat (counter s))"
    by auto
  from Suc.IH [OF rest] have "map unat js = [Suc (unat (counter s))..<Suc (unat (counter s)) + n]"
    and s': "unat (counter s') = Suc (unat (counter s)) + n"
    by (simp_all add: t)
  then show ?case using ids i by (simp add: upt_conv_Cons)
qed

lemma allocs_distinct: "rreplicate n alloc s = (Inr ids, s') \<Longrightarrow> distinct ids"
  using allocs_ok [of n s ids s'] by (metis distinct_map distinct_upt)

lemma allocs_length: "rreplicate n alloc s = (Inr ids, s') \<Longrightarrow> length ids = n"
  using allocs_ok [of n s ids s']
  by (metis add_diff_cancel_left' length_map length_upt)

lemma allocs_total:
  "unat (counter s) + n < 2 ^ 64 \<Longrightarrow> \<exists>ids s'. rreplicate n alloc s = (Inr ids, s')"
proof (induction n arbitrary: s)
  case 0
  then show ?case by simp
next
  case (Suc n)
  then have "counter s \<noteq> U64_MAX" by (simp add: unat_not_max)
  then obtain t where t: "alloc s = (Inr (counter s), t)" and c: "counter t = counter s + 1"
    using alloc_ok by blast
  have "unat (counter t) + n < 2 ^ 64"
    using Suc.prems \<open>counter s \<noteq> U64_MAX\<close> by (simp add: c unat_add1)
  with Suc.IH obtain ids s' where "rreplicate n alloc t = (Inr ids, s')" by blast
  with t show ?case by simp
qed

lemma allocs_exhausted:
  assumes "2 ^ 64 \<le> unat (counter s) + n"
  shows "\<exists>s'. rreplicate n alloc s = (Inl exhausted, s')"
  using assms
proof (induction n arbitrary: s)
  case 0
  then show ?case using unat_u64_bound [of "counter s"] by simp
next
  case (Suc n)
  show ?case
  proof (cases "counter s = U64_MAX")
    case True
    then show ?thesis using alloc_full by auto
  next
    case False
    then obtain t where t: "alloc s = (Inr (counter s), t)" and c: "counter t = counter s + 1"
      using alloc_ok by blast
    have "2 ^ 64 \<le> unat (counter t) + n"
      using Suc.prems False by (simp add: c unat_add1)
    then obtain s' where "rreplicate n alloc t = (Inl exhausted, s')" using Suc.IH by blast
    with t show ?thesis by auto
  qed
qed

end

interpretation lock_ids: id_allocator
  next_lock_resource_id NEXT_LOCK_RESOURCE_ID LockIdExhausted
  by unfold_locales (auto simp: next_lock_resource_id_def checked_add1_def)

interpretation task_ids: id_allocator
  next_native_dynamic_task_id NEXT_NATIVE_DYNAMIC_TASK_ID TaskIdExhausted
  by unfold_locales (auto simp: next_native_dynamic_task_id_def checked_add1_def)

interpretation async_ids: id_allocator
  next_async_lock_resource_id NEXT_ASYNC_LOCK_RESOURCE_ID AsyncIdExhausted
  by unfold_locales (auto simp: next_async_lock_resource_id_def checked_add1_def)

interpretation waiter_ids: id_allocator
  next_async_lock_waiter_id NEXT_ASYNC_LOCK_WAITER_ID WaiterIdExhausted
  by unfold_locales (auto simp: next_async_lock_waiter_id_def checked_add1_def)

section \<open>Lazily assigned resource ids\<close>

text \<open>\<open>AsyncResourceId(AtomicU64)\<close>: the content of the atomic, \<open>0\<close> while unassigned.\<close>

datatype AsyncResourceId = AsyncResourceId (arid: u64)

definition arid_new_eager :: "AsyncResourceId rtm" where
  "arid_new_eager = rbind next_async_lock_resource_id (\<lambda>i. rret (AsyncResourceId i))"

definition arid_new_lazy :: AsyncResourceId where
  "arid_new_lazy = AsyncResourceId 0"

text \<open>One call of \<open>get\<close> with nobody interfering: load, allocate, compare-exchange. The
  exchange sees the loaded \<open>0\<close> again, so it succeeds.\<close>

definition arid_compare_exchange :: "u64 \<Rightarrow> u64 \<Rightarrow> u64 \<Rightarrow> (u64 + u64) \<times> u64" where
  "arid_compare_exchange expected new current =
     (if current = expected then (Inr current, new) else (Inl current, current))"

definition arid_get :: "(AsyncResourceId \<times> rt, u64) rm" where
  "arid_get = (\<lambda>(r, s).
     let current = arid r in
     if current \<noteq> 0 then (Inr current, (r, s))
     else (case next_async_lock_resource_id s of
             (Inl p, s') \<Rightarrow> (Inl p, (r, s'))
           | (Inr allocated, s') \<Rightarrow>
               (case arid_compare_exchange 0 allocated (arid r) of
                  (Inr _, stored) \<Rightarrow> (Inr allocated, (AsyncResourceId stored, s'))
                | (Inl existing, stored) \<Rightarrow> (Inr existing, (AsyncResourceId stored, s')))))"

lemma arid_get_Inr:
  assumes "arid_get (r, s) = (Inr i, (r', s'))"
  shows "arid r' = i \<and> (arid r \<noteq> 0 \<longrightarrow> i = arid r \<and> s' = s)
     \<and> (arid r = 0 \<longrightarrow> next_async_lock_resource_id s = (Inr i, s'))"
  using assms
  by (auto simp: arid_get_def arid_compare_exchange_def Let_def split: if_splits prod.splits sum.splits)

lemma next_async_lock_resource_id_frame:
  "calls (snd (next_async_lock_resource_id s)) = calls s"
  "NEXT_ASYNC_LOCK_WAITER_ID (snd (next_async_lock_resource_id s)) = NEXT_ASYNC_LOCK_WAITER_ID s"
  "async_lock_hook (snd (next_async_lock_resource_id s)) = async_lock_hook s"
  "async_notify_hook (snd (next_async_lock_resource_id s)) = async_notify_hook s"
  "async_channel_hook (snd (next_async_lock_resource_id s)) = async_channel_hook s"
  "async_broadcast_hook (snd (next_async_lock_resource_id s)) = async_broadcast_hook s"
  by (simp_all add: next_async_lock_resource_id_def hook_reads split: option.splits)

text \<open>Assigning the id reports nothing and leaves the hooks and the waiter counter alone.\<close>

lemma arid_get_frame:
  assumes "arid_get (r, s) = (res, (r', s'))"
  shows "calls s' = calls s \<and> NEXT_ASYNC_LOCK_WAITER_ID s' = NEXT_ASYNC_LOCK_WAITER_ID s
    \<and> async_lock_hook s' = async_lock_hook s \<and> async_notify_hook s' = async_notify_hook s
    \<and> async_channel_hook s' = async_channel_hook s \<and> async_broadcast_hook s' = async_broadcast_hook s"
  using assms next_async_lock_resource_id_frame [of s]
  by (auto simp: arid_get_def arid_compare_exchange_def Let_def split: if_splits prod.splits sum.splits)

section \<open>The race of \<open>AsyncResourceId::get\<close>\<close>

text \<open>
  Threads that call \<open>get\<close> on the same cell at the same time, one atomic access per step. A
  thread is before its load, before its allocation, before its compare-exchange with the id it
  allocated, or has returned. Other code of the process may allocate ids meanwhile.
\<close>

datatype get_pc = AtLoad | AtAlloc | AtCas u64 | GetDone u64 | GetPanicked

record get_sys =
  gs_cell :: u64
  gs_next :: u64
  gs_pc :: "nat \<Rightarrow> get_pc"

inductive get_step :: "get_sys \<Rightarrow> get_sys \<Rightarrow> bool" where
  load_assigned: "gs_pc g t = AtLoad \<Longrightarrow> gs_cell g \<noteq> 0 \<Longrightarrow>
     get_step g (g\<lparr>gs_pc := (gs_pc g)(t := GetDone (gs_cell g))\<rparr>)"
| load_unassigned: "gs_pc g t = AtLoad \<Longrightarrow> gs_cell g = 0 \<Longrightarrow>
     get_step g (g\<lparr>gs_pc := (gs_pc g)(t := AtAlloc)\<rparr>)"
| allocate: "gs_pc g t = AtAlloc \<Longrightarrow> checked_add1 (gs_next g) = Some n \<Longrightarrow>
     get_step g (g\<lparr>gs_next := n, gs_pc := (gs_pc g)(t := AtCas (gs_next g))\<rparr>)"
| allocate_exhausted: "gs_pc g t = AtAlloc \<Longrightarrow> checked_add1 (gs_next g) = None \<Longrightarrow>
     get_step g (g\<lparr>gs_pc := (gs_pc g)(t := GetPanicked)\<rparr>)"
| exchange_won: "gs_pc g t = AtCas a \<Longrightarrow> gs_cell g = 0 \<Longrightarrow>
     get_step g (g\<lparr>gs_cell := a, gs_pc := (gs_pc g)(t := GetDone a)\<rparr>)"
| exchange_lost: "gs_pc g t = AtCas a \<Longrightarrow> gs_cell g \<noteq> 0 \<Longrightarrow>
     get_step g (g\<lparr>gs_pc := (gs_pc g)(t := GetDone (gs_cell g))\<rparr>)"
| other_allocation: "checked_add1 (gs_next g) = Some n \<Longrightarrow> get_step g (g\<lparr>gs_next := n\<rparr>)"

inductive get_reach :: "u64 \<Rightarrow> get_sys \<Rightarrow> bool" for n0 where
  get_start: "get_reach n0 \<lparr>gs_cell = arid arid_new_lazy, gs_next = n0, gs_pc = (\<lambda>_. AtLoad)\<rparr>"
| get_next: "get_reach n0 g \<Longrightarrow> get_step g g' \<Longrightarrow> get_reach n0 g'"

text \<open>The cell changes once, from \<open>0\<close> to an id of the range allocated so far; a returned
  value is the cell's; a thread about to exchange holds such an id.\<close>

definition get_inv :: "u64 \<Rightarrow> get_sys \<Rightarrow> bool" where
  "get_inv n0 g \<longleftrightarrow> n0 \<le> gs_next g
     \<and> (gs_cell g \<noteq> 0 \<longrightarrow> n0 \<le> gs_cell g \<and> gs_cell g < gs_next g)
     \<and> (\<forall>t a. gs_pc g t = AtCas a \<longrightarrow> n0 \<le> a \<and> a < gs_next g)
     \<and> (\<forall>t a. gs_pc g t = GetDone a \<longrightarrow> a = gs_cell g \<and> a \<noteq> 0)"

lemma checked_add1_less: "checked_add1 c = Some d \<Longrightarrow> c < d"
  by (auto simp: checked_add1_Some word_less_nat_alt unat_add1)

lemma get_step_inv: "get_step g g' \<Longrightarrow> 0 < n0 \<Longrightarrow> get_inv n0 g \<Longrightarrow> get_inv n0 g'"
proof (induction rule: get_step.induct)
  case (allocate g t n)
  then have "gs_next g < n" by (simp add: checked_add1_less)
  with allocate show ?case
    unfolding get_inv_def by (auto intro: less_trans le_less_trans less_imp_le)
next
  case (other_allocation g n)
  then have "gs_next g < n" by (simp add: checked_add1_less)
  with other_allocation show ?case
    unfolding get_inv_def by (auto intro: less_trans le_less_trans less_imp_le)
next
  case (exchange_won g t a)
  then have "n0 \<le> a" "a < gs_next g" by (auto simp: get_inv_def)
  moreover from this exchange_won have "a \<noteq> 0"
    by (metis leD)
  ultimately show ?case using exchange_won by (auto simp: get_inv_def)
qed (auto simp: get_inv_def)

lemma get_reach_inv: "get_reach n0 g \<Longrightarrow> 0 < n0 \<Longrightarrow> get_inv n0 g"
proof (induction rule: get_reach.induct)
  case get_start
  then show ?case by (simp add: get_inv_def arid_new_lazy_def)
next
  case (get_next g g')
  then show ?case using get_step_inv by blast
qed

text \<open>(C29) Two threads that race on the first use of the same resource get the same id, and it is
  an id the counter has really handed out: nonzero, at least the counter's start, below its
  current value. So a lost compare-exchange never leaves a thread with an id of its own.\<close>

theorem arid_get_race_agrees:
  assumes "get_reach n0 g" "0 < n0" "gs_pc g t = GetDone a" "gs_pc g u = GetDone b"
  shows "a = b \<and> a = gs_cell g \<and> n0 \<le> a \<and> a < gs_next g"
  using get_reach_inv [OF assms(1,2)] assms(3,4) unfolding get_inv_def by metis

lemma get_race_run:
  "get_reach 7 \<lparr>gs_cell = 8, gs_next = 9,
     gs_pc = (\<lambda>_. AtLoad)(0 := GetDone 8, Suc 0 := GetDone 8)\<rparr>"
proof -
  let ?pc = "\<lambda>p q. (\<lambda>_. AtLoad)(0 := p, Suc 0 := q)"
  have "get_reach 7 \<lparr>gs_cell = 0, gs_next = 7, gs_pc = ?pc AtLoad AtLoad\<rparr>"
    using get_start [of 7] by (simp add: arid_new_lazy_def fun_upd_def if_cancel cong: if_cong)
  from get_next [OF this load_unassigned [where t = 0]]
  have "get_reach 7 \<lparr>gs_cell = 0, gs_next = 7, gs_pc = ?pc AtAlloc AtLoad\<rparr>"
    by (simp add: fun_upd_twist)
  from get_next [OF this load_unassigned [where t = "Suc 0"]]
  have "get_reach 7 \<lparr>gs_cell = 0, gs_next = 7, gs_pc = ?pc AtAlloc AtAlloc\<rparr>"
    by simp
  from get_next [OF this allocate [where t = 0 and n = 8]]
  have "get_reach 7 \<lparr>gs_cell = 0, gs_next = 8, gs_pc = ?pc (AtCas 7) AtAlloc\<rparr>"
    by (simp add: fun_upd_twist checked_add1_def)
  from get_next [OF this allocate [where t = "Suc 0" and n = 9]]
  have "get_reach 7 \<lparr>gs_cell = 0, gs_next = 9, gs_pc = ?pc (AtCas 7) (AtCas 8)\<rparr>"
    by (simp add: checked_add1_def)
  from get_next [OF this exchange_won [where t = "Suc 0" and a = 8]]
  have "get_reach 7 \<lparr>gs_cell = 8, gs_next = 9, gs_pc = ?pc (AtCas 7) (GetDone 8)\<rparr>"
    by simp
  from get_next [OF this exchange_lost [where t = 0 and a = 7]]
  show ?thesis by (simp add: fun_upd_twist)
qed

theorem arid_get_race_agrees_witness:
  "\<exists>g. get_reach 7 g \<and> gs_pc g 0 = GetDone 8 \<and> gs_pc g (Suc 0) = GetDone 8 \<and> gs_cell g = 8
     \<and> 7 \<le> gs_cell g \<and> gs_cell g < gs_next g"
  using arid_get_race_agrees [OF get_race_run, of 0 8 "Suc 0" 8] get_race_run
  by (intro exI [where x = "\<lparr>gs_cell = 8, gs_next = 9,
     gs_pc = (\<lambda>_. AtLoad)(0 := GetDone 8, Suc 0 := GetDone 8)\<rparr>"]) simp

text \<open>The sequential \<open>get\<close> is one thread's run of these steps.\<close>

lemma arid_get_is_get_steps:
  assumes "arid_get (r, s) = (Inr i, (r', s'))" and "pcs t = AtLoad"
  shows "get_step\<^sup>*\<^sup>* \<lparr>gs_cell = arid r, gs_next = NEXT_ASYNC_LOCK_RESOURCE_ID s, gs_pc = pcs\<rparr>
     \<lparr>gs_cell = arid r', gs_next = NEXT_ASYNC_LOCK_RESOURCE_ID s', gs_pc = pcs(t := GetDone i)\<rparr>"
proof (cases "arid r = 0")
  case False
  with arid_get_Inr [OF assms(1)] have "i = arid r" "s' = s" "arid r' = arid r" by auto
  moreover have "get_step \<lparr>gs_cell = arid r, gs_next = NEXT_ASYNC_LOCK_RESOURCE_ID s, gs_pc = pcs\<rparr>
     \<lparr>gs_cell = arid r, gs_next = NEXT_ASYNC_LOCK_RESOURCE_ID s, gs_pc = pcs(t := GetDone (arid r))\<rparr>"
    using get_step.load_assigned [of "\<lparr>gs_cell = arid r, gs_next = NEXT_ASYNC_LOCK_RESOURCE_ID s,
      gs_pc = pcs\<rparr>" t] False assms(2) by simp
  ultimately show ?thesis by auto
next
  case True
  let ?n = "NEXT_ASYNC_LOCK_RESOURCE_ID s"
  let ?g0 = "\<lparr>gs_cell = 0, gs_next = ?n, gs_pc = pcs\<rparr>"
  let ?g1 = "\<lparr>gs_cell = 0, gs_next = ?n, gs_pc = pcs(t := AtAlloc)\<rparr>"
  let ?g2 = "\<lparr>gs_cell = 0, gs_next = ?n + 1, gs_pc = pcs(t := AtCas ?n)\<rparr>"
  let ?g3 = "\<lparr>gs_cell = ?n, gs_next = ?n + 1, gs_pc = pcs(t := GetDone ?n)\<rparr>"
  from True arid_get_Inr [OF assms(1)]
  have alloc: "next_async_lock_resource_id s = (Inr i, s')" and r': "arid r' = i" by auto
  from alloc have i: "i = ?n" and max: "?n \<noteq> U64_MAX"
    and s': "NEXT_ASYNC_LOCK_RESOURCE_ID s' = ?n + 1"
    by (auto simp: next_async_lock_resource_id_def checked_add1_def split: if_splits)
  have "get_step ?g0 ?g1" using get_step.load_unassigned [of ?g0 t] assms(2) by simp
  moreover have "get_step ?g1 ?g2"
    using get_step.allocate [of ?g1 t "?n + 1"] max by (simp add: checked_add1_def)
  moreover have "get_step ?g2 ?g3" using get_step.exchange_won [of ?g2 t ?n] by simp
  ultimately have "get_step\<^sup>*\<^sup>* ?g0 ?g3" by (meson converse_rtranclp_into_rtranclp r_into_rtranclp)
  then show ?thesis using True i r' s' by simp
qed

section \<open>Allocation over a run\<close>

text \<open>The ids of asynchronous resources never alias and the allocator fails closed: \<open>n\<close>
  allocations from any state either return \<open>n\<close> consecutive, pairwise different ids, or, exactly
  when the counter cannot supply them, end in the exhaustion panic instead of wrapping around.\<close>

theorem async_resource_ids_never_alias:
  "case rreplicate n next_async_lock_resource_id s of
     (Inr ids, s') \<Rightarrow> unat (NEXT_ASYNC_LOCK_RESOURCE_ID s) + n < 2 ^ 64 \<and> distinct ids \<and>
        map unat ids = [unat (NEXT_ASYNC_LOCK_RESOURCE_ID s)..<unat (NEXT_ASYNC_LOCK_RESOURCE_ID s) + n]
   | (Inl p, s') \<Rightarrow> 2 ^ 64 \<le> unat (NEXT_ASYNC_LOCK_RESOURCE_ID s) + n \<and> p = AsyncIdExhausted"
proof (cases "unat (NEXT_ASYNC_LOCK_RESOURCE_ID s) + n < 2 ^ 64")
  case True
  then obtain ids s' where run: "rreplicate n next_async_lock_resource_id s = (Inr ids, s')"
    using async_ids.allocs_total by blast
  from True async_ids.allocs_ok [OF run] async_ids.allocs_distinct [OF run] show ?thesis
    by (simp add: run)
next
  case False
  then obtain s' where "rreplicate n next_async_lock_resource_id s = (Inl AsyncIdExhausted, s')"
    using async_ids.allocs_exhausted [of s n] by auto
  with False show ?thesis by simp
qed

lemma async_reset_counters [simp]:
  "NEXT_ASYNC_LOCK_RESOURCE_ID (reset_model_async_ids_for_model s) = 1"
  "NEXT_ASYNC_LOCK_WAITER_ID (reset_model_async_ids_for_model s) = 1"
  by (simp_all add: reset_model_async_ids_for_model_def)

text \<open>The reset makes a model run reproducible: whatever the process allocated before, the
  resource ids and the waiter ids of a run that starts with it are \<open>1, 2, ...\<close> in order of
  first use.\<close>

theorem reset_ids_replay:
  assumes "n < 2 ^ 64 - 1" "m < 2 ^ 64 - 1"
  shows "\<exists>ids ws s' s''. rreplicate n next_async_lock_resource_id (reset_model_async_ids_for_model s)
          = (Inr ids, s') \<and> map unat ids = [1..<Suc n]
      \<and> rreplicate m next_async_lock_waiter_id (reset_model_async_ids_for_model s) = (Inr ws, s'')
      \<and> map unat ws = [1..<Suc m]"
proof -
  let ?r = "reset_model_async_ids_for_model s"
  have "unat (NEXT_ASYNC_LOCK_RESOURCE_ID ?r) + n < 2 ^ 64"
       "unat (NEXT_ASYNC_LOCK_WAITER_ID ?r) + m < 2 ^ 64"
    using assms by simp_all
  from async_ids.allocs_total [OF this(1)] waiter_ids.allocs_total [OF this(2)]
  obtain ids s' ws s'' where "rreplicate n next_async_lock_resource_id ?r = (Inr ids, s')"
    "rreplicate m next_async_lock_waiter_id ?r = (Inr ws, s'')" by blast
  with async_ids.allocs_ok [OF this(1)] waiter_ids.allocs_ok [OF this(2)] show ?thesis
    by auto
qed

theorem reset_ids_replay_witness:
  "\<exists>ids ws s' s''. rreplicate 2 next_async_lock_resource_id (reset_model_async_ids_for_model rt_init)
          = (Inr ids, s') \<and> map unat ids = [1..<Suc 2]
      \<and> rreplicate 3 next_async_lock_waiter_id (reset_model_async_ids_for_model rt_init) = (Inr ws, s'')
      \<and> map unat ws = [1..<Suc 3]"
  using reset_ids_replay [of 2 3 rt_init] by simp

section \<open>Runtime operations beside a wrapped library\<close>

text \<open>The wrappers of the asynchronous family run on the pair of the wrapped library's state and
  the runtime. A panic after the library handed out a guard drops the guard as it unwinds.\<close>

definition lift_id :: "('m \<Rightarrow> AsyncResourceId) \<Rightarrow> (AsyncResourceId \<Rightarrow> 'm \<Rightarrow> 'm) \<Rightarrow> ('m \<times> 'k \<times> rt, u64) rm" where
  "lift_id get put = (\<lambda>(m, k, s). case arid_get (get m, s) of (r, (c, s')) \<Rightarrow> (r, (put c m, k, s')))"

definition lift_rt :: "'a rtm \<Rightarrow> ('m \<times> 'k \<times> rt, 'a) rm" where
  "lift_rt f = (\<lambda>(m, k, s). case f s of (r, s') \<Rightarrow> (r, (m, k, s')))"

definition lift_tk :: "('k \<Rightarrow> 'a \<times> 'k) \<Rightarrow> ('m \<times> 'k \<times> rt, 'a) rm" where
  "lift_tk f = (\<lambda>(m, k, s). case f k of (x, k') \<Rightarrow> (Inr x, (m, k', s)))"

definition or_unwind :: "('k \<Rightarrow> 'k) \<Rightarrow> ('m \<times> 'k \<times> rt, 'a) rm \<Rightarrow> ('m \<times> 'k \<times> rt, 'a) rm" where
  "or_unwind cleanup f =
     (\<lambda>w. case f w of (Inl p, (m, k, s)) \<Rightarrow> (Inl p, (m, cleanup k, s)) | r \<Rightarrow> r)"

definition report :: "(rt \<Rightarrow> hook option) \<Rightarrow> HookCall \<Rightarrow> unit rtm" where
  "report read e = rmodify (\<lambda>s. notify (read s) e s)"

lemma report_apply [simp]: "report read e s = (Inr (), notify (read s) e s)"
  by (simp add: report_def)

lemma next_async_lock_waiter_id_frame:
  assumes "next_async_lock_waiter_id s = (r, s')"
  shows "calls s' = calls s \<and> async_lock_hook s' = async_lock_hook s
    \<and> async_notify_hook s' = async_notify_hook s \<and> async_channel_hook s' = async_channel_hook s
    \<and> async_broadcast_hook s' = async_broadcast_hook s
    \<and> NEXT_ASYNC_LOCK_RESOURCE_ID s' = NEXT_ASYNC_LOCK_RESOURCE_ID s
    \<and> (case r of Inl p \<Rightarrow> s' = s
       | Inr w \<Rightarrow> w = NEXT_ASYNC_LOCK_WAITER_ID s \<and> w < NEXT_ASYNC_LOCK_WAITER_ID s')"
  using assms checked_add1_less
  by (auto simp: next_async_lock_waiter_id_def hook_reads split: option.splits)

end
