(* ===== verification/LockSeam.thy ===== *)
theory LockSeam
  imports Ids
begin

text \<open>
  The blocking lock seams of the model runtime: \<^verbatim>\<open>mutex.rs\<close> and \<^verbatim>\<open>rwlock.rs\<close>,
  over the standard library's poisoning mutex and reader-writer lock. A lock call that parks on
  the standard lock returns \<open>None\<close> and is completed later by the matching resume operation.
\<close>

section \<open>The standard library's locks\<close>

datatype 'g LockResult = LockOk 'g | LockPoisoned 'g

datatype 'g TryLockResult = TryOk 'g | TryWouldBlock | TryPoisoned 'g

primrec the_guard :: "'g LockResult \<Rightarrow> 'g" where
  "the_guard (LockOk g) = g"
| "the_guard (LockPoisoned g) = g"

primrec map_lock :: "('g \<Rightarrow> 'h) \<Rightarrow> 'g LockResult \<Rightarrow> 'h LockResult" where
  "map_lock f (LockOk g) = LockOk (f g)"
| "map_lock f (LockPoisoned g) = LockPoisoned (f g)"

text \<open>A mutex: whether it is held, whether it is poisoned, and the protected value. A guard
  remembers whether its thread was already panicking when it was made, since only a panic that
  starts while the guard is alive poisons.\<close>

record 'a StdMutex =
  sm_locked :: bool
  sm_poisoned :: bool
  sm_data :: 'a

datatype StdGuard = StdGuard (made_panicking: bool)

definition StdMutex_new :: "'a \<Rightarrow> 'a StdMutex" where
  "StdMutex_new v = \<lparr>sm_locked = False, sm_poisoned = False, sm_data = v\<rparr>"

definition StdMutex_take :: "bool \<Rightarrow> 'a StdMutex \<Rightarrow> StdGuard LockResult \<times> 'a StdMutex" where
  "StdMutex_take pk m =
     (if sm_poisoned m then LockPoisoned (StdGuard pk) else LockOk (StdGuard pk), m\<lparr>sm_locked := True\<rparr>)"

definition StdMutex_lock :: "bool \<Rightarrow> 'a StdMutex \<Rightarrow> StdGuard LockResult option \<times> 'a StdMutex" where
  "StdMutex_lock pk m =
     (if sm_locked m then (None, m) else map_prod Some id (StdMutex_take pk m))"

definition StdMutex_try_lock :: "bool \<Rightarrow> 'a StdMutex \<Rightarrow> StdGuard TryLockResult \<times> 'a StdMutex" where
  "StdMutex_try_lock pk m =
     (if sm_locked m then (TryWouldBlock, m)
      else (if sm_poisoned m then TryPoisoned (StdGuard pk) else TryOk (StdGuard pk),
            m\<lparr>sm_locked := True\<rparr>))"

definition StdMutex_unlock :: "bool \<Rightarrow> StdGuard \<Rightarrow> 'a StdMutex \<Rightarrow> 'a StdMutex" where
  "StdMutex_unlock pk g m =
     m\<lparr>sm_locked := False, sm_poisoned := sm_poisoned m \<or> (pk \<and> \<not> made_panicking g)\<rparr>"

text \<open>A reader-writer lock: the number of readers, whether a writer holds it, the poison flag.
  Only a write guard poisons.\<close>

record 'a StdRwLock =
  sr_readers :: nat
  sr_writer :: bool
  sr_poisoned :: bool
  sr_data :: 'a

definition StdRwLock_new :: "'a \<Rightarrow> 'a StdRwLock" where
  "StdRwLock_new v = \<lparr>sr_readers = 0, sr_writer = False, sr_poisoned = False, sr_data = v\<rparr>"

definition sr_guard :: "bool \<Rightarrow> 'a StdRwLock \<Rightarrow> StdGuard LockResult" where
  "sr_guard pk m = (if sr_poisoned m then LockPoisoned (StdGuard pk) else LockOk (StdGuard pk))"

primrec try_of :: "'g LockResult \<Rightarrow> 'g TryLockResult" where
  "try_of (LockOk g) = TryOk g"
| "try_of (LockPoisoned g) = TryPoisoned g"

text \<open>Some platforms make a reader wait behind a queued writer, and \<open>try_read\<close> fail for it. A reader that waits longer is an interleaving in which its read comes
  later, and a failed attempt leaves lock and log as they are.\<close>

definition StdRwLock_read :: "bool \<Rightarrow> 'a StdRwLock \<Rightarrow> StdGuard LockResult option \<times> 'a StdRwLock" where
  "StdRwLock_read pk m =
     (if sr_writer m then (None, m) else (Some (sr_guard pk m), m\<lparr>sr_readers := sr_readers m + 1\<rparr>))"

definition StdRwLock_write :: "bool \<Rightarrow> 'a StdRwLock \<Rightarrow> StdGuard LockResult option \<times> 'a StdRwLock" where
  "StdRwLock_write pk m =
     (if sr_writer m \<or> sr_readers m \<noteq> 0 then (None, m)
      else (Some (sr_guard pk m), m\<lparr>sr_writer := True\<rparr>))"

definition StdRwLock_try_read :: "bool \<Rightarrow> 'a StdRwLock \<Rightarrow> StdGuard TryLockResult \<times> 'a StdRwLock" where
  "StdRwLock_try_read pk m =
     (if sr_writer m then (TryWouldBlock, m)
      else (try_of (sr_guard pk m), m\<lparr>sr_readers := sr_readers m + 1\<rparr>))"

definition StdRwLock_try_write :: "bool \<Rightarrow> 'a StdRwLock \<Rightarrow> StdGuard TryLockResult \<times> 'a StdRwLock" where
  "StdRwLock_try_write pk m =
     (if sr_writer m \<or> sr_readers m \<noteq> 0 then (TryWouldBlock, m)
      else (try_of (sr_guard pk m), m\<lparr>sr_writer := True\<rparr>))"

definition StdRwLock_read_unlock :: "StdGuard \<Rightarrow> 'a StdRwLock \<Rightarrow> 'a StdRwLock" where
  "StdRwLock_read_unlock g m = m\<lparr>sr_readers := sr_readers m - 1\<rparr>"

definition StdRwLock_write_unlock :: "bool \<Rightarrow> StdGuard \<Rightarrow> 'a StdRwLock \<Rightarrow> 'a StdRwLock" where
  "StdRwLock_write_unlock pk g m =
     m\<lparr>sr_writer := False, sr_poisoned := sr_poisoned m \<or> (pk \<and> \<not> made_panicking g)\<rparr>"

section \<open>The model mutex\<close>

record 'a ModelMutex =
  mm_resource :: u64
  mm_inner :: "'a StdMutex"

record ModelMutexGuard =
  mmg_inner :: "StdGuard option"
  mmg_resource :: u64

definition ModelMutex_new :: "'a \<Rightarrow> 'a ModelMutex rtm" where
  "ModelMutex_new v = rbind next_lock_resource_id
     (\<lambda>r. rret \<lparr>mm_resource = r, mm_inner = StdMutex_new v\<rparr>)"

abbreviation mmg :: "'a ModelMutex \<Rightarrow> StdGuard \<Rightarrow> ModelMutexGuard" where
  "mmg m g \<equiv> \<lparr>mmg_inner = Some g, mmg_resource = mm_resource m\<rparr>"

text \<open>\<open>lock\<close>: the acquire boundary comes before the attempt. Under a lock hook and a spawn hook
  (the engine schedules the thread) the attempt does not block, and a contended grant panics.\<close>

definition ModelMutex_lock ::
    "bool \<Rightarrow> 'a ModelMutex \<times> rt \<Rightarrow> (panic + ModelMutexGuard LockResult option) \<times> ('a ModelMutex \<times> rt)" where
  "ModelMutex_lock pk = (\<lambda>(m, s).
     let hook = lock_hook s;
         s1 = notify hook (LockEv (lock_acquire (mm_resource m))) s
     in if hook \<noteq> None \<and> spawn_hook s1 \<noteq> None then
          (case StdMutex_try_lock pk (mm_inner m) of
             (TryPoisoned g, i) \<Rightarrow> (Inr (Some (LockPoisoned (mmg m g))), (m\<lparr>mm_inner := i\<rparr>, s1))
           | (TryWouldBlock, i) \<Rightarrow> (Inl ContendedGrant, (m\<lparr>mm_inner := i\<rparr>, s1))
           | (TryOk g, i) \<Rightarrow> (Inr (Some (LockOk (mmg m g))), (m\<lparr>mm_inner := i\<rparr>, s1)))
        else
          (case StdMutex_lock pk (mm_inner m) of
             (None, i) \<Rightarrow> (Inr None, (m\<lparr>mm_inner := i\<rparr>, s1))
           | (Some r, i) \<Rightarrow> (Inr (Some (map_lock (mmg m) r)), (m\<lparr>mm_inner := i\<rparr>, s1))))"

text \<open>The parked call wakes up and finishes line 69 onwards.\<close>

definition ModelMutex_lock_resume ::
    "bool \<Rightarrow> 'a ModelMutex \<Rightarrow> ModelMutexGuard LockResult option \<times> 'a ModelMutex" where
  "ModelMutex_lock_resume pk m =
     (case StdMutex_lock pk (mm_inner m) of
        (None, i) \<Rightarrow> (None, m\<lparr>mm_inner := i\<rparr>)
      | (Some r, i) \<Rightarrow> (Some (map_lock (mmg m) r), m\<lparr>mm_inner := i\<rparr>))"

definition ModelMutex_try_lock ::
    "bool \<Rightarrow> 'a ModelMutex \<times> rt \<Rightarrow> ModelMutexGuard TryLockResult \<times> ('a ModelMutex \<times> rt)" where
  "ModelMutex_try_lock pk = (\<lambda>(m, s).
     case StdMutex_try_lock pk (mm_inner m) of
       (TryOk g, i) \<Rightarrow>
         (TryOk (mmg m g),
          (m\<lparr>mm_inner := i\<rparr>, notify (lock_hook s) (LockEv (lock_acquire (mm_resource m))) s))
     | (TryWouldBlock, i) \<Rightarrow> (TryWouldBlock, (m\<lparr>mm_inner := i\<rparr>, s))
     | (TryPoisoned g, i) \<Rightarrow>
         (TryPoisoned (mmg m g),
          (m\<lparr>mm_inner := i\<rparr>, notify (lock_hook s) (LockEv (lock_acquire (mm_resource m))) s)))"

definition ModelMutexGuard_deref :: "ModelMutexGuard \<Rightarrow> 'a ModelMutex \<Rightarrow> panic + 'a" where
  "ModelMutexGuard_deref g m =
     (case mmg_inner g of None \<Rightarrow> Inl GuardMissing | Some _ \<Rightarrow> Inr (sm_data (mm_inner m)))"

definition ModelMutexGuard_deref_mut ::
    "ModelMutexGuard \<Rightarrow> ('a \<Rightarrow> 'a) \<Rightarrow> 'a ModelMutex \<Rightarrow> panic + 'a ModelMutex" where
  "ModelMutexGuard_deref_mut g f m =
     (case mmg_inner g of None \<Rightarrow> Inl GuardMissing
      | Some _ \<Rightarrow> Inr (m\<lparr>mm_inner := (mm_inner m)\<lparr>sm_data := f (sm_data (mm_inner m))\<rparr>\<rparr>))"

text \<open>\<open>drop\<close> of the guard: the body reports the release unless the thread is panicking, then the
  field, the standard guard, is dropped and unlocks.\<close>

definition ModelMutexGuard_drop ::
    "bool \<Rightarrow> ModelMutexGuard \<Rightarrow> 'a ModelMutex \<times> rt \<Rightarrow> 'a ModelMutex \<times> rt" where
  "ModelMutexGuard_drop pk g = (\<lambda>(m, s).
     let s1 = (if mmg_inner g \<noteq> None \<and> \<not> pk
               then notify (lock_hook s) (LockEv (lock_release (mmg_resource g))) s else s)
     in (case mmg_inner g of None \<Rightarrow> m
           | Some sg \<Rightarrow> m\<lparr>mm_inner := StdMutex_unlock pk sg (mm_inner m)\<rparr>, s1))"

section \<open>The model reader-writer lock\<close>

record 'a ModelRwLock =
  mr_resource :: u64
  mr_inner :: "'a StdRwLock"

record ModelRwLockReadGuard =
  mrg_inner :: "StdGuard option"
  mrg_resource :: u64

record ModelRwLockWriteGuard =
  mwg_inner :: "StdGuard option"
  mwg_resource :: u64

abbreviation mrg :: "'a ModelRwLock \<Rightarrow> StdGuard \<Rightarrow> ModelRwLockReadGuard" where
  "mrg m g \<equiv> \<lparr>mrg_inner = Some g, mrg_resource = mr_resource m\<rparr>"

abbreviation mwg :: "'a ModelRwLock \<Rightarrow> StdGuard \<Rightarrow> ModelRwLockWriteGuard" where
  "mwg m g \<equiv> \<lparr>mwg_inner = Some g, mwg_resource = mr_resource m\<rparr>"

definition ModelRwLock_new :: "'a \<Rightarrow> 'a ModelRwLock rtm" where
  "ModelRwLock_new v = rbind next_lock_resource_id
     (\<lambda>r. rret \<lparr>mr_resource = r, mr_inner = StdRwLock_new v\<rparr>)"

definition ModelRwLock_read ::
    "bool \<Rightarrow> 'a ModelRwLock \<times> rt \<Rightarrow>
       (panic + ModelRwLockReadGuard LockResult option) \<times> ('a ModelRwLock \<times> rt)" where
  "ModelRwLock_read pk = (\<lambda>(m, s).
     let hook = lock_hook s;
         s1 = notify hook (LockEv (lock_acquire (mr_resource m))) s
     in if hook \<noteq> None \<and> spawn_hook s1 \<noteq> None then
          (case StdRwLock_try_read pk (mr_inner m) of
             (TryPoisoned g, i) \<Rightarrow> (Inr (Some (LockPoisoned (mrg m g))), (m\<lparr>mr_inner := i\<rparr>, s1))
           | (TryWouldBlock, i) \<Rightarrow> (Inl ContendedGrant, (m\<lparr>mr_inner := i\<rparr>, s1))
           | (TryOk g, i) \<Rightarrow> (Inr (Some (LockOk (mrg m g))), (m\<lparr>mr_inner := i\<rparr>, s1)))
        else
          (case StdRwLock_read pk (mr_inner m) of
             (None, i) \<Rightarrow> (Inr None, (m\<lparr>mr_inner := i\<rparr>, s1))
           | (Some r, i) \<Rightarrow> (Inr (Some (map_lock (mrg m) r)), (m\<lparr>mr_inner := i\<rparr>, s1))))"

definition ModelRwLock_write ::
    "bool \<Rightarrow> 'a ModelRwLock \<times> rt \<Rightarrow>
       (panic + ModelRwLockWriteGuard LockResult option) \<times> ('a ModelRwLock \<times> rt)" where
  "ModelRwLock_write pk = (\<lambda>(m, s).
     let hook = lock_hook s;
         s1 = notify hook (LockEv (lock_acquire (mr_resource m))) s
     in if hook \<noteq> None \<and> spawn_hook s1 \<noteq> None then
          (case StdRwLock_try_write pk (mr_inner m) of
             (TryPoisoned g, i) \<Rightarrow> (Inr (Some (LockPoisoned (mwg m g))), (m\<lparr>mr_inner := i\<rparr>, s1))
           | (TryWouldBlock, i) \<Rightarrow> (Inl ContendedGrant, (m\<lparr>mr_inner := i\<rparr>, s1))
           | (TryOk g, i) \<Rightarrow> (Inr (Some (LockOk (mwg m g))), (m\<lparr>mr_inner := i\<rparr>, s1)))
        else
          (case StdRwLock_write pk (mr_inner m) of
             (None, i) \<Rightarrow> (Inr None, (m\<lparr>mr_inner := i\<rparr>, s1))
           | (Some r, i) \<Rightarrow> (Inr (Some (map_lock (mwg m) r)), (m\<lparr>mr_inner := i\<rparr>, s1))))"

definition ModelRwLock_read_resume ::
    "bool \<Rightarrow> 'a ModelRwLock \<Rightarrow> ModelRwLockReadGuard LockResult option \<times> 'a ModelRwLock" where
  "ModelRwLock_read_resume pk m =
     (case StdRwLock_read pk (mr_inner m) of
        (None, i) \<Rightarrow> (None, m\<lparr>mr_inner := i\<rparr>)
      | (Some r, i) \<Rightarrow> (Some (map_lock (mrg m) r), m\<lparr>mr_inner := i\<rparr>))"

definition ModelRwLock_write_resume ::
    "bool \<Rightarrow> 'a ModelRwLock \<Rightarrow> ModelRwLockWriteGuard LockResult option \<times> 'a ModelRwLock" where
  "ModelRwLock_write_resume pk m =
     (case StdRwLock_write pk (mr_inner m) of
        (None, i) \<Rightarrow> (None, m\<lparr>mr_inner := i\<rparr>)
      | (Some r, i) \<Rightarrow> (Some (map_lock (mwg m) r), m\<lparr>mr_inner := i\<rparr>))"

definition ModelRwLock_try_read ::
    "bool \<Rightarrow> 'a ModelRwLock \<times> rt \<Rightarrow> ModelRwLockReadGuard TryLockResult \<times> ('a ModelRwLock \<times> rt)" where
  "ModelRwLock_try_read pk = (\<lambda>(m, s).
     case StdRwLock_try_read pk (mr_inner m) of
       (TryOk g, i) \<Rightarrow>
         (TryOk (mrg m g),
          (m\<lparr>mr_inner := i\<rparr>, notify (lock_hook s) (LockEv (lock_acquire (mr_resource m))) s))
     | (TryWouldBlock, i) \<Rightarrow> (TryWouldBlock, (m\<lparr>mr_inner := i\<rparr>, s))
     | (TryPoisoned g, i) \<Rightarrow>
         (TryPoisoned (mrg m g),
          (m\<lparr>mr_inner := i\<rparr>, notify (lock_hook s) (LockEv (lock_acquire (mr_resource m))) s)))"

definition ModelRwLock_try_write ::
    "bool \<Rightarrow> 'a ModelRwLock \<times> rt \<Rightarrow> ModelRwLockWriteGuard TryLockResult \<times> ('a ModelRwLock \<times> rt)" where
  "ModelRwLock_try_write pk = (\<lambda>(m, s).
     case StdRwLock_try_write pk (mr_inner m) of
       (TryOk g, i) \<Rightarrow>
         (TryOk (mwg m g),
          (m\<lparr>mr_inner := i\<rparr>, notify (lock_hook s) (LockEv (lock_acquire (mr_resource m))) s))
     | (TryWouldBlock, i) \<Rightarrow> (TryWouldBlock, (m\<lparr>mr_inner := i\<rparr>, s))
     | (TryPoisoned g, i) \<Rightarrow>
         (TryPoisoned (mwg m g),
          (m\<lparr>mr_inner := i\<rparr>, notify (lock_hook s) (LockEv (lock_acquire (mr_resource m))) s)))"

definition ModelRwLockReadGuard_deref :: "ModelRwLockReadGuard \<Rightarrow> 'a ModelRwLock \<Rightarrow> panic + 'a" where
  "ModelRwLockReadGuard_deref g m =
     (case mrg_inner g of None \<Rightarrow> Inl GuardMissing | Some _ \<Rightarrow> Inr (sr_data (mr_inner m)))"

definition ModelRwLockReadGuard_drop ::
    "bool \<Rightarrow> ModelRwLockReadGuard \<Rightarrow> 'a ModelRwLock \<times> rt \<Rightarrow> 'a ModelRwLock \<times> rt" where
  "ModelRwLockReadGuard_drop pk g = (\<lambda>(m, s).
     let s1 = (if mrg_inner g \<noteq> None \<and> \<not> pk
               then notify (lock_hook s) (LockEv (lock_release (mrg_resource g))) s else s)
     in (case mrg_inner g of None \<Rightarrow> m
           | Some sg \<Rightarrow> m\<lparr>mr_inner := StdRwLock_read_unlock sg (mr_inner m)\<rparr>, s1))"

definition ModelRwLockWriteGuard_deref :: "ModelRwLockWriteGuard \<Rightarrow> 'a ModelRwLock \<Rightarrow> panic + 'a" where
  "ModelRwLockWriteGuard_deref g m =
     (case mwg_inner g of None \<Rightarrow> Inl GuardMissing | Some _ \<Rightarrow> Inr (sr_data (mr_inner m)))"

definition ModelRwLockWriteGuard_deref_mut ::
    "ModelRwLockWriteGuard \<Rightarrow> ('a \<Rightarrow> 'a) \<Rightarrow> 'a ModelRwLock \<Rightarrow> panic + 'a ModelRwLock" where
  "ModelRwLockWriteGuard_deref_mut g f m =
     (case mwg_inner g of None \<Rightarrow> Inl GuardMissing
      | Some _ \<Rightarrow> Inr (m\<lparr>mr_inner := (mr_inner m)\<lparr>sr_data := f (sr_data (mr_inner m))\<rparr>\<rparr>))"

definition ModelRwLockWriteGuard_drop ::
    "bool \<Rightarrow> ModelRwLockWriteGuard \<Rightarrow> 'a ModelRwLock \<times> rt \<Rightarrow> 'a ModelRwLock \<times> rt" where
  "ModelRwLockWriteGuard_drop pk g = (\<lambda>(m, s).
     let s1 = (if mwg_inner g \<noteq> None \<and> \<not> pk
               then notify (lock_hook s) (LockEv (lock_release (mwg_resource g))) s else s)
     in (case mwg_inner g of None \<Rightarrow> m
           | Some sg \<Rightarrow> m\<lparr>mr_inner := StdRwLock_write_unlock pk sg (mr_inner m)\<rparr>, s1))"

section \<open>The seam adds one boundary and never blocks under the engine\<close>

lemmas std_mutex_defs = StdMutex_lock_def StdMutex_take_def StdMutex_try_lock_def StdMutex_unlock_def
lemmas std_rwlock_defs = StdRwLock_read_def StdRwLock_write_def StdRwLock_try_read_def
  StdRwLock_try_write_def StdRwLock_read_unlock_def StdRwLock_write_unlock_def sr_guard_def

definition engine_controlled :: "rt \<Rightarrow> bool" where
  "engine_controlled s \<longleftrightarrow> lock_hook s \<noteq> None \<and> spawn_hook s \<noteq> None"

text \<open>What the three blocking operations share: the standard operation \<open>std\<close> on the wrapped
  lock, one acquire boundary in front of it, and a panic instead of a park.\<close>

definition seam_lock :: "('i \<Rightarrow> StdGuard LockResult option \<times> 'i) \<Rightarrow> ('m \<Rightarrow> u64) \<Rightarrow> ('m \<Rightarrow> 'i)
    \<Rightarrow> ('i \<Rightarrow> 'm \<Rightarrow> 'm) \<Rightarrow> ('m \<Rightarrow> StdGuard \<Rightarrow> 'g) \<Rightarrow> 'm \<times> rt
    \<Rightarrow> (panic + 'g LockResult option) \<times> ('m \<times> rt)" where
  "seam_lock std res inner put wrap = (\<lambda>(m, s).
     (case fst (std (inner m)) of
        Some r \<Rightarrow> Inr (Some (map_lock (wrap m) r))
      | None \<Rightarrow> if engine_controlled s then Inl ContendedGrant else Inr None,
      (put (snd (std (inner m))) m, notify (lock_hook s) (LockEv (lock_acquire (res m))) s)))"

locale lock_seam =
  fixes lockf :: "'m \<times> rt \<Rightarrow> (panic + 'g LockResult option) \<times> ('m \<times> rt)"
    and std :: "'i \<Rightarrow> StdGuard LockResult option \<times> 'i"
    and res :: "'m \<Rightarrow> u64"
    and inner :: "'m \<Rightarrow> 'i"
    and put :: "'i \<Rightarrow> 'm \<Rightarrow> 'm"
    and wrap :: "'m \<Rightarrow> StdGuard \<Rightarrow> 'g"
  assumes lock_eq: "lockf = seam_lock std res inner put wrap"
    and put_same: "put (inner m) m = m"
    and blocked_unchanged: "fst (std i) = None \<Longrightarrow> snd (std i) = i"
begin

lemma lock_calls:
  "lockf (m, s) = (r, (m', s')) \<Longrightarrow>
     calls s' = calls s @ (case lock_hook s of None \<Rightarrow> [] | Some h \<Rightarrow> [(h, LockEv (lock_acquire (res m)))])
     \<and> lock_hook s' = lock_hook s \<and> spawn_hook s' = spawn_hook s"
  by (auto simp: lock_eq seam_lock_def)

lemma engine_never_parks: "engine_controlled s \<Longrightarrow> fst (lockf (m, s)) \<noteq> Inr None"
  by (simp add: lock_eq seam_lock_def split: option.splits)

lemma fault_iff_contended:
  "fst (lockf (m, s)) = Inl p \<longleftrightarrow> engine_controlled s \<and> fst (std (inner m)) = None \<and> p = ContendedGrant"
  by (auto simp: lock_eq seam_lock_def split: option.splits)

lemma not_granted_unchanged:
  "lockf (m, s) = (r, (m', s')) \<Longrightarrow> (\<forall>g. r \<noteq> Inr (Some g)) \<Longrightarrow> m' = m"
  by (auto simp: lock_eq seam_lock_def put_same blocked_unchanged split: option.splits)

end

lemma ModelMutex_lock_eq:
  "ModelMutex_lock pk = seam_lock (StdMutex_lock pk) mm_resource mm_inner (\<lambda>i m. m\<lparr>mm_inner := i\<rparr>) mmg"
  by (rule ext)
    (auto simp: ModelMutex_lock_def seam_lock_def std_mutex_defs engine_controlled_def Let_def)

lemma ModelRwLock_read_eq:
  "ModelRwLock_read pk = seam_lock (StdRwLock_read pk) mr_resource mr_inner (\<lambda>i m. m\<lparr>mr_inner := i\<rparr>) mrg"
  by (rule ext)
    (auto simp: ModelRwLock_read_def seam_lock_def std_rwlock_defs engine_controlled_def Let_def)

lemma ModelRwLock_write_eq:
  "ModelRwLock_write pk = seam_lock (StdRwLock_write pk) mr_resource mr_inner (\<lambda>i m. m\<lparr>mr_inner := i\<rparr>) mwg"
  by (rule ext)
    (auto simp: ModelRwLock_write_def seam_lock_def std_rwlock_defs engine_controlled_def Let_def)

interpretation mutex_seam: lock_seam "ModelMutex_lock pk" "StdMutex_lock pk" mm_resource mm_inner
  "\<lambda>i m. m\<lparr>mm_inner := i\<rparr>" mmg for pk
  by unfold_locales (simp_all add: ModelMutex_lock_eq std_mutex_defs split: if_splits)

interpretation read_seam: lock_seam "ModelRwLock_read pk" "StdRwLock_read pk" mr_resource mr_inner
  "\<lambda>i m. m\<lparr>mr_inner := i\<rparr>" mrg for pk
  by unfold_locales (simp_all add: ModelRwLock_read_eq std_rwlock_defs split: if_splits)

interpretation write_seam: lock_seam "ModelRwLock_write pk" "StdRwLock_write pk" mr_resource mr_inner
  "\<lambda>i m. m\<lparr>mr_inner := i\<rparr>" mwg for pk
  by unfold_locales (auto simp: ModelRwLock_write_eq std_rwlock_defs split: if_splits)

text \<open>The three blocking seams are transparent: each does to the wrapped standard lock
  exactly what the standard operation does and returns its result in the model guard, after one
  acquire boundary at the installed hook. The one difference is a lock that would block while the
  engine schedules the thread: the call panics with the lock untouched instead of hanging the
  engine.\<close>

theorem model_locks_transparent:
  "ModelMutex_lock pk =
     seam_lock (StdMutex_lock pk) mm_resource mm_inner (\<lambda>i m. m\<lparr>mm_inner := i\<rparr>) mmg
   \<and> ModelRwLock_read pk =
     seam_lock (StdRwLock_read pk) mr_resource mr_inner (\<lambda>i m. m\<lparr>mr_inner := i\<rparr>) mrg
   \<and> ModelRwLock_write pk =
     seam_lock (StdRwLock_write pk) mr_resource mr_inner (\<lambda>i m. m\<lparr>mr_inner := i\<rparr>) mwg"
  by (simp add: ModelMutex_lock_eq ModelRwLock_read_eq ModelRwLock_write_eq)

section \<open>Threads on one model mutex\<close>

text \<open>
  A pool of threads that lock, try to lock and drop guards of one mutex in any order, while other
  code of the process reports to the same hook. A thread is outside, parked on the standard lock,
  holding a guard, gone after dropping its guard while panicking, or gone in the contended-grant
  panic.
\<close>

datatype 'g locker = Out | Parked | Holds 'g | Unwound | Faulted

primrec locker_after :: "panic + 'g LockResult option \<Rightarrow> 'g locker" where
  "locker_after (Inl p) = Faulted"
| "locker_after (Inr r) = (case r of None \<Rightarrow> Parked | Some l \<Rightarrow> Holds (the_guard l))"

primrec locker_after_try :: "'g TryLockResult \<Rightarrow> 'g locker" where
  "locker_after_try (TryOk g) = Holds g"
| "locker_after_try (TryPoisoned g) = Holds g"
| "locker_after_try TryWouldBlock = Out"

definition acquires :: "u64 \<Rightarrow> rt \<Rightarrow> nat" where
  "acquires r s = count_list (map snd (calls s)) (LockEv (lock_acquire r))"

definition releases :: "u64 \<Rightarrow> rt \<Rightarrow> nat" where
  "releases r s = count_list (map snd (calls s)) (LockEv (lock_release r))"

text \<open>Activity of the rest of the process: the hooks stay as they are and the log grows by calls
  that are not about this lock.\<close>

definition elsewhere :: "u64 \<Rightarrow> rt \<Rightarrow> rt \<Rightarrow> bool" where
  "elsewhere r s s' \<longleftrightarrow> lock_hook s' = lock_hook s \<and> spawn_hook s' = spawn_hook s
     \<and> acquires r s' = acquires r s \<and> releases r s' = releases r s"

type_synonym 'a mutex_sys = "'a ModelMutex \<times> rt \<times> (nat \<Rightarrow> ModelMutexGuard locker)"

inductive mutex_step :: "nat \<Rightarrow> 'a mutex_sys \<Rightarrow> 'a mutex_sys \<Rightarrow> bool" for n where
  locks: "t < n \<Longrightarrow> thr t = Out \<Longrightarrow> ModelMutex_lock False (m, s) = (r, (m', s')) \<Longrightarrow>
     mutex_step n (m, s, thr) (m', s', thr(t := locker_after r))"
| resumes: "t < n \<Longrightarrow> thr t = Parked \<Longrightarrow> ModelMutex_lock_resume False m = (Some l, m') \<Longrightarrow>
     mutex_step n (m, s, thr) (m', s, thr(t := Holds (the_guard l)))"
| tries: "t < n \<Longrightarrow> thr t = Out \<Longrightarrow> ModelMutex_try_lock False (m, s) = (r, (m', s')) \<Longrightarrow>
     mutex_step n (m, s, thr) (m', s', thr(t := locker_after_try r))"
| writes: "t < n \<Longrightarrow> thr t = Holds g \<Longrightarrow> ModelMutexGuard_deref_mut g f m = Inr m' \<Longrightarrow>
     mutex_step n (m, s, thr) (m', s, thr)"
| drops: "t < n \<Longrightarrow> thr t = Holds g \<Longrightarrow> ModelMutexGuard_drop False g (m, s) = (m', s') \<Longrightarrow>
     mutex_step n (m, s, thr) (m', s', thr(t := Out))"
| unwinds: "t < n \<Longrightarrow> thr t = Holds g \<Longrightarrow> ModelMutexGuard_drop True g (m, s) = (m', s') \<Longrightarrow>
     mutex_step n (m, s, thr) (m', s', thr(t := Unwound))"
| others: "elsewhere (mm_resource m) s s' \<Longrightarrow> mutex_step n (m, s, thr) (m, s', thr)"

inductive mutex_reach :: "nat \<Rightarrow> 'a mutex_sys \<Rightarrow> 'a mutex_sys \<Rightarrow> bool" for n c0 where
  mutex_start: "mutex_reach n c0 c0"
| mutex_next: "mutex_reach n c0 c \<Longrightarrow> mutex_step n c c' \<Longrightarrow> mutex_reach n c0 c'"

primrec hold_weight :: "'g locker \<Rightarrow> nat" where
  "hold_weight Out = 0" | "hold_weight Parked = 0" | "hold_weight (Holds g) = 1"
| "hold_weight Unwound = 0" | "hold_weight Faulted = 0"

primrec open_weight :: "'g locker \<Rightarrow> nat" where
  "open_weight Out = 0" | "open_weight Parked = 1" | "open_weight (Holds g) = 1"
| "open_weight Unwound = 1" | "open_weight Faulted = 1"

definition mutex_inv :: "nat \<Rightarrow> 'a mutex_sys \<Rightarrow> bool" where
  "mutex_inv n = (\<lambda>(m, s, thr).
     lock_hook s \<noteq> None
     \<and> (\<forall>t g. thr t = Holds g \<longrightarrow> mmg_inner g \<noteq> None \<and> mmg_resource g = mm_resource m)
     \<and> (\<Sum>t<n. hold_weight (thr t)) = (if sm_locked (mm_inner m) then 1 else 0)
     \<and> acquires (mm_resource m) s = releases (mm_resource m) s + (\<Sum>t<n. open_weight (thr t))
     \<and> (spawn_hook s \<noteq> None \<longrightarrow> (\<forall>t<n. thr t \<noteq> Parked)))"

lemma acquires_notify [simp]:
  "acquires r (notify ho e s) = acquires r s + (if ho \<noteq> None \<and> e = LockEv (lock_acquire r) then 1 else 0)"
  by (auto simp: acquires_def split: option.splits)

lemma releases_notify [simp]:
  "releases r (notify ho e s) = releases r s + (if ho \<noteq> None \<and> e = LockEv (lock_release r) then 1 else 0)"
  by (auto simp: releases_def split: option.splits)

lemma mutex_inv_holds:
  assumes "mutex_inv n (m, s, thr)" "thr t = Holds g"
  shows "\<exists>sg. mmg_inner g = Some sg \<and> mmg_resource g = mm_resource m"
  using assms unfolding mutex_inv_def by fastforce

lemma mutex_step_inv:
  assumes "mutex_step n c c'" "mutex_inv n c"
  shows "mutex_inv n c'"
  using assms
proof (induction rule: mutex_step.induct)
  case (locks t thr m s r m' s')
  then have "hold_weight (thr t) = 0" "open_weight (thr t) = 0" by simp_all
  with locks show ?case
    using sum_fun_upd [OF locks(1), of hold_weight thr "locker_after r"]
      sum_fun_upd [OF locks(1), of open_weight thr "locker_after r"]
    by (auto simp: mutex_inv_def ModelMutex_lock_eq seam_lock_def std_mutex_defs engine_controlled_def
        split: if_splits)
next
  case (resumes t thr m l m' s)
  then show ?case
    using sum_fun_upd [OF resumes(1), of hold_weight thr "Holds (the_guard l)"]
      sum_fun_upd [OF resumes(1), of open_weight thr "Holds (the_guard l)"]
    by (auto simp: mutex_inv_def ModelMutex_lock_resume_def std_mutex_defs split: if_splits)
next
  case (tries t thr m s r m' s')
  then show ?case
    using sum_fun_upd [OF tries(1), of hold_weight thr "locker_after_try r"]
      sum_fun_upd [OF tries(1), of open_weight thr "locker_after_try r"]
    by (auto simp: mutex_inv_def ModelMutex_try_lock_def std_mutex_defs split: if_splits)
next
  case (writes t thr g f m m' s)
  then show ?case
    by (auto simp: mutex_inv_def ModelMutexGuard_deref_mut_def split: option.splits)
next
  case (drops t thr g m s m' s')
  then obtain sg where "mmg_inner g = Some sg" "mmg_resource g = mm_resource m"
    using mutex_inv_holds by blast
  with drops show ?case
    using sum_fun_upd [OF drops(1), of hold_weight thr Out]
      sum_fun_upd [OF drops(1), of open_weight thr Out]
    by (auto simp: mutex_inv_def ModelMutexGuard_drop_def std_mutex_defs Let_def split: if_splits)
next
  case (unwinds t thr g m s m' s')
  then obtain sg where "mmg_inner g = Some sg" "mmg_resource g = mm_resource m"
    using mutex_inv_holds by blast
  with unwinds show ?case
    using sum_fun_upd [OF unwinds(1), of hold_weight thr Unwound]
      sum_fun_upd [OF unwinds(1), of open_weight thr Unwound]
    by (auto simp: mutex_inv_def ModelMutexGuard_drop_def std_mutex_defs Let_def split: if_splits)
next
  case (others m s s' thr)
  then show ?case by (auto simp: mutex_inv_def elsewhere_def)
qed

lemma mutex_reach_inv: "mutex_reach n c0 c \<Longrightarrow> mutex_inv n c0 \<Longrightarrow> mutex_inv n c"
  by (induction rule: mutex_reach.induct) (auto intro: mutex_step_inv)

lemma mutex_new_inv:
  assumes "ModelMutex_new v s0 = (Inr m, s)" "calls s0 = []" "lock_hook s0 \<noteq> None"
  shows "mutex_inv n (m, s, \<lambda>_. Out)"
  using assms
  by (auto simp: mutex_inv_def ModelMutex_new_def rbind_eq_Inr next_lock_resource_id_def acquires_def
      releases_def StdMutex_new_def hook_reads split: option.splits)

text \<open>(C10) Threads on one model mutex under a lock hook: at every moment of every interleaving at
  most one thread holds a guard, and the hook's log accounts for every acquisition. The acquires
  reported exceed the releases by exactly the threads that hold a guard, are parked, or left by a
  panic, so the engine's view of the lock is the lock's. When a spawn hook is installed too, no
  thread is ever parked on the standard lock.\<close>

theorem mutex_exclusion_and_log_balance:
  assumes new: "ModelMutex_new v s0 = (Inr m0, s1)" and log: "calls s0 = []"
    and hook: "lock_hook s0 = Some h"
    and run: "mutex_reach n (m0, s1, \<lambda>_. Out) (m, s, thr)"
  shows "(\<forall>t<n. \<forall>u<n. \<forall>g g'. thr t = Holds g \<and> thr u = Holds g' \<longrightarrow> t = u)
    \<and> acquires (mm_resource m) s = releases (mm_resource m) s
        + (\<Sum>t<n. open_weight (thr t))
    \<and> (spawn_hook s \<noteq> None \<longrightarrow> (\<forall>t<n. thr t \<noteq> Parked))"
proof -
  have inv: "mutex_inv n (m, s, thr)"
    using mutex_reach_inv [OF run mutex_new_inv [OF new log]] hook by simp
  have "t = u" if "t < n" "u < n" "thr t = Holds g" "thr u = Holds g'" for t u g g'
    using sum_ge_two [OF that(1,2), of "\<lambda>t. hold_weight (thr t)"] inv that
    by (cases "t = u") (auto simp: mutex_inv_def split: if_splits)
  with inv show ?thesis by (auto simp: mutex_inv_def)
qed

definition hooked_rt :: rt where
  "hooked_rt = install_lock_hook 0 rt_init"

lemma ModelMutex_new_hooked:
  "ModelMutex_new v hooked_rt =
     (Inr \<lparr>mm_resource = 1, mm_inner = StdMutex_new v\<rparr>, hooked_rt\<lparr>NEXT_LOCK_RESOURCE_ID := 2\<rparr>)"
  by (simp add: ModelMutex_new_def next_lock_resource_id_def hooked_rt_def rt_init_def hook_installs
      checked_add1_def)

lemma hooked_rt_reads [simp]:
  "lock_hook (hooked_rt\<lparr>NEXT_LOCK_RESOURCE_ID := i\<rparr>) = Some 0"
  "spawn_hook (hooked_rt\<lparr>NEXT_LOCK_RESOURCE_ID := i\<rparr>) = None"
  by (simp_all add: hooked_rt_def hook_installs hook_reads rt_init_def)

lemma mutex_demo:
  "mutex_reach 2 (\<lparr>mm_resource = 1, mm_inner = StdMutex_new (5::nat)\<rparr>,
       hooked_rt\<lparr>NEXT_LOCK_RESOURCE_ID := 2\<rparr>, \<lambda>_. Out)
     (\<lparr>mm_resource = 1, mm_inner = \<lparr>sm_locked = True, sm_poisoned = False, sm_data = 5\<rparr>\<rparr>,
      notify (Some 0) (LockEv (lock_acquire 1)) (notify (Some 0) (LockEv (lock_acquire 1))
        (hooked_rt\<lparr>NEXT_LOCK_RESOURCE_ID := 2\<rparr>)),
      (\<lambda>_. Out)(0 := Holds \<lparr>mmg_inner = Some (StdGuard False), mmg_resource = 1\<rparr>, 1 := Parked))"
    (is "mutex_reach 2 (?m, ?s, _) (?m', ?s'', ?thr)")
proof -
  let ?g = "\<lparr>mmg_inner = Some (StdGuard False), mmg_resource = 1\<rparr>"
  let ?s' = "notify (Some 0) (LockEv (lock_acquire 1)) ?s"
  have one: "ModelMutex_lock False (?m, ?s) = (Inr (Some (LockOk ?g)), (?m', ?s'))"
    by (simp add: ModelMutex_lock_eq seam_lock_def engine_controlled_def std_mutex_defs StdMutex_new_def)
  have two: "ModelMutex_lock False (?m', ?s') = (Inr None, (?m', ?s''))"
    by (simp add: ModelMutex_lock_eq seam_lock_def engine_controlled_def std_mutex_defs)
  show ?thesis
    using mutex_next [OF mutex_next [OF mutex_start mutex_step.locks [OF _ _ one, of 0]]
        mutex_step.locks [OF _ _ two, of 1]]
    by simp
qed

theorem mutex_exclusion_and_log_balance_witness:
  "\<exists>m s thr. mutex_reach 2 (\<lparr>mm_resource = 1, mm_inner = StdMutex_new (5::nat)\<rparr>,
       hooked_rt\<lparr>NEXT_LOCK_RESOURCE_ID := 2\<rparr>, \<lambda>_. Out) (m, s, thr)
     \<and> thr 1 = Parked \<and> acquires (mm_resource m) s = releases (mm_resource m) s + 2"
proof -
  have "lock_hook hooked_rt = Some 0" "calls hooked_rt = []"
    by (simp_all add: hooked_rt_def hook_installs hook_reads rt_init_def)
  note balance = mutex_exclusion_and_log_balance [OF ModelMutex_new_hooked this(2,1) mutex_demo,
    THEN conjunct2, THEN conjunct1]
  show ?thesis
    by (intro exI, rule conjI, rule mutex_demo) (use balance in \<open>simp add: numeral_2_eq_2\<close>)
qed

section \<open>Threads on one model reader-writer lock\<close>

datatype rw_locker = RwOut | ReadParked | WriteParked | Reads ModelRwLockReadGuard
  | Writes ModelRwLockWriteGuard | RwUnwound | RwFaulted

primrec rw_after :: "rw_locker \<Rightarrow> ('g \<Rightarrow> rw_locker) \<Rightarrow> panic + 'g LockResult option \<Rightarrow> rw_locker" where
  "rw_after parked held (Inl p) = RwFaulted"
| "rw_after parked held (Inr r) = (case r of None \<Rightarrow> parked | Some l \<Rightarrow> held (the_guard l))"

primrec rw_after_try :: "('g \<Rightarrow> rw_locker) \<Rightarrow> 'g TryLockResult \<Rightarrow> rw_locker" where
  "rw_after_try held (TryOk g) = held g"
| "rw_after_try held (TryPoisoned g) = held g"
| "rw_after_try held TryWouldBlock = RwOut"

type_synonym 'a rwlock_sys = "'a ModelRwLock \<times> rt \<times> (nat \<Rightarrow> rw_locker)"

inductive rwlock_step :: "nat \<Rightarrow> 'a rwlock_sys \<Rightarrow> 'a rwlock_sys \<Rightarrow> bool" for n where
  reads: "t < n \<Longrightarrow> thr t = RwOut \<Longrightarrow> ModelRwLock_read False (m, s) = (r, (m', s')) \<Longrightarrow>
     rwlock_step n (m, s, thr) (m', s', thr(t := rw_after ReadParked Reads r))"
| writes: "t < n \<Longrightarrow> thr t = RwOut \<Longrightarrow> ModelRwLock_write False (m, s) = (r, (m', s')) \<Longrightarrow>
     rwlock_step n (m, s, thr) (m', s', thr(t := rw_after WriteParked Writes r))"
| read_resumes: "t < n \<Longrightarrow> thr t = ReadParked \<Longrightarrow> ModelRwLock_read_resume False m = (Some l, m') \<Longrightarrow>
     rwlock_step n (m, s, thr) (m', s, thr(t := Reads (the_guard l)))"
| write_resumes: "t < n \<Longrightarrow> thr t = WriteParked \<Longrightarrow> ModelRwLock_write_resume False m = (Some l, m') \<Longrightarrow>
     rwlock_step n (m, s, thr) (m', s, thr(t := Writes (the_guard l)))"
| tries_read: "t < n \<Longrightarrow> thr t = RwOut \<Longrightarrow> ModelRwLock_try_read False (m, s) = (r, (m', s')) \<Longrightarrow>
     rwlock_step n (m, s, thr) (m', s', thr(t := rw_after_try Reads r))"
| tries_write: "t < n \<Longrightarrow> thr t = RwOut \<Longrightarrow> ModelRwLock_try_write False (m, s) = (r, (m', s')) \<Longrightarrow>
     rwlock_step n (m, s, thr) (m', s', thr(t := rw_after_try Writes r))"
| updates: "t < n \<Longrightarrow> thr t = Writes w \<Longrightarrow> ModelRwLockWriteGuard_deref_mut w f m = Inr m' \<Longrightarrow>
     rwlock_step n (m, s, thr) (m', s, thr)"
| read_drops: "t < n \<Longrightarrow> thr t = Reads g \<Longrightarrow> ModelRwLockReadGuard_drop pk g (m, s) = (m', s') \<Longrightarrow>
     rwlock_step n (m, s, thr) (m', s', thr(t := (if pk then RwUnwound else RwOut)))"
| write_drops: "t < n \<Longrightarrow> thr t = Writes w \<Longrightarrow> ModelRwLockWriteGuard_drop pk w (m, s) = (m', s') \<Longrightarrow>
     rwlock_step n (m, s, thr) (m', s', thr(t := (if pk then RwUnwound else RwOut)))"
| rw_others: "elsewhere (mr_resource m) s s' \<Longrightarrow> rwlock_step n (m, s, thr) (m, s', thr)"

inductive rwlock_reach :: "nat \<Rightarrow> 'a rwlock_sys \<Rightarrow> 'a rwlock_sys \<Rightarrow> bool" for n c0 where
  rwlock_start: "rwlock_reach n c0 c0"
| rwlock_next: "rwlock_reach n c0 c \<Longrightarrow> rwlock_step n c c' \<Longrightarrow> rwlock_reach n c0 c'"

primrec read_weight :: "rw_locker \<Rightarrow> nat" where
  "read_weight RwOut = 0" | "read_weight ReadParked = 0" | "read_weight WriteParked = 0"
| "read_weight (Reads g) = 1" | "read_weight (Writes w) = 0" | "read_weight RwUnwound = 0"
| "read_weight RwFaulted = 0"

primrec write_weight :: "rw_locker \<Rightarrow> nat" where
  "write_weight RwOut = 0" | "write_weight ReadParked = 0" | "write_weight WriteParked = 0"
| "write_weight (Reads g) = 0" | "write_weight (Writes w) = 1" | "write_weight RwUnwound = 0"
| "write_weight RwFaulted = 0"

definition rw_open_weight :: "rw_locker \<Rightarrow> nat" where
  "rw_open_weight k = (if k = RwOut then 0 else 1)"

definition rwlock_inv :: "nat \<Rightarrow> 'a rwlock_sys \<Rightarrow> bool" where
  "rwlock_inv n = (\<lambda>(m, s, thr).
     lock_hook s \<noteq> None
     \<and> (\<forall>t g. thr t = Reads g \<longrightarrow> mrg_inner g \<noteq> None \<and> mrg_resource g = mr_resource m)
     \<and> (\<forall>t g. thr t = Writes g \<longrightarrow> mwg_inner g \<noteq> None \<and> mwg_resource g = mr_resource m)
     \<and> (\<Sum>t<n. read_weight (thr t)) = sr_readers (mr_inner m)
     \<and> (\<Sum>t<n. write_weight (thr t)) = (if sr_writer (mr_inner m) then 1 else 0)
     \<and> (sr_writer (mr_inner m) \<longrightarrow> sr_readers (mr_inner m) = 0)
     \<and> acquires (mr_resource m) s = releases (mr_resource m) s + (\<Sum>t<n. rw_open_weight (thr t))
     \<and> (spawn_hook s \<noteq> None \<longrightarrow> (\<forall>t<n. thr t \<noteq> ReadParked \<and> thr t \<noteq> WriteParked)))"

lemma rwlock_inv_guards:
  assumes "rwlock_inv n (m, s, thr)"
  shows "thr t = Reads g \<Longrightarrow> \<exists>sg. mrg_inner g = Some sg \<and> mrg_resource g = mr_resource m"
    and "thr t = Writes w \<Longrightarrow> \<exists>sg. mwg_inner w = Some sg \<and> mwg_resource w = mr_resource m"
  using assms unfolding rwlock_inv_def by fastforce+

lemma rwlock_inv_excl:
  "rwlock_inv n (m, s, thr) \<Longrightarrow> sr_writer (mr_inner m) \<Longrightarrow> sr_readers (mr_inner m) = 0"
  by (simp add: rwlock_inv_def)

primrec rw_guard_ok :: "u64 \<Rightarrow> rw_locker \<Rightarrow> bool" where
  "rw_guard_ok r RwOut = True" | "rw_guard_ok r ReadParked = True" | "rw_guard_ok r WriteParked = True"
| "rw_guard_ok r (Reads g) = (mrg_inner g \<noteq> None \<and> mrg_resource g = r)"
| "rw_guard_ok r (Writes w) = (mwg_inner w \<noteq> None \<and> mwg_resource w = r)"
| "rw_guard_ok r RwUnwound = True" | "rw_guard_ok r RwFaulted = True"

text \<open>One thread moves from its state to \<open>k\<close>: the invariant is kept when the lock's fields and
  the log move by the difference of the weights.\<close>

lemma rwlock_move:
  assumes inv: "rwlock_inv n (m, s, thr)" and t: "t < n"
    and ok: "rw_guard_ok (mr_resource m) k"
    and frame: "mr_resource m' = mr_resource m" "lock_hook s' = lock_hook s" "spawn_hook s' = spawn_hook s"
    and readers: "sr_readers (mr_inner m') + read_weight (thr t) = sr_readers (mr_inner m) + read_weight k"
    and writer: "of_bool (sr_writer (mr_inner m')) + write_weight (thr t)
        = of_bool (sr_writer (mr_inner m)) + write_weight k"
    and excl: "sr_writer (mr_inner m') \<Longrightarrow> sr_readers (mr_inner m') = 0"
    and log: "acquires (mr_resource m) s' + releases (mr_resource m) s + rw_open_weight (thr t)
        = acquires (mr_resource m) s + releases (mr_resource m) s' + rw_open_weight k"
    and park: "spawn_hook s \<noteq> None \<Longrightarrow> k \<noteq> ReadParked \<and> k \<noteq> WriteParked"
  shows "rwlock_inv n (m', s', thr(t := k))"
proof -
  have sums: "(\<Sum>i<n. f ((thr(t := k)) i)) + f (thr t) = (\<Sum>i<n. f (thr i)) + f k"
    for f :: "rw_locker \<Rightarrow> nat"
    by (rule sum_fun_upd [OF t])
  have "(\<Sum>i<n. read_weight ((thr(t := k)) i)) = sr_readers (mr_inner m')"
    using inv readers sums [of read_weight] by (simp add: rwlock_inv_def)
  moreover have "(\<Sum>i<n. write_weight ((thr(t := k)) i)) = (if sr_writer (mr_inner m') then 1 else 0)"
    using inv writer sums [of write_weight] by (simp add: rwlock_inv_def of_bool_def del: fun_upd_apply)
  moreover have "acquires (mr_resource m) s'
      = releases (mr_resource m) s' + (\<Sum>i<n. rw_open_weight ((thr(t := k)) i))"
    using inv log sums [of rw_open_weight] by (simp add: rwlock_inv_def)
  ultimately show ?thesis
    using inv ok frame excl park by (auto simp: rwlock_inv_def simp del: fun_upd_apply sum_eq_0_iff)
      (auto simp: fun_upd_def split: if_splits)
qed

lemmas rw_op_defs = ModelRwLock_read_eq ModelRwLock_write_eq seam_lock_def engine_controlled_def
  ModelRwLock_read_resume_def ModelRwLock_write_resume_def ModelRwLock_try_read_def
  ModelRwLock_try_write_def ModelRwLockReadGuard_drop_def ModelRwLockWriteGuard_drop_def
  std_rwlock_defs rw_open_weight_def Let_def

lemma rwlock_step_inv:
  assumes "rwlock_step n c c'" "rwlock_inv n c"
  shows "rwlock_inv n c'"
  using assms
proof (induction rule: rwlock_step.induct)
  case (reads t thr m s r m' s')
  then have "lock_hook s \<noteq> None" by (simp add: rwlock_inv_def)
  with reads show ?case
    by (intro rwlock_move [OF reads(4,1)]) (auto simp: rw_op_defs dest: rwlock_inv_excl split: if_splits)
next
  case (writes t thr m s r m' s')
  then have "lock_hook s \<noteq> None" by (simp add: rwlock_inv_def)
  with writes show ?case
    by (intro rwlock_move [OF writes(4,1)]) (auto simp: rw_op_defs dest: rwlock_inv_excl split: if_splits)
next
  case (read_resumes t thr m l m' s)
  then show ?case
    by (intro rwlock_move [OF read_resumes(4,1)]) (auto simp: rw_op_defs dest: rwlock_inv_excl split: if_splits)
next
  case (write_resumes t thr m l m' s)
  then show ?case
    by (intro rwlock_move [OF write_resumes(4,1)]) (auto simp: rw_op_defs dest: rwlock_inv_excl split: if_splits)
next
  case (tries_read t thr m s r m' s')
  then have "lock_hook s \<noteq> None" by (simp add: rwlock_inv_def)
  with tries_read show ?case
    by (intro rwlock_move [OF tries_read(4,1)]) (auto simp: rw_op_defs dest: rwlock_inv_excl split: if_splits)
next
  case (tries_write t thr m s r m' s')
  then have "lock_hook s \<noteq> None" by (simp add: rwlock_inv_def)
  with tries_write show ?case
    by (intro rwlock_move [OF tries_write(4,1)]) (auto simp: rw_op_defs dest: rwlock_inv_excl split: if_splits)
next
  case (updates t thr w f m m' s)
  then show ?case
    by (auto simp: rwlock_inv_def ModelRwLockWriteGuard_deref_mut_def split: option.splits)
next
  case (read_drops t thr g pk m s m' s')
  then obtain sg where g: "mrg_inner g = Some sg" "mrg_resource g = mr_resource m"
    using rwlock_inv_guards by blast
  have hook: "lock_hook s \<noteq> None" using read_drops by (simp add: rwlock_inv_def)
  have "1 \<le> (\<Sum>i<n. read_weight (thr i))"
    using read_drops(1,2) member_le_sum [of t "{..<n}" "\<lambda>i. read_weight (thr i)"] by simp
  then have "0 < sr_readers (mr_inner m)" "\<not> sr_writer (mr_inner m)"
    using read_drops(4) by (auto simp: rwlock_inv_def)
  with read_drops g hook show ?case
    by (intro rwlock_move [OF read_drops(4,1)]) (auto simp: rw_op_defs dest: rwlock_inv_excl split: if_splits)
next
  case (write_drops t thr w pk m s m' s')
  then obtain sg where g: "mwg_inner w = Some sg" "mwg_resource w = mr_resource m"
    using rwlock_inv_guards by blast
  have hook: "lock_hook s \<noteq> None" using write_drops by (simp add: rwlock_inv_def)
  have "1 \<le> (\<Sum>i<n. write_weight (thr i))"
    using write_drops(1,2) member_le_sum [of t "{..<n}" "\<lambda>i. write_weight (thr i)"] by simp
  then have "sr_writer (mr_inner m)"
    using write_drops(4) by (auto simp: rwlock_inv_def split: if_splits)
  with write_drops g hook show ?case
    by (intro rwlock_move [OF write_drops(4,1)]) (auto simp: rw_op_defs dest: rwlock_inv_excl split: if_splits)
next
  case (rw_others m s s' thr)
  then show ?case by (auto simp: rwlock_inv_def elsewhere_def)
qed

lemma rwlock_reach_inv: "rwlock_reach n c0 c \<Longrightarrow> rwlock_inv n c0 \<Longrightarrow> rwlock_inv n c"
  by (induction rule: rwlock_reach.induct) (auto intro: rwlock_step_inv)

lemma rwlock_new_inv:
  assumes "ModelRwLock_new v s0 = (Inr m, s)" "calls s0 = []" "lock_hook s0 \<noteq> None"
  shows "rwlock_inv n (m, s, \<lambda>_. RwOut)"
  using assms
  by (auto simp: rwlock_inv_def ModelRwLock_new_def rbind_eq_Inr next_lock_resource_id_def acquires_def
      releases_def StdRwLock_new_def hook_reads rw_open_weight_def split: option.splits)

text \<open>(C12) Threads on one model reader-writer lock under a lock hook: in every interleaving a
  writer excludes every other holder while readers may share, and the acquires reported exceed
  the releases by exactly the threads that are inside, parked or gone in a panic, readers and
  writers alike. With a spawn hook installed no thread ever parks.\<close>

theorem rwlock_exclusion_and_log_balance:
  assumes new: "ModelRwLock_new v s0 = (Inr m0, s1)" and log: "calls s0 = []"
    and hook: "lock_hook s0 = Some h"
    and run: "rwlock_reach n (m0, s1, \<lambda>_. RwOut) (m, s, thr)"
  shows "(\<forall>t<n. \<forall>u<n. \<forall>w. thr t = Writes w \<and> t \<noteq> u \<longrightarrow>
            (\<forall>g. thr u \<noteq> Reads g) \<and> (\<forall>w'. thr u \<noteq> Writes w'))
    \<and> acquires (mr_resource m) s = releases (mr_resource m) s
        + card {t. t < n \<and> thr t \<noteq> RwOut}
    \<and> (spawn_hook s \<noteq> None \<longrightarrow> (\<forall>t<n. thr t \<noteq> ReadParked \<and> thr t \<noteq> WriteParked))"
proof -
  have inv: "rwlock_inv n (m, s, thr)"
    using rwlock_reach_inv [OF run rwlock_new_inv [OF new log]] hook by simp
  have no_two: "\<not> (\<exists>w'. thr u = Writes w')" if "t < n" "u < n" "thr t = Writes w" "t \<noteq> u" for t u w
    using sum_ge_two [OF that(1,2,4), of "\<lambda>t. write_weight (thr t)"] inv that
    by (auto simp: rwlock_inv_def split: if_splits)
  have no_reader: "\<not> (\<exists>g. thr u = Reads g)" if "t < n" "u < n" "thr t = Writes w" for t u w
  proof
    assume "\<exists>g. thr u = Reads g"
    then have "1 \<le> (\<Sum>i<n. read_weight (thr i))" "1 \<le> (\<Sum>i<n. write_weight (thr i))"
      using that member_le_sum [of u "{..<n}" "\<lambda>i. read_weight (thr i)"]
        member_le_sum [of t "{..<n}" "\<lambda>i. write_weight (thr i)"] by auto
    with inv show False by (auto simp: rwlock_inv_def split: if_splits)
  qed
  have "acquires (mr_resource m) s = releases (mr_resource m) s + (\<Sum>t<n. rw_open_weight (thr t))"
    and park: "spawn_hook s \<noteq> None \<longrightarrow> (\<forall>t<n. thr t \<noteq> ReadParked \<and> thr t \<noteq> WriteParked)"
    using inv by (simp_all add: rwlock_inv_def)
  moreover have "(\<Sum>t<n. rw_open_weight (thr t)) = card {t. t < n \<and> thr t \<noteq> RwOut}"
    by (simp add: rw_open_weight_def sum.If_cases Int_def lessThan_def)
  ultimately have "acquires (mr_resource m) s = releases (mr_resource m) s
      + card {t. t < n \<and> thr t \<noteq> RwOut}" by (simp only:)
  then show ?thesis using no_two no_reader park by blast
qed

lemma ModelRwLock_new_hooked:
  "ModelRwLock_new v hooked_rt =
     (Inr \<lparr>mr_resource = 1, mr_inner = StdRwLock_new v\<rparr>, hooked_rt\<lparr>NEXT_LOCK_RESOURCE_ID := 2\<rparr>)"
  by (simp add: ModelRwLock_new_def next_lock_resource_id_def hooked_rt_def rt_init_def hook_installs
      checked_add1_def)

lemma rwlock_demo:
  "rwlock_reach 2 (\<lparr>mr_resource = 1, mr_inner = StdRwLock_new (5::nat)\<rparr>,
       hooked_rt\<lparr>NEXT_LOCK_RESOURCE_ID := 2\<rparr>, \<lambda>_. RwOut)
     (\<lparr>mr_resource = 1, mr_inner = \<lparr>sr_readers = 0, sr_writer = True, sr_poisoned = False, sr_data = 5\<rparr>\<rparr>,
      notify (Some 0) (LockEv (lock_acquire 1)) (notify (Some 0) (LockEv (lock_acquire 1))
        (hooked_rt\<lparr>NEXT_LOCK_RESOURCE_ID := 2\<rparr>)),
      (\<lambda>_. RwOut)(0 := Writes \<lparr>mwg_inner = Some (StdGuard False), mwg_resource = 1\<rparr>, 1 := ReadParked))"
    (is "rwlock_reach 2 (?m, ?s, _) (?m', ?s'', ?thr)")
proof -
  let ?g = "\<lparr>mwg_inner = Some (StdGuard False), mwg_resource = 1\<rparr>"
  let ?s' = "notify (Some 0) (LockEv (lock_acquire 1)) ?s"
  have one: "ModelRwLock_write False (?m, ?s) = (Inr (Some (LockOk ?g)), (?m', ?s'))"
    by (simp add: rw_op_defs StdRwLock_new_def)
  have two: "ModelRwLock_read False (?m', ?s') = (Inr None, (?m', ?s''))"
    by (simp add: rw_op_defs)
  show ?thesis
    using rwlock_next [OF rwlock_next [OF rwlock_start rwlock_step.writes [OF _ _ one, of 0]]
        rwlock_step.reads [OF _ _ two, of 1]]
    by simp
qed

theorem rwlock_exclusion_and_log_balance_witness:
  "\<exists>m s thr. rwlock_reach 2 (\<lparr>mr_resource = 1, mr_inner = StdRwLock_new (5::nat)\<rparr>,
       hooked_rt\<lparr>NEXT_LOCK_RESOURCE_ID := 2\<rparr>, \<lambda>_. RwOut) (m, s, thr)
     \<and> thr 1 = ReadParked \<and> (\<forall>g. thr 1 \<noteq> Reads g)"
proof -
  have hooks: "lock_hook hooked_rt = Some 0" "calls hooked_rt = []"
    by (simp_all add: hooked_rt_def hook_installs hook_reads rt_init_def)
  note excl = rwlock_exclusion_and_log_balance [OF ModelRwLock_new_hooked hooks(2,1) rwlock_demo,
    THEN conjunct1, rule_format, of 0 1]
  show ?thesis
    by (intro exI, rule conjI, rule rwlock_demo) (use excl in simp)
qed

end
