(* ===== verification/AsyncLocks.thy ===== *)
theory AsyncLocks
  imports Ids
begin

text \<open>
  The asynchronous lock seams: \<^verbatim>\<open>async_mutex.rs\<close>, \<^verbatim>\<open>async_rwlock.rs\<close> and
  \<^verbatim>\<open>async_semaphore.rs\<close>. Each wraps a tokio primitive, which is a parameter here: a record of
  the functions the wrapper calls, acting on a tokio state of any type. The wrappers' operations
  run in the pair of that state and the model runtime.
\<close>

section \<open>The wrapped library\<close>

record ('k, 'm, 'f, 'g, 'v) tokio_lock =
  tk_new :: "'v \<Rightarrow> 'k \<Rightarrow> 'm \<times> 'k"
  tk_acquire :: "'m \<Rightarrow> 'k \<Rightarrow> 'f \<times> 'k"
  tk_poll :: "'f \<Rightarrow> 'k \<Rightarrow> 'g poll \<times> 'f \<times> 'k"
  tk_try :: "'m \<Rightarrow> 'k \<Rightarrow> 'g option \<times> 'k"
  tk_drop_future :: "'f \<Rightarrow> 'k \<Rightarrow> 'k"
  tk_drop_guard :: "'g \<Rightarrow> 'k \<Rightarrow> 'k"
  tk_deref :: "'g \<Rightarrow> 'k \<Rightarrow> 'v"
  tk_deref_mut :: "'g \<Rightarrow> ('v \<Rightarrow> 'v) \<Rightarrow> 'k \<Rightarrow> 'k"
  tk_into_inner :: "'m \<Rightarrow> 'k \<Rightarrow> 'v \<times> 'k"
  tk_get_mut :: "'m \<Rightarrow> ('v \<Rightarrow> 'v) \<Rightarrow> 'k \<Rightarrow> 'k"

text \<open>A semaphore's future ends in a permit or in the error of a closed semaphore.\<close>

record ('k, 'm, 'f, 'p) tokio_semaphore =
  ts_new :: "usize \<Rightarrow> 'k \<Rightarrow> 'm \<times> 'k"
  ts_available :: "'m \<Rightarrow> 'k \<Rightarrow> usize"
  ts_add_permits :: "'m \<Rightarrow> usize \<Rightarrow> 'k \<Rightarrow> 'k"
  ts_acquire :: "'m \<Rightarrow> 'k \<Rightarrow> 'f \<times> 'k"
  ts_acquire_many :: "'m \<Rightarrow> u32 \<Rightarrow> 'k \<Rightarrow> 'f \<times> 'k"
  ts_poll :: "'f \<Rightarrow> 'k \<Rightarrow> (unit + 'p) poll \<times> 'f \<times> 'k"
  ts_try_acquire :: "'m \<Rightarrow> 'k \<Rightarrow> 'p option \<times> 'k"
  ts_try_acquire_many :: "'m \<Rightarrow> u32 \<Rightarrow> 'k \<Rightarrow> 'p option \<times> 'k"
  ts_drop_future :: "'f \<Rightarrow> 'k \<Rightarrow> 'k"
  ts_drop_permit :: "'p \<Rightarrow> 'k \<Rightarrow> 'k"
  ts_forget_permit :: "'p \<Rightarrow> 'k \<Rightarrow> 'k"

section \<open>The asynchronous mutex\<close>

record 'm ModelAsyncMutex =
  am_resource :: AsyncResourceId
  am_inner :: 'm

definition ModelAsyncMutex_new ::
    "('k, 'm, 'f, 'g, 'v) tokio_lock \<Rightarrow> 'v \<Rightarrow> 'k \<times> rt \<Rightarrow> (panic + 'm ModelAsyncMutex) \<times> ('k \<times> rt)" where
  "ModelAsyncMutex_new T v = (\<lambda>(k, s).
     case arid_new_eager s of
       (Inl p, s') \<Rightarrow> (Inl p, (k, s'))
     | (Inr r, s') \<Rightarrow>
         (case tk_new T v k of (i, k') \<Rightarrow> (Inr \<lparr>am_resource = r, am_inner = i\<rparr>, (k', s'))))"

definition ModelAsyncMutex_const_new ::
    "('k, 'm, 'f, 'g, 'v) tokio_lock \<Rightarrow> 'v \<Rightarrow> 'k \<Rightarrow> 'm ModelAsyncMutex \<times> 'k" where
  "ModelAsyncMutex_const_new T v k =
     (case tk_new T v k of (i, k') \<Rightarrow> (\<lparr>am_resource = arid_new_lazy, am_inner = i\<rparr>, k'))"

definition ModelAsyncMutex_into_inner ::
    "('k, 'm, 'f, 'g, 'v) tokio_lock \<Rightarrow> 'm ModelAsyncMutex \<Rightarrow> 'k \<Rightarrow> 'v \<times> 'k" where
  "ModelAsyncMutex_into_inner T m k = tk_into_inner T (am_inner m) k"

definition ModelAsyncMutex_get_mut ::
    "('k, 'm, 'f, 'g, 'v) tokio_lock \<Rightarrow> 'm ModelAsyncMutex \<Rightarrow> ('v \<Rightarrow> 'v) \<Rightarrow> 'k \<Rightarrow> 'k" where
  "ModelAsyncMutex_get_mut T m u k = tk_get_mut T (am_inner m) u k"

record 'f ModelAsyncLock =
  aml_resource :: u64
  aml_waiter :: u64
  aml_inner :: 'f
  aml_requested_emitted :: bool
  aml_acquired :: bool

record 'g ModelAsyncMutexGuard =
  amg_inner :: 'g
  amg_resource :: u64
  amg_waiter :: u64

definition ModelAsyncMutex_lock ::
    "('k, 'm, 'f, 'g, 'v) tokio_lock \<Rightarrow> ('m ModelAsyncMutex \<times> 'k \<times> rt, 'f ModelAsyncLock) rm" where
  "ModelAsyncMutex_lock T = (\<lambda>(m, w).
     rbind (lift_id am_resource (\<lambda>c m. m\<lparr>am_resource := c\<rparr>)) (\<lambda>resource.
     rbind (lift_rt next_async_lock_waiter_id) (\<lambda>waiter.
     rbind (lift_tk (tk_acquire T (am_inner m))) (\<lambda>i.
     rret \<lparr>aml_resource = resource, aml_waiter = waiter, aml_inner = i,
           aml_requested_emitted = False, aml_acquired = False\<rparr>))) (m, w))"

definition ModelAsyncMutex_try_lock ::
    "('k, 'm, 'f, 'g, 'v) tokio_lock \<Rightarrow> ('m ModelAsyncMutex \<times> 'k \<times> rt, 'g ModelAsyncMutexGuard option) rm" where
  "ModelAsyncMutex_try_lock T = (\<lambda>(m, w).
     rbind (lift_tk (tk_try T (am_inner m))) (\<lambda>attempt.
     case attempt of
       None \<Rightarrow> rret None
     | Some i \<Rightarrow>
         or_unwind (tk_drop_guard T i)
           (rbind (lift_id am_resource (\<lambda>c m. m\<lparr>am_resource := c\<rparr>)) (\<lambda>resource.
            rbind (lift_rt next_async_lock_waiter_id) (\<lambda>waiter.
            rbind (lift_rt (report async_lock_hook (ALockEv (al_acquired resource waiter AcqMutex)))) (\<lambda>_.
            rret (Some \<lparr>amg_inner = i, amg_resource = resource, amg_waiter = waiter\<rparr>)))))) (m, w))"

definition ModelAsyncLock_poll :: "('k, 'm, 'f, 'g, 'v) tokio_lock \<Rightarrow> 'f ModelAsyncLock \<Rightarrow> 'k \<times> rt
    \<Rightarrow> 'g ModelAsyncMutexGuard poll \<times> 'f ModelAsyncLock \<times> ('k \<times> rt)" where
  "ModelAsyncLock_poll T l = (\<lambda>(k, s).
     case tk_poll T (aml_inner l) k of
       (Pending, i, k') \<Rightarrow>
         if \<not> aml_requested_emitted l
         then (Pending, l\<lparr>aml_inner := i, aml_requested_emitted := True\<rparr>,
               (k', notify (async_lock_hook s)
                      (ALockEv (al_requested (aml_resource l) (aml_waiter l) AcqMutex)) s))
         else (Pending, l\<lparr>aml_inner := i\<rparr>, (k', s))
     | (Ready g, i, k') \<Rightarrow>
         (Ready \<lparr>amg_inner = g, amg_resource = aml_resource l, amg_waiter = aml_waiter l\<rparr>,
          l\<lparr>aml_inner := i, aml_acquired := True\<rparr>,
          (k', notify (async_lock_hook s)
                 (ALockEv (al_acquired (aml_resource l) (aml_waiter l) AcqMutex)) s)))"

definition ModelAsyncLock_drop :: "('k, 'm, 'f, 'g, 'v) tokio_lock \<Rightarrow> 'f ModelAsyncLock \<Rightarrow> 'k \<times> rt \<Rightarrow> 'k \<times> rt" where
  "ModelAsyncLock_drop T l = (\<lambda>(k, s).
     (tk_drop_future T (aml_inner l) k,
      if aml_requested_emitted l \<and> \<not> aml_acquired l
      then notify (async_lock_hook s) (ALockEv (al_waiter_dropped (aml_resource l) (aml_waiter l))) s
      else s))"

definition ModelAsyncMutexGuard_deref :: "('k, 'm, 'f, 'g, 'v) tokio_lock \<Rightarrow> 'g ModelAsyncMutexGuard \<Rightarrow> 'k \<Rightarrow> 'v" where
  "ModelAsyncMutexGuard_deref T g k = tk_deref T (amg_inner g) k"

definition ModelAsyncMutexGuard_deref_mut ::
    "('k, 'm, 'f, 'g, 'v) tokio_lock \<Rightarrow> 'g ModelAsyncMutexGuard \<Rightarrow> ('v \<Rightarrow> 'v) \<Rightarrow> 'k \<Rightarrow> 'k" where
  "ModelAsyncMutexGuard_deref_mut T g u k = tk_deref_mut T (amg_inner g) u k"

definition ModelAsyncMutexGuard_drop :: "('k, 'm, 'f, 'g, 'v) tokio_lock \<Rightarrow> 'g ModelAsyncMutexGuard \<Rightarrow> 'k \<times> rt \<Rightarrow> 'k \<times> rt" where
  "ModelAsyncMutexGuard_drop T g = (\<lambda>(k, s).
     (tk_drop_guard T (amg_inner g) k,
      notify (async_lock_hook s) (ALockEv (al_released (amg_resource g) (amg_waiter g) AcqMutex)) s))"

section \<open>The asynchronous reader-writer lock\<close>

text \<open>One tokio record serves the read side and one the write side, over the same lock.\<close>

record 'm ModelAsyncRwLock =
  ar_resource :: AsyncResourceId
  ar_inner :: 'm

definition ModelAsyncRwLock_new ::
    "('k, 'm, 'f, 'g, 'v) tokio_lock \<Rightarrow> 'v \<Rightarrow> 'k \<times> rt \<Rightarrow> (panic + 'm ModelAsyncRwLock) \<times> ('k \<times> rt)" where
  "ModelAsyncRwLock_new T v = (\<lambda>(k, s).
     case arid_new_eager s of
       (Inl p, s') \<Rightarrow> (Inl p, (k, s'))
     | (Inr r, s') \<Rightarrow>
         (case tk_new T v k of (i, k') \<Rightarrow> (Inr \<lparr>ar_resource = r, ar_inner = i\<rparr>, (k', s'))))"

definition ModelAsyncRwLock_const_new ::
    "('k, 'm, 'f, 'g, 'v) tokio_lock \<Rightarrow> 'v \<Rightarrow> 'k \<Rightarrow> 'm ModelAsyncRwLock \<times> 'k" where
  "ModelAsyncRwLock_const_new T v k =
     (case tk_new T v k of (i, k') \<Rightarrow> (\<lparr>ar_resource = arid_new_lazy, ar_inner = i\<rparr>, k'))"

definition ModelAsyncRwLock_into_inner ::
    "('k, 'm, 'f, 'g, 'v) tokio_lock \<Rightarrow> 'm ModelAsyncRwLock \<Rightarrow> 'k \<Rightarrow> 'v \<times> 'k" where
  "ModelAsyncRwLock_into_inner T m k = tk_into_inner T (ar_inner m) k"

definition ModelAsyncRwLock_get_mut ::
    "('k, 'm, 'f, 'g, 'v) tokio_lock \<Rightarrow> 'm ModelAsyncRwLock \<Rightarrow> ('v \<Rightarrow> 'v) \<Rightarrow> 'k \<Rightarrow> 'k" where
  "ModelAsyncRwLock_get_mut T m u k = tk_get_mut T (ar_inner m) u k"

record 'f ModelAsyncRead =
  arr_resource :: u64
  arr_waiter :: u64
  arr_inner :: 'f
  arr_requested_emitted :: bool
  arr_acquired :: bool

record 'f ModelAsyncWrite =
  arw_resource :: u64
  arw_waiter :: u64
  arw_inner :: 'f
  arw_requested_emitted :: bool
  arw_acquired :: bool

record 'g ModelAsyncRwLockReadGuard =
  arrg_inner :: 'g
  arrg_resource :: u64
  arrg_waiter :: u64

record 'g ModelAsyncRwLockWriteGuard =
  arwg_inner :: 'g
  arwg_resource :: u64
  arwg_waiter :: u64

definition ModelAsyncRwLock_try_read ::
    "('k, 'm, 'f, 'g, 'v) tokio_lock \<Rightarrow> ('m ModelAsyncRwLock \<times> 'k \<times> rt, 'g ModelAsyncRwLockReadGuard option) rm" where
  "ModelAsyncRwLock_try_read T = (\<lambda>(m, w).
     rbind (lift_tk (tk_try T (ar_inner m))) (\<lambda>attempt.
     case attempt of
       None \<Rightarrow> rret None
     | Some i \<Rightarrow>
         or_unwind (tk_drop_guard T i)
           (rbind (lift_id ar_resource (\<lambda>c m. m\<lparr>ar_resource := c\<rparr>)) (\<lambda>resource.
            rbind (lift_rt next_async_lock_waiter_id) (\<lambda>waiter.
            rbind (lift_rt (report async_lock_hook (ALockEv (al_acquired resource waiter AcqRwRead)))) (\<lambda>_.
            rret (Some \<lparr>arrg_inner = i, arrg_resource = resource, arrg_waiter = waiter\<rparr>)))))) (m, w))"

definition ModelAsyncRwLock_try_write ::
    "('k, 'm, 'f, 'g, 'v) tokio_lock \<Rightarrow> ('m ModelAsyncRwLock \<times> 'k \<times> rt, 'g ModelAsyncRwLockWriteGuard option) rm" where
  "ModelAsyncRwLock_try_write T = (\<lambda>(m, w).
     rbind (lift_tk (tk_try T (ar_inner m))) (\<lambda>attempt.
     case attempt of
       None \<Rightarrow> rret None
     | Some i \<Rightarrow>
         or_unwind (tk_drop_guard T i)
           (rbind (lift_id ar_resource (\<lambda>c m. m\<lparr>ar_resource := c\<rparr>)) (\<lambda>resource.
            rbind (lift_rt next_async_lock_waiter_id) (\<lambda>waiter.
            rbind (lift_rt (report async_lock_hook (ALockEv (al_acquired resource waiter AcqRwWrite)))) (\<lambda>_.
            rret (Some \<lparr>arwg_inner = i, arwg_resource = resource, arwg_waiter = waiter\<rparr>)))))) (m, w))"

definition ModelAsyncRwLock_read ::
    "('k, 'm, 'f, 'g, 'v) tokio_lock \<Rightarrow> ('m ModelAsyncRwLock \<times> 'k \<times> rt, 'f ModelAsyncRead) rm" where
  "ModelAsyncRwLock_read T = (\<lambda>(m, w).
     rbind (lift_id ar_resource (\<lambda>c m. m\<lparr>ar_resource := c\<rparr>)) (\<lambda>resource.
     rbind (lift_rt next_async_lock_waiter_id) (\<lambda>waiter.
     rbind (lift_tk (tk_acquire T (ar_inner m))) (\<lambda>i.
     rret \<lparr>arr_resource = resource, arr_waiter = waiter, arr_inner = i,
           arr_requested_emitted = False, arr_acquired = False\<rparr>))) (m, w))"

definition ModelAsyncRwLock_write ::
    "('k, 'm, 'f, 'g, 'v) tokio_lock \<Rightarrow> ('m ModelAsyncRwLock \<times> 'k \<times> rt, 'f ModelAsyncWrite) rm" where
  "ModelAsyncRwLock_write T = (\<lambda>(m, w).
     rbind (lift_id ar_resource (\<lambda>c m. m\<lparr>ar_resource := c\<rparr>)) (\<lambda>resource.
     rbind (lift_rt next_async_lock_waiter_id) (\<lambda>waiter.
     rbind (lift_tk (tk_acquire T (ar_inner m))) (\<lambda>i.
     rret \<lparr>arw_resource = resource, arw_waiter = waiter, arw_inner = i,
           arw_requested_emitted = False, arw_acquired = False\<rparr>))) (m, w))"

definition ModelAsyncRead_poll :: "('k, 'm, 'f, 'g, 'v) tokio_lock \<Rightarrow> 'f ModelAsyncRead \<Rightarrow> 'k \<times> rt
    \<Rightarrow> 'g ModelAsyncRwLockReadGuard poll \<times> 'f ModelAsyncRead \<times> ('k \<times> rt)" where
  "ModelAsyncRead_poll T l = (\<lambda>(k, s).
     case tk_poll T (arr_inner l) k of
       (Pending, i, k') \<Rightarrow>
         if \<not> arr_requested_emitted l
         then (Pending, l\<lparr>arr_inner := i, arr_requested_emitted := True\<rparr>,
               (k', notify (async_lock_hook s)
                      (ALockEv (al_requested (arr_resource l) (arr_waiter l) AcqRwRead)) s))
         else (Pending, l\<lparr>arr_inner := i\<rparr>, (k', s))
     | (Ready g, i, k') \<Rightarrow>
         (Ready \<lparr>arrg_inner = g, arrg_resource = arr_resource l, arrg_waiter = arr_waiter l\<rparr>,
          l\<lparr>arr_inner := i, arr_acquired := True\<rparr>,
          (k', notify (async_lock_hook s)
                 (ALockEv (al_acquired (arr_resource l) (arr_waiter l) AcqRwRead)) s)))"

definition ModelAsyncRead_drop :: "('k, 'm, 'f, 'g, 'v) tokio_lock \<Rightarrow> 'f ModelAsyncRead \<Rightarrow> 'k \<times> rt \<Rightarrow> 'k \<times> rt" where
  "ModelAsyncRead_drop T l = (\<lambda>(k, s).
     (tk_drop_future T (arr_inner l) k,
      if arr_requested_emitted l \<and> \<not> arr_acquired l
      then notify (async_lock_hook s) (ALockEv (al_waiter_dropped (arr_resource l) (arr_waiter l))) s
      else s))"

definition ModelAsyncWrite_poll :: "('k, 'm, 'f, 'g, 'v) tokio_lock \<Rightarrow> 'f ModelAsyncWrite \<Rightarrow> 'k \<times> rt
    \<Rightarrow> 'g ModelAsyncRwLockWriteGuard poll \<times> 'f ModelAsyncWrite \<times> ('k \<times> rt)" where
  "ModelAsyncWrite_poll T l = (\<lambda>(k, s).
     case tk_poll T (arw_inner l) k of
       (Pending, i, k') \<Rightarrow>
         if \<not> arw_requested_emitted l
         then (Pending, l\<lparr>arw_inner := i, arw_requested_emitted := True\<rparr>,
               (k', notify (async_lock_hook s)
                      (ALockEv (al_requested (arw_resource l) (arw_waiter l) AcqRwWrite)) s))
         else (Pending, l\<lparr>arw_inner := i\<rparr>, (k', s))
     | (Ready g, i, k') \<Rightarrow>
         (Ready \<lparr>arwg_inner = g, arwg_resource = arw_resource l, arwg_waiter = arw_waiter l\<rparr>,
          l\<lparr>arw_inner := i, arw_acquired := True\<rparr>,
          (k', notify (async_lock_hook s)
                 (ALockEv (al_acquired (arw_resource l) (arw_waiter l) AcqRwWrite)) s)))"

definition ModelAsyncWrite_drop :: "('k, 'm, 'f, 'g, 'v) tokio_lock \<Rightarrow> 'f ModelAsyncWrite \<Rightarrow> 'k \<times> rt \<Rightarrow> 'k \<times> rt" where
  "ModelAsyncWrite_drop T l = (\<lambda>(k, s).
     (tk_drop_future T (arw_inner l) k,
      if arw_requested_emitted l \<and> \<not> arw_acquired l
      then notify (async_lock_hook s) (ALockEv (al_waiter_dropped (arw_resource l) (arw_waiter l))) s
      else s))"

definition ModelAsyncRwLockReadGuard_deref :: "('k, 'm, 'f, 'g, 'v) tokio_lock \<Rightarrow> 'g ModelAsyncRwLockReadGuard \<Rightarrow> 'k \<Rightarrow> 'v" where
  "ModelAsyncRwLockReadGuard_deref T g k = tk_deref T (arrg_inner g) k"

definition ModelAsyncRwLockReadGuard_drop :: "('k, 'm, 'f, 'g, 'v) tokio_lock \<Rightarrow> 'g ModelAsyncRwLockReadGuard \<Rightarrow> 'k \<times> rt \<Rightarrow> 'k \<times> rt" where
  "ModelAsyncRwLockReadGuard_drop T g = (\<lambda>(k, s).
     (tk_drop_guard T (arrg_inner g) k,
      notify (async_lock_hook s) (ALockEv (al_released (arrg_resource g) (arrg_waiter g) AcqRwRead)) s))"

definition ModelAsyncRwLockWriteGuard_deref :: "('k, 'm, 'f, 'g, 'v) tokio_lock \<Rightarrow> 'g ModelAsyncRwLockWriteGuard \<Rightarrow> 'k \<Rightarrow> 'v" where
  "ModelAsyncRwLockWriteGuard_deref T g k = tk_deref T (arwg_inner g) k"

definition ModelAsyncRwLockWriteGuard_deref_mut ::
    "('k, 'm, 'f, 'g, 'v) tokio_lock \<Rightarrow> 'g ModelAsyncRwLockWriteGuard \<Rightarrow> ('v \<Rightarrow> 'v) \<Rightarrow> 'k \<Rightarrow> 'k" where
  "ModelAsyncRwLockWriteGuard_deref_mut T g u k = tk_deref_mut T (arwg_inner g) u k"

definition ModelAsyncRwLockWriteGuard_drop :: "('k, 'm, 'f, 'g, 'v) tokio_lock \<Rightarrow> 'g ModelAsyncRwLockWriteGuard \<Rightarrow> 'k \<times> rt \<Rightarrow> 'k \<times> rt" where
  "ModelAsyncRwLockWriteGuard_drop T g = (\<lambda>(k, s).
     (tk_drop_guard T (arwg_inner g) k,
      notify (async_lock_hook s) (ALockEv (al_released (arwg_resource g) (arwg_waiter g) AcqRwWrite)) s))"

section \<open>The asynchronous semaphore\<close>

record 'm ModelAsyncSemaphore =
  as_resource :: AsyncResourceId
  as_inner :: 'm
  as_initial_permits :: usize
  as_created_reported :: bool

record 'f ModelSemaphoreAcquire =
  asa_resource :: u64
  asa_waiter :: u64
  asa_permits :: u32
  asa_inner :: 'f
  asa_requested_emitted :: bool
  asa_resolved :: bool
  asa_initial_permits :: usize

record 'p ModelSemaphorePermit =
  asp_inner :: "'p option"
  asp_resource :: u64
  asp_waiter :: u64
  asp_permits :: u32

text \<open>\<open>hook_with_created\<close>: the hook for the next boundary, after the one-time report of the
  capacity. The flag is the semaphore's atomic, passed by reference.\<close>

definition hook_with_created :: "bool \<Rightarrow> u64 \<Rightarrow> usize \<Rightarrow> rt \<Rightarrow> hook option \<times> bool \<times> rt" where
  "hook_with_created created_reported resource initial_permits s =
     (case async_lock_hook s of
        None \<Rightarrow> (None, created_reported, s)
      | Some h \<Rightarrow>
          (Some h, True,
           if \<not> created_reported
           then notify (Some h) (ALockEv (al_semaphore_created resource initial_permits)) s else s))"

definition ModelAsyncSemaphore_new :: "('k, 'm, 'f, 'p) tokio_semaphore \<Rightarrow> usize \<Rightarrow> 'k \<times> rt
    \<Rightarrow> (panic + 'm ModelAsyncSemaphore) \<times> ('k \<times> rt)" where
  "ModelAsyncSemaphore_new T permits = (\<lambda>(k, s).
     case arid_new_eager s of
       (Inl p, s') \<Rightarrow> (Inl p, (k, s'))
     | (Inr r, s') \<Rightarrow>
         (case ts_new T permits k of (i, k') \<Rightarrow>
            (Inr \<lparr>as_resource = r, as_inner = i, as_initial_permits = permits,
                  as_created_reported = False\<rparr>, (k', s'))))"

definition ModelAsyncSemaphore_const_new ::
    "('k, 'm, 'f, 'p) tokio_semaphore \<Rightarrow> usize \<Rightarrow> 'k \<Rightarrow> 'm ModelAsyncSemaphore \<times> 'k" where
  "ModelAsyncSemaphore_const_new T permits k =
     (case ts_new T permits k of (i, k') \<Rightarrow>
        (\<lparr>as_resource = arid_new_lazy, as_inner = i, as_initial_permits = permits,
          as_created_reported = False\<rparr>, k'))"

definition ModelAsyncSemaphore_available_permits ::
    "('k, 'm, 'f, 'p) tokio_semaphore \<Rightarrow> 'm ModelAsyncSemaphore \<Rightarrow> 'k \<Rightarrow> usize" where
  "ModelAsyncSemaphore_available_permits T m k = ts_available T (as_inner m) k"

text \<open>\<open>if let Some(hook) = hook_with_created(...) { hook.callback(...) }\<close> in a method of the
  semaphore.\<close>

definition sem_report :: "u64 \<Rightarrow> HookCall \<Rightarrow> ('m ModelAsyncSemaphore \<times> 'k \<times> rt, unit) rm" where
  "sem_report resource e = (\<lambda>(m, k, s).
     case hook_with_created (as_created_reported m) resource (as_initial_permits m) s of
       (ho, flag, s') \<Rightarrow> (Inr (), (m\<lparr>as_created_reported := flag\<rparr>, k, notify ho e s')))"

abbreviation sem_id :: "('m ModelAsyncSemaphore \<times> 'k \<times> rt, u64) rm" where
  "sem_id \<equiv> lift_id as_resource (\<lambda>c m. m\<lparr>as_resource := c\<rparr>)"

definition ModelAsyncSemaphore_add_permits ::
    "('k, 'm, 'f, 'p) tokio_semaphore \<Rightarrow> usize \<Rightarrow> ('m ModelAsyncSemaphore \<times> 'k \<times> rt, unit) rm" where
  "ModelAsyncSemaphore_add_permits T n = (\<lambda>(m, w).
     rbind (lift_tk (\<lambda>k. ((), ts_add_permits T (as_inner m) n k))) (\<lambda>_.
     rbind sem_id (\<lambda>resource.
     sem_report resource (ALockEv (al_permits_added resource n)))) (m, w))"

definition ModelAsyncSemaphore_acquire_many :: "('k, 'm, 'f, 'p) tokio_semaphore
    \<Rightarrow> u32 \<Rightarrow> ('m ModelAsyncSemaphore \<times> 'k \<times> rt, 'f ModelSemaphoreAcquire) rm" where
  "ModelAsyncSemaphore_acquire_many T n = (\<lambda>(m, w).
     rbind sem_id (\<lambda>resource.
     rbind (lift_rt next_async_lock_waiter_id) (\<lambda>waiter.
     rbind (lift_tk (ts_acquire_many T (as_inner m) n)) (\<lambda>i.
     rret \<lparr>asa_resource = resource, asa_waiter = waiter, asa_permits = n, asa_inner = i,
           asa_requested_emitted = False, asa_resolved = False,
           asa_initial_permits = as_initial_permits m\<rparr>))) (m, w))"

definition ModelAsyncSemaphore_acquire :: "('k, 'm, 'f, 'p) tokio_semaphore
    \<Rightarrow> ('m ModelAsyncSemaphore \<times> 'k \<times> rt, 'f ModelSemaphoreAcquire) rm" where
  "ModelAsyncSemaphore_acquire T = (\<lambda>(m, w).
     rbind sem_id (\<lambda>resource.
     rbind (lift_rt next_async_lock_waiter_id) (\<lambda>waiter.
     rbind (lift_tk (ts_acquire T (as_inner m))) (\<lambda>i.
     rret \<lparr>asa_resource = resource, asa_waiter = waiter, asa_permits = 1, asa_inner = i,
           asa_requested_emitted = False, asa_resolved = False,
           asa_initial_permits = as_initial_permits m\<rparr>))) (m, w))"

definition ModelAsyncSemaphore_try_acquire_many :: "('k, 'm, 'f, 'p) tokio_semaphore
    \<Rightarrow> u32 \<Rightarrow> ('m ModelAsyncSemaphore \<times> 'k \<times> rt, 'p ModelSemaphorePermit option) rm" where
  "ModelAsyncSemaphore_try_acquire_many T n = (\<lambda>(m, w).
     rbind (lift_tk (ts_try_acquire_many T (as_inner m) n)) (\<lambda>attempt.
     case attempt of
       None \<Rightarrow> rret None
     | Some i \<Rightarrow>
         or_unwind (ts_drop_permit T i)
           (rbind sem_id (\<lambda>resource.
            rbind (lift_rt next_async_lock_waiter_id) (\<lambda>waiter.
            rbind (sem_report resource
                     (ALockEv (al_acquired resource waiter (AcqSemaphorePermits n)))) (\<lambda>_.
            rret (Some \<lparr>asp_inner = Some i, asp_resource = resource, asp_waiter = waiter,
                        asp_permits = n\<rparr>)))))) (m, w))"

definition ModelAsyncSemaphore_try_acquire :: "('k, 'm, 'f, 'p) tokio_semaphore
    \<Rightarrow> ('m ModelAsyncSemaphore \<times> 'k \<times> rt, 'p ModelSemaphorePermit option) rm" where
  "ModelAsyncSemaphore_try_acquire T = (\<lambda>(m, w).
     rbind (lift_tk (ts_try_acquire T (as_inner m))) (\<lambda>attempt.
     case attempt of
       None \<Rightarrow> rret None
     | Some i \<Rightarrow>
         or_unwind (ts_drop_permit T i)
           (rbind sem_id (\<lambda>resource.
            rbind (lift_rt next_async_lock_waiter_id) (\<lambda>waiter.
            rbind (sem_report resource
                     (ALockEv (al_acquired resource waiter (AcqSemaphorePermits 1)))) (\<lambda>_.
            rret (Some \<lparr>asp_inner = Some i, asp_resource = resource, asp_waiter = waiter,
                        asp_permits = 1\<rparr>)))))) (m, w))"

text \<open>The future's poll also moves the semaphore's \<open>created_reported\<close> flag, which it borrows.\<close>

definition ModelSemaphoreAcquire_poll :: "('k, 'm, 'f, 'p) tokio_semaphore
    \<Rightarrow> 'f ModelSemaphoreAcquire \<Rightarrow> bool \<Rightarrow> 'k \<times> rt
    \<Rightarrow> (unit + 'p ModelSemaphorePermit) poll \<times> 'f ModelSemaphoreAcquire \<times> bool \<times> ('k \<times> rt)" where
  "ModelSemaphoreAcquire_poll T l flag = (\<lambda>(k, s).
     case ts_poll T (asa_inner l) k of
       (Pending, i, k') \<Rightarrow>
         if \<not> asa_requested_emitted l then
           (case hook_with_created flag (asa_resource l) (asa_initial_permits l) s of
              (ho, flag', s') \<Rightarrow>
                (Pending, l\<lparr>asa_inner := i, asa_requested_emitted := True\<rparr>, flag',
                 (k', notify ho (ALockEv (al_requested (asa_resource l) (asa_waiter l)
                                   (AcqSemaphorePermits (asa_permits l)))) s')))
         else (Pending, l\<lparr>asa_inner := i\<rparr>, flag, (k', s))
     | (Ready (Inr p), i, k') \<Rightarrow>
         (case hook_with_created flag (asa_resource l) (asa_initial_permits l) s of
            (ho, flag', s') \<Rightarrow>
              (Ready (Inr \<lparr>asp_inner = Some p, asp_resource = asa_resource l,
                          asp_waiter = asa_waiter l, asp_permits = asa_permits l\<rparr>),
               l\<lparr>asa_inner := i, asa_resolved := True\<rparr>, flag',
               (k', notify ho (ALockEv (al_acquired (asa_resource l) (asa_waiter l)
                                 (AcqSemaphorePermits (asa_permits l)))) s')))
     | (Ready (Inl err), i, k') \<Rightarrow>
         (Ready (Inl err), l\<lparr>asa_inner := i, asa_resolved := True\<rparr>, flag, (k', s)))"

definition ModelSemaphoreAcquire_drop :: "('k, 'm, 'f, 'p) tokio_semaphore
    \<Rightarrow> 'f ModelSemaphoreAcquire \<Rightarrow> 'k \<times> rt \<Rightarrow> 'k \<times> rt" where
  "ModelSemaphoreAcquire_drop T l = (\<lambda>(k, s).
     (ts_drop_future T (asa_inner l) k,
      if asa_requested_emitted l \<and> \<not> asa_resolved l
      then notify (async_lock_hook s) (ALockEv (al_waiter_dropped (asa_resource l) (asa_waiter l))) s
      else s))"

definition ModelSemaphorePermit_drop ::
    "('k, 'm, 'f, 'p) tokio_semaphore \<Rightarrow> 'p ModelSemaphorePermit \<Rightarrow> 'k \<times> rt \<Rightarrow> 'k \<times> rt" where
  "ModelSemaphorePermit_drop T g = (\<lambda>(k, s).
     case asp_inner g of
       None \<Rightarrow> (k, s)
     | Some p \<Rightarrow>
         (ts_drop_permit T p k,
          notify (async_lock_hook s) (ALockEv (al_released (asp_resource g) (asp_waiter g)
                                        (AcqSemaphorePermits (asp_permits g)))) s))"

text \<open>\<open>forget\<close> takes the inner permit out, so the drop that follows finds none.\<close>

definition ModelSemaphorePermit_forget ::
    "('k, 'm, 'f, 'p) tokio_semaphore \<Rightarrow> 'p ModelSemaphorePermit \<Rightarrow> 'k \<times> rt \<Rightarrow> 'k \<times> rt" where
  "ModelSemaphorePermit_forget T g = (\<lambda>(k, s).
     ModelSemaphorePermit_drop T (g\<lparr>asp_inner := None\<rparr>)
       (case asp_inner g of None \<Rightarrow> k | Some p \<Rightarrow> ts_forget_permit T p k, s))"

end
