(* ===== verification/AsyncLedger.thy ===== *)
theory AsyncLedger
  imports AsyncLocks
begin

text \<open>
  What the engine can conclude from the log of the asynchronous lock family. Reading the log
  waiter by waiter gives each \<open>lock\<close>, \<open>read\<close>, \<open>write\<close> or \<open>acquire\<close> call a standing: nothing,
  queued on a resource, or holding it. The theory proves that this reading agrees with the
  futures and guards that are really alive, for every interleaving of the operations on any
  number of mutexes, reader-writer locks and semaphores, and for every behaviour of the wrapped
  library.
\<close>

section \<open>Reading the log\<close>

datatype standing = NoStanding | Queued u64 AsyncAcquireKind | Held u64 AsyncAcquireKind

fun al_effect :: "u64 \<Rightarrow> HookCall \<Rightarrow> standing \<Rightarrow> standing" where
  "al_effect w (ALockEv (al_requested r w' k)) x = (if w' = w then Queued r k else x)"
| "al_effect w (ALockEv (al_acquired r w' k)) x = (if w' = w then Held r k else x)"
| "al_effect w (ALockEv (al_released r w' k)) x = (if w' = w then NoStanding else x)"
| "al_effect w (ALockEv (al_waiter_dropped r w')) x = (if w' = w then NoStanding else x)"
| "al_effect w e x = x"

definition standing_in :: "(hook \<times> HookCall) list \<Rightarrow> u64 \<Rightarrow> standing" where
  "standing_in log w = fold (\<lambda>(h, e). al_effect w e) log NoStanding"

lemma standing_in_Nil [simp]: "standing_in [] w = NoStanding"
  by (simp add: standing_in_def)

lemma standing_in_snoc [simp]: "standing_in (log @ [(h, e)]) w = al_effect w e (standing_in log w)"
  by (simp add: standing_in_def)

text \<open>An operation on waiter \<open>w\<close> takes its standing from \<open>x\<close> to \<open>y\<close> and touches no other.\<close>

definition moves :: "u64 \<Rightarrow> standing \<Rightarrow> standing \<Rightarrow> rt \<Rightarrow> rt \<Rightarrow> bool" where
  "moves w x y s s' \<longleftrightarrow> async_lock_hook s' = async_lock_hook s
     \<and> NEXT_ASYNC_LOCK_WAITER_ID s' = NEXT_ASYNC_LOCK_WAITER_ID s
     \<and> (async_lock_hook s \<noteq> None \<longrightarrow> standing_in (calls s) w = x \<longrightarrow>
          standing_in (calls s') = (standing_in (calls s))(w := y))"

lemma moves_stay [simp]: "moves w x x s s"
  by (auto simp: moves_def)

lemma moves_notify:
  "(\<And>v. al_effect v e = (if v = w then (\<lambda>_. y) else (\<lambda>z. z))) \<Longrightarrow>
     moves w x y s (notify (async_lock_hook s) e s)"
  by (auto simp: moves_def fun_eq_iff)

lemma moves_notify_al [simp]:
  "moves w x (Queued r k) s (notify (async_lock_hook s) (ALockEv (al_requested r w k)) s)"
  "moves w x (Held r k) s (notify (async_lock_hook s) (ALockEv (al_acquired r w k)) s)"
  "moves w x NoStanding s (notify (async_lock_hook s) (ALockEv (al_released r w k)) s)"
  "moves w x NoStanding s (notify (async_lock_hook s) (ALockEv (al_waiter_dropped r w)) s)"
  by (rule moves_notify; auto simp: fun_eq_iff)+

section \<open>Standing of the futures and guards\<close>

definition aml_standing :: "'f ModelAsyncLock \<Rightarrow> standing" where
  "aml_standing f = (if aml_requested_emitted f \<and> \<not> aml_acquired f
     then Queued (aml_resource f) AcqMutex else NoStanding)"

definition arr_standing :: "'f ModelAsyncRead \<Rightarrow> standing" where
  "arr_standing f = (if arr_requested_emitted f \<and> \<not> arr_acquired f
     then Queued (arr_resource f) AcqRwRead else NoStanding)"

definition arw_standing :: "'f ModelAsyncWrite \<Rightarrow> standing" where
  "arw_standing f = (if arw_requested_emitted f \<and> \<not> arw_acquired f
     then Queued (arw_resource f) AcqRwWrite else NoStanding)"

definition asa_standing :: "'f ModelSemaphoreAcquire \<Rightarrow> standing" where
  "asa_standing f = (if asa_requested_emitted f \<and> \<not> asa_resolved f
     then Queued (asa_resource f) (AcqSemaphorePermits (asa_permits f)) else NoStanding)"

lemma al_effect_created [simp]: "al_effect v (ALockEv (al_semaphore_created r n)) x = x"
  by simp

lemma hook_with_created_frame:
  assumes "hook_with_created flag r n s = (ho, flag', s')"
  shows "ho = async_lock_hook s \<and> async_lock_hook s' = async_lock_hook s
    \<and> NEXT_ASYNC_LOCK_WAITER_ID s' = NEXT_ASYNC_LOCK_WAITER_ID s
    \<and> standing_in (calls s') = standing_in (calls s)"
  using assms by (auto simp: hook_with_created_def fun_eq_iff split: option.splits)

lemma moves_after_created:
  assumes "hook_with_created flag r n s = (ho, flag', s')" "moves w x y s' (notify (async_lock_hook s') e s')"
  shows "moves w x y s (notify ho e s')"
  using assms(2) hook_with_created_frame [OF assms(1)] by (simp add: moves_def)

section \<open>The system\<close>

text \<open>The call of waiter \<open>w\<close> as it stands: its unresolved future, its guard, a permit given up by
  \<open>forget\<close>, or a call refused by a closed semaphore with the standing the log last gave it.\<close>

datatype ('f, 'g) waiter_obj =
    LockFut "'f ModelAsyncLock" | LockGuard "'g ModelAsyncMutexGuard"
  | ReadFut "'f ModelAsyncRead" | ReadGuard "'g ModelAsyncRwLockReadGuard"
  | WriteFut "'f ModelAsyncWrite" | WriteGuard "'g ModelAsyncRwLockWriteGuard"
  | AcquireFut nat "'f ModelSemaphoreAcquire" | Permit "'g ModelSemaphorePermit"
  | Forgotten "'g ModelSemaphorePermit" | Refused "'f ModelSemaphoreAcquire"

primrec obj_waiter :: "('f, 'g) waiter_obj \<Rightarrow> u64" where
  "obj_waiter (LockFut f) = aml_waiter f" | "obj_waiter (LockGuard g) = amg_waiter g"
| "obj_waiter (ReadFut f) = arr_waiter f" | "obj_waiter (ReadGuard g) = arrg_waiter g"
| "obj_waiter (WriteFut f) = arw_waiter f" | "obj_waiter (WriteGuard g) = arwg_waiter g"
| "obj_waiter (AcquireFut j f) = asa_waiter f" | "obj_waiter (Permit p) = asp_waiter p"
| "obj_waiter (Forgotten p) = asp_waiter p" | "obj_waiter (Refused f) = asa_waiter f"

primrec obj_standing :: "('f, 'g) waiter_obj \<Rightarrow> standing" where
  "obj_standing (LockFut f) = aml_standing f"
| "obj_standing (LockGuard g) = Held (amg_resource g) AcqMutex"
| "obj_standing (ReadFut f) = arr_standing f"
| "obj_standing (ReadGuard g) = Held (arrg_resource g) AcqRwRead"
| "obj_standing (WriteFut f) = arw_standing f"
| "obj_standing (WriteGuard g) = Held (arwg_resource g) AcqRwWrite"
| "obj_standing (AcquireFut j f) = asa_standing f"
| "obj_standing (Permit p) = Held (asp_resource p) (AcqSemaphorePermits (asp_permits p))"
| "obj_standing (Forgotten p) = Held (asp_resource p) (AcqSemaphorePermits (asp_permits p))"
| "obj_standing (Refused f) = asa_standing f"

primrec obj_live :: "('f, 'g) waiter_obj \<Rightarrow> bool" where
  "obj_live (LockFut f) = (\<not> aml_acquired f)" | "obj_live (LockGuard g) = True"
| "obj_live (ReadFut f) = (\<not> arr_acquired f)" | "obj_live (ReadGuard g) = True"
| "obj_live (WriteFut f) = (\<not> arw_acquired f)" | "obj_live (WriteGuard g) = True"
| "obj_live (AcquireFut j f) = (\<not> asa_resolved f)" | "obj_live (Permit p) = (asp_inner p \<noteq> None)"
| "obj_live (Forgotten p) = True" | "obj_live (Refused f) = True"

record ('k, 'm, 'f, 'g) lock_sys =
  ls_mx :: "nat \<Rightarrow> 'm ModelAsyncMutex option"
  ls_rw :: "nat \<Rightarrow> 'm ModelAsyncRwLock option"
  ls_sem :: "nat \<Rightarrow> 'm ModelAsyncSemaphore option"
  ls_tk :: 'k
  ls_rt :: rt
  ls_objs :: "u64 \<Rightarrow> ('f, 'g) waiter_obj option"

record ('k, 'm, 'f, 'g, 'v) tokio_api =
  api_mx :: "('k, 'm, 'f, 'g, 'v) tokio_lock"
  api_rd :: "('k, 'm, 'f, 'g, 'v) tokio_lock"
  api_wr :: "('k, 'm, 'f, 'g, 'v) tokio_lock"
  api_sem :: "('k, 'm, 'f, 'g) tokio_semaphore"

text \<open>What the rest of the process may do: report elsewhere and allocate ids.\<close>

definition not_about_locks :: "rt \<Rightarrow> rt \<Rightarrow> bool" where
  "not_about_locks s s' \<longleftrightarrow> async_lock_hook s' = async_lock_hook s
     \<and> NEXT_ASYNC_LOCK_WAITER_ID s \<le> NEXT_ASYNC_LOCK_WAITER_ID s'
     \<and> standing_in (calls s') = standing_in (calls s)"

definition put_new :: "('a \<Rightarrow> ('f, 'g) waiter_obj) \<Rightarrow> panic + 'a
    \<Rightarrow> (u64 \<Rightarrow> ('f, 'g) waiter_obj option) \<Rightarrow> (u64 \<Rightarrow> ('f, 'g) waiter_obj option)" where
  "put_new C r objs = (case r of Inl p \<Rightarrow> objs | Inr x \<Rightarrow> objs(obj_waiter (C x) \<mapsto> C x))"

definition put_try :: "('a \<Rightarrow> ('f, 'g) waiter_obj) \<Rightarrow> panic + 'a option
    \<Rightarrow> (u64 \<Rightarrow> ('f, 'g) waiter_obj option) \<Rightarrow> (u64 \<Rightarrow> ('f, 'g) waiter_obj option)" where
  "put_try C r objs = (case r of Inr (Some x) \<Rightarrow> objs(obj_waiter (C x) \<mapsto> C x) | _ \<Rightarrow> objs)"

text \<open>One step of the process: a call on some mutex, reader-writer lock or semaphore, one poll or
  drop of some future, the drop of some guard, or activity elsewhere, which may also create, move
  and inspect the wrapped objects. A future that resolves is dropped in the same step, as
  \<open>.await\<close> does. A call that panics keeps what it changed and adds no waiter.\<close>

inductive lock_step :: "('k, 'm, 'f, 'g, 'v) tokio_api \<Rightarrow> ('k, 'm, 'f, 'g) lock_sys
    \<Rightarrow> ('k, 'm, 'f, 'g) lock_sys \<Rightarrow> bool" for A where
  locks: "ls_mx c j = Some m \<Longrightarrow> ModelAsyncMutex_lock (api_mx A) (m, ls_tk c, ls_rt c) = (r, (m', k', s')) \<Longrightarrow>
     lock_step A c (c\<lparr>ls_mx := (ls_mx c)(j \<mapsto> m'), ls_tk := k', ls_rt := s', ls_objs := put_new LockFut r (ls_objs c)\<rparr>)"
| tries_lock: "ls_mx c j = Some m \<Longrightarrow> ModelAsyncMutex_try_lock (api_mx A) (m, ls_tk c, ls_rt c) = (r, (m', k', s')) \<Longrightarrow>
     lock_step A c (c\<lparr>ls_mx := (ls_mx c)(j \<mapsto> m'), ls_tk := k', ls_rt := s', ls_objs := put_try LockGuard r (ls_objs c)\<rparr>)"
| lock_pending: "ls_objs c w = Some (LockFut f) \<Longrightarrow> ModelAsyncLock_poll (api_mx A) f (ls_tk c, ls_rt c) = (Pending, f', (k', s')) \<Longrightarrow>
     lock_step A c (c\<lparr>ls_tk := k', ls_rt := s', ls_objs := (ls_objs c)(w \<mapsto> LockFut f')\<rparr>)"
| lock_ready: "ls_objs c w = Some (LockFut f) \<Longrightarrow> ModelAsyncLock_poll (api_mx A) f (ls_tk c, ls_rt c) = (Ready g, f', w') \<Longrightarrow>
     ModelAsyncLock_drop (api_mx A) f' w' = (k', s') \<Longrightarrow>
     lock_step A c (c\<lparr>ls_tk := k', ls_rt := s', ls_objs := (ls_objs c)(w \<mapsto> LockGuard g)\<rparr>)"
| lock_drop: "ls_objs c w = Some (LockFut f) \<Longrightarrow> ModelAsyncLock_drop (api_mx A) f (ls_tk c, ls_rt c) = (k', s') \<Longrightarrow>
     lock_step A c (c\<lparr>ls_tk := k', ls_rt := s', ls_objs := (ls_objs c)(w := None)\<rparr>)"
| lock_guard_drop: "ls_objs c w = Some (LockGuard g) \<Longrightarrow> ModelAsyncMutexGuard_drop (api_mx A) g (ls_tk c, ls_rt c) = (k', s') \<Longrightarrow>
     lock_step A c (c\<lparr>ls_tk := k', ls_rt := s', ls_objs := (ls_objs c)(w := None)\<rparr>)"
| reads: "ls_rw c j = Some m \<Longrightarrow> ModelAsyncRwLock_read (api_rd A) (m, ls_tk c, ls_rt c) = (r, (m', k', s')) \<Longrightarrow>
     lock_step A c (c\<lparr>ls_rw := (ls_rw c)(j \<mapsto> m'), ls_tk := k', ls_rt := s', ls_objs := put_new ReadFut r (ls_objs c)\<rparr>)"
| tries_read: "ls_rw c j = Some m \<Longrightarrow> ModelAsyncRwLock_try_read (api_rd A) (m, ls_tk c, ls_rt c) = (r, (m', k', s')) \<Longrightarrow>
     lock_step A c (c\<lparr>ls_rw := (ls_rw c)(j \<mapsto> m'), ls_tk := k', ls_rt := s', ls_objs := put_try ReadGuard r (ls_objs c)\<rparr>)"
| read_pending: "ls_objs c w = Some (ReadFut f) \<Longrightarrow> ModelAsyncRead_poll (api_rd A) f (ls_tk c, ls_rt c) = (Pending, f', (k', s')) \<Longrightarrow>
     lock_step A c (c\<lparr>ls_tk := k', ls_rt := s', ls_objs := (ls_objs c)(w \<mapsto> ReadFut f')\<rparr>)"
| read_ready: "ls_objs c w = Some (ReadFut f) \<Longrightarrow> ModelAsyncRead_poll (api_rd A) f (ls_tk c, ls_rt c) = (Ready g, f', w') \<Longrightarrow>
     ModelAsyncRead_drop (api_rd A) f' w' = (k', s') \<Longrightarrow>
     lock_step A c (c\<lparr>ls_tk := k', ls_rt := s', ls_objs := (ls_objs c)(w \<mapsto> ReadGuard g)\<rparr>)"
| read_drop: "ls_objs c w = Some (ReadFut f) \<Longrightarrow> ModelAsyncRead_drop (api_rd A) f (ls_tk c, ls_rt c) = (k', s') \<Longrightarrow>
     lock_step A c (c\<lparr>ls_tk := k', ls_rt := s', ls_objs := (ls_objs c)(w := None)\<rparr>)"
| read_guard_drop: "ls_objs c w = Some (ReadGuard g) \<Longrightarrow> ModelAsyncRwLockReadGuard_drop (api_rd A) g (ls_tk c, ls_rt c) = (k', s') \<Longrightarrow>
     lock_step A c (c\<lparr>ls_tk := k', ls_rt := s', ls_objs := (ls_objs c)(w := None)\<rparr>)"
| writes: "ls_rw c j = Some m \<Longrightarrow> ModelAsyncRwLock_write (api_wr A) (m, ls_tk c, ls_rt c) = (r, (m', k', s')) \<Longrightarrow>
     lock_step A c (c\<lparr>ls_rw := (ls_rw c)(j \<mapsto> m'), ls_tk := k', ls_rt := s', ls_objs := put_new WriteFut r (ls_objs c)\<rparr>)"
| tries_write: "ls_rw c j = Some m \<Longrightarrow> ModelAsyncRwLock_try_write (api_wr A) (m, ls_tk c, ls_rt c) = (r, (m', k', s')) \<Longrightarrow>
     lock_step A c (c\<lparr>ls_rw := (ls_rw c)(j \<mapsto> m'), ls_tk := k', ls_rt := s', ls_objs := put_try WriteGuard r (ls_objs c)\<rparr>)"
| write_pending: "ls_objs c w = Some (WriteFut f) \<Longrightarrow> ModelAsyncWrite_poll (api_wr A) f (ls_tk c, ls_rt c) = (Pending, f', (k', s')) \<Longrightarrow>
     lock_step A c (c\<lparr>ls_tk := k', ls_rt := s', ls_objs := (ls_objs c)(w \<mapsto> WriteFut f')\<rparr>)"
| write_ready: "ls_objs c w = Some (WriteFut f) \<Longrightarrow> ModelAsyncWrite_poll (api_wr A) f (ls_tk c, ls_rt c) = (Ready g, f', w') \<Longrightarrow>
     ModelAsyncWrite_drop (api_wr A) f' w' = (k', s') \<Longrightarrow>
     lock_step A c (c\<lparr>ls_tk := k', ls_rt := s', ls_objs := (ls_objs c)(w \<mapsto> WriteGuard g)\<rparr>)"
| write_drop: "ls_objs c w = Some (WriteFut f) \<Longrightarrow> ModelAsyncWrite_drop (api_wr A) f (ls_tk c, ls_rt c) = (k', s') \<Longrightarrow>
     lock_step A c (c\<lparr>ls_tk := k', ls_rt := s', ls_objs := (ls_objs c)(w := None)\<rparr>)"
| write_guard_drop: "ls_objs c w = Some (WriteGuard g) \<Longrightarrow> ModelAsyncRwLockWriteGuard_drop (api_wr A) g (ls_tk c, ls_rt c) = (k', s') \<Longrightarrow>
     lock_step A c (c\<lparr>ls_tk := k', ls_rt := s', ls_objs := (ls_objs c)(w := None)\<rparr>)"
| acquires_one: "ls_sem c j = Some m \<Longrightarrow> ModelAsyncSemaphore_acquire (api_sem A) (m, ls_tk c, ls_rt c) = (r, (m', k', s')) \<Longrightarrow>
     lock_step A c (c\<lparr>ls_sem := (ls_sem c)(j \<mapsto> m'), ls_tk := k', ls_rt := s', ls_objs := put_new (AcquireFut j) r (ls_objs c)\<rparr>)"
| acquires_many: "ls_sem c j = Some m \<Longrightarrow> ModelAsyncSemaphore_acquire_many (api_sem A) n (m, ls_tk c, ls_rt c) = (r, (m', k', s')) \<Longrightarrow>
     lock_step A c (c\<lparr>ls_sem := (ls_sem c)(j \<mapsto> m'), ls_tk := k', ls_rt := s', ls_objs := put_new (AcquireFut j) r (ls_objs c)\<rparr>)"
| tries_one: "ls_sem c j = Some m \<Longrightarrow> ModelAsyncSemaphore_try_acquire (api_sem A) (m, ls_tk c, ls_rt c) = (r, (m', k', s')) \<Longrightarrow>
     lock_step A c (c\<lparr>ls_sem := (ls_sem c)(j \<mapsto> m'), ls_tk := k', ls_rt := s', ls_objs := put_try Permit r (ls_objs c)\<rparr>)"
| tries_many: "ls_sem c j = Some m \<Longrightarrow> ModelAsyncSemaphore_try_acquire_many (api_sem A) n (m, ls_tk c, ls_rt c) = (r, (m', k', s')) \<Longrightarrow>
     lock_step A c (c\<lparr>ls_sem := (ls_sem c)(j \<mapsto> m'), ls_tk := k', ls_rt := s', ls_objs := put_try Permit r (ls_objs c)\<rparr>)"
| adds: "ls_sem c j = Some m \<Longrightarrow>
     ModelAsyncSemaphore_add_permits (api_sem A) n (m, ls_tk c, ls_rt c) = (r, (m', k', s')) \<Longrightarrow>
     lock_step A c (c\<lparr>ls_sem := (ls_sem c)(j \<mapsto> m'), ls_tk := k', ls_rt := s'\<rparr>)"
| acquire_pending: "ls_objs c w = Some (AcquireFut j f) \<Longrightarrow> ls_sem c j = Some m \<Longrightarrow>
     ModelSemaphoreAcquire_poll (api_sem A) f (as_created_reported m) (ls_tk c, ls_rt c)
       = (Pending, f', flag, (k', s')) \<Longrightarrow>
     lock_step A c (c\<lparr>ls_sem := (ls_sem c)(j \<mapsto> m\<lparr>as_created_reported := flag\<rparr>), ls_tk := k', ls_rt := s',
       ls_objs := (ls_objs c)(w \<mapsto> AcquireFut j f')\<rparr>)"
| acquire_ready: "ls_objs c w = Some (AcquireFut j f) \<Longrightarrow> ls_sem c j = Some m \<Longrightarrow>
     ModelSemaphoreAcquire_poll (api_sem A) f (as_created_reported m) (ls_tk c, ls_rt c)
       = (Ready r, f', flag, w') \<Longrightarrow> ModelSemaphoreAcquire_drop (api_sem A) f' w' = (k', s') \<Longrightarrow>
     lock_step A c (c\<lparr>ls_sem := (ls_sem c)(j \<mapsto> m\<lparr>as_created_reported := flag\<rparr>), ls_tk := k', ls_rt := s',
       ls_objs := (ls_objs c)(w \<mapsto> (case r of Inr p \<Rightarrow> Permit p | Inl e \<Rightarrow> Refused f))\<rparr>)"
| acquire_drop: "ls_objs c w = Some (AcquireFut j f) \<Longrightarrow>
     ModelSemaphoreAcquire_drop (api_sem A) f (ls_tk c, ls_rt c) = (k', s') \<Longrightarrow>
     lock_step A c (c\<lparr>ls_tk := k', ls_rt := s', ls_objs := (ls_objs c)(w := None)\<rparr>)"
| permit_drop: "ls_objs c w = Some (Permit p) \<Longrightarrow>
     ModelSemaphorePermit_drop (api_sem A) p (ls_tk c, ls_rt c) = (k', s') \<Longrightarrow>
     lock_step A c (c\<lparr>ls_tk := k', ls_rt := s', ls_objs := (ls_objs c)(w := None)\<rparr>)"
| permit_forget: "ls_objs c w = Some (Permit p) \<Longrightarrow>
     ModelSemaphorePermit_forget (api_sem A) p (ls_tk c, ls_rt c) = (k', s') \<Longrightarrow>
     lock_step A c (c\<lparr>ls_tk := k', ls_rt := s', ls_objs := (ls_objs c)(w \<mapsto> Forgotten p)\<rparr>)"
| elsewhere: "not_about_locks (ls_rt c) s' \<Longrightarrow>
     lock_step A c (c\<lparr>ls_mx := mx', ls_rw := rw', ls_sem := sem', ls_tk := k', ls_rt := s'\<rparr>)"

inductive lock_reach :: "('k, 'm, 'f, 'g, 'v) tokio_api \<Rightarrow> ('k, 'm, 'f, 'g) lock_sys
    \<Rightarrow> ('k, 'm, 'f, 'g) lock_sys \<Rightarrow> bool" for A c0 where
  lock_start: "lock_reach A c0 c0"
| lock_next: "lock_reach A c0 c \<Longrightarrow> lock_step A c c' \<Longrightarrow> lock_reach A c0 c'"

section \<open>The invariant\<close>

definition ledger_inv :: "rt \<Rightarrow> (u64 \<Rightarrow> ('f, 'g) waiter_obj option) \<Rightarrow> bool" where
  "ledger_inv s objs \<longleftrightarrow> async_lock_hook s \<noteq> None
     \<and> (\<forall>w. standing_in (calls s) w = (case objs w of None \<Rightarrow> NoStanding | Some ob \<Rightarrow> obj_standing ob))
     \<and> (\<forall>w ob. objs w = Some ob \<longrightarrow> obj_waiter ob = w \<and> obj_live ob \<and> w < NEXT_ASYNC_LOCK_WAITER_ID s)"

lemma ledger_inv_obj:
  assumes "ledger_inv s objs" "objs w = Some ob"
  shows "obj_waiter ob = w \<and> obj_live ob \<and> standing_in (calls s) w = obj_standing ob"
  using assms by (simp add: ledger_inv_def)

lemma ledger_quiet: "ledger_inv s objs \<Longrightarrow> not_about_locks s s' \<Longrightarrow> ledger_inv s' objs"
  unfolding ledger_inv_def not_about_locks_def by (metis less_le_trans)

lemma ledger_update:
  assumes inv: "ledger_inv s objs" and ob: "objs w = Some ob"
    and mv: "moves w (obj_standing ob) (obj_standing ob') s s'"
    and ob': "obj_waiter ob' = w" "obj_live ob'"
  shows "ledger_inv s' (objs(w \<mapsto> ob'))"
  using assms by (auto simp: ledger_inv_def moves_def)

lemma ledger_remove:
  assumes inv: "ledger_inv s objs" and ob: "objs w = Some ob"
    and mv: "moves w (obj_standing ob) NoStanding s s'"
  shows "ledger_inv s' (objs(w := None))"
  using assms by (auto simp: ledger_inv_def moves_def)

lemma ledger_add:
  assumes inv: "ledger_inv s objs" and hook: "async_lock_hook s' = async_lock_hook s"
    and fresh: "obj_waiter ob = NEXT_ASYNC_LOCK_WAITER_ID s"
      "NEXT_ASYNC_LOCK_WAITER_ID s < NEXT_ASYNC_LOCK_WAITER_ID s'"
    and st: "standing_in (calls s') = (standing_in (calls s))(obj_waiter ob := obj_standing ob)"
    and live: "obj_live ob"
  shows "ledger_inv s' (objs(obj_waiter ob \<mapsto> ob))"
  using assms unfolding ledger_inv_def by (auto intro: less_trans)

lemma ledger_fresh:
  assumes "ledger_inv s objs"
  shows "standing_in (calls s) (NEXT_ASYNC_LOCK_WAITER_ID s) = NoStanding"
proof -
  have "objs (NEXT_ASYNC_LOCK_WAITER_ID s) = None"
    using assms unfolding ledger_inv_def by (metis less_irrefl not_Some_eq)
  then show ?thesis using assms by (simp add: ledger_inv_def)
qed

section \<open>The contract of a lock future\<close>

text \<open>Every acquire future keeps it: while it is unresolved, a pending poll and a granting poll
  move the waiter to the standing of the new future or of the guard, the drop of an unresolved
  future removes the waiter, and the drop of a resolved one is silent.\<close>

locale lock_future =
  fixes pollf :: "'u \<Rightarrow> 'w \<Rightarrow> 'r poll \<times> 'u \<times> 'w"
    and dropf :: "'u \<Rightarrow> 'w \<Rightarrow> 'w"
    and rt_of :: "'w \<Rightarrow> rt"
    and fobj :: "'u \<Rightarrow> ('f, 'g) waiter_obj"
    and gobj :: "'r \<Rightarrow> ('f, 'g) waiter_obj"
    and grants :: "'r \<Rightarrow> bool"
  assumes poll_pending: "obj_live (fobj f) \<Longrightarrow> pollf f w = (Pending, f', w') \<Longrightarrow>
      moves (obj_waiter (fobj f)) (obj_standing (fobj f)) (obj_standing (fobj f')) (rt_of w) (rt_of w')
      \<and> obj_live (fobj f') \<and> obj_waiter (fobj f') = obj_waiter (fobj f)"
    and poll_ready: "obj_live (fobj f) \<Longrightarrow> pollf f w = (Ready r, f', w') \<Longrightarrow> grants r \<Longrightarrow>
      moves (obj_waiter (fobj f)) (obj_standing (fobj f)) (obj_standing (gobj r)) (rt_of w) (rt_of w')
      \<and> \<not> obj_live (fobj f') \<and> obj_live (gobj r) \<and> obj_waiter (gobj r) = obj_waiter (fobj f)"
    and drop_unresolved: "obj_live (fobj f) \<Longrightarrow>
      moves (obj_waiter (fobj f)) (obj_standing (fobj f)) NoStanding (rt_of w) (rt_of (dropf f w))"
    and drop_resolved: "\<not> obj_live (fobj f) \<Longrightarrow> rt_of (dropf f w) = rt_of w"
begin

lemma pending_inv:
  assumes "ledger_inv (rt_of w) objs" "objs v = Some (fobj f)" "pollf f w = (Pending, f', w')"
  shows "ledger_inv (rt_of w') (objs(v \<mapsto> fobj f'))"
  using ledger_inv_obj [OF assms(1,2)] poll_pending [OF _ assms(3)]
  by (intro ledger_update [OF assms(1,2)]) auto

text \<open>\<open>.await\<close> resolves: the granting poll followed by the drop of the spent future.\<close>

lemma ready_inv:
  assumes "ledger_inv (rt_of w) objs" "objs v = Some (fobj f)" "pollf f w = (Ready r, f', w')" "grants r"
  shows "ledger_inv (rt_of (dropf f' w')) (objs(v \<mapsto> gobj r))"
  using ledger_inv_obj [OF assms(1,2)] poll_ready [OF _ assms(3,4)] drop_resolved [of f' w']
  by (intro ledger_update [OF assms(1,2)]) auto

lemma drop_inv:
  assumes "ledger_inv (rt_of w) objs" "objs v = Some (fobj f)"
  shows "ledger_inv (rt_of (dropf f w)) (objs(v := None))"
  using ledger_inv_obj [OF assms] drop_unresolved [of f w]
  by (intro ledger_remove [OF assms]) auto

end

interpretation mutex_future: lock_future "ModelAsyncLock_poll T" "ModelAsyncLock_drop T" snd
  LockFut LockGuard "\<lambda>g. True" for T
  by unfold_locales
    (auto simp: ModelAsyncLock_poll_def ModelAsyncLock_drop_def aml_standing_def
      split: prod.splits poll.splits if_splits)

interpretation read_future: lock_future "ModelAsyncRead_poll T" "ModelAsyncRead_drop T" snd
  ReadFut ReadGuard "\<lambda>g. True" for T
  by unfold_locales
    (auto simp: ModelAsyncRead_poll_def ModelAsyncRead_drop_def arr_standing_def
      split: prod.splits poll.splits if_splits)

interpretation write_future: lock_future "ModelAsyncWrite_poll T" "ModelAsyncWrite_drop T" snd
  WriteFut WriteGuard "\<lambda>g. True" for T
  by unfold_locales
    (auto simp: ModelAsyncWrite_poll_def ModelAsyncWrite_drop_def arw_standing_def
      split: prod.splits poll.splits if_splits)

text \<open>The semaphore future borrows the flag of its semaphore; its poll may also end in the error
  of a closed semaphore, which grants nothing.\<close>

abbreviation sem_poll where
  "sem_poll T \<equiv> \<lambda>f (flag, w).
     case ModelSemaphoreAcquire_poll T f flag w of (p, f', flag', w') \<Rightarrow> (p, f', (flag', w'))"

abbreviation sem_drop where
  "sem_drop T \<equiv> \<lambda>f (flag, w). (flag, ModelSemaphoreAcquire_drop T f w)"

primrec sem_obj :: "'f ModelSemaphoreAcquire \<Rightarrow> unit + 'g ModelSemaphorePermit \<Rightarrow> ('f, 'g) waiter_obj" where
  "sem_obj f (Inl e) = Refused f"
| "sem_obj f (Inr p) = Permit p"

interpretation acquire_future: lock_future "sem_poll T" "sem_drop T" "\<lambda>w. snd (snd w)"
  "AcquireFut j" "sem_obj f0" "\<lambda>r. \<exists>p. r = Inr p" for T j f0
  by unfold_locales
    (auto simp: ModelSemaphoreAcquire_poll_def ModelSemaphoreAcquire_drop_def asa_standing_def
      intro: moves_after_created split: prod.splits poll.splits if_splits sum.splits)

section \<open>The calls that create a waiter\<close>

text \<open>All of them take the resource's id, then a fresh waiter id; nothing is reported before both
  are there.\<close>

lemma ids_then:
  assumes "rbind (lift_id get put) (\<lambda>r. rbind (lift_rt next_async_lock_waiter_id) (F r)) (m, k, s) = (res, w')"
  obtains (failed) p m' s' where "res = Inl p" "w' = (m', k, s')" "not_about_locks s s'"
  | (allocated) r m' s' where "F r (NEXT_ASYNC_LOCK_WAITER_ID s) (m', k, s') = (res, w')"
      "calls s' = calls s" "async_lock_hook s' = async_lock_hook s"
      "NEXT_ASYNC_LOCK_WAITER_ID s < NEXT_ASYNC_LOCK_WAITER_ID s'"
proof -
  obtain r1 c s1 where id1: "arid_get (get m, s) = (r1, (c, s1))" by (metis prod.exhaust)
  note fr = arid_get_frame [OF id1]
  show thesis
  proof (cases r1)
    case (Inl p)
    with id1 assms have "res = Inl p" "w' = (put c m, k, s1)" by (auto simp: rbind_def lift_id_def)
    then show thesis using fr by (intro failed) (auto simp: not_about_locks_def)
  next
    case (Inr r)
    obtain r2 s2 where id2: "next_async_lock_waiter_id s1 = (r2, s2)" by (metis prod.exhaust)
    note fr2 = next_async_lock_waiter_id_frame [OF id2]
    show thesis
    proof (cases r2)
      case (Inl p)
      with id1 id2 Inr assms have "res = Inl p" "w' = (put c m, k, s2)"
        by (auto simp: rbind_def lift_id_def lift_rt_def)
      then show thesis using fr fr2 Inl by (intro failed) (auto simp: not_about_locks_def)
    next
      case (Inr v)
      with id1 id2 \<open>r1 = Inr r\<close> assms have "F r v (put c m, k, s2) = (res, w')"
        by (simp add: rbind_def lift_id_def lift_rt_def)
      then show thesis using fr fr2 Inr by (intro allocated [of r "put c m" s2]) auto
    qed
  qed
qed

lemma new_waiter_inv:
  assumes inv: "ledger_inv s objs"
    and op: "rbind (lift_id get put) (\<lambda>r. rbind (lift_rt next_async_lock_waiter_id) (\<lambda>v.
        rbind (lift_tk f) (\<lambda>i. rret (mk r v i)))) (m, k, s) = (res, (m', k', s'))"
    and mk: "\<And>r v i. obj_waiter (C (mk r v i)) = v \<and> obj_standing (C (mk r v i)) = NoStanding
        \<and> obj_live (C (mk r v i))"
  shows "ledger_inv s' (put_new C res objs)"
  using op
proof (cases rule: ids_then)
  case (failed p m1 s1)
  then show ?thesis using ledger_quiet [OF inv] by (simp add: put_new_def)
next
  case (allocated r m1 s1)
  then obtain i where res: "res = Inr (mk r (NEXT_ASYNC_LOCK_WAITER_ID s) i)" and s': "s' = s1"
    by (auto simp: lift_tk_def rbind_def split: prod.splits)
  have "ledger_inv s1 (objs(obj_waiter (C (mk r (NEXT_ASYNC_LOCK_WAITER_ID s) i)) \<mapsto>
      C (mk r (NEXT_ASYNC_LOCK_WAITER_ID s) i)))"
    using allocated ledger_fresh [OF inv] by (intro ledger_add [OF inv]) (simp_all add: mk fun_eq_iff)
  then show ?thesis by (simp add: put_new_def res s')
qed

lemma try_waiter_inv:
  assumes inv: "ledger_inv s objs"
    and op: "rbind (lift_tk f) (\<lambda>attempt. case attempt of None \<Rightarrow> rret None
        | Some i \<Rightarrow> or_unwind (cl i) (rbind (lift_id get put) (\<lambda>r. rbind (lift_rt next_async_lock_waiter_id)
            (\<lambda>v. rbind (emit r v) (\<lambda>_. rret (Some (mk i r v))))))) (m, k, s) = (res, (m', k', s'))"
    and emit: "\<And>r v m k s. \<exists>m' s'. emit r v (m, k, s) = (Inr (), (m', k, s'))
        \<and> moves v NoStanding (Held r kd) s s'"
    and mk: "\<And>i r v. obj_waiter (C (mk i r v)) = v \<and> obj_standing (C (mk i r v)) = Held r kd
        \<and> obj_live (C (mk i r v))"
  shows "ledger_inv s' (put_try C res objs)"
proof -
  obtain a k1 where f: "f k = (a, k1)" by (metis prod.exhaust)
  show ?thesis
  proof (cases a)
    case None
    with f op inv show ?thesis by (auto simp: lift_tk_def rbind_def put_try_def)
  next
    case (Some i)
    define body where "body = rbind (lift_id get put) (\<lambda>r. rbind (lift_rt next_async_lock_waiter_id)
            (\<lambda>v. rbind (emit r v) (\<lambda>_. rret (Some (mk i r v)))))"
    obtain res2 m2 k2 s2 where body: "body (m, k1, s) = (res2, (m2, k2, s2))" by (metis prod.exhaust)
    with f Some op have res: "res = res2" "s' = s2"
      by (auto simp: lift_tk_def rbind_def or_unwind_def body_def split: prod.splits sum.splits)
    from body [unfolded body_def] show ?thesis
    proof (cases rule: ids_then)
      case (failed p m1 s1)
      then show ?thesis using ledger_quiet [OF inv] res by (simp add: put_try_def)
    next
      case (allocated r m1 s1)
      let ?v = "NEXT_ASYNC_LOCK_WAITER_ID s"
      obtain m3 s3 where e: "emit r ?v (m1, k1, s1) = (Inr (), (m3, k1, s3))"
        and mv: "moves ?v NoStanding (Held r kd) s1 s3" using emit by blast
      with allocated res have out: "res = Inr (Some (mk i r ?v))" "s' = s3"
        by (auto simp: rbind_def)
      have "async_lock_hook s \<noteq> None" using inv by (simp add: ledger_inv_def)
      with mv allocated ledger_fresh [OF inv]
      have "ledger_inv s3 (objs(obj_waiter (C (mk i r ?v)) \<mapsto> C (mk i r ?v)))"
        by (intro ledger_add [OF inv]) (simp_all add: mk moves_def)
      then show ?thesis by (simp add: put_try_def out)
    qed
  qed
qed

lemma emit_report:
  "\<exists>m' s'. lift_rt (report async_lock_hook (ALockEv (al_acquired r v kd))) (m, k, s) = (Inr (), (m', k, s'))
     \<and> moves v NoStanding (Held r kd) s s'"
  by (simp add: lift_rt_def)

lemma emit_sem_report:
  "\<exists>m' s'. sem_report r (ALockEv (al_acquired r v kd)) (m, k, s) = (Inr (), (m', k, s'))
     \<and> moves v NoStanding (Held r kd) s s'"
  by (auto simp: sem_report_def intro: moves_after_created split: prod.splits)

lemma add_permits_quiet:
  assumes "ModelAsyncSemaphore_add_permits T n (m, k, s) = (r, (m', k', s'))"
  shows "not_about_locks s s'"
proof -
  obtain r1 c s1 where id1: "arid_get (as_resource m, s) = (r1, (c, s1))" by (metis prod.exhaust)
  show ?thesis
  proof (cases r1)
    case (Inl p)
    then show ?thesis using assms arid_get_frame [OF id1] id1
      by (auto simp: ModelAsyncSemaphore_add_permits_def lift_tk_def rbind_def lift_id_def not_about_locks_def)
  next
    case (Inr res)
    obtain ho flag s2 where hc: "hook_with_created (as_created_reported m) res (as_initial_permits m) s1
        = (ho, flag, s2)" by (metis prod.exhaust)
    then have "s' = notify ho (ALockEv (al_permits_added res n)) s2" using assms id1 Inr
      by (auto simp: ModelAsyncSemaphore_add_permits_def lift_tk_def rbind_def lift_id_def sem_report_def)
    then show ?thesis using arid_get_frame [OF id1] hook_with_created_frame [OF hc]
      by (auto simp: not_about_locks_def fun_eq_iff split: option.splits)
  qed
qed

section \<open>Every operation keeps the ledger\<close>

lemma ModelAsyncMutex_lock_inv:
  "ledger_inv s objs \<Longrightarrow> ModelAsyncMutex_lock T (m, k, s) = (r, (m', k', s')) \<Longrightarrow> ledger_inv s' (put_new LockFut r objs)"
  unfolding ModelAsyncMutex_lock_def by (auto intro!: new_waiter_inv simp: aml_standing_def)

lemma ModelAsyncRwLock_read_inv:
  "ledger_inv s objs \<Longrightarrow> ModelAsyncRwLock_read T (m, k, s) = (r, (m', k', s')) \<Longrightarrow> ledger_inv s' (put_new ReadFut r objs)"
  unfolding ModelAsyncRwLock_read_def by (auto intro!: new_waiter_inv simp: arr_standing_def)

lemma ModelAsyncRwLock_write_inv:
  "ledger_inv s objs \<Longrightarrow> ModelAsyncRwLock_write T (m, k, s) = (r, (m', k', s')) \<Longrightarrow> ledger_inv s' (put_new WriteFut r objs)"
  unfolding ModelAsyncRwLock_write_def by (auto intro!: new_waiter_inv simp: arw_standing_def)

lemma ModelAsyncMutex_try_lock_inv:
  "ledger_inv s objs \<Longrightarrow> ModelAsyncMutex_try_lock T (m, k, s) = (r, (m', k', s')) \<Longrightarrow> ledger_inv s' (put_try LockGuard r objs)"
  unfolding ModelAsyncMutex_try_lock_def by (auto intro!: try_waiter_inv [OF _ _ emit_report])

lemma ModelAsyncRwLock_try_read_inv:
  "ledger_inv s objs \<Longrightarrow> ModelAsyncRwLock_try_read T (m, k, s) = (r, (m', k', s')) \<Longrightarrow> ledger_inv s' (put_try ReadGuard r objs)"
  unfolding ModelAsyncRwLock_try_read_def by (auto intro!: try_waiter_inv [OF _ _ emit_report])

lemma ModelAsyncRwLock_try_write_inv:
  "ledger_inv s objs \<Longrightarrow> ModelAsyncRwLock_try_write T (m, k, s) = (r, (m', k', s')) \<Longrightarrow> ledger_inv s' (put_try WriteGuard r objs)"
  unfolding ModelAsyncRwLock_try_write_def by (auto intro!: try_waiter_inv [OF _ _ emit_report])

lemma ModelAsyncSemaphore_acquire_inv:
  "ledger_inv s objs \<Longrightarrow> ModelAsyncSemaphore_acquire T (m, k, s) = (r, (m', k', s')) \<Longrightarrow>
     ledger_inv s' (put_new (AcquireFut j) r objs)"
  unfolding ModelAsyncSemaphore_acquire_def by (auto intro!: new_waiter_inv simp: asa_standing_def)

lemma ModelAsyncSemaphore_acquire_many_inv:
  "ledger_inv s objs \<Longrightarrow> ModelAsyncSemaphore_acquire_many T n (m, k, s) = (r, (m', k', s')) \<Longrightarrow>
     ledger_inv s' (put_new (AcquireFut j) r objs)"
  unfolding ModelAsyncSemaphore_acquire_many_def by (auto intro!: new_waiter_inv simp: asa_standing_def)

lemma ModelAsyncSemaphore_try_acquire_inv:
  "ledger_inv s objs \<Longrightarrow> ModelAsyncSemaphore_try_acquire T (m, k, s) = (r, (m', k', s')) \<Longrightarrow>
     ledger_inv s' (put_try Permit r objs)"
  unfolding ModelAsyncSemaphore_try_acquire_def by (auto intro!: try_waiter_inv [OF _ _ emit_sem_report])

lemma ModelAsyncSemaphore_try_acquire_many_inv:
  "ledger_inv s objs \<Longrightarrow> ModelAsyncSemaphore_try_acquire_many T n (m, k, s) = (r, (m', k', s')) \<Longrightarrow>
     ledger_inv s' (put_try Permit r objs)"
  unfolding ModelAsyncSemaphore_try_acquire_many_def by (auto intro!: try_waiter_inv [OF _ _ emit_sem_report])

lemmas creation_inv = ModelAsyncMutex_lock_inv ModelAsyncRwLock_read_inv ModelAsyncRwLock_write_inv
  ModelAsyncMutex_try_lock_inv ModelAsyncRwLock_try_read_inv ModelAsyncRwLock_try_write_inv
  ModelAsyncSemaphore_acquire_inv ModelAsyncSemaphore_acquire_many_inv
  ModelAsyncSemaphore_try_acquire_inv ModelAsyncSemaphore_try_acquire_many_inv

lemmas pending_inv =
  mutex_future.pending_inv [where w = "(k, s)" and w' = "(k', s')" for k s k' s', simplified]
  read_future.pending_inv [where w = "(k, s)" and w' = "(k', s')" for k s k' s', simplified]
  write_future.pending_inv [where w = "(k, s)" and w' = "(k', s')" for k s k' s', simplified]

lemmas drop_inv =
  mutex_future.drop_inv [where w = "(k, s)" for k s, simplified]
  read_future.drop_inv [where w = "(k, s)" for k s, simplified]
  write_future.drop_inv [where w = "(k, s)" for k s, simplified]

lemma guard_drop_inv:
  "ledger_inv s objs \<Longrightarrow> objs w = Some (LockGuard g) \<Longrightarrow> ModelAsyncMutexGuard_drop T g (k, s) = (k', s') \<Longrightarrow>
     ledger_inv s' (objs(w := None))"
  "ledger_inv s objs \<Longrightarrow> objs w = Some (ReadGuard rg) \<Longrightarrow> ModelAsyncRwLockReadGuard_drop T rg (k, s) = (k', s') \<Longrightarrow>
     ledger_inv s' (objs(w := None))"
  "ledger_inv s objs \<Longrightarrow> objs w = Some (WriteGuard wg) \<Longrightarrow> ModelAsyncRwLockWriteGuard_drop T wg (k, s) = (k', s') \<Longrightarrow>
     ledger_inv s' (objs(w := None))"
  "ledger_inv s objs \<Longrightarrow> objs w = Some (Permit p) \<Longrightarrow> ModelSemaphorePermit_drop S p (k, s) = (k', s') \<Longrightarrow>
     ledger_inv s' (objs(w := None))"
  by (frule (1) ledger_inv_obj, erule ledger_remove, assumption,
      auto simp: ModelAsyncMutexGuard_drop_def ModelAsyncRwLockReadGuard_drop_def
        ModelAsyncRwLockWriteGuard_drop_def ModelSemaphorePermit_drop_def split: option.splits)+

lemma permit_forget_inv:
  assumes "ledger_inv s objs" "objs w = Some (Permit p)" "ModelSemaphorePermit_forget S p (k, s) = (k', s')"
  shows "ledger_inv s' (objs(w \<mapsto> Forgotten p))"
  using ledger_inv_obj [OF assms(1,2)] assms(3)
  by (intro ledger_update [OF assms(1,2)])
    (auto simp: ModelSemaphorePermit_forget_def ModelSemaphorePermit_drop_def)

lemma acquire_pending_inv:
  fixes S :: "('k, 'm, 'f, 'g) tokio_semaphore" and objs :: "u64 \<Rightarrow> ('f, 'g) waiter_obj option"
  assumes "ledger_inv s objs" "objs w = Some (AcquireFut j f)"
    "ModelSemaphoreAcquire_poll S f flag (k, s) = (Pending, f', flag', (k', s'))"
  shows "ledger_inv s' (objs(w \<mapsto> AcquireFut j f'))"
  using acquire_future.pending_inv [of "(flag, k, s)" objs w j f S f' "(flag', k', s')"] assms by simp

lemma acquire_ready_inv:
  assumes inv: "ledger_inv s objs" and ob: "objs w = Some (AcquireFut j f)"
    and op: "ModelSemaphoreAcquire_poll S f flag (k, s) = (Ready r, f', flag', w')"
    and drop: "ModelSemaphoreAcquire_drop S f' w' = (k', s')"
  shows "ledger_inv s' (objs(w \<mapsto> (case r of Inr p \<Rightarrow> Permit p | Inl e \<Rightarrow> Refused f)))"
proof (cases r)
  case (Inr p)
  then show ?thesis
    using acquire_future.ready_inv [of "(flag, k, s)" objs w j f S r f' "(flag', w')" f] inv ob op drop
    by simp
next
  case (Inl e)
  then have "s' = s" using op drop ledger_inv_obj [OF inv ob]
    by (auto simp: ModelSemaphoreAcquire_poll_def ModelSemaphoreAcquire_drop_def
        split: prod.splits poll.splits if_splits sum.splits)
  moreover have "ledger_inv s (objs(w \<mapsto> Refused f))"
    using ledger_inv_obj [OF inv ob] by (intro ledger_update [OF inv ob]) auto
  ultimately show ?thesis using Inl by simp
qed

lemma acquire_drop_inv:
  fixes S :: "('k, 'm, 'f, 'g) tokio_semaphore" and objs :: "u64 \<Rightarrow> ('f, 'g) waiter_obj option"
  assumes "ledger_inv s objs" "objs w = Some (AcquireFut j f)"
    "ModelSemaphoreAcquire_drop S f (k, s) = (k', s')"
  shows "ledger_inv s' (objs(w := None))"
  using acquire_future.drop_inv [of "(flag, k, s)" objs w j f S] assms by simp

lemma await_ready_inv:
  "ledger_inv s objs \<Longrightarrow> objs v = Some (LockFut f) \<Longrightarrow> ModelAsyncLock_poll T f (k, s) = (Ready g, f', w') \<Longrightarrow>
     ModelAsyncLock_drop T f' w' = (k', s') \<Longrightarrow> ledger_inv s' (objs(v \<mapsto> LockGuard g))"
  "ledger_inv s objs \<Longrightarrow> objs v = Some (ReadFut fr) \<Longrightarrow> ModelAsyncRead_poll T fr (k, s) = (Ready gr, fr', w') \<Longrightarrow>
     ModelAsyncRead_drop T fr' w' = (k', s') \<Longrightarrow> ledger_inv s' (objs(v \<mapsto> ReadGuard gr))"
  "ledger_inv s objs \<Longrightarrow> objs v = Some (WriteFut fw) \<Longrightarrow> ModelAsyncWrite_poll T fw (k, s) = (Ready gw, fw', w') \<Longrightarrow>
     ModelAsyncWrite_drop T fw' w' = (k', s') \<Longrightarrow> ledger_inv s' (objs(v \<mapsto> WriteGuard gw))"
  using mutex_future.ready_inv [of "(k, s)" objs v f T g f' w']
    read_future.ready_inv [of "(k, s)" objs v fr T gr fr' w']
    write_future.ready_inv [of "(k, s)" objs v fw T gw fw' w'] by simp_all

lemma future_drop_inv:
  fixes T :: "('k, 'm, 'f, 'g, 'v) tokio_lock" and objs :: "u64 \<Rightarrow> ('f, 'g) waiter_obj option"
  shows "ledger_inv s objs \<Longrightarrow> objs v = Some (LockFut f) \<Longrightarrow> ModelAsyncLock_drop T f (k, s) = (k', s') \<Longrightarrow>
     ledger_inv s' (objs(v := None))"
    and "ledger_inv s objs \<Longrightarrow> objs v = Some (ReadFut fr) \<Longrightarrow> ModelAsyncRead_drop T fr (k, s) = (k', s') \<Longrightarrow>
     ledger_inv s' (objs(v := None))"
    and "ledger_inv s objs \<Longrightarrow> objs v = Some (WriteFut fw) \<Longrightarrow> ModelAsyncWrite_drop T fw (k, s) = (k', s') \<Longrightarrow>
     ledger_inv s' (objs(v := None))"
  using drop_inv(1) [of s objs v f T k] drop_inv(2) [of s objs v fr T k]
    drop_inv(3) [of s objs v fw T k] by simp_all

lemma lock_step_inv:
  assumes "lock_step A c c'" "ledger_inv (ls_rt c) (ls_objs c)"
  shows "ledger_inv (ls_rt c') (ls_objs c')"
  using assms
  by (induction rule: lock_step.induct; simp)
    ((rule creation_inv pending_inv guard_drop_inv permit_forget_inv acquire_pending_inv
      acquire_ready_inv acquire_drop_inv await_ready_inv future_drop_inv
      ledger_quiet [OF _ add_permits_quiet] ledger_quiet, assumption+)+)

lemma lock_reach_inv:
  "lock_reach A c0 c \<Longrightarrow> ledger_inv (ls_rt c0) (ls_objs c0) \<Longrightarrow> ledger_inv (ls_rt c) (ls_objs c)"
  by (induction rule: lock_reach.induct) (auto intro: lock_step_inv)

text \<open>(C1) The engine's view of the asynchronous lock family is exact. Take a process that starts
  with an empty log, an installed hook and no calls under way, and let it run through any
  interleaving of calls, polls, cancellations, drops, \<open>try_\<close> calls and permit operations on any
  mutexes, reader-writer locks and semaphores, with a wrapped library that answers as it likes.
  Then for every waiter the standing read off the log is the standing of the live object: queued
  exactly for an unresolved future that has been polled and found contention, holding exactly for a
  live guard or a forgotten permit, nothing otherwise, and always with the object's own resource
  and acquisition kind.\<close>

theorem engine_view_matches_live_objects:
  assumes "async_lock_hook (ls_rt c0) = Some h" "calls (ls_rt c0) = []" "ls_objs c0 = Map.empty"
    and "lock_reach A c0 c"
  shows "standing_in (calls (ls_rt c)) w =
    (case ls_objs c w of None \<Rightarrow> NoStanding | Some ob \<Rightarrow> obj_standing ob)"
proof -
  have "ledger_inv (ls_rt c0) (ls_objs c0)" using assms by (simp add: ledger_inv_def)
  from lock_reach_inv [OF assms(4) this] show ?thesis by (simp add: ledger_inv_def)
qed

section \<open>A run\<close>

text \<open>A wrapped library with a single lock bit: two calls, the first is granted, the second queues.\<close>

definition bit_lock :: "(bool, unit, unit, unit, unit) tokio_lock" where
  "bit_lock = \<lparr>tk_new = \<lambda>v k. ((), k), tk_acquire = \<lambda>m k. ((), k),
     tk_poll = \<lambda>f k. if k then (Pending, (), k) else (Ready (), (), True),
     tk_try = \<lambda>m k. if k then (None, k) else (Some (), True),
     tk_drop_future = \<lambda>f k. k, tk_drop_guard = \<lambda>g k. False, tk_deref = \<lambda>g k. (),
     tk_deref_mut = \<lambda>g u k. k, tk_into_inner = \<lambda>m k. ((), k), tk_get_mut = \<lambda>m u k. k\<rparr>"

definition bit_semaphore :: "(bool, unit, unit, unit) tokio_semaphore" where
  "bit_semaphore = \<lparr>ts_new = \<lambda>n k. ((), k), ts_available = \<lambda>m k. of_bool (\<not> k),
     ts_add_permits = \<lambda>m n k. k, ts_acquire = \<lambda>m k. ((), k), ts_acquire_many = \<lambda>m n k. ((), k),
     ts_poll = \<lambda>f k. if k then (Pending, (), k) else (Ready (Inr ()), (), True),
     ts_try_acquire = \<lambda>m k. if k then (None, k) else (Some (), True),
     ts_try_acquire_many = \<lambda>m n k. if k then (None, k) else (Some (), True),
     ts_drop_future = \<lambda>f k. k, ts_drop_permit = \<lambda>p k. False, ts_forget_permit = \<lambda>p k. k\<rparr>"

abbreviation bit_api :: "(bool, unit, unit, unit, unit) tokio_api" where
  "bit_api \<equiv> \<lparr>api_mx = bit_lock, api_rd = bit_lock, api_wr = bit_lock, api_sem = bit_semaphore\<rparr>"

abbreviation demo_mutex :: "unit ModelAsyncMutex" where
  "demo_mutex \<equiv> \<lparr>am_resource = AsyncResourceId 1, am_inner = ()\<rparr>"

abbreviation demo_rt :: "u64 \<Rightarrow> rt" where
  "demo_rt n \<equiv> (install_async_lock_hook 0 rt_init)\<lparr>NEXT_ASYNC_LOCK_WAITER_ID := n\<rparr>"

abbreviation demo_fut :: "u64 \<Rightarrow> bool \<Rightarrow> bool \<Rightarrow> unit ModelAsyncLock" where
  "demo_fut w rq aq \<equiv> \<lparr>aml_resource = 1, aml_waiter = w, aml_inner = (), aml_requested_emitted = rq,
     aml_acquired = aq\<rparr>"

abbreviation demo_sys :: "bool \<Rightarrow> rt \<Rightarrow> (u64 \<Rightarrow> (unit, unit) waiter_obj option) \<Rightarrow> (bool, unit, unit, unit) lock_sys" where
  "demo_sys k s objs \<equiv> \<lparr>ls_mx = [0 \<mapsto> demo_mutex], ls_rw = Map.empty, ls_sem = Map.empty, ls_tk = k,
     ls_rt = s, ls_objs = objs\<rparr>"

lemma demo_hook [simp]: "async_lock_hook (demo_rt n) = Some 0"
  by (simp add: hook_reads hook_installs)

lemma demo_lock:
  "n \<noteq> U64_MAX \<Longrightarrow>
   ModelAsyncMutex_lock bit_lock (demo_mutex, k, demo_rt n) = (Inr (demo_fut n False False), (demo_mutex, k, demo_rt (n + 1)))"
  by (simp add: ModelAsyncMutex_lock_def lift_id_def lift_rt_def lift_tk_def arid_get_def bit_lock_def
      next_async_lock_waiter_id_def checked_add1_def rbind_def)

lemma demo_reach:
  "\<exists>s. lock_reach bit_api (demo_sys False (demo_rt 1) Map.empty)
     (demo_sys True s [1 \<mapsto> LockGuard \<lparr>amg_inner = (), amg_resource = 1, amg_waiter = 1\<rparr>,
       2 \<mapsto> LockFut (demo_fut 2 True False)])"
proof -
  let ?o1 = "[1 \<mapsto> LockFut (demo_fut 1 False False)]"
  let ?o2 = "?o1(2 \<mapsto> LockFut (demo_fut 2 False False))"
  let ?g = "LockGuard \<lparr>amg_inner = (), amg_resource = 1, amg_waiter = 1\<rparr>"
  let ?o3 = "?o2(1 \<mapsto> ?g)"
  let ?s3 = "notify (Some 0) (ALockEv (al_acquired 1 1 AcqMutex)) (demo_rt 3)"
  let ?s4 = "notify (Some 0) (ALockEv (al_requested 1 2 AcqMutex)) ?s3"
  have "lock_step bit_api (demo_sys False (demo_rt 1) Map.empty) (demo_sys False (demo_rt 2) ?o1)"
    using lock_step.locks [of "demo_sys False (demo_rt 1) Map.empty" 0 demo_mutex bit_api] demo_lock [of 1 False]
    by (auto simp: put_new_def)
  moreover have "lock_step bit_api (demo_sys False (demo_rt 2) ?o1) (demo_sys False (demo_rt 3) ?o2)"
    using lock_step.locks [of "demo_sys False (demo_rt 2) ?o1" 0 demo_mutex bit_api] demo_lock [of 2 False]
    by (auto simp: put_new_def)
  moreover have "lock_step bit_api (demo_sys False (demo_rt 3) ?o2) (demo_sys True ?s3 ?o3)"
    using lock_step.lock_ready [of "demo_sys False (demo_rt 3) ?o2" 1 "demo_fut 1 False False" bit_api]
    by (auto simp: ModelAsyncLock_poll_def ModelAsyncLock_drop_def bit_lock_def)
  moreover have "lock_step bit_api (demo_sys True ?s3 ?o3)
      (demo_sys True ?s4 (?o3(2 \<mapsto> LockFut (demo_fut 2 True False))))"
    using lock_step.lock_pending [of "demo_sys True ?s3 ?o3" 2 "demo_fut 2 False False" bit_api]
    by (auto simp: ModelAsyncLock_poll_def bit_lock_def)
  ultimately have "lock_reach bit_api (demo_sys False (demo_rt 1) Map.empty)
      (demo_sys True ?s4 (?o3(2 \<mapsto> LockFut (demo_fut 2 True False))))"
    by (meson lock_start lock_next)
  then show ?thesis by (auto simp: fun_upd_twist)
qed

theorem engine_view_matches_live_objects_witness:
  "\<exists>c. lock_reach bit_api (demo_sys False (demo_rt 1) Map.empty) c
     \<and> standing_in (calls (ls_rt c)) 1 = Held 1 AcqMutex
     \<and> standing_in (calls (ls_rt c)) 2 = Queued 1 AcqMutex
     \<and> standing_in (calls (ls_rt c)) 3 = NoStanding"
proof -
  obtain s where run: "lock_reach bit_api (demo_sys False (demo_rt 1) Map.empty)
     (demo_sys True s [1 \<mapsto> LockGuard \<lparr>amg_inner = (), amg_resource = 1, amg_waiter = 1\<rparr>,
       2 \<mapsto> LockFut (demo_fut 2 True False)])" using demo_reach by blast
  note view = engine_view_matches_live_objects [OF _ _ _ run, of 0]
  show ?thesis
    by (rule exI, rule conjI, rule run)
      (use view [of 1] view [of 2] view [of 3] in \<open>simp add: hook_reads hook_installs rt_init_def aml_standing_def\<close>)
qed

end
