(* ===== verification/Channels.thy ===== *)
theory Channels
  imports Ids
begin

text \<open>
  The channel seams \<^verbatim>\<open>mpsc.rs\<close>, \<^verbatim>\<open>oneshot.rs\<close>, \<^verbatim>\<open>watch.rs\<close>, \<^verbatim>\<open>broadcast.rs\<close> and the
  notification seam \<^verbatim>\<open>async_notify.rs\<close>. The tokio endpoint behind each wrapper is a parameter,
  a record of the functions the wrapper calls on a tokio state of any type. A Rust \<open>Result\<close> is a
  sum with the error on the left. A field of an endpoint is dropped after its \<open>drop\<close> body ran, so
  the boundary is reported first.
\<close>

section \<open>Bounded and unbounded mpsc\<close>

datatype 'v TrySendError = TrySendFull 'v | TrySendClosed 'v

datatype TryRecvError = TryRecvEmpty | TryRecvDisconnected

text \<open>The same record serves the unbounded flavour, whose \<open>send\<close> does not wait.\<close>

record ('k, 't, 'r, 'f, 'v) tokio_mpsc =
  mp_channel :: "usize \<Rightarrow> 'k \<Rightarrow> ('t \<times> 'r) \<times> 'k"
  mp_unbounded_channel :: "'k \<Rightarrow> ('t \<times> 'r) \<times> 'k"
  mp_clone :: "'t \<Rightarrow> 'k \<Rightarrow> 't \<times> 'k"
  mp_drop_tx :: "'t \<Rightarrow> 'k \<Rightarrow> 'k"
  mp_drop_rx :: "'r \<Rightarrow> 'k \<Rightarrow> 'k"
  mp_send :: "'t \<Rightarrow> 'v \<Rightarrow> 'k \<Rightarrow> 'f \<times> 'k"
  mp_poll_send :: "'f \<Rightarrow> 'k \<Rightarrow> ('v + unit) poll \<times> 'f \<times> 'k"
  mp_try_send :: "'t \<Rightarrow> 'v \<Rightarrow> 'k \<Rightarrow> ('v TrySendError + unit) \<times> 'k"
  mp_send_now :: "'t \<Rightarrow> 'v \<Rightarrow> 'k \<Rightarrow> ('v + unit) \<times> 'k"
  mp_recv :: "'r \<Rightarrow> 'k \<Rightarrow> 'f \<times> 'k"
  mp_poll_recv :: "'f \<Rightarrow> 'k \<Rightarrow> 'v option poll \<times> 'f \<times> 'k"
  mp_try_recv :: "'r \<Rightarrow> 'k \<Rightarrow> (TryRecvError + 'v) \<times> 'k"
  mp_drop_future :: "'f \<Rightarrow> 'k \<Rightarrow> 'k"
  mp_close :: "'r \<Rightarrow> 'k \<Rightarrow> 'k"
  mp_tx_is_closed :: "'t \<Rightarrow> 'k \<Rightarrow> bool"
  mp_tx_capacity :: "'t \<Rightarrow> 'k \<Rightarrow> usize"
  mp_tx_max_capacity :: "'t \<Rightarrow> 'k \<Rightarrow> usize"
  mp_same_channel :: "'t \<Rightarrow> 't \<Rightarrow> 'k \<Rightarrow> bool"
  mp_rx_is_closed :: "'r \<Rightarrow> 'k \<Rightarrow> bool"
  mp_rx_is_empty :: "'r \<Rightarrow> 'k \<Rightarrow> bool"
  mp_rx_len :: "'r \<Rightarrow> 'k \<Rightarrow> usize"
  mp_rx_capacity :: "'r \<Rightarrow> 'k \<Rightarrow> usize"
  mp_rx_max_capacity :: "'r \<Rightarrow> 'k \<Rightarrow> usize"

definition ok_or_closed :: "'e + 'a \<Rightarrow> AsyncChannelOutcome" where
  "ok_or_closed r = (case r of Inr x \<Rightarrow> OutcomeOk | Inl e \<Rightarrow> OutcomeClosed)"

definition some_or_closed :: "'a option \<Rightarrow> AsyncChannelOutcome" where
  "some_or_closed r = (if r \<noteq> None then OutcomeOk else OutcomeClosed)"

fun try_send_outcome :: "'v TrySendError + unit \<Rightarrow> AsyncChannelOutcome" where
  "try_send_outcome (Inr u) = OutcomeOk"
| "try_send_outcome (Inl (TrySendFull v)) = OutcomeFull"
| "try_send_outcome (Inl (TrySendClosed v)) = OutcomeClosed"

fun try_recv_outcome :: "TryRecvError + 'v \<Rightarrow> AsyncChannelOutcome" where
  "try_recv_outcome (Inr v) = OutcomeOk"
| "try_recv_outcome (Inl TryRecvEmpty) = OutcomeEmpty"
| "try_recv_outcome (Inl TryRecvDisconnected) = OutcomeClosed"

record 't MpscSender =
  mtx_inner :: 't
  mtx_resource :: u64

record 'r MpscReceiver =
  mrx_inner :: 'r
  mrx_resource :: u64

record 't UnboundedSender =
  utx_inner :: 't
  utx_resource :: u64

record 'r UnboundedReceiver =
  urx_inner :: 'r
  urx_resource :: u64

definition mpsc_channel :: "('k, 't, 'r, 'f, 'v) tokio_mpsc
    \<Rightarrow> usize \<Rightarrow> 'k \<times> rt \<Rightarrow> (panic + 't MpscSender \<times> 'r MpscReceiver) \<times> ('k \<times> rt)" where
  "mpsc_channel T buffer = (\<lambda>(k, s).
     case mp_channel T buffer k of
       ((inner_tx, inner_rx), k') \<Rightarrow>
         (case next_async_lock_resource_id s of
            (Inl p, s') \<Rightarrow> (Inl p, (mp_drop_tx T inner_tx (mp_drop_rx T inner_rx k'), s'))
          | (Inr resource, s') \<Rightarrow>
              (Inr (\<lparr>mtx_inner = inner_tx, mtx_resource = resource\<rparr>,
                    \<lparr>mrx_inner = inner_rx, mrx_resource = resource\<rparr>),
               (k', notify (async_channel_hook s') (AChannelEv (ch_created resource (MpscBounded buffer))) s'))))"

definition mpsc_unbounded_channel :: "('k, 't, 'r, 'f, 'v) tokio_mpsc
    \<Rightarrow> 'k \<times> rt \<Rightarrow> (panic + 't UnboundedSender \<times> 'r UnboundedReceiver) \<times> ('k \<times> rt)" where
  "mpsc_unbounded_channel T = (\<lambda>(k, s).
     case mp_unbounded_channel T k of
       ((inner_tx, inner_rx), k') \<Rightarrow>
         (case next_async_lock_resource_id s of
            (Inl p, s') \<Rightarrow> (Inl p, (mp_drop_tx T inner_tx (mp_drop_rx T inner_rx k'), s'))
          | (Inr resource, s') \<Rightarrow>
              (Inr (\<lparr>utx_inner = inner_tx, utx_resource = resource\<rparr>,
                    \<lparr>urx_inner = inner_rx, urx_resource = resource\<rparr>),
               (k', notify (async_channel_hook s') (AChannelEv (ch_created resource MpscUnbounded)) s'))))"

definition MpscSender_clone :: "('k, 't, 'r, 'f, 'v) tokio_mpsc
    \<Rightarrow> 't MpscSender \<Rightarrow> 'k \<times> rt \<Rightarrow> 't MpscSender \<times> ('k \<times> rt)" where
  "MpscSender_clone T e = (\<lambda>(k, s).
     case mp_clone T (mtx_inner e) k of
       (cloned, k') \<Rightarrow>
         (\<lparr>mtx_inner = cloned, mtx_resource = mtx_resource e\<rparr>,
          (k', notify (async_channel_hook s) (AChannelEv (ch_endpoint_cloned (mtx_resource e) SideSender)) s)))"

definition MpscSender_drop :: "('k, 't, 'r, 'f, 'v) tokio_mpsc \<Rightarrow> 't MpscSender \<Rightarrow> 'k \<times> rt \<Rightarrow> 'k \<times> rt" where
  "MpscSender_drop T e = (\<lambda>(k, s).
     (mp_drop_tx T (mtx_inner e) k,
      notify (async_channel_hook s) (AChannelEv (ch_endpoint_dropped (mtx_resource e) SideSender)) s))"

record 'f ModelMpscSend =
  mps_resource :: u64
  mps_op :: u64
  mps_inner :: 'f
  mps_requested_emitted :: bool
  mps_resolved :: bool

definition ModelMpscSend_poll :: "('k, 't, 'r, 'f, 'v) tokio_mpsc
    \<Rightarrow> 'f ModelMpscSend \<Rightarrow> 'k \<times> rt \<Rightarrow> ('v + unit) poll \<times> 'f ModelMpscSend \<times> ('k \<times> rt)" where
  "ModelMpscSend_poll T f = (\<lambda>(k, s).
     case mp_poll_send T (mps_inner f) k of
       (Pending, i, k') \<Rightarrow>
         if \<not> mps_requested_emitted f
         then (Pending, f\<lparr>mps_inner := i, mps_requested_emitted := True\<rparr>,
               (k', notify (async_channel_hook s)
                      (AChannelEv (ch_op_requested (mps_resource f) (mps_op f) OpSend)) s))
         else (Pending, f\<lparr>mps_inner := i\<rparr>, (k', s))
     | (Ready result, i, k') \<Rightarrow>
         (Ready result, f\<lparr>mps_inner := i, mps_resolved := True\<rparr>,
          (k', notify (async_channel_hook s)
                 (AChannelEv (ch_op_resolved (mps_resource f) (mps_op f) OpSend (ok_or_closed result))) s)))"

definition ModelMpscSend_drop ::
    "('k, 't, 'r, 'f, 'v) tokio_mpsc \<Rightarrow> 'f ModelMpscSend \<Rightarrow> 'k \<times> rt \<Rightarrow> 'k \<times> rt" where
  "ModelMpscSend_drop T f = (\<lambda>(k, s).
     (mp_drop_future T (mps_inner f) k,
      if mps_requested_emitted f \<and> \<not> mps_resolved f
      then notify (async_channel_hook s) (AChannelEv (ch_op_dropped (mps_resource f) (mps_op f))) s
      else s))"

definition MpscSender_send :: "('k, 't, 'r, 'f, 'v) tokio_mpsc
    \<Rightarrow> 't MpscSender \<Rightarrow> 'v \<Rightarrow> 'k \<times> rt \<Rightarrow> (panic + 'f ModelMpscSend) \<times> ('k \<times> rt)" where
  "MpscSender_send T e v = (\<lambda>(k, s).
     case next_async_lock_waiter_id s of
       (Inl p, s') \<Rightarrow> (Inl p, (k, s'))
     | (Inr op, s') \<Rightarrow>
         (case mp_send T (mtx_inner e) v k of
            (i, k') \<Rightarrow>
              (Inr \<lparr>mps_resource = mtx_resource e, mps_op = op, mps_inner = i,
                    mps_requested_emitted = False, mps_resolved = False\<rparr>, (k', s'))))"

definition MpscSender_try_send :: "('k, 't, 'r, 'f, 'v) tokio_mpsc
    \<Rightarrow> 't MpscSender \<Rightarrow> 'v \<Rightarrow> 'k \<times> rt \<Rightarrow> (panic + ('v TrySendError + unit)) \<times> ('k \<times> rt)" where
  "MpscSender_try_send T e message = (\<lambda>(k, s).
     case mp_try_send T (mtx_inner e) message k of
       (result, k') \<Rightarrow>
         (case next_async_lock_waiter_id s of
            (Inl p, s') \<Rightarrow> (Inl p, (k', s'))
          | (Inr op, s') \<Rightarrow>
              (Inr result,
               (k', notify (async_channel_hook s')
                      (AChannelEv (ch_op_resolved (mtx_resource e) op OpSend (try_send_outcome result))) s'))))"

definition MpscSender_is_closed :: "('k, 't, 'r, 'f, 'v) tokio_mpsc \<Rightarrow> 't MpscSender \<Rightarrow> 'k \<Rightarrow> bool" where
  "MpscSender_is_closed T e k = mp_tx_is_closed T (mtx_inner e) k"

definition MpscSender_capacity :: "('k, 't, 'r, 'f, 'v) tokio_mpsc \<Rightarrow> 't MpscSender \<Rightarrow> 'k \<Rightarrow> usize" where
  "MpscSender_capacity T e k = mp_tx_capacity T (mtx_inner e) k"

definition MpscSender_max_capacity :: "('k, 't, 'r, 'f, 'v) tokio_mpsc \<Rightarrow> 't MpscSender \<Rightarrow> 'k \<Rightarrow> usize" where
  "MpscSender_max_capacity T e k = mp_tx_max_capacity T (mtx_inner e) k"

definition MpscSender_same_channel ::
    "('k, 't, 'r, 'f, 'v) tokio_mpsc \<Rightarrow> 't MpscSender \<Rightarrow> 't MpscSender \<Rightarrow> 'k \<Rightarrow> bool" where
  "MpscSender_same_channel T e other k = mp_same_channel T (mtx_inner e) (mtx_inner other) k"

definition MpscReceiver_drop :: "('k, 't, 'r, 'f, 'v) tokio_mpsc \<Rightarrow> 'r MpscReceiver \<Rightarrow> 'k \<times> rt \<Rightarrow> 'k \<times> rt" where
  "MpscReceiver_drop T e = (\<lambda>(k, s).
     (mp_drop_rx T (mrx_inner e) k,
      notify (async_channel_hook s) (AChannelEv (ch_endpoint_dropped (mrx_resource e) SideReceiver)) s))"

record 'f ModelMpscRecv =
  mpr_resource :: u64
  mpr_op :: u64
  mpr_inner :: 'f
  mpr_requested_emitted :: bool
  mpr_resolved :: bool

definition ModelMpscRecv_poll :: "('k, 't, 'r, 'f, 'v) tokio_mpsc
    \<Rightarrow> 'f ModelMpscRecv \<Rightarrow> 'k \<times> rt \<Rightarrow> ('v option) poll \<times> 'f ModelMpscRecv \<times> ('k \<times> rt)" where
  "ModelMpscRecv_poll T f = (\<lambda>(k, s).
     case mp_poll_recv T (mpr_inner f) k of
       (Pending, i, k') \<Rightarrow>
         if \<not> mpr_requested_emitted f
         then (Pending, f\<lparr>mpr_inner := i, mpr_requested_emitted := True\<rparr>,
               (k', notify (async_channel_hook s)
                      (AChannelEv (ch_op_requested (mpr_resource f) (mpr_op f) OpRecv)) s))
         else (Pending, f\<lparr>mpr_inner := i\<rparr>, (k', s))
     | (Ready result, i, k') \<Rightarrow>
         (Ready result, f\<lparr>mpr_inner := i, mpr_resolved := True\<rparr>,
          (k', notify (async_channel_hook s)
                 (AChannelEv (ch_op_resolved (mpr_resource f) (mpr_op f) OpRecv (some_or_closed result))) s)))"

definition ModelMpscRecv_drop ::
    "('k, 't, 'r, 'f, 'v) tokio_mpsc \<Rightarrow> 'f ModelMpscRecv \<Rightarrow> 'k \<times> rt \<Rightarrow> 'k \<times> rt" where
  "ModelMpscRecv_drop T f = (\<lambda>(k, s).
     (mp_drop_future T (mpr_inner f) k,
      if mpr_requested_emitted f \<and> \<not> mpr_resolved f
      then notify (async_channel_hook s) (AChannelEv (ch_op_dropped (mpr_resource f) (mpr_op f))) s
      else s))"

definition MpscReceiver_recv :: "('k, 't, 'r, 'f, 'v) tokio_mpsc
    \<Rightarrow> 'r MpscReceiver \<Rightarrow> 'k \<times> rt \<Rightarrow> (panic + 'f ModelMpscRecv) \<times> ('k \<times> rt)" where
  "MpscReceiver_recv T e = (\<lambda>(k, s).
     case next_async_lock_waiter_id s of
       (Inl p, s') \<Rightarrow> (Inl p, (k, s'))
     | (Inr op, s') \<Rightarrow>
         (case mp_recv T (mrx_inner e) k of
            (i, k') \<Rightarrow>
              (Inr \<lparr>mpr_resource = mrx_resource e, mpr_op = op, mpr_inner = i,
                    mpr_requested_emitted = False, mpr_resolved = False\<rparr>, (k', s'))))"

definition MpscReceiver_try_recv :: "('k, 't, 'r, 'f, 'v) tokio_mpsc
    \<Rightarrow> 'r MpscReceiver \<Rightarrow> 'k \<times> rt \<Rightarrow> (panic + (TryRecvError + 'v)) \<times> ('k \<times> rt)" where
  "MpscReceiver_try_recv T e = (\<lambda>(k, s).
     case mp_try_recv T (mrx_inner e) k of
       (result, k') \<Rightarrow>
         (case next_async_lock_waiter_id s of
            (Inl p, s') \<Rightarrow> (Inl p, (k', s'))
          | (Inr op, s') \<Rightarrow>
              (Inr result,
               (k', notify (async_channel_hook s')
                      (AChannelEv (ch_op_resolved (mrx_resource e) op OpRecv (try_recv_outcome result))) s'))))"

definition MpscReceiver_close :: "('k, 't, 'r, 'f, 'v) tokio_mpsc \<Rightarrow> 'r MpscReceiver \<Rightarrow> 'k \<times> rt \<Rightarrow> 'k \<times> rt" where
  "MpscReceiver_close T e = (\<lambda>(k, s).
     (mp_close T (mrx_inner e) k,
      notify (async_channel_hook s) (AChannelEv (ch_closed (mrx_resource e))) s))"

definition MpscReceiver_is_closed :: "('k, 't, 'r, 'f, 'v) tokio_mpsc \<Rightarrow> 'r MpscReceiver \<Rightarrow> 'k \<Rightarrow> bool" where
  "MpscReceiver_is_closed T e k = mp_rx_is_closed T (mrx_inner e) k"

definition MpscReceiver_is_empty :: "('k, 't, 'r, 'f, 'v) tokio_mpsc \<Rightarrow> 'r MpscReceiver \<Rightarrow> 'k \<Rightarrow> bool" where
  "MpscReceiver_is_empty T e k = mp_rx_is_empty T (mrx_inner e) k"

definition MpscReceiver_len :: "('k, 't, 'r, 'f, 'v) tokio_mpsc \<Rightarrow> 'r MpscReceiver \<Rightarrow> 'k \<Rightarrow> usize" where
  "MpscReceiver_len T e k = mp_rx_len T (mrx_inner e) k"

definition MpscReceiver_capacity :: "('k, 't, 'r, 'f, 'v) tokio_mpsc \<Rightarrow> 'r MpscReceiver \<Rightarrow> 'k \<Rightarrow> usize" where
  "MpscReceiver_capacity T e k = mp_rx_capacity T (mrx_inner e) k"

definition MpscReceiver_max_capacity :: "('k, 't, 'r, 'f, 'v) tokio_mpsc \<Rightarrow> 'r MpscReceiver \<Rightarrow> 'k \<Rightarrow> usize" where
  "MpscReceiver_max_capacity T e k = mp_rx_max_capacity T (mrx_inner e) k"

definition UnboundedSender_clone :: "('k, 't, 'r, 'f, 'v) tokio_mpsc
    \<Rightarrow> 't UnboundedSender \<Rightarrow> 'k \<times> rt \<Rightarrow> 't UnboundedSender \<times> ('k \<times> rt)" where
  "UnboundedSender_clone T e = (\<lambda>(k, s).
     case mp_clone T (utx_inner e) k of
       (cloned, k') \<Rightarrow>
         (\<lparr>utx_inner = cloned, utx_resource = utx_resource e\<rparr>,
          (k', notify (async_channel_hook s) (AChannelEv (ch_endpoint_cloned (utx_resource e) SideSender)) s)))"

definition UnboundedSender_drop :: "('k, 't, 'r, 'f, 'v) tokio_mpsc \<Rightarrow> 't UnboundedSender \<Rightarrow> 'k \<times> rt \<Rightarrow> 'k \<times> rt" where
  "UnboundedSender_drop T e = (\<lambda>(k, s).
     (mp_drop_tx T (utx_inner e) k,
      notify (async_channel_hook s) (AChannelEv (ch_endpoint_dropped (utx_resource e) SideSender)) s))"

definition UnboundedSender_send :: "('k, 't, 'r, 'f, 'v) tokio_mpsc
    \<Rightarrow> 't UnboundedSender \<Rightarrow> 'v \<Rightarrow> 'k \<times> rt \<Rightarrow> (panic + ('v + unit)) \<times> ('k \<times> rt)" where
  "UnboundedSender_send T e message = (\<lambda>(k, s).
     case mp_send_now T (utx_inner e) message k of
       (result, k') \<Rightarrow>
         (case next_async_lock_waiter_id s of
            (Inl p, s') \<Rightarrow> (Inl p, (k', s'))
          | (Inr op, s') \<Rightarrow>
              (Inr result,
               (k', notify (async_channel_hook s')
                      (AChannelEv (ch_op_resolved (utx_resource e) op OpSend (ok_or_closed result))) s'))))"

definition UnboundedSender_is_closed :: "('k, 't, 'r, 'f, 'v) tokio_mpsc \<Rightarrow> 't UnboundedSender \<Rightarrow> 'k \<Rightarrow> bool" where
  "UnboundedSender_is_closed T e k = mp_tx_is_closed T (utx_inner e) k"

definition UnboundedSender_same_channel ::
    "('k, 't, 'r, 'f, 'v) tokio_mpsc \<Rightarrow> 't UnboundedSender \<Rightarrow> 't UnboundedSender \<Rightarrow> 'k \<Rightarrow> bool" where
  "UnboundedSender_same_channel T e other k = mp_same_channel T (utx_inner e) (utx_inner other) k"

definition UnboundedReceiver_drop :: "('k, 't, 'r, 'f, 'v) tokio_mpsc \<Rightarrow> 'r UnboundedReceiver \<Rightarrow> 'k \<times> rt \<Rightarrow> 'k \<times> rt" where
  "UnboundedReceiver_drop T e = (\<lambda>(k, s).
     (mp_drop_rx T (urx_inner e) k,
      notify (async_channel_hook s) (AChannelEv (ch_endpoint_dropped (urx_resource e) SideReceiver)) s))"

definition UnboundedReceiver_recv :: "('k, 't, 'r, 'f, 'v) tokio_mpsc
    \<Rightarrow> 'r UnboundedReceiver \<Rightarrow> 'k \<times> rt \<Rightarrow> (panic + 'f ModelMpscRecv) \<times> ('k \<times> rt)" where
  "UnboundedReceiver_recv T e = (\<lambda>(k, s).
     case next_async_lock_waiter_id s of
       (Inl p, s') \<Rightarrow> (Inl p, (k, s'))
     | (Inr op, s') \<Rightarrow>
         (case mp_recv T (urx_inner e) k of
            (i, k') \<Rightarrow>
              (Inr \<lparr>mpr_resource = urx_resource e, mpr_op = op, mpr_inner = i,
                    mpr_requested_emitted = False, mpr_resolved = False\<rparr>, (k', s'))))"

definition UnboundedReceiver_try_recv :: "('k, 't, 'r, 'f, 'v) tokio_mpsc
    \<Rightarrow> 'r UnboundedReceiver \<Rightarrow> 'k \<times> rt \<Rightarrow> (panic + (TryRecvError + 'v)) \<times> ('k \<times> rt)" where
  "UnboundedReceiver_try_recv T e = (\<lambda>(k, s).
     case mp_try_recv T (urx_inner e) k of
       (result, k') \<Rightarrow>
         (case next_async_lock_waiter_id s of
            (Inl p, s') \<Rightarrow> (Inl p, (k', s'))
          | (Inr op, s') \<Rightarrow>
              (Inr result,
               (k', notify (async_channel_hook s')
                      (AChannelEv (ch_op_resolved (urx_resource e) op OpRecv (try_recv_outcome result))) s'))))"

definition UnboundedReceiver_close :: "('k, 't, 'r, 'f, 'v) tokio_mpsc \<Rightarrow> 'r UnboundedReceiver \<Rightarrow> 'k \<times> rt \<Rightarrow> 'k \<times> rt" where
  "UnboundedReceiver_close T e = (\<lambda>(k, s).
     (mp_close T (urx_inner e) k,
      notify (async_channel_hook s) (AChannelEv (ch_closed (urx_resource e))) s))"

definition UnboundedReceiver_is_closed :: "('k, 't, 'r, 'f, 'v) tokio_mpsc \<Rightarrow> 'r UnboundedReceiver \<Rightarrow> 'k \<Rightarrow> bool" where
  "UnboundedReceiver_is_closed T e k = mp_rx_is_closed T (urx_inner e) k"

definition UnboundedReceiver_is_empty :: "('k, 't, 'r, 'f, 'v) tokio_mpsc \<Rightarrow> 'r UnboundedReceiver \<Rightarrow> 'k \<Rightarrow> bool" where
  "UnboundedReceiver_is_empty T e k = mp_rx_is_empty T (urx_inner e) k"

definition UnboundedReceiver_len :: "('k, 't, 'r, 'f, 'v) tokio_mpsc \<Rightarrow> 'r UnboundedReceiver \<Rightarrow> 'k \<Rightarrow> usize" where
  "UnboundedReceiver_len T e k = mp_rx_len T (urx_inner e) k"

section \<open>Oneshot\<close>

record ('k, 't, 'r, 'v) tokio_oneshot =
  os_channel :: "'k \<Rightarrow> ('t \<times> 'r) \<times> 'k"
  os_send :: "'t \<Rightarrow> 'v \<Rightarrow> 'k \<Rightarrow> ('v + unit) \<times> 'k"
  os_is_closed :: "'t \<Rightarrow> 'k \<Rightarrow> bool"
  os_drop_tx :: "'t \<Rightarrow> 'k \<Rightarrow> 'k"
  os_poll :: "'r \<Rightarrow> 'k \<Rightarrow> (unit + 'v) poll \<times> 'r \<times> 'k"
  os_try_recv :: "'r \<Rightarrow> 'k \<Rightarrow> (TryRecvError + 'v) \<times> 'r \<times> 'k"
  os_close :: "'r \<Rightarrow> 'k \<Rightarrow> 'r \<times> 'k"
  os_drop_rx :: "'r \<Rightarrow> 'k \<Rightarrow> 'k"

record 't OneshotSender =
  otx_inner :: "'t option"
  otx_resource :: u64

record 'r OneshotReceiver =
  orx_resource :: u64
  orx_op :: u64
  orx_inner :: 'r
  orx_requested_emitted :: bool
  orx_resolved :: bool

definition OneshotReceiver_poll :: "('k, 't, 'r, 'v) tokio_oneshot
    \<Rightarrow> 'r OneshotReceiver \<Rightarrow> 'k \<times> rt \<Rightarrow> (unit + 'v) poll \<times> 'r OneshotReceiver \<times> ('k \<times> rt)" where
  "OneshotReceiver_poll T f = (\<lambda>(k, s).
     case os_poll T (orx_inner f) k of
       (Pending, i, k') \<Rightarrow>
         if \<not> orx_requested_emitted f
         then (Pending, f\<lparr>orx_inner := i, orx_requested_emitted := True\<rparr>,
               (k', notify (async_channel_hook s)
                      (AChannelEv (ch_op_requested (orx_resource f) (orx_op f) OpRecv)) s))
         else (Pending, f\<lparr>orx_inner := i\<rparr>, (k', s))
     | (Ready result, i, k') \<Rightarrow>
         (Ready result, f\<lparr>orx_inner := i, orx_resolved := True\<rparr>,
          (k', notify (async_channel_hook s)
                 (AChannelEv (ch_op_resolved (orx_resource f) (orx_op f) OpRecv (ok_or_closed result))) s)))"

definition oneshot_channel :: "('k, 't, 'r, 'v) tokio_oneshot
    \<Rightarrow> 'k \<times> rt \<Rightarrow> (panic + 't OneshotSender \<times> 'r OneshotReceiver) \<times> ('k \<times> rt)" where
  "oneshot_channel T = (\<lambda>(k, s).
     case os_channel T k of
       ((inner_tx, inner_rx), k') \<Rightarrow>
         (case next_async_lock_resource_id s of
            (Inl p, s') \<Rightarrow> (Inl p, (os_drop_tx T inner_tx (os_drop_rx T inner_rx k'), s'))
          | (Inr resource, s') \<Rightarrow>
              (case next_async_lock_waiter_id
                      (notify (async_channel_hook s') (AChannelEv (ch_created resource Oneshot)) s') of
                 (Inl p, s'') \<Rightarrow> (Inl p, (os_drop_tx T inner_tx (os_drop_rx T inner_rx k'), s''))
               | (Inr op, s'') \<Rightarrow>
                   (Inr (\<lparr>otx_inner = Some inner_tx, otx_resource = resource\<rparr>,
                         \<lparr>orx_resource = resource, orx_op = op, orx_inner = inner_rx,
                          orx_requested_emitted = False, orx_resolved = False\<rparr>), (k', s'')))))"

definition OneshotSender_drop ::
    "('k, 't, 'r, 'v) tokio_oneshot \<Rightarrow> 't OneshotSender \<Rightarrow> 'k \<times> rt \<Rightarrow> 'k \<times> rt" where
  "OneshotSender_drop T e = (\<lambda>(k, s).
     case otx_inner e of
       None \<Rightarrow> (k, s)
     | Some i \<Rightarrow>
         (os_drop_tx T i k,
          notify (async_channel_hook s) (AChannelEv (ch_endpoint_dropped (otx_resource e) SideSender)) s))"

text \<open>\<open>send\<close> takes the endpoint by value: the emptied sender is dropped when the call ends, also
  when the id allocation panics.\<close>

definition OneshotSender_send :: "('k, 't, 'r, 'v) tokio_oneshot
    \<Rightarrow> 't OneshotSender \<Rightarrow> 'v \<Rightarrow> 'k \<times> rt \<Rightarrow> (panic + ('v + unit)) \<times> ('k \<times> rt)" where
  "OneshotSender_send T e v = (\<lambda>(k, s).
     case otx_inner e of
       None \<Rightarrow> (Inl SenderConsumed, OneshotSender_drop T e (k, s))
     | Some i \<Rightarrow>
         (case os_send T i v k of
            (result, k') \<Rightarrow>
              (case next_async_lock_waiter_id s of
                 (Inl p, s') \<Rightarrow> (Inl p, OneshotSender_drop T (e\<lparr>otx_inner := None\<rparr>) (k', s'))
               | (Inr op, s') \<Rightarrow>
                   (Inr result,
                    OneshotSender_drop T (e\<lparr>otx_inner := None\<rparr>)
                      (k', notify (async_channel_hook s')
                             (AChannelEv (ch_op_resolved (otx_resource e) op OpSend (ok_or_closed result))) s')))))"

definition OneshotSender_is_closed ::
    "('k, 't, 'r, 'v) tokio_oneshot \<Rightarrow> 't OneshotSender \<Rightarrow> 'k \<Rightarrow> panic + bool" where
  "OneshotSender_is_closed T e k =
     (case otx_inner e of None \<Rightarrow> Inl SenderConsumed | Some i \<Rightarrow> Inr (os_is_closed T i k))"

definition OneshotReceiver_try_recv :: "('k, 't, 'r, 'v) tokio_oneshot \<Rightarrow> 'r OneshotReceiver
    \<Rightarrow> 'k \<times> rt \<Rightarrow> (panic + (TryRecvError + 'v)) \<times> 'r OneshotReceiver \<times> ('k \<times> rt)" where
  "OneshotReceiver_try_recv T e = (\<lambda>(k, s).
     case os_try_recv T (orx_inner e) k of
       (result, i, k') \<Rightarrow>
         (case next_async_lock_waiter_id s of
            (Inl p, s') \<Rightarrow> (Inl p, e\<lparr>orx_inner := i\<rparr>, (k', s'))
          | (Inr op, s') \<Rightarrow>
              (Inr result, e\<lparr>orx_inner := i\<rparr>,
               (k', notify (async_channel_hook s')
                      (AChannelEv (ch_op_resolved (orx_resource e) op OpRecv (try_recv_outcome result))) s'))))"

definition OneshotReceiver_close :: "('k, 't, 'r, 'v) tokio_oneshot
    \<Rightarrow> 'r OneshotReceiver \<Rightarrow> 'k \<times> rt \<Rightarrow> 'r OneshotReceiver \<times> ('k \<times> rt)" where
  "OneshotReceiver_close T e = (\<lambda>(k, s).
     case os_close T (orx_inner e) k of
       (i, k') \<Rightarrow>
         (e\<lparr>orx_inner := i\<rparr>,
          (k', notify (async_channel_hook s) (AChannelEv (ch_closed (orx_resource e))) s)))"

text \<open>One read of the hook serves both reports of the receiver's drop.\<close>

definition OneshotReceiver_drop ::
    "('k, 't, 'r, 'v) tokio_oneshot \<Rightarrow> 'r OneshotReceiver \<Rightarrow> 'k \<times> rt \<Rightarrow> 'k \<times> rt" where
  "OneshotReceiver_drop T e = (\<lambda>(k, s).
     (os_drop_rx T (orx_inner e) k,
      case async_channel_hook s of
        None \<Rightarrow> s
      | Some h \<Rightarrow>
          (let s1 = (if orx_requested_emitted e \<and> \<not> orx_resolved e
                     then notify (Some h) (AChannelEv (ch_op_dropped (orx_resource e) (orx_op e))) s
                     else s)
           in notify (Some h) (AChannelEv (ch_endpoint_dropped (orx_resource e) SideReceiver)) s1)))"

section \<open>Watch\<close>

record ('k, 't, 'r, 'f, 'v) tokio_watch =
  wt_channel :: "'v \<Rightarrow> 'k \<Rightarrow> ('t \<times> 'r) \<times> 'k"
  wt_clone_tx :: "'t \<Rightarrow> 'k \<Rightarrow> 't \<times> 'k"
  wt_clone_rx :: "'r \<Rightarrow> 'k \<Rightarrow> 'r \<times> 'k"
  wt_subscribe :: "'t \<Rightarrow> 'k \<Rightarrow> 'r \<times> 'k"
  wt_drop_tx :: "'t \<Rightarrow> 'k \<Rightarrow> 'k"
  wt_drop_rx :: "'r \<Rightarrow> 'k \<Rightarrow> 'k"
  wt_send :: "'t \<Rightarrow> 'v \<Rightarrow> 'k \<Rightarrow> ('v + unit) \<times> 'k"
  wt_changed :: "'r \<Rightarrow> 'k \<Rightarrow> 'f \<times> 'k"
  wt_poll_changed :: "'f \<Rightarrow> 'k \<Rightarrow> (unit + unit) poll \<times> 'f \<times> 'k"
  wt_drop_future :: "'f \<Rightarrow> 'k \<Rightarrow> 'k"
  wt_is_closed :: "'t \<Rightarrow> 'k \<Rightarrow> bool"
  wt_same_channel_tx :: "'t \<Rightarrow> 't \<Rightarrow> 'k \<Rightarrow> bool"
  wt_same_channel_rx :: "'r \<Rightarrow> 'r \<Rightarrow> 'k \<Rightarrow> bool"
  wt_borrow :: "'r \<Rightarrow> 'k \<Rightarrow> 'v"
  wt_borrow_and_update :: "'r \<Rightarrow> 'k \<Rightarrow> 'v \<times> 'k"
  wt_has_changed :: "'r \<Rightarrow> 'k \<Rightarrow> unit + bool"

record 't WatchSender =
  wtx_inner :: 't
  wtx_resource :: u64

record 'r WatchReceiver =
  wrx_inner :: 'r
  wrx_resource :: u64

definition watch_channel :: "('k, 't, 'r, 'f, 'v) tokio_watch
    \<Rightarrow> 'v \<Rightarrow> 'k \<times> rt \<Rightarrow> (panic + 't WatchSender \<times> 'r WatchReceiver) \<times> ('k \<times> rt)" where
  "watch_channel T init = (\<lambda>(k, s).
     case wt_channel T init k of
       ((inner_tx, inner_rx), k') \<Rightarrow>
         (case next_async_lock_resource_id s of
            (Inl p, s') \<Rightarrow> (Inl p, (wt_drop_tx T inner_tx (wt_drop_rx T inner_rx k'), s'))
          | (Inr resource, s') \<Rightarrow>
              (Inr (\<lparr>wtx_inner = inner_tx, wtx_resource = resource\<rparr>,
                    \<lparr>wrx_inner = inner_rx, wrx_resource = resource\<rparr>),
               (k', notify (async_channel_hook s') (AChannelEv (ch_created resource Watch)) s'))))"

definition WatchSender_clone :: "('k, 't, 'r, 'f, 'v) tokio_watch
    \<Rightarrow> 't WatchSender \<Rightarrow> 'k \<times> rt \<Rightarrow> 't WatchSender \<times> ('k \<times> rt)" where
  "WatchSender_clone T e = (\<lambda>(k, s).
     case wt_clone_tx T (wtx_inner e) k of
       (cloned, k') \<Rightarrow>
         (\<lparr>wtx_inner = cloned, wtx_resource = wtx_resource e\<rparr>,
          (k', notify (async_channel_hook s) (AChannelEv (ch_endpoint_cloned (wtx_resource e) SideSender)) s)))"

definition WatchSender_drop :: "('k, 't, 'r, 'f, 'v) tokio_watch \<Rightarrow> 't WatchSender \<Rightarrow> 'k \<times> rt \<Rightarrow> 'k \<times> rt" where
  "WatchSender_drop T e = (\<lambda>(k, s).
     (wt_drop_tx T (wtx_inner e) k,
      notify (async_channel_hook s) (AChannelEv (ch_endpoint_dropped (wtx_resource e) SideSender)) s))"

definition WatchSender_send :: "('k, 't, 'r, 'f, 'v) tokio_watch
    \<Rightarrow> 't WatchSender \<Rightarrow> 'v \<Rightarrow> 'k \<times> rt \<Rightarrow> (panic + ('v + unit)) \<times> ('k \<times> rt)" where
  "WatchSender_send T e v = (\<lambda>(k, s).
     case wt_send T (wtx_inner e) v k of
       (result, k') \<Rightarrow>
         (case next_async_lock_waiter_id s of
            (Inl p, s') \<Rightarrow> (Inl p, (k', s'))
          | (Inr op, s') \<Rightarrow>
              (Inr result,
               (k', notify (async_channel_hook s')
                      (AChannelEv (ch_op_resolved (wtx_resource e) op OpSend (ok_or_closed result))) s'))))"

definition WatchSender_subscribe :: "('k, 't, 'r, 'f, 'v) tokio_watch
    \<Rightarrow> 't WatchSender \<Rightarrow> 'k \<times> rt \<Rightarrow> 'r WatchReceiver \<times> ('k \<times> rt)" where
  "WatchSender_subscribe T e = (\<lambda>(k, s).
     case wt_subscribe T (wtx_inner e) k of
       (i, k') \<Rightarrow>
         (\<lparr>wrx_inner = i, wrx_resource = wtx_resource e\<rparr>,
          (k', notify (async_channel_hook s)
                 (AChannelEv (ch_endpoint_cloned (wtx_resource e) SideReceiver)) s)))"

definition WatchSender_is_closed :: "('k, 't, 'r, 'f, 'v) tokio_watch \<Rightarrow> 't WatchSender \<Rightarrow> 'k \<Rightarrow> bool" where
  "WatchSender_is_closed T e k = wt_is_closed T (wtx_inner e) k"

definition WatchSender_same_channel ::
    "('k, 't, 'r, 'f, 'v) tokio_watch \<Rightarrow> 't WatchSender \<Rightarrow> 't WatchSender \<Rightarrow> 'k \<Rightarrow> bool" where
  "WatchSender_same_channel T e other k = wt_same_channel_tx T (wtx_inner e) (wtx_inner other) k"

definition WatchReceiver_clone :: "('k, 't, 'r, 'f, 'v) tokio_watch
    \<Rightarrow> 'r WatchReceiver \<Rightarrow> 'k \<times> rt \<Rightarrow> 'r WatchReceiver \<times> ('k \<times> rt)" where
  "WatchReceiver_clone T e = (\<lambda>(k, s).
     case wt_clone_rx T (wrx_inner e) k of
       (cloned, k') \<Rightarrow>
         (\<lparr>wrx_inner = cloned, wrx_resource = wrx_resource e\<rparr>,
          (k', notify (async_channel_hook s) (AChannelEv (ch_endpoint_cloned (wrx_resource e) SideReceiver)) s)))"

definition WatchReceiver_drop :: "('k, 't, 'r, 'f, 'v) tokio_watch \<Rightarrow> 'r WatchReceiver \<Rightarrow> 'k \<times> rt \<Rightarrow> 'k \<times> rt" where
  "WatchReceiver_drop T e = (\<lambda>(k, s).
     (wt_drop_rx T (wrx_inner e) k,
      notify (async_channel_hook s) (AChannelEv (ch_endpoint_dropped (wrx_resource e) SideReceiver)) s))"

definition WatchReceiver_borrow :: "('k, 't, 'r, 'f, 'v) tokio_watch \<Rightarrow> 'r WatchReceiver \<Rightarrow> 'k \<Rightarrow> 'v" where
  "WatchReceiver_borrow T e k = wt_borrow T (wrx_inner e) k"

definition WatchReceiver_borrow_and_update :: "('k, 't, 'r, 'f, 'v) tokio_watch \<Rightarrow> 'r WatchReceiver \<Rightarrow> 'k \<Rightarrow> 'v \<times> 'k" where
  "WatchReceiver_borrow_and_update T e k = wt_borrow_and_update T (wrx_inner e) k"

definition WatchReceiver_has_changed :: "('k, 't, 'r, 'f, 'v) tokio_watch \<Rightarrow> 'r WatchReceiver \<Rightarrow> 'k \<Rightarrow> unit + bool" where
  "WatchReceiver_has_changed T e k = wt_has_changed T (wrx_inner e) k"

definition WatchReceiver_same_channel ::
    "('k, 't, 'r, 'f, 'v) tokio_watch \<Rightarrow> 'r WatchReceiver \<Rightarrow> 'r WatchReceiver \<Rightarrow> 'k \<Rightarrow> bool" where
  "WatchReceiver_same_channel T e other k = wt_same_channel_rx T (wrx_inner e) (wrx_inner other) k"

record 'f ModelWatchChanged =
  mwc_resource :: u64
  mwc_op :: u64
  mwc_inner :: 'f
  mwc_requested_emitted :: bool
  mwc_resolved :: bool

definition ModelWatchChanged_poll :: "('k, 't, 'r, 'f, 'v) tokio_watch
    \<Rightarrow> 'f ModelWatchChanged \<Rightarrow> 'k \<times> rt \<Rightarrow> (unit + unit) poll \<times> 'f ModelWatchChanged \<times> ('k \<times> rt)" where
  "ModelWatchChanged_poll T f = (\<lambda>(k, s).
     case wt_poll_changed T (mwc_inner f) k of
       (Pending, i, k') \<Rightarrow>
         if \<not> mwc_requested_emitted f
         then (Pending, f\<lparr>mwc_inner := i, mwc_requested_emitted := True\<rparr>,
               (k', notify (async_channel_hook s)
                      (AChannelEv (ch_op_requested (mwc_resource f) (mwc_op f) OpChanged)) s))
         else (Pending, f\<lparr>mwc_inner := i\<rparr>, (k', s))
     | (Ready result, i, k') \<Rightarrow>
         (Ready result, f\<lparr>mwc_inner := i, mwc_resolved := True\<rparr>,
          (k', notify (async_channel_hook s)
                 (AChannelEv (ch_op_resolved (mwc_resource f) (mwc_op f) OpChanged (ok_or_closed result))) s)))"

definition ModelWatchChanged_drop ::
    "('k, 't, 'r, 'f, 'v) tokio_watch \<Rightarrow> 'f ModelWatchChanged \<Rightarrow> 'k \<times> rt \<Rightarrow> 'k \<times> rt" where
  "ModelWatchChanged_drop T f = (\<lambda>(k, s).
     (wt_drop_future T (mwc_inner f) k,
      if mwc_requested_emitted f \<and> \<not> mwc_resolved f
      then notify (async_channel_hook s) (AChannelEv (ch_op_dropped (mwc_resource f) (mwc_op f))) s
      else s))"

definition WatchReceiver_changed :: "('k, 't, 'r, 'f, 'v) tokio_watch
    \<Rightarrow> 'r WatchReceiver \<Rightarrow> 'k \<times> rt \<Rightarrow> (panic + 'f ModelWatchChanged) \<times> ('k \<times> rt)" where
  "WatchReceiver_changed T e = (\<lambda>(k, s).
     case next_async_lock_waiter_id s of
       (Inl p, s') \<Rightarrow> (Inl p, (k, s'))
     | (Inr op, s') \<Rightarrow>
         (case wt_changed T (wrx_inner e) k of
            (i, k') \<Rightarrow>
              (Inr \<lparr>mwc_resource = wrx_resource e, mwc_op = op, mwc_inner = i,
                    mwc_requested_emitted = False, mwc_resolved = False\<rparr>, (k', s'))))"

section \<open>Notify\<close>

record ('k, 'n, 'f) tokio_notify =
  nt_new :: "'k \<Rightarrow> 'n \<times> 'k"
  nt_notified :: "'n \<Rightarrow> 'k \<Rightarrow> 'f \<times> 'k"
  nt_poll :: "'f \<Rightarrow> 'k \<Rightarrow> unit poll \<times> 'f \<times> 'k"
  nt_drop_future :: "'f \<Rightarrow> 'k \<Rightarrow> 'k"
  nt_notify_one :: "'n \<Rightarrow> 'k \<Rightarrow> 'k"
  nt_notify_waiters :: "'n \<Rightarrow> 'k \<Rightarrow> 'k"

record 'n ModelAsyncNotify =
  an_resource :: AsyncResourceId
  an_inner :: 'n

record 'f ModelNotified =
  nf_resource :: u64
  nf_waiter :: u64
  nf_inner :: 'f
  nf_requested_emitted :: bool
  nf_resolved :: bool

definition ModelAsyncNotify_new :: "('k, 'n, 'f) tokio_notify
    \<Rightarrow> 'k \<times> rt \<Rightarrow> (panic + 'n ModelAsyncNotify) \<times> ('k \<times> rt)" where
  "ModelAsyncNotify_new T = (\<lambda>(k, s).
     case arid_new_eager s of
       (Inl p, s') \<Rightarrow> (Inl p, (k, s'))
     | (Inr r, s') \<Rightarrow> (case nt_new T k of (i, k') \<Rightarrow> (Inr \<lparr>an_resource = r, an_inner = i\<rparr>, (k', s'))))"

definition ModelAsyncNotify_const_new :: "('k, 'n, 'f) tokio_notify \<Rightarrow> 'k \<Rightarrow> 'n ModelAsyncNotify \<times> 'k" where
  "ModelAsyncNotify_const_new T k =
     (case nt_new T k of (i, k') \<Rightarrow> (\<lparr>an_resource = arid_new_lazy, an_inner = i\<rparr>, k'))"

definition ModelAsyncNotify_default :: "('k, 'n, 'f) tokio_notify
    \<Rightarrow> 'k \<times> rt \<Rightarrow> (panic + 'n ModelAsyncNotify) \<times> ('k \<times> rt)" where
  "ModelAsyncNotify_default T = ModelAsyncNotify_new T"

abbreviation notify_id :: "('n ModelAsyncNotify \<times> 'k \<times> rt, u64) rm" where
  "notify_id \<equiv> lift_id an_resource (\<lambda>c m. m\<lparr>an_resource := c\<rparr>)"

definition ModelAsyncNotify_notified ::
    "('k, 'n, 'f) tokio_notify \<Rightarrow> ('n ModelAsyncNotify \<times> 'k \<times> rt, 'f ModelNotified) rm" where
  "ModelAsyncNotify_notified T = (\<lambda>(m, w).
     rbind notify_id (\<lambda>resource.
     rbind (lift_rt next_async_lock_waiter_id) (\<lambda>waiter.
     rbind (lift_tk (nt_notified T (an_inner m))) (\<lambda>i.
     rret \<lparr>nf_resource = resource, nf_waiter = waiter, nf_inner = i,
           nf_requested_emitted = False, nf_resolved = False\<rparr>))) (m, w))"

definition ModelAsyncNotify_notify_one ::
    "('k, 'n, 'f) tokio_notify \<Rightarrow> ('n ModelAsyncNotify \<times> 'k \<times> rt, unit) rm" where
  "ModelAsyncNotify_notify_one T = (\<lambda>(m, w).
     rbind notify_id (\<lambda>resource.
     rbind (lift_rt (report async_notify_hook (ANotifyEv (an_notify_one resource)))) (\<lambda>_.
     lift_tk (\<lambda>k. ((), nt_notify_one T (an_inner m) k)))) (m, w))"

definition ModelAsyncNotify_notify_waiters ::
    "('k, 'n, 'f) tokio_notify \<Rightarrow> ('n ModelAsyncNotify \<times> 'k \<times> rt, unit) rm" where
  "ModelAsyncNotify_notify_waiters T = (\<lambda>(m, w).
     rbind notify_id (\<lambda>resource.
     rbind (lift_rt (report async_notify_hook (ANotifyEv (an_notify_waiters resource)))) (\<lambda>_.
     lift_tk (\<lambda>k. ((), nt_notify_waiters T (an_inner m) k)))) (m, w))"

definition ModelNotified_poll :: "('k, 'n, 'f) tokio_notify
    \<Rightarrow> 'f ModelNotified \<Rightarrow> 'k \<times> rt \<Rightarrow> unit poll \<times> 'f ModelNotified \<times> ('k \<times> rt)" where
  "ModelNotified_poll T f = (\<lambda>(k, s).
     case nt_poll T (nf_inner f) k of
       (Pending, i, k') \<Rightarrow>
         if \<not> nf_requested_emitted f
         then (Pending, f\<lparr>nf_inner := i, nf_requested_emitted := True\<rparr>,
               (k', notify (async_notify_hook s) (ANotifyEv (an_wait_requested (nf_resource f) (nf_waiter f))) s))
         else (Pending, f\<lparr>nf_inner := i\<rparr>, (k', s))
     | (Ready u, i, k') \<Rightarrow>
         (Ready u, f\<lparr>nf_inner := i, nf_resolved := True\<rparr>,
          (k', notify (async_notify_hook s) (ANotifyEv (an_wait_resolved (nf_resource f) (nf_waiter f))) s)))"

definition ModelNotified_drop ::
    "('k, 'n, 'f) tokio_notify \<Rightarrow> 'f ModelNotified \<Rightarrow> 'k \<times> rt \<Rightarrow> 'k \<times> rt" where
  "ModelNotified_drop T f = (\<lambda>(k, s).
     (nt_drop_future T (nf_inner f) k,
      if nf_requested_emitted f \<and> \<not> nf_resolved f
      then notify (async_notify_hook s) (ANotifyEv (an_waiter_dropped (nf_resource f) (nf_waiter f))) s
      else s))"

section \<open>Broadcast\<close>

text \<open>The counter \<open>send_seq\<close> is one atomic shared by all endpoints of a channel, so it is a part of
  the state the operations run on rather than a field of each endpoint.\<close>

datatype BroadcastRecvError = RecvClosed | RecvLagged u64

datatype BroadcastTryRecvError = TryEmpty | TryClosed | TryLagged u64

record ('k, 't, 'r, 'f, 'v) tokio_broadcast =
  bt_channel :: "usize \<Rightarrow> 'k \<Rightarrow> ('t \<times> 'r) \<times> 'k"
  bt_clone_tx :: "'t \<Rightarrow> 'k \<Rightarrow> 't \<times> 'k"
  bt_drop_tx :: "'t \<Rightarrow> 'k \<Rightarrow> 'k"
  bt_drop_rx :: "'r \<Rightarrow> 'k \<Rightarrow> 'k"
  bt_send :: "'t \<Rightarrow> 'v \<Rightarrow> 'k \<Rightarrow> ('v + usize) \<times> 'k"
  bt_subscribe :: "'t \<Rightarrow> 'k \<Rightarrow> 'r \<times> 'k"
  bt_resubscribe :: "'r \<Rightarrow> 'k \<Rightarrow> 'r \<times> 'k"
  bt_recv :: "'r \<Rightarrow> 'k \<Rightarrow> 'f \<times> 'k"
  bt_poll_recv :: "'f \<Rightarrow> 'k \<Rightarrow> (BroadcastRecvError + 'v) poll \<times> 'f \<times> 'k"
  bt_drop_future :: "'f \<Rightarrow> 'k \<Rightarrow> 'k"
  bt_try_recv :: "'r \<Rightarrow> 'k \<Rightarrow> (BroadcastTryRecvError + 'v) \<times> 'k"
  bt_receiver_count :: "'t \<Rightarrow> 'k \<Rightarrow> usize"
  bt_tx_len :: "'t \<Rightarrow> 'k \<Rightarrow> usize"
  bt_tx_is_empty :: "'t \<Rightarrow> 'k \<Rightarrow> bool"
  bt_rx_len :: "'r \<Rightarrow> 'k \<Rightarrow> usize"
  bt_rx_is_empty :: "'r \<Rightarrow> 'k \<Rightarrow> bool"

record 't BroadcastSender =
  btx_inner :: 't
  btx_resource :: u64

record 'r BroadcastReceiver =
  brx_inner :: 'r
  brx_resource :: u64
  brx_id :: u64

record 'f ModelBroadcastRecv =
  mbr_resource :: u64
  mbr_receiver_id :: u64
  mbr_op :: u64
  mbr_inner :: 'f
  mbr_requested_emitted :: bool
  mbr_resolved :: bool

fun broadcast_recv_outcome :: "BroadcastRecvError + 'v \<Rightarrow> AsyncBroadcastOutcome" where
  "broadcast_recv_outcome (Inr v) = BOk 1"
| "broadcast_recv_outcome (Inl RecvClosed) = BClosed"
| "broadcast_recv_outcome (Inl (RecvLagged missed)) = BLagged missed"

fun broadcast_try_recv_outcome :: "BroadcastTryRecvError + 'v \<Rightarrow> AsyncBroadcastOutcome" where
  "broadcast_try_recv_outcome (Inr v) = BOk 1"
| "broadcast_try_recv_outcome (Inl TryEmpty) = BEmpty"
| "broadcast_try_recv_outcome (Inl TryClosed) = BClosed"
| "broadcast_try_recv_outcome (Inl (TryLagged missed)) = BLagged missed"

text \<open>\<open>channel\<close>: the new counter is the last component of the result.\<close>

definition broadcast_channel :: "('k, 't, 'r, 'f, 'v) tokio_broadcast \<Rightarrow> usize \<Rightarrow> 'k \<times> rt
    \<Rightarrow> (panic + 't BroadcastSender \<times> 'r BroadcastReceiver \<times> u64) \<times> ('k \<times> rt)" where
  "broadcast_channel T capacity = (\<lambda>(k, s).
     case bt_channel T capacity k of
       ((inner_sender, inner_receiver), k') \<Rightarrow>
         (case next_async_lock_resource_id s of
            (Inl p, s1) \<Rightarrow> (Inl p, (bt_drop_tx T inner_sender (bt_drop_rx T inner_receiver k'), s1))
          | (Inr resource, s1) \<Rightarrow>
              (case next_async_lock_waiter_id s1 of
                 (Inl p, s2) \<Rightarrow> (Inl p, (bt_drop_tx T inner_sender (bt_drop_rx T inner_receiver k'), s2))
               | (Inr receiver_id, s2) \<Rightarrow>
                   (Inr (\<lparr>btx_inner = inner_sender, btx_resource = resource\<rparr>,
                         \<lparr>brx_inner = inner_receiver, brx_resource = resource, brx_id = receiver_id\<rparr>, 0),
                    (k', let ho = async_broadcast_hook s2 in
                         notify ho (ABroadcastEv (bc_subscribed resource receiver_id 0))
                           (notify ho (ABroadcastEv (bc_created resource capacity)) s2))))))"

definition BroadcastSender_clone :: "('k, 't, 'r, 'f, 'v) tokio_broadcast
    \<Rightarrow> 't BroadcastSender \<Rightarrow> 'k \<times> rt \<Rightarrow> 't BroadcastSender \<times> ('k \<times> rt)" where
  "BroadcastSender_clone T e = (\<lambda>(k, s).
     let s1 = notify (async_broadcast_hook s)
                (ABroadcastEv (bc_endpoint_cloned (btx_resource e) SideSender None)) s
     in case bt_clone_tx T (btx_inner e) k of
          (i, k') \<Rightarrow> (\<lparr>btx_inner = i, btx_resource = btx_resource e\<rparr>, (k', s1)))"

definition BroadcastSender_drop ::
    "('k, 't, 'r, 'f, 'v) tokio_broadcast \<Rightarrow> 't BroadcastSender \<Rightarrow> 'k \<times> rt \<Rightarrow> 'k \<times> rt" where
  "BroadcastSender_drop T e = (\<lambda>(k, s).
     (bt_drop_tx T (btx_inner e) k,
      notify (async_broadcast_hook s)
        (ABroadcastEv (bc_endpoint_dropped (btx_resource e) SideSender None)) s))"

text \<open>\<open>fetch_add\<close> on the counter wraps around; the position it holds names nothing.\<close>

definition BroadcastSender_send :: "('k, 't, 'r, 'f, 'v) tokio_broadcast
    \<Rightarrow> 't BroadcastSender \<Rightarrow> 'v \<Rightarrow> u64 \<times> 'k \<times> rt \<Rightarrow> (panic + ('v + usize)) \<times> (u64 \<times> 'k \<times> rt)" where
  "BroadcastSender_send T e v = (\<lambda>(send_seq, k, s).
     case next_async_lock_waiter_id s of
       (Inl p, s') \<Rightarrow> (Inl p, (send_seq, k, s'))
     | (Inr op, s') \<Rightarrow>
         (let s1 = notify (async_broadcast_hook s')
                     (ABroadcastEv (bc_op_requested (btx_resource e) op None BSend)) s'
          in case bt_send T (btx_inner e) v k of
               (result, k') \<Rightarrow>
                 (let (outcome, seq') = (case result of
                        Inr receivers \<Rightarrow> (BOk receivers, send_seq + 1)
                      | Inl _ \<Rightarrow> (BClosed, send_seq))
                  in (Inr result,
                      (seq', k', notify (async_broadcast_hook s1)
                        (ABroadcastEv (bc_op_resolved (btx_resource e) op None BSend outcome)) s1)))))"

definition BroadcastSender_subscribe :: "('k, 't, 'r, 'f, 'v) tokio_broadcast \<Rightarrow> 't BroadcastSender
    \<Rightarrow> u64 \<times> 'k \<times> rt \<Rightarrow> (panic + 'r BroadcastReceiver) \<times> (u64 \<times> 'k \<times> rt)" where
  "BroadcastSender_subscribe T e = (\<lambda>(send_seq, k, s).
     case bt_subscribe T (btx_inner e) k of
       (i, k') \<Rightarrow>
         (case next_async_lock_waiter_id s of
            (Inl p, s') \<Rightarrow> (Inl p, (send_seq, bt_drop_rx T i k', s'))
          | (Inr rid, s') \<Rightarrow>
              (let ho = async_broadcast_hook s' in
               (Inr \<lparr>brx_inner = i, brx_resource = btx_resource e, brx_id = rid\<rparr>,
                (send_seq, k',
                 notify ho (ABroadcastEv (bc_subscribed (btx_resource e) rid send_seq))
                   (notify ho (ABroadcastEv
                      (bc_endpoint_cloned (btx_resource e) SideReceiver (Some rid))) s'))))))"

definition BroadcastSender_receiver_count ::
    "('k, 't, 'r, 'f, 'v) tokio_broadcast \<Rightarrow> 't BroadcastSender \<Rightarrow> 'k \<Rightarrow> usize" where
  "BroadcastSender_receiver_count T e k = bt_receiver_count T (btx_inner e) k"

definition BroadcastSender_len ::
    "('k, 't, 'r, 'f, 'v) tokio_broadcast \<Rightarrow> 't BroadcastSender \<Rightarrow> 'k \<Rightarrow> usize" where
  "BroadcastSender_len T e k = bt_tx_len T (btx_inner e) k"

definition BroadcastSender_is_empty ::
    "('k, 't, 'r, 'f, 'v) tokio_broadcast \<Rightarrow> 't BroadcastSender \<Rightarrow> 'k \<Rightarrow> bool" where
  "BroadcastSender_is_empty T e k = bt_tx_is_empty T (btx_inner e) k"

definition BroadcastReceiver_drop ::
    "('k, 't, 'r, 'f, 'v) tokio_broadcast \<Rightarrow> 'r BroadcastReceiver \<Rightarrow> 'k \<times> rt \<Rightarrow> 'k \<times> rt" where
  "BroadcastReceiver_drop T e = (\<lambda>(k, s).
     (bt_drop_rx T (brx_inner e) k,
      notify (async_broadcast_hook s)
        (ABroadcastEv (bc_endpoint_dropped (brx_resource e) SideReceiver (Some (brx_id e)))) s))"

definition BroadcastReceiver_len ::
    "('k, 't, 'r, 'f, 'v) tokio_broadcast \<Rightarrow> 'r BroadcastReceiver \<Rightarrow> 'k \<Rightarrow> usize" where
  "BroadcastReceiver_len T e k = bt_rx_len T (brx_inner e) k"

definition BroadcastReceiver_is_empty ::
    "('k, 't, 'r, 'f, 'v) tokio_broadcast \<Rightarrow> 'r BroadcastReceiver \<Rightarrow> 'k \<Rightarrow> bool" where
  "BroadcastReceiver_is_empty T e k = bt_rx_is_empty T (brx_inner e) k"

definition BroadcastReceiver_resubscribe :: "('k, 't, 'r, 'f, 'v) tokio_broadcast \<Rightarrow> 'r BroadcastReceiver
    \<Rightarrow> u64 \<times> 'k \<times> rt \<Rightarrow> (panic + 'r BroadcastReceiver) \<times> (u64 \<times> 'k \<times> rt)" where
  "BroadcastReceiver_resubscribe T e = (\<lambda>(send_seq, k, s).
     case next_async_lock_waiter_id s of
       (Inl p, s') \<Rightarrow> (Inl p, (send_seq, k, s'))
     | (Inr op, s1) \<Rightarrow>
         (case bt_resubscribe T (brx_inner e) k of
            (i, k') \<Rightarrow>
              (case next_async_lock_waiter_id s1 of
                 (Inl p, s2) \<Rightarrow> (Inl p, (send_seq, bt_drop_rx T i k', s2))
               | (Inr rid, s2) \<Rightarrow>
                   (let ho = async_broadcast_hook s2 in
                    (Inr \<lparr>brx_inner = i, brx_resource = brx_resource e, brx_id = rid\<rparr>,
                     (send_seq, k',
                      notify ho (ABroadcastEv (bc_op_resolved (brx_resource e) op (Some (brx_id e))
                                   BResubscribe (BOk 1)))
                        (notify ho (ABroadcastEv (bc_subscribed (brx_resource e) rid send_seq))
                          (notify ho (ABroadcastEv
                             (bc_endpoint_cloned (brx_resource e) SideReceiver (Some rid))) s2))))))))"

definition BroadcastReceiver_recv :: "('k, 't, 'r, 'f, 'v) tokio_broadcast \<Rightarrow> 'r BroadcastReceiver
    \<Rightarrow> 'k \<times> rt \<Rightarrow> (panic + 'f ModelBroadcastRecv) \<times> ('k \<times> rt)" where
  "BroadcastReceiver_recv T e = (\<lambda>(k, s).
     case next_async_lock_waiter_id s of
       (Inl p, s') \<Rightarrow> (Inl p, (k, s'))
     | (Inr op, s') \<Rightarrow>
         (case bt_recv T (brx_inner e) k of
            (i, k') \<Rightarrow>
              (Inr \<lparr>mbr_resource = brx_resource e, mbr_receiver_id = brx_id e, mbr_op = op,
                    mbr_inner = i, mbr_requested_emitted = False, mbr_resolved = False\<rparr>, (k', s'))))"

definition BroadcastReceiver_try_recv :: "('k, 't, 'r, 'f, 'v) tokio_broadcast \<Rightarrow> 'r BroadcastReceiver
    \<Rightarrow> 'k \<times> rt \<Rightarrow> (panic + (BroadcastTryRecvError + 'v)) \<times> ('k \<times> rt)" where
  "BroadcastReceiver_try_recv T e = (\<lambda>(k, s).
     case next_async_lock_waiter_id s of
       (Inl p, s') \<Rightarrow> (Inl p, (k, s'))
     | (Inr op, s') \<Rightarrow>
         (case bt_try_recv T (brx_inner e) k of
            (result, k') \<Rightarrow>
              (Inr result,
               (k', notify (async_broadcast_hook s')
                      (ABroadcastEv (bc_op_resolved (brx_resource e) op (Some (brx_id e)) BTryRecv
                         (broadcast_try_recv_outcome result))) s'))))"

definition ModelBroadcastRecv_poll :: "('k, 't, 'r, 'f, 'v) tokio_broadcast \<Rightarrow> 'f ModelBroadcastRecv
    \<Rightarrow> 'k \<times> rt \<Rightarrow> (BroadcastRecvError + 'v) poll \<times> 'f ModelBroadcastRecv \<times> ('k \<times> rt)" where
  "ModelBroadcastRecv_poll T f = (\<lambda>(k, s).
     case bt_poll_recv T (mbr_inner f) k of
       (Pending, i, k') \<Rightarrow>
         if \<not> mbr_requested_emitted f
         then (Pending, f\<lparr>mbr_inner := i, mbr_requested_emitted := True\<rparr>,
               (k', notify (async_broadcast_hook s)
                      (ABroadcastEv (bc_op_requested (mbr_resource f) (mbr_op f)
                         (Some (mbr_receiver_id f)) BRecv)) s))
         else (Pending, f\<lparr>mbr_inner := i\<rparr>, (k', s))
     | (Ready result, i, k') \<Rightarrow>
         (Ready result, f\<lparr>mbr_inner := i, mbr_resolved := True\<rparr>,
          (k', notify (async_broadcast_hook s)
                 (ABroadcastEv (bc_op_resolved (mbr_resource f) (mbr_op f)
                    (Some (mbr_receiver_id f)) BRecv (broadcast_recv_outcome result))) s)))"

definition ModelBroadcastRecv_drop ::
    "('k, 't, 'r, 'f, 'v) tokio_broadcast \<Rightarrow> 'f ModelBroadcastRecv \<Rightarrow> 'k \<times> rt \<Rightarrow> 'k \<times> rt" where
  "ModelBroadcastRecv_drop T f = (\<lambda>(k, s).
     (bt_drop_future T (mbr_inner f) k,
      if mbr_requested_emitted f \<and> \<not> mbr_resolved f
      then notify (async_broadcast_hook s) (ABroadcastEv (bc_op_dropped (mbr_resource f) (mbr_op f))) s
      else s))"

end
