(* ===== verification/OpLife.thy ===== *)
theory OpLife
  imports Channels
begin

text \<open>
  The life of one channel, notification or broadcast operation, from the call that makes its
  future to the drop of that future, as the hook sees it. The theory states once what every such
  future promises and proves from it that the log of the operation is a well-formed trace.
\<close>

section \<open>The abstract life\<close>

datatype ('u, 'r) phase = Waiting 'u | Resolved 'u 'r | Finished 'r | Cancelled

text \<open>The events of the log that carry an operation id.\<close>

fun about_op :: "u64 \<Rightarrow> HookCall \<Rightarrow> bool" where
  "about_op i (AChannelEv (ch_op_requested r w k)) = (w = i)"
| "about_op i (AChannelEv (ch_op_resolved r w k out)) = (w = i)"
| "about_op i (AChannelEv (ch_op_dropped r w)) = (w = i)"
| "about_op i (ANotifyEv (an_wait_requested r w)) = (w = i)"
| "about_op i (ANotifyEv (an_wait_resolved r w)) = (w = i)"
| "about_op i (ANotifyEv (an_waiter_dropped r w)) = (w = i)"
| "about_op i (ABroadcastEv (bc_op_requested r w x k)) = (w = i)"
| "about_op i (ABroadcastEv (bc_op_resolved r w x k out)) = (w = i)"
| "about_op i (ABroadcastEv (bc_op_dropped r w)) = (w = i)"
| "about_op i e = False"

definition op_log :: "u64 \<Rightarrow> rt \<Rightarrow> HookCall list" where
  "op_log i s = filter (about_op i) (map snd (calls s))"

lemma op_log_notify:
  "op_log i (notify ho e s) = op_log i s @ (if ho \<noteq> None \<and> about_op i e then [e] else [])"
  by (auto simp: op_log_def split: option.splits)

text \<open>A run of one future: polls, the drop of the pending or of the resolved future, and in between
  anything the rest of the process does that is not about this operation.\<close>

inductive op_life :: "('u \<Rightarrow> 'k \<times> rt \<Rightarrow> 'r poll \<times> 'u \<times> ('k \<times> rt)) \<Rightarrow> ('u \<Rightarrow> 'k \<times> rt \<Rightarrow> 'k \<times> rt)
    \<Rightarrow> (rt \<Rightarrow> hook option) \<Rightarrow> u64 \<Rightarrow> 'u \<Rightarrow> 'k \<times> rt \<Rightarrow> ('u, 'r) phase \<Rightarrow> 'k \<times> rt \<Rightarrow> bool"
  for pollf dropf hookof i u0 w0 where
  life_start: "op_life pollf dropf hookof i u0 w0 (Waiting u0) w0"
| life_pending: "op_life pollf dropf hookof i u0 w0 (Waiting u) w \<Longrightarrow> pollf u w = (Pending, u', w') \<Longrightarrow>
     op_life pollf dropf hookof i u0 w0 (Waiting u') w'"
| life_ready: "op_life pollf dropf hookof i u0 w0 (Waiting u) w \<Longrightarrow> pollf u w = (Ready r, u', w') \<Longrightarrow>
     op_life pollf dropf hookof i u0 w0 (Resolved u' r) w'"
| life_cancel: "op_life pollf dropf hookof i u0 w0 (Waiting u) w \<Longrightarrow>
     op_life pollf dropf hookof i u0 w0 Cancelled (dropf u w)"
| life_spent: "op_life pollf dropf hookof i u0 w0 (Resolved u r) w \<Longrightarrow>
     op_life pollf dropf hookof i u0 w0 (Finished r) (dropf u w)"
| life_others: "op_life pollf dropf hookof i u0 w0 ph (k, s) \<Longrightarrow> hookof s' = hookof s \<Longrightarrow>
     op_log i s' = op_log i s \<Longrightarrow> op_life pollf dropf hookof i u0 w0 ph (k', s')"

text \<open>The traces the engine may see of one operation: one request at most, and it comes first; a
  resolved operation ends in its resolution with the outcome of the result; a cancelled one was
  either never reported or is closed by a drop.\<close>

fun op_trace_ok :: "('u \<Rightarrow> bool) \<Rightarrow> HookCall \<Rightarrow> ('r \<Rightarrow> HookCall) \<Rightarrow> HookCall \<Rightarrow> ('u, 'r) phase
    \<Rightarrow> HookCall list \<Rightarrow> bool" where
  "op_trace_ok reqd rq rs dr (Waiting u) tr = (tr = (if reqd u then [rq] else []))"
| "op_trace_ok reqd rq rs dr (Resolved u r) tr = (tr = [rs r] \<or> tr = [rq, rs r])"
| "op_trace_ok reqd rq rs dr (Finished r) tr = (tr = [rs r] \<or> tr = [rq, rs r])"
| "op_trace_ok reqd rq rs dr Cancelled tr = (tr = [] \<or> tr = [rq, dr])"

section \<open>The contract of an operation future\<close>

locale op_future =
  fixes pollf :: "'u \<Rightarrow> 'k \<times> rt \<Rightarrow> 'r poll \<times> 'u \<times> ('k \<times> rt)"
    and dropf :: "'u \<Rightarrow> 'k \<times> rt \<Rightarrow> 'k \<times> rt"
    and hookof :: "rt \<Rightarrow> hook option"
    and ident :: "'u \<Rightarrow> u64"
    and reqd resd :: "'u \<Rightarrow> bool"
    and rq :: "'u \<Rightarrow> HookCall"
    and rs :: "'u \<Rightarrow> 'r \<Rightarrow> HookCall"
    and dr :: "'u \<Rightarrow> HookCall"
  assumes pending: "pollf u (k, s) = (Pending, u', (k', s')) \<Longrightarrow> hookof s = Some h \<Longrightarrow>
      op_log (ident u) s' = op_log (ident u) s @ (if reqd u then [] else [rq u])
      \<and> hookof s' = Some h \<and> reqd u' \<and> resd u' = resd u
      \<and> ident u' = ident u \<and> rq u' = rq u \<and> rs u' = rs u \<and> dr u' = dr u"
    and ready: "pollf u (k, s) = (Ready r, u', (k', s')) \<Longrightarrow> hookof s = Some h \<Longrightarrow>
      op_log (ident u) s' = op_log (ident u) s @ [rs u r] \<and> hookof s' = Some h \<and> resd u'
      \<and> ident u' = ident u"
    and dropped: "dropf u (k, s) = (k', s') \<Longrightarrow> hookof s = Some h \<Longrightarrow>
      op_log (ident u) s' = op_log (ident u) s @ (if reqd u \<and> \<not> resd u then [dr u] else [])
      \<and> hookof s' = Some h"
begin

definition life_inv :: "'u \<Rightarrow> ('u, 'r) phase \<Rightarrow> rt \<Rightarrow> bool" where
  "life_inv u0 ph s \<longleftrightarrow> hookof s \<noteq> None
     \<and> op_trace_ok reqd (rq u0) (rs u0) (dr u0) ph (op_log (ident u0) s)
     \<and> (case ph of Waiting u \<Rightarrow> \<not> resd u \<and> ident u = ident u0 \<and> rq u = rq u0 \<and> rs u = rs u0 \<and> dr u = dr u0
        | Resolved u r \<Rightarrow> resd u \<and> ident u = ident u0 | _ \<Rightarrow> True)"

lemma life_keeps_inv:
  assumes "op_life pollf dropf hookof (ident u0) u0 (k0, s0) ph w" "life_inv u0 (Waiting u0) s0"
  shows "life_inv u0 ph (snd w)"
  using assms
proof (induction rule: op_life.induct)
  case (life_pending u w u' w')
  then show ?case using pending [of u "fst w" "snd w" u' "fst w'" "snd w'"]
    by (auto simp: life_inv_def)
next
  case (life_ready u w r u' w')
  then show ?case using ready [of u "fst w" "snd w" r u' "fst w'" "snd w'"]
    by (auto simp: life_inv_def split: if_splits)
next
  case (life_cancel u w)
  then show ?case using dropped [of u "fst w" "snd w" "fst (dropf u w)" "snd (dropf u w)"]
    by (auto simp: life_inv_def split: if_splits)
next
  case (life_spent u r w)
  then show ?case using dropped [of u "fst w" "snd w" "fst (dropf u w)" "snd (dropf u w)"]
    by (auto simp: life_inv_def split: if_splits)
next
  case (life_others ph k s s' k')
  then show ?case by (auto simp: life_inv_def)
qed simp

theorem life_trace:
  assumes "op_life pollf dropf hookof (ident u0) u0 (k0, s0) ph (k, s)"
    and "\<not> reqd u0" "\<not> resd u0" "hookof s0 = Some h" "op_log (ident u0) s0 = []"
  shows "op_trace_ok reqd (rq u0) (rs u0) (dr u0) ph (op_log (ident u0) s)"
  using life_keeps_inv [OF assms(1)] assms(2-) by (simp add: life_inv_def)

end

section \<open>The futures of the channel seams\<close>

interpretation mpsc_send: op_future "ModelMpscSend_poll T" "ModelMpscSend_drop T" async_channel_hook mps_op
  mps_requested_emitted mps_resolved
  "\<lambda>f. AChannelEv (ch_op_requested (mps_resource f) (mps_op f) OpSend)"
  "\<lambda>f r. AChannelEv (ch_op_resolved (mps_resource f) (mps_op f) OpSend (ok_or_closed r))"
  "\<lambda>f. AChannelEv (ch_op_dropped (mps_resource f) (mps_op f))" for T
  by unfold_locales
    (auto simp: ModelMpscSend_poll_def ModelMpscSend_drop_def op_log_notify Let_def
      split: prod.splits poll.splits if_splits)

interpretation mpsc_recv: op_future "ModelMpscRecv_poll T" "ModelMpscRecv_drop T" async_channel_hook mpr_op
  mpr_requested_emitted mpr_resolved
  "\<lambda>f. AChannelEv (ch_op_requested (mpr_resource f) (mpr_op f) OpRecv)"
  "\<lambda>f r. AChannelEv (ch_op_resolved (mpr_resource f) (mpr_op f) OpRecv (some_or_closed r))"
  "\<lambda>f. AChannelEv (ch_op_dropped (mpr_resource f) (mpr_op f))" for T
  by unfold_locales
    (auto simp: ModelMpscRecv_poll_def ModelMpscRecv_drop_def op_log_notify Let_def
      split: prod.splits poll.splits if_splits)

interpretation oneshot_recv: op_future "OneshotReceiver_poll T" "OneshotReceiver_drop T" async_channel_hook orx_op
  orx_requested_emitted orx_resolved
  "\<lambda>f. AChannelEv (ch_op_requested (orx_resource f) (orx_op f) OpRecv)"
  "\<lambda>f r. AChannelEv (ch_op_resolved (orx_resource f) (orx_op f) OpRecv (ok_or_closed r))"
  "\<lambda>f. AChannelEv (ch_op_dropped (orx_resource f) (orx_op f))" for T
  by unfold_locales
    (auto simp: OneshotReceiver_poll_def OneshotReceiver_drop_def op_log_notify Let_def
      split: prod.splits poll.splits if_splits)

interpretation watch_changed: op_future "ModelWatchChanged_poll T" "ModelWatchChanged_drop T" async_channel_hook mwc_op
  mwc_requested_emitted mwc_resolved
  "\<lambda>f. AChannelEv (ch_op_requested (mwc_resource f) (mwc_op f) OpChanged)"
  "\<lambda>f r. AChannelEv (ch_op_resolved (mwc_resource f) (mwc_op f) OpChanged (ok_or_closed r))"
  "\<lambda>f. AChannelEv (ch_op_dropped (mwc_resource f) (mwc_op f))" for T
  by unfold_locales
    (auto simp: ModelWatchChanged_poll_def ModelWatchChanged_drop_def op_log_notify Let_def
      split: prod.splits poll.splits if_splits)

interpretation notified: op_future "ModelNotified_poll T" "ModelNotified_drop T" async_notify_hook nf_waiter
  nf_requested_emitted nf_resolved
  "\<lambda>f. ANotifyEv (an_wait_requested (nf_resource f) (nf_waiter f))"
  "\<lambda>f r. ANotifyEv (an_wait_resolved (nf_resource f) (nf_waiter f))"
  "\<lambda>f. ANotifyEv (an_waiter_dropped (nf_resource f) (nf_waiter f))" for T
  by unfold_locales
    (auto simp: ModelNotified_poll_def ModelNotified_drop_def op_log_notify Let_def
      split: prod.splits poll.splits if_splits)

interpretation broadcast_recv: op_future "ModelBroadcastRecv_poll T" "ModelBroadcastRecv_drop T" async_broadcast_hook mbr_op
  mbr_requested_emitted mbr_resolved
  "\<lambda>f. ABroadcastEv (bc_op_requested (mbr_resource f) (mbr_op f) (Some (mbr_receiver_id f)) BRecv)"
  "\<lambda>f r. ABroadcastEv (bc_op_resolved (mbr_resource f) (mbr_op f) (Some (mbr_receiver_id f)) BRecv (broadcast_recv_outcome r))"
  "\<lambda>f. ABroadcastEv (bc_op_dropped (mbr_resource f) (mbr_op f))" for T
  by unfold_locales
    (auto simp: ModelBroadcastRecv_poll_def ModelBroadcastRecv_drop_def op_log_notify Let_def
      split: prod.splits poll.splits if_splits)

text \<open>Every moment of every run of future \<open>u0\<close> from state \<open>w0\<close> has a well-formed trace.\<close>

definition traced :: "('u \<Rightarrow> 'k \<times> rt \<Rightarrow> 'r poll \<times> 'u \<times> ('k \<times> rt)) \<Rightarrow> ('u \<Rightarrow> 'k \<times> rt \<Rightarrow> 'k \<times> rt)
    \<Rightarrow> (rt \<Rightarrow> hook option) \<Rightarrow> u64 \<Rightarrow> 'u \<Rightarrow> 'k \<times> rt \<Rightarrow> ('u \<Rightarrow> bool) \<Rightarrow> HookCall \<Rightarrow> ('r \<Rightarrow> HookCall)
    \<Rightarrow> HookCall \<Rightarrow> bool" where
  "traced pollf dropf hookof i u0 w0 reqd rq rs dr \<longleftrightarrow>
     (\<forall>ph k s. op_life pollf dropf hookof i u0 w0 ph (k, s) \<longrightarrow> op_trace_ok reqd rq rs dr ph (op_log i s))"

lemmas op_creation_defs = MpscSender_send_def MpscReceiver_recv_def WatchReceiver_changed_def
  oneshot_channel_def BroadcastReceiver_recv_def

text \<open>(C14) Every bounded \<open>send\<close> and every \<open>recv\<close> of an mpsc channel is reported as one well-formed
  operation: whatever the wrapped channel answers, however often the future is polled and whenever
  it is dropped, the events with its id are a prefix of request then resolution (the request only
  if a poll found it pending) or request then drop, on the channel of the endpoint, and the
  resolution carries \<open>Ok\<close> exactly for a delivered value and \<open>Closed\<close> otherwise.\<close>

theorem mpsc_op_traces:
  assumes "MpscSender_send T tx v w = (Inr f, (k0, s0))"
    and "async_channel_hook s0 = Some h" "op_log (mps_op f) s0 = []"
    and "MpscReceiver_recv T rx w' = (Inr g, (k1, s1))"
    and "async_channel_hook s1 = Some h'" "op_log (mpr_op g) s1 = []"
  shows "traced (ModelMpscSend_poll T) (ModelMpscSend_drop T) async_channel_hook (mps_op f) f (k0, s0)
       mps_requested_emitted (AChannelEv (ch_op_requested (mtx_resource tx) (mps_op f) OpSend))
       (\<lambda>r. AChannelEv (ch_op_resolved (mtx_resource tx) (mps_op f) OpSend (ok_or_closed r))) (AChannelEv (ch_op_dropped (mtx_resource tx) (mps_op f)))
    \<and> traced (ModelMpscRecv_poll T) (ModelMpscRecv_drop T) async_channel_hook (mpr_op g) g (k1, s1)
       mpr_requested_emitted (AChannelEv (ch_op_requested (mrx_resource rx) (mpr_op g) OpRecv))
       (\<lambda>r. AChannelEv (ch_op_resolved (mrx_resource rx) (mpr_op g) OpRecv (some_or_closed r))) (AChannelEv (ch_op_dropped (mrx_resource rx) (mpr_op g)))"
proof -
  have f: "\<not> mps_requested_emitted f \<and> \<not> mps_resolved f \<and> mps_resource f = mtx_resource tx"
    using assms(1) by (auto simp: op_creation_defs split: prod.splits sum.splits)
  have g: "\<not> mpr_requested_emitted g \<and> \<not> mpr_resolved g \<and> mpr_resource g = mrx_resource rx"
    using assms(4) by (auto simp: op_creation_defs split: prod.splits sum.splits)
  show ?thesis
    using mpsc_send.life_trace [of T f k0 s0, OF _ _ _ assms(2,3)]
      mpsc_recv.life_trace [of T g k1 s1, OF _ _ _ assms(5,6)] f g
    by (simp add: traced_def)
qed

text \<open>(C33) The receive of a oneshot channel, whose id is taken when the channel is made, and every
  \<open>changed\<close> of a watch channel are reported as one well-formed operation each, in the same sense:
  at most one request, first, and a resolved or cancelled request is always closed exactly once,
  with the outcome of the result.\<close>

theorem oneshot_and_watch_op_traces:
  assumes "oneshot_channel T w = (Inr (tx, f), (k0, s0))"
    and "async_channel_hook s0 = Some h" "op_log (orx_op f) s0 = []"
    and "WatchReceiver_changed W rx w' = (Inr g, (k1, s1))"
    and "async_channel_hook s1 = Some h'" "op_log (mwc_op g) s1 = []"
  shows "traced (OneshotReceiver_poll T) (OneshotReceiver_drop T) async_channel_hook (orx_op f) f (k0, s0)
       orx_requested_emitted (AChannelEv (ch_op_requested (otx_resource tx) (orx_op f) OpRecv))
       (\<lambda>r. AChannelEv (ch_op_resolved (otx_resource tx) (orx_op f) OpRecv (ok_or_closed r))) (AChannelEv (ch_op_dropped (otx_resource tx) (orx_op f)))
    \<and> traced (ModelWatchChanged_poll W) (ModelWatchChanged_drop W) async_channel_hook (mwc_op g) g (k1, s1)
       mwc_requested_emitted (AChannelEv (ch_op_requested (wrx_resource rx) (mwc_op g) OpChanged))
       (\<lambda>r. AChannelEv (ch_op_resolved (wrx_resource rx) (mwc_op g) OpChanged (ok_or_closed r))) (AChannelEv (ch_op_dropped (wrx_resource rx) (mwc_op g)))"
proof -
  have f: "\<not> orx_requested_emitted f \<and> \<not> orx_resolved f \<and> orx_resource f = otx_resource tx"
    using assms(1) by (auto simp: op_creation_defs split: prod.splits sum.splits)
  have g: "\<not> mwc_requested_emitted g \<and> \<not> mwc_resolved g \<and> mwc_resource g = wrx_resource rx"
    using assms(4) by (auto simp: op_creation_defs split: prod.splits sum.splits)
  show ?thesis
    using oneshot_recv.life_trace [of T f k0 s0, OF _ _ _ assms(2,3)]
      watch_changed.life_trace [of W g k1 s1, OF _ _ _ assms(5,6)] f g
    by (simp add: traced_def)
qed

text \<open>(C34) Every \<open>notified\<close> wait and every broadcast \<open>recv\<close> is reported as one well-formed
  operation each; the broadcast resolution carries the outcome of the result, lag counts
  unchanged, and both keep the receiver's id on every event.\<close>

theorem notify_and_broadcast_op_traces:
  assumes "ModelAsyncNotify_notified T (m, w) = (Inr f, (m', k0, s0))"
    and "async_notify_hook s0 = Some h" "op_log (nf_waiter f) s0 = []"
    and "BroadcastReceiver_recv B rx w' = (Inr g, (k1, s1))"
    and "async_broadcast_hook s1 = Some h'" "op_log (mbr_op g) s1 = []"
  shows "traced (ModelNotified_poll T) (ModelNotified_drop T) async_notify_hook (nf_waiter f) f (k0, s0)
       nf_requested_emitted (ANotifyEv (an_wait_requested (arid (an_resource m')) (nf_waiter f)))
       (\<lambda>r. ANotifyEv (an_wait_resolved (arid (an_resource m')) (nf_waiter f)))
       (ANotifyEv (an_waiter_dropped (arid (an_resource m')) (nf_waiter f)))
    \<and> traced (ModelBroadcastRecv_poll B) (ModelBroadcastRecv_drop B) async_broadcast_hook (mbr_op g) g (k1, s1)
       mbr_requested_emitted
       (ABroadcastEv (bc_op_requested (brx_resource rx) (mbr_op g) (Some (brx_id rx)) BRecv))
       (\<lambda>r. ABroadcastEv (bc_op_resolved (brx_resource rx) (mbr_op g) (Some (brx_id rx)) BRecv
          (broadcast_recv_outcome r)))
       (ABroadcastEv (bc_op_dropped (brx_resource rx) (mbr_op g)))"
proof -
  obtain k s where w: "w = (k, s)" by fastforce
  obtain r1 c s1' where id1: "arid_get (an_resource m, s) = (r1, (c, s1'))" by (metis prod.exhaust)
  have f: "\<not> nf_requested_emitted f \<and> \<not> nf_resolved f \<and> nf_resource f = arid (an_resource m')"
    using assms(1) id1 arid_get_Inr [of "an_resource m" s _ c s1']
    by (auto simp: ModelAsyncNotify_notified_def w rbind_def lift_id_def lift_rt_def lift_tk_def
        split: prod.splits sum.splits)
  have g: "\<not> mbr_requested_emitted g \<and> \<not> mbr_resolved g \<and> mbr_resource g = brx_resource rx
      \<and> mbr_receiver_id g = brx_id rx"
    using assms(4) by (auto simp: op_creation_defs split: prod.splits sum.splits)
  show ?thesis
    using notified.life_trace [of T f k0 s0, OF _ _ _ assms(2,3)]
      broadcast_recv.life_trace [of B g k1 s1, OF _ _ _ assms(5,6)] f g
    by (simp add: traced_def)
qed

section \<open>Runs\<close>

text \<open>Wrapped channels whose futures are pending at the first poll and ready at the next.\<close>

definition slow_mpsc :: "(bool, unit, unit, unit, nat) tokio_mpsc" where
  "slow_mpsc = \<lparr>
     mp_channel = \<lambda>x0 k. (((), ()), k), mp_unbounded_channel = \<lambda>k. (((), ()), k),
     mp_clone = \<lambda>x0 k. ((), k), mp_drop_tx = \<lambda>x0 k. k,
     mp_drop_rx = \<lambda>x0 k. k, mp_send = \<lambda>x0 x1 k. ((), k),
     mp_poll_send = \<lambda>x0 k. (if k then Ready (Inr ()) else Pending, (), True),
     mp_try_send = \<lambda>x0 x1 k. (Inr (), k), mp_send_now = \<lambda>x0 x1 k. (Inr (), k),
     mp_recv = \<lambda>x0 k. ((), k),
     mp_poll_recv = \<lambda>x0 k. (if k then Ready (Some 0) else Pending, (), True),
     mp_try_recv = \<lambda>x0 k. (Inr 0, k), mp_drop_future = \<lambda>x0 k. k,
     mp_close = \<lambda>x0 k. k, mp_tx_is_closed = \<lambda>x0 k. False,
     mp_tx_capacity = \<lambda>x0 k. 0, mp_tx_max_capacity = \<lambda>x0 k. 0,
     mp_same_channel = \<lambda>x0 x1 k. False, mp_rx_is_closed = \<lambda>x0 k. False,
     mp_rx_is_empty = \<lambda>x0 k. False, mp_rx_len = \<lambda>x0 k. 0,
     mp_rx_capacity = \<lambda>x0 k. 0, mp_rx_max_capacity = \<lambda>x0 k. 0\<rparr>"

definition slow_oneshot :: "(bool, unit, unit, nat) tokio_oneshot" where
  "slow_oneshot = \<lparr>
     os_channel = \<lambda>k. (((), ()), k), os_send = \<lambda>x0 x1 k. (Inr (), k),
     os_is_closed = \<lambda>x0 k. False, os_drop_tx = \<lambda>x0 k. k,
     os_poll = \<lambda>x0 k. (if k then Ready (Inr 0) else Pending, (), True),
     os_try_recv = \<lambda>x0 k. (Inr 0, (), k), os_close = \<lambda>x0 k. ((), k),
     os_drop_rx = \<lambda>x0 k. k\<rparr>"

definition slow_watch :: "(bool, unit, unit, unit, nat) tokio_watch" where
  "slow_watch = \<lparr>
     wt_channel = \<lambda>x0 k. (((), ()), k), wt_clone_tx = \<lambda>x0 k. ((), k),
     wt_clone_rx = \<lambda>x0 k. ((), k), wt_subscribe = \<lambda>x0 k. ((), k),
     wt_drop_tx = \<lambda>x0 k. k, wt_drop_rx = \<lambda>x0 k. k,
     wt_send = \<lambda>x0 x1 k. (Inr (), k), wt_changed = \<lambda>x0 k. ((), k),
     wt_poll_changed = \<lambda>x0 k. (if k then Ready (Inr ()) else Pending, (), True),
     wt_drop_future = \<lambda>x0 k. k, wt_is_closed = \<lambda>x0 k. False,
     wt_same_channel_tx = \<lambda>x0 x1 k. False, wt_same_channel_rx = \<lambda>x0 x1 k. False,
     wt_borrow = \<lambda>x0 k. (0::nat), wt_borrow_and_update = \<lambda>x0 k. (0, k),
     wt_has_changed = \<lambda>x0 k. Inr False\<rparr>"

definition slow_notify :: "(bool, unit, unit) tokio_notify" where
  "slow_notify = \<lparr>
     nt_new = \<lambda>k. ((), k), nt_notified = \<lambda>x0 k. ((), k),
     nt_poll = \<lambda>x0 k. (if k then Ready () else Pending, (), True),
     nt_drop_future = \<lambda>x0 k. k, nt_notify_one = \<lambda>x0 k. k,
     nt_notify_waiters = \<lambda>x0 k. k\<rparr>"

definition slow_broadcast :: "(bool, unit, unit, unit, nat) tokio_broadcast" where
  "slow_broadcast = \<lparr>
     bt_channel = \<lambda>x0 k. (((), ()), k), bt_clone_tx = \<lambda>x0 k. ((), k),
     bt_drop_tx = \<lambda>x0 k. k, bt_drop_rx = \<lambda>x0 k. k,
     bt_send = \<lambda>x0 x1 k. (Inr 1, k), bt_subscribe = \<lambda>x0 k. ((), k),
     bt_resubscribe = \<lambda>x0 k. ((), k), bt_recv = \<lambda>x0 k. ((), k),
     bt_poll_recv = \<lambda>x0 k. (if k then Ready (Inr 0) else Pending, (), True),
     bt_drop_future = \<lambda>x0 k. k, bt_try_recv = \<lambda>x0 k. (Inr 0, k),
     bt_receiver_count = \<lambda>x0 k. 0, bt_tx_len = \<lambda>x0 k. 0,
     bt_tx_is_empty = \<lambda>x0 k. False, bt_rx_len = \<lambda>x0 k. 0,
     bt_rx_is_empty = \<lambda>x0 k. False\<rparr>"

definition chan_rt :: rt where
  "chan_rt = install_async_broadcast_hook 0 (install_async_notify_hook 0
     (install_async_channel_hook 0 rt_init))"

abbreviation chan_rt1 :: rt where
  "chan_rt1 \<equiv> chan_rt\<lparr>NEXT_ASYNC_LOCK_WAITER_ID := 2\<rparr>"

lemma chan_rt_facts [simp]:
  "async_channel_hook chan_rt1 = Some 0" "async_notify_hook chan_rt1 = Some 0"
  "async_broadcast_hook chan_rt1 = Some 0" "op_log i chan_rt1 = []"
  "next_async_lock_waiter_id chan_rt = (Inr 1, chan_rt1)"
  by (simp_all add: chan_rt_def hook_installs hook_reads rt_init_def op_log_def
      next_async_lock_waiter_id_def checked_add1_def)

lemma demo_send:
  "MpscSender_send slow_mpsc \<lparr>mtx_inner = (), mtx_resource = 4\<rparr> 9 (False, chan_rt) =
     (Inr \<lparr>mps_resource = 4, mps_op = 1, mps_inner = (), mps_requested_emitted = False, mps_resolved = False\<rparr>,
      (False, chan_rt1))"
  by (simp add: MpscSender_send_def slow_mpsc_def)

lemma demo_recv:
  "MpscReceiver_recv slow_mpsc \<lparr>mrx_inner = (), mrx_resource = 4\<rparr> (False, chan_rt) =
     (Inr \<lparr>mpr_resource = 4, mpr_op = 1, mpr_inner = (), mpr_requested_emitted = False, mpr_resolved = False\<rparr>,
      (False, chan_rt1))"
  by (simp add: MpscReceiver_recv_def slow_mpsc_def)

text \<open>Polled twice: the log of the send is its request and its resolution.\<close>

theorem mpsc_op_traces_witness:
  "\<exists>f w u. traced (ModelMpscSend_poll slow_mpsc) (ModelMpscSend_drop slow_mpsc) async_channel_hook 1 f w
       mps_requested_emitted (AChannelEv (ch_op_requested 4 1 OpSend))
       (\<lambda>r. AChannelEv (ch_op_resolved 4 1 OpSend (ok_or_closed r))) (AChannelEv (ch_op_dropped 4 1))
     \<and> op_life (ModelMpscSend_poll slow_mpsc) (ModelMpscSend_drop slow_mpsc) async_channel_hook 1 f w
       (Resolved u (Inr ())) (True, notify (Some 0) (AChannelEv (ch_op_resolved 4 1 OpSend OutcomeOk))
         (notify (Some 0) (AChannelEv (ch_op_requested 4 1 OpSend)) chan_rt1))"
proof -
  let ?f = "\<lparr>mps_resource = 4, mps_op = 1, mps_inner = (), mps_requested_emitted = False, mps_resolved = False\<rparr>"
  have one: "ModelMpscSend_poll slow_mpsc ?f (False, chan_rt1) =
      (Pending, ?f\<lparr>mps_requested_emitted := True\<rparr>,
       (True, notify (Some 0) (AChannelEv (ch_op_requested 4 1 OpSend)) chan_rt1))"
    by (simp add: ModelMpscSend_poll_def slow_mpsc_def)
  have two: "ModelMpscSend_poll slow_mpsc (?f\<lparr>mps_requested_emitted := True\<rparr>)
       (True, notify (Some 0) (AChannelEv (ch_op_requested 4 1 OpSend)) chan_rt1) =
      (Ready (Inr ()), ?f\<lparr>mps_requested_emitted := True, mps_resolved := True\<rparr>,
       (True, notify (Some 0) (AChannelEv (ch_op_resolved 4 1 OpSend OutcomeOk))
         (notify (Some 0) (AChannelEv (ch_op_requested 4 1 OpSend)) chan_rt1)))"
    by (simp add: ModelMpscSend_poll_def slow_mpsc_def ok_or_closed_def)
  have "op_life (ModelMpscSend_poll slow_mpsc) (ModelMpscSend_drop slow_mpsc) async_channel_hook 1 ?f
      (False, chan_rt1) (Resolved (?f\<lparr>mps_requested_emitted := True, mps_resolved := True\<rparr>) (Inr ()))
      (True, notify (Some 0) (AChannelEv (ch_op_resolved 4 1 OpSend OutcomeOk))
         (notify (Some 0) (AChannelEv (ch_op_requested 4 1 OpSend)) chan_rt1))"
    using life_ready [where pollf = "ModelMpscSend_poll slow_mpsc", OF life_pending
        [where pollf = "ModelMpscSend_poll slow_mpsc", OF life_start one] two] .
  then show ?thesis using mpsc_op_traces [OF demo_send _ _ demo_recv] by fastforce
qed

lemma demo_oneshot:
  "oneshot_channel slow_oneshot (False, chan_rt) =
     (Inr (\<lparr>otx_inner = Some (), otx_resource = 1\<rparr>,
           \<lparr>orx_resource = 1, orx_op = 1, orx_inner = (), orx_requested_emitted = False, orx_resolved = False\<rparr>),
      (False, (notify (Some 0) (AChannelEv (ch_created 1 Oneshot))
         (chan_rt\<lparr>NEXT_ASYNC_LOCK_RESOURCE_ID := 2\<rparr>))\<lparr>NEXT_ASYNC_LOCK_WAITER_ID := 2\<rparr>))"
  by (simp add: oneshot_channel_def slow_oneshot_def chan_rt_def rt_init_def hook_installs hook_reads
      next_async_lock_resource_id_def next_async_lock_waiter_id_def checked_add1_def notify_def slot_install_def
      slot_get_def)

lemma demo_changed:
  "WatchReceiver_changed slow_watch \<lparr>wrx_inner = (), wrx_resource = 6\<rparr> (False, chan_rt) =
     (Inr \<lparr>mwc_resource = 6, mwc_op = 1, mwc_inner = (), mwc_requested_emitted = False, mwc_resolved = False\<rparr>,
      (False, chan_rt1))"
  by (simp add: WatchReceiver_changed_def slow_watch_def)

theorem oneshot_and_watch_op_traces_witness:
  "\<exists>f w. traced (OneshotReceiver_poll slow_oneshot) (OneshotReceiver_drop slow_oneshot) async_channel_hook 1 f w
       orx_requested_emitted (AChannelEv (ch_op_requested 1 1 OpRecv))
       (\<lambda>r. AChannelEv (ch_op_resolved 1 1 OpRecv (ok_or_closed r))) (AChannelEv (ch_op_dropped 1 1))"
proof -
  let ?s = "(notify (Some 0) (AChannelEv (ch_created 1 Oneshot))
         (chan_rt\<lparr>NEXT_ASYNC_LOCK_RESOURCE_ID := 2\<rparr>))\<lparr>NEXT_ASYNC_LOCK_WAITER_ID := 2\<rparr>"
  have "async_channel_hook ?s = Some 0" "op_log 1 ?s = []"
    by (simp_all add: chan_rt_def hook_installs hook_reads rt_init_def op_log_def notify_def)
  then show ?thesis
    using oneshot_and_watch_op_traces [OF demo_oneshot _ _ demo_changed] by fastforce
qed

lemma demo_notified:
  "ModelAsyncNotify_notified slow_notify (\<lparr>an_resource = AsyncResourceId 3, an_inner = ()\<rparr>, False, chan_rt) =
     (Inr \<lparr>nf_resource = 3, nf_waiter = 1, nf_inner = (), nf_requested_emitted = False, nf_resolved = False\<rparr>,
      (\<lparr>an_resource = AsyncResourceId 3, an_inner = ()\<rparr>, False, chan_rt1))"
  by (simp add: ModelAsyncNotify_notified_def lift_id_def lift_rt_def lift_tk_def rbind_def arid_get_def
      slow_notify_def)

lemma demo_broadcast_recv:
  "BroadcastReceiver_recv slow_broadcast \<lparr>brx_inner = (), brx_resource = 8, brx_id = 5\<rparr> (False, chan_rt) =
     (Inr \<lparr>mbr_resource = 8, mbr_receiver_id = 5, mbr_op = 1, mbr_inner = (), mbr_requested_emitted = False,
           mbr_resolved = False\<rparr>, (False, chan_rt1))"
  by (simp add: BroadcastReceiver_recv_def slow_broadcast_def)

theorem notify_and_broadcast_op_traces_witness:
  "\<exists>f w. traced (ModelNotified_poll slow_notify) (ModelNotified_drop slow_notify) async_notify_hook 1 f w
       nf_requested_emitted (ANotifyEv (an_wait_requested 3 1)) (\<lambda>r. ANotifyEv (an_wait_resolved 3 1))
       (ANotifyEv (an_waiter_dropped 3 1))"
  using notify_and_broadcast_op_traces [OF demo_notified _ _ demo_broadcast_recv] by fastforce

end
