(* ===== verification/ChannelLedger.thy ===== *)
theory ChannelLedger
  imports OpLife "HOL-Library.Multiset"
begin

text \<open>
  What the engine can conclude from the log about the endpoints of the channels. Reading the log
  channel by channel gives a kind and two counts; the theory proves that the counts are the
  numbers of live senders and receivers in every interleaving of channel creation, cloning,
  subscription, sends and drops. The second half does the same for the broadcast channel, whose
  subscriptions also report a position in the sequence of sends.
\<close>

section \<open>Reading the log\<close>

type_synonym chan_view = "AsyncChannelKind option \<times> nat \<times> nat"

definition tx_plus :: "chan_view \<Rightarrow> chan_view" where
  "tx_plus v = (fst v, fst (snd v) + 1, snd (snd v))"

definition rx_plus :: "chan_view \<Rightarrow> chan_view" where
  "rx_plus v = (fst v, fst (snd v), snd (snd v) + 1)"

definition tx_minus :: "chan_view \<Rightarrow> chan_view" where
  "tx_minus v = (fst v, fst (snd v) - 1, snd (snd v))"

definition rx_minus :: "chan_view \<Rightarrow> chan_view" where
  "rx_minus v = (fst v, fst (snd v), snd (snd v) - 1)"

text \<open>A oneshot sender is consumed by its \<open>send\<close>, which reports the resolution and no drop.\<close>

definition tx_used :: "chan_view \<Rightarrow> chan_view" where
  "tx_used v = (if fst v = Some Oneshot then (fst v, 0, snd (snd v)) else v)"

lemmas view_defs = tx_plus_def rx_plus_def tx_minus_def rx_minus_def tx_used_def

fun ep_effect :: "u64 \<Rightarrow> HookCall \<Rightarrow> chan_view \<Rightarrow> chan_view" where
  "ep_effect r (AChannelEv (ch_created r' kd)) v = (if r' = r then (Some kd, 1, 1) else v)"
| "ep_effect r (AChannelEv (ch_endpoint_cloned r' SideSender)) v = (if r' = r then tx_plus v else v)"
| "ep_effect r (AChannelEv (ch_endpoint_cloned r' SideReceiver)) v = (if r' = r then rx_plus v else v)"
| "ep_effect r (AChannelEv (ch_endpoint_dropped r' SideSender)) v = (if r' = r then tx_minus v else v)"
| "ep_effect r (AChannelEv (ch_endpoint_dropped r' SideReceiver)) v = (if r' = r then rx_minus v else v)"
| "ep_effect r (AChannelEv (ch_op_resolved r' w OpSend out)) v = (if r' = r then tx_used v else v)"
| "ep_effect r e v = v"

definition view_in :: "(hook \<times> HookCall) list \<Rightarrow> u64 \<Rightarrow> chan_view" where
  "view_in log r = fold (\<lambda>(h, e). ep_effect r e) log (None, 0, 0)"

lemma view_in_Nil [simp]: "view_in [] r = (None, 0, 0)"
  by (simp add: view_in_def)

lemma view_in_snoc [simp]: "view_in (log @ [(h, e)]) r = ep_effect r e (view_in log r)"
  by (simp add: view_in_def)

section \<open>Live endpoints\<close>

datatype ('t, 'r) endpoint =
    MpscTx "'t MpscSender" | MpscRx "'r MpscReceiver"
  | UnbTx "'t UnboundedSender" | UnbRx "'r UnboundedReceiver"
  | OneTx "'t OneshotSender" | OneRx "'r OneshotReceiver"
  | WatchTx "'t WatchSender" | WatchRx "'r WatchReceiver"

primrec ep_resource :: "('t, 'r) endpoint \<Rightarrow> u64" where
  "ep_resource (MpscTx e) = mtx_resource e" | "ep_resource (MpscRx e) = mrx_resource e"
| "ep_resource (UnbTx e) = utx_resource e" | "ep_resource (UnbRx e) = urx_resource e"
| "ep_resource (OneTx e) = otx_resource e" | "ep_resource (OneRx e) = orx_resource e"
| "ep_resource (WatchTx e) = wtx_resource e" | "ep_resource (WatchRx e) = wrx_resource e"

primrec ep_sends :: "('t, 'r) endpoint \<Rightarrow> bool" where
  "ep_sends (MpscTx e) = True" | "ep_sends (MpscRx e) = False"
| "ep_sends (UnbTx e) = True" | "ep_sends (UnbRx e) = False"
| "ep_sends (OneTx e) = True" | "ep_sends (OneRx e) = False"
| "ep_sends (WatchTx e) = True" | "ep_sends (WatchRx e) = False"

primrec ep_oneshot :: "('t, 'r) endpoint \<Rightarrow> bool" where
  "ep_oneshot (MpscTx e) = False" | "ep_oneshot (MpscRx e) = False"
| "ep_oneshot (UnbTx e) = False" | "ep_oneshot (UnbRx e) = False"
| "ep_oneshot (OneTx e) = True" | "ep_oneshot (OneRx e) = True"
| "ep_oneshot (WatchTx e) = False" | "ep_oneshot (WatchRx e) = False"

primrec ep_whole :: "('t, 'r) endpoint \<Rightarrow> bool" where
  "ep_whole (MpscTx e) = True" | "ep_whole (MpscRx e) = True"
| "ep_whole (UnbTx e) = True" | "ep_whole (UnbRx e) = True"
| "ep_whole (OneTx e) = (otx_inner e \<noteq> None)" | "ep_whole (OneRx e) = True"
| "ep_whole (WatchTx e) = True" | "ep_whole (WatchRx e) = True"

definition live_count :: "bool \<Rightarrow> ('t, 'r) endpoint multiset \<Rightarrow> u64 \<Rightarrow> nat" where
  "live_count side M r = size (filter_mset (\<lambda>e. ep_resource e = r \<and> ep_sends e = side) M)"

lemma live_count_add [simp]:
  "live_count side (add_mset e M) r = live_count side M r + (if ep_resource e = r \<and> ep_sends e = side then 1 else 0)"
  by (simp add: live_count_def)

lemma live_count_empty [simp]: "live_count side {#} r = 0"
  by (simp add: live_count_def)

lemma live_count_remove:
  "e \<in># M \<Longrightarrow> live_count side M r = live_count side (M - {#e#}) r + (if ep_resource e = r \<and> ep_sends e = side then 1 else 0)"
  using live_count_add [of side e "M - {#e#}" r] by simp

section \<open>The invariant\<close>

definition chan_inv :: "rt \<Rightarrow> ('t, 'r) endpoint multiset \<Rightarrow> bool" where
  "chan_inv s M \<longleftrightarrow> async_channel_hook s \<noteq> None
     \<and> (\<forall>r. fst (snd (view_in (calls s) r)) = live_count True M r)
     \<and> (\<forall>r. snd (snd (view_in (calls s) r)) = live_count False M r)
     \<and> (\<forall>r. fst (view_in (calls s) r) = Some Oneshot \<longrightarrow> live_count True M r \<le> 1)
     \<and> (\<forall>e. e \<in># M \<longrightarrow> ep_resource e < NEXT_ASYNC_LOCK_RESOURCE_ID s \<and> ep_whole e
          \<and> (ep_oneshot e \<longleftrightarrow> fst (view_in (calls s) (ep_resource e)) = Some Oneshot))
     \<and> (\<forall>r. NEXT_ASYNC_LOCK_RESOURCE_ID s \<le> r \<longrightarrow> view_in (calls s) r = (None, 0, 0))"

text \<open>Activity that is not about endpoints.\<close>

definition not_about_endpoints :: "rt \<Rightarrow> rt \<Rightarrow> bool" where
  "not_about_endpoints s s' \<longleftrightarrow> async_channel_hook s' = async_channel_hook s
     \<and> NEXT_ASYNC_LOCK_RESOURCE_ID s \<le> NEXT_ASYNC_LOCK_RESOURCE_ID s' \<and> view_in (calls s') = view_in (calls s)"

lemma chan_quiet: "chan_inv s M \<Longrightarrow> not_about_endpoints s s' \<Longrightarrow> chan_inv s' M"
  by (auto simp: chan_inv_def not_about_endpoints_def intro: less_le_trans)

text \<open>A report about channel \<open>r\<close> changes the view of \<open>r\<close> only.\<close>

definition reports :: "u64 \<Rightarrow> (chan_view \<Rightarrow> chan_view) \<Rightarrow> rt \<Rightarrow> rt \<Rightarrow> bool" where
  "reports r f s s' \<longleftrightarrow> async_channel_hook s' = async_channel_hook s
     \<and> NEXT_ASYNC_LOCK_RESOURCE_ID s' = NEXT_ASYNC_LOCK_RESOURCE_ID s
     \<and> (async_channel_hook s \<noteq> None \<longrightarrow> view_in (calls s') = (view_in (calls s))(r := f (view_in (calls s) r)))"

lemma reports_notify [simp]:
  "reports r tx_plus s (notify (async_channel_hook s) (AChannelEv (ch_endpoint_cloned r SideSender)) s)"
  "reports r rx_plus s (notify (async_channel_hook s) (AChannelEv (ch_endpoint_cloned r SideReceiver)) s)"
  "reports r tx_minus s (notify (async_channel_hook s) (AChannelEv (ch_endpoint_dropped r SideSender)) s)"
  "reports r rx_minus s (notify (async_channel_hook s) (AChannelEv (ch_endpoint_dropped r SideReceiver)) s)"
  "reports r tx_used s (notify (async_channel_hook s) (AChannelEv (ch_op_resolved r w OpSend out)) s)"
  by (auto simp: reports_def fun_eq_iff)

lemma chan_clone:
  assumes inv: "chan_inv s M" and e: "e \<in># M" and e': "ep_resource e' = ep_resource e"
    and whole: "ep_whole e'" and no: "\<not> ep_oneshot e" "\<not> ep_oneshot e'"
    and rep: "reports (ep_resource e) (if ep_sends e' then tx_plus else rx_plus) s s'"
  shows "chan_inv s' (add_mset e' M)"
  using assms by (auto simp: chan_inv_def reports_def view_defs)

lemma live_count_drop:
  "e \<in># M \<Longrightarrow> live_count side (M - {#e#}) r
     = live_count side M r - (if ep_resource e = r \<and> ep_sends e = side then 1 else 0)"
  using live_count_remove [of e M side r] by simp

lemma chan_drop:
  assumes inv: "chan_inv s M" and e: "e \<in># M"
    and rep: "reports (ep_resource e) (if ep_sends e then tx_minus else rx_minus) s s'"
  shows "chan_inv s' (M - {#e#})"
  using assms
  by (auto simp: chan_inv_def reports_def view_defs live_count_drop dest: in_diffD)

text \<open>A send on a channel that is not oneshot, and the consuming send of a oneshot.\<close>

lemma chan_send:
  assumes inv: "chan_inv s M" and e: "e \<in># M" "\<not> ep_oneshot e"
    and rep: "reports (ep_resource e) tx_used s s'"
  shows "chan_inv s' M"
  using assms by (auto simp: chan_inv_def reports_def tx_used_def fun_upd_idem)

lemma chan_send_once:
  assumes inv: "chan_inv s M" and e: "e \<in># M" "ep_oneshot e" "ep_sends e"
    and rep: "reports (ep_resource e) tx_used s s'"
  shows "chan_inv s' (M - {#e#})"
proof -
  have "live_count True M (ep_resource e) = 1"
    using inv e live_count_remove [OF e(1), of True "ep_resource e"]
    by (force simp: chan_inv_def)
  with assms show ?thesis
    by (auto simp: chan_inv_def reports_def tx_used_def live_count_drop dest: in_diffD)
qed

lemma chan_create:
  assumes inv: "chan_inv s M" and new: "next_async_lock_resource_id s = (Inr r, s1)"
    and e: "ep_resource e = r" "ep_resource e' = r" "ep_sends e" "\<not> ep_sends e'" "ep_whole e" "ep_whole e'"
      "ep_oneshot e = (kd = Oneshot)" "ep_oneshot e' = (kd = Oneshot)"
    and s': "async_channel_hook s' = async_channel_hook s"
      "NEXT_ASYNC_LOCK_RESOURCE_ID s' = NEXT_ASYNC_LOCK_RESOURCE_ID s1"
      "view_in (calls s') = (view_in (calls s))(r := (Some kd, 1, 1))"
  shows "chan_inv s' (add_mset e (add_mset e' M))"
proof -
  have r: "r = NEXT_ASYNC_LOCK_RESOURCE_ID s" and less: "r < NEXT_ASYNC_LOCK_RESOURCE_ID s1"
    using new checked_add1_less
    by (auto simp: next_async_lock_resource_id_def split: option.splits)
  have "view_in (calls s) r = (None, 0, 0)" using inv r unfolding chan_inv_def by blast
  moreover have "fst (snd (view_in (calls s) r)) = live_count True M r"
    "snd (snd (view_in (calls s) r)) = live_count False M r"
    using inv unfolding chan_inv_def by blast+
  ultimately have none: "live_count side M r = 0" for side by (cases side) simp_all
  have "f \<in># M \<Longrightarrow> ep_resource f < NEXT_ASYNC_LOCK_RESOURCE_ID s1 \<and> ep_resource f \<noteq> r" for f
    using inv r less by (auto simp: chan_inv_def intro: less_trans)
  with assms none r less show ?thesis
    by (auto simp: chan_inv_def)
qed

section \<open>The system\<close>

text \<open>The wrapped channels of the system, and its state: the library's state, the runtime and the
  live endpoints.\<close>

record ('k, 't, 'r, 'f, 'v) chan_api =
  ca_mpsc :: "('k, 't, 'r, 'f, 'v) tokio_mpsc"
  ca_oneshot :: "('k, 't, 'r, 'v) tokio_oneshot"
  ca_watch :: "('k, 't, 'r, 'f, 'v) tokio_watch"

type_synonym ('k, 't, 'r) chan_sys = "'k \<times> rt \<times> ('t, 'r) endpoint multiset"

text \<open>One step: a channel is made, an endpoint is cloned, subscribed, used, consumed or dropped, or
  something happens that is not about endpoints. A oneshot call that panics because the waiter ids are exhausted is not a step: it leaves the
  log wrong, as shown after the theorem.\<close>

inductive chan_step :: "('k, 't, 'r, 'f, 'v) chan_api \<Rightarrow> ('k, 't, 'r) chan_sys \<Rightarrow> ('k, 't, 'r) chan_sys \<Rightarrow> bool"
  for A where
  new_mpsc: "mpsc_channel (ca_mpsc A) n (k, s) = (Inr (tx, rx), (k', s')) \<Longrightarrow>
     chan_step A (k, s, M) (k', s', add_mset (MpscTx tx) (add_mset (MpscRx rx) M))"
| new_mpsc_fails: "mpsc_channel (ca_mpsc A) n (k, s) = (Inl p, (k', s')) \<Longrightarrow> chan_step A (k, s, M) (k', s', M)"
| new_unbounded: "mpsc_unbounded_channel (ca_mpsc A) (k, s) = (Inr (tx, rx), (k', s')) \<Longrightarrow>
     chan_step A (k, s, M) (k', s', add_mset (UnbTx tx) (add_mset (UnbRx rx) M))"
| new_unbounded_fails: "mpsc_unbounded_channel (ca_mpsc A) (k, s) = (Inl p, (k', s')) \<Longrightarrow> chan_step A (k, s, M) (k', s', M)"
| new_oneshot: "oneshot_channel (ca_oneshot A) (k, s) = (Inr (tx, rx), (k', s')) \<Longrightarrow>
     chan_step A (k, s, M) (k', s', add_mset (OneTx tx) (add_mset (OneRx rx) M))"
| new_oneshot_fails: "oneshot_channel (ca_oneshot A) (k, s) = (Inl AsyncIdExhausted, (k', s')) \<Longrightarrow> chan_step A (k, s, M) (k', s', M)"
| new_watch: "watch_channel (ca_watch A) v (k, s) = (Inr (tx, rx), (k', s')) \<Longrightarrow>
     chan_step A (k, s, M) (k', s', add_mset (WatchTx tx) (add_mset (WatchRx rx) M))"
| new_watch_fails: "watch_channel (ca_watch A) v (k, s) = (Inl p, (k', s')) \<Longrightarrow> chan_step A (k, s, M) (k', s', M)"
| clone_mpsc: "MpscTx e \<in># M \<Longrightarrow> MpscSender_clone (ca_mpsc A) e (k, s) = (e', (k', s')) \<Longrightarrow>
     chan_step A (k, s, M) (k', s', add_mset (MpscTx e') M)"
| clone_unbounded: "UnbTx e \<in># M \<Longrightarrow> UnboundedSender_clone (ca_mpsc A) e (k, s) = (e', (k', s')) \<Longrightarrow>
     chan_step A (k, s, M) (k', s', add_mset (UnbTx e') M)"
| clone_watch_tx: "WatchTx e \<in># M \<Longrightarrow> WatchSender_clone (ca_watch A) e (k, s) = (e', (k', s')) \<Longrightarrow>
     chan_step A (k, s, M) (k', s', add_mset (WatchTx e') M)"
| clone_watch_rx: "WatchRx e \<in># M \<Longrightarrow> WatchReceiver_clone (ca_watch A) e (k, s) = (e', (k', s')) \<Longrightarrow>
     chan_step A (k, s, M) (k', s', add_mset (WatchRx e') M)"
| subscribe_watch: "WatchTx e \<in># M \<Longrightarrow> WatchSender_subscribe (ca_watch A) e (k, s) = (e', (k', s')) \<Longrightarrow>
     chan_step A (k, s, M) (k', s', add_mset (WatchRx e') M)"
| drop_mpsc_tx: "MpscTx e \<in># M \<Longrightarrow> MpscSender_drop (ca_mpsc A) e (k, s) = (k', s') \<Longrightarrow>
     chan_step A (k, s, M) (k', s', M - {#MpscTx e#})"
| drop_mpsc_rx: "MpscRx e \<in># M \<Longrightarrow> MpscReceiver_drop (ca_mpsc A) e (k, s) = (k', s') \<Longrightarrow>
     chan_step A (k, s, M) (k', s', M - {#MpscRx e#})"
| drop_unb_tx: "UnbTx e \<in># M \<Longrightarrow> UnboundedSender_drop (ca_mpsc A) e (k, s) = (k', s') \<Longrightarrow>
     chan_step A (k, s, M) (k', s', M - {#UnbTx e#})"
| drop_unb_rx: "UnbRx e \<in># M \<Longrightarrow> UnboundedReceiver_drop (ca_mpsc A) e (k, s) = (k', s') \<Longrightarrow>
     chan_step A (k, s, M) (k', s', M - {#UnbRx e#})"
| drop_one_tx: "OneTx e \<in># M \<Longrightarrow> OneshotSender_drop (ca_oneshot A) e (k, s) = (k', s') \<Longrightarrow>
     chan_step A (k, s, M) (k', s', M - {#OneTx e#})"
| drop_one_rx: "OneRx e \<in># M \<Longrightarrow> OneshotReceiver_drop (ca_oneshot A) e (k, s) = (k', s') \<Longrightarrow>
     chan_step A (k, s, M) (k', s', M - {#OneRx e#})"
| drop_watch_tx: "WatchTx e \<in># M \<Longrightarrow> WatchSender_drop (ca_watch A) e (k, s) = (k', s') \<Longrightarrow>
     chan_step A (k, s, M) (k', s', M - {#WatchTx e#})"
| drop_watch_rx: "WatchRx e \<in># M \<Longrightarrow> WatchReceiver_drop (ca_watch A) e (k, s) = (k', s') \<Longrightarrow>
     chan_step A (k, s, M) (k', s', M - {#WatchRx e#})"
| try_send: "MpscTx e \<in># M \<Longrightarrow> MpscSender_try_send (ca_mpsc A) e v (k, s) = (r, (k', s')) \<Longrightarrow> chan_step A (k, s, M) (k', s', M)"
| send_unbounded: "UnbTx e \<in># M \<Longrightarrow> UnboundedSender_send (ca_mpsc A) e v (k, s) = (r, (k', s')) \<Longrightarrow> chan_step A (k, s, M) (k', s', M)"
| send_watch: "WatchTx e \<in># M \<Longrightarrow> WatchSender_send (ca_watch A) e v (k, s) = (r, (k', s')) \<Longrightarrow> chan_step A (k, s, M) (k', s', M)"
| send_polled: "MpscTx e \<in># M \<Longrightarrow> mps_resource f = mtx_resource e \<Longrightarrow>
     ModelMpscSend_poll (ca_mpsc A) f (k, s) = (r, f', (k', s')) \<Longrightarrow> chan_step A (k, s, M) (k', s', M)"
| send_oneshot: "OneTx e \<in># M \<Longrightarrow> OneshotSender_send (ca_oneshot A) e v (k, s) = (Inr r, (k', s')) \<Longrightarrow>
     chan_step A (k, s, M) (k', s', M - {#OneTx e#})"
| close_mpsc: "MpscRx e \<in># M \<Longrightarrow> MpscReceiver_close (ca_mpsc A) e (k, s) = (k', s') \<Longrightarrow> chan_step A (k, s, M) (k', s', M)"
| close_unbounded: "UnbRx e \<in># M \<Longrightarrow> UnboundedReceiver_close (ca_mpsc A) e (k, s) = (k', s') \<Longrightarrow> chan_step A (k, s, M) (k', s', M)"
| try_recv_mpsc: "MpscRx e \<in># M \<Longrightarrow> MpscReceiver_try_recv (ca_mpsc A) e (k, s) = (r, (k', s')) \<Longrightarrow> chan_step A (k, s, M) (k', s', M)"
| try_recv_unbounded: "UnbRx e \<in># M \<Longrightarrow> UnboundedReceiver_try_recv (ca_mpsc A) e (k, s) = (r, (k', s')) \<Longrightarrow> chan_step A (k, s, M) (k', s', M)"
| poll_oneshot: "OneRx e \<in># M \<Longrightarrow> OneshotReceiver_poll (ca_oneshot A) e (k, s) = (r, e', (k', s')) \<Longrightarrow>
     chan_step A (k, s, M) (k', s', add_mset (OneRx e') (M - {#OneRx e#}))"
| try_recv_oneshot: "OneRx e \<in># M \<Longrightarrow> OneshotReceiver_try_recv (ca_oneshot A) e (k, s) = (r, e', (k', s')) \<Longrightarrow>
     chan_step A (k, s, M) (k', s', add_mset (OneRx e') (M - {#OneRx e#}))"
| close_oneshot: "OneRx e \<in># M \<Longrightarrow> OneshotReceiver_close (ca_oneshot A) e (k, s) = (e', (k', s')) \<Longrightarrow>
     chan_step A (k, s, M) (k', s', add_mset (OneRx e') (M - {#OneRx e#}))"
| no_endpoint: "not_about_endpoints s s' \<Longrightarrow> chan_step A (k, s, M) (k', s', M)"

inductive chan_reach :: "('k, 't, 'r, 'f, 'v) chan_api \<Rightarrow> ('k, 't, 'r) chan_sys \<Rightarrow> ('k, 't, 'r) chan_sys \<Rightarrow> bool"
  for A c0 where
  chan_start: "chan_reach A c0 c0"
| chan_next: "chan_reach A c0 c \<Longrightarrow> chan_step A c c' \<Longrightarrow> chan_reach A c0 c'"

section \<open>Every step keeps the counts\<close>

lemma next_resource_frame:
  assumes "next_async_lock_resource_id s = (r, s')"
  shows "calls s' = calls s \<and> async_channel_hook s' = async_channel_hook s
    \<and> (case r of Inl p \<Rightarrow> s' = s | Inr i \<Rightarrow> NEXT_ASYNC_LOCK_RESOURCE_ID s < NEXT_ASYNC_LOCK_RESOURCE_ID s')"
  using assms checked_add1_less
  by (auto simp: next_async_lock_resource_id_def hook_reads split: option.splits)

lemma created_view:
  assumes "next_async_lock_resource_id s = (Inr r, s1)" "async_channel_hook s \<noteq> None"
  shows "view_in (calls (notify (async_channel_hook s1) (AChannelEv (ch_created r kd)) s1))
    = (view_in (calls s))(r := (Some kd, 1, 1))"
  using next_resource_frame [OF assms(1)] assms(2) by (auto simp: fun_eq_iff)

lemma chan_inv_hook: "chan_inv s M \<Longrightarrow> async_channel_hook s \<noteq> None"
  by (simp add: chan_inv_def)

lemma creation_step:
  assumes "chan_inv s M" "next_async_lock_resource_id s = (Inr r, s1)"
    and "ep_resource e = r" "ep_resource e' = r" "ep_sends e" "\<not> ep_sends e'" "ep_whole e" "ep_whole e'"
      "ep_oneshot e = (kd = Oneshot)" "ep_oneshot e' = (kd = Oneshot)"
  shows "chan_inv (notify (async_channel_hook s1) (AChannelEv (ch_created r kd)) s1) (add_mset e (add_mset e' M))"
  using next_resource_frame [OF assms(2)] created_view [OF assms(2) chan_inv_hook [OF assms(1)]]
  by (intro chan_create [OF assms]) auto

lemma waiter_quiet:
  assumes "next_async_lock_waiter_id s = (r, s')" "chan_inv s M"
  shows "chan_inv s' M"
  using next_async_lock_waiter_id_frame [OF assms(1)]
  by (intro chan_quiet [OF assms(2)]) (simp add: not_about_endpoints_def)

lemma send_report:
  assumes "chan_inv s M" "e \<in># M" "\<not> ep_oneshot e" "r = ep_resource e"
  shows "chan_inv (notify (async_channel_hook s) (AChannelEv (ch_op_resolved r w OpSend out)) s) M"
  using assms by (auto intro: chan_send)

lemma quiet_report:
  assumes "chan_inv s M" "\<And>r v. ep_effect r e v = v"
  shows "chan_inv (notify ho e s) M"
  using assms by (intro chan_quiet [OF assms(1)]) (auto simp: not_about_endpoints_def fun_eq_iff split: option.splits)

lemma mpsc_channel_inv:
  "chan_inv s M \<Longrightarrow> mpsc_channel T n (k, s) = (Inr (tx, rx), (k', s')) \<Longrightarrow>
     chan_inv s' (add_mset (MpscTx tx) (add_mset (MpscRx rx) M))"
  "chan_inv s M \<Longrightarrow> mpsc_unbounded_channel T (k, s) = (Inr (utx, urx), (k', s')) \<Longrightarrow>
     chan_inv s' (add_mset (UnbTx utx) (add_mset (UnbRx urx) M))"
  "chan_inv s M \<Longrightarrow> watch_channel W v (k, s) = (Inr (wtx, wrx), (k', s')) \<Longrightarrow>
     chan_inv s' (add_mset (WatchTx wtx) (add_mset (WatchRx wrx) M))"
  by (auto simp: mpsc_channel_def mpsc_unbounded_channel_def watch_channel_def
      intro!: creation_step split: prod.splits sum.splits)

lemma oneshot_channel_inv:
  assumes "chan_inv s M" "oneshot_channel T (k, s) = (Inr (tx, rx), (k', s'))"
  shows "chan_inv s' (add_mset (OneTx tx) (add_mset (OneRx rx) M))"
proof -
  obtain r s1 op where new: "next_async_lock_resource_id s = (Inr r, s1)"
    and op: "next_async_lock_waiter_id (notify (async_channel_hook s1) (AChannelEv (ch_created r Oneshot)) s1) = (Inr op, s')"
    and tx: "otx_resource tx = r" "otx_inner tx \<noteq> None" "orx_resource rx = r"
    using assms(2) by (auto simp: oneshot_channel_def split: prod.splits sum.splits)
  have "chan_inv (notify (async_channel_hook s1) (AChannelEv (ch_created r Oneshot)) s1)
      (add_mset (OneTx tx) (add_mset (OneRx rx) M))"
    using tx by (intro creation_step [OF assms(1) new]) auto
  then show ?thesis by (rule waiter_quiet [OF op])
qed

lemma next_resource_fails: "next_async_lock_resource_id s = (Inl p, s') \<Longrightarrow> s' = s"
  by (auto simp: next_async_lock_resource_id_def split: option.splits)

lemma channel_fails_inv:
  "chan_inv s M \<Longrightarrow> mpsc_channel T n (k, s) = (Inl p, (k', s')) \<Longrightarrow> chan_inv s' M"
  "chan_inv s M \<Longrightarrow> mpsc_unbounded_channel T (k, s) = (Inl p, (k', s')) \<Longrightarrow> chan_inv s' M"
  "chan_inv s M \<Longrightarrow> watch_channel W v (k, s) = (Inl p, (k', s')) \<Longrightarrow> chan_inv s' M"
  by (auto simp: mpsc_channel_def mpsc_unbounded_channel_def watch_channel_def
      dest!: next_resource_fails split: prod.splits sum.splits)

lemma clone_inv:
  "chan_inv s M \<Longrightarrow> MpscTx e1 \<in># M \<Longrightarrow> MpscSender_clone T e1 (k, s) = (e1', (k', s')) \<Longrightarrow>
     chan_inv s' (add_mset (MpscTx e1') M)"
  "chan_inv s M \<Longrightarrow> UnbTx e2 \<in># M \<Longrightarrow> UnboundedSender_clone T e2 (k, s) = (e2', (k', s')) \<Longrightarrow>
     chan_inv s' (add_mset (UnbTx e2') M)"
  "chan_inv s M \<Longrightarrow> WatchTx e3 \<in># M \<Longrightarrow> WatchSender_clone W e3 (k, s) = (e3', (k', s')) \<Longrightarrow>
     chan_inv s' (add_mset (WatchTx e3') M)"
  "chan_inv s M \<Longrightarrow> WatchRx e4 \<in># M \<Longrightarrow> WatchReceiver_clone W e4 (k, s) = (e4', (k', s')) \<Longrightarrow>
     chan_inv s' (add_mset (WatchRx e4') M)"
  "chan_inv s M \<Longrightarrow> WatchTx e5 \<in># M \<Longrightarrow> WatchSender_subscribe W e5 (k, s) = (e5', (k', s')) \<Longrightarrow>
     chan_inv s' (add_mset (WatchRx e5') M)"
  by (erule (1) chan_clone; auto simp: MpscSender_clone_def UnboundedSender_clone_def WatchSender_clone_def
      WatchReceiver_clone_def WatchSender_subscribe_def split: prod.splits)+

lemma endpoint_drop_inv:
  "chan_inv s M \<Longrightarrow> MpscTx e1 \<in># M \<Longrightarrow> MpscSender_drop T e1 (k, s) = (k', s') \<Longrightarrow> chan_inv s' (M - {#MpscTx e1#})"
  "chan_inv s M \<Longrightarrow> MpscRx e2 \<in># M \<Longrightarrow> MpscReceiver_drop T e2 (k, s) = (k', s') \<Longrightarrow> chan_inv s' (M - {#MpscRx e2#})"
  "chan_inv s M \<Longrightarrow> UnbTx e3 \<in># M \<Longrightarrow> UnboundedSender_drop T e3 (k, s) = (k', s') \<Longrightarrow> chan_inv s' (M - {#UnbTx e3#})"
  "chan_inv s M \<Longrightarrow> UnbRx e4 \<in># M \<Longrightarrow> UnboundedReceiver_drop T e4 (k, s) = (k', s') \<Longrightarrow> chan_inv s' (M - {#UnbRx e4#})"
  "chan_inv s M \<Longrightarrow> WatchTx e5 \<in># M \<Longrightarrow> WatchSender_drop W e5 (k, s) = (k', s') \<Longrightarrow> chan_inv s' (M - {#WatchTx e5#})"
  "chan_inv s M \<Longrightarrow> WatchRx e6 \<in># M \<Longrightarrow> WatchReceiver_drop W e6 (k, s) = (k', s') \<Longrightarrow> chan_inv s' (M - {#WatchRx e6#})"
  by (erule (1) chan_drop; auto simp: MpscSender_drop_def MpscReceiver_drop_def UnboundedSender_drop_def
      UnboundedReceiver_drop_def WatchSender_drop_def WatchReceiver_drop_def)+

lemma chan_inv_whole: "chan_inv s M \<Longrightarrow> e \<in># M \<Longrightarrow> ep_whole e"
  by (simp add: chan_inv_def)

lemma oneshot_drop_tx_inv:
  assumes "chan_inv s M" "OneTx e \<in># M" "OneshotSender_drop T e (k, s) = (k', s')"
  shows "chan_inv s' (M - {#OneTx e#})"
  using chan_inv_whole [OF assms(1,2)] assms(3)
  by (intro chan_drop [OF assms(1,2)]) (auto simp: OneshotSender_drop_def)

lemma oneshot_drop_rx_inv:
  assumes "chan_inv s M" "OneRx e \<in># M" "OneshotReceiver_drop T e (k, s) = (k', s')"
  shows "chan_inv s' (M - {#OneRx e#})"
proof -
  obtain h where h: "async_channel_hook s = Some h" using chan_inv_hook [OF assms(1)] by auto
  define s1 where "s1 = (if orx_requested_emitted e \<and> \<not> orx_resolved e
    then notify (Some h) (AChannelEv (ch_op_dropped (orx_resource e) (orx_op e))) s else s)"
  have "chan_inv s1 M" using quiet_report [OF assms(1)] assms(1) by (auto simp: s1_def)
  moreover have "async_channel_hook s1 = Some h" "s' = notify (Some h)
      (AChannelEv (ch_endpoint_dropped (orx_resource e) SideReceiver)) s1"
    using assms(3) h by (auto simp: OneshotReceiver_drop_def s1_def)
  ultimately show ?thesis using reports_notify(4) [of "orx_resource e" s1]
    by (intro chan_drop [OF _ assms(2)]) auto
qed

lemma send_inv:
  "chan_inv s M \<Longrightarrow> MpscTx e1 \<in># M \<Longrightarrow> MpscSender_try_send T e1 v (k, s) = (r1, (k', s')) \<Longrightarrow> chan_inv s' M"
  "chan_inv s M \<Longrightarrow> UnbTx e2 \<in># M \<Longrightarrow> UnboundedSender_send T e2 v (k, s) = (r2, (k', s')) \<Longrightarrow> chan_inv s' M"
  "chan_inv s M \<Longrightarrow> WatchTx e3 \<in># M \<Longrightarrow> WatchSender_send W e3 v (k, s) = (r3, (k', s')) \<Longrightarrow> chan_inv s' M"
  by (auto simp: MpscSender_try_send_def UnboundedSender_send_def WatchSender_send_def
      dest: waiter_quiet intro!: send_report split: prod.splits sum.splits)

lemma send_poll_inv:
  assumes "chan_inv s M" "MpscTx e \<in># M" "mps_resource f = mtx_resource e"
    "ModelMpscSend_poll T f (k, s) = (r, f', (k', s'))"
  shows "chan_inv s' M"
  using assms quiet_report [OF assms(1)]
  by (auto simp: ModelMpscSend_poll_def intro!: send_report [OF assms(1,2)] split: prod.splits poll.splits if_splits)

lemma oneshot_send_inv:
  assumes "chan_inv s M" "OneTx e \<in># M" "OneshotSender_send T e v (k, s) = (Inr r, (k', s'))"
  shows "chan_inv s' (M - {#OneTx e#})"
proof -
  obtain op s1 out where "next_async_lock_waiter_id s = (Inr op, s1)"
    and s': "s' = notify (async_channel_hook s1) (AChannelEv (ch_op_resolved (otx_resource e) op OpSend out)) s1"
    using assms(3) by (auto simp: OneshotSender_send_def OneshotSender_drop_def split: option.splits prod.splits sum.splits)
  then have "chan_inv s1 M" using waiter_quiet assms(1) by blast
  then show ?thesis using s' by (intro chan_send_once [OF _ assms(2)]) auto
qed

lemma recv_inv:
  "chan_inv s M \<Longrightarrow> MpscReceiver_try_recv T e1 (k, s) = (r1, (k', s')) \<Longrightarrow> chan_inv s' M"
  "chan_inv s M \<Longrightarrow> UnboundedReceiver_try_recv T e2 (k, s) = (r2, (k', s')) \<Longrightarrow> chan_inv s' M"
  "chan_inv s M \<Longrightarrow> MpscReceiver_close T e1 (k, s) = (k', s') \<Longrightarrow> chan_inv s' M"
  "chan_inv s M \<Longrightarrow> UnboundedReceiver_close T e2 (k, s) = (k', s') \<Longrightarrow> chan_inv s' M"
  by (auto simp: MpscReceiver_try_recv_def UnboundedReceiver_try_recv_def MpscReceiver_close_def
      UnboundedReceiver_close_def dest: waiter_quiet intro!: quiet_report split: prod.splits sum.splits)

text \<open>The oneshot receiver changes in place; its channel and side stay.\<close>

lemma replace_inv:
  assumes "chan_inv s M" "OneRx e \<in># M" "orx_resource e' = orx_resource e"
  shows "chan_inv s (add_mset (OneRx e') (M - {#OneRx e#}))"
  using assms live_count_remove [OF assms(2)]
  by (auto simp: chan_inv_def dest: in_diffD)

lemma oneshot_receiver_inv:
  assumes "chan_inv s M" "OneRx e \<in># M"
  shows "OneshotReceiver_poll T e (k, s) = (r1, e', (k', s')) \<Longrightarrow> chan_inv s' (add_mset (OneRx e') (M - {#OneRx e#}))"
    and "OneshotReceiver_try_recv T e (k, s) = (r2, e', (k', s')) \<Longrightarrow> chan_inv s' (add_mset (OneRx e') (M - {#OneRx e#}))"
    and "OneshotReceiver_close T e (k, s) = (e', (k', s')) \<Longrightarrow> chan_inv s' (add_mset (OneRx e') (M - {#OneRx e#}))"
  using assms
  by (auto simp: OneshotReceiver_poll_def OneshotReceiver_try_recv_def OneshotReceiver_close_def
      dest: waiter_quiet intro!: quiet_report replace_inv split: prod.splits sum.splits poll.splits if_splits)

lemma oneshot_fails_inv:
  assumes "chan_inv s M" "oneshot_channel T (k, s) = (Inl AsyncIdExhausted, (k', s'))"
  shows "chan_inv s' M"
proof -
  have "s' = s"
    using assms(2) by (auto simp: oneshot_channel_def next_async_lock_resource_id_def next_async_lock_waiter_id_def split: prod.splits sum.splits option.splits)
  with assms(1) show ?thesis by simp
qed

lemma chan_step_inv:
  assumes "chan_step A (k, s, M) (k', s', M')" "chan_inv s M"
  shows "chan_inv s' M'"
  using assms
  by (cases rule: chan_step.cases)
    (blast intro: mpsc_channel_inv oneshot_channel_inv channel_fails_inv oneshot_fails_inv clone_inv endpoint_drop_inv oneshot_drop_tx_inv
      oneshot_drop_rx_inv send_inv send_poll_inv oneshot_send_inv recv_inv oneshot_receiver_inv chan_quiet)+

lemma chan_reach_inv: "chan_reach A c0 c \<Longrightarrow> chan_inv (fst (snd c0)) (snd (snd c0)) \<Longrightarrow>
    chan_inv (fst (snd c)) (snd (snd c))"
  by (induction rule: chan_reach.induct) (auto intro: chan_step_inv)

text \<open>(C6) The engine's count of channel endpoints is exact. From a process with an empty log, an
  installed hook and no endpoints, in every interleaving of channel creation (mpsc bounded and
  unbounded, oneshot, watch), cloning, subscription, sending, receiving, closing and dropping, the
  senders and receivers of every channel according to the log are as many as are alive; a oneshot
  sender counts as gone once its \<open>send\<close> is resolved. So the engine sees the moment the last sender
  or receiver of a channel goes away. This holds as long as no call on a oneshot channel panics for lack of waiter ids, of which there are \<open>2 ^ 64 - 1\<close>.\<close>

theorem endpoint_counts_exact:
  assumes "async_channel_hook s0 = Some h" "calls s0 = []"
    and "chan_reach A (k0, s0, {#}) (k, s, M)"
  shows "fst (snd (view_in (calls s) r)) = live_count True M r
     \<and> snd (snd (view_in (calls s) r)) = live_count False M r"
proof -
  have "chan_inv s0 {#}" using assms by (simp add: chan_inv_def)
  then have "chan_inv s M" using chan_reach_inv [OF assms(3)] by simp
  then show ?thesis unfolding chan_inv_def by blast
qed

text \<open>With the waiter ids exhausted, making a oneshot channel reports the channel and then panics, which drops both ends unreported; and a send consumes the sender
  without any report. The engine goes on counting endpoints that are gone.\<close>

lemma oneshot_exhausted:
  assumes "checked_add1 (NEXT_ASYNC_LOCK_WAITER_ID s) = None" "async_channel_hook s = Some h"
  shows "checked_add1 (NEXT_ASYNC_LOCK_RESOURCE_ID s) = Some n \<Longrightarrow> \<exists>k' s'. oneshot_channel T (k, s) = (Inl WaiterIdExhausted, (k', s'))
      \<and> calls s' = calls s @ [(h, AChannelEv (ch_created (NEXT_ASYNC_LOCK_RESOURCE_ID s) Oneshot))]"
    and "otx_inner e = Some i \<Longrightarrow> \<exists>k'. OneshotSender_send T e v (k, s) = (Inl WaiterIdExhausted, (k', s))"
  using assms by (auto simp: oneshot_channel_def OneshotSender_send_def OneshotSender_drop_def next_async_lock_resource_id_def next_async_lock_waiter_id_def
      hook_reads split: prod.split)

abbreviation slow_api :: "(bool, unit, unit, unit, nat) chan_api" where
  "slow_api \<equiv> \<lparr>ca_mpsc = slow_mpsc, ca_oneshot = slow_oneshot, ca_watch = slow_watch\<rparr>"

lemma chan_demo:
  "\<exists>s. chan_reach slow_api (False, chan_rt, {#})
     (False, s, {#UnbTx \<lparr>utx_inner = (), utx_resource = 1\<rparr>, UnbTx \<lparr>utx_inner = (), utx_resource = 1\<rparr>,
        UnbRx \<lparr>urx_inner = (), urx_resource = 1\<rparr>#})"
proof -
  let ?tx = "\<lparr>utx_inner = (), utx_resource = 1\<rparr>"
  let ?rx = "\<lparr>urx_inner = (), urx_resource = 1\<rparr>"
  let ?s1 = "notify (Some 0) (AChannelEv (ch_created 1 MpscUnbounded))
    (chan_rt\<lparr>NEXT_ASYNC_LOCK_RESOURCE_ID := 2\<rparr>)"
  let ?s2 = "notify (async_channel_hook ?s1) (AChannelEv (ch_endpoint_cloned 1 SideSender)) ?s1"
  have new: "mpsc_unbounded_channel slow_mpsc (False, chan_rt) = (Inr (?tx, ?rx), (False, ?s1))"
    by (simp add: mpsc_unbounded_channel_def slow_mpsc_def chan_rt_def rt_init_def hook_installs hook_reads
        next_async_lock_resource_id_def checked_add1_def slot_install_def slot_get_def)
  have clone: "UnboundedSender_clone slow_mpsc ?tx (False, ?s1) = (?tx, (False, ?s2))"
    by (simp add: UnboundedSender_clone_def slow_mpsc_def)
  have "chan_step slow_api (False, chan_rt, {#}) (False, ?s1, {#UnbTx ?tx, UnbRx ?rx#})"
    using chan_step.new_unbounded [of slow_api False chan_rt ?tx ?rx False ?s1 "{#}"] new by simp
  moreover have "chan_step slow_api (False, ?s1, {#UnbTx ?tx, UnbRx ?rx#})
      (False, ?s2, {#UnbTx ?tx, UnbTx ?tx, UnbRx ?rx#})"
    using chan_step.clone_unbounded [of ?tx "{#UnbTx ?tx, UnbRx ?rx#}" slow_api False ?s1 ?tx False ?s2] clone
    by simp
  ultimately show ?thesis by (meson chan_start chan_next)
qed

theorem endpoint_counts_exact_witness:
  "\<exists>k s M. chan_reach slow_api (False, chan_rt, {#}) (k, s, M)
     \<and> fst (snd (view_in (calls s) 1)) = 2 \<and> snd (snd (view_in (calls s) 1)) = 1"
proof -
  obtain s where run: "chan_reach slow_api (False, chan_rt, {#})
     (False, s, {#UnbTx \<lparr>utx_inner = (), utx_resource = 1\<rparr>, UnbTx \<lparr>utx_inner = (), utx_resource = 1\<rparr>,
        UnbRx \<lparr>urx_inner = (), urx_resource = 1\<rparr>#})" using chan_demo by blast
  have "async_channel_hook chan_rt = Some 0" "calls chan_rt = []"
    by (simp_all add: chan_rt_def hook_installs hook_reads rt_init_def)
  note counts = endpoint_counts_exact [OF this run, of 1]
  show ?thesis by (intro exI, rule conjI, rule run) (use counts in simp)
qed

section \<open>The broadcast channel\<close>

text \<open>
  One broadcast channel: the shared counter, the library's state, the runtime, the number of
  senders and the ids of the receivers. The operations run one after the other; the counter is
  moved after the real send, so a subscription that another thread makes between the two may
  report the position before that send.
\<close>

record ('k, 't, 'r) bc_sys =
  bs_seq :: u64
  bs_tk :: 'k
  bs_rt :: rt
  bs_tx :: "'t BroadcastSender multiset"
  bs_rx :: "'r BroadcastReceiver multiset"

definition is_ok_send :: "u64 \<Rightarrow> HookCall \<Rightarrow> bool" where
  "is_ok_send r e \<longleftrightarrow> (\<exists>w n. e = ABroadcastEv (bc_op_resolved r w None BSend (BOk n)))"

definition ok_sends :: "u64 \<Rightarrow> (hook \<times> HookCall) list \<Rightarrow> nat" where
  "ok_sends r log = length (filter (is_ok_send r) (map snd log))"

text \<open>Every subscription of the log reports the number of successful sends before it.\<close>

definition positions_ok :: "u64 \<Rightarrow> (hook \<times> HookCall) list \<Rightarrow> bool" where
  "positions_ok r log \<longleftrightarrow> (\<forall>us h i q vs. log = us @ (h, ABroadcastEv (bc_subscribed r i q)) # vs \<longrightarrow>
     q = of_nat (ok_sends r us))"

lemma ok_sends_snoc [simp]:
  "ok_sends r (log @ [(h, e)]) = ok_sends r log + (if is_ok_send r e then 1 else 0)"
  by (simp add: ok_sends_def)

lemma ok_sends_Nil [simp]: "ok_sends r [] = 0"
  by (simp add: ok_sends_def)

lemma positions_ok_Nil [simp]: "positions_ok r []"
  by (simp add: positions_ok_def)

lemma positions_ok_snoc:
  "positions_ok r (log @ [(h, e)]) \<longleftrightarrow> positions_ok r log
     \<and> (\<forall>i q. e = ABroadcastEv (bc_subscribed r i q) \<longrightarrow> q = of_nat (ok_sends r log))"
  (is "?l \<longleftrightarrow> ?r")
proof
  assume l: ?l
  then show ?r unfolding positions_ok_def by (metis append.assoc append_Cons append_Nil)
next
  assume r: ?r
  show ?l
    unfolding positions_ok_def
  proof (intro allI impI)
    fix us h' i q vs
    assume eq: "log @ [(h, e)] = us @ (h', ABroadcastEv (bc_subscribed r i q)) # vs"
    show "q = of_nat (ok_sends r us)"
    proof (cases vs rule: rev_cases)
      case Nil
      then show ?thesis using eq r by auto
    next
      case (snoc vs' v)
      then have "log = us @ (h', ABroadcastEv (bc_subscribed r i q)) # vs'" using eq by auto
      then show ?thesis using r by (auto simp: positions_ok_def)
    qed
  qed
qed

text \<open>The receivers according to the log: subscribed and not dropped since.\<close>

fun rx_effect :: "u64 \<Rightarrow> HookCall \<Rightarrow> u64 set \<Rightarrow> u64 set" where
  "rx_effect r (ABroadcastEv (bc_subscribed r' i q)) R = (if r' = r then insert i R else R)"
| "rx_effect r (ABroadcastEv (bc_endpoint_dropped r' SideReceiver (Some i))) R = (if r' = r then R - {i} else R)"
| "rx_effect r e R = R"

definition rx_in :: "u64 \<Rightarrow> (hook \<times> HookCall) list \<Rightarrow> u64 set" where
  "rx_in r log = fold (\<lambda>(h, e). rx_effect r e) log {}"

lemma rx_in_Nil [simp]: "rx_in r [] = {}"
  by (simp add: rx_in_def)

lemma rx_in_snoc [simp]: "rx_in r (log @ [(h, e)]) = rx_effect r e (rx_in r log)"
  by (simp add: rx_in_def)

definition not_about_broadcast :: "u64 \<Rightarrow> rt \<Rightarrow> rt \<Rightarrow> bool" where
  "not_about_broadcast r s s' \<longleftrightarrow> async_broadcast_hook s' = async_broadcast_hook s
     \<and> NEXT_ASYNC_LOCK_WAITER_ID s \<le> NEXT_ASYNC_LOCK_WAITER_ID s'
     \<and> ok_sends r (calls s') = ok_sends r (calls s) \<and> positions_ok r (calls s') = positions_ok r (calls s)
     \<and> rx_in r (calls s') = rx_in r (calls s)"

inductive bc_step :: "('k, 't, 'r, 'f, 'v) tokio_broadcast \<Rightarrow> u64 \<Rightarrow> ('k, 't, 'r) bc_sys \<Rightarrow> ('k, 't, 'r) bc_sys \<Rightarrow> bool"
  for B res where
  bc_clone: "e \<in># bs_tx c \<Longrightarrow> BroadcastSender_clone B e (bs_tk c, bs_rt c) = (e', (k', s')) \<Longrightarrow>
     bc_step B res c (c\<lparr>bs_tk := k', bs_rt := s', bs_tx := add_mset e' (bs_tx c)\<rparr>)"
| bc_drop_tx: "e \<in># bs_tx c \<Longrightarrow> BroadcastSender_drop B e (bs_tk c, bs_rt c) = (k', s') \<Longrightarrow>
     bc_step B res c (c\<lparr>bs_tk := k', bs_rt := s', bs_tx := bs_tx c - {#e#}\<rparr>)"
| bc_send: "e \<in># bs_tx c \<Longrightarrow> BroadcastSender_send B e v (bs_seq c, bs_tk c, bs_rt c) = (r, (q', k', s')) \<Longrightarrow>
     bc_step B res c (c\<lparr>bs_seq := q', bs_tk := k', bs_rt := s'\<rparr>)"
| bc_subscribe: "e \<in># bs_tx c \<Longrightarrow> BroadcastSender_subscribe B e (bs_seq c, bs_tk c, bs_rt c) = (Inr rx, (q', k', s')) \<Longrightarrow>
     bc_step B res c (c\<lparr>bs_seq := q', bs_tk := k', bs_rt := s', bs_rx := add_mset rx (bs_rx c)\<rparr>)"
| bc_subscribe_fails: "e \<in># bs_tx c \<Longrightarrow> BroadcastSender_subscribe B e (bs_seq c, bs_tk c, bs_rt c) = (Inl p, (q', k', s')) \<Longrightarrow>
     bc_step B res c (c\<lparr>bs_seq := q', bs_tk := k', bs_rt := s'\<rparr>)"
| bc_resubscribe: "e' \<in># bs_rx c \<Longrightarrow> BroadcastReceiver_resubscribe B e' (bs_seq c, bs_tk c, bs_rt c) = (Inr rx, (q', k', s')) \<Longrightarrow>
     bc_step B res c (c\<lparr>bs_seq := q', bs_tk := k', bs_rt := s', bs_rx := add_mset rx (bs_rx c)\<rparr>)"
| bc_try_recv: "e' \<in># bs_rx c \<Longrightarrow> BroadcastReceiver_try_recv B e' (bs_tk c, bs_rt c) = (r', (k', s')) \<Longrightarrow>
     bc_step B res c (c\<lparr>bs_tk := k', bs_rt := s'\<rparr>)"
| bc_drop_rx: "e' \<in># bs_rx c \<Longrightarrow> BroadcastReceiver_drop B e' (bs_tk c, bs_rt c) = (k', s') \<Longrightarrow>
     bc_step B res c (c\<lparr>bs_tk := k', bs_rt := s', bs_rx := bs_rx c - {#e'#}\<rparr>)"
| bc_others: "not_about_broadcast res (bs_rt c) s' \<Longrightarrow> bc_step B res c (c\<lparr>bs_tk := k', bs_rt := s'\<rparr>)"

inductive bc_reach :: "('k, 't, 'r, 'f, 'v) tokio_broadcast \<Rightarrow> u64 \<Rightarrow> ('k, 't, 'r) bc_sys \<Rightarrow> ('k, 't, 'r) bc_sys \<Rightarrow> bool"
  for B res c0 where
  bc_start: "bc_reach B res c0 c0"
| bc_next: "bc_reach B res c0 c \<Longrightarrow> bc_step B res c c' \<Longrightarrow> bc_reach B res c0 c'"

definition bc_inv :: "u64 \<Rightarrow> ('k, 't, 'r) bc_sys \<Rightarrow> bool" where
  "bc_inv res c \<longleftrightarrow> async_broadcast_hook (bs_rt c) \<noteq> None
     \<and> bs_seq c = of_nat (ok_sends res (calls (bs_rt c)))
     \<and> positions_ok res (calls (bs_rt c))
     \<and> rx_in res (calls (bs_rt c)) = set_mset (image_mset brx_id (bs_rx c))
     \<and> (\<forall>i. count (image_mset brx_id (bs_rx c)) i \<le> 1)
     \<and> (\<forall>e. e \<in># bs_tx c \<longrightarrow> btx_resource e = res)
     \<and> (\<forall>e. e \<in># bs_rx c \<longrightarrow> brx_resource e = res \<and> brx_id e < NEXT_ASYNC_LOCK_WAITER_ID (bs_rt c))"

lemma is_ok_send_simps [simp]:
  "is_ok_send r (ABroadcastEv (bc_op_resolved r' w x k out)) \<longleftrightarrow> r' = r \<and> x = None \<and> k = BSend \<and> (\<exists>n. out = BOk n)"
  "\<not> is_ok_send r (ABroadcastEv (bc_op_requested r' w x k))"
  "\<not> is_ok_send r (ABroadcastEv (bc_subscribed r' i q))"
  "\<not> is_ok_send r (ABroadcastEv (bc_endpoint_cloned r' sd x))"
  "\<not> is_ok_send r (ABroadcastEv (bc_endpoint_dropped r' sd x))"
  "\<not> is_ok_send r (ABroadcastEv (bc_created r' n))"
  by (auto simp: is_ok_send_def)

lemma broadcast_notify:
  "ok_sends r (calls (notify ho e s)) = ok_sends r (calls s) + (if ho \<noteq> None \<and> is_ok_send r e then 1 else 0)"
  "positions_ok r (calls (notify ho e s)) \<longleftrightarrow> positions_ok r (calls s)
     \<and> (ho \<noteq> None \<longrightarrow> (\<forall>i q. e = ABroadcastEv (bc_subscribed r i q) \<longrightarrow> q = of_nat (ok_sends r (calls s))))"
  "rx_in r (calls (notify ho e s)) = (if ho \<noteq> None then rx_effect r e (rx_in r (calls s)) else rx_in r (calls s))"
  by (auto simp: positions_ok_snoc split: option.splits)

lemma image_mset_remove_unique:
  assumes "e \<in># M" "count (image_mset f M) (f e) \<le> 1"
  shows "set_mset (image_mset f (M - {#e#})) = set_mset (image_mset f M) - {f e}"
proof -
  have eq: "image_mset f M = add_mset (f e) (image_mset f (M - {#e#}))"
    using assms(1) by (metis image_mset_add_mset insert_DiffM)
  then have "count (image_mset f (M - {#e#})) (f e) = 0" using assms(2) by simp
  then have "f e \<notin># image_mset f (M - {#e#})" by (simp only: not_in_iff)
  then show ?thesis unfolding eq by auto
qed

lemma count_image_remove: "count (image_mset f (M - {#e#})) i \<le> count (image_mset f M) i"
  by (metis diff_subset_eq_self image_mset_subseteq_mono mset_subset_eq_count)

text \<open>The three effects of a step on the runtime that matter: the sends counted, the positions and
  the receivers.\<close>

lemma bc_inv_frame:
  assumes "bc_inv res c" "async_broadcast_hook s' = async_broadcast_hook (bs_rt c)"
    "NEXT_ASYNC_LOCK_WAITER_ID (bs_rt c) \<le> NEXT_ASYNC_LOCK_WAITER_ID s'"
    "q' = of_nat (ok_sends res (calls s'))" "positions_ok res (calls s')"
    "rx_in res (calls s') = rx_in res (calls (bs_rt c))"
  shows "bc_inv res (c\<lparr>bs_seq := q', bs_tk := k', bs_rt := s'\<rparr>)"
  using assms by (auto simp: bc_inv_def intro: less_le_trans)

lemma bc_inv_receiver:
  assumes inv: "bc_inv res c" and hook: "async_broadcast_hook s' = async_broadcast_hook (bs_rt c)"
    and rx: "brx_resource rx = res" "NEXT_ASYNC_LOCK_WAITER_ID (bs_rt c) \<le> brx_id rx"
      "brx_id rx < NEXT_ASYNC_LOCK_WAITER_ID s'"
    and log: "bs_seq c = of_nat (ok_sends res (calls s'))" "positions_ok res (calls s')"
      "rx_in res (calls s') = insert (brx_id rx) (rx_in res (calls (bs_rt c)))"
  shows "bc_inv res (c\<lparr>bs_seq := bs_seq c, bs_tk := k', bs_rt := s', bs_rx := add_mset rx (bs_rx c)\<rparr>)"
proof -
  have fresh: "brx_id rx \<notin># image_mset brx_id (bs_rx c)"
    using inv rx(2) by (auto simp: bc_inv_def)
  have old: "e \<in># bs_rx c \<Longrightarrow> brx_id e < NEXT_ASYNC_LOCK_WAITER_ID s'" for e
    using inv rx(2,3) by (auto simp: bc_inv_def intro: less_trans less_le_trans)
  have "count (add_mset (brx_id rx) (image_mset brx_id (bs_rx c))) i \<le> 1" for i
    using inv fresh unfolding bc_inv_def by (auto simp: not_in_iff [symmetric])
  then show ?thesis using assms old by (auto simp: bc_inv_def)
qed

lemma waiter_frame_b:
  assumes "next_async_lock_waiter_id s = (Inr w, s')"
  shows "calls s' = calls s" "async_broadcast_hook s' = async_broadcast_hook s"
    "w = NEXT_ASYNC_LOCK_WAITER_ID s" "NEXT_ASYNC_LOCK_WAITER_ID s < NEXT_ASYNC_LOCK_WAITER_ID s'"
  using next_async_lock_waiter_id_frame [OF assms] by auto

lemma bc_send_inv:
  assumes inv: "bc_inv res c" and e: "e \<in># bs_tx c"
    and op: "BroadcastSender_send B e v (bs_seq c, bs_tk c, bs_rt c) = (r, (q', k', s'))"
  shows "bc_inv res (c\<lparr>bs_seq := q', bs_tk := k', bs_rt := s'\<rparr>)"
proof -
  have res: "btx_resource e = res" and hook: "async_broadcast_hook (bs_rt c) \<noteq> None"
    and seq: "bs_seq c = of_nat (ok_sends res (calls (bs_rt c)))" and pos: "positions_ok res (calls (bs_rt c))"
    using inv e by (auto simp: bc_inv_def)
  show ?thesis
  proof (cases "next_async_lock_waiter_id (bs_rt c)")
    case (Pair a s1)
    show ?thesis
    proof (cases a)
      case (Inl p)
      then have "s1 = bs_rt c" using next_async_lock_waiter_id_frame [OF Pair] by simp
      then have "q' = bs_seq c" "s' = bs_rt c" using op Pair Inl by (auto simp: BroadcastSender_send_def)
      then show ?thesis using seq pos by (intro bc_inv_frame [OF inv]) auto
    next
      case (Inr w)
      note fr = waiter_frame_b [OF Pair [unfolded Inr]]
      from op Pair Inr fr res hook seq pos show ?thesis
        by (intro bc_inv_frame [OF inv])
          (auto simp: BroadcastSender_send_def Let_def broadcast_notify simp del: calls_notify split: prod.splits sum.splits)
    qed
  qed
qed

lemma bc_subscribe_inv:
  assumes inv: "bc_inv res c" and e: "e \<in># bs_tx c"
    and op: "BroadcastSender_subscribe B e (bs_seq c, bs_tk c, bs_rt c) = (Inr rx, (q', k', s'))"
  shows "bc_inv res (c\<lparr>bs_seq := q', bs_tk := k', bs_rt := s', bs_rx := add_mset rx (bs_rx c)\<rparr>)"
proof -
  have res: "btx_resource e = res" and hook: "async_broadcast_hook (bs_rt c) \<noteq> None"
    and seq: "bs_seq c = of_nat (ok_sends res (calls (bs_rt c)))" and pos: "positions_ok res (calls (bs_rt c))"
    using inv e by (auto simp: bc_inv_def)
  obtain w s1 where id1: "next_async_lock_waiter_id (bs_rt c) = (Inr w, s1)"
    and q: "q' = bs_seq c"
    using op by (auto simp: BroadcastSender_subscribe_def Let_def split: prod.splits sum.splits)
  note fr = waiter_frame_b [OF id1]
  from op id1 fr res hook seq pos show ?thesis unfolding q
    by (intro bc_inv_receiver [OF inv])
      (auto simp: BroadcastSender_subscribe_def Let_def broadcast_notify simp del: calls_notify split: prod.splits)
qed

lemma bc_resubscribe_inv:
  assumes inv: "bc_inv res c" and e: "e \<in># bs_rx c"
    and op: "BroadcastReceiver_resubscribe B e (bs_seq c, bs_tk c, bs_rt c) = (Inr rx, (q', k', s'))"
  shows "bc_inv res (c\<lparr>bs_seq := q', bs_tk := k', bs_rt := s', bs_rx := add_mset rx (bs_rx c)\<rparr>)"
proof -
  have res: "brx_resource e = res" and hook: "async_broadcast_hook (bs_rt c) \<noteq> None"
    and seq: "bs_seq c = of_nat (ok_sends res (calls (bs_rt c)))" and pos: "positions_ok res (calls (bs_rt c))"
    using inv e by (auto simp: bc_inv_def)
  obtain w s1 w2 s2 where id1: "next_async_lock_waiter_id (bs_rt c) = (Inr w, s1)"
    and id2: "next_async_lock_waiter_id s1 = (Inr w2, s2)" and q: "q' = bs_seq c"
    using op by (auto simp: BroadcastReceiver_resubscribe_def Let_def split: prod.splits sum.splits)
  note fr = waiter_frame_b [OF id1] waiter_frame_b [OF id2]
  from op id1 id2 fr res hook seq pos show ?thesis unfolding q
    by (intro bc_inv_receiver [OF inv])
      (auto simp: BroadcastReceiver_resubscribe_def Let_def broadcast_notify simp del: calls_notify split: prod.splits)
qed

lemma bc_quiet_inv:
  assumes "bc_inv res c" "not_about_broadcast res (bs_rt c) s'"
  shows "bc_inv res (c\<lparr>bs_tk := k', bs_rt := s'\<rparr>)"
  using bc_inv_frame [OF assms(1), of s' "bs_seq c" k'] assms
  by (auto simp: not_about_broadcast_def bc_inv_def intro: less_le_trans)

lemma bc_fails_quiet:
  assumes "BroadcastSender_subscribe B e (bs_seq c, bs_tk c, bs_rt c) = (Inl p, (q', k', s'))"
  shows "q' = bs_seq c \<and> s' = bs_rt c"
  using assms next_async_lock_waiter_id_frame [of "bs_rt c"]
  by (auto simp: BroadcastSender_subscribe_def Let_def split: prod.splits sum.splits)

lemma bc_try_recv_quiet:
  assumes "BroadcastReceiver_try_recv B e (k, s) = (r, (k', s'))"
  shows "not_about_broadcast res s s'"
proof (cases "next_async_lock_waiter_id s")
  case (Pair a s1)
  show ?thesis
  proof (cases a)
    case (Inl p)
    then show ?thesis using assms next_async_lock_waiter_id_frame [OF Pair] Pair
      by (simp add: BroadcastReceiver_try_recv_def not_about_broadcast_def)
  next
    case (Inr w)
    note fr = waiter_frame_b [OF Pair [unfolded Inr]]
    from assms Pair Inr fr show ?thesis
      by (auto simp: BroadcastReceiver_try_recv_def not_about_broadcast_def broadcast_notify
          simp del: calls_notify split: prod.splits if_splits)
  qed
qed

lemma bc_step_inv:
  assumes "bc_step B res c c'" "bc_inv res c"
  shows "bc_inv res c'"
  using assms
proof (induction rule: bc_step.induct)
  case (bc_clone e c e' k' s')
  then have "not_about_broadcast res (bs_rt c) s'" "btx_resource e' = res"
    by (auto simp: BroadcastSender_clone_def not_about_broadcast_def broadcast_notify bc_inv_def Let_def
        simp del: calls_notify split: prod.splits)
  from bc_quiet_inv [OF bc_clone(3) this(1), of k'] this(2) show ?case by (auto simp: bc_inv_def)
next
  case (bc_drop_tx e c k' s')
  then have "not_about_broadcast res (bs_rt c) s'"
    by (auto simp: BroadcastSender_drop_def not_about_broadcast_def broadcast_notify simp del: calls_notify
        split: if_splits)
  from bc_quiet_inv [OF bc_drop_tx(3) this, of k'] show ?case by (auto simp: bc_inv_def dest: in_diffD)
next
  case (bc_subscribe_fails e c p q' k' s')
  from bc_fails_quiet [OF bc_subscribe_fails(2)] bc_subscribe_fails(3) show ?case by (simp add: bc_inv_def)
next
  case (bc_drop_rx e' c k' s')
  then have e: "brx_resource e' = res" "count (image_mset brx_id (bs_rx c)) (brx_id e') \<le> 1"
    unfolding bc_inv_def by blast+
  note rm = image_mset_remove_unique [OF bc_drop_rx(1) e(2)]
  have "count (image_mset brx_id (bs_rx c - {#e'#})) i \<le> 1" for i
    using count_image_remove [of brx_id "bs_rx c" e' i] bc_drop_rx(3) unfolding bc_inv_def
    by (meson order_trans)
  with bc_drop_rx e rm show ?case
    by (auto simp: bc_inv_def BroadcastReceiver_drop_def broadcast_notify simp del: calls_notify dest: in_diffD)
qed (auto intro: bc_send_inv bc_subscribe_inv bc_resubscribe_inv bc_quiet_inv bc_try_recv_quiet)

lemma bc_reach_inv: "bc_reach B res c0 c \<Longrightarrow> bc_inv res c0 \<Longrightarrow> bc_inv res c"
  by (induction rule: bc_reach.induct) (auto intro: bc_step_inv)

lemma broadcast_channel_inv:
  assumes "broadcast_channel B n (k, s) = (Inr (tx, rx, q), (k', s'))" "async_broadcast_hook s \<noteq> None" "calls s = []"
  shows "bc_inv (btx_resource tx) \<lparr>bs_seq = q, bs_tk = k', bs_rt = s', bs_tx = {#tx#}, bs_rx = {#rx#}\<rparr>"
proof -
  obtain r s1 w s2 where id1: "next_async_lock_resource_id s = (Inr r, s1)"
    and id2: "next_async_lock_waiter_id s1 = (Inr w, s2)"
    using assms(1) by (auto simp: broadcast_channel_def Let_def split: prod.splits sum.splits)
  have "calls s1 = []" "async_broadcast_hook s1 = async_broadcast_hook s"
    using next_async_lock_resource_id_frame [of s] id1 assms(3) by auto
  then show ?thesis using assms id1 id2 waiter_frame_b [OF id2]
    by (auto simp: broadcast_channel_def bc_inv_def Let_def broadcast_notify simp del: calls_notify
        split: prod.splits)
qed

text \<open>(C15) A broadcast channel's evidence is exact. From its creation under a hook, in every sequence
  of sends, clones, subscriptions, resubscriptions, receives and drops, the counter is the number of
  successful sends in the log (modulo its 64 bits), every reported subscription position is the
  number of successful sends before it, and the receivers that the log shows as subscribed and not
  dropped are exactly the live ones, under pairwise different ids.\<close>

theorem broadcast_evidence_exact:
  assumes "broadcast_channel B n (k, s) = (Inr (tx, rx, q), (k', s'))"
    and "async_broadcast_hook s = Some h" "calls s = []"
    and "bc_reach B (btx_resource tx)
           \<lparr>bs_seq = q, bs_tk = k', bs_rt = s', bs_tx = {#tx#}, bs_rx = {#rx#}\<rparr> c"
  shows "bs_seq c = of_nat (ok_sends (btx_resource tx) (calls (bs_rt c)))
    \<and> positions_ok (btx_resource tx) (calls (bs_rt c))
    \<and> rx_in (btx_resource tx) (calls (bs_rt c)) = brx_id ` set_mset (bs_rx c)
    \<and> (\<forall>i. count (image_mset brx_id (bs_rx c)) i \<le> 1)"
proof -
  have "bc_inv (btx_resource tx) c"
    using bc_reach_inv [OF assms(4) broadcast_channel_inv [OF assms(1)]] assms(2,3) by simp
  then show ?thesis by (simp add: bc_inv_def)
qed

lemma broadcast_demo:
  "broadcast_channel slow_broadcast 4 (False, chan_rt) =
     (Inr (\<lparr>btx_inner = (), btx_resource = 1\<rparr>, \<lparr>brx_inner = (), brx_resource = 1, brx_id = 1\<rparr>, 0),
      (False, notify (Some 0) (ABroadcastEv (bc_subscribed 1 1 0)) (notify (Some 0) (ABroadcastEv (bc_created 1 4))
         (chan_rt\<lparr>NEXT_ASYNC_LOCK_RESOURCE_ID := 2, NEXT_ASYNC_LOCK_WAITER_ID := 2\<rparr>))))"
  by (simp add: broadcast_channel_def slow_broadcast_def chan_rt_def rt_init_def hook_installs hook_reads
      next_async_lock_resource_id_def next_async_lock_waiter_id_def checked_add1_def slot_install_def slot_get_def
      Let_def)

text \<open>After one send the log of the new channel holds one successful send and the counter is 1.\<close>

theorem broadcast_evidence_exact_witness:
  "\<exists>c. bc_reach slow_broadcast 1 \<lparr>bs_seq = 0, bs_tk = False, bs_rt = notify (Some 0)
       (ABroadcastEv (bc_subscribed 1 1 0)) (notify (Some 0) (ABroadcastEv (bc_created 1 4))
         (chan_rt\<lparr>NEXT_ASYNC_LOCK_RESOURCE_ID := 2, NEXT_ASYNC_LOCK_WAITER_ID := 2\<rparr>)),
       bs_tx = {#\<lparr>btx_inner = (), btx_resource = 1\<rparr>#}, bs_rx = {#\<lparr>brx_inner = (), brx_resource = 1, brx_id = 1\<rparr>#}\<rparr> c
     \<and> bs_seq c = 1 \<and> 1 = (of_nat (ok_sends 1 (calls (bs_rt c))) :: u64) \<and> rx_in 1 (calls (bs_rt c)) = {1}"
    (is "\<exists>c. bc_reach _ _ ?c0 c \<and> _")
proof -
  let ?tx = "\<lparr>btx_inner = (), btx_resource = 1\<rparr>"
  have hooks: "async_broadcast_hook chan_rt = Some 0" "calls chan_rt = []"
    by (simp_all add: chan_rt_def hook_installs hook_reads rt_init_def)
  obtain r s' where "BroadcastSender_send slow_broadcast ?tx 7 (bs_seq ?c0, bs_tk ?c0, bs_rt ?c0) = (r, (1, False, s'))"
    by (simp add: BroadcastSender_send_def slow_broadcast_def next_async_lock_waiter_id_def checked_add1_def
        notify_def Let_def)
  then have step: "bc_step slow_broadcast 1 ?c0 (?c0\<lparr>bs_seq := 1, bs_tk := False, bs_rt := s'\<rparr>)"
    using bc_step.bc_send [of ?tx ?c0 slow_broadcast] by simp
  note run = bc_next [OF bc_start step]
  from broadcast_evidence_exact [OF broadcast_demo hooks, of "?c0\<lparr>bs_seq := 1, bs_tk := False, bs_rt := s'\<rparr>"] run
  have exact: "1 = (of_nat (ok_sends 1 (calls s')) :: u64) \<and> rx_in 1 (calls s') = {1}" by simp
  show ?thesis by (rule exI, rule conjI, rule run) (use exact in simp)
qed

end
