(* ===== verification/VirtualTime.thy ===== *)
theory VirtualTime
  imports Ids
begin

text \<open>
  The virtual-clock timers of \<^verbatim>\<open>async_time.rs\<close>: \<open>Sleep\<close>, \<open>Timeout\<close> and \<open>Interval\<close>. The clock
  belongs to the hook: every answer of \<open>now_nanos\<close> is an argument of the poll that asks for it, the
  first for the poll that starts the timer and the second for the check against the deadline. The
  real tokio timers of the unhooked mode are a parameter.
\<close>

section \<open>Durations\<close>

text \<open>\<open>std::time::Duration\<close>: seconds and a sub-second part; \<open>as_nanos\<close> fits 128 bits, so the natural
  number is exact.\<close>

datatype Duration = Duration (dur_secs: u64) (dur_nanos: u32)

definition as_nanos :: "Duration \<Rightarrow> nat" where
  "as_nanos d = unat (dur_secs d) * 1000000000 + unat (dur_nanos d)"

definition duration_to_nanos_saturating :: "Duration \<Rightarrow> u64" where
  "duration_to_nanos_saturating d =
     (if as_nanos d < 2 ^ 64 then of_nat (as_nanos d) else U64_MAX)"

lemma unat_duration_to_nanos:
  "unat (duration_to_nanos_saturating d) = min (as_nanos d) (2 ^ 64 - 1)"
  by (auto simp: duration_to_nanos_saturating_def unat_of_nat_u64 unat_U64_MAX)

datatype Elapsed = Elapsed

section \<open>Sleep\<close>

record ('k, 'z, 'i, 'x) tokio_time =
  tt_sleep :: "Duration \<Rightarrow> 'k \<Rightarrow> 'z \<times> 'k"
  tt_poll_sleep :: "'z \<Rightarrow> 'k \<Rightarrow> unit poll \<times> 'z \<times> 'k"
  tt_interval :: "Duration \<Rightarrow> 'k \<Rightarrow> 'i \<times> 'k"
  tt_poll_tick :: "'i \<Rightarrow> 'k \<Rightarrow> 'x poll \<times> 'i \<times> 'k"
  tt_instant_now :: "'k \<Rightarrow> 'x"

datatype 'z SleepState =
    SleepUnstarted Duration
  | SleepHooked u64 u64 hook
  | SleepUnhooked 'z

record 'z Sleep =
  sl_state :: "'z SleepState"
  sl_resolved :: bool

definition sleep :: "Duration \<Rightarrow> 'z Sleep" where
  "sleep d = \<lparr>sl_state = SleepUnstarted d, sl_resolved = False\<rparr>"

definition Sleep_start :: "('k, 'z, 'i, 'x) tokio_time \<Rightarrow> u64 \<Rightarrow> 'z Sleep \<Rightarrow> 'k \<times> rt
    \<Rightarrow> (panic + unit) \<times> 'z Sleep \<times> ('k \<times> rt)" where
  "Sleep_start T now sl = (\<lambda>(k, s).
     case sl_state sl of
       SleepHooked timer deadline h \<Rightarrow> (Inr (), sl, (k, s))
     | SleepUnhooked z \<Rightarrow> (Inr (), sl, (k, s))
     | SleepUnstarted d \<Rightarrow>
         (case async_timer_hook s of
            Some h \<Rightarrow>
              (case next_async_lock_waiter_id s of
                 (Inl p, s') \<Rightarrow> (Inl p, sl, (k, s'))
               | (Inr timer, s') \<Rightarrow>
                   (Inr (), sl\<lparr>sl_state := SleepHooked timer
                       (saturating_add now (duration_to_nanos_saturating d)) h\<rparr>, (k, s')))
          | None \<Rightarrow>
              (case tt_sleep T d k of (z, k') \<Rightarrow> (Inr (), sl\<lparr>sl_state := SleepUnhooked z\<rparr>, (k', s)))))"

definition Sleep_poll :: "('k, 'z, 'i, 'x) tokio_time \<Rightarrow> u64 \<Rightarrow> u64 \<Rightarrow> 'z Sleep \<Rightarrow> 'k \<times> rt
    \<Rightarrow> (panic + unit poll) \<times> 'z Sleep \<times> ('k \<times> rt)" where
  "Sleep_poll T now0 now1 sl w =
     (case Sleep_start T now0 sl w of
        (Inl p, sl', w') \<Rightarrow> (Inl p, sl', w')
      | (Inr _, this, (k, s)) \<Rightarrow>
          (case sl_state this of
             SleepUnstarted d \<Rightarrow> (Inl Unreachable, this, (k, s))
           | SleepHooked timer deadline h \<Rightarrow>
               if deadline \<le> now1
               then (Inr (Ready ()), this\<lparr>sl_resolved := True\<rparr>, (k, s))
               else (Inr Pending, this, (k, notify (Some h) (ATimerEv (timer_register timer deadline)) s))
           | SleepUnhooked z \<Rightarrow>
               (case tt_poll_sleep T z k of
                  (p, z', k') \<Rightarrow>
                    (Inr p, this\<lparr>sl_state := SleepUnhooked z',
                               sl_resolved := (is_ready p \<or> sl_resolved this)\<rparr>, (k', s)))))"

definition Sleep_drop :: "'z Sleep \<Rightarrow> 'k \<times> rt \<Rightarrow> 'k \<times> rt" where
  "Sleep_drop sl = (\<lambda>(k, s).
     if sl_resolved sl then (k, s)
     else (case sl_state sl of
             SleepHooked timer deadline h \<Rightarrow> (k, notify (Some h) (ATimerEv (timer_dropped timer)) s)
           | _ \<Rightarrow> (k, s)))"

section \<open>Timeout\<close>

record ('z, 'u) Timeout =
  to_future :: 'u
  to_delay :: "'z Sleep"

definition timeout :: "Duration \<Rightarrow> 'u \<Rightarrow> ('z, 'u) Timeout" where
  "timeout d f = \<lparr>to_future = f, to_delay = sleep d\<rparr>"

text \<open>The wrapped future is any future: its poll is an argument.\<close>

definition Timeout_poll :: "('k, 'z, 'i, 'x) tokio_time
    \<Rightarrow> ('u \<Rightarrow> 'k \<times> rt \<Rightarrow> 'a poll \<times> 'u \<times> ('k \<times> rt)) \<Rightarrow> u64 \<Rightarrow> u64 \<Rightarrow> ('z, 'u) Timeout \<Rightarrow> 'k \<times> rt
    \<Rightarrow> (panic + (Elapsed + 'a) poll) \<times> ('z, 'u) Timeout \<times> ('k \<times> rt)" where
  "Timeout_poll T fpoll now0 now1 this w =
     (case fpoll (to_future this) w of
        (Ready v, f', w') \<Rightarrow> (Inr (Ready (Inr v)), this\<lparr>to_future := f'\<rparr>, w')
      | (Pending, f', w') \<Rightarrow>
          (case Sleep_poll T now0 now1 (to_delay this) w' of
             (Inl p, sl', w'') \<Rightarrow> (Inl p, this\<lparr>to_future := f', to_delay := sl'\<rparr>, w'')
           | (Inr (Ready _), sl', w'') \<Rightarrow>
               (Inr (Ready (Inl Elapsed)), this\<lparr>to_future := f', to_delay := sl'\<rparr>, w'')
           | (Inr Pending, sl', w'') \<Rightarrow>
               (Inr Pending, this\<lparr>to_future := f', to_delay := sl'\<rparr>, w'')))"

section \<open>Interval\<close>

datatype 'i IntervalState =
    IntervalUnstarted Duration
  | IntervalHooked u64 u64 u64 hook
  | IntervalUnhooked 'i

record 'i Interval =
  iv_state :: "'i IntervalState"

definition interval :: "Duration \<Rightarrow> panic + 'i Interval" where
  "interval period = (if as_nanos period = 0 then Inl ZeroPeriod
     else Inr \<lparr>iv_state = IntervalUnstarted period\<rparr>)"

definition Interval_poll_tick :: "('k, 'z, 'i, 'x) tokio_time \<Rightarrow> u64 \<Rightarrow> u64 \<Rightarrow> 'i Interval \<Rightarrow> 'k \<times> rt
    \<Rightarrow> (panic + 'x poll) \<times> 'i Interval \<times> ('k \<times> rt)" where
  "Interval_poll_tick T now0 now1 iv = (\<lambda>(k, s).
     let started = (case iv_state iv of
           IntervalUnstarted period \<Rightarrow>
             (case async_timer_hook s of
                Some h \<Rightarrow>
                  (case next_async_lock_waiter_id s of
                     (Inl p, s') \<Rightarrow> (Inl p, iv, (k, s'))
                   | (Inr timer, s') \<Rightarrow>
                       (Inr (), iv\<lparr>iv_state := IntervalHooked timer (duration_to_nanos_saturating period) now0 h\<rparr>,
                        (k, s')))
              | None \<Rightarrow>
                  (case tt_interval T period k of
                     (i, k') \<Rightarrow> (Inr (), iv\<lparr>iv_state := IntervalUnhooked i\<rparr>, (k', s))))
         | _ \<Rightarrow> (Inr (), iv, (k, s)))
     in case started of
          (Inl p, iv', w') \<Rightarrow> (Inl p, iv', w')
        | (Inr _, iv', (k', s')) \<Rightarrow>
            (case iv_state iv' of
               IntervalUnstarted period \<Rightarrow> (Inl Unreachable, iv', (k', s'))
             | IntervalHooked timer period_nanos deadline h \<Rightarrow>
                 if deadline \<le> now1
                 then (Inr (Ready (tt_instant_now T k')),
                       iv'\<lparr>iv_state := IntervalHooked timer period_nanos (saturating_add deadline period_nanos) h\<rparr>,
                       (k', s'))
                 else (Inr Pending, iv', (k', notify (Some h) (ATimerEv (timer_register timer deadline)) s'))
             | IntervalUnhooked i \<Rightarrow>
                 (case tt_poll_tick T i k' of
                    (p, i', k'') \<Rightarrow> (Inr p, iv'\<lparr>iv_state := IntervalUnhooked i'\<rparr>, (k'', s')))))"

section \<open>A sleep under the virtual clock\<close>

text \<open>Awaiting a sleep: before each poll the hook registry may change in any way; the polls stop at
  the first that is not pending.\<close>

fun Sleep_await :: "('k, 'z, 'i, 'x) tokio_time \<Rightarrow> 'z Sleep \<Rightarrow> 'k \<times> rt
    \<Rightarrow> (hook_kind registry_op list \<times> u64 \<times> u64) list \<Rightarrow> (panic + unit poll) list \<times> 'z Sleep \<times> ('k \<times> rt)" where
  "Sleep_await T sl w [] = ([], sl, w)"
| "Sleep_await T sl (k, s) ((ops, now0, now1) # rs) =
     (case Sleep_poll T now0 now1 sl (k, fold registry_apply ops s) of
        (Inr Pending, sl', w') \<Rightarrow>
          (case Sleep_await T sl' w' rs of (ps, sl'', w'') \<Rightarrow> (Inr Pending # ps, sl'', w''))
      | (r, sl', w') \<Rightarrow> ([r], sl', w'))"

definition readings :: "(hook_kind registry_op list \<times> u64 \<times> u64) list \<Rightarrow> u64 list" where
  "readings rs = map (\<lambda>(ops, now0, now1). now1) rs"

text \<open>How many polls come before the clock reaches the deadline.\<close>

definition early :: "u64 \<Rightarrow> u64 list \<Rightarrow> nat" where
  "early deadline ns = length (takeWhile (\<lambda>n. n < deadline) ns)"

lemma Sleep_poll_hooked:
  "Sleep_poll T now0 now1 \<lparr>sl_state = SleepHooked timer deadline h, sl_resolved = False\<rparr> (k, s) =
     (if deadline \<le> now1
      then (Inr (Ready ()), \<lparr>sl_state = SleepHooked timer deadline h, sl_resolved = True\<rparr>, (k, s))
      else (Inr Pending, \<lparr>sl_state = SleepHooked timer deadline h, sl_resolved = False\<rparr>,
            (k, notify (Some h) (ATimerEv (timer_register timer deadline)) s)))"
  by (simp add: Sleep_poll_def Sleep_start_def)

lemma Sleep_await_hooked:
  "\<exists>s'. Sleep_await T \<lparr>sl_state = SleepHooked timer deadline h, sl_resolved = False\<rparr> (k, s) rs =
     (replicate (early deadline (readings rs)) (Inr Pending)
        @ (if early deadline (readings rs) < length rs then [Inr (Ready ())] else []),
      \<lparr>sl_state = SleepHooked timer deadline h, sl_resolved = (early deadline (readings rs) < length rs)\<rparr>, (k, s'))
    \<and> calls s' = calls s @ replicate (early deadline (readings rs)) (h, ATimerEv (timer_register timer deadline))"
proof (induction rs arbitrary: s)
  case Nil
  then show ?case by (simp add: early_def readings_def)
next
  case (Cons x rs)
  obtain ops now0 now1 where x: "x = (ops, now0, now1)" by (cases x)
  show ?case
  proof (cases "deadline \<le> now1")
    case True
    then show ?thesis
      by (auto simp: x Sleep_poll_hooked early_def readings_def calls_registry_fold)
  next
    case False
    let ?s1 = "notify (Some h) (ATimerEv (timer_register timer deadline)) (fold registry_apply ops s)"
    from Cons.IH [of ?s1] False show ?thesis
      by (auto simp: x Sleep_poll_hooked early_def readings_def calls_registry_fold not_le)
  qed
qed

lemma Sleep_first_poll:
  assumes "async_timer_hook s = Some h" "next_async_lock_waiter_id s = (Inr timer, s1)"
  shows "Sleep_poll T now0 now1 (sleep d) (k, s) =
    Sleep_poll T now0 now1 \<lparr>sl_state = SleepHooked timer
      (saturating_add now0 (duration_to_nanos_saturating d)) h, sl_resolved = False\<rparr> (k, s1)"
  using assms by (simp add: Sleep_poll_def Sleep_start_def sleep_def)

definition sleep_deadline :: "u64 \<Rightarrow> Duration \<Rightarrow> u64" where
  "sleep_deadline now0 d = of_nat (min (unat now0 + as_nanos d) (2 ^ 64 - 1))"

lemma sleep_deadline_eq: "saturating_add now0 (duration_to_nanos_saturating d) = sleep_deadline now0 d"
proof -
  have "unat (saturating_add now0 (duration_to_nanos_saturating d)) = min (unat now0 + as_nanos d) (2 ^ 64 - 1)"
    by (simp add: unat_saturating_add unat_duration_to_nanos)
  moreover have "unat (sleep_deadline now0 d) = min (unat now0 + as_nanos d) (2 ^ 64 - 1)"
    unfolding sleep_deadline_def by (rule unat_of_nat_u64) simp
  ultimately show ?thesis by (metis word_unat_eq_iff)
qed

text \<open>(C22) A sleep that is first polled under a timer hook follows the virtual clock to the
  nanosecond. Its deadline is the clock of that first poll plus the duration, saturating at the
  64-bit limit; it is pending at exactly the polls whose clock is before the deadline and resolves
  at the first poll that is not; each pending poll registers the same timer and deadline with the
  hook captured at the first poll, whatever is installed or cleared in the registry between the
  polls; and dropping it reports the timer as dropped exactly when it had not resolved.\<close>

theorem sleep_follows_virtual_clock:
  assumes hook: "async_timer_hook s = Some h" and "next_async_lock_waiter_id s = (Inr timer, s1)"
    and D: "D = sleep_deadline now0 d" and N: "n = early D (now1 # readings rs)"
  shows "\<exists>sl s'. Sleep_await T (sleep d) (k, s) (([], now0, now1) # rs) =
       (replicate n (Inr Pending) @ (if n < Suc (length rs) then [Inr (Ready ())] else []), sl, (k, s'))
    \<and> calls s' = calls s @ replicate n (h, ATimerEv (timer_register timer D))
    \<and> calls (snd (Sleep_drop sl (k, s'))) =
        calls s' @ (if n < Suc (length rs) then [] else [(h, ATimerEv (timer_dropped timer))])"
proof -
  have first: "Sleep_await T (sleep d) (k, s) (([], now0, now1) # rs) =
    Sleep_await T \<lparr>sl_state = SleepHooked timer D h, sl_resolved = False\<rparr> (k, s1) (([], now0, now1) # rs)"
    using Sleep_first_poll [OF assms(1,2), of T now0 now1 d k] by (simp add: sleep_deadline_eq D)
  have calls: "calls s1 = calls s" using next_async_lock_waiter_id_frame [OF assms(2)] by simp
  have n: "early D (readings (([], now0, now1) # rs)) = n" by (simp add: N readings_def)
  from Sleep_await_hooked [of T timer D h k s1 "([], now0, now1) # rs"] obtain s' where
    run: "Sleep_await T (sleep d) (k, s) (([], now0, now1) # rs) =
       (replicate n (Inr Pending) @ (if n < Suc (length rs) then [Inr (Ready ())] else []),
        \<lparr>sl_state = SleepHooked timer D h, sl_resolved = (n < Suc (length rs))\<rparr>, (k, s'))"
    and log: "calls s' = calls s @ replicate n (h, ATimerEv (timer_register timer D))"
    unfolding n first [symmetric] calls by auto
  show ?thesis
    by (intro exI, rule conjI, rule run) (simp add: log Sleep_drop_def)
qed


text \<open>A world for the witnesses: hook 5 is the installed timer hook; the real timers are never used.\<close>

definition timer_rt :: rt where
  "timer_rt = install_async_timer_hook 5 rt_init"

abbreviation timer_rt1 :: rt where
  "timer_rt1 \<equiv> timer_rt\<lparr>NEXT_ASYNC_LOCK_WAITER_ID := 2\<rparr>"

lemma timer_rt_facts [simp]:
  "async_timer_hook timer_rt = Some 5" "calls timer_rt = []"
  "next_async_lock_waiter_id timer_rt = (Inr 1, timer_rt1)"
  by (simp_all add: timer_rt_def hook_installs hook_reads rt_init_def next_async_lock_waiter_id_def checked_add1_def)

definition idle_timers :: "(unit, unit, unit, unit) tokio_time" where
  "idle_timers = \<lparr>tt_sleep = (\<lambda>d k. ((), k)), tt_poll_sleep = (\<lambda>z k. (Ready (), z, k)),
     tt_interval = (\<lambda>d k. ((), k)), tt_poll_tick = (\<lambda>i k. (Ready (), i, k)), tt_instant_now = (\<lambda>k. ())\<rparr>"

text \<open>A sleep of 10 ns first polled at 100, polled at 105 after the hook was cleared and at 110.\<close>

theorem sleep_follows_virtual_clock_witness:
  "\<exists>sl s'. Sleep_await idle_timers (sleep (Duration 0 10)) ((), timer_rt)
       [([], 100, 100), ([Clear KAsyncTimer], 105, 105), ([], 110, 110)] =
       ([Inr Pending, Inr Pending, Inr (Ready ())], sl, ((), s'))
    \<and> calls s' = [(5, ATimerEv (timer_register 1 110)), (5, ATimerEv (timer_register 1 110))]
    \<and> calls (snd (Sleep_drop sl ((), s'))) = calls s'"
proof -
  have D: "sleep_deadline 100 (Duration 0 10) = 110" by (simp add: sleep_deadline_def as_nanos_def)
  have n: "early 110 (100 # readings [([Clear KAsyncTimer], 105, 105), ([], 110, 110)]) = 2"
    by (simp add: early_def readings_def)
  from sleep_follows_virtual_clock [of timer_rt 5 1 timer_rt1 110 100 "Duration 0 10" 2 100
      "[([Clear KAsyncTimer], 105, 105), ([], 110, 110)]" idle_timers "()"]
  show ?thesis by (simp add: D n numeral_2_eq_2)
qed

section \<open>A timeout\<close>

text \<open>A timeout gives the value priority over the clock. A poll at which the wrapped future is
  ready returns its value whatever the clock says and leaves the timer and everything outside the
  wrapped future as it was. A poll at which the future is pending looks at the clock: once the timer
  is started in hooked mode it answers that the deadline elapsed exactly when the clock has
  reached the deadline, and otherwise registers the timer and stays pending.\<close>

theorem timeout_value_first:
  assumes "fpoll f w = (r, f', (k', s'))"
    and sl: "sl = \<lparr>sl_state = SleepHooked timer deadline h, sl_resolved = False\<rparr>"
  shows "Timeout_poll T fpoll now0 now1 \<lparr>to_future = f, to_delay = sl\<rparr> w =
    (case r of
       Ready v \<Rightarrow> (Inr (Ready (Inr v)), \<lparr>to_future = f', to_delay = sl\<rparr>, (k', s'))
     | Pending \<Rightarrow>
         if deadline \<le> now1
         then (Inr (Ready (Inl Elapsed)), \<lparr>to_future = f', to_delay = sl\<lparr>sl_resolved := True\<rparr>\<rparr>, (k', s'))
         else (Inr Pending, \<lparr>to_future = f', to_delay = sl\<rparr>,
               (k', notify (Some h) (ATimerEv (timer_register timer deadline)) s')))"
  using assms(1) by (simp add: sl Timeout_poll_def Sleep_poll_hooked split: poll.split)

text \<open>A wrapped future that is ready at once wins against a deadline that has long passed.\<close>

theorem timeout_value_first_witness:
  "Timeout_poll idle_timers (\<lambda>f w. (Ready f, f, w)) 900 900
     \<lparr>to_future = (7 :: nat), to_delay = \<lparr>sl_state = SleepHooked 1 110 5, sl_resolved = False\<rparr>\<rparr> ((), timer_rt1) =
   (Inr (Ready (Inr 7)), \<lparr>to_future = 7, to_delay = \<lparr>sl_state = SleepHooked 1 110 5, sl_resolved = False\<rparr>\<rparr>,
    ((), timer_rt1))"
  using timeout_value_first [of "\<lambda>f w. (Ready f, f, w)" "7 :: nat" "((), timer_rt1)" "Ready 7" 7 "()" timer_rt1
      "\<lparr>sl_state = SleepHooked 1 110 5, sl_resolved = False\<rparr>" 1 110 5 idle_timers 900 900]
  by simp

section \<open>An interval\<close>

text \<open>Polling an interval at a list of clock readings; the hook registry may change before each.\<close>

fun Interval_ticks :: "('k, 'z, 'i, 'x) tokio_time \<Rightarrow> 'i Interval \<Rightarrow> 'k \<times> rt
    \<Rightarrow> (hook_kind registry_op list \<times> u64 \<times> u64) list \<Rightarrow> (panic + 'x poll) list \<times> 'i Interval \<times> ('k \<times> rt)" where
  "Interval_ticks T iv w [] = ([], iv, w)"
| "Interval_ticks T iv (k, s) ((ops, now0, now1) # rs) =
     (case Interval_poll_tick T now0 now1 iv (k, fold registry_apply ops s) of
        (r, iv', w') \<Rightarrow> (case Interval_ticks T iv' w' rs of (ps, iv'', w'') \<Rightarrow> (r # ps, iv'', w'')))"

text \<open>The ideal schedule: the deadline of the \<open>j\<close>-th tick of an interval started at \<open>n0\<close>, and what a
  poll at each reading of the clock does: a tick (\<open>None\<close>) or a wait for a deadline.\<close>

definition tick_deadline :: "nat \<Rightarrow> nat \<Rightarrow> nat \<Rightarrow> nat" where
  "tick_deadline n0 period j = min (n0 + j * period) (2 ^ 64 - 1)"

fun tick_schedule :: "nat \<Rightarrow> nat \<Rightarrow> nat \<Rightarrow> nat list \<Rightarrow> nat option list" where
  "tick_schedule n0 period j [] = []"
| "tick_schedule n0 period j (r # rs) =
     (if tick_deadline n0 period j \<le> r then None # tick_schedule n0 period (Suc j) rs
      else Some (tick_deadline n0 period j) # tick_schedule n0 period j rs)"

definition waits :: "nat option list \<Rightarrow> nat list" where
  "waits sched = List.map_filter id sched"

lemma waits_simps [simp]:
  "waits [] = []" "waits (None # xs) = waits xs" "waits (Some d # xs) = d # waits xs"
  by (simp_all add: waits_def map_filter_simps)

lemma tick_deadline_bound: "tick_deadline n0 period j < 2 ^ 64"
  by (simp add: tick_deadline_def)

lemma tick_deadline_Suc:
  "saturating_add (of_nat (tick_deadline n0 (as_nanos d) j)) (duration_to_nanos_saturating d) =
     (of_nat (tick_deadline n0 (as_nanos d) (Suc j)) :: u64)"
proof -
  have "unat (saturating_add (of_nat (tick_deadline n0 (as_nanos d) j)) (duration_to_nanos_saturating d)) =
      min (tick_deadline n0 (as_nanos d) j + min (as_nanos d) (2 ^ 64 - 1)) (2 ^ 64 - 1)"
    by (simp only: unat_saturating_add unat_duration_to_nanos unat_of_nat_u64 [OF tick_deadline_bound])
  also have "\<dots> = tick_deadline n0 (as_nanos d) (Suc j)" by (simp add: tick_deadline_def)
  also have "\<dots> = unat (of_nat (tick_deadline n0 (as_nanos d) (Suc j)) :: u64)"
    by (rule unat_of_nat_u64 [OF tick_deadline_bound, symmetric])
  finally show ?thesis by (simp only: word_unat_eq_iff)
qed

lemma Interval_poll_hooked:
  "Interval_poll_tick T now0 now1 \<lparr>iv_state = IntervalHooked timer p (of_nat (tick_deadline n0 period j)) h\<rparr> (k, s) =
     (if tick_deadline n0 period j \<le> unat now1
      then (Inr (Ready (tt_instant_now T k)),
            \<lparr>iv_state = IntervalHooked timer p (saturating_add (of_nat (tick_deadline n0 period j)) p) h\<rparr>, (k, s))
      else (Inr Pending, \<lparr>iv_state = IntervalHooked timer p (of_nat (tick_deadline n0 period j)) h\<rparr>,
            (k, notify (Some h) (ATimerEv (timer_register timer (of_nat (tick_deadline n0 period j)))) s)))"
  by (simp add: Interval_poll_tick_def word_le_nat_alt unat_of_nat_u64 [OF tick_deadline_bound])

lemma Interval_ticks_hooked:
  fixes T :: "('k, 'z, 'i, 'x) tokio_time"
  assumes "sched = tick_schedule n0 (as_nanos d) j (map unat (readings rs))"
  shows "\<exists>iv s'. Interval_ticks T \<lparr>iv_state = IntervalHooked timer (duration_to_nanos_saturating d)
        (of_nat (tick_deadline n0 (as_nanos d) j)) h\<rparr> (k, s) rs =
       (map (\<lambda>w. Inr (if w = None then Ready (tt_instant_now T k) else Pending)) sched, iv, (k, s'))
    \<and> calls s' = calls s @ map (\<lambda>w. (h, ATimerEv (timer_register timer (of_nat w)))) (waits sched)"
  using assms
proof (induction rs arbitrary: s j sched)
  case Nil
  then show ?case by (simp add: readings_def)
next
  case (Cons x rs)
  obtain ops now0 now1 where x: "x = (ops, now0, now1)" by (cases x)
  show ?case
  proof (cases "tick_deadline n0 (as_nanos d) j \<le> unat now1")
    case True
    with Cons.IH [OF refl, of "Suc j" "fold registry_apply ops s"] Cons.prems show ?thesis
      by (auto simp: x Interval_poll_hooked readings_def calls_registry_fold tick_deadline_Suc)
  next
    case False
    let ?s1 = "notify (Some h) (ATimerEv (timer_register timer (of_nat (tick_deadline n0 (as_nanos d) j))))
      (fold registry_apply ops s)"
    from Cons.IH [OF refl, of j ?s1] False Cons.prems show ?thesis
      by (auto simp: x Interval_poll_hooked readings_def calls_registry_fold)
  qed
qed

lemma Interval_first_poll:
  assumes "async_timer_hook s = Some h" "next_async_lock_waiter_id s = (Inr timer, s1)" "interval d = Inr iv"
  shows "Interval_ticks T iv (k, s) (([], now0, now1) # rs) =
    Interval_ticks T \<lparr>iv_state = IntervalHooked timer (duration_to_nanos_saturating d)
      (of_nat (tick_deadline (unat now0) (as_nanos d) 0)) h\<rparr> (k, s1) (([], now0, now1) # rs)"
proof -
  have "unat now0 \<le> 2 ^ 64 - 1" using unsigned_less [of now0, where 'a = nat] by simp
  then have "of_nat (tick_deadline (unat now0) (as_nanos d) 0) = now0" by (simp add: tick_deadline_def min_absorb1)
  moreover have "iv = \<lparr>iv_state = IntervalUnstarted d\<rparr>" using assms(3) by (simp add: interval_def split: if_splits)
  ultimately show ?thesis using assms(1,2) by (simp add: Interval_poll_tick_def)
qed

text \<open>(C35) An interval that is first polled under a timer hook follows the ideal schedule: the tick
  of number \<open>j\<close>, counted from 0, is due at the clock of the first poll plus \<open>j\<close> periods (saturating at
  the 64-bit limit), however late the earlier ticks were taken, so the schedule does not drift. A
  poll gives the tick exactly when its clock reading has reached that deadline; any other poll
  registers exactly that deadline with the hook captured at the first poll, whatever is installed
  or cleared in the registry meanwhile.\<close>

theorem interval_follows_schedule:
  fixes T :: "('k, 'z, 'i, 'x) tokio_time"
  assumes "async_timer_hook s = Some h" "next_async_lock_waiter_id s = (Inr timer, s1)" "interval d = Inr iv"
    and sched: "sched = tick_schedule (unat now0) (as_nanos d) 0 (unat now1 # map unat (readings rs))"
  shows "\<exists>iv' s'. Interval_ticks T iv (k, s) (([], now0, now1) # rs) =
       (map (\<lambda>w. Inr (if w = None then Ready (tt_instant_now T k) else Pending)) sched, iv', (k, s'))
    \<and> calls s' = calls s @ map (\<lambda>w. (h, ATimerEv (timer_register timer (of_nat w)))) (waits sched)"
proof -
  have "sched = tick_schedule (unat now0) (as_nanos d) 0 (map unat (readings (([], now0, now1) # rs)))"
    by (simp add: sched readings_def)
  from Interval_ticks_hooked [OF this, of T timer h k s1]
  show ?thesis
    unfolding Interval_first_poll [OF assms(1-3), of T k now0 now1 rs]
    using next_async_lock_waiter_id_frame [OF assms(2)] by simp
qed

text \<open>A period of 10 ns from 100: ticks at 100 and at 117, late for 110, then a wait for 120, on schedule.\<close>

theorem interval_follows_schedule_witness:
  "\<exists>iv' s'. Interval_ticks idle_timers \<lparr>iv_state = IntervalUnstarted (Duration 0 10)\<rparr> ((), timer_rt)
       [([], 100, 100), ([], 117, 117), ([], 119, 119), ([], 120, 120)] =
       ([Inr (Ready ()), Inr (Ready ()), Inr Pending, Inr (Ready ())], iv', ((), s'))
    \<and> calls s' = [(5, ATimerEv (timer_register 1 120))]"
proof -
  let ?rs = "[([], 117, 117), ([], 119, 119), ([], 120, 120)] :: (hook_kind registry_op list \<times> u64 \<times> u64) list"
  have iv: "interval (Duration 0 10) = Inr \<lparr>iv_state = IntervalUnstarted (Duration 0 10) :: unit IntervalState\<rparr>"
    by (simp add: interval_def as_nanos_def)
  have sched: "[None, None, Some 120, None] = tick_schedule (unat (100 :: u64)) (as_nanos (Duration 0 10)) 0
      (unat (100 :: u64) # map unat (readings ?rs))"
    by (simp add: tick_deadline_def readings_def as_nanos_def)
  from interval_follows_schedule [OF timer_rt_facts(1,3) iv sched, of idle_timers "()"]
  show ?thesis by (simp add: idle_timers_def)
qed

text \<open>A caller that is behind catches up in a burst: the schedule at one fixed clock reading.\<close>

lemma tick_schedule_fixed:
  assumes "0 < period" "n0 \<le> now" "now < 2 ^ 64 - 1"
  shows "j \<le> (now - n0) div period + 1 \<Longrightarrow> tick_schedule n0 period j (replicate m now) =
    replicate (min m ((now - n0) div period + 1 - j)) None @
    replicate (m - ((now - n0) div period + 1 - j)) (Some (tick_deadline n0 period ((now - n0) div period + 1)))"
proof (induction m arbitrary: j)
  case 0
  then show ?case by simp
next
  case (Suc m)
  let ?q = "(now - n0) div period"
  have le: "tick_deadline n0 period j \<le> now \<longleftrightarrow> j \<le> ?q"
  proof -
    have "tick_deadline n0 period j \<le> now \<longleftrightarrow> j * period \<le> now - n0"
      using assms(2,3) by (auto simp: tick_deadline_def)
    then show ?thesis using assms(1) by (simp add: less_eq_div_iff_mult_less_eq)
  qed
  show ?case
  proof (cases "j \<le> ?q")
    case True
    with Suc.IH [of "Suc j"] le show ?thesis by (simp add: Suc_diff_le)
  next
    case False
    with Suc.prems have "j = ?q + 1" by simp
    with Suc.IH [of j] le show ?thesis by simp
  qed
qed

text \<open>Missed ticks burst, as with tokio's default: an interval whose caller polls \<open>m\<close> times at one
  clock reading, any number of periods after the start, gives exactly the ticks due by then
  (one for the start and one per full period since) back to back, and the polls after them wait for
  the next multiple of the period in the future. The one clock value excluded is the 64-bit limit,
  at which the saturated deadline is always reached.\<close>

theorem interval_burst_catches_up:
  fixes T :: "('k, 'z, 'i, 'x) tokio_time"
  assumes "async_timer_hook s = Some h" "next_async_lock_waiter_id s = (Inr timer, s1)" "interval d = Inr iv"
    and "now0 \<le> now" "now < U64_MAX"
    and due: "due = (unat now - unat now0) div as_nanos d + 1"
  shows "\<exists>iv' s'. Interval_ticks T iv (k, s) (([], now0, now) # replicate m ([], now, now)) =
       (replicate (min (Suc m) due) (Inr (Ready (tt_instant_now T k))) @ replicate (Suc m - due) (Inr Pending),
        iv', (k, s'))
    \<and> calls s' = calls s @ replicate (Suc m - due)
        (h, ATimerEv (timer_register timer (of_nat (tick_deadline (unat now0) (as_nanos d) due))))"
proof -
  let ?rs = "([], now0, now) # replicate m ([], now, now)"
  have "0 < as_nanos d" using assms(3) by (simp add: interval_def split: if_splits)
  moreover have "unat now0 \<le> unat now" "unat now < 2 ^ 64 - 1"
    using assms(4,5) by (simp_all add: word_le_nat_alt word_less_nat_alt unat_U64_MAX)
  ultimately have "tick_schedule (unat now0) (as_nanos d) 0 (replicate (Suc m) (unat now)) =
      replicate (min (Suc m) due) None @
      replicate (Suc m - due) (Some (tick_deadline (unat now0) (as_nanos d) due))"
    using tick_schedule_fixed [of "as_nanos d" "unat now0" "unat now" 0 "Suc m"] by (simp only: due diff_zero le0)
  moreover have "map unat (readings ?rs) = replicate (Suc m) (unat now)" by (simp add: readings_def)
  ultimately have sched: "replicate (min (Suc m) due) None @
      replicate (Suc m - due) (Some (tick_deadline (unat now0) (as_nanos d) due)) =
      tick_schedule (unat now0) (as_nanos d) 0 (map unat (readings ?rs))" by (simp only:)
  have waits: "waits (replicate a None @ replicate b (Some e)) = replicate b e" for a b e
  proof -
    have "waits (replicate b (Some e)) = replicate b e" by (induction b) simp_all
    then show ?thesis by (induction a) simp_all
  qed
  show ?thesis
    unfolding Interval_first_poll [OF assms(1-3), of T k now0 now]
    using Interval_ticks_hooked [OF sched, of T timer h k s1] next_async_lock_waiter_id_frame [OF assms(2)]
    by (simp add: waits)
qed

text \<open>Started at 100 with a period of 10 ns and polled five times at 125: three ticks, then a wait
  for 130.\<close>

theorem interval_burst_catches_up_witness:
  "\<exists>iv' s'. Interval_ticks idle_timers \<lparr>iv_state = IntervalUnstarted (Duration 0 10)\<rparr> ((), timer_rt)
       (([], 100, 125) # replicate 4 ([], 125, 125)) =
       (replicate 3 (Inr (Ready ())) @ replicate 2 (Inr Pending), iv', ((), s'))
    \<and> calls s' = replicate 2 (5, ATimerEv (timer_register 1 130))"
proof -
  have iv: "interval (Duration 0 10) = Inr \<lparr>iv_state = IntervalUnstarted (Duration 0 10) :: unit IntervalState\<rparr>"
    by (simp add: interval_def as_nanos_def)
  have due: "3 = (unat (125 :: u64) - unat (100 :: u64)) div as_nanos (Duration 0 10) + 1"
    by (simp add: as_nanos_def)
  have "(100 :: u64) \<le> 125" "(125 :: u64) < U64_MAX" by (simp_all add: word_less_nat_alt unat_U64_MAX)
  from interval_burst_catches_up [OF timer_rt_facts(1,3) iv this due, of idle_timers "()" 4]
  show ?thesis by (simp add: idle_timers_def tick_deadline_def as_nanos_def)
qed

end
