(* ===== verification/Tasks.thy ===== *)
theory Tasks
  imports Ids
begin

text \<open>
  The task collection of \<^verbatim>\<open>task_set.rs\<close>: \<open>TaskSet\<close>, the \<open>ObservedTask\<close> that wraps every registered future
  and reports its polls, and the handle that resolves when the task ends. A task and its handle share
  a completion cell, so the cells live in a store and both hold its address. A waker is its identity;
  \<open>will_wake\<close> compares identities and a wake appends to the list of woken wakers.
\<close>

section \<open>Completion cells\<close>

type_synonym waker = nat

record CompletionState =
  cs_finished :: bool
  cs_waker :: "waker option"

definition CompletionState_default :: CompletionState where
  "CompletionState_default = \<lparr>cs_finished = False, cs_waker = None\<rparr>"

text \<open>The process as the tasks see it: the runtime, the completion cells, the wakes so far. Later
  components extend the record with what their futures touch.\<close>

record tworld =
  tw_rt :: rt
  tw_cells :: "CompletionState list"
  tw_woken :: "waker list"

definition TaskCompletion_complete :: "nat \<Rightarrow> 'x tworld_scheme \<Rightarrow> 'x tworld_scheme" where
  "TaskCompletion_complete a w =
     (let state = tw_cells w ! a;
          w' = w\<lparr>tw_cells := (tw_cells w)[a := state\<lparr>cs_finished := True, cs_waker := None\<rparr>]\<rparr>
      in case cs_waker state of None \<Rightarrow> w' | Some waker \<Rightarrow> w'\<lparr>tw_woken := tw_woken w' @ [waker]\<rparr>)"

definition TaskCompletion_poll :: "waker \<Rightarrow> nat \<Rightarrow> 'x tworld_scheme \<Rightarrow> unit poll \<times> 'x tworld_scheme" where
  "TaskCompletion_poll cx a w =
     (let state = tw_cells w ! a in
      if cs_finished state then (Ready (), w)
      else let replace_waker = (case cs_waker state of Some waker \<Rightarrow> waker \<noteq> cx | None \<Rightarrow> True)
           in (Pending, if replace_waker
                        then w\<lparr>tw_cells := (tw_cells w)[a := state\<lparr>cs_waker := Some cx\<rparr>]\<rparr>
                        else w))"

section \<open>Handles\<close>

definition tnotify :: "hook option \<Rightarrow> TaskCall \<Rightarrow> 'x tworld_scheme \<Rightarrow> 'x tworld_scheme" where
  "tnotify ho e w = w\<lparr>tw_rt := notify ho (TaskEv e) (tw_rt w)\<rparr>"

record TaskSetHandle =
  th_task :: u64
  th_completion :: nat
  th_requested :: bool
  th_resolved :: bool

definition TaskSetHandle_poll :: "waker \<Rightarrow> TaskSetHandle \<Rightarrow> 'x tworld_scheme
    \<Rightarrow> unit poll \<times> TaskSetHandle \<times> 'x tworld_scheme" where
  "TaskSetHandle_poll cx this w =
     (let hook = task_observer_hook (tw_rt w);
          w1 = (if th_requested this then w else tnotify hook (join_requested (th_task this)) w);
          this1 = this\<lparr>th_requested := True\<rparr>
      in case TaskCompletion_poll cx (th_completion this1) w1 of
           (outcome, w2) \<Rightarrow>
             if is_ready outcome \<and> \<not> th_resolved this1
             then (outcome, this1\<lparr>th_resolved := True\<rparr>, tnotify hook (join_resolved (th_task this1)) w2)
             else (outcome, this1, w2))"

section \<open>Observed tasks\<close>

record 'u ObservedTask =
  ot_task :: u64
  ot_future :: 'u
  ot_completion :: "nat option"
  ot_attempt :: u64
  ot_finished :: bool

text \<open>The poll of the wrapped future is an argument: it may panic (\<open>Inl\<close>) and may do anything to the
  process before it returns or panics.\<close>

type_synonym ('u, 'x, 'a) future_poll =
  "waker \<Rightarrow> 'u \<Rightarrow> 'x tworld_scheme \<Rightarrow> (panic + 'a poll) \<times> 'u \<times> 'x tworld_scheme"

definition poll_outcome :: "panic + unit poll \<Rightarrow> TaskPollOutcome" where
  "poll_outcome r = (case r of Inr Pending \<Rightarrow> OutPending | Inr (Ready _) \<Rightarrow> OutReady | Inl _ \<Rightarrow> OutPanicked)"

definition ObservedTask_poll :: "('u, 'x, unit) future_poll \<Rightarrow> waker \<Rightarrow> 'u ObservedTask \<Rightarrow> 'x tworld_scheme
    \<Rightarrow> unit poll \<times> 'u ObservedTask \<times> 'x tworld_scheme" where
  "ObservedTask_poll fpoll cx this w =
     (if ot_finished this then (Ready (), this, w)
      else let attempt = ot_attempt this;
               this1 = this\<lparr>ot_attempt := saturating_add (ot_attempt this) 1\<rparr>;
               hook = task_observer_hook (tw_rt w);
               w1 = tnotify hook (poll_started (ot_task this1) attempt) w
           in case fpoll cx (ot_future this1) w1 of
                (r, u, w2) \<Rightarrow>
                  let this2 = this1\<lparr>ot_future := u\<rparr>;
                      outcome = poll_outcome r;
                      w3 = tnotify hook (poll_completed (ot_task this2) attempt outcome) w2
                  in if outcome = OutPending then (Pending, this2, w3)
                     else let this3 = this2\<lparr>ot_finished := True\<rparr>;
                              w4 = (case ot_completion this3 of
                                      Some completion \<Rightarrow> TaskCompletion_complete completion w3
                                    | None \<Rightarrow> w3)
                          in (Ready (), this3, tnotify hook (task_completed (ot_task this3)) w4))"

definition ObservedTask_without_completion :: "u64 \<Rightarrow> 'u \<Rightarrow> 'u ObservedTask" where
  "ObservedTask_without_completion task future =
     \<lparr>ot_task = task, ot_future = future, ot_completion = None, ot_attempt = 0, ot_finished = False\<rparr>"

section \<open>The collection\<close>

definition MAX_MODEL_TASKS :: nat where
  "MAX_MODEL_TASKS = 16"

record 'u TaskSet =
  ts_tasks :: "'u ObservedTask list"

definition TaskSet_new :: "'u TaskSet" where
  "TaskSet_new = \<lparr>ts_tasks = []\<rparr>"

definition TaskSet_spawn :: "'u \<Rightarrow> 'u TaskSet \<times> 'x tworld_scheme
    \<Rightarrow> (panic + TaskSetHandle) \<times> ('u TaskSet \<times> 'x tworld_scheme)" where
  "TaskSet_spawn future = (\<lambda>(self, w).
     if \<not> length (ts_tasks self) < MAX_MODEL_TASKS then (Inl TaskLimitExceeded, (self, w))
     else let task = of_nat (length (ts_tasks self));
              completion = length (tw_cells w);
              w1 = w\<lparr>tw_cells := tw_cells w @ [CompletionState_default]\<rparr>;
              w2 = tnotify (task_observer_hook (tw_rt w1)) (task_registered task) w1
          in (Inr \<lparr>th_task = task, th_completion = completion, th_requested = False, th_resolved = False\<rparr>,
              (self\<lparr>ts_tasks := ts_tasks self @ [\<lparr>ot_task = task, ot_future = future,
                  ot_completion = Some completion, ot_attempt = 0, ot_finished = False\<rparr>]\<rparr>, w2)))"

definition TaskSet_into_tasks :: "'u TaskSet \<Rightarrow> 'u ObservedTask list" where
  "TaskSet_into_tasks self = ts_tasks self"

section \<open>What the operations leave alone\<close>

lemma tnotify_frame [simp]:
  "tw_cells (tnotify ho e w) = tw_cells w" "tw_woken (tnotify ho e w) = tw_woken w"
  "tworld.more (tnotify ho e w) = tworld.more w"
  "calls (tw_rt (tnotify ho e w)) = calls (tw_rt w) @ (case ho of None \<Rightarrow> [] | Some h \<Rightarrow> [(h, TaskEv e)])"
  "task_observer_hook (tw_rt (tnotify ho e w)) = task_observer_hook (tw_rt w)"
  by (simp_all add: tnotify_def)

lemma TaskCompletion_complete_frame [simp]:
  "tw_rt (TaskCompletion_complete a w) = tw_rt w"
  "length (tw_cells (TaskCompletion_complete a w)) = length (tw_cells w)"
  "tworld.more (TaskCompletion_complete a w) = tworld.more w"
  by (simp_all add: TaskCompletion_complete_def Let_def split: option.split)

lemma TaskCompletion_poll_frame:
  assumes "TaskCompletion_poll cx a w = (p, w')"
  shows "tw_rt w' = tw_rt w" "tw_woken w' = tw_woken w" "length (tw_cells w') = length (tw_cells w)"
    "tworld.more w' = tworld.more w"
  using assms by (auto simp: TaskCompletion_poll_def Let_def split: if_splits)

section \<open>The trace of an observed task\<close>

text \<open>What the log says about the polls of one task.\<close>

fun poll_event_of :: "u64 \<Rightarrow> hook \<times> HookCall \<Rightarrow> bool" where
  "poll_event_of t (h, TaskEv (poll_started t' n)) = (t' = t)"
| "poll_event_of t (h, TaskEv (poll_completed t' n q)) = (t' = t)"
| "poll_event_of t (h, TaskEv (task_completed t')) = (t' = t)"
| "poll_event_of t e = False"

definition poll_log :: "u64 \<Rightarrow> 'x tworld_scheme \<Rightarrow> (hook \<times> HookCall) list" where
  "poll_log t w = filter (poll_event_of t) (calls (tw_rt w))"

text \<open>The wrapped future does not speak for the task that wraps it and leaves the observer in place:
  the poll events of a task are reported by its own \<open>ObservedTask\<close> only.\<close>

definition keeps_poll_log :: "u64 \<Rightarrow> ('u, 'x, 'a) future_poll \<Rightarrow> bool" where
  "keeps_poll_log t fpoll \<longleftrightarrow> (\<forall>cx u w r u' w'. fpoll cx u w = (r, u', w') \<longrightarrow>
     poll_log t w' = poll_log t w \<and> task_observer_hook (tw_rt w') = task_observer_hook (tw_rt w))"

text \<open>An executor polls the task any number of times with any wakers; between two polls the rest of
  the process runs, given as a function on the world for each poll.\<close>

fun ObservedTask_run :: "('u, 'x, unit) future_poll \<Rightarrow> 'u ObservedTask \<Rightarrow> 'x tworld_scheme
    \<Rightarrow> (waker \<times> ('x tworld_scheme \<Rightarrow> 'x tworld_scheme)) list \<Rightarrow> unit poll list \<times> 'u ObservedTask \<times> 'x tworld_scheme" where
  "ObservedTask_run fpoll ot w [] = ([], ot, w)"
| "ObservedTask_run fpoll ot w ((cx, env) # xs) =
     (case ObservedTask_poll fpoll cx ot (env w) of
        (p, ot', w') \<Rightarrow> (case ObservedTask_run fpoll ot' w' xs of (ps, r) \<Rightarrow> (p # ps, r)))"

text \<open>What the wrapped future answers when it is polled that way: its results up to the first that is
  not pending, as a bare executor that stops there would see them.\<close>

fun inner_results :: "('u, 'x, unit) future_poll \<Rightarrow> 'u ObservedTask \<Rightarrow> 'x tworld_scheme
    \<Rightarrow> (waker \<times> ('x tworld_scheme \<Rightarrow> 'x tworld_scheme)) list \<Rightarrow> TaskPollOutcome list" where
  "inner_results fpoll ot w [] = []"
| "inner_results fpoll ot w ((cx, env) # xs) =
     (if ot_finished ot then []
      else case fpoll cx (ot_future ot) (tnotify (task_observer_hook (tw_rt (env w)))
                  (poll_started (ot_task ot) (ot_attempt ot)) (env w)) of
        (r, u, w2) \<Rightarrow> poll_outcome r #
          (case ObservedTask_poll fpoll cx ot (env w) of (p, ot', w') \<Rightarrow> inner_results fpoll ot' w' xs))"

text \<open>The trace those answers should leave.\<close>

fun expected_trace :: "hook \<Rightarrow> u64 \<Rightarrow> u64 \<Rightarrow> TaskPollOutcome list \<Rightarrow> (hook \<times> HookCall) list" where
  "expected_trace h t n [] = []"
| "expected_trace h t n (q # qs) =
     [(h, TaskEv (poll_started t n)), (h, TaskEv (poll_completed t n q))] @
     (if q = OutPending then expected_trace h t (saturating_add n 1) qs else [(h, TaskEv (task_completed t))])"

lemma poll_log_tnotify [simp]:
  "poll_log t (tnotify ho e w) =
     poll_log t w @ (case ho of None \<Rightarrow> [] | Some h \<Rightarrow> filter (poll_event_of t) [(h, TaskEv e)])"
  by (simp add: poll_log_def split: option.split)

lemma poll_log_complete [simp]: "poll_log t (TaskCompletion_complete a w) = poll_log t w"
  by (simp add: poll_log_def)

lemma ObservedTask_poll_trace:
  assumes "keeps_poll_log (ot_task ot) fpoll" "task_observer_hook (tw_rt w) = Some h" "\<not> ot_finished ot"
    and inner: "fpoll cx (ot_future ot) (tnotify (Some h) (poll_started (ot_task ot) (ot_attempt ot)) w) = (r, u, w2)"
    and poll: "ObservedTask_poll fpoll cx ot w = (p, ot', w')"
  shows "poll_log (ot_task ot) w' = poll_log (ot_task ot) w @
      [(h, TaskEv (poll_started (ot_task ot) (ot_attempt ot))),
       (h, TaskEv (poll_completed (ot_task ot) (ot_attempt ot) (poll_outcome r)))] @
      (if poll_outcome r = OutPending then [] else [(h, TaskEv (task_completed (ot_task ot)))])"
    and "task_observer_hook (tw_rt w') = Some h" "ot_task ot' = ot_task ot"
    and "ot_finished ot' \<longleftrightarrow> poll_outcome r \<noteq> OutPending"
    and "p = (if poll_outcome r = OutPending then Pending else Ready ())"
    and "ot_attempt ot' = saturating_add (ot_attempt ot) 1"
proof -
  have "poll_log (ot_task ot) w2 = poll_log (ot_task ot) w @ [(h, TaskEv (poll_started (ot_task ot) (ot_attempt ot)))]"
    "task_observer_hook (tw_rt w2) = Some h"
    using assms(1,2) inner unfolding keeps_poll_log_def by fastforce+
  with assms(2,3) inner poll show
    "poll_log (ot_task ot) w' = poll_log (ot_task ot) w @
      [(h, TaskEv (poll_started (ot_task ot) (ot_attempt ot))),
       (h, TaskEv (poll_completed (ot_task ot) (ot_attempt ot) (poll_outcome r)))] @
      (if poll_outcome r = OutPending then [] else [(h, TaskEv (task_completed (ot_task ot)))])"
    "task_observer_hook (tw_rt w') = Some h" "ot_task ot' = ot_task ot"
    "ot_finished ot' \<longleftrightarrow> poll_outcome r \<noteq> OutPending"
    "p = (if poll_outcome r = OutPending then Pending else Ready ())"
    "ot_attempt ot' = saturating_add (ot_attempt ot) 1"
    by (auto simp: ObservedTask_poll_def Let_def split: if_splits option.splits)
qed

definition keeps_env :: "u64 \<Rightarrow> ('x tworld_scheme \<Rightarrow> 'x tworld_scheme) \<Rightarrow> bool" where
  "keeps_env t env \<longleftrightarrow> (\<forall>w. poll_log t (env w) = poll_log t w
     \<and> task_observer_hook (tw_rt (env w)) = task_observer_hook (tw_rt w))"

lemma ObservedTask_run_finished:
  "ot_finished ot \<Longrightarrow> \<forall>(cx, env)\<in>set xs. keeps_env t env \<Longrightarrow>
   \<exists>w'. ObservedTask_run fpoll ot w xs = (replicate (length xs) (Ready ()), ot, w') \<and> poll_log t w' = poll_log t w"
proof (induction xs arbitrary: w)
  case Nil
  then show ?case by simp
next
  case (Cons x xs)
  obtain cx env where x: "x = (cx, env)" by (cases x)
  from Cons.IH [of "env w"] Cons.prems show ?case
    by (auto simp: x ObservedTask_poll_def keeps_env_def)
qed

lemma inner_results_finished: "ot_finished ot \<Longrightarrow> inner_results fpoll ot w xs = []"
  by (cases xs) auto

text \<open>(C17) The poll events of an observed task tell exactly what its future did. Polled any number of
  times by any executor, with the rest of the process running in between, a task reports for each poll
  of its future a start and an end with the attempt number, counted from 0, and the outcome the
  future gave, in that order, and after the first outcome that is not pending one completion and
  nothing more. A panic of the future is such an outcome: it does not escape the poll, it ends the
  task, and every later poll answers ready without touching the future again.\<close>

theorem observed_task_trace:
  fixes fpoll :: "('u, 'x, unit) future_poll" and w :: "'x tworld_scheme"
  assumes "keeps_poll_log (ot_task ot) fpoll" "\<forall>(cx, env)\<in>set xs. keeps_env (ot_task ot) env"
    and "task_observer_hook (tw_rt w) = Some h" "\<not> ot_finished ot"
    and qs: "qs = inner_results fpoll ot w xs"
  shows "\<exists>ot' w'. ObservedTask_run fpoll ot w xs =
       (map (\<lambda>q. if q = OutPending then Pending else Ready ()) qs @ replicate (length xs - length qs) (Ready ()), ot', w')
    \<and> poll_log (ot_task ot) w' = poll_log (ot_task ot) w @ expected_trace h (ot_task ot) (ot_attempt ot) qs
    \<and> (\<forall>q\<in>set (butlast qs). q = OutPending)
    \<and> (ot_finished ot' \<longleftrightarrow> qs \<noteq> [] \<and> last qs \<noteq> OutPending) \<and> (\<not> ot_finished ot' \<longrightarrow> length qs = length xs)"
  using assms
proof (induction xs arbitrary: ot w qs)
  case Nil
  then show ?case by simp
next
  case (Cons x xs)
  obtain cx env where x: "x = (cx, env)" by (cases x)
  let ?t = "ot_task ot"
  have env: "poll_log ?t (env w) = poll_log ?t w" "task_observer_hook (tw_rt (env w)) = Some h"
    using Cons.prems(2,3) by (auto simp: x keeps_env_def)
  obtain r u w2 where inner: "fpoll cx (ot_future ot) (tnotify (Some h) (poll_started ?t (ot_attempt ot)) (env w)) = (r, u, w2)"
    by (metis prod_cases3)
  obtain p ot1 w1 where poll: "ObservedTask_poll fpoll cx ot (env w) = (p, ot1, w1)"
    by (metis prod_cases3)
  note tr = ObservedTask_poll_trace [OF Cons.prems(1) env(2) Cons.prems(4) inner poll]
  have qs: "qs = poll_outcome r # inner_results fpoll ot1 w1 xs"
    using Cons.prems(4) by (simp add: Cons.prems(5) x env(2) inner poll)
  show ?case
  proof (cases "poll_outcome r = OutPending")
    case True
    then have unfinished: "\<not> ot_finished ot1" using tr(4) by simp
    have quiet: "keeps_poll_log (ot_task ot1) fpoll" "\<forall>(cx, env)\<in>set xs. keeps_env (ot_task ot1) env"
      using Cons.prems(1,2) by (simp_all add: tr(3))
    obtain ot' w' where "ObservedTask_run fpoll ot1 w1 xs =
        (map (\<lambda>q. if q = OutPending then Pending else Ready ()) (inner_results fpoll ot1 w1 xs) @
         replicate (length xs - length (inner_results fpoll ot1 w1 xs)) (Ready ()), ot', w')"
      and "poll_log ?t w' = poll_log ?t w1 @ expected_trace h ?t (saturating_add (ot_attempt ot) 1) (inner_results fpoll ot1 w1 xs)"
      and "\<forall>q\<in>set (butlast (inner_results fpoll ot1 w1 xs)). q = OutPending"
      and "ot_finished ot' \<longleftrightarrow> inner_results fpoll ot1 w1 xs \<noteq> [] \<and> last (inner_results fpoll ot1 w1 xs) \<noteq> OutPending"
      and "\<not> ot_finished ot' \<longrightarrow> length (inner_results fpoll ot1 w1 xs) = length xs"
      using Cons.IH [OF quiet tr(2) unfinished refl, unfolded tr(3,6)] by blast
    then show ?thesis using True tr(1,5) env(1) by (auto simp: qs x poll)
  next
    case False
    then have fin: "ot_finished ot1" using tr(4) by simp
    from ObservedTask_run_finished [OF fin, of xs ?t fpoll w1] Cons.prems(2)
    obtain w' where "ObservedTask_run fpoll ot1 w1 xs = (replicate (length xs) (Ready ()), ot1, w')"
      "poll_log ?t w' = poll_log ?t w1" by auto
    then show ?thesis using False fin tr(1,5) env(1) by (auto simp: qs x poll inner_results_finished)
  qed
qed

text \<open>A future that waits once and then panics, under observer 3: two attempts, the panic contained.\<close>

definition observed_world :: tworld where
  "observed_world = \<lparr>tw_rt = install_task_observer_hook 3 rt_init, tw_cells = [], tw_woken = []\<rparr>"

definition wait_then_panic :: "(bool, unit, unit) future_poll" where
  "wait_then_panic cx waited w = (if waited then Inl ForeignPanic else Inr Pending, True, w)"

theorem observed_task_trace_witness:
  "\<exists>ot' w'. ObservedTask_run wait_then_panic (ObservedTask_without_completion 8 False) observed_world
       [(1, id), (2, id), (2, id)] = ([Pending, Ready (), Ready ()], ot', w')
    \<and> poll_log 8 w' = [(3, TaskEv (poll_started 8 0)), (3, TaskEv (poll_completed 8 0 OutPending)),
        (3, TaskEv (poll_started 8 1)), (3, TaskEv (poll_completed 8 1 OutPanicked)), (3, TaskEv (task_completed 8))]
    \<and> ot_finished ot'"
proof -
  have start: "task_observer_hook (tw_rt observed_world) = Some 3" "poll_log 8 observed_world = []"
    by (simp_all add: observed_world_def poll_log_def hook_installs hook_reads rt_init_def)
  have quiet: "keeps_poll_log (ot_task (ObservedTask_without_completion 8 False)) wait_then_panic"
    "\<forall>(cx, env)\<in>set [(1 :: waker, id), (2, id), (2, id)]. keeps_env (ot_task (ObservedTask_without_completion 8 False))
       (env :: tworld \<Rightarrow> tworld)"
    by (simp_all add: keeps_poll_log_def wait_then_panic_def keeps_env_def)
  have qs: "[OutPending, OutPanicked] = inner_results wait_then_panic (ObservedTask_without_completion 8 False)
      observed_world [(1, id), (2, id), (2, id)]"
    by (simp add: start wait_then_panic_def ObservedTask_without_completion_def ObservedTask_poll_def poll_outcome_def Let_def)
  have one: "saturating_add 0 1 = (1 :: u64)" by (simp add: saturating_add_def)
  from observed_task_trace [OF quiet start(1) _ qs] show ?thesis
    by (simp add: ObservedTask_without_completion_def start one)
qed

section \<open>A task set and its handles\<close>

text \<open>The process while a task set runs: the handles it gave out, and for the handle of each task
  whose last poll was pending the waker of that poll with the number of wakes before it.\<close>

record hworld = tworld +
  hw_handles :: "TaskSetHandle list"
  hw_waiting :: "nat \<Rightarrow> (waker \<times> nat) option"

definition poll_handle :: "nat \<Rightarrow> waker \<Rightarrow> hworld \<Rightarrow> hworld" where
  "poll_handle j cx w =
     (case TaskSetHandle_poll cx (hw_handles w ! j) w of
        (p, h', w') \<Rightarrow> w'\<lparr>hw_handles := (hw_handles w')[j := h'],
          hw_waiting := (hw_waiting w')(j := if is_ready p then None else Some (cx, length (tw_woken w')))\<rparr>)"

definition poll_handles :: "(nat \<times> waker) list \<Rightarrow> hworld \<Rightarrow> hworld" where
  "poll_handles hs = fold (\<lambda>(j, c) w. if j < length (hw_handles w) then poll_handle j c w else w) hs"

text \<open>A future of the set: at each poll it may poll handles of other tasks and of its own, and then
  return or panic.\<close>

definition scripted :: "(nat \<times> waker) list \<Rightarrow> panic + unit poll \<Rightarrow> waker \<Rightarrow> 'u \<Rightarrow> hworld
    \<Rightarrow> (panic + unit poll) \<times> 'u \<times> hworld" where
  "scripted hs r cx u w = (r, u, poll_handles hs w)"

inductive set_step :: "'u TaskSet \<times> hworld \<Rightarrow> 'u TaskSet \<times> hworld \<Rightarrow> bool" where
  step_spawn: "TaskSet_spawn u (ts, w) = (Inr h, (ts', w')) \<Longrightarrow>
    set_step (ts, w) (ts', w'\<lparr>hw_handles := hw_handles w' @ [h]\<rparr>)"
| step_poll_task: "i < length (ts_tasks ts) \<Longrightarrow>
    ObservedTask_poll (scripted hs r) cx (ts_tasks ts ! i) w = (p, ot', w') \<Longrightarrow>
    set_step (ts, w) (ts\<lparr>ts_tasks := (ts_tasks ts)[i := ot']\<rparr>, w')"
| step_poll_handle: "set_step (ts, w) (ts, poll_handles [(j, cx)] w)"
| step_registry: "set_step (ts, w) (ts, w\<lparr>tw_rt := fold registry_apply ops (tw_rt w)\<rparr>)"

definition set_start :: "rt \<Rightarrow> 'u TaskSet \<times> hworld" where
  "set_start s = (TaskSet_new, \<lparr>tw_rt = s, tw_cells = [], tw_woken = [], hw_handles = [], hw_waiting = (\<lambda>_. None)\<rparr>)"

text \<open>Cell, handle and waiting entry of task \<open>i\<close> agree on whether it finished.\<close>

definition slot_ok :: "bool \<Rightarrow> nat \<Rightarrow> CompletionState \<Rightarrow> TaskSetHandle \<Rightarrow> (waker \<times> nat) option \<Rightarrow> waker list \<Rightarrow> bool" where
  "slot_ok fin i cell h waiting woken \<longleftrightarrow>
     cs_finished cell = fin \<and> th_completion h = i \<and> th_task h = of_nat i \<and> (th_resolved h \<longrightarrow> fin) \<and>
     (case waiting of None \<Rightarrow> True
      | Some (c, n) \<Rightarrow> n \<le> length woken \<and> (if fin then c \<in> set (drop n woken) else cs_waker cell = Some c))"

definition cells_ok :: "bool list \<Rightarrow> hworld \<Rightarrow> bool" where
  "cells_ok fin w \<longleftrightarrow> length (tw_cells w) = length fin \<and> length (hw_handles w) = length fin \<and>
     (\<forall>i<length fin. slot_ok (fin ! i) i (tw_cells w ! i) (hw_handles w ! i) (hw_waiting w i) (tw_woken w)) \<and>
     (\<forall>i\<ge>length fin. hw_waiting w i = None)"

definition set_inv :: "'u TaskSet \<times> hworld \<Rightarrow> bool" where
  "set_inv = (\<lambda>(ts, w). cells_ok (map ot_finished (ts_tasks ts)) w \<and> length (ts_tasks ts) \<le> MAX_MODEL_TASKS \<and>
     (\<forall>i<length (ts_tasks ts). ot_task (ts_tasks ts ! i) = of_nat i \<and> ot_completion (ts_tasks ts ! i) = Some i))"

lemma cells_ok_cong:
  "cells_ok fin w \<Longrightarrow> tw_cells w' = tw_cells w \<Longrightarrow> tw_woken w' = tw_woken w \<Longrightarrow> tworld.more w' = tworld.more w
   \<Longrightarrow> cells_ok fin w'"
  by (cases w; cases w') (simp add: cells_ok_def)

lemma cells_ok_tnotify: "cells_ok fin w \<Longrightarrow> cells_ok fin (tnotify ho e w)"
  by (rule cells_ok_cong) simp_all

lemma slot_ok_more_wakes: "slot_ok fin i cell h waiting woken \<Longrightarrow> slot_ok fin i cell h waiting (woken @ ws)"
  by (auto simp: slot_ok_def split: option.splits)

lemma poll_handle_effect:
  "\<exists>s' h'. poll_handle j cx w = w\<lparr>tw_rt := s',
       tw_cells := (if cs_finished (tw_cells w ! th_completion (hw_handles w ! j)) then tw_cells w
         else (tw_cells w)[th_completion (hw_handles w ! j) :=
           (tw_cells w ! th_completion (hw_handles w ! j))\<lparr>cs_waker := Some cx\<rparr>]),
       hw_handles := (hw_handles w)[j := h'],
       hw_waiting := (hw_waiting w)(j := if cs_finished (tw_cells w ! th_completion (hw_handles w ! j)) then None
         else Some (cx, length (tw_woken w)))\<rparr>
     \<and> th_task h' = th_task (hw_handles w ! j) \<and> th_completion h' = th_completion (hw_handles w ! j)
     \<and> (th_resolved h' \<longrightarrow> th_resolved (hw_handles w ! j) \<or> cs_finished (tw_cells w ! th_completion (hw_handles w ! j)))"
proof -
  have same: "xs[a := (xs ! a)\<lparr>cs_waker := Some cx\<rparr>] = xs" if "cs_waker (xs ! a) = Some cx" for xs :: "CompletionState list" and a
  proof -
    have "(xs ! a)\<lparr>cs_waker := Some cx\<rparr> = xs ! a" using that by (cases "xs ! a") simp
    then show ?thesis by (metis list_update_id)
  qed
  show ?thesis
    by (cases w)
      (auto simp: poll_handle_def TaskSetHandle_poll_def TaskCompletion_poll_def tnotify_def Let_def same split: option.splits)
qed

lemma cells_ok_poll_handle:
  assumes "cells_ok fin w" "j < length fin"
  shows "cells_ok fin (poll_handle j cx w)"
proof -
  have c: "th_completion (hw_handles w ! j) = j" using assms by (auto simp: cells_ok_def slot_ok_def)
  obtain s' h' where eff: "poll_handle j cx w = w\<lparr>tw_rt := s',
       tw_cells := (if cs_finished (tw_cells w ! j) then tw_cells w
         else (tw_cells w)[j := (tw_cells w ! j)\<lparr>cs_waker := Some cx\<rparr>]),
       hw_handles := (hw_handles w)[j := h'],
       hw_waiting := (hw_waiting w)(j := if cs_finished (tw_cells w ! j) then None else Some (cx, length (tw_woken w)))\<rparr>"
     "th_task h' = th_task (hw_handles w ! j)" "th_completion h' = j"
     "th_resolved h' \<longrightarrow> th_resolved (hw_handles w ! j) \<or> cs_finished (tw_cells w ! j)"
    using poll_handle_effect [of j cx w] unfolding c by blast
  have "slot_ok (fin ! i) i (tw_cells (poll_handle j cx w) ! i) (hw_handles (poll_handle j cx w) ! i)
      (hw_waiting (poll_handle j cx w) i) (tw_woken (poll_handle j cx w))" if "i < length fin" for i
  proof (cases "i = j")
    case True
    with assms that eff(2-4) show ?thesis by (auto simp: eff(1) cells_ok_def slot_ok_def)
  next
    case False
    with assms that show ?thesis by (simp add: eff(1) cells_ok_def)
  qed
  with assms show ?thesis by (simp add: cells_ok_def eff(1))
qed

lemma cells_ok_poll_handles: "cells_ok fin w \<Longrightarrow> cells_ok fin (poll_handles hs w)"
proof (induction hs arbitrary: w)
  case Nil
  then show ?case by (simp add: poll_handles_def)
next
  case (Cons x hs)
  have "length (hw_handles w) = length fin" using Cons.prems by (simp add: cells_ok_def)
  with Cons.IH Cons.prems show ?case
    by (cases x) (simp add: poll_handles_def cells_ok_poll_handle)
qed

lemma cells_ok_complete:
  assumes "cells_ok fin w" "i < length fin" "\<not> fin ! i"
  shows "cells_ok (fin[i := True]) (TaskCompletion_complete i w)"
proof -
  let ?w' = "TaskCompletion_complete i w"
  have eff: "?w' = w\<lparr>tw_cells := (tw_cells w)[i := (tw_cells w ! i)\<lparr>cs_finished := True, cs_waker := None\<rparr>],
      tw_woken := tw_woken w @ (case cs_waker (tw_cells w ! i) of None \<Rightarrow> [] | Some c \<Rightarrow> [c])\<rparr>"
    by (simp add: TaskCompletion_complete_def Let_def split: option.split)
  have "slot_ok (fin[i := True] ! k) k (tw_cells ?w' ! k) (hw_handles ?w' ! k) (hw_waiting ?w' k) (tw_woken ?w')"
    if "k < length fin" for k
  proof (cases "k = i")
    case True
    with assms that show ?thesis
      by (auto simp: eff cells_ok_def slot_ok_def split: option.splits)
  next
    case False
    with assms that show ?thesis by (simp add: eff cells_ok_def slot_ok_more_wakes)
  qed
  with assms show ?thesis by (simp add: cells_ok_def eff)
qed

lemma cells_ok_push:
  assumes "cells_ok fin w" "slot_ok False (length fin) cell h None (tw_woken w)"
    and "tw_cells w' = tw_cells w @ [cell]" "hw_handles w' = hw_handles w @ [h]"
    and "hw_waiting w' = hw_waiting w" "tw_woken w' = tw_woken w"
  shows "cells_ok (fin @ [False]) w'"
  using assms by (auto simp: cells_ok_def nth_append less_Suc_eq)

lemma set_inv_spawn:
  assumes "set_inv (ts, w)" "TaskSet_spawn u (ts, w) = (Inr h, (ts', w'))"
  shows "set_inv (ts', w'\<lparr>hw_handles := hw_handles w' @ [h]\<rparr>)"
proof -
  let ?n = "length (ts_tasks ts)"
  have cells: "cells_ok (map ot_finished (ts_tasks ts)) w" and n: "?n < MAX_MODEL_TASKS"
    using assms by (auto simp: set_inv_def TaskSet_spawn_def Let_def split: if_splits)
  then have len: "length (tw_cells w) = ?n" "length (hw_handles w) = ?n" "hw_waiting w ?n = None"
    by (simp_all add: cells_ok_def)
  have eff: "h = \<lparr>th_task = of_nat ?n, th_completion = ?n, th_requested = False, th_resolved = False\<rparr>"
    "ts_tasks ts' = ts_tasks ts @ [\<lparr>ot_task = of_nat ?n, ot_future = u, ot_completion = Some ?n, ot_attempt = 0, ot_finished = False\<rparr>]"
    "tw_cells w' = tw_cells w @ [CompletionState_default]" "tw_woken w' = tw_woken w" "tworld.more w' = tworld.more w"
    using assms(2) n by (auto simp: TaskSet_spawn_def Let_def len tnotify_def)
  have more: "hw_handles w' = hw_handles w" "hw_waiting w' = hw_waiting w"
    using eff(5) by (cases w; cases w'; simp)+
  have "cells_ok (map ot_finished (ts_tasks ts) @ [False]) (w'\<lparr>hw_handles := hw_handles w' @ [h]\<rparr>)"
    by (rule cells_ok_push [OF cells])
      (simp_all add: more eff(3,4) slot_ok_def CompletionState_default_def, simp_all add: eff(1))
  with assms(1) n show ?thesis
    by (auto simp: set_inv_def eff(2) nth_append less_Suc_eq)
qed

lemma set_inv_poll_task:
  assumes inv: "set_inv (ts, w)" and i: "i < length (ts_tasks ts)"
    and poll: "ObservedTask_poll (scripted hs r) cx (ts_tasks ts ! i) w = (p, ot', w')"
  shows "set_inv (ts\<lparr>ts_tasks := (ts_tasks ts)[i := ot']\<rparr>, w')"
proof -
  let ?ot = "ts_tasks ts ! i" and ?fin = "map ot_finished (ts_tasks ts)"
  have ok: "cells_ok ?fin w" and c: "ot_completion ?ot = Some i"
    and ids: "\<And>k. k < length (ts_tasks ts) \<Longrightarrow> ot_task (ts_tasks ts ! k) = of_nat k \<and> ot_completion (ts_tasks ts ! k) = Some k"
    and len: "length (ts_tasks ts) \<le> MAX_MODEL_TASKS"
    using inv i by (auto simp: set_inv_def)
  have mid: "cells_ok ?fin (tnotify ho e1 (poll_handles hs (tnotify ho e2 w)))" for ho e1 e2
    by (intro cells_ok_tnotify cells_ok_poll_handles ok)
  have fixed: "ot_task ot' = ot_task ?ot" "ot_completion ot' = ot_completion ?ot"
    using poll by (auto simp: ObservedTask_poll_def scripted_def Let_def split: if_splits)
  have "cells_ok (?fin[i := ot_finished ot']) w'"
  proof (cases "ot_finished ?ot \<or> poll_outcome r = OutPending")
    case True
    with poll have "ot_finished ot' = ot_finished ?ot"
      and "w' = w \<or> (\<exists>ho e1 e2. w' = tnotify ho e1 (poll_handles hs (tnotify ho e2 w)))"
      by (auto simp: ObservedTask_poll_def scripted_def Let_def split: if_splits)
    moreover have "?fin[i := ot_finished ?ot] = ?fin" using i by (metis list_update_id nth_map)
    ultimately show ?thesis using ok mid by auto
  next
    case False
    with poll c obtain ho e1 e2 e3 where "ot_finished ot'"
      and w': "w' = tnotify ho e3 (TaskCompletion_complete i (tnotify ho e1 (poll_handles hs (tnotify ho e2 w))))"
      by (auto simp: ObservedTask_poll_def scripted_def Let_def split: if_splits)
    moreover have "\<not> ?fin ! i" using False i by simp
    ultimately show ?thesis
      using cells_ok_tnotify [OF cells_ok_complete [OF mid [of ho e1 e2] _ \<open>\<not> ?fin ! i\<close>], of ho e3] i by simp
  qed
  then show ?thesis
    using ids len fixed i by (auto simp: set_inv_def map_update nth_list_update)
qed

lemma set_inv_reachable: "set_step\<^sup>*\<^sup>* (set_start s) x \<Longrightarrow> set_inv x"
proof (induction rule: rtranclp_induct)
  case base
  show ?case by (simp add: set_inv_def set_start_def TaskSet_new_def cells_ok_def)
next
  case (step y z)
  from step.hyps(2) step.IH show ?case
  proof (cases rule: set_step.cases)
    case (step_spawn u ts w h ts' w')
    with step.IH show ?thesis by (simp add: set_inv_spawn)
  next
    case (step_poll_task i ts hs r cx w p ot' w')
    with step.IH show ?thesis by (simp add: set_inv_poll_task)
  next
    case (step_poll_handle ts w j cx)
    with step.IH show ?thesis by (simp add: set_inv_def cells_ok_poll_handles)
  next
    case (step_registry ts w ops)
    with step.IH show ?thesis by (auto simp: set_inv_def intro: cells_ok_cong)
  qed
qed

lemma TaskSetHandle_poll_ready:
  "fst (TaskSetHandle_poll cx h w) = (if cs_finished (tw_cells w ! th_completion h) then Ready () else Pending)"
  by (auto simp: TaskSetHandle_poll_def TaskCompletion_poll_def Let_def split: prod.splits)

text \<open>(C8) No wakeup of a join is lost. In every interleaving of registrations, polls of tasks (whose
  futures may poll any handles and may panic), polls of handles with any wakers and changes of the
  hook registry, for each registered task: its id is its position, below the task limit; its handle
  is ready exactly when the task has finished, by returning or by a contained panic; and when the last
  poll of the handle was pending, its waker is stored in the completion cell while the task runs and
  has been woken since that poll once the task has finished.\<close>

theorem taskset_no_lost_wakeup:
  assumes "set_step\<^sup>*\<^sup>* (set_start s) (ts, w)" "j < length (ts_tasks ts)"
  shows "length (ts_tasks ts) \<le> 16 \<and> ot_task (ts_tasks ts ! j) = of_nat j \<and> th_task (hw_handles w ! j) = of_nat j
    \<and> fst (TaskSetHandle_poll cx (hw_handles w ! j) w) = (if ot_finished (ts_tasks ts ! j) then Ready () else Pending)
    \<and> (case hw_waiting w j of None \<Rightarrow> True
       | Some (waker, before) \<Rightarrow>
           if ot_finished (ts_tasks ts ! j) then waker \<in> set (drop before (tw_woken w))
           else cs_waker (tw_cells w ! j) = Some waker)"
proof -
  from set_inv_reachable [OF assms(1)] assms(2)
  have slot: "slot_ok (ot_finished (ts_tasks ts ! j)) j (tw_cells w ! j) (hw_handles w ! j) (hw_waiting w j) (tw_woken w)"
    and "length (ts_tasks ts) \<le> 16" "ot_task (ts_tasks ts ! j) = of_nat j"
    by (auto simp: set_inv_def cells_ok_def MAX_MODEL_TASKS_def)
  then show ?thesis
    by (auto simp: slot_ok_def TaskSetHandle_poll_ready split: option.splits)
qed

text \<open>One task whose future panics at its first poll: the handle waited with waker 7, which is woken.\<close>

theorem taskset_no_lost_wakeup_witness:
  "\<exists>(ts :: unit TaskSet) w. set_step\<^sup>*\<^sup>* (set_start rt_init) (ts, w) \<and> ts_tasks ts \<noteq> [] \<and> ot_finished (ts_tasks ts ! 0)
     \<and> hw_waiting w 0 = Some (7, 0) \<and> 7 \<in> set (tw_woken w)"
proof -
  let ?ot = "\<lparr>ot_task = 0, ot_future = (), ot_completion = Some 0, ot_attempt = 0, ot_finished = False\<rparr>"
  let ?h = "\<lparr>th_task = 0, th_completion = 0, th_requested = False, th_resolved = False\<rparr>"
  let ?w = "\<lparr>tw_rt = rt_init, tw_cells = [CompletionState_default], tw_woken = [], hw_handles = [], hw_waiting = (\<lambda>_. None)\<rparr>"
  let ?w1 = "?w\<lparr>hw_handles := [?h]\<rparr>"
  let ?w2 = "poll_handles [(0, 7)] ?w1"
  let ?r = "ObservedTask_poll (scripted [] (Inl ForeignPanic)) 1 ?ot ?w2"
  have off: "task_observer_hook rt_init = None" by (simp add: hook_reads rt_init_def)
  have "TaskSet_spawn () (TaskSet_new, ?w\<lparr>tw_cells := []\<rparr>) = (Inr ?h, (\<lparr>ts_tasks = [?ot]\<rparr>, ?w))"
    by (simp add: TaskSet_spawn_def TaskSet_new_def MAX_MODEL_TASKS_def tnotify_def off Let_def)
  from step_spawn [OF this] have "set_step (set_start rt_init) (\<lparr>ts_tasks = [?ot]\<rparr>, ?w1)"
    by (simp add: set_start_def)
  moreover have "set_step (\<lparr>ts_tasks = [?ot]\<rparr>, ?w1) (\<lparr>ts_tasks = [?ot]\<rparr>, ?w2)" by (rule step_poll_handle)
  moreover have "set_step (\<lparr>ts_tasks = [?ot]\<rparr>, ?w2) (\<lparr>ts_tasks = [fst (snd ?r)]\<rparr>, snd (snd ?r))"
    using step_poll_task [of 0 "\<lparr>ts_tasks = [?ot]\<rparr>" "[]" "Inl ForeignPanic" 1 ?w2 "fst ?r" "fst (snd ?r)" "snd (snd ?r)"]
    by simp
  ultimately have run: "set_step\<^sup>*\<^sup>* (set_start rt_init) (\<lparr>ts_tasks = [fst (snd ?r)]\<rparr>, snd (snd ?r))"
    by (rule rtranclp.rtrancl_into_rtrancl [OF rtranclp.rtrancl_into_rtrancl [OF r_into_rtranclp]])
  have fin: "ot_finished (fst (snd ?r))"
    by (simp add: ObservedTask_poll_def scripted_def poll_outcome_def Let_def)
  have waits: "hw_waiting (snd (snd ?r)) 0 = Some (7, 0)"
    by (simp add: ObservedTask_poll_def scripted_def poll_outcome_def poll_handles_def poll_handle_def TaskSetHandle_poll_def
        TaskCompletion_poll_def TaskCompletion_complete_def CompletionState_default_def tnotify_def off Let_def)
  from taskset_no_lost_wakeup [OF run, of 0]
  have woken: "7 \<in> set (tw_woken (snd (snd ?r)))"
    by (simp only: TaskSet.simps list.size nth_Cons_0 fin waits) simp
  show ?thesis
    by (intro exI, rule conjI, rule run) (simp only: TaskSet.simps nth_Cons_0 fin waits woken list.distinct simp_thms)
qed

end
