(* ===== verification/Spawn.thy ===== *)
theory Spawn
  imports Tasks
begin

text \<open>
  The spawn seam of \<^verbatim>\<open>spawn.rs\<close>: model threads (\<open>spawn\<close>, \<open>JoinToken\<close>) and async tasks (\<open>spawn_task\<close>,
  \<open>TaskHandle\<close>) in their three modes, engine, observed native and native. The standard library's
  threads, tokio's tasks and the engine behind the hooks are parameters. The output slot and the
  panic flag a task shares with its handle live in a store.
\<close>

section \<open>Model threads\<close>

text \<open>Starting and joining a thread of the standard library, and the engine's side of the hook.\<close>

record ('k, 'f, 'j, 'p) thread_env =
  std_spawn :: "'f \<Rightarrow> 'k \<Rightarrow> 'j \<times> 'k"
  std_join :: "'j \<Rightarrow> 'k \<Rightarrow> ('p + unit) \<times> 'k"

datatype 'j JoinMode = JoinStd 'j | JoinEngine

record 'j JoinToken =
  jt_mode :: "'j JoinMode"

definition JoinToken_from_std :: "'j \<Rightarrow> 'j JoinToken" where
  "JoinToken_from_std handle = \<lparr>jt_mode = JoinStd handle\<rparr>"

definition JoinToken_engine :: "'j JoinToken" where
  "JoinToken_engine = \<lparr>jt_mode = JoinEngine\<rparr>"

definition JoinToken_join :: "('k, 'f, 'j, 'p) thread_env \<Rightarrow> 'j JoinToken \<Rightarrow> 'k \<Rightarrow> ('p + unit) \<times> 'k" where
  "JoinToken_join E self k = (case jt_mode self of JoinStd handle \<Rightarrow> std_join E handle k | JoinEngine \<Rightarrow> (Inr (), k))"

text \<open>\<open>hook_spawn\<close> is what the installed hook does with the closure.\<close>

definition spawn :: "('k, 'f, 'j, 'p) thread_env \<Rightarrow> (hook \<Rightarrow> 'f \<Rightarrow> 'k \<Rightarrow> 'j JoinToken \<times> 'k) \<Rightarrow> 'f
    \<Rightarrow> 'k \<times> rt \<Rightarrow> 'j JoinToken \<times> ('k \<times> rt)" where
  "spawn E hook_spawn f = (\<lambda>(k, s).
     case spawn_hook s of
       Some hook \<Rightarrow> (case hook_spawn hook f k of (token, k') \<Rightarrow> (token, (k', s)))
     | None \<Rightarrow> (case std_spawn E f k of (handle, k') \<Rightarrow> (JoinToken_from_std handle, (k', s))))"

section \<open>Join errors\<close>

datatype TaskControlState = CtlFinished | CtlCancelled | CtlPanicked

datatype TaskJoinErrorKind = KindCancelled | KindPanic

record TaskJoinError =
  tje_kind :: TaskJoinErrorKind

definition TaskJoinError_cancelled :: TaskJoinError where
  "TaskJoinError_cancelled = \<lparr>tje_kind = KindCancelled\<rparr>"

definition TaskJoinError_panic :: TaskJoinError where
  "TaskJoinError_panic = \<lparr>tje_kind = KindPanic\<rparr>"

definition TaskJoinError_is_cancelled :: "TaskJoinError \<Rightarrow> bool" where
  "TaskJoinError_is_cancelled self = (case tje_kind self of KindCancelled \<Rightarrow> True | _ \<Rightarrow> False)"

definition TaskJoinError_is_panic :: "TaskJoinError \<Rightarrow> bool" where
  "TaskJoinError_is_panic self = (case tje_kind self of KindPanic \<Rightarrow> True | _ \<Rightarrow> False)"

definition TaskJoinError_fmt :: "TaskJoinError \<Rightarrow> string" where
  "TaskJoinError_fmt self =
     (if TaskJoinError_is_cancelled self then ''task was cancelled'' else ''task panicked'')"

section \<open>Tasks and their slots\<close>

text \<open>The process with tokio's state, the output slots and the panic flags.\<close>

record ('k, 'a) sworld = tworld +
  sw_tokio :: 'k
  sw_output :: "'a option list"
  sw_panicked :: "bool list"

text \<open>The observed future: the user's future with the addresses of its slot and flag.\<close>

record 'u NativeObservedFuture =
  no_future :: 'u
  no_output :: nat
  no_panicked :: nat

type_synonym ('u, 'k, 'a, 'b) sfuture_poll = "('u, ('k, 'a, unit) sworld_ext, 'b) future_poll"

definition NativeObservedFuture_poll :: "('u, 'k, 'a, 'a) sfuture_poll
    \<Rightarrow> ('u NativeObservedFuture, 'k, 'a, unit) sfuture_poll" where
  "NativeObservedFuture_poll fpoll cx this w =
     (case fpoll cx (no_future this) w of
        (Inr Pending, u, w') \<Rightarrow> (Inr Pending, this\<lparr>no_future := u\<rparr>, w')
      | (Inr (Ready v), u, w') \<Rightarrow>
          (Inr (Ready ()), this\<lparr>no_future := u\<rparr>, w'\<lparr>sw_output := (sw_output w')[no_output this := Some v]\<rparr>)
      | (Inl payload, u, w') \<Rightarrow>
          (Inl payload, this\<lparr>no_future := u\<rparr>, w'\<lparr>sw_panicked := (sw_panicked w')[no_panicked this := True]\<rparr>))"

text \<open>The \<open>async move\<close> block handed to the engine: await the future, then publish its value.\<close>

record 'u EngineFuture =
  ef_future :: 'u
  ef_output :: nat

definition EngineFuture_poll :: "('u, 'k, 'a, 'a) sfuture_poll \<Rightarrow> ('u EngineFuture, 'k, 'a, unit) sfuture_poll" where
  "EngineFuture_poll fpoll cx this w =
     (case fpoll cx (ef_future this) w of
        (Inr Pending, u, w') \<Rightarrow> (Inr Pending, this\<lparr>ef_future := u\<rparr>, w')
      | (Inr (Ready v), u, w') \<Rightarrow>
          (Inr (Ready ()), this\<lparr>ef_future := u\<rparr>, w'\<lparr>sw_output := (sw_output w')[ef_output this := Some v]\<rparr>)
      | (Inl p, u, w') \<Rightarrow> (Inl p, this\<lparr>ef_future := u\<rparr>, w'))"

text \<open>tokio's tasks, for any output and for the unit output of observed tasks, and the engine's
  task control.\<close>

record ('k, 'u, 'j, 'jo, 'c, 'e, 'a) task_env =
  tokio_spawn :: "'u \<Rightarrow> 'k \<Rightarrow> (panic + 'j) \<times> 'k"
  tokio_spawn_observed :: "'u NativeObservedFuture ObservedTask \<Rightarrow> 'k \<Rightarrow> (panic + 'jo) \<times> 'k"
  hook_spawn_task :: "hook \<Rightarrow> 'u EngineFuture \<Rightarrow> 'k \<Rightarrow> (panic + 'c) \<times> 'k"
  join_poll :: "waker \<Rightarrow> 'j \<Rightarrow> 'k \<Rightarrow> ('e + 'a) poll \<times> 'j \<times> 'k"
  join_abort :: "'j \<Rightarrow> 'k \<Rightarrow> 'k"
  join_is_finished :: "'j \<Rightarrow> 'k \<Rightarrow> bool"
  ojoin_poll :: "waker \<Rightarrow> 'jo \<Rightarrow> 'k \<Rightarrow> ('e + unit) poll \<times> 'jo \<times> 'k"
  ojoin_abort :: "'jo \<Rightarrow> 'k \<Rightarrow> 'k"
  ojoin_is_finished :: "'jo \<Rightarrow> 'k \<Rightarrow> bool"
  control_poll :: "waker \<Rightarrow> 'c \<Rightarrow> 'k \<Rightarrow> TaskControlState poll \<times> 'c \<times> 'k"
  control_abort :: "'c \<Rightarrow> 'k \<Rightarrow> 'k"
  control_is_finished :: "'c \<Rightarrow> 'k \<Rightarrow> bool"
  error_is_cancelled :: "'e \<Rightarrow> bool"

datatype ('j, 'jo, 'c) TaskHandleMode =
    ModeNative 'j
  | ModeObservedNative u64 'jo nat nat
  | ModeEngine 'c nat

record ('j, 'jo, 'c) TaskHandle =
  hd_mode :: "('j, 'jo, 'c) TaskHandleMode"
  hd_requested :: bool
  hd_resolved :: bool

definition TaskHandle_native :: "'j \<Rightarrow> ('j, 'jo, 'c) TaskHandle" where
  "TaskHandle_native handle = \<lparr>hd_mode = ModeNative handle, hd_requested = False, hd_resolved = False\<rparr>"

definition TaskHandle_observed_native :: "u64 \<Rightarrow> 'jo \<Rightarrow> nat \<Rightarrow> nat \<Rightarrow> ('j, 'jo, 'c) TaskHandle" where
  "TaskHandle_observed_native task handle output panicked =
     \<lparr>hd_mode = ModeObservedNative task handle output panicked, hd_requested = False, hd_resolved = False\<rparr>"

definition TaskHandle_engine :: "'c \<Rightarrow> nat \<Rightarrow> ('j, 'jo, 'c) TaskHandle" where
  "TaskHandle_engine control output = \<lparr>hd_mode = ModeEngine control output, hd_requested = False, hd_resolved = False\<rparr>"

definition TaskHandle_abort :: "('k, 'u, 'j, 'jo, 'c, 'e, 'a) task_env \<Rightarrow> ('j, 'jo, 'c) TaskHandle
    \<Rightarrow> ('k, 'a) sworld \<Rightarrow> ('k, 'a) sworld" where
  "TaskHandle_abort E self w = w\<lparr>sw_tokio :=
     (case hd_mode self of
        ModeNative handle \<Rightarrow> join_abort E handle (sw_tokio w)
      | ModeObservedNative task handle output panicked \<Rightarrow> ojoin_abort E handle (sw_tokio w)
      | ModeEngine control output \<Rightarrow> control_abort E control (sw_tokio w))\<rparr>"

definition TaskHandle_is_finished :: "('k, 'u, 'j, 'jo, 'c, 'e, 'a) task_env \<Rightarrow> ('j, 'jo, 'c) TaskHandle
    \<Rightarrow> ('k, 'a) sworld \<Rightarrow> bool" where
  "TaskHandle_is_finished E self w =
     (case hd_mode self of
        ModeNative handle \<Rightarrow> join_is_finished E handle (sw_tokio w)
      | ModeObservedNative task handle output panicked \<Rightarrow> ojoin_is_finished E handle (sw_tokio w)
      | ModeEngine control output \<Rightarrow> control_is_finished E control (sw_tokio w))"

text \<open>The error of a join as the shadow reports it, and the slot emptied by \<open>take\<close>.\<close>

definition map_join_error :: "('k, 'u, 'j, 'jo, 'c, 'e, 'a) task_env \<Rightarrow> 'e \<Rightarrow> TaskJoinError" where
  "map_join_error E error = (if error_is_cancelled E error then TaskJoinError_cancelled else TaskJoinError_panic)"

definition take_output :: "nat \<Rightarrow> ('k, 'a) sworld \<Rightarrow> (panic + 'a) \<times> ('k, 'a) sworld" where
  "take_output a w =
     (case sw_output w ! a of
        Some v \<Rightarrow> (Inr v, w\<lparr>sw_output := (sw_output w)[a := None]\<rparr>)
      | None \<Rightarrow> (Inl OutputMissing, w))"

definition TaskHandle_poll_mode :: "('k, 'u, 'j, 'jo, 'c, 'e, 'a) task_env \<Rightarrow> waker \<Rightarrow> ('j, 'jo, 'c) TaskHandleMode
    \<Rightarrow> ('k, 'a) sworld \<Rightarrow> (panic + (TaskJoinError + 'a) poll) \<times> ('j, 'jo, 'c) TaskHandleMode \<times> ('k, 'a) sworld" where
  "TaskHandle_poll_mode E cx mode w =
     (case mode of
        ModeNative handle \<Rightarrow>
          (case join_poll E cx handle (sw_tokio w) of
             (p, handle', k) \<Rightarrow>
               (Inr (map_poll (\<lambda>result. case result of Inl e \<Rightarrow> Inl (map_join_error E e) | Inr v \<Rightarrow> Inr v) p),
                ModeNative handle', w\<lparr>sw_tokio := k\<rparr>))
      | ModeObservedNative task handle output panicked \<Rightarrow>
          (case ojoin_poll E cx handle (sw_tokio w) of
             (p, handle', k) \<Rightarrow>
               let mode' = ModeObservedNative task handle' output panicked; w' = w\<lparr>sw_tokio := k\<rparr> in
               (case p of
                  Pending \<Rightarrow> (Inr Pending, mode', w')
                | Ready (Inl e) \<Rightarrow> (Inr (Ready (Inl (map_join_error E e))), mode', w')
                | Ready (Inr _) \<Rightarrow>
                    if sw_panicked w' ! panicked then (Inr (Ready (Inl TaskJoinError_panic)), mode', w')
                    else (case take_output output w' of
                            (Inl x, w'') \<Rightarrow> (Inl x, mode', w'')
                          | (Inr v, w'') \<Rightarrow> (Inr (Ready (Inr v)), mode', w''))))
      | ModeEngine control output \<Rightarrow>
          (case control_poll E cx control (sw_tokio w) of
             (p, control', k) \<Rightarrow>
               let mode' = ModeEngine control' output; w' = w\<lparr>sw_tokio := k\<rparr> in
               (case p of
                  Pending \<Rightarrow> (Inr Pending, mode', w')
                | Ready CtlFinished \<Rightarrow>
                    (case take_output output w' of
                       (Inl x, w'') \<Rightarrow> (Inl x, mode', w'')
                     | (Inr v, w'') \<Rightarrow> (Inr (Ready (Inr v)), mode', w''))
                | Ready CtlCancelled \<Rightarrow> (Inr (Ready (Inl TaskJoinError_cancelled)), mode', w')
                | Ready CtlPanicked \<Rightarrow> (Inr (Ready (Inl TaskJoinError_panic)), mode', w'))))"

definition observed_task :: "('j, 'jo, 'c) TaskHandleMode \<Rightarrow> u64 option" where
  "observed_task mode = (case mode of ModeObservedNative task handle output panicked \<Rightarrow> Some task | _ \<Rightarrow> None)"

text \<open>Only an observed handle reports; the hook is read anew at each report.\<close>

definition join_report :: "(u64 \<Rightarrow> TaskCall) \<Rightarrow> ('j, 'jo, 'c) TaskHandleMode \<Rightarrow> ('k, 'a) sworld \<Rightarrow> ('k, 'a) sworld" where
  "join_report ev mode w =
     (case observed_task mode of
        Some task \<Rightarrow> tnotify (task_observer_hook (tw_rt w)) (ev task) w
      | None \<Rightarrow> w)"

definition TaskHandle_poll :: "('k, 'u, 'j, 'jo, 'c, 'e, 'a) task_env \<Rightarrow> waker \<Rightarrow> ('j, 'jo, 'c) TaskHandle
    \<Rightarrow> ('k, 'a) sworld \<Rightarrow> (panic + (TaskJoinError + 'a) poll) \<times> ('j, 'jo, 'c) TaskHandle \<times> ('k, 'a) sworld" where
  "TaskHandle_poll E cx this w =
     (let first = (observed_task (hd_mode this) \<noteq> None \<and> \<not> hd_requested this);
          this1 = (if first then this\<lparr>hd_requested := True\<rparr> else this);
          w1 = (if first then join_report join_requested (hd_mode this) w else w)
      in case TaskHandle_poll_mode E cx (hd_mode this1) w1 of
           (Inl x, mode, w2) \<Rightarrow> (Inl x, this1\<lparr>hd_mode := mode\<rparr>, w2)
         | (Inr outcome, mode, w2) \<Rightarrow>
             if is_ready outcome \<and> \<not> hd_resolved this1
             then (Inr outcome, this1\<lparr>hd_mode := mode, hd_resolved := True\<rparr>, join_report join_resolved mode w2)
             else (Inr outcome, this1\<lparr>hd_mode := mode\<rparr>, w2))"

definition spawn_task :: "('k, 'u, 'j, 'jo, 'c, 'e, 'a) task_env \<Rightarrow> 'u \<Rightarrow> ('k, 'a) sworld
    \<Rightarrow> (panic + ('j, 'jo, 'c) TaskHandle) \<times> ('k, 'a) sworld" where
  "spawn_task E future w =
     (case async_spawn_hook (tw_rt w) of
        Some hook \<Rightarrow>
          (let output = length (sw_output w); w1 = w\<lparr>sw_output := sw_output w @ [None]\<rparr> in
           case hook_spawn_task E hook \<lparr>ef_future = future, ef_output = output\<rparr> (sw_tokio w1) of
             (Inl p, k) \<Rightarrow> (Inl p, w1\<lparr>sw_tokio := k\<rparr>)
           | (Inr control, k) \<Rightarrow> (Inr (TaskHandle_engine control output), w1\<lparr>sw_tokio := k\<rparr>))
      | None \<Rightarrow>
          (case task_observer_hook (tw_rt w) of
             Some hook \<Rightarrow>
               (case next_native_dynamic_task_id (tw_rt w) of
                  (Inl p, s) \<Rightarrow> (Inl p, w\<lparr>tw_rt := s\<rparr>)
                | (Inr task, s) \<Rightarrow>
                    (let w1 = tnotify (Some hook) (dynamic_task_spawned task) (w\<lparr>tw_rt := s\<rparr>);
                         output = length (sw_output w1); panicked = length (sw_panicked w1);
                         w2 = w1\<lparr>sw_output := sw_output w1 @ [None], sw_panicked := sw_panicked w1 @ [False]\<rparr>;
                         observed_future = \<lparr>no_future = future, no_output = output, no_panicked = panicked\<rparr>;
                         observed = ObservedTask_without_completion task observed_future
                     in case tokio_spawn_observed E observed (sw_tokio w2) of
                          (Inl p, k) \<Rightarrow> (Inl p, w2\<lparr>sw_tokio := k\<rparr>)
                        | (Inr handle, k) \<Rightarrow>
                            (Inr (TaskHandle_observed_native task handle output panicked), w2\<lparr>sw_tokio := k\<rparr>)))
           | None \<Rightarrow>
               (case tokio_spawn E future (sw_tokio w) of
                  (Inl p, k) \<Rightarrow> (Inl p, w\<lparr>sw_tokio := k\<rparr>)
                | (Inr handle, k) \<Rightarrow> (Inr (TaskHandle_native handle), w\<lparr>sw_tokio := k\<rparr>))))"

section \<open>The three modes give the same join\<close>

text \<open>How a task ends: its future returns, unwinds, or the task is aborted after some polls. An
  executor drives any future to its end through a list of polls, with the rest of the process
  running before each; when the list runs out the task is aborted.\<close>

datatype 'b task_end = Returned 'b | Unwound | Aborted

fun drive :: "(waker \<Rightarrow> 'f \<Rightarrow> 'w \<Rightarrow> (panic + 'b poll) \<times> 'f \<times> 'w) \<Rightarrow> 'f \<Rightarrow> 'w
    \<Rightarrow> (waker \<times> ('w \<Rightarrow> 'w)) list \<Rightarrow> 'b task_end \<times> 'w" where
  "drive poll f w [] = (Aborted, w)"
| "drive poll f w ((cx, env) # xs) =
     (case poll cx f (env w) of
        (Inl p, f', w') \<Rightarrow> (Unwound, w')
      | (Inr (Ready v), f', w') \<Rightarrow> (Returned v, w')
      | (Inr Pending, f', w') \<Rightarrow> drive poll f' w' xs)"

text \<open>The poll tokio makes of an observed task: it cannot unwind.\<close>

definition observed_poll :: "('u, 'k, 'a, 'a) sfuture_poll \<Rightarrow> waker \<Rightarrow> 'u NativeObservedFuture ObservedTask
    \<Rightarrow> ('k, 'a) sworld \<Rightarrow> (panic + unit poll) \<times> 'u NativeObservedFuture ObservedTask \<times> ('k, 'a) sworld" where
  "observed_poll fpoll cx ot w =
     (case ObservedTask_poll (NativeObservedFuture_poll fpoll) cx ot w of (p, ot', w') \<Rightarrow> (Inr p, ot', w'))"

text \<open>The slot and the flag of the task are private to it, and the wrapped future answers by its own
  state: what the rest of the process does shows in the answers only through the future's state.\<close>

definition same_slots :: "nat \<Rightarrow> nat \<Rightarrow> ('k, 'a) sworld \<Rightarrow> ('k, 'a) sworld \<Rightarrow> bool" where
  "same_slots a q w w' \<longleftrightarrow> length (sw_output w) \<le> length (sw_output w') \<and> sw_output w' ! a = sw_output w ! a
     \<and> length (sw_panicked w) \<le> length (sw_panicked w') \<and> sw_panicked w' ! q = sw_panicked w ! q"

definition answers_by :: "nat \<Rightarrow> nat \<Rightarrow> ('u, 'k, 'a, 'a) sfuture_poll \<Rightarrow> ('u \<Rightarrow> panic + 'a poll) \<Rightarrow> ('u \<Rightarrow> 'u) \<Rightarrow> bool" where
  "answers_by a q fpoll ans nxt \<longleftrightarrow>
     (\<forall>cx u w. \<exists>w'. fpoll cx u w = (ans u, nxt u, w') \<and> same_slots a q w w')"

definition fresh_slots :: "nat \<Rightarrow> nat \<Rightarrow> ('k, 'a) sworld \<Rightarrow> bool" where
  "fresh_slots a q w \<longleftrightarrow> a < length (sw_output w) \<and> sw_output w ! a = None
     \<and> q < length (sw_panicked w) \<and> \<not> sw_panicked w ! q"

primrec task_end_of :: "('u \<Rightarrow> panic + 'a poll) \<Rightarrow> ('u \<Rightarrow> 'u) \<Rightarrow> nat \<Rightarrow> 'u \<Rightarrow> 'a task_end" where
  "task_end_of ans nxt 0 u = Aborted"
| "task_end_of ans nxt (Suc n) u =
     (case ans u of Inl p \<Rightarrow> Unwound | Inr (Ready v) \<Rightarrow> Returned v | Inr Pending \<Rightarrow> task_end_of ans nxt n (nxt u))"

lemma fresh_slots_same: "fresh_slots a q w \<Longrightarrow> same_slots a q w w' \<Longrightarrow> fresh_slots a q w'"
  by (auto simp: fresh_slots_def same_slots_def)

lemma fresh_slots_tnotify [simp]: "fresh_slots a q (tnotify ho e w) = fresh_slots a q w"
  by (cases w) (simp add: fresh_slots_def tnotify_def)

lemma slots_tnotify [simp]:
  "sw_output (tnotify ho e w) = sw_output w" "sw_panicked (tnotify ho e w) = sw_panicked w"
  by (cases w; simp add: tnotify_def)+

lemma drive_native:
  assumes "answers_by a q fpoll ans nxt"
  shows "fst (drive fpoll u w xs) = task_end_of ans nxt (length xs) u"
proof (induction xs arbitrary: u w)
  case Nil
  then show ?case by simp
next
  case (Cons x xs)
  obtain cx env where x: "x = (cx, env)" by (cases x)
  obtain w' where "fpoll cx u (env w) = (ans u, nxt u, w')" using assms unfolding answers_by_def by blast
  then show ?case using Cons.IH by (auto simp: x split: sum.splits poll.splits)
qed

text \<open>What is in the slot and the flag at the end of the task.\<close>

definition observed_end :: "nat \<Rightarrow> nat \<Rightarrow> 'a task_end \<Rightarrow> unit task_end \<Rightarrow> ('k, 'a) sworld \<Rightarrow> bool" where
  "observed_end a q e eo w \<longleftrightarrow>
     (case e of
        Returned v \<Rightarrow> eo = Returned () \<and> sw_output w ! a = Some v \<and> \<not> sw_panicked w ! q
      | Unwound \<Rightarrow> eo = Returned () \<and> sw_panicked w ! q
      | Aborted \<Rightarrow> eo = Aborted)"

definition engine_end :: "nat \<Rightarrow> 'a task_end \<Rightarrow> unit task_end \<Rightarrow> ('k, 'a) sworld \<Rightarrow> bool" where
  "engine_end a e ee w \<longleftrightarrow>
     (case e of Returned v \<Rightarrow> ee = Returned () \<and> sw_output w ! a = Some v | Unwound \<Rightarrow> ee = Unwound | Aborted \<Rightarrow> ee = Aborted)"

lemma drive_observed:
  assumes "answers_by a q fpoll ans nxt" "\<forall>(cx, env)\<in>set xs. \<forall>w. same_slots a q w (env w)" "fresh_slots a q w"
    and "\<not> ot_finished ot" "ot_completion ot = None" "ot_future ot = \<lparr>no_future = u, no_output = a, no_panicked = q\<rparr>"
    and "drive (observed_poll fpoll) ot w xs = (eo, w')"
  shows "observed_end a q (task_end_of ans nxt (length xs) u) eo w'"
  using assms(2-)
proof (induction xs arbitrary: ot u w)
  case Nil
  then show ?case by (simp add: observed_end_def)
next
  case (Cons x xs)
  obtain cx env where x: "x = (cx, env)" by (cases x)
  let ?w0 = "tnotify (task_observer_hook (tw_rt (env w))) (poll_started (ot_task ot) (ot_attempt ot)) (env w)"
  have fresh: "fresh_slots a q ?w0" using Cons.prems(1,2) fresh_slots_same by (fastforce simp: x)
  obtain w1 where inner: "fpoll cx u ?w0 = (ans u, nxt u, w1)" and same: "same_slots a q ?w0 w1"
    using assms(1) unfolding answers_by_def by blast
  have fresh1: "fresh_slots a q w1" by (rule fresh_slots_same [OF fresh same])
  show ?case
  proof (cases "ans u = Inr Pending")
    case True
    let ?ot1 = "ot\<lparr>ot_attempt := saturating_add (ot_attempt ot) 1, ot_future := \<lparr>no_future = nxt u, no_output = a, no_panicked = q\<rparr>\<rparr>"
    have "observed_poll fpoll cx ot (env w) = (Inr Pending, ?ot1,
        tnotify (task_observer_hook (tw_rt (env w))) (poll_completed (ot_task ot) (ot_attempt ot) OutPending) w1)"
      using Cons.prems(3,5) True inner
      by (simp add: observed_poll_def ObservedTask_poll_def NativeObservedFuture_poll_def poll_outcome_def Let_def)
    with Cons.prems(6) have "drive (observed_poll fpoll) ?ot1
        (tnotify (task_observer_hook (tw_rt (env w))) (poll_completed (ot_task ot) (ot_attempt ot) OutPending) w1) xs = (eo, w')"
      by (simp add: x)
    from Cons.IH [OF _ _ _ _ _ this, of "nxt u"] Cons.prems(1,3,4) fresh1 True show ?thesis by simp
  next
    case False
    with Cons.prems(3-6) inner fresh1 show ?thesis
      by (auto simp: x observed_poll_def ObservedTask_poll_def NativeObservedFuture_poll_def poll_outcome_def
          Let_def fresh_slots_def observed_end_def split: sum.splits poll.splits)
  qed
qed

lemma drive_engine:
  assumes "answers_by a q fpoll ans nxt" "\<forall>(cx, env)\<in>set xs. \<forall>w. same_slots a q w (env w)" "fresh_slots a q w"
    and "drive (EngineFuture_poll fpoll) \<lparr>ef_future = u, ef_output = a\<rparr> w xs = (ee, w')"
  shows "engine_end a (task_end_of ans nxt (length xs) u) ee w'"
  using assms(2-)
proof (induction xs arbitrary: u w)
  case Nil
  then show ?case by (simp add: engine_end_def)
next
  case (Cons x xs)
  obtain cx env where x: "x = (cx, env)" by (cases x)
  have fresh: "fresh_slots a q (env w)" using Cons.prems(1,2) fresh_slots_same by (fastforce simp: x)
  obtain w1 where inner: "fpoll cx u (env w) = (ans u, nxt u, w1)" and same: "same_slots a q (env w) w1"
    using assms(1) unfolding answers_by_def by blast
  have fresh1: "fresh_slots a q w1" by (rule fresh_slots_same [OF fresh same])
  show ?case
    using Cons.prems(1,3) fresh1 inner Cons.IH [of w1 "nxt u"]
    by (auto simp: x EngineFuture_poll_def fresh_slots_def engine_end_def split: sum.splits poll.splits)
qed

text \<open>What tokio documents of a join handle, what the engine promises of its task control, and the
  result a join should give.\<close>

definition joined :: "('k, 'u, 'j, 'jo, 'c, 'e, 'a) task_env \<Rightarrow> 'b task_end \<Rightarrow> 'e + 'b \<Rightarrow> bool" where
  "joined E e r \<longleftrightarrow>
     (case r of Inr v \<Rightarrow> e = Returned v | Inl x \<Rightarrow> e = (if error_is_cancelled E x then Aborted else Unwound))"

definition controlled :: "'b task_end \<Rightarrow> TaskControlState" where
  "controlled e = (case e of Returned v \<Rightarrow> CtlFinished | Unwound \<Rightarrow> CtlPanicked | Aborted \<Rightarrow> CtlCancelled)"

definition join_value :: "'a task_end \<Rightarrow> TaskJoinError + 'a" where
  "join_value e = (case e of Returned v \<Rightarrow> Inr v | Unwound \<Rightarrow> Inl TaskJoinError_panic | Aborted \<Rightarrow> Inl TaskJoinError_cancelled)"

text \<open>(C20) The join of a spawned task means the same in all three modes. Take a future and any way of
  driving it that ends with its value, with a panic or with an abort. Driven as a plain tokio task,
  as an observed task (whose panic is contained, so that tokio only sees a unit return) or
  as the engine's wrapper, and joined in any later state of the process that has left the task's
  private slots alone, the handle gives the value, the panic error or the cancellation error of that
  end, the same in the three modes; no mode misses the output.\<close>

theorem spawn_modes_agree:
  fixes E :: "('k, 'u, 'j, 'jo, 'c, 'e, 'a) task_env" and w :: "('k, 'a) sworld"
  assumes "answers_by a q fpoll ans nxt" "\<forall>(cx, env)\<in>set xs. \<forall>w. same_slots a q w (env w)" "fresh_slots a q w"
    and e: "e = fst (drive fpoll f w xs)"
    and native: "join_poll E cx j (sw_tokio wn) = (Ready r, j', kn)" "joined E e r"
    and observed: "drive (observed_poll fpoll) (ObservedTask_without_completion t \<lparr>no_future = f, no_output = a, no_panicked = q\<rparr>) w xs = (eo, w1)"
      "same_slots a q w1 wo" "ojoin_poll E cx jo (sw_tokio wo) = (Ready ro, jo', ko)" "joined E eo ro"
    and engine: "drive (EngineFuture_poll fpoll) \<lparr>ef_future = f, ef_output = a\<rparr> w xs = (ee, w2)"
      "same_slots a q w2 we" "control_poll E cx c (sw_tokio we) = (Ready (controlled ee), c', ke)"
  shows "fst (TaskHandle_poll E cx (TaskHandle_native j) wn) = Inr (Ready (join_value e))
    \<and> fst (TaskHandle_poll E cx (TaskHandle_observed_native t jo a q) wo) = Inr (Ready (join_value e))
    \<and> fst (TaskHandle_poll E cx (TaskHandle_engine c a) we) = Inr (Ready (join_value e))"
proof (intro conjI)
  have e': "e = task_end_of ans nxt (length xs) f" using drive_native [OF assms(1)] by (simp add: e)
  show "fst (TaskHandle_poll E cx (TaskHandle_native j) wn) = Inr (Ready (join_value e))"
    using native by (auto simp: TaskHandle_poll_def TaskHandle_native_def TaskHandle_poll_mode_def observed_task_def
        joined_def join_value_def map_join_error_def Let_def split: sum.splits)
  have "observed_end a q e eo w1"
    using drive_observed [OF assms(1-3) _ _ _ observed(1)] by (simp add: e' ObservedTask_without_completion_def)
  then have "observed_end a q e eo wo" using observed(2)
    by (auto simp: observed_end_def same_slots_def split: task_end.splits)
  then show "fst (TaskHandle_poll E cx (TaskHandle_observed_native t jo a q) wo) = Inr (Ready (join_value e))"
    using observed(3,4)
    by (auto simp: TaskHandle_poll_def TaskHandle_observed_native_def TaskHandle_poll_mode_def observed_task_def
        join_report_def joined_def join_value_def map_join_error_def observed_end_def take_output_def Let_def tnotify_def
        split: sum.splits task_end.splits if_splits)
  have "engine_end a e ee w2" using drive_engine [OF assms(1-3) engine(1)] by (simp add: e')
  then have "engine_end a e ee we" using engine(2)
    by (auto simp: engine_end_def same_slots_def split: task_end.splits)
  then show "fst (TaskHandle_poll E cx (TaskHandle_engine c a) we) = Inr (Ready (join_value e))"
    using engine(3)
    by (auto simp: TaskHandle_poll_def TaskHandle_engine_def TaskHandle_poll_mode_def observed_task_def
        controlled_def join_value_def engine_end_def take_output_def Let_def split: task_end.splits)
qed

text \<open>A future that waits once and panics at its second poll, joined in the three modes.\<close>

definition panics_late :: "(bool, unit, nat, nat) sfuture_poll" where
  "panics_late cx waited w = (if waited then Inl ForeignPanic else Inr Pending, True, w)"

definition toy_tasks :: "(unit, bool, unit, unit, unit, unit, nat) task_env" where
  "toy_tasks = \<lparr>tokio_spawn = (\<lambda>u k. (Inr (), k)), tokio_spawn_observed = (\<lambda>u k. (Inr (), k)),
     hook_spawn_task = (\<lambda>h u k. (Inr (), k)), join_poll = (\<lambda>cx j k. (Ready (Inl ()), j, k)),
     join_abort = (\<lambda>j k. k), join_is_finished = (\<lambda>j k. True), ojoin_poll = (\<lambda>cx j k. (Ready (Inr ()), j, k)),
     ojoin_abort = (\<lambda>j k. k), ojoin_is_finished = (\<lambda>j k. True),
     control_poll = (\<lambda>cx c k. (Ready CtlPanicked, c, k)), control_abort = (\<lambda>c k. k),
     control_is_finished = (\<lambda>c k. True), error_is_cancelled = (\<lambda>e. False)\<rparr>"

definition toy_sworld :: "(unit, nat) sworld" where
  "toy_sworld = \<lparr>tw_rt = rt_init, tw_cells = [], tw_woken = [], sw_tokio = (), sw_output = [None], sw_panicked = [False]\<rparr>"

theorem spawn_modes_agree_witness:
  "fst (TaskHandle_poll toy_tasks 1 (TaskHandle_native ()) toy_sworld) = Inr (Ready (Inl TaskJoinError_panic))
   \<and> fst (TaskHandle_poll toy_tasks 1 (TaskHandle_observed_native NATIVE_DYNAMIC_TASK_ID_BASE () 0 0)
       (toy_sworld\<lparr>sw_panicked := [True]\<rparr>)) = Inr (Ready (Inl TaskJoinError_panic))
   \<and> fst (TaskHandle_poll toy_tasks 1 (TaskHandle_engine () 0) toy_sworld) = Inr (Ready (Inl TaskJoinError_panic))"
proof -
  let ?xs = "[(1, id), (1, id)] :: (waker \<times> ((unit, nat) sworld \<Rightarrow> (unit, nat) sworld)) list"
  have off: "task_observer_hook rt_init = None" by (simp add: hook_reads rt_init_def)
  have ans: "answers_by 0 0 panics_late (\<lambda>waited. if waited then Inl ForeignPanic else Inr Pending) (\<lambda>_. True)"
    by (simp add: answers_by_def panics_late_def same_slots_def)
  have env: "\<forall>(cx, env)\<in>set ?xs. \<forall>w. same_slots 0 0 w (env w)" by (simp add: same_slots_def)
  have fresh: "fresh_slots 0 0 toy_sworld" by (simp add: fresh_slots_def toy_sworld_def)
  have e: "Unwound = fst (drive panics_late False toy_sworld ?xs)" by (simp add: panics_late_def)
  have observed: "drive (observed_poll panics_late) (ObservedTask_without_completion NATIVE_DYNAMIC_TASK_ID_BASE
      \<lparr>no_future = False, no_output = 0, no_panicked = 0\<rparr>) toy_sworld ?xs = (Returned (), toy_sworld\<lparr>sw_panicked := [True]\<rparr>)"
    by (simp add: observed_poll_def ObservedTask_poll_def NativeObservedFuture_poll_def panics_late_def poll_outcome_def
        ObservedTask_without_completion_def toy_sworld_def tnotify_def off Let_def)
  have engine: "drive (EngineFuture_poll panics_late) \<lparr>ef_future = False, ef_output = 0\<rparr> toy_sworld ?xs = (Unwound, toy_sworld)"
    by (simp add: EngineFuture_poll_def panics_late_def)
  have same: "same_slots 0 0 w w" for w :: "(unit, nat) sworld" by (simp add: same_slots_def)
  have polls: "join_poll toy_tasks 1 () k = (Ready (Inl ()), (), k)" "ojoin_poll toy_tasks 1 () k = (Ready (Inr ()), (), k)"
    "control_poll toy_tasks 1 () k = (Ready (controlled Unwound), (), k)"
    "joined toy_tasks (Unwound :: nat task_end) (Inl ())" "joined toy_tasks (Returned ()) (Inr ())" for k
    by (simp_all add: toy_tasks_def controlled_def joined_def)
  from spawn_modes_agree [OF ans env fresh e polls(1,4) observed same polls(2,5) engine same polls(3)]
  show ?thesis by (simp add: join_value_def)
qed

section \<open>Task identities\<close>

text \<open>Spawning task after task, with the rest of the process running before each.\<close>

fun spawn_tasks :: "('k, 'u, 'j, 'jo, 'c, 'e, 'a) task_env \<Rightarrow> ((('k, 'a) sworld \<Rightarrow> ('k, 'a) sworld) \<times> 'u) list
    \<Rightarrow> ('k, 'a) sworld \<Rightarrow> (panic + ('j, 'jo, 'c) TaskHandle) list \<times> ('k, 'a) sworld" where
  "spawn_tasks E [] w = ([], w)"
| "spawn_tasks E ((env, u) # us) w =
     (case spawn_task E u (env w) of (r, w') \<Rightarrow> (case spawn_tasks E us w' of (rs, w'') \<Rightarrow> (r # rs, w'')))"

fun observed_ids :: "(panic + ('j, 'jo, 'c) TaskHandle) list \<Rightarrow> u64 list" where
  "observed_ids [] = []"
| "observed_ids (Inl p # rs) = observed_ids rs"
| "observed_ids (Inr h # rs) = (case observed_task (hd_mode h) of Some t \<Rightarrow> t # observed_ids rs | None \<Rightarrow> observed_ids rs)"

abbreviation task_counter :: "('k, 'a) sworld \<Rightarrow> u64" where
  "task_counter w \<equiv> NEXT_NATIVE_DYNAMIC_TASK_ID (tw_rt w)"

lemma task_counter_tnotify [simp]: "NEXT_NATIVE_DYNAMIC_TASK_ID (tw_rt (tnotify ho e w)) = NEXT_NATIVE_DYNAMIC_TASK_ID (tw_rt w)"
  by (simp add: tnotify_def)

lemma u64_less_Suc: "(c :: u64) \<noteq> U64_MAX \<Longrightarrow> c < c + 1"
  by (simp add: word_less_nat_alt unat_add1)

lemma spawn_task_counter:
  assumes "spawn_task E u w = (r, w')"
  shows "task_counter w \<le> task_counter w'
    \<and> (case r of Inl p \<Rightarrow> True
       | Inr h \<Rightarrow> (case observed_task (hd_mode h) of None \<Rightarrow> True | Some t \<Rightarrow> t = task_counter w \<and> task_counter w < task_counter w'))"
  using assms u64_less_Suc [of "task_counter w"]
  by (auto simp: spawn_task_def next_native_dynamic_task_id_def checked_add1_def observed_task_def Let_def
      TaskHandle_engine_def TaskHandle_observed_native_def TaskHandle_native_def
      split: option.splits prod.splits sum.splits if_splits)

lemma spawn_tasks_ids:
  assumes "\<forall>(env, u)\<in>set us. \<forall>w. task_counter w \<le> task_counter (env w)" "spawn_tasks E us w = (rs, w')"
  shows "sorted_wrt (<) (observed_ids rs) \<and> (\<forall>t\<in>set (observed_ids rs). task_counter w \<le> t)"
  using assms
proof (induction us arbitrary: w rs)
  case Nil
  then show ?case by auto
next
  case (Cons x us)
  obtain env u where x: "x = (env, u)" by (cases x)
  obtain r w1 where one: "spawn_task E u (env w) = (r, w1)" by fastforce
  obtain rs' where rest: "spawn_tasks E us w1 = (rs', w')" and rs: "rs = r # rs'"
    using Cons.prems(2) by (auto simp: x one split: prod.splits)
  have ih: "sorted_wrt (<) (observed_ids rs')" "\<forall>t\<in>set (observed_ids rs'). task_counter w1 \<le> t"
    using Cons.IH [OF _ rest] Cons.prems(1) by auto
  have "task_counter w \<le> task_counter (env w)" using Cons.prems(1) by (auto simp: x)
  with ih spawn_task_counter [OF one] show ?case
    by (cases r) (force simp: rs split: option.splits)+
qed

text \<open>(C37) Task identities never collide. Whatever runs between the calls, as long as the counter is
  only ever moved forward, the ids of all tasks spawned by \<open>spawn_task\<close> under an observer are
  strictly increasing and start at or above 2 to the power 63, so they are distinct from each other and from
  every id a \<open>TaskSet\<close> gives (its ids are below the task limit of 16).\<close>

theorem dynamic_task_ids_apart:
  fixes E :: "('k, 'u, 'j, 'jo, 'c, 'e, 'a) task_env"
  assumes "\<forall>(env, u)\<in>set us. \<forall>w. task_counter w \<le> task_counter (env w)" "spawn_tasks E us w = (rs, w')"
    and "NATIVE_DYNAMIC_TASK_ID_BASE \<le> task_counter w"
    and "set_step\<^sup>*\<^sup>* (set_start s) (ts :: 'v TaskSet, hw)"
  shows "sorted_wrt (<) (observed_ids rs) \<and> (\<forall>t\<in>set (observed_ids rs). 2 ^ 63 \<le> unat t)
    \<and> set (observed_ids rs) \<inter> ot_task ` set (ts_tasks ts) = {}"
proof -
  have ids: "sorted_wrt (<) (observed_ids rs)" "\<forall>t\<in>set (observed_ids rs). task_counter w \<le> t"
    using spawn_tasks_ids [OF assms(1,2)] by simp_all
  have base: "unat NATIVE_DYNAMIC_TASK_ID_BASE = 2 ^ 63" by (simp add: NATIVE_DYNAMIC_TASK_ID_BASE_def push_bit_eq_mult)
  have high: "2 ^ 63 \<le> unat t" if "t \<in> set (observed_ids rs)" for t
    using that ids(2) assms(3) base by (metis order_trans word_le_nat_alt)
  have low: "unat t < 16" if "t \<in> ot_task ` set (ts_tasks ts)" for t
  proof -
    from that obtain ot where ot: "ot \<in> set (ts_tasks ts)" "t = ot_task ot" by blast
    then obtain i where i: "i < length (ts_tasks ts)" and "ts_tasks ts ! i = ot" unfolding in_set_conv_nth by blast
    then have t: "t = ot_task (ts_tasks ts ! i)" using ot(2) by simp
    have inv: "set_inv (ts, hw)" by (rule set_inv_reachable [OF assms(4)])
    then have "t = of_nat i" "length (ts_tasks ts) \<le> 16" using i t by (auto simp: set_inv_def MAX_MODEL_TASKS_def)
    with i show ?thesis by (simp add: unat_of_nat_u64)
  qed
  from high low have "set (observed_ids rs) \<inter> ot_task ` set (ts_tasks ts) = {}" by fastforce
  with ids(1) high show ?thesis by blast
qed

text \<open>Two tasks spawned under an observer, with an empty task set beside them.\<close>

theorem dynamic_task_ids_apart_witness:
  "let w = toy_sworld\<lparr>tw_rt := install_task_observer_hook 3 rt_init\<rparr>;
       rs = fst (spawn_tasks toy_tasks [(id, False), (id, False)] w)
   in length (observed_ids rs) = 2 \<and> sorted_wrt (<) (observed_ids rs) \<and> (\<forall>t\<in>set (observed_ids rs). 2 ^ 63 \<le> unat t)"
proof -
  let ?w = "toy_sworld\<lparr>tw_rt := install_task_observer_hook 3 rt_init\<rparr>"
  let ?us = "[(id, False), (id, False)] :: (((unit, nat) sworld \<Rightarrow> (unit, nat) sworld) \<times> bool) list"
  have env: "\<forall>(env, u)\<in>set ?us. \<forall>w. task_counter w \<le> task_counter (env w)" by simp
  have base: "NATIVE_DYNAMIC_TASK_ID_BASE \<le> task_counter ?w" by (simp add: hook_installs rt_init_def)
  have run: "spawn_tasks toy_tasks ?us ?w = (fst (spawn_tasks toy_tasks ?us ?w), snd (spawn_tasks toy_tasks ?us ?w))" by simp
  have start: "set_step\<^sup>*\<^sup>* (set_start rt_init) (TaskSet_new :: unit TaskSet, snd (set_start rt_init :: unit TaskSet \<times> hworld))"
    by (simp add: set_start_def)
  have "sorted_wrt (<) (observed_ids (fst (spawn_tasks toy_tasks ?us ?w)))"
    "\<forall>t\<in>set (observed_ids (fst (spawn_tasks toy_tasks ?us ?w))). 2 ^ 63 \<le> unat t"
    using dynamic_task_ids_apart [OF env run base start] by blast+
  moreover have "length (observed_ids (fst (spawn_tasks toy_tasks ?us ?w))) = 2"
    by (simp add: spawn_task_def toy_sworld_def toy_tasks_def rt_init_def hook_installs hook_reads tnotify_def notify_def
        next_native_dynamic_task_id_def checked_add1_def NATIVE_DYNAMIC_TASK_ID_BASE_def push_bit_eq_mult
        TaskHandle_observed_native_def observed_task_def)
  ultimately show ?thesis by (simp only: Let_def simp_thms)
qed

end
