(* ===== verification/NativeRunner.thy ===== *)
theory NativeRunner
  imports Tasks
begin

text \<open>
  The native runner of a task set (\<open>run_task_set_native\<close>, \<^verbatim>\<open>laplace-probe-sdk/src/task.rs\<close>): it spawns every task on a current-thread tokio runtime and awaits the join
  handles in order. The runtime is a step relation: it polls a task that was never polled or whose waker was woken since the start of its last poll, in any order, and
  nothing else makes the runner go on. So whether the runner returns is a question about its runs. The theorem answers it for tasks that wait for each other.
\<close>

section \<open>The runner\<close>

text \<open>What the runner does not decide: the futures of the tasks, whether a poll of a future comes back at all (it can block the only thread), the wakers the runtime hands out, and
  what timers and other threads do to the process.\<close>

record ('u, 'x) runtime =
  ex_poll :: "('u, 'x, unit) future_poll"
  ex_blocks :: "waker \<Rightarrow> 'u \<Rightarrow> 'x tworld_scheme \<Rightarrow> bool"
  ex_waker :: "nat \<Rightarrow> waker"
  ex_outside :: "'x tworld_scheme \<Rightarrow> 'x tworld_scheme \<Rightarrow> bool"

text \<open>The spawned tasks, the join handle awaited next, for each task the number of wakes before its last poll, and whether the thread is inside a poll that does not come back.\<close>

record ('u, 'x) runner =
  rn_tasks :: "'u ObservedTask list"
  rn_next :: nat
  rn_polled :: "nat \<Rightarrow> nat option"
  rn_inside :: bool
  rn_world :: "'x tworld_scheme"

definition run_task_set_native :: "'u TaskSet \<Rightarrow> 'x tworld_scheme \<Rightarrow> ('u, 'x) runner" where
  "run_task_set_native ts w = \<lparr>rn_tasks = TaskSet_into_tasks ts, rn_next = 0, rn_polled = (\<lambda>_. None), rn_inside = False, rn_world = w\<rparr>"

definition runnable :: "('u, 'x) runtime \<Rightarrow> ('u, 'x) runner \<Rightarrow> nat \<Rightarrow> bool" where
  "runnable E r i \<longleftrightarrow> i < length (rn_tasks r) \<and> \<not> ot_finished (rn_tasks r ! i)
     \<and> (case rn_polled r i of None \<Rightarrow> True | Some k \<Rightarrow> ex_waker E i \<in> set (drop k (tw_woken (rn_world r))))"

text \<open>A join handle is ready once its task has resolved; what it gives is discarded.\<close>

inductive native_step :: "('u, 'x) runtime \<Rightarrow> ('u, 'x) runner \<Rightarrow> ('u, 'x) runner \<Rightarrow> bool" for E where
  poll: "native_step E r (r\<lparr>rn_tasks := (rn_tasks r)[i := task], rn_polled := (rn_polled r)(i \<mapsto> length (tw_woken (rn_world r))), rn_world := w\<rparr>)"
    if "\<not> rn_inside r" "runnable E r i" "\<not> ex_blocks E (ex_waker E i) (ot_future (rn_tasks r ! i)) (rn_world r)"
      "ObservedTask_poll (ex_poll E) (ex_waker E i) (rn_tasks r ! i) (rn_world r) = (p, task, w)"
| enter: "native_step E r (r\<lparr>rn_inside := True\<rparr>)"
    if "\<not> rn_inside r" "runnable E r i" "ex_blocks E (ex_waker E i) (ot_future (rn_tasks r ! i)) (rn_world r)"
| join_ready: "native_step E r (r\<lparr>rn_next := Suc (rn_next r)\<rparr>)"
    if "\<not> rn_inside r" "rn_next r < length (rn_tasks r)" "ot_finished (rn_tasks r ! rn_next r)"

definition returned :: "('u, 'x) runner \<Rightarrow> bool" where
  "returned r \<longleftrightarrow> rn_next r = length (rn_tasks r)"

text \<open>The runner cannot go on by itself in exactly these cases: a poll does not come back, or every task that has not resolved is parked and the handle it
  awaits is one of such a task, or it has returned.\<close>

lemma native_stuck:
  assumes "\<forall>r'. \<not> native_step E r r'" "\<not> rn_inside r" "rn_next r \<le> length (rn_tasks r)"
  shows "(\<forall>i<length (rn_tasks r). \<not> ot_finished (rn_tasks r ! i) \<longrightarrow>
      (\<exists>k. rn_polled r i = Some k \<and> ex_waker E i \<notin> set (drop k (tw_woken (rn_world r)))))
    \<and> (returned r \<or> rn_next r < length (rn_tasks r) \<and> \<not> ot_finished (rn_tasks r ! rn_next r))"
proof -
  have idle: "\<not> runnable E r i" for i
  proof
    assume run: "runnable E r i"
    obtain p task w where poll: "ObservedTask_poll (ex_poll E) (ex_waker E i) (rn_tasks r ! i) (rn_world r) = (p, task, w)" by (metis prod_cases3)
    show False using assms(1) native_step.poll [OF assms(2) run _ poll] native_step.enter [OF assms(2) run] by blast
  qed
  have "\<exists>k. rn_polled r i = Some k \<and> ex_waker E i \<notin> set (drop k (tw_woken (rn_world r)))"
    if "i < length (rn_tasks r)" "\<not> ot_finished (rn_tasks r ! i)" for i
    using that idle [of i] by (cases "rn_polled r i") (simp_all add: runnable_def)
  moreover have "returned r \<or> rn_next r < length (rn_tasks r) \<and> \<not> ot_finished (rn_tasks r ! rn_next r)"
    using assms native_step.join_ready [of r E] by (auto simp: returned_def le_less)
  ultimately show ?thesis by blast
qed

section \<open>Tasks that wait for each other\<close>

text \<open>A future that awaits handles one after the other and then returns or panics.\<close>

fun await_then :: "waker \<Rightarrow> TaskSetHandle list \<times> bool \<Rightarrow> 'x tworld_scheme \<Rightarrow> (panic + unit poll) \<times> (TaskSetHandle list \<times> bool) \<times> 'x tworld_scheme" where
  "await_then cx ([], bad) w = (if bad then Inl ForeignPanic else Inr (Ready ()), ([], bad), w)"
| "await_then cx (h # hs, bad) w =
     (case TaskSetHandle_poll cx h w of
        (Ready _, h', w') \<Rightarrow> await_then cx (hs, bad) w'
      | (Pending, h', w') \<Rightarrow> (Inr Pending, (h' # hs, bad), w'))"

text \<open>A composition: task \<open>i\<close> gets the handles of the listed tasks, which are registered by then, and the fact whether it panics at its end.\<close>

fun compose_joins :: "(nat list \<times> bool) list \<Rightarrow> TaskSetHandle list \<Rightarrow> (TaskSetHandle list \<times> bool) TaskSet \<times> 'x tworld_scheme
    \<Rightarrow> (panic + unit) \<times> (TaskSetHandle list \<times> bool) TaskSet \<times> 'x tworld_scheme" where
  "compose_joins [] hs s = (Inr (), s)"
| "compose_joins ((js, bad) # progs) hs s =
     (case TaskSet_spawn (map ((!) hs) js, bad) s of
        (Inl e, s') \<Rightarrow> (Inl e, s')
      | (Inr h, s') \<Rightarrow> compose_joins progs (hs @ [h]) s')"

definition joining :: "(nat \<Rightarrow> waker) \<Rightarrow> (TaskSetHandle list \<times> bool, 'x) runtime" where
  "joining wakers = \<lparr>ex_poll = await_then, ex_blocks = (\<lambda>_ _ _. False), ex_waker = wakers, ex_outside = (\<lambda>_ _. False)\<rparr>"

text \<open>A future does not report polls of tasks itself.\<close>

definition speaks_for_none :: "('u, 'x, unit) future_poll \<Rightarrow> bool" where
  "speaks_for_none fpoll \<longleftrightarrow> (\<forall>t. keeps_poll_log t fpoll)"

lemma handle_poll_effect:
  assumes "TaskSetHandle_poll cx h w = (p, h', w')"
  shows "th_completion h' = th_completion h \<and> tw_woken w' = tw_woken w \<and> poll_log t w' = poll_log t w
    \<and> task_observer_hook (tw_rt w') = task_observer_hook (tw_rt w)
    \<and> (if cs_finished (tw_cells w ! th_completion h) then p = Ready () \<and> tw_cells w' = tw_cells w
       else p = Pending \<and> tw_cells w' = (tw_cells w)[th_completion h := (tw_cells w ! th_completion h)\<lparr>cs_waker := Some cx\<rparr>])"
proof -
  have same: "xs[a := (xs ! a)\<lparr>cs_waker := Some cx\<rparr>] = xs" if "cs_waker (xs ! a) = Some cx" for xs :: "CompletionState list" and a
  proof -
    have "(xs ! a)\<lparr>cs_waker := Some cx\<rparr> = xs ! a" using that by (cases "xs ! a") simp
    then show ?thesis by (metis list_update_id)
  qed
  show ?thesis using assms
    by (auto simp: TaskSetHandle_poll_def TaskCompletion_poll_def Let_def same poll_log_def split: option.splits if_splits prod.splits)
qed

lemma await_effect:
  assumes "await_then cx (hs, bad) w = (r, fut, w')"
  shows "snd fut = bad \<and> tw_woken w' = tw_woken w \<and> poll_log t w' = poll_log t w \<and> task_observer_hook (tw_rt w') = task_observer_hook (tw_rt w)
    \<and> set (map th_completion (fst fut)) \<subseteq> set (map th_completion hs)
    \<and> (if r = Inr Pending
       then \<exists>c\<in>set (map th_completion hs). \<not> cs_finished (tw_cells w ! c) \<and> tw_cells w' = (tw_cells w)[c := (tw_cells w ! c)\<lparr>cs_waker := Some cx\<rparr>]
       else poll_outcome r = (if bad then OutPanicked else OutReady) \<and> tw_cells w' = tw_cells w)"
  using assms
proof (induction hs arbitrary: w)
  case Nil
  then show ?case by (auto simp: poll_outcome_def split: if_splits)
next
  case (Cons h hs)
  obtain p h' w1 where poll: "TaskSetHandle_poll cx h w = (p, h', w1)" by (metis prod_cases3)
  note eff = handle_poll_effect [OF poll, of t]
  show ?case
  proof (cases p)
    case Pending
    with eff Cons.prems show ?thesis by (auto simp: poll split: if_splits)
  next
    case (Ready u)
    then have "await_then cx (hs, bad) w1 = (r, fut, w')" using Cons.prems by (simp add: poll)
    note rest = Cons.IH [OF this]
    have w1: "tw_woken w1 = tw_woken w" "poll_log t w1 = poll_log t w" "task_observer_hook (tw_rt w1) = task_observer_hook (tw_rt w)" "tw_cells w1 = tw_cells w"
      using eff Ready by (auto split: if_splits)
    show ?thesis using rest unfolding w1 by (auto split: if_splits)
  qed
qed

lemma await_speaks_for_none: "speaks_for_none await_then"
  unfolding speaks_for_none_def keeps_poll_log_def using await_effect by (metis prod.collapse)

section \<open>Traces\<close>

text \<open>The number of an attempt, counted from \<open>n\<close>.\<close>

fun attempt_no :: "nat \<Rightarrow> u64 \<Rightarrow> u64" where
  "attempt_no 0 n = n"
| "attempt_no (Suc k) n = attempt_no k (saturating_add n 1)"

lemma attempt_no_Suc: "attempt_no k (saturating_add n 1) = saturating_add (attempt_no k n) 1"
  by (induction k arbitrary: n) simp_all

lemma expected_trace_snoc:
  "expected_trace h t n (replicate k OutPending @ [q]) = expected_trace h t n (replicate k OutPending) @
     [(h, TaskEv (poll_started t (attempt_no k n))), (h, TaskEv (poll_completed t (attempt_no k n) q))] @
     (if q = OutPending then [] else [(h, TaskEv (task_completed t))])"
  by (induction k arbitrary: n) simp_all

text \<open>A task after some polls: its events are a trace of pending polls, followed by one with outcome \<open>q\<close> when it has finished.\<close>

definition polled :: "hook \<Rightarrow> (hook \<times> HookCall) list \<Rightarrow> TaskPollOutcome \<Rightarrow> 'u ObservedTask \<Rightarrow> (hook \<times> HookCall) list \<Rightarrow> bool" where
  "polled h before q ot log \<longleftrightarrow> (\<exists>k. (\<not> ot_finished ot \<longrightarrow> ot_attempt ot = attempt_no k 0)
     \<and> log = before @ expected_trace h (ot_task ot) 0 (replicate k OutPending @ (if ot_finished ot then [q] else [])))"

lemma poll_other_log:
  assumes "speaks_for_none fpoll" "task_observer_hook (tw_rt w) = Some h" "ObservedTask_poll fpoll cx ot w = (p, ot', w')" "t \<noteq> ot_task ot"
  shows "poll_log t w' = poll_log t w"
proof (cases "ot_finished ot")
  case False
  obtain r u w2 where inner: "fpoll cx (ot_future ot) (tnotify (Some h) (poll_started (ot_task ot) (ot_attempt ot)) w) = (r, u, w2)"
    by (metis prod_cases3)
  have "poll_log t w2 = poll_log t w"
    using assms(1,4) inner unfolding speaks_for_none_def keeps_poll_log_def by fastforce
  with assms(2,3,4) inner False show ?thesis
    by (auto simp: ObservedTask_poll_def Let_def split: if_splits option.splits)
qed (use assms(3) in \<open>simp add: ObservedTask_poll_def\<close>)

lemma polled_step:
  assumes "speaks_for_none fpoll" "task_observer_hook (tw_rt w) = Some h" "ObservedTask_poll fpoll cx ot w = (p, ot', w')"
    and "\<not> ot_finished ot" "polled h before q ot (poll_log (ot_task ot) w)"
    and inner: "fpoll cx (ot_future ot) (tnotify (Some h) (poll_started (ot_task ot) (ot_attempt ot)) w) = (r, u, w2)" "poll_outcome r \<in> {OutPending, q}"
  shows "polled h before q ot' (poll_log (ot_task ot) w') \<and> ot_task ot' = ot_task ot \<and> task_observer_hook (tw_rt w') = Some h"
proof -
  have "keeps_poll_log (ot_task ot) fpoll" using assms(1) by (simp add: speaks_for_none_def)
  note tr = ObservedTask_poll_trace [OF this assms(2,4) inner(1) assms(3)]
  obtain k where k: "ot_attempt ot = attempt_no k 0"
    "poll_log (ot_task ot) w = before @ expected_trace h (ot_task ot) 0 (replicate k OutPending)"
    using assms(4,5) by (auto simp: polled_def)
  have log: "poll_log (ot_task ot) w' = before @ expected_trace h (ot_task ot) 0 (replicate k OutPending @ [poll_outcome r])"
    unfolding tr(1) k(2) expected_trace_snoc k(1) by simp
  show ?thesis
  proof (cases "poll_outcome r = OutPending")
    case True
    have "ot_attempt ot' = attempt_no (Suc k) 0" by (simp add: tr(6) k(1) attempt_no_Suc)
    moreover have "poll_log (ot_task ot) w' = before @ expected_trace h (ot_task ot) 0 (replicate (Suc k) OutPending @ [])"
      using log by (simp add: True replicate_append_same flip: replicate_Suc)
    ultimately show ?thesis using True tr(2,3,4) unfolding polled_def by metis
  next
    case False
    then show ?thesis using log tr(2,3,4) inner(2) unfolding polled_def by (intro conjI exI [of _ k]) simp_all
  qed
qed

section \<open>The composition\<close>

text \<open>Task \<open>i\<close> of a composition whose cells start at address \<open>b\<close>, at any time of the run.\<close>

definition joins_task :: "nat \<Rightarrow> nat \<Rightarrow> nat list \<times> bool \<Rightarrow> (TaskSetHandle list \<times> bool) ObservedTask \<Rightarrow> bool" where
  "joins_task b i prog ot \<longleftrightarrow> ot_task ot = of_nat i \<and> ot_completion ot = Some (b + i) \<and> snd (ot_future ot) = snd prog
     \<and> set (map th_completion (fst (ot_future ot))) \<subseteq> (+) b ` set (fst prog)"

lemma composed:
  assumes "length (ts_tasks ts) = length hs" "length (tw_cells w) = b + length hs" "\<forall>j<length hs. th_completion (hs ! j) = b + j"
    and "length hs + length progs \<le> MAX_MODEL_TASKS" "\<forall>i<length progs. \<forall>j\<in>set (fst (progs ! i)). j < length hs + i"
  shows "\<exists>ts' w' new. compose_joins progs hs (ts, w) = (Inr (), ts', w') \<and> ts_tasks ts' = ts_tasks ts @ new \<and> length new = length progs
    \<and> (\<forall>i<length progs. joins_task b (length hs + i) (progs ! i) (new ! i) \<and> ot_attempt (new ! i) = 0 \<and> \<not> ot_finished (new ! i))
    \<and> tw_cells w' = tw_cells w @ replicate (length progs) CompletionState_default
    \<and> (\<forall>t. poll_log t w' = poll_log t w) \<and> task_observer_hook (tw_rt w') = task_observer_hook (tw_rt w)"
  using assms
proof (induction progs arbitrary: hs ts w)
  case Nil
  then show ?case by simp
next
  case (Cons a progs)
  obtain js bad where a: "a = (js, bad)" by (cases a)
  let ?n = "length hs" and ?c = "length (tw_cells w)"
  let ?h = "\<lparr>th_task = of_nat ?n, th_completion = ?c, th_requested = False, th_resolved = False\<rparr>"
  let ?t = "\<lparr>ot_task = of_nat ?n, ot_future = (map ((!) hs) js, bad), ot_completion = Some ?c, ot_attempt = 0, ot_finished = False\<rparr>"
  let ?ts = "ts\<lparr>ts_tasks := ts_tasks ts @ [?t]\<rparr>"
  let ?w = "tnotify (task_observer_hook (tw_rt w)) (task_registered (of_nat ?n)) (w\<lparr>tw_cells := tw_cells w @ [CompletionState_default]\<rparr>)"
  have spawn: "TaskSet_spawn (map ((!) hs) js, bad) (ts, w) = (Inr ?h, (?ts, ?w))"
    using Cons.prems(1,4) by (simp add: TaskSet_spawn_def Let_def)
  have "\<forall>j<length (hs @ [?h]). th_completion ((hs @ [?h]) ! j) = b + j" using Cons.prems(2,3) by (auto simp: nth_append less_Suc_eq)
  moreover have "\<forall>i<length progs. \<forall>j\<in>set (fst (progs ! i)). j < length (hs @ [?h]) + i" using Cons.prems(5) by fastforce
  ultimately obtain ts' w' new where IH: "compose_joins progs (hs @ [?h]) (?ts, ?w) = (Inr (), ts', w')" "ts_tasks ts' = ts_tasks ?ts @ new"
    "length new = length progs"
    "\<forall>i<length progs. joins_task b (length (hs @ [?h]) + i) (progs ! i) (new ! i) \<and> ot_attempt (new ! i) = 0 \<and> \<not> ot_finished (new ! i)"
    "tw_cells w' = tw_cells ?w @ replicate (length progs) CompletionState_default"
    "\<forall>t. poll_log t w' = poll_log t ?w" "task_observer_hook (tw_rt w') = task_observer_hook (tw_rt ?w)"
    using Cons.IH [of ?ts "hs @ [?h]" ?w] Cons.prems(1,2,4) by auto
  have "\<forall>j\<in>set js. j < ?n" using Cons.prems(5) a by (metis add_0_right fst_conv length_greater_0_conv list.discI nth_Cons_0)
  then have "joins_task b ?n a ?t" using Cons.prems(2,3) by (auto simp: joins_task_def a)
  then have "\<forall>i<length (a # progs). joins_task b (?n + i) ((a # progs) ! i) ((?t # new) ! i) \<and> ot_attempt ((?t # new) ! i) = 0 \<and> \<not> ot_finished ((?t # new) ! i)"
    using IH(4) by (simp add: All_less_Suc2)
  moreover have "poll_log t ?w = poll_log t w" for t by (simp add: poll_log_def split: option.split)
  ultimately show ?case using IH(1,2,3,5,6,7) spawn by (intro exI [of _ ts'] exI [of _ w'] exI [of _ "?t # new"]) (simp add: a)
qed

definition final_outcome :: "nat list \<times> bool \<Rightarrow> TaskPollOutcome" where
  "final_outcome prog = (if snd prog then OutPanicked else OutReady)"

text \<open>A poll of such a task: it ends and completes its cell, which wakes the waker stored there, or it leaves its waker in the cell of a task that has not ended.\<close>

lemma joins_poll:
  fixes w :: "'x tworld_scheme"
  assumes "joins_task b i prog ot" "\<not> ot_finished ot" "task_observer_hook (tw_rt w) = Some h"
    and poll: "ObservedTask_poll await_then cx ot w = (p, ot', w')"
  shows "joins_task b i prog ot'" "task_observer_hook (tw_rt w') = Some h"
    and "polled h before (final_outcome prog) ot (poll_log (of_nat i) w) \<Longrightarrow> polled h before (final_outcome prog) ot' (poll_log (of_nat i) w')"
    and "t \<noteq> of_nat i \<Longrightarrow> poll_log t w' = poll_log t w"
    and "ot_finished ot' \<Longrightarrow> tw_cells w' = (tw_cells w)[b + i := (tw_cells w ! (b + i))\<lparr>cs_finished := True, cs_waker := None\<rparr>]
      \<and> tw_woken w' = tw_woken w @ (case cs_waker (tw_cells w ! (b + i)) of None \<Rightarrow> [] | Some x \<Rightarrow> [x])"
    and "\<not> ot_finished ot' \<Longrightarrow> tw_woken w' = tw_woken w
      \<and> (\<exists>j\<in>set (fst prog). \<not> cs_finished (tw_cells w ! (b + j)) \<and> tw_cells w' = (tw_cells w)[b + j := (tw_cells w ! (b + j))\<lparr>cs_waker := Some cx\<rparr>])"
proof -
  obtain hs bad where fut: "ot_future ot = (hs, bad)" by (cases "ot_future ot")
  let ?w = "tnotify (Some h) (poll_started (ot_task ot) (ot_attempt ot)) w"
  obtain r u w2 where inner: "await_then cx (hs, bad) ?w = (r, u, w2)" by (metis prod_cases3)
  have eff: "snd u = bad" "tw_woken w2 = tw_woken w" "th_completion ` set (fst u) \<subseteq> th_completion ` set hs"
    "r = Inr Pending \<Longrightarrow> \<exists>c\<in>th_completion ` set hs. \<not> cs_finished (tw_cells w ! c) \<and> tw_cells w2 = (tw_cells w)[c := (tw_cells w ! c)\<lparr>cs_waker := Some cx\<rparr>]"
    "r \<noteq> Inr Pending \<Longrightarrow> poll_outcome r = (if bad then OutPanicked else OutReady) \<and> tw_cells w2 = tw_cells w"
    using await_effect [OF inner, of 0] by simp_all
  note inner' = inner [folded fut]
  have task: "ot_task ot = of_nat i" "ot_completion ot = Some (b + i)" "bad = snd prog" "th_completion ` set hs \<subseteq> (+) b ` set (fst prog)"
    using assms(1) by (simp_all add: joins_task_def fut)
  have out: "poll_outcome r = (if r = Inr Pending then OutPending else final_outcome prog)"
    using eff(5) by (auto simp: final_outcome_def task(3) poll_outcome_def)
  have fin: "final_outcome prog \<noteq> OutPending" by (simp add: final_outcome_def)
  have "keeps_poll_log (ot_task ot) (await_then :: (TaskSetHandle list \<times> bool, 'x, unit) future_poll)"
    by (rule await_speaks_for_none [unfolded speaks_for_none_def, THEN spec])
  note tr = ObservedTask_poll_trace [OF this assms(3,2) inner' poll]
  have ot': "ot' = ot\<lparr>ot_attempt := saturating_add (ot_attempt ot) 1, ot_future := u, ot_finished := (r \<noteq> Inr Pending)\<rparr>"
    and w': "tw_cells w' = tw_cells (if r = Inr Pending then w2 else TaskCompletion_complete (b + i) w2)"
      "tw_woken w' = tw_woken (if r = Inr Pending then w2 else TaskCompletion_complete (b + i) w2)"
    using poll assms(2,3) inner' task(2) out fin
    by (auto simp: ObservedTask_poll_def Let_def TaskCompletion_complete_def split: if_splits option.splits)
  show "joins_task b i prog ot'" using eff(1,3) task by (auto simp: joins_task_def ot')
  show "task_observer_hook (tw_rt w') = Some h" by (rule tr(2))
  show "polled h before (final_outcome prog) ot' (poll_log (of_nat i) w')" if "polled h before (final_outcome prog) ot (poll_log (of_nat i) w)"
    using polled_step [OF await_speaks_for_none assms(3) poll assms(2) _ inner', of before "final_outcome prog"] that out unfolding task(1) by simp
  show "poll_log t w' = poll_log t w" if "t \<noteq> of_nat i"
    using poll_other_log [OF await_speaks_for_none assms(3) poll] that task(1) by simp
  show "tw_cells w' = (tw_cells w)[b + i := (tw_cells w ! (b + i))\<lparr>cs_finished := True, cs_waker := None\<rparr>]
      \<and> tw_woken w' = tw_woken w @ (case cs_waker (tw_cells w ! (b + i)) of None \<Rightarrow> [] | Some x \<Rightarrow> [x])" if "ot_finished ot'"
    using that eff(2,5) by (simp add: ot' w' TaskCompletion_complete_def Let_def split: option.split)
  show "tw_woken w' = tw_woken w
      \<and> (\<exists>j\<in>set (fst prog). \<not> cs_finished (tw_cells w ! (b + j)) \<and> tw_cells w' = (tw_cells w)[b + j := (tw_cells w ! (b + j))\<lparr>cs_waker := Some cx\<rparr>])"
    if "\<not> ot_finished ot'"
    using that eff(2,4) task(4) by (fastforce simp: ot' w')
qed

section \<open>Runs\<close>

text \<open>A task that has been polled is finished, or has been woken since, or its waker is in the cell of an unfinished task that it awaits.\<close>

definition waits_ok :: "(nat \<Rightarrow> waker) \<Rightarrow> nat \<Rightarrow> nat list \<Rightarrow> ('u, 'x) runner \<Rightarrow> nat \<Rightarrow> bool" where
  "waits_ok wakers b js r i \<longleftrightarrow>
     (case rn_polled r i of None \<Rightarrow> True
      | Some m \<Rightarrow> m \<le> length (tw_woken (rn_world r)) \<and> (ot_finished (rn_tasks r ! i) \<or> wakers i \<in> set (drop m (tw_woken (rn_world r)))
          \<or> (\<exists>j\<in>set js. \<not> cs_finished (tw_cells (rn_world r) ! (b + j)) \<and> cs_waker (tw_cells (rn_world r) ! (b + j)) = Some (wakers i))))"

definition join_inv :: "hook \<Rightarrow> (nat \<Rightarrow> waker) \<Rightarrow> 'x tworld_scheme \<Rightarrow> nat \<Rightarrow> (nat list \<times> bool) list \<Rightarrow> (TaskSetHandle list \<times> bool, 'x) runner \<Rightarrow> bool" where
  "join_inv h wakers w0 b progs r \<longleftrightarrow> length (rn_tasks r) = length progs \<and> \<not> rn_inside r \<and> rn_next r \<le> length progs
     \<and> length (tw_cells (rn_world r)) = b + length progs \<and> task_observer_hook (tw_rt (rn_world r)) = Some h
     \<and> (\<forall>i<length progs. joins_task b i (progs ! i) (rn_tasks r ! i) \<and> cs_finished (tw_cells (rn_world r) ! (b + i)) = ot_finished (rn_tasks r ! i)
         \<and> polled h (poll_log (of_nat i) w0) (final_outcome (progs ! i)) (rn_tasks r ! i) (poll_log (of_nat i) (rn_world r))
         \<and> waits_ok wakers b (fst (progs ! i)) r i)"

text \<open>A handle has one owner, and it is the handle of a task registered before.\<close>

definition owned_once :: "(nat list \<times> bool) list \<Rightarrow> bool" where
  "owned_once progs \<longleftrightarrow> (\<forall>i<length progs. \<forall>j\<in>set (fst (progs ! i)). j < i)
     \<and> (\<forall>i<length progs. \<forall>k<length progs. i \<noteq> k \<longrightarrow> set (fst (progs ! i)) \<inter> set (fst (progs ! k)) = {})"

lemma joining_reads [simp]:
  "ex_poll (joining wakers) = await_then" "ex_blocks (joining wakers) cx u w = False" "ex_waker (joining wakers) = wakers"
  by (simp_all add: joining_def)

lemma waits_ok_other:
  assumes "waits_ok wakers b js r k" "k \<noteq> i"
    and "ot_finished (task :: (TaskSetHandle list \<times> bool) ObservedTask) \<Longrightarrow>
        tw_cells w = (tw_cells (rn_world r))[b + i := (tw_cells (rn_world r) ! (b + i))\<lparr>cs_finished := True, cs_waker := None\<rparr>]
      \<and> tw_woken w = tw_woken (rn_world r) @ (case cs_waker (tw_cells (rn_world r) ! (b + i)) of None \<Rightarrow> [] | Some x \<Rightarrow> [x])"
    and "\<not> ot_finished task \<Longrightarrow> tw_woken w = tw_woken (rn_world r)
      \<and> (\<exists>j. j \<notin> set js \<and> tw_cells w = (tw_cells (rn_world r))[b + j := (tw_cells (rn_world r) ! (b + j))\<lparr>cs_waker := Some cx\<rparr>])"
  shows "waits_ok wakers b js (r\<lparr>rn_tasks := (rn_tasks r)[i := task], rn_polled := (rn_polled r)(i \<mapsto> m), rn_world := w\<rparr>) k"
proof (cases "rn_polled r k")
  case (Some n)
  let ?W = "tw_woken (rn_world r)" and ?C = "tw_cells (rn_world r)"
  have n: "n \<le> length ?W" "ot_finished (rn_tasks r ! k) \<or> wakers k \<in> set (drop n ?W)
      \<or> (\<exists>j\<in>set js. \<not> cs_finished (?C ! (b + j)) \<and> cs_waker (?C ! (b + j)) = Some (wakers k))"
    using assms(1) Some by (simp_all add: waits_ok_def)
  have "ot_finished (rn_tasks r ! k) \<or> wakers k \<in> set (drop n (tw_woken w))
      \<or> (\<exists>j\<in>set js. \<not> cs_finished (tw_cells w ! (b + j)) \<and> cs_waker (tw_cells w ! (b + j)) = Some (wakers k))"
  proof (cases "ot_finished task")
    case True
    note eff = assms(3) [OF True]
    from n(2) show ?thesis
    proof (elim disjE bexE)
      fix j
      assume j: "j \<in> set js" "\<not> cs_finished (?C ! (b + j)) \<and> cs_waker (?C ! (b + j)) = Some (wakers k)"
      show ?thesis
      proof (cases "j = i")
        case True
        with eff j n(1) show ?thesis by simp
      next
        case False
        with eff j show ?thesis by (intro disjI2 bexI [of _ j]) simp_all
      qed
    qed (use eff n(1) in simp_all)
  next
    case False
    then obtain l where l: "tw_woken w = ?W" "l \<notin> set js" "tw_cells w = ?C[b + l := (?C ! (b + l))\<lparr>cs_waker := Some cx\<rparr>]"
      using assms(4) by blast
    from n(2) show ?thesis
    proof (elim disjE bexE)
      fix j
      assume j: "j \<in> set js" "\<not> cs_finished (?C ! (b + j)) \<and> cs_waker (?C ! (b + j)) = Some (wakers k)"
      then have "j \<noteq> l" using l(2) by blast
      with j show ?thesis by (intro disjI2 bexI [of _ j]) (simp_all add: l(3))
    qed (simp_all add: l(1))
  qed
  moreover have "n \<le> length (tw_woken w)" using n(1) assms(3,4) by (cases "ot_finished task") auto
  ultimately show ?thesis using Some assms(2) by (simp add: waits_ok_def)
qed (use assms(2) in \<open>simp add: waits_ok_def\<close>)

lemma task_ids_differ:
  assumes "i < n" "k < n" "n \<le> MAX_MODEL_TASKS" "i \<noteq> k"
  shows "(of_nat i :: u64) \<noteq> of_nat k"
proof
  assume "(of_nat i :: u64) = of_nat k"
  then have "unat (of_nat i :: u64) = unat (of_nat k :: u64)" by simp
  with assms show False by (simp add: MAX_MODEL_TASKS_def unat_of_nat)
qed

lemma poll_keeps_inv:
  fixes w :: "'x tworld_scheme"
  assumes "join_inv h wakers w0 b progs r" "owned_once progs" "length progs \<le> MAX_MODEL_TASKS" "runnable (joining wakers) r i"
    and poll: "ObservedTask_poll await_then (wakers i) (rn_tasks r ! i) (rn_world r) = (p, task, w)"
  shows "join_inv h wakers w0 b progs
    (r\<lparr>rn_tasks := (rn_tasks r)[i := task], rn_polled := (rn_polled r)(i \<mapsto> length (tw_woken (rn_world r))), rn_world := w\<rparr>)" (is "join_inv _ _ _ _ _ ?r")
proof -
  let ?C = "tw_cells (rn_world r)" and ?n = "length progs"
  have i: "i < ?n" "\<not> ot_finished (rn_tasks r ! i)" and len: "length (rn_tasks r) = ?n" "length ?C = b + ?n"
    and hook: "task_observer_hook (tw_rt (rn_world r)) = Some h"
    using assms(1,4) by (auto simp: join_inv_def runnable_def)
  have each: "joins_task b k (progs ! k) (rn_tasks r ! k)" "cs_finished (?C ! (b + k)) = ot_finished (rn_tasks r ! k)"
    "polled h (poll_log (of_nat k) w0) (final_outcome (progs ! k)) (rn_tasks r ! k) (poll_log (of_nat k) (rn_world r))"
    "waits_ok wakers b (fst (progs ! k)) r k" if "k < ?n" for k
    using assms(1) that by (simp_all add: join_inv_def)
  note step = joins_poll [OF each(1) [OF i(1)] i(2) hook poll]
  have cells: "length (tw_cells w) = b + ?n" using step(5,6) len(2) by (cases "ot_finished task") auto
  have mine: "waits_ok wakers b (fst (progs ! i)) ?r i"
  proof (cases "ot_finished task")
    case True
    with step(5) i(1) len(1) show ?thesis by (simp add: waits_ok_def)
  next
    case False
    then obtain j where j: "j \<in> set (fst (progs ! i))" "\<not> cs_finished (?C ! (b + j))" "tw_cells w = ?C[b + j := (?C ! (b + j))\<lparr>cs_waker := Some (wakers i)\<rparr>]"
      "tw_woken w = tw_woken (rn_world r)" using step(6) by blast
    moreover have "j < ?n" using assms(2) i(1) j(1) unfolding owned_once_def by (metis less_trans)
    ultimately show ?thesis using len by (auto simp: waits_ok_def intro!: bexI [of _ j])
  qed
  have "cs_finished (tw_cells w ! (b + k)) = ot_finished (rn_tasks ?r ! k)" if "k < ?n" for k
  proof (cases "ot_finished task")
    case True
    with step(5) each(2) [OF that] that i(1) len show ?thesis by (cases "k = i") auto
  next
    case False
    then obtain j where "tw_cells w = ?C[b + j := (?C ! (b + j))\<lparr>cs_waker := Some (wakers i)\<rparr>]" using step(6) by blast
    then have "cs_finished (tw_cells w ! (b + k)) = cs_finished (?C ! (b + k))" using len(2) that by (cases "j = k") auto
    with each(2) [OF that] False i len(1) show ?thesis by (cases "k = i") auto
  qed
  moreover have "polled h (poll_log (of_nat k) w0) (final_outcome (progs ! k)) (rn_tasks ?r ! k) (poll_log (of_nat k) w)" if "k < ?n" for k
    using each(3) [OF that] step(3,4) task_ids_differ [OF that i(1) assms(3)] i(1) len(1) by (cases "k = i") simp_all
  moreover have "waits_ok wakers b (fst (progs ! k)) ?r k" if "k < ?n" for k
  proof (cases "k = i")
    case False
    then have apart: "set (fst (progs ! i)) \<inter> set (fst (progs ! k)) = {}" using assms(2) that i(1) by (simp add: owned_once_def)
    show ?thesis by (rule waits_ok_other [OF each(4) [OF that] False, where cx = "wakers i"]) (use step(5,6) apart in blast)+
  qed (use mine in simp)
  moreover have "joins_task b k (progs ! k) (rn_tasks ?r ! k)" if "k < ?n" for k
    using each(1) [OF that] step(1) i(1) len(1) by (cases "k = i") simp_all
  ultimately show ?thesis using assms(1) cells step(2) unfolding join_inv_def by simp
qed

lemma native_keeps_inv:
  assumes "join_inv h wakers w0 b progs r" "owned_once progs" "length progs \<le> MAX_MODEL_TASKS" "native_step (joining wakers) r r'"
  shows "join_inv h wakers w0 b progs r'"
  using assms(4)
proof cases
  case (poll i p task w)
  then show ?thesis using poll_keeps_inv [OF assms(1-3), of i p task w] by simp
next
  case join_ready
  have "waits_ok wakers b js r' i = waits_ok wakers b js r i" for js i
    by (cases "rn_polled r i") (simp_all add: waits_ok_def join_ready(1))
  with join_ready assms(1) show ?thesis by (simp add: join_inv_def)
qed simp

text \<open>What is left to do: a bound on the polls, since a task is polled again only after a wake and only the end of a task wakes.\<close>

definition native_work :: "('u, 'x) runtime \<Rightarrow> ('u, 'x) runner \<Rightarrow> nat" where
  "native_work E r = Suc (length (rn_tasks r)) * card {i. i < length (rn_tasks r) \<and> \<not> ot_finished (rn_tasks r ! i)} + card {i. runnable E r i}
     + (length (rn_tasks r) - rn_next r)"

lemma finite_runnable: "finite {i. runnable E r i}" "card {i. runnable E r i} \<le> length (rn_tasks r)"
proof -
  have sub: "{i. runnable E r i} \<subseteq> {..<length (rn_tasks r)}" by (auto simp: runnable_def)
  from finite_subset [OF sub] card_mono [OF _ sub] show "finite {i. runnable E r i}" "card {i. runnable E r i} \<le> length (rn_tasks r)" by simp_all
qed

lemma native_work_start: "native_work E (run_task_set_native ts w) \<le> length (ts_tasks ts) * (length (ts_tasks ts) + 3)"
proof -
  let ?n = "length (ts_tasks ts)"
  have "card {i. i < ?n \<and> \<not> ot_finished (ts_tasks ts ! i)} \<le> card {..<?n}" by (rule card_mono) auto
  then have "Suc ?n * card {i. i < ?n \<and> \<not> ot_finished (ts_tasks ts ! i)} \<le> Suc ?n * ?n" by (intro mult_le_mono2) simp
  then show ?thesis using finite_runnable(2) [of E "run_task_set_native ts w"]
    by (simp add: native_work_def run_task_set_native_def TaskSet_into_tasks_def algebra_simps)
qed

lemma native_works:
  assumes "join_inv h wakers w0 b progs r" "native_step (joining wakers) r r'"
  shows "native_work (joining wakers) r' < native_work (joining wakers) r"
  using assms(2)
proof cases
  case (poll i p task w)
  let ?E = "joining wakers" and ?n = "length (rn_tasks r)" and ?U = "\<lambda>r. {i. i < length (rn_tasks r) \<and> \<not> ot_finished (rn_tasks r ! i)}"
  have i: "i < ?n" "\<not> ot_finished (rn_tasks r ! i)" and task: "joins_task b i (progs ! i) (rn_tasks r ! i)"
    and hook: "task_observer_hook (tw_rt (rn_world r)) = Some h"
    using assms(1) poll(3) by (auto simp: join_inv_def runnable_def)
  note step = joins_poll [OF task i(2) hook, of "wakers i" p task w]
  have same: "rn_next r' = rn_next r" "length (rn_tasks r') = ?n" using poll(1) by simp_all
  show ?thesis
  proof (cases "ot_finished task")
    case True
    have "?U r' = ?U r - {i}" using True i(1) by (auto simp: poll(1) nth_list_update split: if_splits)
    then have "card (?U r') < card (?U r)" using card_Diff1_less [of "?U r" i] i by simp
    then have "Suc ?n * Suc (card (?U r')) \<le> Suc ?n * card (?U r)" by (intro mult_le_mono2) simp
    then show ?thesis using finite_runnable(2) [of ?E r'] same by (simp add: native_work_def)
  next
    case False
    have woken: "tw_woken w = tw_woken (rn_world r)" using step(6) poll(5) False by simp
    have "?U r' = ?U r" using False i by (auto simp: poll(1) nth_list_update split: if_splits)
    moreover have "runnable ?E r' k \<longleftrightarrow> runnable ?E r k \<and> k \<noteq> i" for k
      using False i woken by (cases "rn_polled r k") (auto simp: poll(1) runnable_def nth_list_update)
    then have "{k. runnable ?E r' k} = {k. runnable ?E r k} - {i}" by auto
    then have "card {k. runnable ?E r' k} < card {k. runnable ?E r k}" using card_Diff1_less [OF finite_runnable(1), of i ?E r] poll(3) by simp
    ultimately show ?thesis using same by (simp add: native_work_def)
  qed
next
  case join_ready
  have "runnable E r' k = runnable E r k" for E k by (cases "rn_polled r k") (simp_all add: join_ready(1) runnable_def)
  with join_ready show ?thesis by (simp add: native_work_def)
qed simp

lemma native_run:
  assumes "join_inv h wakers w0 b progs r0" "owned_once progs" "length progs \<le> MAX_MODEL_TASKS" "(native_step (joining wakers) ^^ k) r0 r"
  shows "join_inv h wakers w0 b progs r \<and> native_work (joining wakers) r + k \<le> native_work (joining wakers) r0"
  using assms(4)
proof (induction k arbitrary: r)
  case 0
  with assms(1) show ?case by simp
next
  case (Suc k)
  then obtain r1 where r1: "(native_step (joining wakers) ^^ k) r0 r1" "native_step (joining wakers) r1 r" by auto
  from Suc.IH [OF r1(1)] native_keeps_inv [OF _ assms(2,3) r1(2)] native_works [OF _ r1(2)] show ?case by fastforce
qed

lemma native_end:
  assumes "join_inv h wakers w0 b progs r" "owned_once progs" "\<forall>r'. \<not> native_step (joining wakers) r r'"
  shows "returned r \<and> (\<forall>i<length progs. ot_finished (rn_tasks r ! i))"
proof -
  let ?C = "tw_cells (rn_world r)"
  have stuck: "\<not> rn_inside r" "rn_next r \<le> length (rn_tasks r)" and len: "length (rn_tasks r) = length progs" using assms(1) by (simp_all add: join_inv_def)
  note stop = native_stuck [OF assms(3) this(1,2)]
  have all: "ot_finished (rn_tasks r ! i)" if "i < length progs" for i
    using that
  proof (induction i rule: less_induct)
    case (less i)
    show ?case
    proof (rule ccontr)
      assume open': "\<not> ot_finished (rn_tasks r ! i)"
      then obtain k where k: "rn_polled r i = Some k" "wakers i \<notin> set (drop k (tw_woken (rn_world r)))" using stop less.prems len by auto
      have "waits_ok wakers b (fst (progs ! i)) r i" using assms(1) less.prems by (simp add: join_inv_def)
      then obtain j where j: "j \<in> set (fst (progs ! i))" "\<not> cs_finished (?C ! (b + j))" using open' k by (auto simp: waits_ok_def)
      have "j < i" using assms(2) less.prems j(1) by (simp add: owned_once_def)
      with less j(2) assms(1) show False by (simp add: join_inv_def)
    qed
  qed
  then show ?thesis using stop len by auto
qed

lemma join_inv_start:
  assumes "owned_once progs" "length progs \<le> MAX_MODEL_TASKS" "task_observer_hook (tw_rt w) = Some h"
  shows "\<exists>ts w1. compose_joins progs [] (TaskSet_new, w) = (Inr (), ts, w1) \<and> length (ts_tasks ts) = length progs
    \<and> join_inv h wakers w (length (tw_cells w)) progs (run_task_set_native ts w1)"
proof -
  obtain ts w1 new where c: "compose_joins progs [] (TaskSet_new, w) = (Inr (), ts, w1)" "ts_tasks ts = new" "length new = length progs"
    "\<forall>i<length progs. joins_task (length (tw_cells w)) i (progs ! i) (new ! i) \<and> ot_attempt (new ! i) = 0 \<and> \<not> ot_finished (new ! i)"
    "tw_cells w1 = tw_cells w @ replicate (length progs) CompletionState_default" "\<forall>t. poll_log t w1 = poll_log t w"
    "task_observer_hook (tw_rt w1) = Some h"
    using composed [of TaskSet_new "[]" w "length (tw_cells w)" progs] assms by (auto simp: TaskSet_new_def owned_once_def)
  have "join_inv h wakers w (length (tw_cells w)) progs (run_task_set_native ts w1)"
    using c by (auto simp: join_inv_def run_task_set_native_def TaskSet_into_tasks_def waits_ok_def polled_def nth_append CompletionState_default_def
        joins_task_def intro!: exI [of _ 0])
  with c(1-3) show ?thesis by blast
qed

text \<open>(C19) The native runner returns for tasks that wait for each other. Take any composition of at most 16 tasks in which each task awaits, one after the other, handles of tasks
  registered before it, each handle in one task only, and then returns or panics; run it under an observer in any process and let the runtime poll
  and wake in any order. Registering succeeds. The runner makes at most \<open>n * (n + 3)\<close> steps for \<open>n\<close> tasks, and when it can make none it has returned: no wakeup is lost on the
  way from a task that ends, through its completion cell, to the task that awaits it. Then every task has left one complete trace: polls numbered from 0, all pending but the last, which is
  ready or panicked as the task's end says, and its completion. A panic neither stops the runner nor the tasks that await the panicked one.\<close>

theorem native_run_returns:
  assumes "length progs \<le> 16" "\<forall>i<length progs. \<forall>j\<in>set (fst (progs ! i)). j < i"
    and "\<forall>i<length progs. \<forall>k<length progs. i \<noteq> k \<longrightarrow> set (fst (progs ! i)) \<inter> set (fst (progs ! k)) = {}"
    and "task_observer_hook (tw_rt w) = Some h"
  shows "\<exists>ts w1. compose_joins progs [] (TaskSet_new, w) = (Inr (), ts, w1)
    \<and> (\<forall>k r. (native_step (joining wakers) ^^ k) (run_task_set_native ts w1) r \<longrightarrow>
        k \<le> length progs * (length progs + 3)
        \<and> ((\<forall>r'. \<not> native_step (joining wakers) r r') \<longrightarrow> returned r
           \<and> (\<forall>i<length progs. \<exists>m. poll_log (of_nat i) (rn_world r) = poll_log (of_nat i) w
                @ expected_trace h (of_nat i) 0 (replicate m OutPending @ [if snd (progs ! i) then OutPanicked else OutReady]))))"
proof -
  have owned: "owned_once progs" "length progs \<le> MAX_MODEL_TASKS" using assms(1-3) by (simp_all add: owned_once_def MAX_MODEL_TASKS_def)
  obtain ts w1 where c: "compose_joins progs [] (TaskSet_new, w) = (Inr (), ts, w1)" "length (ts_tasks ts) = length progs"
    "join_inv h wakers w (length (tw_cells w)) progs (run_task_set_native ts w1)" using join_inv_start [OF owned assms(4)] by blast
  have "k \<le> length progs * (length progs + 3)
        \<and> ((\<forall>r'. \<not> native_step (joining wakers) r r') \<longrightarrow> returned r
           \<and> (\<forall>i<length progs. \<exists>m. poll_log (of_nat i) (rn_world r) = poll_log (of_nat i) w
                @ expected_trace h (of_nat i) 0 (replicate m OutPending @ [if snd (progs ! i) then OutPanicked else OutReady])))"
    if run: "(native_step (joining wakers) ^^ k) (run_task_set_native ts w1) r" for k r
  proof -
    from native_run [OF c(3) owned run] have inv: "join_inv h wakers w (length (tw_cells w)) progs r"
      and work: "native_work (joining wakers) r + k \<le> native_work (joining wakers) (run_task_set_native ts w1)" by auto
    have "\<exists>m. poll_log (of_nat i) (rn_world r) = poll_log (of_nat i) w @ expected_trace h (of_nat i) 0 (replicate m OutPending @ [final_outcome (progs ! i)])"
      if "ot_finished (rn_tasks r ! i)" "i < length progs" for i
    proof -
      have "ot_task (rn_tasks r ! i) = of_nat i" "polled h (poll_log (of_nat i) w) (final_outcome (progs ! i)) (rn_tasks r ! i) (poll_log (of_nat i) (rn_world r))"
        using inv that(2) by (simp_all add: join_inv_def joins_task_def)
      with that(1) show ?thesis by (auto simp: polled_def)
    qed
    with native_end [OF inv owned(1)] work native_work_start [of "joining wakers" ts w1] show ?thesis
      by (auto simp: c(2) final_outcome_def)
  qed
  with c(1) show ?thesis by blast
qed

text \<open>A run with a bounded number of steps comes to an end.\<close>

lemma bounded_run_ends:
  assumes "\<And>k r. (R ^^ k) a r \<Longrightarrow> k \<le> (n :: nat)"
  shows "\<exists>k r. (R ^^ k) a r \<and> (\<forall>r'. \<not> R r r')"
proof -
  have "(R ^^ 0) a a" by simp
  then obtain k where "\<exists>r. (R ^^ k) a r" "\<forall>m. (\<exists>r. (R ^^ m) a r) \<longrightarrow> m \<le> k"
    using ex_has_greatest_nat [of "\<lambda>k. \<exists>r. (R ^^ k) a r" 0 "\<lambda>k. k" "Suc n"] assms by (metis le_imp_less_Suc)
  then show ?thesis by (metis Suc_n_not_le_n relpowp_Suc_I)
qed

text \<open>A task that panics, a task that awaits it, and one that awaits both a fourth and the second.\<close>

definition demo_joins :: "(nat list \<times> bool) list" where
  "demo_joins = [([], True), ([0], False), ([], False), ([2, 1], False)]"

theorem native_run_returns_witness:
  "\<exists>ts w1 k r. compose_joins demo_joins [] (TaskSet_new, observed_world) = (Inr (), ts, w1)
     \<and> (native_step (joining id) ^^ k) (run_task_set_native ts w1) r \<and> k \<le> 28 \<and> returned r
     \<and> (\<exists>m. poll_log 0 (rn_world r) = expected_trace 3 0 0 (replicate m OutPending @ [OutPanicked]))
     \<and> (\<exists>m. poll_log 3 (rn_world r) = expected_trace 3 3 0 (replicate m OutPending @ [OutReady]))"
proof -
  have start: "length demo_joins \<le> 16" "\<forall>i<length demo_joins. \<forall>j\<in>set (fst (demo_joins ! i)). j < i"
    "\<forall>i<length demo_joins. \<forall>k<length demo_joins. i \<noteq> k \<longrightarrow> set (fst (demo_joins ! i)) \<inter> set (fst (demo_joins ! k)) = {}"
    "task_observer_hook (tw_rt observed_world) = Some 3" "poll_log 0 observed_world = []" "poll_log 3 observed_world = []"
    by (auto simp: demo_joins_def less_Suc_eq observed_world_def poll_log_def hook_installs hook_reads rt_init_def numeral_eq_Suc)
  from native_run_returns [OF start(1-4), where wakers = id] obtain ts w1 where c: "compose_joins demo_joins [] (TaskSet_new, observed_world) = (Inr (), ts, w1)"
    and run: "\<And>k r. (native_step (joining id) ^^ k) (run_task_set_native ts w1) r \<Longrightarrow> k \<le> length demo_joins * (length demo_joins + 3)
      \<and> ((\<forall>r'. \<not> native_step (joining id) r r') \<longrightarrow> returned r
         \<and> (\<forall>i<length demo_joins. \<exists>m. poll_log (of_nat i) (rn_world r) = poll_log (of_nat i) observed_world
              @ expected_trace 3 (of_nat i) 0 (replicate m OutPending @ [if snd (demo_joins ! i) then OutPanicked else OutReady])))" by blast
  obtain k r where stop: "(native_step (joining id) ^^ k) (run_task_set_native ts w1) r" "\<forall>r'. \<not> native_step (joining id) r r'"
    using bounded_run_ends [of "native_step (joining id)" "run_task_set_native ts w1"] run by blast
  have "k \<le> 28" "returned r" and tr: "\<And>i. i < 4 \<Longrightarrow> \<exists>m. poll_log (of_nat i) (rn_world r) = poll_log (of_nat i) observed_world
      @ expected_trace 3 (of_nat i) 0 (replicate m OutPending @ [if snd (demo_joins ! i) then OutPanicked else OutReady])"
    using run [OF stop(1)] stop(2) by (simp_all add: demo_joins_def)
  moreover have "\<exists>m. poll_log 0 (rn_world r) = expected_trace 3 0 0 (replicate m OutPending @ [OutPanicked])"
    using tr [of 0] start(5) by (simp add: demo_joins_def)
  moreover have "\<exists>m. poll_log 3 (rn_world r) = expected_trace 3 3 0 (replicate m OutPending @ [OutReady])"
    using tr [of 3] start(6) by (simp add: demo_joins_def)
  ultimately show ?thesis using c stop(1) by blast
qed

end
