(* ===== verification/ArcSwapCells.thy ===== *)
theory ArcSwapCells
  imports Ids
begin

text \<open>
  The versioned cells of \<^verbatim>\<open>arc_swap.rs\<close>: \<open>ModelArcSwap\<close>, \<open>ModelArcSwapOption\<close> and \<open>Cache\<close>. The crate
  \<^verbatim>\<open>arc_swap\<close> is a parameter, an atomic cell with its documented behaviour as the predicate \<open>atomic_cell\<close>.
  An \<open>Arc\<close> to a value is the value.
\<close>

section \<open>The cells\<close>

record ('k, 'p) arc_swap =
  as_new :: "'p \<Rightarrow> 'k"
  as_load :: "'k \<Rightarrow> 'p"
  as_store :: "'p \<Rightarrow> 'k \<Rightarrow> 'k"

text \<open>A load gives what was stored last, or what the cell was created with.\<close>

definition atomic_cell :: "('k, 'p) arc_swap \<Rightarrow> bool" where
  "atomic_cell A \<longleftrightarrow> (\<forall>p. as_load A (as_new A p) = p) \<and> (\<forall>p k. as_load A (as_store A p k) = p)"

record 'a Versioned =
  vd_version :: u64
  vd_value :: 'a

text \<open>A \<open>Mutex<u64>\<close> that is not held: its content and whether a panic poisoned it.\<close>

record version_lock =
  vl_next :: u64
  vl_poisoned :: bool

text \<open>The head of \<open>store\<close>: lock the counter and bump it. A panic of \<open>expect\<close> on exhaustion unwinds
  with the guard alive and poisons the mutex.\<close>

definition bump_version :: "version_lock \<Rightarrow> (panic + u64) \<times> version_lock" where
  "bump_version l =
     (if vl_poisoned l then (Inl CellLockPoisoned, l)
      else case checked_add1 (vl_next l) of
             None \<Rightarrow> (Inl VersionExhausted, l\<lparr>vl_poisoned := True\<rparr>)
           | Some v \<Rightarrow> (Inr v, l\<lparr>vl_next := v\<rparr>))"

record 'k ModelArcSwap =
  mas_inner :: 'k
  mas_resource :: u64
  mas_next_version :: version_lock

definition ModelArcSwap_new :: "('k, 'a Versioned) arc_swap \<Rightarrow> 'a \<Rightarrow> 'k ModelArcSwap rtm" where
  "ModelArcSwap_new A value =
     rbind next_async_lock_resource_id (\<lambda>resource.
     rbind (report async_cell_hook (ACellEv (cell_created resource))) (\<lambda>_.
     rret \<lparr>mas_inner = as_new A \<lparr>vd_version = 0, vd_value = value\<rparr>, mas_resource = resource,
           mas_next_version = \<lparr>vl_next = 0, vl_poisoned = False\<rparr>\<rparr>))"

definition ModelArcSwap_report_load :: "'k ModelArcSwap \<Rightarrow> u64 \<Rightarrow> rt \<Rightarrow> rt" where
  "ModelArcSwap_report_load self version s = notify (async_cell_hook s) (ACellEv (cell_load (mas_resource self) version)) s"

record ('p, 'a) ModelArcSwapGuard =
  ag_inner :: 'p
  ag_value :: 'a

definition ModelArcSwap_load :: "('k, 'a Versioned) arc_swap \<Rightarrow> 'k ModelArcSwap \<Rightarrow> rt
    \<Rightarrow> ('a Versioned, 'a) ModelArcSwapGuard \<times> rt" where
  "ModelArcSwap_load A self s =
     (let inner = as_load A (mas_inner self); version = vd_version inner; value = vd_value inner
      in (\<lparr>ag_inner = inner, ag_value = value\<rparr>,
          notify (async_cell_hook s) (ACellEv (cell_load (mas_resource self) version)) s))"

definition ModelArcSwapGuard_deref :: "('p, 'a) ModelArcSwapGuard \<Rightarrow> 'a" where
  "ModelArcSwapGuard_deref self = ag_value self"

definition ModelArcSwap_load_full :: "('k, 'a Versioned) arc_swap \<Rightarrow> 'k ModelArcSwap \<Rightarrow> rt \<Rightarrow> 'a \<times> rt" where
  "ModelArcSwap_load_full A self s =
     (let snapshot = as_load A (mas_inner self) in (vd_value snapshot, ModelArcSwap_report_load self (vd_version snapshot) s))"

text \<open>\<open>store\<close> in two parts: everything up to the publication, and the report, made before the lock on
  the counter is released.\<close>

definition ModelArcSwap_publish :: "('k, 'a Versioned) arc_swap \<Rightarrow> 'a \<Rightarrow> 'k ModelArcSwap
    \<Rightarrow> (panic + u64) \<times> 'k ModelArcSwap" where
  "ModelArcSwap_publish A value self =
     (case bump_version (mas_next_version self) of
        (Inl p, l) \<Rightarrow> (Inl p, self\<lparr>mas_next_version := l\<rparr>)
      | (Inr version, l) \<Rightarrow>
          (Inr version, self\<lparr>mas_next_version := l,
             mas_inner := as_store A \<lparr>vd_version = version, vd_value = value\<rparr> (mas_inner self)\<rparr>))"

definition ModelArcSwap_store :: "('k, 'a Versioned) arc_swap \<Rightarrow> 'a \<Rightarrow> 'k ModelArcSwap \<times> rt
    \<Rightarrow> (panic + unit) \<times> ('k ModelArcSwap \<times> rt)" where
  "ModelArcSwap_store A value = (\<lambda>(self, s).
     case ModelArcSwap_publish A value self of
       (Inl p, self') \<Rightarrow> (Inl p, (self', s))
     | (Inr version, self') \<Rightarrow>
         (Inr (), (self', notify (async_cell_hook s) (ACellEv (cell_store (mas_resource self') version)) s)))"

definition ModelArcSwap_load_snapshot :: "('k, 'a Versioned) arc_swap \<Rightarrow> 'k ModelArcSwap \<Rightarrow> rt \<Rightarrow> ('a \<times> u64) \<times> rt" where
  "ModelArcSwap_load_snapshot A self s =
     (let snapshot = as_load A (mas_inner self); version = vd_version snapshot; value = vd_value snapshot
      in ((value, version), ModelArcSwap_report_load self version s))"

definition ModelArcSwap_initial_snapshot :: "('k, 'a Versioned) arc_swap \<Rightarrow> 'k ModelArcSwap \<Rightarrow> 'a \<times> u64" where
  "ModelArcSwap_initial_snapshot A self =
     (let snapshot = as_load A (mas_inner self) in (vd_value snapshot, vd_version snapshot))"

section \<open>The optional cell\<close>

record 'k ModelArcSwapOption =
  mao_inner :: 'k
  mao_resource :: u64
  mao_next_version :: version_lock

definition ModelArcSwapOption_new :: "('k, 'a Versioned option) arc_swap \<Rightarrow> 'a option \<Rightarrow> 'k ModelArcSwapOption rtm" where
  "ModelArcSwapOption_new A value =
     rbind next_async_lock_resource_id (\<lambda>resource.
     rbind (report async_cell_hook (ACellEv (cell_created resource))) (\<lambda>_.
     rret \<lparr>mao_inner = as_new A (map_option (\<lambda>value. \<lparr>vd_version = 0, vd_value = value\<rparr>) value),
           mao_resource = resource, mao_next_version = \<lparr>vl_next = 0, vl_poisoned = False\<rparr>\<rparr>))"

definition ModelArcSwapOption_empty :: "('k, 'a Versioned option) arc_swap \<Rightarrow> 'k ModelArcSwapOption rtm" where
  "ModelArcSwapOption_empty A = ModelArcSwapOption_new A None"

record 'a ModelArcSwapOptionGuard =
  og_inner :: "'a option"

definition ModelArcSwapOption_load :: "('k, 'a Versioned option) arc_swap \<Rightarrow> 'k ModelArcSwapOption \<Rightarrow> rt
    \<Rightarrow> 'a ModelArcSwapOptionGuard \<times> rt" where
  "ModelArcSwapOption_load A self s =
     (let inner = as_load A (mao_inner self); value = map_option vd_value inner
      in (\<lparr>og_inner = value\<rparr>,
          (case inner of
             Some snapshot \<Rightarrow> notify (async_cell_hook s) (ACellEv (cell_load (mao_resource self) (vd_version snapshot))) s
           | None \<Rightarrow> s)))"

definition ModelArcSwapOptionGuard_deref :: "'a ModelArcSwapOptionGuard \<Rightarrow> 'a option" where
  "ModelArcSwapOptionGuard_deref self = og_inner self"

definition ModelArcSwapOption_load_full :: "('k, 'a Versioned option) arc_swap \<Rightarrow> 'k ModelArcSwapOption \<Rightarrow> rt
    \<Rightarrow> 'a option \<times> rt" where
  "ModelArcSwapOption_load_full A self s =
     (case as_load A (mao_inner self) of
        Some snapshot \<Rightarrow>
          (Some (vd_value snapshot),
           notify (async_cell_hook s) (ACellEv (cell_load (mao_resource self) (vd_version snapshot))) s)
      | None \<Rightarrow> (None, s))"

definition ModelArcSwapOption_publish :: "('k, 'a Versioned option) arc_swap \<Rightarrow> 'a option \<Rightarrow> 'k ModelArcSwapOption
    \<Rightarrow> (panic + u64) \<times> 'k ModelArcSwapOption" where
  "ModelArcSwapOption_publish A value self =
     (case bump_version (mao_next_version self) of
        (Inl p, l) \<Rightarrow> (Inl p, self\<lparr>mao_next_version := l\<rparr>)
      | (Inr version, l) \<Rightarrow>
          (Inr version, self\<lparr>mao_next_version := l,
             mao_inner := as_store A (map_option (\<lambda>value. \<lparr>vd_version = version, vd_value = value\<rparr>) value) (mao_inner self)\<rparr>))"

definition ModelArcSwapOption_store :: "('k, 'a Versioned option) arc_swap \<Rightarrow> 'a option \<Rightarrow> 'k ModelArcSwapOption \<times> rt
    \<Rightarrow> (panic + unit) \<times> ('k ModelArcSwapOption \<times> rt)" where
  "ModelArcSwapOption_store A value = (\<lambda>(self, s).
     case ModelArcSwapOption_publish A value self of
       (Inl p, self') \<Rightarrow> (Inl p, (self', s))
     | (Inr version, self') \<Rightarrow>
         (Inr (), (self', notify (async_cell_hook s) (ACellEv (cell_store (mao_resource self') version)) s)))"

section \<open>The cache\<close>

text \<open>The cache borrows its cell, so the cell is an argument of its operations.\<close>

record 'a Cache =
  ca_cached :: 'a
  ca_cached_version :: u64

definition Cache_new :: "('k, 'a Versioned) arc_swap \<Rightarrow> 'k ModelArcSwap \<Rightarrow> 'a Cache" where
  "Cache_new A source =
     (case ModelArcSwap_initial_snapshot A source of (cached, cached_version) \<Rightarrow>
        \<lparr>ca_cached = cached, ca_cached_version = cached_version\<rparr>)"

definition Cache_load :: "('k, 'a Versioned) arc_swap \<Rightarrow> 'k ModelArcSwap \<Rightarrow> 'a Cache \<Rightarrow> rt \<Rightarrow> 'a \<times> 'a Cache \<times> rt" where
  "Cache_load A source self s =
     (case ModelArcSwap_load_snapshot A source s of
        ((value, version), s') \<Rightarrow>
          let self' = (if version \<noteq> ca_cached_version self
                       then self\<lparr>ca_cached := value, ca_cached_version := version\<rparr> else self)
          in (ca_cached self', self', s'))"

section \<open>Versions in every interleaving\<close>

text \<open>Threads that store into and load from one cell. A store publishes and then reports, holding the
  lock on the counter throughout; a load takes its snapshot and then reports. The ghost fields are
  the snapshots published so far, the version a store still has to report, and for each thread the
  number of its last snapshot in the history and, while it has not been reported, the snapshot.\<close>

record ('c, 'p) cells =
  cl_cell :: 'c
  cl_rt :: rt
  cl_history :: "'p list"
  cl_storing :: "u64 option"
  cl_seen :: "nat \<Rightarrow> nat"
  cl_taken :: "nat \<Rightarrow> 'p option"

inductive cell_step :: "('v \<Rightarrow> 'c \<Rightarrow> (panic + u64) \<times> 'c) \<Rightarrow> ('c \<Rightarrow> 'p) \<Rightarrow> ('p \<Rightarrow> u64 option) \<Rightarrow> u64
    \<Rightarrow> ('c, 'p) cells \<Rightarrow> ('c, 'p) cells \<Rightarrow> bool"
  for publish snapshot version_of resource where
  step_publish: "cl_storing x = None \<Longrightarrow> publish v (cl_cell x) = (Inr version, c) \<Longrightarrow>
    cell_step publish snapshot version_of resource x
      (x\<lparr>cl_cell := c, cl_history := cl_history x @ [snapshot c], cl_storing := Some version\<rparr>)"
| step_publish_panics: "cl_storing x = None \<Longrightarrow> publish v (cl_cell x) = (Inl p, c) \<Longrightarrow>
    cell_step publish snapshot version_of resource x (x\<lparr>cl_cell := c\<rparr>)"
| step_store_report: "cl_storing x = Some version \<Longrightarrow>
    cell_step publish snapshot version_of resource x
      (x\<lparr>cl_storing := None, cl_rt := notify (async_cell_hook (cl_rt x)) (ACellEv (cell_store resource version)) (cl_rt x)\<rparr>)"
| step_load: "cl_taken x t = None \<Longrightarrow>
    cell_step publish snapshot version_of resource x
      (x\<lparr>cl_taken := (cl_taken x)(t := Some (snapshot (cl_cell x))), cl_seen := (cl_seen x)(t := length (cl_history x) - 1)\<rparr>)"
| step_load_report: "cl_taken x t = Some p \<Longrightarrow>
    cell_step publish snapshot version_of resource x
      (x\<lparr>cl_taken := (cl_taken x)(t := None),
         cl_rt := (case version_of p of
            Some version \<Rightarrow> notify (async_cell_hook (cl_rt x)) (ACellEv (cell_load resource version)) (cl_rt x)
          | None \<Rightarrow> cl_rt x)\<rparr>)"

definition cell_start :: "('c \<Rightarrow> 'p) \<Rightarrow> 'c \<Rightarrow> rt \<Rightarrow> ('c, 'p) cells" where
  "cell_start snapshot c s = \<lparr>cl_cell = c, cl_rt = s, cl_history = [snapshot c], cl_storing = None,
     cl_seen = (\<lambda>_. 0), cl_taken = (\<lambda>_. None)\<rparr>"

text \<open>The stores and the loads of a cell as the log has them.\<close>

fun store_version :: "u64 \<Rightarrow> hook \<times> HookCall \<Rightarrow> u64 option" where
  "store_version r (h, ACellEv (cell_store r' v)) = (if r' = r then Some v else None)"
| "store_version r e = None"

fun load_version :: "u64 \<Rightarrow> hook \<times> HookCall \<Rightarrow> u64 option" where
  "load_version r (h, ACellEv (cell_load r' v)) = (if r' = r then Some v else None)"
| "load_version r e = None"

definition logged_stores :: "u64 \<Rightarrow> rt \<Rightarrow> u64 list" where
  "logged_stores r s = List.map_filter (store_version r) (calls s)"

definition logged_loads :: "u64 \<Rightarrow> rt \<Rightarrow> u64 list" where
  "logged_loads r s = List.map_filter (load_version r) (calls s)"

lemma logged_notify:
  "logged_stores r (notify (Some h) e s) = logged_stores r s @ (case store_version r (h, e) of Some v \<Rightarrow> [v] | None \<Rightarrow> [])"
  "logged_loads r (notify (Some h) e s) = logged_loads r s @ (case load_version r (h, e) of Some v \<Rightarrow> [v] | None \<Rightarrow> [])"
  by (simp_all add: logged_stores_def logged_loads_def List.map_filter_def split: option.split)

text \<open>What the argument needs of a cell: a publication takes the next version and makes a snapshot
  of that version current, or panics, which leaves the current snapshot as it is. The laws may rest on
  a hypothesis \<open>ok\<close> about code outside the crate.\<close>

locale versioned_cell =
  fixes ok :: bool
    and publish :: "'v \<Rightarrow> 'c \<Rightarrow> (panic + u64) \<times> 'c"
    and snapshot :: "'c \<Rightarrow> 'p"
    and version_of :: "'p \<Rightarrow> u64 option"
    and wrap :: "u64 \<Rightarrow> 'v \<Rightarrow> 'p"
    and current :: "'c \<Rightarrow> u64"
  assumes publish_ok: "ok \<Longrightarrow> publish v c = (Inr n, c') \<Longrightarrow>
      current c \<noteq> U64_MAX \<and> n = current c + 1 \<and> current c' = n \<and> snapshot c' = wrap n v"
    and publish_panics: "publish v c = (Inl p, c') \<Longrightarrow> current c' = current c \<and> snapshot c' = snapshot c"
    and version_wrap: "version_of (wrap n v) = Some m \<Longrightarrow> m = n"
begin

definition cell_inv :: "hook \<Rightarrow> u64 \<Rightarrow> ('c, 'p) cells \<Rightarrow> bool" where
  "cell_inv h r x \<longleftrightarrow>
     async_cell_hook (cl_rt x) = Some h \<and>
     length (cl_history x) = unat (current (cl_cell x)) + 1 \<and> snapshot (cl_cell x) = last (cl_history x) \<and>
     (\<forall>i<length (cl_history x). \<exists>v. cl_history x ! i = wrap (of_nat i) v) \<and>
     (\<forall>n. cl_storing x = Some n \<longrightarrow> n = current (cl_cell x) \<and> n \<noteq> 0) \<and>
     logged_stores r (cl_rt x) = map of_nat [1..<length (cl_history x) - (if cl_storing x = None then 0 else 1)] \<and>
     (\<forall>t. cl_seen x t < length (cl_history x) \<and> (\<forall>p. cl_taken x t = Some p \<longrightarrow> p = cl_history x ! cl_seen x t)) \<and>
     (\<forall>n\<in>set (logged_loads r (cl_rt x)). unat n < length (cl_history x))"

lemma inv_start:
  assumes "async_cell_hook s = Some h" "current c = 0" "snapshot c = wrap 0 v" "logged_stores r s = []" "logged_loads r s = []"
  shows "cell_inv h r (cell_start snapshot c s)"
  using assms by (auto simp: cell_inv_def cell_start_def)

lemma inv_publish:
  assumes ok and inv: "cell_inv h r x" and "cl_storing x = None" "publish v (cl_cell x) = (Inr n, c)"
  shows "cell_inv h r (x\<lparr>cl_cell := c, cl_history := cl_history x @ [snapshot c], cl_storing := Some n\<rparr>)"
proof -
  have n: "current (cl_cell x) \<noteq> U64_MAX" "n = current (cl_cell x) + 1" "current c = n" "snapshot c = wrap n v"
    using publish_ok [OF assms(1,4)] by simp_all
  have un: "unat n = unat (current (cl_cell x)) + 1" using unat_add1 [OF n(1)] n(2) by simp
  have len: "length (cl_history x) = unat n" using inv un by (simp add: cell_inv_def)
  have "of_nat (length (cl_history x)) = n" by (simp add: len)
  moreover have "n \<noteq> 0" using un by auto
  moreover have "cl_taken x t = Some p \<Longrightarrow> p = (cl_history x @ [snapshot c]) ! cl_seen x t" for t p
    using inv by (auto simp: cell_inv_def nth_append)
  ultimately show ?thesis
    using inv n un assms(3) by (auto simp: cell_inv_def nth_append less_Suc_eq add.commute)
qed

lemma inv_step:
  assumes "cell_step publish snapshot version_of r x y" "cell_inv h r x" ok
  shows "cell_inv h r y"
  using assms(1)
proof (cases rule: cell_step.cases)
  case (step_publish v n c)
  with inv_publish [OF assms(3,2)] show ?thesis by simp
next
  case (step_publish_panics v p c)
  with publish_panics assms(2) show ?thesis by (auto simp: cell_inv_def)
next
  case (step_store_report n)
  with assms(2) have len: "length (cl_history x) = unat n + 1" "n \<noteq> 0" by (auto simp: cell_inv_def)
  then have "0 < unat n" by (simp add: unat_gt_0)
  with len have "map of_nat [1..<length (cl_history x)] = map of_nat [1..<length (cl_history x) - 1] @ [n]" by simp
  with step_store_report assms(2) show ?thesis unfolding cell_inv_def by (auto simp: logged_notify)
next
  case (step_load t)
  with assms(2) have "cl_history x \<noteq> []" "snapshot (cl_cell x) = last (cl_history x)" by (auto simp: cell_inv_def)
  then have "snapshot (cl_cell x) = cl_history x ! (length (cl_history x) - 1)" by (simp add: last_conv_nth)
  with step_load assms(2) \<open>cl_history x \<noteq> []\<close> show ?thesis
    unfolding cell_inv_def by (auto simp: last_conv_nth)
next
  case (step_load_report t p)
  with assms(2) have p: "p = cl_history x ! cl_seen x t" "cl_seen x t < length (cl_history x)"
    by (auto simp: cell_inv_def)
  then obtain v where "p = wrap (of_nat (cl_seen x t)) v" using assms(2) unfolding cell_inv_def by blast
  then have "version_of p = Some m \<Longrightarrow> m = of_nat (cl_seen x t)" for m using version_wrap by blast
  moreover have "unat (of_nat (cl_seen x t) :: u64) = cl_seen x t"
  proof (rule unat_of_nat_u64)
    show "cl_seen x t < 2 ^ 64"
      using p(2) assms(2) unat_u64_bound [of "current (cl_cell x)"] by (simp add: cell_inv_def)
  qed
  ultimately show ?thesis
    using step_load_report assms(2) p(2) by (cases "version_of p") (auto simp: cell_inv_def logged_notify)
qed

lemma inv_reachable:
  "(cell_step publish snapshot version_of r)\<^sup>*\<^sup>* x y \<Longrightarrow> ok \<Longrightarrow> cell_inv h r x \<Longrightarrow> cell_inv h r y"
  by (induction rule: rtranclp_induct) (blast intro: inv_step)+

lemma history_grows:
  "(cell_step publish snapshot version_of r)\<^sup>*\<^sup>* x y \<Longrightarrow> ok \<Longrightarrow> cell_inv h r x \<Longrightarrow>
    take (length (cl_history x)) (cl_history y) = cl_history x \<and> cl_seen x t \<le> cl_seen y t"
proof (induction rule: rtranclp_induct)
  case base
  then show ?case by simp
next
  case (step y z)
  have inv: "cell_inv h r y" using inv_reachable step by blast
  have "cl_seen y t \<le> cl_seen z t \<and> (\<exists>ps. cl_history z = cl_history y @ ps)"
    using step.hyps(2)
  proof (cases rule: cell_step.cases)
    case (step_load t')
    have "cl_seen y t < length (cl_history y)" using inv unfolding cell_inv_def by blast
    with step_load show ?thesis by (cases "t' = t") auto
  qed auto
  then obtain ps where z: "cl_history z = cl_history y @ ps" "cl_seen y t \<le> cl_seen z t" by blast
  have ih: "take (length (cl_history x)) (cl_history y) = cl_history x" "cl_seen x t \<le> cl_seen y t"
    using step by simp_all
  then have "length (cl_history x) \<le> length (cl_history y)" by (metis length_take min.cobounded1)
  with z ih show ?case by (simp add: order_trans)
qed

end

definition some_version :: "'a Versioned \<Rightarrow> u64 option" where
  "some_version p = Some (vd_version p)"

abbreviation (input) stamp :: "u64 \<Rightarrow> 'a \<Rightarrow> 'a Versioned" where
  "stamp n v \<equiv> \<lparr>vd_version = n, vd_value = v\<rparr>"

lemma bump_version_cases:
  "bump_version l = (Inr n, l') \<Longrightarrow> vl_next l \<noteq> U64_MAX \<and> n = vl_next l + 1 \<and> vl_next l' = n"
  "bump_version l = (Inl p, l') \<Longrightarrow> vl_next l' = vl_next l"
  by (auto simp: bump_version_def checked_add1_def split: if_splits)

interpretation swap_cell: versioned_cell "atomic_cell A" "ModelArcSwap_publish A" "\<lambda>c. as_load A (mas_inner c)"
  some_version stamp "\<lambda>c. vl_next (mas_next_version c)" for A
  by unfold_locales
    (auto simp: ModelArcSwap_publish_def atomic_cell_def some_version_def dest: bump_version_cases
      split: prod.splits sum.splits)

interpretation swap_option_cell: versioned_cell "atomic_cell A" "ModelArcSwapOption_publish A" "\<lambda>c. as_load A (mao_inner c)"
  "map_option vd_version" "\<lambda>n. map_option (stamp n)" "\<lambda>c. vl_next (mao_next_version c)" for A
  by unfold_locales
    (auto simp: ModelArcSwapOption_publish_def atomic_cell_def dest: bump_version_cases
      split: prod.splits sum.splits)

abbreviation swap_step :: "('k, 'a Versioned) arc_swap \<Rightarrow> u64 \<Rightarrow> ('k ModelArcSwap, 'a Versioned) cells
    \<Rightarrow> ('k ModelArcSwap, 'a Versioned) cells \<Rightarrow> bool" where
  "swap_step A \<equiv> cell_step (ModelArcSwap_publish A) (\<lambda>c. as_load A (mas_inner c)) some_version"

abbreviation swap_option_step :: "('k, 'a Versioned option) arc_swap \<Rightarrow> u64
    \<Rightarrow> ('k ModelArcSwapOption, 'a Versioned option) cells \<Rightarrow> ('k ModelArcSwapOption, 'a Versioned option) cells \<Rightarrow> bool" where
  "swap_option_step A \<equiv> cell_step (ModelArcSwapOption_publish A) (\<lambda>c. as_load A (mao_inner c)) (map_option vd_version)"

lemma cell_log_start:
  assumes "logged_stores r s = []" "logged_loads r s = []" "async_cell_hook s = Some h"
    and s': "s' = notify (Some h) (ACellEv (cell_created r)) (s\<lparr>NEXT_ASYNC_LOCK_RESOURCE_ID := n\<rparr>)"
  shows "async_cell_hook s' = Some h" "logged_stores r s' = []" "logged_loads r s' = []"
  using assms by (simp_all add: logged_notify) (simp_all add: hook_reads logged_stores_def logged_loads_def)

lemma ModelArcSwap_new_start:
  assumes "ModelArcSwap_new A v0 s = (Inr c, s1)" "async_cell_hook s = Some h" "atomic_cell A"
    and "logged_stores (mas_resource c) s = []" "logged_loads (mas_resource c) s = []"
  shows "swap_cell.cell_inv A h (mas_resource c) (cell_start (\<lambda>c. as_load A (mas_inner c)) c s1)"
proof -
  obtain n where s1: "s1 = notify (Some h) (ACellEv (cell_created (mas_resource c))) (s\<lparr>NEXT_ASYNC_LOCK_RESOURCE_ID := n\<rparr>)"
    and c: "vl_next (mas_next_version c) = 0" "mas_inner c = as_new A \<lparr>vd_version = 0, vd_value = v0\<rparr>"
    using assms(1,2) by (auto simp: ModelArcSwap_new_def rbind_def next_async_lock_resource_id_def hook_reads
        split: option.splits)
  show ?thesis
    using cell_log_start [OF assms(4,5,2) s1] c assms(3)
    by (intro swap_cell.inv_start [where v = v0]) (simp_all add: atomic_cell_def)
qed

lemma ModelArcSwapOption_new_start:
  assumes "ModelArcSwapOption_new A v0 s = (Inr c, s1)" "async_cell_hook s = Some h" "atomic_cell A"
    and "logged_stores (mao_resource c) s = []" "logged_loads (mao_resource c) s = []"
  shows "swap_option_cell.cell_inv A h (mao_resource c) (cell_start (\<lambda>c. as_load A (mao_inner c)) c s1)"
proof -
  obtain n where s1: "s1 = notify (Some h) (ACellEv (cell_created (mao_resource c))) (s\<lparr>NEXT_ASYNC_LOCK_RESOURCE_ID := n\<rparr>)"
    and c: "vl_next (mao_next_version c) = 0"
      "mao_inner c = as_new A (map_option (\<lambda>v. \<lparr>vd_version = 0, vd_value = v\<rparr>) v0)"
    using assms(1,2) by (auto simp: ModelArcSwapOption_new_def rbind_def next_async_lock_resource_id_def hook_reads
        split: option.splits)
  show ?thesis
    using cell_log_start [OF assms(4,5,2) s1] c assms(3)
    by (intro swap_option_cell.inv_start [where v = v0]) (simp_all add: atomic_cell_def)
qed

text \<open>(C23) The versions of a cell are honest in every interleaving of threads that store and load,
  even of threads that stop anywhere in between. The stores in the log are the versions 1, 2, 3, and so on in
  that order, one for every publication, the last one missing only while its store has not
  reported yet; the snapshot number \<open>i\<close> of the history carries version \<open>i\<close>; the snapshot a load holds
  is the one its version names and stays so, however many stores happen before it is reported; a
  version is in the log of loads only if it was published before; the history only grows and the
  versions one thread sees never go back.\<close>

theorem cell_versions_linear:
  fixes A :: "('k, 'a Versioned) arc_swap"
  assumes "atomic_cell A" "ModelArcSwap_new A v0 s = (Inr c, s1)" "async_cell_hook s = Some h"
    and r: "r = mas_resource c" and "logged_stores r s = []" "logged_loads r s = []"
    and run: "(swap_step A r)\<^sup>*\<^sup>* (cell_start (\<lambda>c. as_load A (mas_inner c)) c s1) x" and more: "(swap_step A r)\<^sup>*\<^sup>* x y"
  shows "logged_stores r (cl_rt x) = map of_nat [1..<length (cl_history x) - (if cl_storing x = None then 0 else 1)]
    \<and> (\<forall>i<length (cl_history x). vd_version (cl_history x ! i) = of_nat i)
    \<and> (\<forall>t p. cl_taken x t = Some p \<longrightarrow> p = cl_history x ! cl_seen x t \<and> cl_seen x t < length (cl_history x))
    \<and> (\<forall>n\<in>set (logged_loads r (cl_rt x)). unat n < length (cl_history x))
    \<and> as_load A (mas_inner (cl_cell x)) = last (cl_history x)
    \<and> take (length (cl_history x)) (cl_history y) = cl_history x \<and> (\<forall>t. cl_seen x t \<le> cl_seen y t)"
proof -
  have "swap_cell.cell_inv A h r (cell_start (\<lambda>c. as_load A (mas_inner c)) c s1)"
    using ModelArcSwap_new_start [OF assms(2,3,1)] assms(5,6) by (simp add: r)
  then have inv: "swap_cell.cell_inv A h r x" by (rule swap_cell.inv_reachable [OF run assms(1)])
  then show ?thesis
    using swap_cell.history_grows [OF more assms(1) inv]
    unfolding swap_cell.cell_inv_def by (metis Versioned.select_convs(1))
qed

text \<open>The optional cell keeps the same discipline: its stores are logged as 1, 2, 3, and so on,
  whether they fill or empty it; a snapshot that holds a value carries the number of the publication
  that put it there; a load in the log names a publication that happened.\<close>

theorem option_cell_versions_linear:
  fixes A :: "('k, 'a Versioned option) arc_swap"
  assumes "atomic_cell A" "ModelArcSwapOption_new A v0 s = (Inr c, s1)" "async_cell_hook s = Some h"
    and r: "r = mao_resource c" and "logged_stores r s = []" "logged_loads r s = []"
    and run: "(swap_option_step A r)\<^sup>*\<^sup>* (cell_start (\<lambda>c. as_load A (mao_inner c)) c s1) x"
  shows "logged_stores r (cl_rt x) = map of_nat [1..<length (cl_history x) - (if cl_storing x = None then 0 else 1)]
    \<and> (\<forall>i<length (cl_history x). \<forall>p. cl_history x ! i = Some p \<longrightarrow> vd_version p = of_nat i)
    \<and> (\<forall>t p. cl_taken x t = Some p \<longrightarrow> p = cl_history x ! cl_seen x t \<and> cl_seen x t < length (cl_history x))
    \<and> (\<forall>n\<in>set (logged_loads r (cl_rt x)). unat n < length (cl_history x))
    \<and> as_load A (mao_inner (cl_cell x)) = last (cl_history x)"
proof -
  have "swap_option_cell.cell_inv A h r (cell_start (\<lambda>c. as_load A (mao_inner c)) c s1)"
    using ModelArcSwapOption_new_start [OF assms(2,3,1)] assms(5,6) by (simp add: r)
  then have inv: "swap_option_cell.cell_inv A h r x" by (rule swap_option_cell.inv_reachable [OF run assms(1)])
  have "vd_version p = of_nat i" if "i < length (cl_history x)" "cl_history x ! i = Some p" for i p
  proof -
    obtain v where "cl_history x ! i = map_option (\<lambda>v. \<lparr>vd_version = of_nat i, vd_value = v\<rparr>) v"
      using inv \<open>i < length (cl_history x)\<close> unfolding swap_option_cell.cell_inv_def by blast
    with that show ?thesis by (cases v) auto
  qed
  with inv show ?thesis unfolding swap_option_cell.cell_inv_def by blast
qed

section \<open>The cache is a fresh load\<close>

text \<open>Stores and loads through one cache, one after the other; each load gives the value the cache
  returned and the value a fresh load of the cell would have returned.\<close>

datatype 'a cache_op = CacheStore 'a | CacheLoad

fun cache_run :: "('k, 'a Versioned) arc_swap \<Rightarrow> 'a cache_op list \<Rightarrow> 'k ModelArcSwap \<times> rt \<Rightarrow> 'a Cache \<Rightarrow> ('a \<times> 'a) list \<times> rt" where
  "cache_run A [] (c, s) ca = ([], s)"
| "cache_run A (CacheStore v # ops) (c, s) ca =
     (case ModelArcSwap_store A v (c, s) of (_, cs) \<Rightarrow> cache_run A ops cs ca)"
| "cache_run A (CacheLoad # ops) (c, s) ca =
     (case Cache_load A c ca s of
        (v, ca', s') \<Rightarrow> (case cache_run A ops (c, s') ca' of
          (vs, s'') \<Rightarrow> ((v, fst (ModelArcSwap_load_full A c s)) # vs, s'')))"

text \<open>The same operations with \<open>load_full\<close> in place of the cache.\<close>

fun direct_run :: "('k, 'a Versioned) arc_swap \<Rightarrow> 'a cache_op list \<Rightarrow> 'k ModelArcSwap \<times> rt \<Rightarrow> rt" where
  "direct_run A [] (c, s) = s"
| "direct_run A (CacheStore v # ops) (c, s) = (case ModelArcSwap_store A v (c, s) of (_, cs) \<Rightarrow> direct_run A ops cs)"
| "direct_run A (CacheLoad # ops) (c, s) = (case ModelArcSwap_load_full A c s of (v, s') \<Rightarrow> direct_run A ops (c, s'))"

definition cache_ok :: "('k, 'a Versioned) arc_swap \<Rightarrow> 'k ModelArcSwap \<Rightarrow> 'a Cache \<Rightarrow> bool" where
  "cache_ok A c ca \<longleftrightarrow> vd_version (as_load A (mas_inner c)) = vl_next (mas_next_version c)
     \<and> ca_cached_version ca \<le> vl_next (mas_next_version c)
     \<and> (ca_cached_version ca = vl_next (mas_next_version c) \<longrightarrow> ca_cached ca = vd_value (as_load A (mas_inner c)))"

lemma cache_ok_store:
  assumes "atomic_cell A" "cache_ok A c ca" "ModelArcSwap_store A v (c, s) = (r, (c', s'))"
  shows "cache_ok A c' ca"
proof -
  have "n \<noteq> U64_MAX \<Longrightarrow> m \<le> n \<Longrightarrow> m < n + 1" for m n :: u64
    by (simp add: word_le_nat_alt word_less_nat_alt unat_add1)
  then have "n \<noteq> U64_MAX \<Longrightarrow> m \<le> n \<Longrightarrow> m \<le> n + 1" "n \<noteq> U64_MAX \<Longrightarrow> \<not> n + 1 \<le> n" for m n :: u64 by force+
  with assms show ?thesis
    by (auto simp: cache_ok_def ModelArcSwap_store_def ModelArcSwap_publish_def bump_version_def checked_add1_def
        atomic_cell_def split: if_splits)
qed

lemma cache_ok_load:
  assumes "cache_ok A c ca" "Cache_load A c ca s = (v, ca', s')"
  shows "cache_ok A c ca'" "v = fst (ModelArcSwap_load_full A c s)" "s' = snd (ModelArcSwap_load_full A c s)"
  using assms by (auto simp: cache_ok_def Cache_load_def ModelArcSwap_load_snapshot_def ModelArcSwap_load_full_def
      Let_def split: if_splits)

lemma cache_run_fresh:
  "atomic_cell A \<Longrightarrow> cache_ok A c ca \<Longrightarrow> cache_run A ops (c, s) ca = (vs, s') \<Longrightarrow>
   (\<forall>(cached, fresh)\<in>set vs. cached = fresh) \<and> s' = direct_run A ops (c, s)"
proof (induction A ops "(c, s)" ca arbitrary: c s vs s' rule: cache_run.induct)
  case (2 A v ops c s ca)
  obtain r c' s1 where st: "ModelArcSwap_store A v (c, s) = (r, (c', s1))" by (metis prod_cases3)
  with 2 cache_ok_store [OF 2(2,3) st] show ?case by simp
next
  case (3 A ops c s ca)
  obtain v ca' s1 where ld: "Cache_load A c ca s = (v, ca', s1)" by (metis prod_cases3)
  note ok = cache_ok_load [OF 3(3) ld]
  obtain vs' s2 where rest: "cache_run A ops (c, s1) ca' = (vs', s2)" by fastforce
  have "vs = (v, fst (ModelArcSwap_load_full A c s)) # vs'" "s' = s2" using 3(4) by (simp_all add: ld rest)
  with 3(1) [OF ld [symmetric] refl 3(2) ok(1) rest] ok(2,3) show ?case by (simp split: prod.splits)
qed simp_all

text \<open>(C39) A load through the cache is a fresh load. From a cell just created and a cache made of it,
  through any sequence of stores (one of which may find the version counter exhausted and panic) and
  cache loads, each load through the cache returns exactly what a fresh load of the cell returns,
  and the hook sees exactly the same calls as if every one of them had been a fresh load.\<close>

theorem cache_equals_fresh_load:
  assumes "atomic_cell A" "ModelArcSwap_new A v0 s = (Inr c, s1)"
    and "cache_run A ops (c, s1) (Cache_new A c) = (vs, s')"
  shows "(\<forall>(cached, fresh)\<in>set vs. cached = fresh) \<and> calls s' = calls (direct_run A ops (c, s1))"
proof -
  have "cache_ok A c (Cache_new A c)"
    using assms(1,2) by (auto simp: cache_ok_def Cache_new_def ModelArcSwap_initial_snapshot_def ModelArcSwap_new_def
        rbind_def next_async_lock_resource_id_def atomic_cell_def Let_def split: option.splits)
  from cache_run_fresh [OF assms(1) this assms(3)] show ?thesis by simp
qed

section \<open>Examples\<close>

definition plain_cell :: "('p, 'p) arc_swap" where
  "plain_cell = \<lparr>as_new = (\<lambda>p. p), as_load = (\<lambda>k. k), as_store = (\<lambda>p k. p)\<rparr>"

lemma plain_cell_atomic [simp]: "atomic_cell plain_cell"
  by (simp add: atomic_cell_def plain_cell_def)

definition cell_rt :: rt where
  "cell_rt = install_async_cell_hook 6 rt_init"

abbreviation cell_rt1 :: rt where
  "cell_rt1 \<equiv> notify (Some 6) (ACellEv (cell_created 1)) (cell_rt\<lparr>NEXT_ASYNC_LOCK_RESOURCE_ID := 2\<rparr>)"

definition fresh_cell :: "nat Versioned ModelArcSwap" where
  "fresh_cell = \<lparr>mas_inner = \<lparr>vd_version = 0, vd_value = 7\<rparr>, mas_resource = 1,
     mas_next_version = \<lparr>vl_next = 0, vl_poisoned = False\<rparr>\<rparr>"

definition fresh_option_cell :: "nat Versioned option ModelArcSwapOption" where
  "fresh_option_cell = \<lparr>mao_inner = None, mao_resource = 1, mao_next_version = \<lparr>vl_next = 0, vl_poisoned = False\<rparr>\<rparr>"

lemma cell_rt_facts [simp]:
  "async_cell_hook cell_rt = Some 6" "logged_stores 1 cell_rt = []" "logged_loads 1 cell_rt = []"
  by (simp_all add: cell_rt_def hook_installs hook_reads rt_init_def logged_stores_def logged_loads_def List.map_filter_def)

lemma fresh_cell_new:
  "ModelArcSwap_new plain_cell 7 cell_rt = (Inr fresh_cell, cell_rt1)"
  "ModelArcSwapOption_empty plain_cell cell_rt = (Inr fresh_option_cell, cell_rt1)"
  by (simp_all add: ModelArcSwap_new_def ModelArcSwapOption_empty_def ModelArcSwapOption_new_def rbind_def
      next_async_lock_resource_id_def checked_add1_def plain_cell_def fresh_cell_def fresh_option_cell_def
      cell_rt_def rt_init_def hook_installs hook_reads)

text \<open>Thread 3 takes its snapshot of version 0, then a store of 9 is published and not yet reported.\<close>

theorem cell_versions_linear_witness:
  "\<exists>x. (swap_step plain_cell 1)\<^sup>*\<^sup>* (cell_start (\<lambda>c. as_load plain_cell (mas_inner c)) fresh_cell cell_rt1) x
     \<and> cl_taken x 3 = Some \<lparr>vd_version = 0, vd_value = 7\<rparr> \<and> last (cl_history x) = \<lparr>vd_version = 1, vd_value = 9\<rparr>
     \<and> logged_stores 1 (cl_rt x) = []"
proof -
  let ?x0 = "cell_start (\<lambda>c. as_load plain_cell (mas_inner c)) fresh_cell cell_rt1"
  let ?x1 = "?x0\<lparr>cl_taken := (cl_taken ?x0)(3 := Some (as_load plain_cell (mas_inner (cl_cell ?x0)))),
    cl_seen := (cl_seen ?x0)(3 := length (cl_history ?x0) - 1)\<rparr>"
  let ?c = "fresh_cell\<lparr>mas_next_version := \<lparr>vl_next = 1, vl_poisoned = False\<rparr>, mas_inner := \<lparr>vd_version = 1, vd_value = 9\<rparr>\<rparr>"
  let ?x2 = "?x1\<lparr>cl_cell := ?c, cl_history := cl_history ?x1 @ [as_load plain_cell (mas_inner ?c)], cl_storing := Some 1\<rparr>"
  have "swap_step plain_cell 1 ?x0 ?x1" by (rule step_load) (simp add: cell_start_def)
  moreover have "swap_step plain_cell 1 ?x1 ?x2"
    by (rule step_publish [where v = 9])
      (simp_all add: cell_start_def fresh_cell_def ModelArcSwap_publish_def bump_version_def checked_add1_def plain_cell_def)
  ultimately have run: "(swap_step plain_cell 1)\<^sup>*\<^sup>* ?x0 ?x2"
    by (rule rtranclp.rtrancl_into_rtrancl [OF r_into_rtranclp])
  have log: "logged_stores 1 (cl_rt ?x2) = []"
    using cell_versions_linear [OF plain_cell_atomic fresh_cell_new(1) cell_rt_facts(1) _ cell_rt_facts(2,3) run rtranclp.rtrancl_refl]
    by (simp add: fresh_cell_def cell_start_def)
  show ?thesis
    by (intro exI, rule conjI, rule run) (use log in \<open>simp add: cell_start_def fresh_cell_def plain_cell_def\<close>)
qed

theorem option_cell_versions_linear_witness:
  "\<exists>x. (swap_option_step plain_cell 1)\<^sup>*\<^sup>* (cell_start (\<lambda>c. as_load plain_cell (mao_inner c)) fresh_option_cell cell_rt1) x
     \<and> last (cl_history x) = Some \<lparr>vd_version = 1, vd_value = 9\<rparr> \<and> logged_stores 1 (cl_rt x) = [1]"
proof -
  let ?x0 = "cell_start (\<lambda>c. as_load plain_cell (mao_inner c)) fresh_option_cell cell_rt1"
  let ?c = "fresh_option_cell\<lparr>mao_next_version := \<lparr>vl_next = 1, vl_poisoned = False\<rparr>, mao_inner := Some \<lparr>vd_version = 1, vd_value = 9\<rparr>\<rparr>"
  let ?x1 = "?x0\<lparr>cl_cell := ?c, cl_history := cl_history ?x0 @ [as_load plain_cell (mao_inner ?c)], cl_storing := Some 1\<rparr>"
  let ?x2 = "?x1\<lparr>cl_storing := None,
    cl_rt := notify (async_cell_hook (cl_rt ?x1)) (ACellEv (cell_store 1 1)) (cl_rt ?x1)\<rparr>"
  have "swap_option_step plain_cell 1 ?x0 ?x1"
    by (rule step_publish [where v = "Some 9"])
      (simp_all add: cell_start_def fresh_option_cell_def ModelArcSwapOption_publish_def bump_version_def checked_add1_def plain_cell_def)
  moreover have "swap_option_step plain_cell 1 ?x1 ?x2" by (rule step_store_report) simp
  ultimately have run: "(swap_option_step plain_cell 1)\<^sup>*\<^sup>* ?x0 ?x2"
    by (rule rtranclp.rtrancl_into_rtrancl [OF r_into_rtranclp])
  have log: "logged_stores 1 (cl_rt ?x2) = [1]"
    using option_cell_versions_linear [OF plain_cell_atomic fresh_cell_new(2) [unfolded ModelArcSwapOption_empty_def]
        cell_rt_facts(1) _ cell_rt_facts(2,3) run]
    by (simp add: fresh_option_cell_def cell_start_def)
  show ?thesis
    by (intro exI, rule conjI, rule run) (use log in \<open>simp add: cell_start_def fresh_option_cell_def plain_cell_def\<close>)
qed

theorem cache_equals_fresh_load_witness:
  "\<exists>s'. cache_run plain_cell [CacheLoad, CacheStore 9, CacheLoad] (fresh_cell, cell_rt1) (Cache_new plain_cell fresh_cell) =
     ([(7, 7), (9, 9)], s')
   \<and> calls s' = calls (direct_run plain_cell [CacheLoad, CacheStore 9, CacheLoad] (fresh_cell, cell_rt1))"
proof -
  have "fst (cache_run plain_cell [CacheLoad, CacheStore 9, CacheLoad] (fresh_cell, cell_rt1) (Cache_new plain_cell fresh_cell)) =
      [(7, 7), (9, 9)]"
    by (simp add: Cache_new_def Cache_load_def ModelArcSwap_initial_snapshot_def ModelArcSwap_load_snapshot_def
        ModelArcSwap_load_full_def ModelArcSwap_store_def ModelArcSwap_publish_def bump_version_def checked_add1_def
        plain_cell_def fresh_cell_def)
  then obtain s' where "cache_run plain_cell [CacheLoad, CacheStore 9, CacheLoad] (fresh_cell, cell_rt1) (Cache_new plain_cell fresh_cell) =
      ([(7, 7), (9, 9)], s')" by (metis prod.collapse)
  with cache_equals_fresh_load [OF plain_cell_atomic fresh_cell_new(1) this] show ?thesis by blast
qed

end
