(* ===== verification/ProbeEvents.thy ===== *)
theory ProbeEvents
  imports Hooks
begin

text \<open>
  The event vocabulary of the probe, \<^verbatim>\<open>laplace-probe-sdk/src/event.rs\<close>. The mirrors of the runtime's
  enumerations are types of their own, as in the source. The JSON metadata of a custom event is a
  value of a type parameter: the probe only carries it.
\<close>

section \<open>Mirrors of the runtime's vocabulary\<close>

datatype ProbeAcquireKind = PMutex | PRwRead | PRwWrite | PSemaphorePermits u32

datatype ProbeChannelKind = PMpscBounded usize | PMpscUnbounded | POneshot | PWatch

datatype ProbeChannelSide = PSender | PReceiver

datatype ProbeChannelOp = PSend | PRecv | PChanged

datatype ProbeChannelOutcome = POk | PClosed | PEmpty | PFull

datatype BroadcastOp = BroadcastSend | BroadcastRecv | BroadcastTryRecv | BroadcastResubscribe

datatype BroadcastOutcome = BroadcastOk usize | BroadcastClosed | BroadcastEmpty | BroadcastLagged u64

section \<open>Events\<close>

text \<open>The source has one flat enumeration; here the asynchronous variants are grouped by family, each under
  its own name.\<close>

datatype TaskProbeEvent =
    TaskSpawned u64 "u64 option" "string option"
  | TaskPolled u64 u64
  | FuturePending u64 "u64 option" u64
  | FutureReady u64 "u64 option" u64
  | WakeIssued "u64 option" u64 u64
  | CancelRequested u64
  | TaskCompleted u64
  | TaskJoinRequested u64 u64
  | TaskJoinResolved u64 u64

datatype NotifyProbeEvent =
    NotifyWaiterRegistered u64 u64
  | NotifyStoredPermit u64 bool
  | NotifyWakeEdge u64 "u64 option" u64
  | NotifyLatestWaker u64 u64 u64
  | NotifyWakeCoalesced u64
  | NotifyWaiterCompleted u64 u64

datatype AsyncLockProbeEvent =
    AsyncLockRequested u64 u64 u64 ProbeAcquireKind
  | AsyncLockAcquired u64 u64 u64 ProbeAcquireKind
  | AsyncLockReleased u64 u64 u64 ProbeAcquireKind
  | AsyncLockWaiterDropped u64 u64 u64
  | AsyncSemaphoreCreated u64 u64 usize
  | AsyncPermitsAdded u64 u64 usize

datatype AsyncNotifyProbeEvent =
    AsyncNotifyWaitRequested u64 u64 u64
  | AsyncNotifyWaitResolved u64 u64 u64
  | AsyncNotifyOne u64 u64
  | AsyncNotifyWaiters u64 u64
  | AsyncNotifyWaiterDropped u64 u64 u64

datatype AsyncChannelProbeEvent =
    AsyncChannelCreated u64 u64 ProbeChannelKind
  | AsyncChannelOpRequested u64 u64 u64 ProbeChannelOp
  | AsyncChannelOpResolved u64 u64 u64 ProbeChannelOp ProbeChannelOutcome
  | AsyncChannelOpDropped u64 u64 u64
  | AsyncChannelEndpointCloned u64 u64 ProbeChannelSide
  | AsyncChannelEndpointDropped u64 u64 ProbeChannelSide
  | AsyncChannelClosed u64 u64

datatype AsyncBroadcastProbeEvent =
    AsyncBroadcastCreated u64 u64 usize
  | AsyncBroadcastSubscribed u64 u64 u64 u64
  | AsyncBroadcastOpRequested u64 u64 u64 "u64 option" BroadcastOp
  | AsyncBroadcastOpResolved u64 u64 u64 "u64 option" BroadcastOp BroadcastOutcome
  | AsyncBroadcastOpDropped u64 u64 u64
  | AsyncBroadcastEndpointCloned u64 u64 ProbeChannelSide "u64 option"
  | AsyncBroadcastEndpointDropped u64 u64 ProbeChannelSide "u64 option"

datatype AsyncCellProbeEvent =
    AsyncCellCreated u64 u64
  | AsyncCellLoad u64 u64 u64
  | AsyncCellStore u64 u64 u64

datatype 'j ProbeEvent =
    ThreadBlocked u64 string
  | LockAcquired u64 string
  | LockReleased u64 string
  | DbQuery string u64
  | HttpRequest string string u16
  | Custom string 'j
  | RwLockReadAcquired u64 string
  | RwLockReadReleased u64 string
  | RwLockWriteAcquired u64 string
  | RwLockWriteReleased u64 string
  | AtomicLoad u64 string
  | AtomicStore u64 string
  | AtomicRmw u64 string
  | SemaphoreAcquired u64 string
  | SemaphoreReleased u64 string
  | TaskProbe TaskProbeEvent
  | NotifyProbe NotifyProbeEvent
  | AsyncLockProbe AsyncLockProbeEvent
  | AsyncNotifyProbe AsyncNotifyProbeEvent
  | AsyncChannelProbe AsyncChannelProbeEvent
  | AsyncBroadcastProbe AsyncBroadcastProbeEvent
  | AsyncCellProbe AsyncCellProbeEvent

definition resource_name :: "'j ProbeEvent \<Rightarrow> string option" where
  "resource_name e =
     (case e of
        ThreadBlocked thread_id blocked_on \<Rightarrow> Some blocked_on
      | LockAcquired thread_id resource \<Rightarrow> Some resource
      | LockReleased thread_id resource \<Rightarrow> Some resource
      | RwLockReadAcquired thread_id resource \<Rightarrow> Some resource
      | RwLockReadReleased thread_id resource \<Rightarrow> Some resource
      | RwLockWriteAcquired thread_id resource \<Rightarrow> Some resource
      | RwLockWriteReleased thread_id resource \<Rightarrow> Some resource
      | AtomicLoad thread_id resource \<Rightarrow> Some resource
      | AtomicStore thread_id resource \<Rightarrow> Some resource
      | AtomicRmw thread_id resource \<Rightarrow> Some resource
      | SemaphoreAcquired thread_id resource \<Rightarrow> Some resource
      | SemaphoreReleased thread_id resource \<Rightarrow> Some resource
      | _ \<Rightarrow> None)"

section \<open>Decimal numbers\<close>

text \<open>\<open>format!("{n}")\<close> of an unsigned integer.\<close>

definition digit :: "nat \<Rightarrow> char" where
  "digit d = char_of (48 + d)"

fun decimal :: "nat \<Rightarrow> string" where
  "decimal n = (if n < 10 then [digit n] else decimal (n div 10) @ [digit (n mod 10)])"

declare decimal.simps [simp del]

lemma of_char_digit: "d < 10 \<Longrightarrow> of_char (digit d) = (48 + d :: nat)"
  by (simp add: digit_def)

lemma digit_eq_iff: "d < 10 \<Longrightarrow> e < 10 \<Longrightarrow> digit d = digit e \<longleftrightarrow> d = e"
  by (metis add_left_cancel of_char_digit)

lemma decimal_nonempty: "decimal n \<noteq> []"
  by (subst decimal.simps) simp

lemma decimal_inject: "decimal m = decimal n \<Longrightarrow> m = n"
proof (induction m arbitrary: n rule: decimal.induct)
  case (1 m)
  note eq = "1.prems"
  show ?case
  proof (cases "m < 10")
    case True
    then have m: "decimal m = [digit m]" by (subst decimal.simps) simp
    have "n < 10"
    proof (rule ccontr)
      assume "\<not> n < 10"
      then have "decimal n = decimal (n div 10) @ [digit (n mod 10)]" by (subst decimal.simps) simp
      with eq m decimal_nonempty [of "n div 10"] show False by (simp add: append_eq_Cons_conv)
    qed
    then have "decimal n = [digit n]" by (subst decimal.simps) simp
    with eq m True \<open>n < 10\<close> show ?thesis by (simp add: digit_eq_iff)
  next
    case False
    then have m: "decimal m = decimal (m div 10) @ [digit (m mod 10)]" by (subst decimal.simps) simp
    have "\<not> n < 10"
    proof
      assume "n < 10"
      then have "decimal n = [digit n]" by (subst decimal.simps) simp
      with eq m decimal_nonempty [of "m div 10"] show False by (simp add: append_eq_Cons_conv)
    qed
    then have "decimal n = decimal (n div 10) @ [digit (n mod 10)]" by (subst decimal.simps) simp
    with eq m have "decimal (m div 10) = decimal (n div 10)" "m mod 10 = n mod 10"
      by (simp_all add: digit_eq_iff)
    with "1.IH" [OF False] show ?thesis by (metis div_mult_mod_eq)
  qed
qed

end
