(* ===== verification/LockOrder.thy ===== *)
theory LockOrder
  imports ProbeEvents
begin

text \<open>
  The public reference verifier of \<^verbatim>\<open>laplace-probe-sdk/src/session.rs\<close>: the lock-order check over a list
  of probe events and its verdict.
\<close>

section \<open>The check\<close>

datatype HoldMode = Exclusive | Shared

definition modes_conflict :: "HoldMode \<Rightarrow> HoldMode \<Rightarrow> bool" where
  "modes_conflict a b \<longleftrightarrow> \<not> (a = Shared \<and> b = Shared)"

text \<open>An edge (held, held mode, acquired, acquired mode).\<close>

type_synonym edge = "string \<times> HoldMode \<times> string \<times> HoldMode"

text \<open>The match at the head of the loop: thread, resource, mode and whether the event is an acquire.\<close>

definition lock_event :: "'j ProbeEvent \<Rightarrow> (u64 \<times> string \<times> HoldMode \<times> bool) option" where
  "lock_event event =
     (case event of
        LockAcquired thread_id resource \<Rightarrow> Some (thread_id, resource, Exclusive, True)
      | RwLockWriteAcquired thread_id resource \<Rightarrow> Some (thread_id, resource, Exclusive, True)
      | RwLockReadAcquired thread_id resource \<Rightarrow> Some (thread_id, resource, Shared, True)
      | LockReleased thread_id resource \<Rightarrow> Some (thread_id, resource, Exclusive, False)
      | RwLockWriteReleased thread_id resource \<Rightarrow> Some (thread_id, resource, Exclusive, False)
      | RwLockReadReleased thread_id resource \<Rightarrow> Some (thread_id, resource, Exclusive, False)
      | _ \<Rightarrow> None)"

definition closes_cycle :: "string \<Rightarrow> HoldMode \<Rightarrow> string \<Rightarrow> HoldMode \<Rightarrow> edge set \<Rightarrow> bool" where
  "closes_cycle prior prior_mode resource mode order_edges \<longleftrightarrow>
     (\<exists>(r, their_hold, p, their_want)\<in>order_edges.
        r = resource \<and> p = prior \<and> modes_conflict mode their_hold \<and> modes_conflict their_want prior_mode)"

definition cycle_text :: "string \<Rightarrow> string \<Rightarrow> string" where
  "cycle_text prior resource = prior @ ''->'' @ resource @ ''->'' @ prior"

text \<open>The inner loop over the locks the thread holds: the text of a cycle, or the edges so far.\<close>

fun scan_held :: "string \<Rightarrow> HoldMode \<Rightarrow> (string \<times> HoldMode) list \<Rightarrow> edge set \<Rightarrow> string + edge set" where
  "scan_held resource mode [] order_edges = Inr order_edges"
| "scan_held resource mode ((prior, prior_mode) # held) order_edges =
     (if prior = resource then scan_held resource mode held order_edges
      else if closes_cycle prior prior_mode resource mode order_edges then Inl (cycle_text prior resource)
      else scan_held resource mode held (insert (prior, prior_mode, resource, mode) order_edges))"

fun find_cycle_from :: "(u64 \<rightharpoonup> (string \<times> HoldMode) list) \<Rightarrow> edge set \<Rightarrow> 'j ProbeEvent list \<Rightarrow> string option" where
  "find_cycle_from held_by_thread order_edges [] = None"
| "find_cycle_from held_by_thread order_edges (event # events) =
     (case lock_event event of
        None \<Rightarrow> find_cycle_from held_by_thread order_edges events
      | Some (thread_id, resource, mode, is_acquire) \<Rightarrow>
          if is_acquire
          then let held = (case held_by_thread thread_id of Some h \<Rightarrow> h | None \<Rightarrow> []) in
               (case scan_held resource mode held order_edges of
                  Inl cycle \<Rightarrow> Some cycle
                | Inr edges \<Rightarrow>
                    let held' = (if \<not> (\<exists>(r, m)\<in>set held. r = resource) then held @ [(resource, mode)] else held)
                    in find_cycle_from (held_by_thread(thread_id \<mapsto> held')) edges events)
          else (case held_by_thread thread_id of
                  Some held \<Rightarrow>
                    find_cycle_from (held_by_thread(thread_id \<mapsto> filter (\<lambda>(r, m). r \<noteq> resource) held)) order_edges events
                | None \<Rightarrow> find_cycle_from held_by_thread order_edges events))"

definition find_lock_order_cycle :: "'j ProbeEvent list \<Rightarrow> string option" where
  "find_lock_order_cycle events = find_cycle_from Map.empty {} events"

section \<open>The verdict\<close>

datatype ReferenceVerdict = Clean | BugFound string

record VerifyResult =
  vr_verdict :: ReferenceVerdict
  vr_events_collected :: nat

record ProbeSessionConfig =
  pc_max_depth :: nat
  pc_write_ard :: bool
  pc_output_dir :: string

definition run_verification_from :: "'j ProbeEvent list \<Rightarrow> string \<Rightarrow> ProbeSessionConfig \<Rightarrow> VerifyResult" where
  "run_verification_from events target_name config =
     (let verdict = (case find_lock_order_cycle events of
          None \<Rightarrow> Clean
        | Some cycle \<Rightarrow> BugFound (target_name @ '': lock-order cycle '' @ cycle))
      in \<lparr>vr_verdict = verdict, vr_events_collected = length events\<rparr>)"

text \<open>The assertions print on success and panic on the other verdict.\<close>

definition assert_bug :: "VerifyResult \<Rightarrow> panic + unit" where
  "assert_bug self = (case vr_verdict self of BugFound description \<Rightarrow> Inr () | Clean \<Rightarrow> Inl VerdictMismatch)"

definition assert_clean :: "VerifyResult \<Rightarrow> panic + unit" where
  "assert_clean self = (case vr_verdict self of Clean \<Rightarrow> Inr () | BugFound description \<Rightarrow> Inl VerdictMismatch)"

section \<open>Specification\<close>

text \<open>The locks each thread holds after a trace, as sets, and the edges of a trace: a thread acquires
  one lock while it holds another.\<close>

definition hold_step :: "'j ProbeEvent \<Rightarrow> (u64 \<Rightarrow> (string \<times> HoldMode) set) \<Rightarrow> (u64 \<Rightarrow> (string \<times> HoldMode) set)" where
  "hold_step e holds =
     (case lock_event e of
        None \<Rightarrow> holds
      | Some (t, r, m, True) \<Rightarrow> holds(t := if r \<in> fst ` holds t then holds t else insert (r, m) (holds t))
      | Some (t, r, m, False) \<Rightarrow> holds(t := {x \<in> holds t. fst x \<noteq> r}))"

definition holds_after :: "'j ProbeEvent list \<Rightarrow> u64 \<Rightarrow> (string \<times> HoldMode) set" where
  "holds_after xs = fold hold_step xs (\<lambda>_. {})"

definition edges_of :: "'j ProbeEvent list \<Rightarrow> edge set" where
  "edges_of events = {(prior, pm, r, m). \<exists>xs e ys t. events = xs @ e # ys
     \<and> lock_event e = Some (t, r, m, True) \<and> (prior, pm) \<in> holds_after xs t \<and> prior \<noteq> r}"

text \<open>Two edges that can block each other: opposite orders of the same two locks, and both waits are
  against a conflicting hold.\<close>

fun opposed :: "edge \<Rightarrow> edge \<Rightarrow> bool" where
  "opposed (a, am, b, bm) (c, cm, d, dm) \<longleftrightarrow> c = b \<and> d = a \<and> modes_conflict bm cm \<and> modes_conflict dm am"

lemma modes_conflict_sym: "modes_conflict a b = modes_conflict b a"
  by (auto simp: modes_conflict_def)

lemma opposed_sym: "opposed e f = opposed f e"
  by (cases e; cases f) (auto simp: modes_conflict_sym)

lemma closes_cycle_iff: "closes_cycle prior pm r m E \<longleftrightarrow> (\<exists>e\<in>E. opposed (prior, pm, r, m) e)"
  unfolding closes_cycle_def by (intro bex_cong refl) (auto split: prod.split)

definition new_edges :: "string \<Rightarrow> HoldMode \<Rightarrow> (string \<times> HoldMode) set \<Rightarrow> edge set" where
  "new_edges r m held = {(prior, pm, r, m) | prior pm. (prior, pm) \<in> held \<and> prior \<noteq> r}"

lemma new_edges_unopposed: "e \<in> new_edges r m held \<Longrightarrow> f \<in> new_edges r m' held' \<Longrightarrow> \<not> opposed e f"
  by (auto simp: new_edges_def)

lemma scan_held_Inr:
  assumes "scan_held r m held E = Inr E'"
  shows "E' = E \<union> new_edges r m (set held)" "e \<in> new_edges r m (set held) \<Longrightarrow> f \<in> E \<Longrightarrow> \<not> opposed e f"
proof -
  have "E' = E \<union> new_edges r m (set held) \<and> (\<forall>e\<in>new_edges r m (set held). \<forall>f\<in>E. \<not> opposed e f)"
    using assms
  proof (induction r m held E rule: scan_held.induct)
    case (1 r m E)
    then show ?case by (simp add: new_edges_def)
  next
    case (2 r m prior pm held E)
    have split: "new_edges r m (set ((prior, pm) # held)) =
        (if prior = r then {} else {(prior, pm, r, m)}) \<union> new_edges r m (set held)"
      by (auto simp: new_edges_def)
    show ?case
    proof (cases "prior = r")
      case True
      with 2 split show ?thesis by simp
    next
      case False
      with 2 split show ?thesis by (auto simp: closes_cycle_iff split: if_splits)
    qed
  qed
  then show "E' = E \<union> new_edges r m (set held)" "e \<in> new_edges r m (set held) \<Longrightarrow> f \<in> E \<Longrightarrow> \<not> opposed e f"
    by blast+
qed

lemma scan_held_Inl:
  assumes "scan_held r m held E = Inl c"
  shows "\<exists>prior pm f. (prior, pm, r, m) \<in> new_edges r m (set held) \<and> f \<in> E \<and> opposed (prior, pm, r, m) f \<and> c = cycle_text prior r"
  using assms
proof (induction r m held E rule: scan_held.induct)
  case (2 r m prior pm held E)
  show ?case
  proof (cases "prior = r")
    case True
    with 2 show ?thesis by (fastforce simp: new_edges_def)
  next
    case False
    show ?thesis
    proof (cases "closes_cycle prior pm r m E")
      case True
      then obtain f where "f \<in> E" "opposed (prior, pm, r, m) f" unfolding closes_cycle_iff by blast
      moreover have "c = cycle_text prior r" using \<open>prior \<noteq> r\<close> True "2.prems" by simp
      moreover have "(prior, pm, r, m) \<in> new_edges r m (set ((prior, pm) # held))"
        using \<open>prior \<noteq> r\<close> by (simp add: new_edges_def)
      ultimately show ?thesis by blast
    next
      case no: False
      have "scan_held r m held (insert (prior, pm, r, m) E) = Inl c"
        using "2.prems" no \<open>prior \<noteq> r\<close> by simp
      from "2.IH"(2) [OF \<open>prior \<noteq> r\<close> no this] obtain q qm f where q: "(q, qm, r, m) \<in> new_edges r m (set held)"
        and f: "f \<in> insert (prior, pm, r, m) E" "opposed (q, qm, r, m) f" and c: "c = cycle_text q r" by blast
      have "f \<in> E" using f \<open>prior \<noteq> r\<close> by auto
      moreover have "(q, qm, r, m) \<in> new_edges r m (set ((prior, pm) # held))" using q by (simp add: new_edges_def)
      ultimately show ?thesis using f(2) c by blast
    qed
  qed
qed simp

lemma edges_of_mono: "edges_of xs \<subseteq> edges_of (xs @ ys)"
  by (fastforce simp: edges_of_def)

lemma edges_of_snoc:
  "edges_of (xs @ [e]) = edges_of xs \<union>
     (case lock_event e of Some (t, r, m, True) \<Rightarrow> new_edges r m (holds_after xs t) | _ \<Rightarrow> {})"
    (is "_ = _ \<union> ?new")
proof (intro equalityI subsetI)
  fix x assume "x \<in> edges_of (xs @ [e])"
  then obtain prior pm r m us e' vs t where x: "x = (prior, pm, r, m)" and split: "xs @ [e] = us @ e' # vs"
    and e': "lock_event e' = Some (t, r, m, True)" "(prior, pm) \<in> holds_after us t" "prior \<noteq> r"
    unfolding edges_of_def by blast
  show "x \<in> edges_of xs \<union> ?new"
  proof (cases vs rule: rev_cases)
    case Nil
    with split have "us = xs" "e' = e" by simp_all
    with x e' show ?thesis by (auto simp: new_edges_def)
  next
    case (snoc vs' y)
    with split have "xs = us @ e' # vs'" by simp
    with x e' show ?thesis unfolding edges_of_def by blast
  qed
next
  fix x assume "x \<in> edges_of xs \<union> ?new"
  moreover have "x \<in> ?new \<Longrightarrow> x \<in> edges_of (xs @ [e])"
    by (auto simp: edges_of_def new_edges_def split: option.splits bool.splits) blast
  ultimately show "x \<in> edges_of (xs @ [e])" using edges_of_mono by blast
qed

lemma holds_after_snoc: "holds_after (xs @ [e]) = hold_step e (holds_after xs)"
  by (simp add: holds_after_def)

definition held_list :: "(u64 \<rightharpoonup> (string \<times> HoldMode) list) \<Rightarrow> u64 \<Rightarrow> (string \<times> HoldMode) list" where
  "held_list H t = (case H t of Some h \<Rightarrow> h | None \<Rightarrow> [])"

text \<open>The state of the loop after a prefix in which no cycle was found.\<close>

definition scanned :: "'j ProbeEvent list \<Rightarrow> (u64 \<rightharpoonup> (string \<times> HoldMode) list) \<Rightarrow> edge set \<Rightarrow> bool" where
  "scanned xs H E \<longleftrightarrow> (\<forall>t. set (held_list H t) = holds_after xs t) \<and> E = edges_of xs \<and> (\<forall>e\<in>E. \<forall>f\<in>E. \<not> opposed e f)"

lemma scanned_acquire:
  assumes "scanned xs H E" "lock_event e = Some (t, r, m, True)" "scan_held r m (held_list H t) E = Inr E'"
    and "held' = (if \<not> (\<exists>(r', m')\<in>set (held_list H t). r' = r) then held_list H t @ [(r, m)] else held_list H t)"
  shows "scanned (xs @ [e]) (H(t \<mapsto> held')) E'"
proof -
  have E': "E' = E \<union> new_edges r m (holds_after xs t)"
    and free: "\<And>e f. e \<in> new_edges r m (holds_after xs t) \<Longrightarrow> f \<in> E \<Longrightarrow> \<not> opposed e f"
    using scan_held_Inr [OF assms(3)] assms(1) by (simp_all add: scanned_def)
  have "set (held_list (H(t \<mapsto> held')) t') = holds_after (xs @ [e]) t'" for t'
    using assms(1,2,4) by (auto simp: scanned_def held_list_def holds_after_snoc hold_step_def image_iff)
  moreover have "E' = edges_of (xs @ [e])" using assms(1,2) by (simp add: edges_of_snoc E' scanned_def)
  moreover have "\<not> opposed e f" if "e \<in> E'" "f \<in> E'" for e f
    using that free assms(1) new_edges_unopposed opposed_sym unfolding E' scanned_def by blast
  ultimately show ?thesis by (auto simp: scanned_def)
qed

lemma scanned_release:
  assumes "scanned xs H E" "lock_event e = Some (t, r, m, False)"
  shows "H t = Some held \<Longrightarrow> scanned (xs @ [e]) (H(t \<mapsto> filter (\<lambda>(r', m'). r' \<noteq> r) held)) E"
    and "H t = None \<Longrightarrow> scanned (xs @ [e]) H E"
proof -
  have held: "set (held_list H t') = holds_after xs t'" for t' using assms(1) by (simp add: scanned_def)
  show "H t = Some held \<Longrightarrow> scanned (xs @ [e]) (H(t \<mapsto> filter (\<lambda>(r', m'). r' \<noteq> r) held)) E"
    using assms held [of t] held
    by (auto simp: scanned_def held_list_def holds_after_snoc hold_step_def edges_of_snoc)
  show "H t = None \<Longrightarrow> scanned (xs @ [e]) H E"
    using assms held [of t]
    by (auto simp: scanned_def held_list_def holds_after_snoc hold_step_def edges_of_snoc)
qed

lemma scanned_other: "scanned xs H E \<Longrightarrow> lock_event e = None \<Longrightarrow> scanned (xs @ [e]) H E"
  by (simp add: scanned_def holds_after_snoc hold_step_def edges_of_snoc)

text \<open>A result that is right for a set of edges.\<close>

definition right_for :: "edge set \<Rightarrow> string option \<Rightarrow> bool" where
  "right_for E result \<longleftrightarrow>
     (case result of
        None \<Rightarrow> \<forall>e\<in>E. \<forall>f\<in>E. \<not> opposed e f
      | Some c \<Rightarrow> \<exists>prior pm r m f. (prior, pm, r, m) \<in> E \<and> f \<in> E \<and> opposed (prior, pm, r, m) f \<and> c = cycle_text prior r)"

lemma find_cycle_from_right: "scanned xs H E \<Longrightarrow> right_for (edges_of (xs @ ys)) (find_cycle_from H E ys)"
proof (induction ys arbitrary: xs H E)
  case Nil
  then show ?case by (simp add: scanned_def right_for_def)
next
  case (Cons e ys)
  have app: "xs @ e # ys = (xs @ [e]) @ ys" by simp
  show ?case
  proof (cases "lock_event e")
    case None
    from Cons.IH [OF scanned_other [OF Cons.prems this]] None show ?thesis by simp
  next
    case (Some a)
    obtain t r m acq where a: "lock_event e = Some (t, r, m, acq)" using Some by (cases a) auto
    show ?thesis
    proof (cases acq)
      case True
      have held: "(case H t of Some h \<Rightarrow> h | None \<Rightarrow> []) = held_list H t" by (simp add: held_list_def)
      show ?thesis
      proof (cases "scan_held r m (held_list H t) E")
        case (Inl c)
        have inv: "E = edges_of xs" "set (held_list H t) = holds_after xs t" using Cons.prems by (simp_all add: scanned_def)
        from scan_held_Inl [OF Inl] obtain prior pm f where new: "(prior, pm, r, m) \<in> new_edges r m (holds_after xs t)"
          and f: "f \<in> edges_of xs" "opposed (prior, pm, r, m) f" "c = cycle_text prior r" unfolding inv by blast
        have "(prior, pm, r, m) \<in> edges_of (xs @ [e])" using new a True by (simp add: edges_of_snoc)
        then have "(prior, pm, r, m) \<in> edges_of (xs @ e # ys)" unfolding app using edges_of_mono by blast
        moreover have "f \<in> edges_of (xs @ e # ys)" using f(1) edges_of_mono by blast
        ultimately have "right_for (edges_of (xs @ e # ys)) (Some c)" using f(2,3) unfolding right_for_def option.case by blast
        then show ?thesis using a True Inl by (simp add: held)
      next
        case (Inr E')
        have acq: "lock_event e = Some (t, r, m, True)" using a True by simp
        from Cons.IH [OF scanned_acquire [OF Cons.prems acq Inr refl]] acq Inr
        show ?thesis by (cases "\<exists>(r', m')\<in>set (held_list H t). r' = r") (simp_all add: held Let_def fun_upd_def)
      qed
    next
      case False
      with a have rel: "lock_event e = Some (t, r, m, False)" by simp
      show ?thesis
      proof (cases "H t")
        case None
        from Cons.IH [OF scanned_release(2) [OF Cons.prems rel None]] rel None show ?thesis by simp
      next
        case (Some held)
        from Cons.IH [OF scanned_release(1) [OF Cons.prems rel Some]] rel Some show ?thesis by (simp add: fun_upd_def)
      qed
    qed
  qed
qed

lemma find_lock_order_cycle_right: "right_for (edges_of events) (find_lock_order_cycle events)"
proof -
  have "scanned [] Map.empty {}" by (simp add: scanned_def held_list_def holds_after_def edges_of_def)
  from find_cycle_from_right [OF this, of events] show ?thesis by (simp add: find_lock_order_cycle_def)
qed

lemma verdict_clean_iff:
  "vr_verdict (run_verification_from events target config) = Clean
    \<longleftrightarrow> \<not> (\<exists>e\<in>edges_of events. \<exists>f\<in>edges_of events. opposed e f)"
proof (cases "find_lock_order_cycle events")
  case None
  with find_lock_order_cycle_right [of events] show ?thesis by (simp add: right_for_def run_verification_from_def)
next
  case (Some c)
  from find_lock_order_cycle_right [of events, unfolded Some right_for_def option.case]
  have "\<exists>e\<in>edges_of events. \<exists>f\<in>edges_of events. opposed e f" by blast
  with Some show ?thesis by (simp add: run_verification_from_def)
qed

text \<open>The edges of a concrete trace.\<close>

fun edges_from :: "(u64 \<Rightarrow> (string \<times> HoldMode) set) \<Rightarrow> 'j ProbeEvent list \<Rightarrow> edge set" where
  "edges_from holds [] = {}"
| "edges_from holds (e # es) =
     (case lock_event e of Some (t, r, m, True) \<Rightarrow> new_edges r m (holds t) | _ \<Rightarrow> {}) \<union> edges_from (hold_step e holds) es"

lemma edges_from_eq: "edges_of (xs @ ys) = edges_of xs \<union> edges_from (holds_after xs) ys"
proof (induction ys arbitrary: xs)
  case (Cons e ys)
  have "edges_of (xs @ e # ys) = edges_of ((xs @ [e]) @ ys)" by simp
  also have "\<dots> = edges_of (xs @ [e]) \<union> edges_from (holds_after (xs @ [e])) ys" by (rule Cons.IH)
  finally show ?case by (simp add: edges_of_snoc holds_after_snoc Un_assoc)
qed simp

lemma edges_of_Nil [simp]: "edges_of [] = {}"
  by (auto simp: edges_of_def)

lemma edges_of_eval: "edges_of events = edges_from (\<lambda>_. {}) events"
  using edges_from_eq [of "[]" events] by (simp add: holds_after_def)

lemma new_edges_simps [simp]:
  "new_edges r m {} = {}"
  "new_edges r m (insert (p, pm) held) = (if p = r then {} else {(p, pm, r, m)}) \<union> new_edges r m held"
  by (auto simp: new_edges_def)

section \<open>Properties\<close>

text \<open>(C11) The verdict of the reference verifier is exact for opposed pairs of lock orders: it is clean
  if and only if the trace has no two edges (a thread acquires one lock while it holds another) that
  take the same two locks in opposite orders with both waits against a conflicting hold, where two
  shared holds do not conflict; a bug names the two locks of such a pair in its description. So the
  order of the events, the hash order of the edges and reentrant acquisitions make no difference,
  and the two assertions on the result succeed accordingly.\<close>

theorem reference_verdict_exact:
  "(vr_verdict (run_verification_from events target config) = Clean \<longleftrightarrow>
      \<not> (\<exists>e\<in>edges_of events. \<exists>f\<in>edges_of events. opposed e f))
   \<and> (\<forall>d. vr_verdict (run_verification_from events target config) = BugFound d \<longrightarrow>
        (\<exists>a am b bm cm dm. (a, am, b, bm) \<in> edges_of events \<and> (b, cm, a, dm) \<in> edges_of events
           \<and> modes_conflict bm cm \<and> modes_conflict dm am
           \<and> d = target @ '': lock-order cycle '' @ a @ ''->'' @ b @ ''->'' @ a))
   \<and> (assert_clean (run_verification_from events target config) = Inr () \<longleftrightarrow>
        assert_bug (run_verification_from events target config) = Inl VerdictMismatch)"
proof (cases "find_lock_order_cycle events")
  case None
  then show ?thesis using find_lock_order_cycle_right [of events]
    by (simp add: right_for_def run_verification_from_def assert_clean_def assert_bug_def)
next
  case (Some c)
  with find_lock_order_cycle_right [of events] obtain a am b bm f where
    e: "(a, am, b, bm) \<in> edges_of events" and f: "f \<in> edges_of events" "opposed (a, am, b, bm) f" and c: "c = cycle_text a b"
    by (auto simp: right_for_def)
  obtain cm dm where f': "f = (b, cm, a, dm)" "modes_conflict bm cm" "modes_conflict dm am"
    using f(2) by (cases f) auto
  have bug: "vr_verdict (run_verification_from events target config) = BugFound (target @ '': lock-order cycle '' @ cycle_text a b)"
    by (simp add: run_verification_from_def Some c)
  have "\<exists>e\<in>edges_of events. \<exists>f\<in>edges_of events. opposed e f" using e f by blast
  moreover have "\<exists>a' am b' bm cm dm. (a', am, b', bm) \<in> edges_of events \<and> (b', cm, a', dm) \<in> edges_of events
      \<and> modes_conflict bm cm \<and> modes_conflict dm am
      \<and> target @ '': lock-order cycle '' @ cycle_text a b = target @ '': lock-order cycle '' @ a' @ ''->'' @ b' @ ''->'' @ a'"
    using e f(1) f' unfolding cycle_text_def by blast
  ultimately show ?thesis by (simp add: bug assert_clean_def assert_bug_def)
qed

text \<open>A reader that later writes, against a writer that later reads.\<close>

theorem reference_verdict_exact_witness:
  "vr_verdict (run_verification_from
     [RwLockReadAcquired 0 ''a'', LockAcquired 0 ''b'', LockReleased 0 ''b'', RwLockReadReleased 0 ''a'',
      LockAcquired 1 ''b'', RwLockWriteAcquired 1 ''a'' :: unit ProbeEvent] ''demo''
     \<lparr>pc_max_depth = 500, pc_write_ard = False, pc_output_dir = []\<rparr>) \<noteq> Clean"
    (is "vr_verdict (run_verification_from ?tr ?target ?config) \<noteq> _")
proof -
  have edges: "edges_of ?tr = {(''a'', Shared, ''b'', Exclusive), (''b'', Exclusive, ''a'', Exclusive)}"
    unfolding edges_of_eval by (simp add: hold_step_def lock_event_def insert_commute)
  have "\<exists>e\<in>edges_of ?tr. \<exists>f\<in>edges_of ?tr. opposed e f" unfolding edges by (simp add: modes_conflict_def)
  with reference_verdict_exact [of ?tr ?target ?config] show ?thesis by blast
qed

text \<open>Disciplined programs get no false alarm: a trace whose threads acquire locks in the order
  of some hierarchy, each nested acquisition going strictly up in rank, is clean, and so is a trace
  whose nested locks are all shared, whatever their order.\<close>

theorem lock_hierarchy_is_clean:
  assumes "(\<forall>(prior, pm, r, m)\<in>edges_of events. rank prior < (rank r :: nat))
    \<or> (\<forall>(prior, pm, r, m)\<in>edges_of events. pm = Shared \<and> m = Shared)"
  shows "vr_verdict (run_verification_from events target config) = Clean"
proof -
  have "\<not> opposed e f" if "e \<in> edges_of events" "f \<in> edges_of events" for e f
  proof
    assume "opposed e f"
    then obtain a am b bm cm dm where ef: "e = (a, am, b, bm)" "f = (b, cm, a, dm)" "modes_conflict bm cm"
      by (cases e; cases f) auto
    from assms show False
    proof
      assume "\<forall>(prior, pm, r, m)\<in>edges_of events. rank prior < rank r"
      then have "rank a < rank b" "rank b < rank a" using that ef by auto
      then show False by simp
    next
      assume "\<forall>(prior, pm, r, m)\<in>edges_of events. pm = Shared \<and> m = Shared"
      then have "bm = Shared" "cm = Shared" using that ef by auto
      then show False using ef(3) by (simp add: modes_conflict_def)
    qed
  qed
  then show ?thesis unfolding verdict_clean_iff by blast
qed

text \<open>Thread 0 takes a then b, thread 1 takes b while it holds a: the hierarchy a before b.\<close>

theorem lock_hierarchy_is_clean_witness:
  "vr_verdict (run_verification_from
     [LockAcquired 0 ''a'', LockAcquired 0 ''b'', LockReleased 0 ''b'', LockReleased 0 ''a'',
      LockAcquired 1 ''a'', RwLockReadAcquired 1 ''b'' :: unit ProbeEvent] ''demo''
     \<lparr>pc_max_depth = 500, pc_write_ard = False, pc_output_dir = []\<rparr>) = Clean"
    (is "vr_verdict (run_verification_from ?tr _ _) = _")
proof -
  have "edges_of ?tr = {(''a'', Exclusive, ''b'', Exclusive), (''a'', Exclusive, ''b'', Shared)}"
    unfolding edges_of_eval by (simp add: hold_step_def lock_event_def insert_commute)
  then show ?thesis
    by (intro lock_hierarchy_is_clean [where rank = "\<lambda>s. if s = ''a'' then 0 else 1"]) simp
qed

text \<open>The check is limited to pairs: three threads that take three locks in a ring, each holding
  one and acquiring the next, are a lock-order cycle and a possible deadlock, and the verdict is clean.\<close>

theorem three_lock_cycle_is_clean:
  "vr_verdict (run_verification_from
     [LockAcquired 0 ''a'', LockAcquired 0 ''b'', LockAcquired 1 ''b'', LockAcquired 1 ''c'',
      LockAcquired 2 ''c'', LockAcquired 2 ''a''] target config) = Clean"
  by (simp add: run_verification_from_def find_lock_order_cycle_def lock_event_def closes_cycle_def)

end
