(* ===== verification/ProbeSession.thy ===== *)
theory ProbeSession
  imports LockOrder
begin

text \<open>
  Event collection in \<^verbatim>\<open>laplace-probe-sdk/src/session.rs\<close>: the thread-local, global and session sinks,
  the capture session, logical thread ids and the current task. A channel is the list of the events it
  received, with a flag whether its receiver is alive; a sink is its address. A send on a full bounded
  channel waits until it is accepted, and acceptance is what the model records.
\<close>

section \<open>State\<close>

type_synonym os_thread = nat

type_synonym sink = nat

record 'j channel =
  cn_received :: "'j ProbeEvent list"
  cn_alive :: bool

text \<open>The three thread-locals, by OS thread, and the statics. A \<open>OnceLock\<close> slot that was never
  initialised reads like one that holds no sender.\<close>

record 'j probe =
  PROBE_SENDER :: "os_thread \<Rightarrow> sink option"
  PROBE_THREAD_ID :: "os_thread \<Rightarrow> u64 option"
  CURRENT_TASK_ID :: "os_thread \<Rightarrow> u64 option"
  GLOBAL_PROBE_SENDER :: "sink option option"
  NEXT_IMPLICIT_THREAD_ID :: u64
  SESSION_SENDER :: "sink option option"
  CAPTURE_LOCK :: bool
  channels :: "'j channel list"

definition slot_sender :: "sink option option \<Rightarrow> sink option" where
  "slot_sender sl = (case sl of None \<Rightarrow> None | Some v \<Rightarrow> v)"

section \<open>Operations\<close>

definition set_probe_sender :: "os_thread \<Rightarrow> sink \<Rightarrow> 'j probe \<Rightarrow> 'j probe" where
  "set_probe_sender t tx s = s\<lparr>PROBE_SENDER := (PROBE_SENDER s)(t := Some tx), NEXT_IMPLICIT_THREAD_ID := 0,
     GLOBAL_PROBE_SENDER := Some (Some tx)\<rparr>"

definition clear_probe_sender :: "os_thread \<Rightarrow> 'j probe \<Rightarrow> 'j probe" where
  "clear_probe_sender t s = s\<lparr>PROBE_SENDER := (PROBE_SENDER s)(t := None),
     GLOBAL_PROBE_SENDER := (case GLOBAL_PROBE_SENDER s of Some v \<Rightarrow> Some None | None \<Rightarrow> None)\<rparr>"

definition send :: "sink \<Rightarrow> 'j ProbeEvent \<Rightarrow> 'j probe \<Rightarrow> 'j probe" where
  "send tx event s =
     (if tx < length (channels s) \<and> cn_alive (channels s ! tx)
      then s\<lparr>channels := (channels s)[tx := (channels s ! tx)\<lparr>cn_received := cn_received (channels s ! tx) @ [event]\<rparr>]\<rparr>
      else s)"

definition emit :: "os_thread \<Rightarrow> 'j ProbeEvent \<Rightarrow> 'j probe \<Rightarrow> 'j probe" where
  "emit t event s =
     (case PROBE_SENDER s t of
        Some tx \<Rightarrow> send tx event s
      | None \<Rightarrow>
          (case slot_sender (GLOBAL_PROBE_SENDER s) of
             Some tx \<Rightarrow> send tx event s
           | None \<Rightarrow>
               (case slot_sender (SESSION_SENDER s) of
                  Some tx \<Rightarrow> send tx event s
                | None \<Rightarrow> s)))"

definition set_probe_thread_id :: "os_thread \<Rightarrow> u64 \<Rightarrow> 'j probe \<Rightarrow> 'j probe" where
  "set_probe_thread_id t i s = s\<lparr>PROBE_THREAD_ID := (PROBE_THREAD_ID s)(t := Some i)\<rparr>"

definition set_current_task_id :: "os_thread \<Rightarrow> u64 \<Rightarrow> 'j probe \<Rightarrow> 'j probe" where
  "set_current_task_id t i s = s\<lparr>CURRENT_TASK_ID := (CURRENT_TASK_ID s)(t := Some i)\<rparr>"

definition clear_current_task_id :: "os_thread \<Rightarrow> 'j probe \<Rightarrow> 'j probe" where
  "clear_current_task_id t s = s\<lparr>CURRENT_TASK_ID := (CURRENT_TASK_ID s)(t := None)\<rparr>"

definition current_task_id :: "os_thread \<Rightarrow> 'j probe \<Rightarrow> u64 option" where
  "current_task_id t s = CURRENT_TASK_ID s t"

text \<open>\<open>fetch_add\<close> wraps.\<close>

definition current_thread_id :: "os_thread \<Rightarrow> 'j probe \<Rightarrow> u64 \<times> 'j probe" where
  "current_thread_id t s =
     (case PROBE_THREAD_ID s t of
        Some i \<Rightarrow> (i, s)
      | None \<Rightarrow>
          let i = NEXT_IMPLICIT_THREAD_ID s in
          (i, s\<lparr>NEXT_IMPLICIT_THREAD_ID := i + 1, PROBE_THREAD_ID := (PROBE_THREAD_ID s)(t := Some i)\<rparr>))"

section \<open>Capture sessions\<close>

text \<open>The collector thread drains its channel until the last sender is gone; it is known by its channel.\<close>

record CaptureSession =
  cs_collector :: "sink option"

text \<open>\<open>begin\<close> blocks while another session holds the capture lock; then there is no step (\<open>None\<close>).\<close>

definition CaptureSession_begin :: "'j probe \<Rightarrow> (CaptureSession \<times> 'j probe) option" where
  "CaptureSession_begin s =
     (if CAPTURE_LOCK s then None
      else let rx = length (channels s) in
           Some (\<lparr>cs_collector = Some rx\<rparr>,
                 s\<lparr>CAPTURE_LOCK := True, NEXT_IMPLICIT_THREAD_ID := 0,
                   channels := channels s @ [\<lparr>cn_received = [], cn_alive = True\<rparr>], SESSION_SENDER := Some (Some rx)\<rparr>))"

text \<open>Clearing the slot drops the only sender; the collector ends and hands over what it received.\<close>

definition CaptureSession_tear_down :: "CaptureSession \<Rightarrow> 'j probe \<Rightarrow> 'j ProbeEvent list \<times> CaptureSession \<times> 'j probe" where
  "CaptureSession_tear_down self s =
     (let s1 = s\<lparr>SESSION_SENDER := (case SESSION_SENDER s of Some v \<Rightarrow> Some None | None \<Rightarrow> None)\<rparr> in
      case cs_collector self of
        Some rx \<Rightarrow>
          (cn_received (channels s1 ! rx), self\<lparr>cs_collector := None\<rparr>,
           s1\<lparr>channels := (channels s1)[rx := (channels s1 ! rx)\<lparr>cn_alive := False\<rparr>]\<rparr>)
      | None \<Rightarrow> ([], self, s1))"

definition CaptureSession_drop :: "CaptureSession \<Rightarrow> 'j probe \<Rightarrow> 'j probe" where
  "CaptureSession_drop self s =
     (let s1 = (if cs_collector self \<noteq> None then snd (snd (CaptureSession_tear_down self s)) else s)
      in s1\<lparr>CAPTURE_LOCK := False\<rparr>)"

definition CaptureSession_finish :: "CaptureSession \<Rightarrow> 'j probe \<Rightarrow> 'j ProbeEvent list \<times> 'j probe" where
  "CaptureSession_finish self s =
     (case CaptureSession_tear_down self s of (events, self', s1) \<Rightarrow> (events, CaptureSession_drop self' s1))"

section \<open>Configuration\<close>

text \<open>\<open>ProbeSessionConfig::default\<close>, with the depths of the license and of the discovered \<^verbatim>\<open>laplace.toml\<close>.\<close>

definition warn_toml_depth_override :: "nat option \<Rightarrow> nat option" where
  "warn_toml_depth_override depth = depth"

definition ProbeSessionConfig_default :: "nat option \<Rightarrow> nat option \<Rightarrow> ProbeSessionConfig" where
  "ProbeSessionConfig_default license_depth toml_depth =
     \<lparr>pc_max_depth = (case (case license_depth of Some d \<Rightarrow> Some d | None \<Rightarrow> warn_toml_depth_override toml_depth) of
        Some d \<Rightarrow> d | None \<Rightarrow> 500), pc_write_ard = True, pc_output_dir = ''.''\<rparr>"

section \<open>What a session captures\<close>

text \<open>What the threads of the process do while a session runs.\<close>

datatype 'j probe_act =
    ActEmit os_thread "'j ProbeEvent"
  | ActSetSender os_thread sink
  | ActClearSender os_thread
  | ActSetThreadId os_thread u64
  | ActCurrentThreadId os_thread
  | ActSetTask os_thread u64
  | ActClearTask os_thread

primrec probe_apply :: "'j probe_act \<Rightarrow> 'j probe \<Rightarrow> 'j probe" where
  "probe_apply (ActEmit t e) s = emit t e s"
| "probe_apply (ActSetSender t tx) s = set_probe_sender t tx s"
| "probe_apply (ActClearSender t) s = clear_probe_sender t s"
| "probe_apply (ActSetThreadId t i) s = set_probe_thread_id t i s"
| "probe_apply (ActCurrentThreadId t) s = snd (current_thread_id t s)"
| "probe_apply (ActSetTask t i) s = set_current_task_id t i s"
| "probe_apply (ActClearTask t) s = clear_current_task_id t s"

text \<open>Abstractly: which threads have a sink of their own and whether there is a global one. An event
  is the session's when neither is there.\<close>

fun captured :: "(os_thread \<Rightarrow> bool) \<Rightarrow> bool \<Rightarrow> 'j probe_act list \<Rightarrow> 'j ProbeEvent list" where
  "captured own global [] = []"
| "captured own global (ActEmit t e # acts) = (if own t \<or> global then [] else [e]) @ captured own global acts"
| "captured own global (ActSetSender t tx # acts) = captured (own(t := True)) True acts"
| "captured own global (ActClearSender t # acts) = captured (own(t := False)) False acts"
| "captured own global (_ # acts) = captured own global acts"

text \<open>The legacy sinks are channels of their own: none of them is the session's channel.\<close>

definition legacy_apart :: "sink \<Rightarrow> 'j probe \<Rightarrow> bool" where
  "legacy_apart rx s \<longleftrightarrow> (\<forall>t. PROBE_SENDER s t \<noteq> Some rx) \<and> slot_sender (GLOBAL_PROBE_SENDER s) \<noteq> Some rx"

definition sends_to :: "sink \<Rightarrow> 'j probe_act \<Rightarrow> bool" where
  "sends_to rx a \<longleftrightarrow> (\<exists>t. a = ActSetSender t rx)"

definition session_open :: "sink \<Rightarrow> 'j probe \<Rightarrow> bool" where
  "session_open rx s \<longleftrightarrow> slot_sender (SESSION_SENDER s) = Some rx \<and> CAPTURE_LOCK s
     \<and> rx < length (channels s) \<and> cn_alive (channels s ! rx) \<and> legacy_apart rx s"

lemma send_other: "tx \<noteq> rx \<Longrightarrow> channels (send tx e s) ! rx = channels s ! rx"
  by (simp add: send_def)

lemma send_frame [simp]:
  "PROBE_SENDER (send tx e s) = PROBE_SENDER s" "PROBE_THREAD_ID (send tx e s) = PROBE_THREAD_ID s"
  "CURRENT_TASK_ID (send tx e s) = CURRENT_TASK_ID s" "GLOBAL_PROBE_SENDER (send tx e s) = GLOBAL_PROBE_SENDER s"
  "NEXT_IMPLICIT_THREAD_ID (send tx e s) = NEXT_IMPLICIT_THREAD_ID s" "SESSION_SENDER (send tx e s) = SESSION_SENDER s"
  "CAPTURE_LOCK (send tx e s) = CAPTURE_LOCK s" "length (channels (send tx e s)) = length (channels s)"
  by (simp_all add: send_def)

lemma emit_frame [simp]:
  "PROBE_SENDER (emit t e s) = PROBE_SENDER s" "PROBE_THREAD_ID (emit t e s) = PROBE_THREAD_ID s"
  "CURRENT_TASK_ID (emit t e s) = CURRENT_TASK_ID s" "GLOBAL_PROBE_SENDER (emit t e s) = GLOBAL_PROBE_SENDER s"
  "NEXT_IMPLICIT_THREAD_ID (emit t e s) = NEXT_IMPLICIT_THREAD_ID s" "SESSION_SENDER (emit t e s) = SESSION_SENDER s"
  "CAPTURE_LOCK (emit t e s) = CAPTURE_LOCK s" "length (channels (emit t e s)) = length (channels s)"
  by (simp_all add: emit_def split: option.split)

lemma emit_session:
  assumes "session_open rx s"
  shows "channels (emit t e s) ! rx = (channels s ! rx)\<lparr>cn_received := cn_received (channels s ! rx) @
      (if PROBE_SENDER s t \<noteq> None \<or> slot_sender (GLOBAL_PROBE_SENDER s) \<noteq> None then [] else [e])\<rparr>"
proof (cases "PROBE_SENDER s t")
  case (Some tx)
  then have "tx \<noteq> rx" using assms unfolding session_open_def legacy_apart_def by blast
  with Some show ?thesis by (simp add: emit_def send_other)
next
  case None
  with assms show ?thesis
    by (auto simp: emit_def session_open_def legacy_apart_def send_other send_def split: option.splits)
qed

lemma session_step:
  assumes "session_open rx s" "\<not> sends_to rx a"
  shows "session_open rx (probe_apply a s)"
proof (cases a)
  case (ActEmit t e)
  then show ?thesis using assms emit_session [OF assms(1), of t e]
    by (simp add: session_open_def legacy_apart_def)
next
  case (ActCurrentThreadId t)
  then show ?thesis using assms
    by (auto simp: session_open_def legacy_apart_def current_thread_id_def Let_def split: option.splits)
qed (use assms in \<open>auto simp: session_open_def legacy_apart_def sends_to_def set_probe_sender_def clear_probe_sender_def
      slot_sender_def set_probe_thread_id_def set_current_task_id_def clear_current_task_id_def split: option.splits\<close>)

definition owns :: "'j probe \<Rightarrow> os_thread \<Rightarrow> bool" where
  "owns s t \<longleftrightarrow> PROBE_SENDER s t \<noteq> None"

definition has_global :: "'j probe \<Rightarrow> bool" where
  "has_global s \<longleftrightarrow> slot_sender (GLOBAL_PROBE_SENDER s) \<noteq> None"

lemma legacy_view [simp]:
  "owns (emit t e s) = owns s" "has_global (emit t e s) = has_global s"
  "owns (set_probe_sender t tx s) = (owns s)(t := True)" "has_global (set_probe_sender t tx s)"
  "owns (clear_probe_sender t s) = (owns s)(t := False)" "\<not> has_global (clear_probe_sender t s)"
  "owns (set_probe_thread_id t i s) = owns s" "has_global (set_probe_thread_id t i s) = has_global s"
  "owns (snd (current_thread_id t s)) = owns s" "has_global (snd (current_thread_id t s)) = has_global s"
  "owns (set_current_task_id t i s) = owns s" "has_global (set_current_task_id t i s) = has_global s"
  "owns (clear_current_task_id t s) = owns s" "has_global (clear_current_task_id t s) = has_global s"
  by (auto simp: owns_def has_global_def set_probe_sender_def clear_probe_sender_def slot_sender_def
      set_probe_thread_id_def current_thread_id_def set_current_task_id_def clear_current_task_id_def fun_eq_iff
      Let_def split: option.split)

lemma channels_other [simp]:
  "channels (set_probe_sender t tx s) = channels s" "channels (clear_probe_sender t s) = channels s"
  "channels (set_probe_thread_id t i s) = channels s" "channels (snd (current_thread_id t s)) = channels s"
  "channels (set_current_task_id t i s) = channels s" "channels (clear_current_task_id t s) = channels s"
  by (simp_all add: set_probe_sender_def clear_probe_sender_def set_probe_thread_id_def current_thread_id_def
      set_current_task_id_def clear_current_task_id_def Let_def split: option.split)

lemma captured_run:
  "session_open rx s \<Longrightarrow> \<forall>a\<in>set acts. \<not> sends_to rx a \<Longrightarrow>
   session_open rx (fold probe_apply acts s) \<and>
   cn_received (channels (fold probe_apply acts s) ! rx) =
     cn_received (channels s ! rx) @ captured (owns s) (has_global s) acts"
proof (induction acts arbitrary: s)
  case Nil
  then show ?case by simp
next
  case (Cons a acts)
  have opened: "session_open rx (probe_apply a s)" using session_step [OF Cons.prems(1)] Cons.prems(2) by simp
  have "cn_received (channels (probe_apply a s) ! rx) @
      captured (owns (probe_apply a s)) (has_global (probe_apply a s)) acts =
      cn_received (channels s ! rx) @ captured (owns s) (has_global s) (a # acts)"
  proof (cases a)
    case (ActEmit t e)
    then show ?thesis using emit_session [OF Cons.prems(1), of t e] by (auto simp: owns_def has_global_def)
  qed simp_all
  with Cons.IH [OF opened] Cons.prems(2) show ?case by simp
qed

text \<open>(C16) A capture session returns exactly the events that are its own, in emission order. Started in
  any state of the process in which no session is active, and run through any sequence of emissions,
  registrations of legacy sinks and thread-id changes by any threads, the session returns every
  event emitted by a thread that had no sink of its own at a moment when there was no global one, none
  of the others, and nothing from before it began. While it is active no other session can begin;
  when it has finished the next one can, and an event emitted without any sink is dropped.\<close>

theorem capture_session_exact:
  fixes s :: "'j probe"
  assumes "CaptureSession_begin s = Some (session, s1)"
    and "legacy_apart (length (channels s)) s" "\<forall>a\<in>set acts. \<not> sends_to (length (channels s)) a"
    and s2: "s2 = fold probe_apply acts s1" and finish: "CaptureSession_finish session s2 = (events, s3)"
  shows "events = captured (owns s) (has_global s) acts
    \<and> CaptureSession_begin s2 = None \<and> CaptureSession_begin s3 \<noteq> None
    \<and> (\<not> owns s3 t \<longrightarrow> \<not> has_global s3 \<longrightarrow> emit t e s3 = s3)"
proof -
  let ?rx = "length (channels s)"
  have s1: "session = \<lparr>cs_collector = Some ?rx\<rparr>" "s1 = s\<lparr>CAPTURE_LOCK := True, NEXT_IMPLICIT_THREAD_ID := 0,
      channels := channels s @ [\<lparr>cn_received = [], cn_alive = True\<rparr>], SESSION_SENDER := Some (Some ?rx)\<rparr>"
    using assms(1) by (auto simp: CaptureSession_begin_def Let_def split: if_splits)
  have opened: "session_open ?rx s1" using assms(2) by (simp add: s1 session_open_def legacy_apart_def slot_sender_def)
  have run: "session_open ?rx s2" "cn_received (channels s2 ! ?rx) = captured (owns s1) (has_global s1) acts"
    using captured_run [OF opened assms(3)] by (simp_all add: s2 s1)
  have view: "owns s1 = owns s" "has_global s1 = has_global s" by (simp_all add: s1 owns_def has_global_def fun_eq_iff)
  have s3: "events = cn_received (channels s2 ! ?rx)" "CAPTURE_LOCK s3 = False" "slot_sender (SESSION_SENDER s3) = None"
    using finish by (auto simp: CaptureSession_finish_def CaptureSession_tear_down_def CaptureSession_drop_def s1
        slot_sender_def Let_def split: option.splits)
  have "emit t e s3 = s3" if "\<not> owns s3 t" "\<not> has_global s3"
    using that s3(3) by (simp add: emit_def owns_def has_global_def)
  with run view s3 show ?thesis by (simp add: CaptureSession_begin_def session_open_def Let_def)
qed

text \<open>The start of a process.\<close>

definition probe_init :: "'j probe" where
  "probe_init = \<lparr>PROBE_SENDER = (\<lambda>_. None), PROBE_THREAD_ID = (\<lambda>_. None), CURRENT_TASK_ID = (\<lambda>_. None),
     GLOBAL_PROBE_SENDER = None, NEXT_IMPLICIT_THREAD_ID = 0, SESSION_SENDER = None, CAPTURE_LOCK = False, channels = []\<rparr>"

text \<open>One event for the session, one for a legacy sink, one for the session again.\<close>

theorem capture_session_exact_witness:
  "\<exists>session s1 s3. CaptureSession_begin (probe_init :: unit probe) = Some (session, s1)
     \<and> CaptureSession_finish session (fold probe_apply
         [ActEmit 1 (AtomicLoad 0 ''x''), ActSetSender 2 9, ActEmit 1 (AtomicStore 0 ''x''), ActClearSender 2,
          ActEmit 2 (AtomicRmw 0 ''x'')] s1) = ([AtomicLoad 0 ''x'', AtomicRmw 0 ''x''], s3)
     \<and> CaptureSession_begin s3 \<noteq> None"
proof -
  let ?acts = "[ActEmit 1 (AtomicLoad 0 ''x''), ActSetSender 2 9, ActEmit 1 (AtomicStore 0 ''x''), ActClearSender 2,
      ActEmit 2 (AtomicRmw 0 ''x'')] :: unit probe_act list"
  obtain session s1 where start: "CaptureSession_begin (probe_init :: unit probe) = Some (session, s1)"
    by (simp add: CaptureSession_begin_def probe_init_def Let_def)
  obtain events s3 where finish: "CaptureSession_finish session (fold probe_apply ?acts s1) = (events, s3)" by fastforce
  have apart: "legacy_apart (length (channels (probe_init :: unit probe))) (probe_init :: unit probe)"
    "\<forall>a\<in>set ?acts. \<not> sends_to (length (channels (probe_init :: unit probe))) a"
    by (simp_all add: legacy_apart_def probe_init_def slot_sender_def sends_to_def)
  note exact = capture_session_exact [OF start apart refl finish, of 0 "AtomicLoad 0 ''x''"]
  then have ev: "events = [AtomicLoad 0 ''x'', AtomicRmw 0 ''x'']"
    by (simp add: owns_def has_global_def probe_init_def slot_sender_def)
  from exact have "CaptureSession_begin s3 \<noteq> None" by blast
  with start finish [unfolded ev] show ?thesis by blast
qed

section \<open>Logical thread ids\<close>

definition sets_ids :: "'j probe_act \<Rightarrow> bool" where
  "sets_ids a \<longleftrightarrow> (\<exists>t i. a = ActSetThreadId t i) \<or> (\<exists>t tx. a = ActSetSender t tx)"

definition ids_ok :: "'j probe \<Rightarrow> bool" where
  "ids_ok s \<longleftrightarrow> (\<forall>t i. PROBE_THREAD_ID s t = Some i \<longrightarrow> i < NEXT_IMPLICIT_THREAD_ID s)
     \<and> (\<forall>t u i. PROBE_THREAD_ID s t = Some i \<longrightarrow> PROBE_THREAD_ID s u = Some i \<longrightarrow> t = u)"

lemma ids_ok_step:
  assumes "ids_ok s" "\<not> sets_ids a" "unat (NEXT_IMPLICIT_THREAD_ID s) + 1 < 2 ^ 64"
  shows "ids_ok (probe_apply a s) \<and> unat (NEXT_IMPLICIT_THREAD_ID (probe_apply a s)) \<le> unat (NEXT_IMPLICIT_THREAD_ID s) + 1
    \<and> (\<forall>t i. PROBE_THREAD_ID s t = Some i \<longrightarrow> PROBE_THREAD_ID (probe_apply a s) t = Some i)"
proof (cases a)
  case (ActCurrentThreadId t)
  let ?n = "NEXT_IMPLICIT_THREAD_ID s"
  have "?n \<noteq> U64_MAX" using assms(3) by (auto simp: unat_U64_MAX)
  then have n: "unat (?n + 1) = unat ?n + 1" by (rule unat_add1)
  then have up: "i < ?n \<Longrightarrow> i < ?n + 1 \<and> i \<noteq> ?n" "?n < ?n + 1" for i
    by (auto simp: word_less_nat_alt)
  with ActCurrentThreadId assms(1) n show ?thesis
    by (auto simp: current_thread_id_def ids_ok_def Let_def split: option.split)
qed (use assms in \<open>auto simp: ids_ok_def sets_ids_def clear_probe_sender_def set_current_task_id_def clear_current_task_id_def\<close>)

text \<open>Implicit thread ids tell threads apart and stay with them. When a session begins in a process
  whose threads have no ids yet, and the threads then act in any order without setting explicit ids,
  every two different threads that got an id got different ones, and an id once given does not
  change. (The number of actions is below 2 to the power 64, so the counter does not wrap.)\<close>

theorem implicit_thread_ids_distinct:
  assumes "CaptureSession_begin s = Some (session, s1)" "\<forall>t. PROBE_THREAD_ID s t = None"
    and "\<forall>a\<in>set (acts @ later). \<not> sets_ids a" "length (acts @ later) < 2 ^ 64 - 1"
    and s2: "s2 = fold probe_apply acts s1" and s3: "s3 = fold probe_apply later s2"
  shows "(\<forall>t u i. PROBE_THREAD_ID s3 t = Some i \<longrightarrow> PROBE_THREAD_ID s3 u = Some i \<longrightarrow> t = u)
    \<and> (\<forall>t i. PROBE_THREAD_ID s2 t = Some i \<longrightarrow> PROBE_THREAD_ID s3 t = Some i)"
proof -
  have run: "ids_ok s \<Longrightarrow> \<forall>a\<in>set xs. \<not> sets_ids a \<Longrightarrow> unat (NEXT_IMPLICIT_THREAD_ID s) + length xs < 2 ^ 64 - 1 \<Longrightarrow>
      ids_ok (fold probe_apply xs s)
      \<and> unat (NEXT_IMPLICIT_THREAD_ID (fold probe_apply xs s)) \<le> unat (NEXT_IMPLICIT_THREAD_ID s) + length xs
      \<and> (\<forall>t i. PROBE_THREAD_ID s t = Some i \<longrightarrow> PROBE_THREAD_ID (fold probe_apply xs s) t = Some i)"
    for xs and s :: "'a probe"
  proof (induction xs arbitrary: s)
    case Nil
    then show ?case by simp
  next
    case (Cons a xs)
    have "ids_ok (probe_apply a s) \<and> unat (NEXT_IMPLICIT_THREAD_ID (probe_apply a s)) \<le> unat (NEXT_IMPLICIT_THREAD_ID s) + 1
      \<and> (\<forall>t i. PROBE_THREAD_ID s t = Some i \<longrightarrow> PROBE_THREAD_ID (probe_apply a s) t = Some i)"
      using ids_ok_step [OF Cons.prems(1)] Cons.prems(2,3) by simp
    with Cons.IH [of "probe_apply a s"] Cons.prems(2,3) show ?case by fastforce
  qed
  have start: "ids_ok s1" "NEXT_IMPLICIT_THREAD_ID s1 = 0"
    using assms(1,2) by (auto simp: CaptureSession_begin_def ids_ok_def Let_def split: if_splits)
  from run [OF start(1), of acts] assms(3,4) start(2)
  have mid: "ids_ok s2" "unat (NEXT_IMPLICIT_THREAD_ID s2) \<le> length acts" by (auto simp: s2)
  from run [OF mid(1), of later] assms(3,4) mid(2) have "ids_ok s3"
    "\<forall>t i. PROBE_THREAD_ID s2 t = Some i \<longrightarrow> PROBE_THREAD_ID s3 t = Some i" by (auto simp: s3)
  then show ?thesis unfolding ids_ok_def by blast
qed

theorem implicit_thread_ids_distinct_witness:
  "\<exists>session s1. CaptureSession_begin (probe_init :: unit probe) = Some (session, s1)
     \<and> PROBE_THREAD_ID (fold probe_apply [ActCurrentThreadId 7, ActCurrentThreadId 4] s1) 7 = Some 0
     \<and> PROBE_THREAD_ID (fold probe_apply [ActCurrentThreadId 7, ActCurrentThreadId 4] s1) 4 \<noteq> Some 0"
proof -
  obtain session s1 where start: "CaptureSession_begin (probe_init :: unit probe) = Some (session, s1)"
    by (simp add: CaptureSession_begin_def probe_init_def Let_def)
  have none: "\<forall>t. PROBE_THREAD_ID (probe_init :: unit probe) t = None" by (simp add: probe_init_def)
  have quiet: "\<forall>a\<in>set ([ActCurrentThreadId 7] @ [ActCurrentThreadId 4] :: unit probe_act list). \<not> sets_ids a"
    "length ([ActCurrentThreadId 7] @ [ActCurrentThreadId 4] :: unit probe_act list) < 2 ^ 64 - 1"
    by (simp_all add: sets_ids_def)
  let ?s3 = "fold probe_apply [ActCurrentThreadId 7, ActCurrentThreadId 4] s1"
  have first: "PROBE_THREAD_ID ?s3 7 = Some 0"
    using start by (auto simp: CaptureSession_begin_def probe_init_def current_thread_id_def Let_def)
  with implicit_thread_ids_distinct [OF start none quiet refl refl]
  have "PROBE_THREAD_ID ?s3 4 \<noteq> Some 0" by fastforce
  with start first show ?thesis by blast
qed

text \<open>Explicit and implicit ids share one namespace and are not kept apart: a thread without an id gets
  the next implicit number even when another thread was given that number explicitly. Two threads
  that each hold at most one lock at any time then look like one thread that nests the two, and the
  reference verifier reports a lock-order cycle where there can be none.\<close>

theorem aliased_ids_false_alarm:
  "let s1 = set_probe_thread_id 1 0 (probe_init :: unit probe);
       (i, s2) = current_thread_id 1 s1;
       (j, s3) = current_thread_id 2 s2
   in i = j \<and> vr_verdict (run_verification_from
        [LockAcquired i ''a'', LockAcquired j ''b'', LockReleased i ''a'', LockAcquired i ''a'' :: unit ProbeEvent] ''demo'' config)
      = BugFound ''demo: lock-order cycle b->a->b''"
  by (simp add: set_probe_thread_id_def current_thread_id_def probe_init_def run_verification_from_def
      find_lock_order_cycle_def lock_event_def closes_cycle_def modes_conflict_def cycle_text_def)

end
