(* ===== verification/ProbeHooks.thy ===== *)
theory ProbeHooks
  imports ProbeSession
begin

text \<open>
  The probe's hooks: \<^verbatim>\<open>model_lock.rs\<close>, \<^verbatim>\<open>async_hooks.rs\<close> and \<^verbatim>\<open>task.rs\<close> of \<^verbatim>\<open>laplace-probe-sdk\<close>. Each callback of
  a hook runs on the OS thread that made the runtime call, which is an argument.
\<close>

section \<open>Mirrors\<close>

definition from_AsyncAcquireKind :: "AsyncAcquireKind \<Rightarrow> ProbeAcquireKind" where
  "from_AsyncAcquireKind kind =
     (case kind of AcqMutex \<Rightarrow> PMutex | AcqRwRead \<Rightarrow> PRwRead | AcqRwWrite \<Rightarrow> PRwWrite
      | AcqSemaphorePermits permits \<Rightarrow> PSemaphorePermits permits)"

definition from_AsyncChannelKind :: "AsyncChannelKind \<Rightarrow> ProbeChannelKind" where
  "from_AsyncChannelKind kind =
     (case kind of MpscBounded capacity \<Rightarrow> PMpscBounded capacity | MpscUnbounded \<Rightarrow> PMpscUnbounded
      | Oneshot \<Rightarrow> POneshot | Watch \<Rightarrow> PWatch)"

definition from_AsyncChannelSide :: "AsyncChannelSide \<Rightarrow> ProbeChannelSide" where
  "from_AsyncChannelSide side = (case side of SideSender \<Rightarrow> PSender | SideReceiver \<Rightarrow> PReceiver)"

definition from_AsyncChannelOp :: "AsyncChannelOp \<Rightarrow> ProbeChannelOp" where
  "from_AsyncChannelOp oper = (case oper of OpSend \<Rightarrow> PSend | OpRecv \<Rightarrow> PRecv | OpChanged \<Rightarrow> PChanged)"

definition from_AsyncChannelOutcome :: "AsyncChannelOutcome \<Rightarrow> ProbeChannelOutcome" where
  "from_AsyncChannelOutcome outcome =
     (case outcome of OutcomeOk \<Rightarrow> POk | OutcomeClosed \<Rightarrow> PClosed | OutcomeEmpty \<Rightarrow> PEmpty | OutcomeFull \<Rightarrow> PFull)"

definition from_AsyncBroadcastOp :: "AsyncBroadcastOp \<Rightarrow> BroadcastOp" where
  "from_AsyncBroadcastOp oper =
     (case oper of BSend \<Rightarrow> BroadcastSend | BRecv \<Rightarrow> BroadcastRecv | BTryRecv \<Rightarrow> BroadcastTryRecv
      | BResubscribe \<Rightarrow> BroadcastResubscribe)"

definition from_AsyncBroadcastOutcome :: "AsyncBroadcastOutcome \<Rightarrow> BroadcastOutcome" where
  "from_AsyncBroadcastOutcome outcome =
     (case outcome of BOk receivers \<Rightarrow> BroadcastOk receivers | BClosed \<Rightarrow> BroadcastClosed | BEmpty \<Rightarrow> BroadcastEmpty
      | BLagged missed \<Rightarrow> BroadcastLagged missed)"

section \<open>Locks\<close>

text \<open>Evaluate \<open>current_thread_id()\<close> for the event and emit it.\<close>

definition emit_here :: "os_thread \<Rightarrow> (u64 \<Rightarrow> 'j ProbeEvent) \<Rightarrow> 'j probe \<Rightarrow> 'j probe" where
  "emit_here t event s = (case current_thread_id t s of (thread_id, s') \<Rightarrow> emit t (event thread_id) s')"

definition model_mutex_name :: "u64 \<Rightarrow> string" where
  "model_mutex_name resource = ''model_mutex:'' @ decimal (unat resource)"

definition lock_probe_event :: "LockCall \<Rightarrow> u64 \<Rightarrow> 'j ProbeEvent" where
  "lock_probe_event c thread_id =
     (case c of
        lock_acquire resource \<Rightarrow> LockAcquired thread_id (model_mutex_name resource)
      | lock_release resource \<Rightarrow> LockReleased thread_id (model_mutex_name resource))"

definition ProbeLockHook :: "os_thread \<Rightarrow> LockCall \<Rightarrow> 'j probe \<Rightarrow> 'j probe" where
  "ProbeLockHook t c = emit_here t (lock_probe_event c)"

definition install_probe_lock_hook :: "hook \<Rightarrow> rt \<Rightarrow> rt" where
  "install_probe_lock_hook h s = install_lock_hook h s"

section \<open>Async hooks\<close>

definition async_lock_probe_event :: "AsyncLockCall \<Rightarrow> u64 \<Rightarrow> AsyncLockProbeEvent" where
  "async_lock_probe_event c thread_id =
     (case c of
        al_requested resource waiter kind \<Rightarrow> AsyncLockRequested thread_id resource waiter (from_AsyncAcquireKind kind)
      | al_acquired resource waiter kind \<Rightarrow> AsyncLockAcquired thread_id resource waiter (from_AsyncAcquireKind kind)
      | al_released resource waiter kind \<Rightarrow> AsyncLockReleased thread_id resource waiter (from_AsyncAcquireKind kind)
      | al_waiter_dropped resource waiter \<Rightarrow> AsyncLockWaiterDropped thread_id resource waiter
      | al_semaphore_created resource permits \<Rightarrow> AsyncSemaphoreCreated thread_id resource permits
      | al_permits_added resource n \<Rightarrow> AsyncPermitsAdded thread_id resource n)"

definition ProbeAsyncLockHook :: "os_thread \<Rightarrow> AsyncLockCall \<Rightarrow> 'j probe \<Rightarrow> 'j probe" where
  "ProbeAsyncLockHook t c = emit_here t (\<lambda>i. AsyncLockProbe (async_lock_probe_event c i))"

definition async_notify_probe_event :: "AsyncNotifyCall \<Rightarrow> u64 \<Rightarrow> AsyncNotifyProbeEvent" where
  "async_notify_probe_event c thread_id =
     (case c of
        an_wait_requested resource waiter \<Rightarrow> AsyncNotifyWaitRequested thread_id resource waiter
      | an_wait_resolved resource waiter \<Rightarrow> AsyncNotifyWaitResolved thread_id resource waiter
      | an_notify_one resource \<Rightarrow> AsyncNotifyOne thread_id resource
      | an_notify_waiters resource \<Rightarrow> AsyncNotifyWaiters thread_id resource
      | an_waiter_dropped resource waiter \<Rightarrow> AsyncNotifyWaiterDropped thread_id resource waiter)"

definition ProbeAsyncNotifyHook :: "os_thread \<Rightarrow> AsyncNotifyCall \<Rightarrow> 'j probe \<Rightarrow> 'j probe" where
  "ProbeAsyncNotifyHook t c = emit_here t (\<lambda>i. AsyncNotifyProbe (async_notify_probe_event c i))"

definition async_channel_probe_event :: "AsyncChannelCall \<Rightarrow> u64 \<Rightarrow> AsyncChannelProbeEvent" where
  "async_channel_probe_event c thread_id =
     (case c of
        ch_created channel kind \<Rightarrow> AsyncChannelCreated thread_id channel (from_AsyncChannelKind kind)
      | ch_op_requested channel oper kind \<Rightarrow> AsyncChannelOpRequested thread_id channel oper (from_AsyncChannelOp kind)
      | ch_op_resolved channel oper kind outcome \<Rightarrow>
          AsyncChannelOpResolved thread_id channel oper (from_AsyncChannelOp kind) (from_AsyncChannelOutcome outcome)
      | ch_op_dropped channel oper \<Rightarrow> AsyncChannelOpDropped thread_id channel oper
      | ch_endpoint_cloned channel side \<Rightarrow> AsyncChannelEndpointCloned thread_id channel (from_AsyncChannelSide side)
      | ch_endpoint_dropped channel side \<Rightarrow> AsyncChannelEndpointDropped thread_id channel (from_AsyncChannelSide side)
      | ch_closed channel \<Rightarrow> AsyncChannelClosed thread_id channel)"

definition ProbeAsyncChannelHook :: "os_thread \<Rightarrow> AsyncChannelCall \<Rightarrow> 'j probe \<Rightarrow> 'j probe" where
  "ProbeAsyncChannelHook t c = emit_here t (\<lambda>i. AsyncChannelProbe (async_channel_probe_event c i))"

definition async_broadcast_probe_event :: "AsyncBroadcastCall \<Rightarrow> u64 \<Rightarrow> AsyncBroadcastProbeEvent" where
  "async_broadcast_probe_event c thread_id =
     (case c of
        bc_created resource capacity \<Rightarrow> AsyncBroadcastCreated thread_id resource capacity
      | bc_subscribed resource receiver_id at_seq \<Rightarrow> AsyncBroadcastSubscribed thread_id resource receiver_id at_seq
      | bc_op_requested resource oper receiver_id kind \<Rightarrow>
          AsyncBroadcastOpRequested thread_id resource oper receiver_id (from_AsyncBroadcastOp kind)
      | bc_op_resolved resource oper receiver_id kind outcome \<Rightarrow>
          AsyncBroadcastOpResolved thread_id resource oper receiver_id (from_AsyncBroadcastOp kind)
            (from_AsyncBroadcastOutcome outcome)
      | bc_op_dropped resource oper \<Rightarrow> AsyncBroadcastOpDropped thread_id resource oper
      | bc_endpoint_cloned resource side receiver_id \<Rightarrow>
          AsyncBroadcastEndpointCloned thread_id resource (from_AsyncChannelSide side) receiver_id
      | bc_endpoint_dropped resource side receiver_id \<Rightarrow>
          AsyncBroadcastEndpointDropped thread_id resource (from_AsyncChannelSide side) receiver_id)"

definition ProbeAsyncBroadcastHook :: "os_thread \<Rightarrow> AsyncBroadcastCall \<Rightarrow> 'j probe \<Rightarrow> 'j probe" where
  "ProbeAsyncBroadcastHook t c = emit_here t (\<lambda>i. AsyncBroadcastProbe (async_broadcast_probe_event c i))"

definition async_cell_probe_event :: "AsyncCellCall \<Rightarrow> u64 \<Rightarrow> AsyncCellProbeEvent" where
  "async_cell_probe_event c thread_id =
     (case c of
        cell_created resource \<Rightarrow> AsyncCellCreated thread_id resource
      | cell_load resource version \<Rightarrow> AsyncCellLoad thread_id resource version
      | cell_store resource version \<Rightarrow> AsyncCellStore thread_id resource version)"

definition ProbeAsyncCellHook :: "os_thread \<Rightarrow> AsyncCellCall \<Rightarrow> 'j probe \<Rightarrow> 'j probe" where
  "ProbeAsyncCellHook t c = emit_here t (\<lambda>i. AsyncCellProbe (async_cell_probe_event c i))"

text \<open>One hook object per family; the timer hook is not installed.\<close>

definition install_probe_async_hooks :: "hook \<Rightarrow> hook \<Rightarrow> hook \<Rightarrow> hook \<Rightarrow> hook \<Rightarrow> rt \<Rightarrow> rt" where
  "install_probe_async_hooks lock notify_hook channel broadcast cell s =
     install_async_cell_hook cell (install_async_broadcast_hook broadcast (install_async_channel_hook channel
       (install_async_notify_hook notify_hook (install_async_lock_hook lock s))))"

section \<open>Tasks\<close>

definition ProbeTaskHook :: "os_thread \<Rightarrow> TaskCall \<Rightarrow> 'j probe \<Rightarrow> 'j probe" where
  "ProbeTaskHook t c s =
     (case c of
        task_registered task \<Rightarrow> emit t (TaskProbe (TaskSpawned task None None)) s
      | dynamic_task_spawned task \<Rightarrow> emit t (TaskProbe (TaskSpawned task (current_task_id t s) None)) s
      | poll_started task attempt \<Rightarrow>
          emit t (TaskProbe (TaskPolled task attempt)) (set_probe_thread_id t task (set_current_task_id t task s))
      | poll_completed task attempt outcome \<Rightarrow>
          clear_current_task_id t
            (case outcome of
               OutPending \<Rightarrow> emit t (TaskProbe (FuturePending task None attempt)) s
             | OutReady \<Rightarrow> emit t (TaskProbe (FutureReady task None attempt)) s
             | OutPanicked \<Rightarrow> s)
      | task_completed task \<Rightarrow> emit t (TaskProbe (TaskCompleted task)) (clear_current_task_id t s)
      | join_requested joined \<Rightarrow>
          (case current_task_id t s of
             None \<Rightarrow> s
           | Some thread_id \<Rightarrow> emit t (TaskProbe (TaskJoinRequested thread_id joined)) s)
      | join_resolved joined \<Rightarrow>
          (case current_task_id t s of
             None \<Rightarrow> s
           | Some thread_id \<Rightarrow> emit t (TaskProbe (TaskJoinResolved thread_id joined)) s))"

definition install_probe_task_hook :: "hook \<Rightarrow> rt \<Rightarrow> rt" where
  "install_probe_task_hook h s = install_task_observer_hook h s"

text \<open>A callback of any family; the probe installs no timer hook, so a timer callback does not reach it.\<close>

definition probe_call :: "os_thread \<Rightarrow> HookCall \<Rightarrow> 'j probe \<Rightarrow> 'j probe" where
  "probe_call t c s =
     (case c of
        LockEv l \<Rightarrow> ProbeLockHook t l s
      | TaskEv l \<Rightarrow> ProbeTaskHook t l s
      | ALockEv l \<Rightarrow> ProbeAsyncLockHook t l s
      | ANotifyEv l \<Rightarrow> ProbeAsyncNotifyHook t l s
      | AChannelEv l \<Rightarrow> ProbeAsyncChannelHook t l s
      | ABroadcastEv l \<Rightarrow> ProbeAsyncBroadcastHook t l s
      | ACellEv l \<Rightarrow> ProbeAsyncCellHook t l s
      | ATimerEv l \<Rightarrow> s)"

section \<open>Nothing is lost in projection\<close>

lemma from_inject [simp]:
  "from_AsyncAcquireKind k = from_AsyncAcquireKind k' \<longleftrightarrow> k = k'"
  "from_AsyncChannelKind ck = from_AsyncChannelKind ck' \<longleftrightarrow> ck = ck'"
  "from_AsyncChannelSide d = from_AsyncChannelSide d' \<longleftrightarrow> d = d'"
  "from_AsyncChannelOp q = from_AsyncChannelOp q' \<longleftrightarrow> q = q'"
  "from_AsyncChannelOutcome r = from_AsyncChannelOutcome r' \<longleftrightarrow> r = r'"
  "from_AsyncBroadcastOp b = from_AsyncBroadcastOp b' \<longleftrightarrow> b = b'"
  "from_AsyncBroadcastOutcome v = from_AsyncBroadcastOutcome v' \<longleftrightarrow> v = v'"
        apply (cases k; cases k'; simp add: from_AsyncAcquireKind_def)
       apply (cases ck; cases ck'; simp add: from_AsyncChannelKind_def)
      apply (cases d; cases d'; simp add: from_AsyncChannelSide_def)
     apply (cases q; cases q'; simp add: from_AsyncChannelOp_def)
    apply (cases r; cases r'; simp add: from_AsyncChannelOutcome_def)
   apply (cases b; cases b'; simp add: from_AsyncBroadcastOp_def)
  apply (cases v; cases v'; simp add: from_AsyncBroadcastOutcome_def)
  done

lemma model_mutex_name_inject [simp]: "model_mutex_name a = model_mutex_name b \<longleftrightarrow> a = b"
  using decimal_inject [of "unat a" "unat b"] by (auto simp: model_mutex_name_def word_unat_eq_iff)

lemma lock_event_inject:
  "lock_probe_event c i = (lock_probe_event c' i' :: 'j ProbeEvent) \<longleftrightarrow> c = c' \<and> i = i'"
  by (cases c; cases c') (auto simp: lock_probe_event_def)

lemma async_event_inject:
  "async_lock_probe_event l i = async_lock_probe_event l' i' \<longleftrightarrow> l = l' \<and> i = i'"
  "async_notify_probe_event n i = async_notify_probe_event n' i' \<longleftrightarrow> n = n' \<and> i = i'"
  "async_channel_probe_event c i = async_channel_probe_event c' i' \<longleftrightarrow> c = c' \<and> i = i'"
  "async_cell_probe_event e i = async_cell_probe_event e' i' \<longleftrightarrow> e = e' \<and> i = i'"
  "async_broadcast_probe_event b i = async_broadcast_probe_event b' i' \<longleftrightarrow> b = b' \<and> i = i'"
      apply (cases l; cases l'; simp add: async_lock_probe_event_def conj_ac)
     apply (cases n; cases n'; simp add: async_notify_probe_event_def conj_ac)
    apply (cases c; cases c'; simp add: async_channel_probe_event_def conj_ac)
   apply (cases e; cases e'; simp add: async_cell_probe_event_def conj_ac)
  apply (cases b; cases b'; simp add: async_broadcast_probe_event_def conj_ac)
  done


text \<open>The event of a call of the lock and async families, by the id of the calling thread.\<close>

definition call_event :: "HookCall \<Rightarrow> u64 \<Rightarrow> 'j ProbeEvent option" where
  "call_event c i =
     (case c of
        LockEv l \<Rightarrow> Some (lock_probe_event l i)
      | TaskEv l \<Rightarrow> None
      | ALockEv l \<Rightarrow> Some (AsyncLockProbe (async_lock_probe_event l i))
      | ANotifyEv l \<Rightarrow> Some (AsyncNotifyProbe (async_notify_probe_event l i))
      | AChannelEv l \<Rightarrow> Some (AsyncChannelProbe (async_channel_probe_event l i))
      | ABroadcastEv l \<Rightarrow> Some (AsyncBroadcastProbe (async_broadcast_probe_event l i))
      | ACellEv l \<Rightarrow> Some (AsyncCellProbe (async_cell_probe_event l i))
      | ATimerEv l \<Rightarrow> None)"

definition projected :: "HookCall \<Rightarrow> bool" where
  "projected c \<longleftrightarrow> (case c of TaskEv l \<Rightarrow> False | ATimerEv l \<Rightarrow> False | _ \<Rightarrow> True)"

lemma lock_event_families:
  "(lock_probe_event l i :: 'j ProbeEvent) \<noteq> AsyncLockProbe a" "(lock_probe_event l i :: 'j ProbeEvent) \<noteq> AsyncNotifyProbe n"
  "(lock_probe_event l i :: 'j ProbeEvent) \<noteq> AsyncChannelProbe c" "(lock_probe_event l i :: 'j ProbeEvent) \<noteq> AsyncBroadcastProbe b"
  "(lock_probe_event l i :: 'j ProbeEvent) \<noteq> AsyncCellProbe e" "(lock_probe_event l i :: 'j ProbeEvent) \<noteq> TaskProbe k"
  by (cases l; simp add: lock_probe_event_def)+

lemma call_event_inject:
  assumes "projected c" "projected c'"
  shows "call_event c i = (call_event c' i' :: 'j ProbeEvent option) \<longleftrightarrow> c = c' \<and> i = i'"
  using assms
  by (cases c; cases c')
    (simp_all add: projected_def call_event_def lock_event_inject async_event_inject lock_event_families
      lock_event_families [symmetric])

lemma call_event_Some: "projected c \<Longrightarrow> \<exists>e. call_event c i = Some e"
  by (cases c) (simp_all add: projected_def call_event_def)

text \<open>A run of the hooks, callback by callback.\<close>

definition probe_run :: "(os_thread \<times> HookCall) list \<Rightarrow> 'j probe \<Rightarrow> 'j probe" where
  "probe_run cs s = fold (\<lambda>(t, c). probe_call t c) cs s"

definition thread_id :: "'j probe \<Rightarrow> os_thread \<Rightarrow> u64" where
  "thread_id s t = the (PROBE_THREAD_ID s t)"

lemma current_thread_id_sets: "current_thread_id t s = (i, s') \<Longrightarrow> PROBE_THREAD_ID s' t = Some i"
  by (auto simp: current_thread_id_def Let_def split: option.splits)

lemma emit_here_acts:
  "emit_here t ev s =
     probe_apply (ActEmit t (ev (thread_id (probe_apply (ActCurrentThreadId t) s) t))) (probe_apply (ActCurrentThreadId t) s)"
  by (cases "current_thread_id t s") (auto simp: emit_here_def thread_id_def dest: current_thread_id_sets)

lemma probe_call_projected: "projected c \<Longrightarrow> probe_call t c s = emit_here t (\<lambda>i. the (call_event c i)) s"
  by (cases c) (simp_all add: projected_def probe_call_def call_event_def ProbeLockHook_def ProbeAsyncLockHook_def
      ProbeAsyncNotifyHook_def ProbeAsyncChannelHook_def ProbeAsyncBroadcastHook_def ProbeAsyncCellHook_def)

text \<open>What a run of projected calls leaves in an open session without legacy sinks.\<close>

definition recording :: "sink \<Rightarrow> 'j probe \<Rightarrow> bool" where
  "recording rx s \<longleftrightarrow> session_open rx s \<and> ids_ok s \<and> (\<forall>t. \<not> owns s t) \<and> \<not> has_global s"

abbreviation received :: "sink \<Rightarrow> 'j probe \<Rightarrow> 'j ProbeEvent list" where
  "received rx s \<equiv> cn_received (channels s ! rx)"

lemma recording_step:
  fixes s :: "'j probe"
  assumes "recording rx s" "projected c" "unat (NEXT_IMPLICIT_THREAD_ID s) + 1 < 2 ^ 64"
  shows "recording rx (probe_call t c s)
    \<and> unat (NEXT_IMPLICIT_THREAD_ID (probe_call t c s)) \<le> unat (NEXT_IMPLICIT_THREAD_ID s) + 1
    \<and> received rx (probe_call t c s) = received rx s @ [the (call_event c (thread_id (probe_call t c s) t))]
    \<and> PROBE_THREAD_ID (probe_call t c s) t \<noteq> None
    \<and> (\<forall>u i. PROBE_THREAD_ID s u = Some i \<longrightarrow> PROBE_THREAD_ID (probe_call t c s) u = Some i)"
proof -
  let ?s1 = "probe_apply (ActCurrentThreadId t) s"
  let ?e = "the (call_event c (thread_id ?s1 t)) :: 'j ProbeEvent"
  let ?s2 = "probe_apply (ActEmit t ?e) ?s1"
  have s2: "probe_call t c s = ?s2"
    using assms(2) by (simp only: probe_call_projected emit_here_acts)
  have inv: "session_open rx s" "ids_ok s" "\<forall>t. \<not> owns s t" "\<not> has_global s"
    using assms(1) unfolding recording_def by blast+
  have quiet: "\<not> sets_ids (ActCurrentThreadId t :: 'j probe_act)" "\<not> sends_to rx (ActCurrentThreadId t :: 'j probe_act)" "\<not> sends_to rx (ActEmit t ?e)"
    by (simp_all add: sets_ids_def sends_to_def)
  have "session_open rx ?s1" by (rule session_step [OF inv(1) quiet(2)])
  then have opened: "session_open rx ?s2" by (rule session_step [OF _ quiet(3)])
  note ids = ids_ok_step [OF inv(2) quiet(1) assms(3)]
  have "received rx ?s2 = received rx s @ captured (owns s) (has_global s) [ActCurrentThreadId t, ActEmit t ?e]"
    using captured_run [OF inv(1), of "[ActCurrentThreadId t, ActEmit t ?e]"] quiet(2,3) by simp
  then have rcv: "received rx ?s2 = received rx s @ [?e]" using inv(3,4) by simp
  have own: "\<forall>u. \<not> owns ?s2 u" "\<not> has_global ?s2" using inv(3,4) by simp_all
  have "PROBE_THREAD_ID ?s1 t \<noteq> None"
    by (cases "current_thread_id t s") (auto dest: current_thread_id_sets)
  moreover have "PROBE_THREAD_ID ?s2 = PROBE_THREAD_ID ?s1" "NEXT_IMPLICIT_THREAD_ID ?s2 = NEXT_IMPLICIT_THREAD_ID ?s1"
    by simp_all
  moreover from this have "ids_ok ?s2 = ids_ok ?s1" "thread_id ?s2 t = thread_id ?s1 t"
    by (simp_all only: ids_ok_def thread_id_def)
  ultimately show ?thesis unfolding s2 recording_def using ids opened own rcv by metis
qed

lemma probe_run_simps [simp]:
  "probe_run [] s = s" "probe_run ((t, c) # cs) s = probe_run cs (probe_call t c s)"
  by (simp_all add: probe_run_def)

lemma recording_run:
  fixes s :: "'j probe"
  assumes "recording rx s" "\<forall>(t, c)\<in>set cs. projected c" "unat (NEXT_IMPLICIT_THREAD_ID s) + length cs < 2 ^ 64"
  shows "recording rx (probe_run cs s)
    \<and> received rx (probe_run cs s) = received rx s @ map (\<lambda>(t, c). the (call_event c (thread_id (probe_run cs s) t))) cs
    \<and> (\<forall>t\<in>fst ` set cs. PROBE_THREAD_ID (probe_run cs s) t \<noteq> None)
    \<and> (\<forall>u i. PROBE_THREAD_ID s u = Some i \<longrightarrow> PROBE_THREAD_ID (probe_run cs s) u = Some i)"
  using assms
proof (induction cs arbitrary: s)
  case Nil
  then show ?case by simp
next
  case (Cons a cs)
  obtain t c where a: "a = (t, c)" by (cases a)
  let ?s1 = "probe_call t c s"
  have step: "recording rx ?s1" "unat (NEXT_IMPLICIT_THREAD_ID ?s1) \<le> unat (NEXT_IMPLICIT_THREAD_ID s) + 1"
    "received rx ?s1 = received rx s @ [the (call_event c (thread_id ?s1 t))]" "PROBE_THREAD_ID ?s1 t \<noteq> None"
    "\<forall>u i. PROBE_THREAD_ID s u = Some i \<longrightarrow> PROBE_THREAD_ID ?s1 u = Some i"
    using recording_step [OF Cons.prems(1), of c t] Cons.prems(2,3) a by simp_all
  have IH: "recording rx (probe_run cs ?s1)"
    "received rx (probe_run cs ?s1) = received rx ?s1 @ map (\<lambda>(t, c). the (call_event c (thread_id (probe_run cs ?s1) t))) cs"
    "\<forall>t\<in>fst ` set cs. PROBE_THREAD_ID (probe_run cs ?s1) t \<noteq> None"
    "\<forall>u i. PROBE_THREAD_ID ?s1 u = Some i \<longrightarrow> PROBE_THREAD_ID (probe_run cs ?s1) u = Some i"
    using Cons.IH [OF step(1)] Cons.prems(2,3) step(2) by simp_all
  from step(4) IH(4) have kept: "PROBE_THREAD_ID (probe_run cs ?s1) t = PROBE_THREAD_ID ?s1 t" by fastforce
  then have "thread_id (probe_run cs ?s1) t = thread_id ?s1 t" by (simp add: thread_id_def)
  with a IH step kept show ?case by simp
qed

text \<open>A process in which no session runs, no thread has a sink or an id and there is no global sink.\<close>

definition fresh_process :: "'j probe \<Rightarrow> bool" where
  "fresh_process s \<longleftrightarrow> (\<forall>t. PROBE_THREAD_ID s t = None) \<and> (\<forall>t. PROBE_SENDER s t = None)
     \<and> slot_sender (GLOBAL_PROBE_SENDER s) = None"

lemma session_records:
  fixes s :: "'j probe"
  assumes "CaptureSession_begin s = Some (session, s1)" "fresh_process s" "\<forall>(t, c)\<in>set cs. projected c"
    and "length cs < 2 ^ 64" "CaptureSession_finish session (probe_run cs s1) = (events, s2)"
  obtains ids where "events = map (\<lambda>(t, c). the (call_event c (ids t))) cs" "inj_on ids (fst ` set cs)"
proof -
  let ?rx = "length (channels s)" and ?s' = "probe_run cs s1"
  have s1: "session = \<lparr>cs_collector = Some ?rx\<rparr>" "s1 = s\<lparr>CAPTURE_LOCK := True, NEXT_IMPLICIT_THREAD_ID := 0,
      channels := channels s @ [\<lparr>cn_received = [], cn_alive = True\<rparr>], SESSION_SENDER := Some (Some ?rx)\<rparr>"
    using assms(1) by (auto simp: CaptureSession_begin_def Let_def split: if_splits)
  have "recording ?rx s1" using assms(2)
    by (simp add: s1 recording_def session_open_def legacy_apart_def ids_ok_def owns_def has_global_def fresh_process_def
        slot_sender_def)
  from recording_run [OF this assms(3)] assms(4)
  have run: "recording ?rx ?s'" "received ?rx ?s' = map (\<lambda>(t, c). the (call_event c (thread_id ?s' t))) cs"
    "\<forall>t\<in>fst ` set cs. PROBE_THREAD_ID ?s' t \<noteq> None" by (simp_all add: s1)
  have "events = received ?rx ?s'"
    using assms(5) by (simp add: CaptureSession_finish_def CaptureSession_tear_down_def s1 Let_def split: option.splits)
  moreover have "inj_on (thread_id ?s') (fst ` set cs)"
  proof (rule inj_onI)
    fix t u assume "t \<in> fst ` set cs" "u \<in> fst ` set cs" "thread_id ?s' t = thread_id ?s' u"
    moreover from this run(3) obtain i j where "PROBE_THREAD_ID ?s' t = Some i" "PROBE_THREAD_ID ?s' u = Some j" by blast
    ultimately show "t = u" using run(1) unfolding recording_def ids_ok_def thread_id_def by simp
  qed
  ultimately show ?thesis using run(2) that by blast
qed

text \<open>(C18) The captured events determine the run. Take two runs of lock and async callbacks, made by
  any threads in any interleaving, each in a session begun in the same fresh process: when
  the two sessions return the same events, the runs made the same calls with the same arguments in
  the same order, and by the same threads up to a renaming of the threads. So the projection into
  probe events merges no two kinds, resources, operations or outcomes, and the numbering of threads
  merges no two threads.\<close>

theorem recorded_events_determine_run:
  fixes s :: "'j probe"
  assumes "CaptureSession_begin s = Some (session, s1)" "fresh_process s"
    and cs: "\<forall>(t, c)\<in>set cs. projected c" "length cs < 2 ^ 64" "CaptureSession_finish session (probe_run cs s1) = (events, s2)"
    and ds: "\<forall>(t, c)\<in>set ds. projected c" "length ds < 2 ^ 64" "CaptureSession_finish session (probe_run ds s1) = (events, s2')"
  shows "map snd cs = map snd ds
    \<and> (\<forall>i<length cs. \<forall>j<length cs. fst (cs ! i) = fst (cs ! j) \<longleftrightarrow> fst (ds ! i) = fst (ds ! j))"
proof -
  obtain f where f: "events = map (\<lambda>(t, c). the (call_event c (f t))) cs" "inj_on f (fst ` set cs)"
    by (rule session_records [OF assms(1,2) cs])
  obtain g where g: "events = map (\<lambda>(t, c). the (call_event c (g t))) ds" "inj_on g (fst ` set ds)"
    by (rule session_records [OF assms(1,2) ds])
  have len: "length cs = length ds" using f(1) g(1) by (metis length_map)
  have each: "snd (cs ! k) = snd (ds ! k) \<and> f (fst (cs ! k)) = g (fst (ds ! k))" if "k < length cs" for k
  proof -
    have p: "projected (snd (cs ! k))" "projected (snd (ds ! k))"
      using that len cs(1) ds(1) by (simp_all add: case_prod_unfold)
    have "the (call_event (snd (cs ! k)) (f (fst (cs ! k)))) = (the (call_event (snd (ds ! k)) (g (fst (ds ! k)))) :: 'j ProbeEvent)"
      using arg_cong [OF trans [OF f(1) [symmetric] g(1)], of "\<lambda>l. l ! k"] that len by (simp add: case_prod_unfold)
    with p show ?thesis using call_event_inject [OF p] call_event_Some [OF p(1)] call_event_Some [OF p(2)]
      by (metis option.sel)
  qed
  have "map snd cs = map snd ds" using len each by (simp add: list_eq_iff_nth_eq)
  moreover have "fst (cs ! i) = fst (cs ! j) \<longleftrightarrow> fst (ds ! i) = fst (ds ! j)" if "i < length cs" "j < length cs" for i j
    using each [OF that(1)] each [OF that(2)] f(2) g(2) that len by (metis image_eqI inj_onD nth_mem)
  ultimately show ?thesis by blast
qed

text \<open>Two threads take turns; in the second run they have other names.\<close>

theorem recorded_events_determine_run_witness:
  "\<exists>session s1 events s2 s2'. CaptureSession_begin (probe_init :: unit probe) = Some (session, s1)
     \<and> CaptureSession_finish session (probe_run
         [(5, LockEv (lock_acquire 1)), (9, ACellEv (cell_load 2 3)), (5, LockEv (lock_release 1))] s1) = (events, s2)
     \<and> CaptureSession_finish session (probe_run
         [(8, LockEv (lock_acquire 1)), (7, ACellEv (cell_load 2 3)), (8, LockEv (lock_release 1))] s1) = (events, s2')
     \<and> length events = 3 \<and> (5::nat) \<noteq> 9 \<and> (8::nat) \<noteq> 7"
proof -
  let ?cs = "[(5 :: os_thread, LockEv (lock_acquire 1)), (9, ACellEv (cell_load 2 3)), (5, LockEv (lock_release 1))]"
  let ?ds = "[(8 :: os_thread, LockEv (lock_acquire 1)), (7, ACellEv (cell_load 2 3)), (8, LockEv (lock_release 1))]"
  let ?s1 = "probe_init\<lparr>CAPTURE_LOCK := True, channels := [\<lparr>cn_received = [], cn_alive = True\<rparr>],
      SESSION_SENDER := Some (Some 0)\<rparr> :: unit probe"
  let ?S = "\<lparr>cs_collector = Some 0\<rparr>"
  have start: "CaptureSession_begin (probe_init :: unit probe) = Some (?S, ?s1)"
    by (simp add: CaptureSession_begin_def probe_init_def Let_def)
  have fresh: "fresh_process (probe_init :: unit probe)" by (simp add: fresh_process_def probe_init_def slot_sender_def)
  note eval = CaptureSession_finish_def CaptureSession_tear_down_def probe_call_def ProbeLockHook_def ProbeAsyncCellHook_def
    emit_here_def current_thread_id_def emit_def send_def slot_sender_def Let_def probe_init_def lock_probe_event_def
    async_cell_probe_event_def
  let ?ev = "[LockAcquired 0 (model_mutex_name 1), AsyncCellProbe (AsyncCellLoad 1 2 3), LockReleased 0 (model_mutex_name 1)]"
  obtain s2 where cs: "CaptureSession_finish ?S (probe_run ?cs ?s1) = (?ev, s2)" by (simp add: eval)
  obtain s2' where ds: "CaptureSession_finish ?S (probe_run ?ds ?s1) = (?ev, s2')" by (simp add: eval)
  have "map snd ?cs = map snd ?ds
      \<and> (\<forall>i<length ?cs. \<forall>j<length ?cs. fst (?cs ! i) = fst (?cs ! j) \<longleftrightarrow> fst (?ds ! i) = fst (?ds ! j))"
    by (rule recorded_events_determine_run [OF start fresh _ _ cs _ _ ds]) (simp_all add: projected_def)
  from this [THEN conjunct2, rule_format, of 0 1] have "(8::nat) \<noteq> 7 \<longleftrightarrow> (5::nat) \<noteq> 9" by simp
  moreover have "length ?ev = 3" by simp
  ultimately show ?thesis using start cs ds by fastforce
qed

section \<open>Attribution to tasks\<close>

text \<open>The callbacks with which a thread enters and leaves the poll of a task.\<close>

definition poll_boundary :: "HookCall \<Rightarrow> bool" where
  "poll_boundary c \<longleftrightarrow> (case c of
     TaskEv l \<Rightarrow> (case l of poll_started task n \<Rightarrow> True | poll_completed task n outcome \<Rightarrow> True | task_completed task \<Rightarrow> True
       | _ \<Rightarrow> False)
   | _ \<Rightarrow> False)"

definition polling :: "os_thread \<Rightarrow> u64 \<Rightarrow> 'j probe \<Rightarrow> bool" where
  "polling t task s \<longleftrightarrow> CURRENT_TASK_ID s t = Some task \<and> PROBE_THREAD_ID s t = Some task"

lemma emit_here_frame [simp]:
  "CURRENT_TASK_ID (emit_here u ev s) = CURRENT_TASK_ID s"
  "PROBE_THREAD_ID s t = Some i \<Longrightarrow> PROBE_THREAD_ID (emit_here u ev s) t = Some i"
  by (auto simp: emit_here_def current_thread_id_def Let_def split: option.splits)

lemma polling_call:
  assumes "polling t task s" "u = t \<Longrightarrow> \<not> poll_boundary c"
  shows "polling t task (probe_call u c s)"
proof (cases "projected c")
  case True
  with assms(1) show ?thesis by (simp add: probe_call_projected polling_def)
next
  case False
  then consider (task) l where "c = TaskEv l" | (timer) l where "c = ATimerEv l"
    by (cases c) (simp_all add: projected_def)
  then show ?thesis
  proof cases
    case task
    with assms show ?thesis
      by (cases l) (auto simp: probe_call_def ProbeTaskHook_def polling_def poll_boundary_def set_probe_thread_id_def
          set_current_task_id_def clear_current_task_id_def current_task_id_def split: option.splits TaskPollOutcome.splits)
  qed (use assms in \<open>simp add: probe_call_def\<close>)
qed

lemma polling_run:
  "polling t task s \<Longrightarrow> \<forall>(u, c)\<in>set cs. u = t \<longrightarrow> \<not> poll_boundary c \<Longrightarrow> polling t task (probe_run cs s)"
proof (induction cs arbitrary: s)
  case (Cons a cs)
  obtain u c where a: "a = (u, c)" by (cases a)
  have "polling t task (probe_call u c s)" using Cons.prems a by (intro polling_call) auto
  from Cons.IH [OF this] Cons.prems(2) a show ?case by simp
qed simp

text \<open>Events are attributed to the task that is being polled. After a thread reports the start of a
  poll, and whatever it and the other threads report until it reports the end of that poll, each of
  its lock and async calls is recorded with the task's id, a task it spawns gets the polled task as
  parent, and its joins name the polled task. After the end of the poll a spawned task has no
  parent and joins are not recorded, while its lock and async calls are still recorded under the id of the
  last polled task. (The end of a poll is reported as \<open>poll_completed\<close>, for every outcome.)\<close>

theorem polled_task_attribution:
  fixes s :: "'j probe"
  assumes mid: "\<forall>(u, c)\<in>set mid. u = t \<longrightarrow> \<not> poll_boundary c" and c: "projected c"
    and s1: "s1 = probe_run mid (probe_call t (TaskEv (poll_started task n)) s)"
    and s2: "s2 = probe_call t (TaskEv (poll_completed task n outcome)) s1"
  shows "probe_call t c s1 = emit t (the (call_event c task)) s1
    \<and> probe_call t (TaskEv (dynamic_task_spawned child)) s1 = emit t (TaskProbe (TaskSpawned child (Some task) None)) s1
    \<and> probe_call t (TaskEv (join_requested joined)) s1 = emit t (TaskProbe (TaskJoinRequested task joined)) s1
    \<and> probe_call t (TaskEv (join_resolved joined)) s1 = emit t (TaskProbe (TaskJoinResolved task joined)) s1
    \<and> probe_call t c s2 = emit t (the (call_event c task)) s2
    \<and> probe_call t (TaskEv (dynamic_task_spawned child)) s2 = emit t (TaskProbe (TaskSpawned child None None)) s2
    \<and> probe_call t (TaskEv (join_requested joined)) s2 = s2
    \<and> probe_call t (TaskEv (join_resolved joined)) s2 = s2"
proof -
  have "polling t task (probe_call t (TaskEv (poll_started task n)) s)"
    by (simp add: polling_def probe_call_def ProbeTaskHook_def set_probe_thread_id_def set_current_task_id_def)
  then have "polling t task s1" unfolding s1 using mid by (rule polling_run)
  then have p1: "CURRENT_TASK_ID s1 t = Some task" "PROBE_THREAD_ID s1 t = Some task" unfolding polling_def by blast+
  then have p2: "CURRENT_TASK_ID s2 t = None" "PROBE_THREAD_ID s2 t = Some task"
    unfolding s2 by (simp_all add: probe_call_def ProbeTaskHook_def clear_current_task_id_def split: TaskPollOutcome.split)
  have here: "PROBE_THREAD_ID x t = Some task \<Longrightarrow> probe_call t c x = emit t (the (call_event c task)) x" for x :: "'j probe"
    using c by (simp add: probe_call_projected emit_here_def current_thread_id_def)
  from here [OF p1(2)] here [OF p2(2)] p1 p2 show ?thesis
    by (simp add: probe_call_def ProbeTaskHook_def current_task_id_def)
qed

text \<open>Thread 3 polls task 40 while thread 4 polls another; thread 3 then takes a lock.\<close>

theorem polled_task_attribution_witness:
  "\<exists>s1. s1 = probe_run [(4, TaskEv (poll_started 41 1)), (3, ACellEv (cell_load 2 0))]
        (probe_call 3 (TaskEv (poll_started 40 1)) (probe_init :: unit probe))
     \<and> probe_call 3 (LockEv (lock_acquire 7)) s1 = emit 3 (LockAcquired 40 (model_mutex_name 7)) s1"
  using polled_task_attribution [where mid = "[(4, TaskEv (poll_started 41 1)), (3, ACellEv (cell_load 2 0))]" and t = 3
      and c = "LockEv (lock_acquire 7)" and task = 40 and n = 1 and s = "probe_init :: unit probe", OF _ _ refl refl]
  by (auto simp: poll_boundary_def projected_def call_event_def lock_probe_event_def)

end
