(* ===== verification/EndToEnd.thy ===== *)
theory EndToEnd
  imports ProbeHooks
begin

text \<open>
  The composition of the lock hook, a capture session and the reference verifier: what the verdict says of
  the lock calls of the program, by OS thread and lock id.
\<close>

text \<open>The locks an OS thread holds after a sequence of lock calls, and the nestings of the sequence.\<close>

fun call_hold :: "os_thread \<times> LockCall \<Rightarrow> (os_thread \<Rightarrow> u64 set) \<Rightarrow> os_thread \<Rightarrow> u64 set" where
  "call_hold (t, lock_acquire r) holds = holds(t := insert r (holds t))"
| "call_hold (t, lock_release r) holds = holds(t := holds t - {r})"

definition calls_hold :: "(os_thread \<times> LockCall) list \<Rightarrow> os_thread \<Rightarrow> u64 set" where
  "calls_hold cs = fold call_hold cs (\<lambda>_. {})"

definition nested :: "(os_thread \<times> LockCall) list \<Rightarrow> u64 \<Rightarrow> u64 \<Rightarrow> bool" where
  "nested cs a b \<longleftrightarrow> (\<exists>xs t ys. cs = xs @ (t, lock_acquire b) # ys \<and> a \<in> calls_hold xs t \<and> a \<noteq> b)"

definition lock_trace :: "(os_thread \<Rightarrow> u64) \<Rightarrow> (os_thread \<times> LockCall) list \<Rightarrow> 'j ProbeEvent list" where
  "lock_trace ids cs = map (\<lambda>(t, c). lock_probe_event c (ids t)) cs"

lemma lock_event_call:
  "lock_event (lock_probe_event (lock_acquire r) i) = Some (i, model_mutex_name r, Exclusive, True)"
  "lock_event (lock_probe_event (lock_release r) i) = Some (i, model_mutex_name r, Exclusive, False)"
  by (simp_all add: lock_event_def lock_probe_event_def)

definition mutex_holds :: "u64 set \<Rightarrow> (string \<times> HoldMode) set" where
  "mutex_holds R = (\<lambda>r. (model_mutex_name r, Exclusive)) ` R"

lemma holds_after_trace:
  assumes "inj_on ids T" "fst ` set cs \<subseteq> T" "t \<in> T"
  shows "holds_after (lock_trace ids cs :: 'j ProbeEvent list) (ids t) = mutex_holds (calls_hold cs t)"
  using assms(2)
proof (induction cs rule: rev_induct)
  case Nil
  then show ?case by (simp add: holds_after_def lock_trace_def calls_hold_def mutex_holds_def)
next
  case (snoc a cs)
  obtain u c where a: "a = (u, c)" by (cases a)
  have IH: "holds_after (lock_trace ids cs :: 'j ProbeEvent list) (ids t) = mutex_holds (calls_hold cs t)"
    and u: "u \<in> T" using snoc a by auto
  have same: "ids u = ids t \<longleftrightarrow> u = t" using assms(1,3) u by (auto dest: inj_onD)
  have "holds_after (lock_trace ids (cs @ [a]) :: 'j ProbeEvent list)
      = hold_step (lock_probe_event c (ids u) :: 'j ProbeEvent) (holds_after (lock_trace ids cs :: 'j ProbeEvent list))"
    by (simp add: lock_trace_def a holds_after_snoc)
  with IH same show ?case
    by (cases c) (auto simp: a hold_step_def lock_event_call calls_hold_def mutex_holds_def image_iff)
qed

lemma edges_of_trace:
  assumes "inj_on ids (fst ` set cs)"
  shows "edges_of (lock_trace ids cs :: 'j ProbeEvent list) =
    {(model_mutex_name a, Exclusive, model_mutex_name b, Exclusive) | a b. nested cs a b}"
proof (intro set_eqI iffI)
  fix x assume "x \<in> edges_of (lock_trace ids cs :: 'j ProbeEvent list)"
  then obtain prior pm r m xs e ys i where x: "x = (prior, pm, r, m)" and tr: "lock_trace ids cs = xs @ e # (ys :: 'j ProbeEvent list)"
    and e: "lock_event e = Some (i, r, m, True)" "(prior, pm) \<in> holds_after xs i" "prior \<noteq> r"
    unfolding edges_of_def by blast
  from tr obtain us a vs where cs: "cs = us @ a # vs" "lock_trace ids us = xs" "lock_trace ids [a] = [e]"
    unfolding lock_trace_def by (auto simp: map_eq_append_conv)
  obtain t c where a: "a = (t, c)" by (cases a)
  with cs(3) e(1) obtain b where b: "c = lock_acquire b" "i = ids t" "r = model_mutex_name b" "m = Exclusive"
    by (cases c) (auto simp: lock_trace_def lock_event_call)
  have "holds_after xs i = mutex_holds (calls_hold us t)"
    using holds_after_trace [OF assms, of us t, where 'j = 'j] cs(1,2) a b(2) by force
  with e(2,3) b obtain p where "p \<in> calls_hold us t" "prior = model_mutex_name p" "pm = Exclusive" "p \<noteq> b"
    by (auto simp: mutex_holds_def)
  with cs(1) a b x show "x \<in> {(model_mutex_name a, Exclusive, model_mutex_name b, Exclusive) | a b. nested cs a b}"
    unfolding nested_def by blast
next
  fix x assume "x \<in> {(model_mutex_name a, Exclusive, model_mutex_name b, Exclusive) | a b. nested cs a b}"
  then obtain a b us t vs where x: "x = (model_mutex_name a, Exclusive, model_mutex_name b, Exclusive)"
    and cs: "cs = us @ (t, lock_acquire b) # vs" "a \<in> calls_hold us t" "a \<noteq> b" unfolding nested_def by blast
  have "holds_after (lock_trace ids us :: 'j ProbeEvent list) (ids t) = mutex_holds (calls_hold us t)"
    using holds_after_trace [OF assms, of us t, where 'j = 'j] cs(1) by force
  then have "(model_mutex_name a, Exclusive) \<in> holds_after (lock_trace ids us :: 'j ProbeEvent list) (ids t)"
    using cs(2) by (auto simp: mutex_holds_def)
  moreover have "(lock_trace ids cs :: 'j ProbeEvent list) =
      lock_trace ids us @ lock_probe_event (lock_acquire b) (ids t) # lock_trace ids vs"
    by (simp add: lock_trace_def cs(1))
  ultimately show "x \<in> edges_of (lock_trace ids cs :: 'j ProbeEvent list)"
    unfolding edges_of_def x using lock_event_call(1) cs(3) by fastforce
qed

lemma opposed_nestings:
  "(\<exists>e\<in>{(model_mutex_name a, Exclusive, model_mutex_name b, Exclusive) | a b. N a b}.
     \<exists>f\<in>{(model_mutex_name a, Exclusive, model_mutex_name b, Exclusive) | a b. N a b}. opposed e f)
   \<longleftrightarrow> (\<exists>a b. N a b \<and> N b a)"
    (is "(\<exists>e\<in>?E. \<exists>f\<in>?E. opposed e f) \<longleftrightarrow> _")
proof
  assume "\<exists>e\<in>?E. \<exists>f\<in>?E. opposed e f"
  then obtain a b c d where "N a b" "N c d" "opposed (model_mutex_name a, Exclusive, model_mutex_name b, Exclusive)
      (model_mutex_name c, Exclusive, model_mutex_name d, Exclusive)" by blast
  then show "\<exists>a b. N a b \<and> N b a" by auto
next
  assume "\<exists>a b. N a b \<and> N b a"
  then obtain a b where "N a b" "N b a" by blast
  moreover have "opposed (model_mutex_name a, Exclusive, model_mutex_name b, Exclusive)
      (model_mutex_name b, Exclusive, model_mutex_name a, Exclusive)" by (simp add: modes_conflict_def)
  ultimately show "\<exists>e\<in>?E. \<exists>f\<in>?E. opposed e f" by blast
qed

lemma lock_trace_verdict:
  assumes "inj_on ids (fst ` set cs)"
  shows "vr_verdict (run_verification_from (lock_trace ids cs :: 'j ProbeEvent list) target config) = Clean
    \<longleftrightarrow> \<not> (\<exists>a b. nested cs a b \<and> nested cs b a)"
proof -
  have "(\<exists>e\<in>edges_of (lock_trace ids cs :: 'j ProbeEvent list). \<exists>f\<in>edges_of (lock_trace ids cs :: 'j ProbeEvent list). opposed e f)
      \<longleftrightarrow> (\<exists>a b. nested cs a b \<and> nested cs b a)"
    unfolding edges_of_trace [OF assms] by (rule opposed_nestings)
  then show ?thesis by (simp only: verdict_clean_iff)
qed

text \<open>(C7) From lock calls to the verdict. A program runs in a capture session, its threads
  call the lock hook for the mutexes they acquire and release in any interleaving, and the collected
  events go to the reference verifier. The verdict is clean if and only if there are no two mutexes
  such that some thread acquired the second while holding the first and some thread acquired the
  first while holding the second, in terms of the program's own threads and lock ids.\<close>

theorem lock_program_verdict:
  fixes s :: "'j probe"
  assumes "CaptureSession_begin s = Some (session, s1)" "fresh_process s" "length cs < 2 ^ 64"
    and "CaptureSession_finish session (probe_run (map (\<lambda>(t, c). (t, LockEv c)) cs) s1) = (events, s2)"
  shows "vr_verdict (run_verification_from events target config) = Clean
    \<longleftrightarrow> \<not> (\<exists>a b. nested cs a b \<and> nested cs b a)"
proof -
  let ?cs = "map (\<lambda>(t, c). (t, LockEv c)) cs"
  have "\<forall>(t, c)\<in>set ?cs. projected c" by (auto simp: projected_def)
  from session_records [OF assms(1,2) this _ assms(4)] assms(3) obtain ids where
    ev: "events = map (\<lambda>(t, c). the (call_event c (ids t))) ?cs" and inj: "inj_on ids (fst ` set ?cs)" by auto
  have "events = lock_trace ids cs" by (simp add: ev lock_trace_def call_event_def case_prod_unfold)
  moreover have "fst ` set ?cs = fst ` set cs" by force
  ultimately show ?thesis using lock_trace_verdict [of ids cs] inj by simp
qed

text \<open>Threads 5 and 9 nest mutexes 1 and 2 in opposite orders.\<close>

theorem lock_program_verdict_witness:
  "\<exists>session s1 events s2. CaptureSession_begin (probe_init :: unit probe) = Some (session, s1)
     \<and> CaptureSession_finish session (probe_run (map (\<lambda>(t, c). (t, LockEv c))
         [(5, lock_acquire 1), (5, lock_acquire 2), (9, lock_acquire 2), (9, lock_acquire 1)]) s1) = (events, s2)
     \<and> vr_verdict (run_verification_from events ''demo''
         \<lparr>pc_max_depth = 500, pc_write_ard = False, pc_output_dir = []\<rparr>) \<noteq> Clean"
proof -
  let ?cs = "[(5, lock_acquire 1), (5, lock_acquire 2), (9, lock_acquire 2), (9, lock_acquire 1)] :: (os_thread \<times> LockCall) list"
  obtain session s1 where start: "CaptureSession_begin (probe_init :: unit probe) = Some (session, s1)"
    by (simp add: CaptureSession_begin_def probe_init_def Let_def)
  obtain events s2 where fin: "CaptureSession_finish session (probe_run (map (\<lambda>(t, c). (t, LockEv c)) ?cs) s1) = (events, s2)"
    by fastforce
  have fresh: "fresh_process (probe_init :: unit probe)" by (simp add: fresh_process_def probe_init_def slot_sender_def)
  have "nested ?cs 1 2" unfolding nested_def
    by (rule exI [of _ "[(5, lock_acquire 1)]"]) (simp add: calls_hold_def)
  moreover have "nested ?cs 2 1" unfolding nested_def
    by (rule exI [of _ "[(5, lock_acquire 1), (5, lock_acquire 2), (9, lock_acquire 2)]"]) (simp add: calls_hold_def)
  ultimately have "vr_verdict (run_verification_from events ''demo''
      \<lparr>pc_max_depth = 500, pc_write_ard = False, pc_output_dir = []\<rparr>) \<noteq> Clean"
    using lock_program_verdict [OF start fresh _ fin] by (simp, blast)
  with start fin show ?thesis by blast
qed

end
