(* ===== verification/Tracked.thy ===== *)
theory Tracked
  imports ProbeHooks
begin

text \<open>
  The tracked synchronisation types of \<^verbatim>\<open>laplace-probe-sdk\<close> (\<^verbatim>\<open>tracked*.rs\<close>): wrappers that report every
  acquisition and release of an inner lock, semaphore or atomic as a probe event. Acquiring runs in three parts,
  since other threads run in between: the thread id is read, the inner lock is awaited, the event
  is emitted and the guard returned. A guard's \<open>Drop\<close> emits its event before the inner guard
  is dropped, as fields are dropped after the body of \<open>drop\<close>.
\<close>

section \<open>Wrappers and guards\<close>

text \<open>Every wrapper is its inner object, which is part of the state below, and a resource name; every
  guard is its inner guard, the name and the thread id it was acquired under.\<close>

record tracked =
  tr_resource_name :: string

record tracked_guard =
  tg_resource_name :: string
  tg_thread_id :: u64

definition TrackedMutex_new :: "string \<Rightarrow> tracked" where
  "TrackedMutex_new nm = \<lparr>tr_resource_name = nm\<rparr>"

definition TrackedMutex_named :: "string \<Rightarrow> tracked" where
  "TrackedMutex_named nm = TrackedMutex_new nm"

definition TrackedStdMutex_new :: "string \<Rightarrow> tracked" where
  "TrackedStdMutex_new nm = \<lparr>tr_resource_name = nm\<rparr>"

definition TrackedRwLock_new :: "string \<Rightarrow> tracked" where
  "TrackedRwLock_new nm = \<lparr>tr_resource_name = nm\<rparr>"

definition TrackedRwLock_named :: "string \<Rightarrow> tracked" where
  "TrackedRwLock_named nm = TrackedRwLock_new nm"

definition TrackedStdRwLock_new :: "string \<Rightarrow> tracked" where
  "TrackedStdRwLock_new nm = \<lparr>tr_resource_name = nm\<rparr>"

definition TrackedParkingLotRwLock_new :: "string \<Rightarrow> tracked" where
  "TrackedParkingLotRwLock_new nm = \<lparr>tr_resource_name = nm\<rparr>"

definition TrackedSemaphore_new :: "string \<Rightarrow> tracked" where
  "TrackedSemaphore_new nm = \<lparr>tr_resource_name = nm\<rparr>"

section \<open>After the inner lock is acquired\<close>

definition TrackedMutex_lock :: "tracked \<Rightarrow> u64 \<Rightarrow> os_thread \<Rightarrow> 'j probe \<Rightarrow> tracked_guard \<times> 'j probe" where
  "TrackedMutex_lock self tid t s =
     (\<lparr>tg_resource_name = tr_resource_name self, tg_thread_id = tid\<rparr>,
      emit t (LockAcquired tid (tr_resource_name self)) s)"

definition TrackedStdMutex_lock :: "tracked \<Rightarrow> u64 \<Rightarrow> os_thread \<Rightarrow> 'j probe \<Rightarrow> tracked_guard \<times> 'j probe" where
  "TrackedStdMutex_lock self tid t s =
     (\<lparr>tg_resource_name = tr_resource_name self, tg_thread_id = tid\<rparr>,
      emit t (LockAcquired tid (tr_resource_name self)) s)"

definition TrackedRwLock_read :: "tracked \<Rightarrow> u64 \<Rightarrow> os_thread \<Rightarrow> 'j probe \<Rightarrow> tracked_guard \<times> 'j probe" where
  "TrackedRwLock_read self tid t s =
     (\<lparr>tg_resource_name = tr_resource_name self, tg_thread_id = tid\<rparr>,
      emit t (RwLockReadAcquired tid (tr_resource_name self)) s)"

definition TrackedRwLock_write :: "tracked \<Rightarrow> u64 \<Rightarrow> os_thread \<Rightarrow> 'j probe \<Rightarrow> tracked_guard \<times> 'j probe" where
  "TrackedRwLock_write self tid t s =
     (\<lparr>tg_resource_name = tr_resource_name self, tg_thread_id = tid\<rparr>,
      emit t (RwLockWriteAcquired tid (tr_resource_name self)) s)"

definition TrackedStdRwLock_read :: "tracked \<Rightarrow> u64 \<Rightarrow> os_thread \<Rightarrow> 'j probe \<Rightarrow> tracked_guard \<times> 'j probe" where
  "TrackedStdRwLock_read self tid t s =
     (\<lparr>tg_resource_name = tr_resource_name self, tg_thread_id = tid\<rparr>,
      emit t (RwLockReadAcquired tid (tr_resource_name self)) s)"

definition TrackedStdRwLock_write :: "tracked \<Rightarrow> u64 \<Rightarrow> os_thread \<Rightarrow> 'j probe \<Rightarrow> tracked_guard \<times> 'j probe" where
  "TrackedStdRwLock_write self tid t s =
     (\<lparr>tg_resource_name = tr_resource_name self, tg_thread_id = tid\<rparr>,
      emit t (RwLockWriteAcquired tid (tr_resource_name self)) s)"

definition TrackedParkingLotRwLock_read :: "tracked \<Rightarrow> u64 \<Rightarrow> os_thread \<Rightarrow> 'j probe \<Rightarrow> tracked_guard \<times> 'j probe" where
  "TrackedParkingLotRwLock_read self tid t s =
     (\<lparr>tg_resource_name = tr_resource_name self, tg_thread_id = tid\<rparr>,
      emit t (RwLockReadAcquired tid (tr_resource_name self)) s)"

definition TrackedParkingLotRwLock_write :: "tracked \<Rightarrow> u64 \<Rightarrow> os_thread \<Rightarrow> 'j probe \<Rightarrow> tracked_guard \<times> 'j probe" where
  "TrackedParkingLotRwLock_write self tid t s =
     (\<lparr>tg_resource_name = tr_resource_name self, tg_thread_id = tid\<rparr>,
      emit t (RwLockWriteAcquired tid (tr_resource_name self)) s)"

text \<open>The attempts: \<open>granted\<close> is what the inner lock answers; a refused attempt reports nothing.\<close>

definition TrackedParkingLotRwLock_try_read :: "tracked \<Rightarrow> bool \<Rightarrow> u64 \<Rightarrow> os_thread \<Rightarrow> 'j probe \<Rightarrow> tracked_guard option \<times> 'j probe" where
  "TrackedParkingLotRwLock_try_read self granted tid t s =
     (if granted
      then (Some \<lparr>tg_resource_name = tr_resource_name self, tg_thread_id = tid\<rparr>, emit t (RwLockReadAcquired tid (tr_resource_name self)) s)
      else (None, s))"

definition TrackedParkingLotRwLock_try_write :: "tracked \<Rightarrow> bool \<Rightarrow> u64 \<Rightarrow> os_thread \<Rightarrow> 'j probe \<Rightarrow> tracked_guard option \<times> 'j probe" where
  "TrackedParkingLotRwLock_try_write self granted tid t s =
     (if granted
      then (Some \<lparr>tg_resource_name = tr_resource_name self, tg_thread_id = tid\<rparr>, emit t (RwLockWriteAcquired tid (tr_resource_name self)) s)
      else (None, s))"

definition TrackedSemaphore_acquire :: "tracked \<Rightarrow> u64 \<Rightarrow> os_thread \<Rightarrow> 'j probe \<Rightarrow> tracked_guard \<times> 'j probe" where
  "TrackedSemaphore_acquire self tid t s =
     (\<lparr>tg_resource_name = tr_resource_name self, tg_thread_id = tid\<rparr>,
      emit t (SemaphoreAcquired tid (tr_resource_name self)) s)"

section \<open>Dropping guards\<close>

definition TrackedGuard_drop :: "tracked_guard \<Rightarrow> os_thread \<Rightarrow> 'j probe \<Rightarrow> 'j probe" where
  "TrackedGuard_drop self t s = emit t (LockReleased (tg_thread_id self) (tg_resource_name self)) s"

definition TrackedStdGuard_drop :: "tracked_guard \<Rightarrow> os_thread \<Rightarrow> 'j probe \<Rightarrow> 'j probe" where
  "TrackedStdGuard_drop self t s = emit t (LockReleased (tg_thread_id self) (tg_resource_name self)) s"

definition TrackedRwLockReadGuard_drop :: "tracked_guard \<Rightarrow> os_thread \<Rightarrow> 'j probe \<Rightarrow> 'j probe" where
  "TrackedRwLockReadGuard_drop self t s = emit t (RwLockReadReleased (tg_thread_id self) (tg_resource_name self)) s"

definition TrackedRwLockWriteGuard_drop :: "tracked_guard \<Rightarrow> os_thread \<Rightarrow> 'j probe \<Rightarrow> 'j probe" where
  "TrackedRwLockWriteGuard_drop self t s = emit t (RwLockWriteReleased (tg_thread_id self) (tg_resource_name self)) s"

definition TrackedStdRwLockReadGuard_drop :: "tracked_guard \<Rightarrow> os_thread \<Rightarrow> 'j probe \<Rightarrow> 'j probe" where
  "TrackedStdRwLockReadGuard_drop self t s = emit t (RwLockReadReleased (tg_thread_id self) (tg_resource_name self)) s"

definition TrackedStdRwLockWriteGuard_drop :: "tracked_guard \<Rightarrow> os_thread \<Rightarrow> 'j probe \<Rightarrow> 'j probe" where
  "TrackedStdRwLockWriteGuard_drop self t s = emit t (RwLockWriteReleased (tg_thread_id self) (tg_resource_name self)) s"

definition TrackedParkingLotRwLockReadGuard_drop :: "tracked_guard \<Rightarrow> os_thread \<Rightarrow> 'j probe \<Rightarrow> 'j probe" where
  "TrackedParkingLotRwLockReadGuard_drop self t s = emit t (RwLockReadReleased (tg_thread_id self) (tg_resource_name self)) s"

definition TrackedParkingLotRwLockWriteGuard_drop :: "tracked_guard \<Rightarrow> os_thread \<Rightarrow> 'j probe \<Rightarrow> 'j probe" where
  "TrackedParkingLotRwLockWriteGuard_drop self t s = emit t (RwLockWriteReleased (tg_thread_id self) (tg_resource_name self)) s"

definition TrackedSemaphorePermit_drop :: "tracked_guard \<Rightarrow> os_thread \<Rightarrow> 'j probe \<Rightarrow> 'j probe" where
  "TrackedSemaphorePermit_drop self t s = emit t (SemaphoreReleased (tg_thread_id self) (tg_resource_name self)) s"

section \<open>Atomics\<close>

text \<open>\<open>TrackedAtomicBool\<close> has the first three operations, the numeric types all five; \<open>fetch_add\<close> and
  \<open>fetch_sub\<close> wrap. The operation on the inner atomic takes effect before the event is emitted.\<close>

record 'v tracked_atomic =
  ta_inner :: 'v
  ta_resource_name :: string

definition TrackedAtomic_new :: "'v \<Rightarrow> string \<Rightarrow> 'v tracked_atomic" where
  "TrackedAtomic_new value nm = \<lparr>ta_inner = value, ta_resource_name = nm\<rparr>"

definition TrackedAtomic_load :: "'v tracked_atomic \<Rightarrow> os_thread \<Rightarrow> 'j probe \<Rightarrow> 'v \<times> 'v tracked_atomic \<times> 'j probe" where
  "TrackedAtomic_load self t s = (ta_inner self, self, emit_here t (\<lambda>i. AtomicLoad i (ta_resource_name self)) s)"

definition TrackedAtomic_store :: "'v \<Rightarrow> 'v tracked_atomic \<Rightarrow> os_thread \<Rightarrow> 'j probe \<Rightarrow> 'v tracked_atomic \<times> 'j probe" where
  "TrackedAtomic_store value self t s = (self\<lparr>ta_inner := value\<rparr>, emit_here t (\<lambda>i. AtomicStore i (ta_resource_name self)) s)"

definition TrackedAtomic_compare_exchange ::
    "'v \<Rightarrow> 'v \<Rightarrow> 'v tracked_atomic \<Rightarrow> os_thread \<Rightarrow> 'j probe \<Rightarrow> ('v + 'v) \<times> 'v tracked_atomic \<times> 'j probe" where
  "TrackedAtomic_compare_exchange current new self t s =
     (let s' = emit_here t (\<lambda>i. AtomicRmw i (ta_resource_name self)) s in
      if ta_inner self = current then (Inr (ta_inner self), self\<lparr>ta_inner := new\<rparr>, s')
      else (Inl (ta_inner self), self, s'))"

definition TrackedAtomic_fetch_add ::
    "'w::len word \<Rightarrow> 'w word tracked_atomic \<Rightarrow> os_thread \<Rightarrow> 'j probe \<Rightarrow> 'w word \<times> 'w word tracked_atomic \<times> 'j probe" where
  "TrackedAtomic_fetch_add val self t s =
     (ta_inner self, self\<lparr>ta_inner := ta_inner self + val\<rparr>, emit_here t (\<lambda>i. AtomicRmw i (ta_resource_name self)) s)"

definition TrackedAtomic_fetch_sub ::
    "'w::len word \<Rightarrow> 'w word tracked_atomic \<Rightarrow> os_thread \<Rightarrow> 'j probe \<Rightarrow> 'w word \<times> 'w word tracked_atomic \<times> 'j probe" where
  "TrackedAtomic_fetch_sub val self t s =
     (ta_inner self, self\<lparr>ta_inner := ta_inner self - val\<rparr>, emit_here t (\<lambda>i. AtomicRmw i (ta_resource_name self)) s)"

section \<open>All wrappers\<close>

datatype wrapper = WMutex | WStdMutex | WRwLock | WStdRwLock | WParkingLotRwLock | WSemaphore

text \<open>The modes a wrapper offers: a permit of a semaphore is a shared hold.\<close>

definition offers :: "wrapper \<Rightarrow> HoldMode \<Rightarrow> bool" where
  "offers w m \<longleftrightarrow> (case w of WMutex \<Rightarrow> m = Exclusive | WStdMutex \<Rightarrow> m = Exclusive | WSemaphore \<Rightarrow> m = Shared | _ \<Rightarrow> True)"

definition tracked_acquire :: "wrapper \<Rightarrow> HoldMode \<Rightarrow> tracked \<Rightarrow> u64 \<Rightarrow> os_thread \<Rightarrow> 'j probe \<Rightarrow> tracked_guard \<times> 'j probe" where
  "tracked_acquire w m =
     (case w of
        WMutex \<Rightarrow> TrackedMutex_lock
      | WStdMutex \<Rightarrow> TrackedStdMutex_lock
      | WRwLock \<Rightarrow> (case m of Shared \<Rightarrow> TrackedRwLock_read | Exclusive \<Rightarrow> TrackedRwLock_write)
      | WStdRwLock \<Rightarrow> (case m of Shared \<Rightarrow> TrackedStdRwLock_read | Exclusive \<Rightarrow> TrackedStdRwLock_write)
      | WParkingLotRwLock \<Rightarrow> (case m of Shared \<Rightarrow> TrackedParkingLotRwLock_read | Exclusive \<Rightarrow> TrackedParkingLotRwLock_write)
      | WSemaphore \<Rightarrow> TrackedSemaphore_acquire)"

definition tracked_release :: "wrapper \<Rightarrow> HoldMode \<Rightarrow> tracked_guard \<Rightarrow> os_thread \<Rightarrow> 'j probe \<Rightarrow> 'j probe" where
  "tracked_release w m =
     (case w of
        WMutex \<Rightarrow> TrackedGuard_drop
      | WStdMutex \<Rightarrow> TrackedStdGuard_drop
      | WRwLock \<Rightarrow> (case m of Shared \<Rightarrow> TrackedRwLockReadGuard_drop | Exclusive \<Rightarrow> TrackedRwLockWriteGuard_drop)
      | WStdRwLock \<Rightarrow> (case m of Shared \<Rightarrow> TrackedStdRwLockReadGuard_drop | Exclusive \<Rightarrow> TrackedStdRwLockWriteGuard_drop)
      | WParkingLotRwLock \<Rightarrow>
          (case m of Shared \<Rightarrow> TrackedParkingLotRwLockReadGuard_drop | Exclusive \<Rightarrow> TrackedParkingLotRwLockWriteGuard_drop)
      | WSemaphore \<Rightarrow> TrackedSemaphorePermit_drop)"

text \<open>A panic in a critical section poisons the standard library's locks: a mutex always, a
  reader-writer lock when the guard is a writer's.\<close>

definition poisons :: "wrapper \<Rightarrow> HoldMode \<Rightarrow> bool" where
  "poisons w m \<longleftrightarrow> w = WStdMutex \<or> w = WStdRwLock \<and> m = Exclusive"

section \<open>Interleaved use of one tracked object\<close>

text \<open>The calls and guards on the object, each under a token: waiting for the inner lock with the thread
  id it read, holding the inner lock before its event is emitted, a live guard, and a guard whose release
  event is out while its inner guard is not yet dropped.\<close>

datatype phase = Waiting os_thread HoldMode u64 | Granted os_thread HoldMode u64 | Live tracked_guard HoldMode | Dropping HoldMode

record 'j tracked_conf =
  tc_probe :: "'j probe"
  tc_slots :: "nat \<rightharpoonup> phase"
  tc_poisoned :: bool

fun inner_hold :: "phase \<Rightarrow> HoldMode option" where
  "inner_hold (Waiting t m i) = None"
| "inner_hold (Granted t m i) = Some m"
| "inner_hold (Live g m) = Some m"
| "inner_hold (Dropping m) = Some m"

definition holders :: "(nat \<rightharpoonup> phase) \<Rightarrow> nat set" where
  "holders slots = {k. \<exists>p m. slots k = Some p \<and> inner_hold p = Some m}"

text \<open>What the inner lock may grant: an exclusive hold when nothing is held, a shared one when no exclusive
  hold is out and, for a semaphore, a permit is left (\<open>cap\<close>).\<close>

definition grantable :: "nat option \<Rightarrow> HoldMode \<Rightarrow> (nat \<rightharpoonup> phase) \<Rightarrow> bool" where
  "grantable cap m slots \<longleftrightarrow>
     (case m of
        Exclusive \<Rightarrow> holders slots = {}
      | Shared \<Rightarrow> (\<forall>k p. slots k = Some p \<longrightarrow> inner_hold p \<noteq> Some Exclusive)
          \<and> (case cap of None \<Rightarrow> True | Some n \<Rightarrow> card (holders slots) < n))"

definition TrackedSemaphore_available_permits :: "nat \<Rightarrow> (nat \<rightharpoonup> phase) \<Rightarrow> nat" where
  "TrackedSemaphore_available_permits permits slots = permits - card (holders slots)"

inductive tracked_step :: "wrapper \<Rightarrow> nat option \<Rightarrow> tracked \<Rightarrow> 'j tracked_conf \<Rightarrow> 'j tracked_conf \<Rightarrow> bool"
  for w cap self where
  request: "tracked_step w cap self c (c\<lparr>tc_probe := s', tc_slots := (tc_slots c)(k \<mapsto> Waiting t m i)\<rparr>)"
    if "offers w m" "tc_slots c k = None" "current_thread_id t (tc_probe c) = (i, s')"
| grant: "tracked_step w cap self c (c\<lparr>tc_slots := (tc_slots c)(k \<mapsto> Granted t m i)\<rparr>)"
    if "tc_slots c k = Some (Waiting t m i)" "grantable cap m (tc_slots c)" "\<not> tc_poisoned c"
| poisoned: "tracked_step w cap self c (c\<lparr>tc_slots := (tc_slots c)(k := None)\<rparr>)"
    if "tc_slots c k = Some (Waiting t m i)" "tc_poisoned c"
| abandon: "tracked_step w cap self c (c\<lparr>tc_slots := (tc_slots c)(k := None)\<rparr>)"
    if "tc_slots c k = Some (Waiting t m i)"
| acquired: "tracked_step w cap self c (c\<lparr>tc_probe := s', tc_slots := (tc_slots c)(k \<mapsto> Live g m)\<rparr>)"
    if "tc_slots c k = Some (Granted t m i)" "tracked_acquire w m self i t (tc_probe c) = (g, s')"
| release: "tracked_step w cap self c (c\<lparr>tc_probe := tracked_release w m g t (tc_probe c), tc_slots := (tc_slots c)(k \<mapsto> Dropping m)\<rparr>)"
    if "tc_slots c k = Some (Live g m)"
| inner_drop: "tracked_step w cap self c (c\<lparr>tc_slots := (tc_slots c)(k := None),
      tc_poisoned := (tc_poisoned c \<or> panicking \<and> poisons w m)\<rparr>)"
    if "tc_slots c k = Some (Dropping m)"
| elsewhere: "tracked_step w cap self c (c\<lparr>tc_probe := emit t e (tc_probe c)\<rparr>)"
    if "resource_name e \<noteq> Some (tr_resource_name self)"

inductive tracked_reach :: "wrapper \<Rightarrow> nat option \<Rightarrow> tracked \<Rightarrow> 'j tracked_conf \<Rightarrow> 'j tracked_conf \<Rightarrow> bool"
  for w cap self c0 where
  start: "tracked_reach w cap self c0 c0"
| more: "tracked_reach w cap self c0 c \<Longrightarrow> tracked_step w cap self c c' \<Longrightarrow> tracked_reach w cap self c0 c'"

section \<open>The log of the object\<close>

definition acquired_event :: "wrapper \<Rightarrow> HoldMode \<Rightarrow> string \<Rightarrow> u64 \<Rightarrow> 'j ProbeEvent" where
  "acquired_event w m r i =
     (if w = WMutex \<or> w = WStdMutex then LockAcquired i r else if w = WSemaphore then SemaphoreAcquired i r
      else if m = Shared then RwLockReadAcquired i r else RwLockWriteAcquired i r)"

definition released_event :: "wrapper \<Rightarrow> HoldMode \<Rightarrow> string \<Rightarrow> u64 \<Rightarrow> 'j ProbeEvent" where
  "released_event w m r i =
     (if w = WMutex \<or> w = WStdMutex then LockReleased i r else if w = WSemaphore then SemaphoreReleased i r
      else if m = Shared then RwLockReadReleased i r else RwLockWriteReleased i r)"

text \<open>The holds in a mode that a log shows as open, for the thread ids of a set.\<close>

definition open_in :: "wrapper \<Rightarrow> HoldMode \<Rightarrow> string \<Rightarrow> u64 set \<Rightarrow> 'j ProbeEvent list \<Rightarrow> int" where
  "open_in w m r I log = int (length (filter (\<lambda>e. e \<in> acquired_event w m r ` I) log))
     - int (length (filter (\<lambda>e. e \<in> released_event w m r ` I) log))"

lemma tracked_acquire_eq:
  "tracked_acquire w m self i t s =
     (\<lparr>tg_resource_name = tr_resource_name self, tg_thread_id = i\<rparr>, emit t (acquired_event w m (tr_resource_name self) i) s)"
  by (cases w; cases m) (simp_all add: tracked_acquire_def acquired_event_def fun_eq_iff TrackedMutex_lock_def
      TrackedStdMutex_lock_def TrackedRwLock_read_def TrackedRwLock_write_def TrackedStdRwLock_read_def
      TrackedStdRwLock_write_def TrackedParkingLotRwLock_read_def TrackedParkingLotRwLock_write_def TrackedSemaphore_acquire_def)

text \<open>An attempt that is granted is the acquisition, one that is refused is nothing; in the runs below they are \<open>grant\<close> and \<open>acquired\<close>, or \<open>abandon\<close>.\<close>

lemma tracked_try_eq:
  "TrackedParkingLotRwLock_try_read self granted i t s =
     (if granted then apfst Some (tracked_acquire WParkingLotRwLock Shared self i t s) else (None, s))"
  "TrackedParkingLotRwLock_try_write self granted i t s =
     (if granted then apfst Some (tracked_acquire WParkingLotRwLock Exclusive self i t s) else (None, s))"
  by (simp_all add: tracked_acquire_eq TrackedParkingLotRwLock_try_read_def TrackedParkingLotRwLock_try_write_def acquired_event_def)

lemma permit_grantable_iff:
  assumes "\<forall>k p. slots k = Some p \<longrightarrow> inner_hold p \<noteq> Some Exclusive"
  shows "grantable (Some permits) Shared slots \<longleftrightarrow> TrackedSemaphore_available_permits permits slots > 0"
  using assms by (auto simp: grantable_def TrackedSemaphore_available_permits_def)

lemma tracked_release_eq: "tracked_release w m g t s = emit t (released_event w m (tg_resource_name g) (tg_thread_id g)) s"
  by (cases w; cases m) (simp_all add: tracked_release_def released_event_def fun_eq_iff TrackedGuard_drop_def
      TrackedStdGuard_drop_def TrackedRwLockReadGuard_drop_def TrackedRwLockWriteGuard_drop_def
      TrackedStdRwLockReadGuard_drop_def TrackedStdRwLockWriteGuard_drop_def TrackedParkingLotRwLockReadGuard_drop_def
      TrackedParkingLotRwLockWriteGuard_drop_def TrackedSemaphorePermit_drop_def)

lemma open_in_snoc:
  "open_in w m r I (log @ [e]) = open_in w m r I log
     + (if e \<in> acquired_event w m r ` I then 1 else 0) - (if e \<in> released_event w m r ` I then 1 else 0)"
  by (simp add: open_in_def)

lemma event_apart:
  "offers w m \<Longrightarrow> offers w m' \<Longrightarrow>
     acquired_event w m r i = (acquired_event w m' r' i' :: 'j ProbeEvent) \<longleftrightarrow> m = m' \<and> r = r' \<and> i = i'"
  "offers w m \<Longrightarrow> offers w m' \<Longrightarrow>
     released_event w m r i = (released_event w m' r' i' :: 'j ProbeEvent) \<longleftrightarrow> m = m' \<and> r = r' \<and> i = i'"
  "acquired_event w m r i \<noteq> (released_event w m' r' i' :: 'j ProbeEvent)"
  "resource_name (acquired_event w m r i :: 'j ProbeEvent) = Some r"
  "resource_name (released_event w m r i :: 'j ProbeEvent) = Some r"
      apply (cases w; cases m; cases m'; auto simp: acquired_event_def offers_def)
     apply (cases w; cases m; cases m'; auto simp: released_event_def offers_def)
    apply (cases w; cases m; cases m'; simp add: acquired_event_def released_event_def)
   apply (simp add: acquired_event_def resource_name_def)
  apply (simp add: released_event_def resource_name_def)
  done

section \<open>Invariant\<close>

definition listening :: "sink \<Rightarrow> 'j probe \<Rightarrow> bool" where
  "listening rx s \<longleftrightarrow> session_open rx s \<and> (\<forall>t. \<not> owns s t) \<and> \<not> has_global s"

lemma listening_emit:
  assumes "listening rx s"
  shows "listening rx (emit t e s)" "received rx (emit t e s) = received rx s @ [e]"
proof -
  have opened: "session_open rx s" "\<forall>t. \<not> owns s t" "\<not> has_global s" using assms unfolding listening_def by blast+
  have "session_open rx (probe_apply (ActEmit t e) s)" by (rule session_step [OF opened(1)]) (simp add: sends_to_def)
  with opened show "listening rx (emit t e s)" by (simp add: listening_def)
  from emit_session [OF opened(1), of t e] opened(2,3) show "received rx (emit t e s) = received rx s @ [e]"
    by (simp add: owns_def has_global_def)
qed

lemma listening_current:
  assumes "listening rx s" "current_thread_id t s = (i, s')"
  shows "listening rx s'" "received rx s' = received rx s"
proof -
  have s': "s' = probe_apply (ActCurrentThreadId t) s" using assms(2) by simp
  have opened: "session_open rx s" "\<forall>t. \<not> owns s t" "\<not> has_global s" using assms(1) unfolding listening_def by blast+
  have "session_open rx s'" unfolding s' by (rule session_step [OF opened(1)]) (simp add: sends_to_def)
  with opened show "listening rx s'" by (simp add: listening_def s')
  show "received rx s' = received rx s" by (simp add: s')
qed

fun phase_mode :: "phase \<Rightarrow> HoldMode" where
  "phase_mode (Waiting t m i) = m"
| "phase_mode (Granted t m i) = m"
| "phase_mode (Live g m) = m"
| "phase_mode (Dropping m) = m"

definition live :: "HoldMode \<Rightarrow> u64 set \<Rightarrow> (nat \<rightharpoonup> phase) \<Rightarrow> nat set" where
  "live m I slots = {k. \<exists>g. slots k = Some (Live g m) \<and> tg_thread_id g \<in> I}"

definition slots_inv :: "wrapper \<Rightarrow> nat option \<Rightarrow> tracked \<Rightarrow> (nat \<rightharpoonup> phase) \<Rightarrow> bool" where
  "slots_inv w cap self slots \<longleftrightarrow> finite (dom slots)
     \<and> (\<forall>k g m. slots k = Some (Live g m) \<longrightarrow> tg_resource_name g = tr_resource_name self)
     \<and> (\<forall>k p. slots k = Some p \<longrightarrow> offers w (phase_mode p))
     \<and> (\<forall>k p k'. slots k = Some p \<longrightarrow> inner_hold p = Some Exclusive \<longrightarrow> k' \<in> holders slots \<longrightarrow> k = k')
     \<and> (\<forall>n. w = WSemaphore \<longrightarrow> cap = Some n \<longrightarrow> card (holders slots) \<le> n)"

definition log_inv :: "sink \<Rightarrow> wrapper \<Rightarrow> tracked \<Rightarrow> 'j probe \<Rightarrow> (nat \<rightharpoonup> phase) \<Rightarrow> bool" where
  "log_inv rx w self s slots \<longleftrightarrow> listening rx s
     \<and> (\<forall>m I. offers w m \<longrightarrow> open_in w m (tr_resource_name self) I (received rx s) = int (card (live m I slots)))"

lemma holders_upd:
  "holders (slots(k := None)) = holders slots - {k}"
  "holders (slots(k \<mapsto> p)) = (if inner_hold p = None then holders slots - {k} else insert k (holders slots))"
  by (auto simp: holders_def split: if_splits)

lemma live_upd:
  "live m I (slots(k := None)) = live m I slots - {k}"
  "live m I (slots(k \<mapsto> Live g m')) = (if m' = m \<and> tg_thread_id g \<in> I then insert k (live m I slots) else live m I slots - {k})"
  "live m I (slots(k \<mapsto> Waiting t m' i)) = live m I slots - {k}"
  "live m I (slots(k \<mapsto> Granted t m' i)) = live m I slots - {k}"
  "live m I (slots(k \<mapsto> Dropping m')) = live m I slots - {k}"
  by (auto simp: live_def)

lemma holders_subset: "holders slots \<subseteq> dom slots" "live m I slots \<subseteq> dom slots"
  by (auto simp: holders_def live_def)

lemma slots_invI:
  assumes "finite (dom slots)" "\<And>k g m. slots k = Some (Live g m) \<Longrightarrow> tg_resource_name g = tr_resource_name self"
    and "\<And>k p. slots k = Some p \<Longrightarrow> offers w (phase_mode p)"
    and "\<And>k p k'. slots k = Some p \<Longrightarrow> inner_hold p = Some Exclusive \<Longrightarrow> k' \<in> holders slots \<Longrightarrow> k = k'"
    and "\<And>n. w = WSemaphore \<Longrightarrow> cap = Some n \<Longrightarrow> card (holders slots) \<le> n"
  shows "slots_inv w cap self slots"
  unfolding slots_inv_def using assms by blast

lemma slots_invD:
  assumes "slots_inv w cap self slots"
  shows "finite (dom slots)" "finite (holders slots)" "finite (live m I slots)"
    and "slots k = Some (Live g m) \<Longrightarrow> tg_resource_name g = tr_resource_name self"
    and "slots k = Some p \<Longrightarrow> offers w (phase_mode p)"
    and "slots k = Some p \<Longrightarrow> inner_hold p = Some Exclusive \<Longrightarrow> k' \<in> holders slots \<Longrightarrow> k = k'"
    and "w = WSemaphore \<Longrightarrow> cap = Some n \<Longrightarrow> card (holders slots) \<le> n"
proof -
  show fin: "finite (dom slots)" using assms unfolding slots_inv_def by blast
  show "finite (holders slots)" "finite (live m I slots)" by (rule finite_subset [OF holders_subset(1) fin], rule finite_subset [OF holders_subset(2) fin])
qed (use assms in \<open>unfold slots_inv_def, blast+\<close>)

lemma slots_inv_drop:
  assumes "slots_inv w cap self slots"
  shows "slots_inv w cap self (slots(k := None))"
proof (rule slots_invI)
  note D = slots_invD [OF assms]
  show "finite (dom (slots(k := None)))" using D(1) by simp
  show "k1 = k2" if "(slots(k := None)) k1 = Some p" "inner_hold p = Some Exclusive" "k2 \<in> holders (slots(k := None))" for k1 p k2
    using that D(6) [of k1 p k2] by (auto simp: holders_upd split: if_splits)
  show "card (holders (slots(k := None))) \<le> n" if "w = WSemaphore" "cap = Some n" for n
    using D(7) [OF that] card_Diff1_le [of "holders slots" k] by (simp add: holders_upd)
qed (use slots_invD(4,5) [OF assms] in \<open>auto split: if_splits\<close>)

lemma slots_inv_put:
  assumes "slots_inv w cap self slots" "offers w (phase_mode p')"
    and "\<And>g m. p' = Live g m \<Longrightarrow> tg_resource_name g = tr_resource_name self"
    and "\<And>k1 p k2. (slots(k \<mapsto> p')) k1 = Some p \<Longrightarrow> inner_hold p = Some Exclusive \<Longrightarrow> k2 \<in> holders (slots(k \<mapsto> p')) \<Longrightarrow> k1 = k2"
    and "\<And>n. w = WSemaphore \<Longrightarrow> cap = Some n \<Longrightarrow> card (holders (slots(k \<mapsto> p'))) \<le> n"
  shows "slots_inv w cap self (slots(k \<mapsto> p'))"
proof (rule slots_invI)
  note D = slots_invD [OF assms(1)]
  show "finite (dom (slots(k \<mapsto> p')))" using D(1) by simp
  show "tg_resource_name g = tr_resource_name self" if "(slots(k \<mapsto> p')) k' = Some (Live g m)" for k' g m
    using that D(4) assms(3) by (simp split: if_splits)
  show "offers w (phase_mode p)" if "(slots(k \<mapsto> p')) k' = Some p" for k' p
    using that D(5) assms(2) by (auto split: if_splits)
qed (fact assms(4), fact assms(5))

lemma slots_inv_same:
  assumes "slots_inv w cap self slots" "slots k = Some p" "inner_hold p' = inner_hold p" "phase_mode p' = phase_mode p"
    and "\<And>g m. p' = Live g m \<Longrightarrow> tg_resource_name g = tr_resource_name self"
  shows "slots_inv w cap self (slots(k \<mapsto> p'))"
proof (rule slots_inv_put [OF assms(1) _ assms(5)])
  note D = slots_invD [OF assms(1)]
  have h: "holders (slots(k \<mapsto> p')) = holders slots" using assms(2,3) by (auto simp: holders_def)
  show "offers w (phase_mode p')" using D(5) [OF assms(2)] assms(4) by simp
  show "k1 = k2" if "(slots(k \<mapsto> p')) k1 = Some q" "inner_hold q = Some Exclusive" "k2 \<in> holders (slots(k \<mapsto> p'))" for k1 q k2
    using that D(6) [of k1 _ k2] assms(2,3) unfolding h by (auto split: if_splits)
  show "card (holders (slots(k \<mapsto> p'))) \<le> n" if "w = WSemaphore" "cap = Some n" for n unfolding h by (rule D(7) [OF that])
qed

lemma slots_inv_grant:
  assumes "slots_inv w cap self slots" "slots k = Some (Waiting t m i)" "grantable cap m slots"
  shows "slots_inv w cap self (slots(k \<mapsto> Granted t m i))"
proof (rule slots_inv_put [OF assms(1)])
  note D = slots_invD [OF assms(1)]
  have k: "k \<notin> holders slots" using assms(2) by (simp add: holders_def)
  have h: "holders (slots(k \<mapsto> Granted t m i)) = insert k (holders slots)" by (simp add: holders_upd)
  show mode: "offers w (phase_mode (Granted t m i))" using D(5) [OF assms(2)] by simp
  show "k1 = k2" if "(slots(k \<mapsto> Granted t m i)) k1 = Some p" "inner_hold p = Some Exclusive"
    "k2 \<in> holders (slots(k \<mapsto> Granted t m i))" for k1 p k2
  proof (cases "k1 = k")
    case True
    with that(1,2) have "m = Exclusive" by auto
    then have "holders slots = {}" using assms(3) by (simp add: grantable_def)
    with True that(3) show ?thesis by (simp add: h)
  next
    case False
    then have p: "slots k1 = Some p" using that(1) by simp
    with that(2) have "k1 \<in> holders slots" by (auto simp: holders_def)
    moreover have "m = Shared \<Longrightarrow> inner_hold p \<noteq> Some Exclusive" using assms(3) p by (simp add: grantable_def)
    ultimately show ?thesis using that(2) assms(3) by (cases m) (auto simp: grantable_def)
  qed
  show "card (holders (slots(k \<mapsto> Granted t m i))) \<le> n" if "w = WSemaphore" "cap = Some n" for n
    unfolding h using that mode assms(3) D(2) k by (simp add: offers_def grantable_def)
qed simp

lemma log_inv_other:
  assumes "log_inv rx w self s slots" "\<And>m I. live m I slots' = live m I slots"
  shows "log_inv rx w self s slots'"
  using assms by (simp add: log_inv_def)

lemma log_inv_emit:
  assumes "log_inv rx w self s slots"
    and "\<And>m I. offers w m \<Longrightarrow> int (card (live m I slots')) = int (card (live m I slots))
      + (if e \<in> acquired_event w m (tr_resource_name self) ` I then 1 else 0)
      - (if e \<in> released_event w m (tr_resource_name self) ` I then 1 else 0)"
  shows "log_inv rx w self (emit t e s) slots'"
proof -
  have l: "listening rx s" using assms(1) by (simp add: log_inv_def)
  show ?thesis using assms listening_emit [OF l, of t e] unfolding log_inv_def by (simp add: open_in_snoc)
qed

definition tracked_inv :: "sink \<Rightarrow> wrapper \<Rightarrow> nat option \<Rightarrow> tracked \<Rightarrow> 'j tracked_conf \<Rightarrow> bool" where
  "tracked_inv rx w cap self c \<longleftrightarrow> slots_inv w cap self (tc_slots c) \<and> log_inv rx w self (tc_probe c) (tc_slots c)"

lemma card_live_add:
  "slots_inv w cap self slots \<Longrightarrow> k \<notin> live m I slots \<Longrightarrow> int (card (insert k (live m I slots))) = int (card (live m I slots)) + 1"
  using slots_invD(3) by simp

lemma card_live_remove:
  assumes "slots_inv w cap self slots" "k \<in> live m I slots"
  shows "int (card (live m I slots - {k})) = int (card (live m I slots)) - 1"
  using card_Suc_Diff1 [OF slots_invD(3) [OF assms(1)] assms(2)] by simp

lemma tracked_step_inv:
  assumes "tracked_step w cap self c c'" "tracked_inv rx w cap self c"
  shows "tracked_inv rx w cap self c'"
proof -
  have inv: "slots_inv w cap self (tc_slots c)" "log_inv rx w self (tc_probe c) (tc_slots c)"
    using assms(2) unfolding tracked_inv_def by blast+
  note apart = event_apart
  from assms(1) show ?thesis
  proof cases
    case (request m k t i s')
    have "listening rx (tc_probe c)" using inv(2) by (simp add: log_inv_def)
    from listening_current [OF this request(4)] have log: "log_inv rx w self s' (tc_slots c)" using inv(2) by (simp add: log_inv_def)
    have "k \<notin> holders (tc_slots c)" and absent: "\<And>m I. k \<notin> live m I (tc_slots c)" using request(3) by (simp_all add: holders_def live_def)
    then have "slots_inv w cap self ((tc_slots c)(k \<mapsto> Waiting t m i))"
      using slots_invD(6,7) [OF inv(1)] request(2) by (intro slots_inv_put [OF inv(1)]) (auto simp: holders_upd split: if_splits)
    moreover have "log_inv rx w self s' ((tc_slots c)(k \<mapsto> Waiting t m i))"
      by (rule log_inv_other [OF log]) (simp add: live_upd absent)
    ultimately show ?thesis by (simp add: tracked_inv_def request(1))
  next
    case (grant k t m i)
    have "k \<notin> live m' I (tc_slots c)" for m' I using grant(2) by (simp add: live_def)
    then show ?thesis using slots_inv_grant [OF inv(1) grant(2,3)] log_inv_other [OF inv(2)]
      by (simp add: tracked_inv_def grant(1) live_upd)
  next
    case (poisoned k t m i)
    have "k \<notin> live m' I (tc_slots c)" for m' I using poisoned(2) by (simp add: live_def)
    then show ?thesis using slots_inv_drop [OF inv(1)] log_inv_other [OF inv(2)]
      by (simp add: tracked_inv_def poisoned(1) live_upd)
  next
    case (abandon k t m i)
    have "k \<notin> live m' I (tc_slots c)" for m' I using abandon(2) by (simp add: live_def)
    then show ?thesis using slots_inv_drop [OF inv(1)] log_inv_other [OF inv(2)]
      by (simp add: tracked_inv_def abandon(1) live_upd)
  next
    case (acquired k t m i g s')
    have g: "g = \<lparr>tg_resource_name = tr_resource_name self, tg_thread_id = i\<rparr>"
      and s': "s' = emit t (acquired_event w m (tr_resource_name self) i) (tc_probe c)"
      using acquired(3) by (simp_all add: tracked_acquire_eq)
    have m: "offers w m" using slots_invD(5) [OF inv(1) acquired(2)] by simp
    have absent: "k \<notin> live m' I (tc_slots c)" for m' I using acquired(2) by (simp add: live_def)
    have "slots_inv w cap self ((tc_slots c)(k \<mapsto> Live g m))"
      by (rule slots_inv_same [OF inv(1) acquired(2)]) (simp_all add: g)
    moreover have "log_inv rx w self s' ((tc_slots c)(k \<mapsto> Live g m))" unfolding s'
      by (rule log_inv_emit [OF inv(2)])
        (auto simp: live_upd absent g apart m card_live_add [OF inv(1) absent] image_iff)
    ultimately show ?thesis by (simp add: tracked_inv_def acquired(1))
  next
    case (release k g m t)
    have m: "offers w m" using slots_invD(5) [OF inv(1) release(2)] by simp
    have nm: "tg_resource_name g = tr_resource_name self" by (rule slots_invD(4) [OF inv(1) release(2)])
    have live: "k \<in> live m' I (tc_slots c) \<longleftrightarrow> m' = m \<and> tg_thread_id g \<in> I" for m' I using release(2) by (auto simp: live_def)
    have "slots_inv w cap self ((tc_slots c)(k \<mapsto> Dropping m))"
      by (rule slots_inv_same [OF inv(1) release(2)]) simp_all
    moreover have "log_inv rx w self (tracked_release w m g t (tc_probe c)) ((tc_slots c)(k \<mapsto> Dropping m))"
      unfolding tracked_release_eq nm
    proof (rule log_inv_emit [OF inv(2)])
      fix m' I assume "offers w m'"
      then show "int (card (live m' I ((tc_slots c)(k \<mapsto> Dropping m)))) = int (card (live m' I (tc_slots c)))
          + (if released_event w m (tr_resource_name self) (tg_thread_id g) \<in> acquired_event w m' (tr_resource_name self) ` I then 1 else 0)
          - (if released_event w m (tr_resource_name self) (tg_thread_id g) \<in> released_event w m' (tr_resource_name self) ` I then 1 else 0)"
        using card_live_remove [OF inv(1), of k m' I] live [of m' I]
        by (cases "k \<in> live m' I (tc_slots c)") (auto simp: live_upd apart m image_iff not_sym [OF apart(3)])
    qed
    ultimately show ?thesis by (simp add: tracked_inv_def release(1))
  next
    case (inner_drop k m panicking)
    have "k \<notin> live m' I (tc_slots c)" for m' I using inner_drop(2) by (simp add: live_def)
    then show ?thesis using slots_inv_drop [OF inv(1)] log_inv_other [OF inv(2)]
      by (simp add: tracked_inv_def inner_drop(1) live_upd)
  next
    case (elsewhere e t)
    then have "e \<noteq> acquired_event w m (tr_resource_name self) i" "e \<noteq> released_event w m (tr_resource_name self) i" for m i
      using apart(4,5) by metis+
    then have "log_inv rx w self (emit t e (tc_probe c)) (tc_slots c)"
      by (intro log_inv_emit [OF inv(2)]) (simp add: image_iff)
    with inv(1) show ?thesis by (simp add: tracked_inv_def elsewhere(1))
  qed
qed

text \<open>A log that shows an open exclusive hold shows no other open hold.\<close>

definition log_exclusive :: "wrapper \<Rightarrow> string \<Rightarrow> 'j ProbeEvent list \<Rightarrow> bool" where
  "log_exclusive w r log \<longleftrightarrow> (\<forall>m i j. offers w Exclusive \<longrightarrow> offers w m \<longrightarrow>
     0 < open_in w Exclusive r {i} log \<longrightarrow> 0 < open_in w m r {j} log \<longrightarrow>
     m = Exclusive \<and> j = i \<and> open_in w Exclusive r UNIV log = 1)"

definition log_within :: "wrapper \<Rightarrow> nat option \<Rightarrow> string \<Rightarrow> 'j ProbeEvent list \<Rightarrow> bool" where
  "log_within w cap r log \<longleftrightarrow> (\<forall>m I. offers w m \<longrightarrow> 0 \<le> open_in w m r I log)
     \<and> (\<forall>n. w = WSemaphore \<longrightarrow> cap = Some n \<longrightarrow> open_in w Shared r UNIV log \<le> int n)"

definition log_ok :: "wrapper \<Rightarrow> nat option \<Rightarrow> string \<Rightarrow> 'j ProbeEvent list \<Rightarrow> bool" where
  "log_ok w cap r log \<longleftrightarrow> log_exclusive w r log \<and> log_within w cap r log"

lemma tracked_inv_exclusive:
  assumes "tracked_inv rx w cap self c"
  shows "log_exclusive w (tr_resource_name self) (received rx (tc_probe c))"
proof -
  have inv: "slots_inv w cap self (tc_slots c)"
    and op: "offers w m \<Longrightarrow> open_in w m (tr_resource_name self) I (received rx (tc_probe c)) = int (card (live m I (tc_slots c)))" for m I
    using assms by (simp_all add: tracked_inv_def log_inv_def)
  have "m = Exclusive \<and> j = i \<and> card (live Exclusive UNIV (tc_slots c)) = 1"
    if nonempty: "0 < card (live Exclusive {i} (tc_slots c))" "0 < card (live m {j} (tc_slots c))" for m i j
  proof -
    obtain k g k' g' where k: "tc_slots c k = Some (Live g Exclusive)" "tg_thread_id g = i"
      and k': "tc_slots c k' = Some (Live g' m)" "tg_thread_id g' = j"
      using nonempty by (auto simp: card_gt_0_iff live_def)
    have only: "k = k''" if "k'' \<in> holders (tc_slots c)" for k''
      by (rule slots_invD(6) [OF inv k(1) _ that]) simp
    then have "k = k'" using k'(1) by (force simp: holders_def)
    moreover have "live Exclusive UNIV (tc_slots c) = {k}" using k(1) only by (fastforce simp: live_def holders_def)
    ultimately show ?thesis using k k' by simp
  qed
  then show ?thesis unfolding log_exclusive_def using op by (metis of_nat_0_less_iff of_nat_1)
qed

lemma tracked_inv_log_ok:
  assumes "tracked_inv rx w cap self c"
  shows "log_ok w cap (tr_resource_name self) (received rx (tc_probe c))"
proof -
  have inv: "slots_inv w cap self (tc_slots c)"
    and op: "offers w m \<Longrightarrow> open_in w m (tr_resource_name self) I (received rx (tc_probe c)) = int (card (live m I (tc_slots c)))" for m I
    using assms by (simp_all add: tracked_inv_def log_inv_def)
  have "card (live Shared UNIV (tc_slots c)) \<le> n" if "w = WSemaphore" "cap = Some n" for n
  proof -
    have "live Shared UNIV (tc_slots c) \<subseteq> holders (tc_slots c)" by (force simp: live_def holders_def)
    from card_mono [OF slots_invD(2) [OF inv] this] slots_invD(7) [OF inv that] show ?thesis by simp
  qed
  then have "log_within w cap (tr_resource_name self) (received rx (tc_probe c))"
    using op by (auto simp: log_within_def offers_def)
  with tracked_inv_exclusive [OF assms] show ?thesis by (simp add: log_ok_def)
qed

lemma tracked_step_log:
  assumes "tracked_step w cap self c c'" "tracked_inv rx w cap self c"
  shows "received rx (tc_probe c') = received rx (tc_probe c) \<or> (\<exists>e. received rx (tc_probe c') = received rx (tc_probe c) @ [e])"
proof -
  have l: "listening rx (tc_probe c)" using assms(2) by (simp add: tracked_inv_def log_inv_def)
  from assms(1) show ?thesis
    by cases (simp_all add: listening_emit(2) [OF l] listening_current(2) [OF l] tracked_release_eq tracked_acquire_eq)
qed

lemma open_in_absent:
  assumes "\<forall>e\<in>set log. resource_name e \<noteq> Some r"
  shows "open_in w m r I log = 0"
proof -
  have "e \<notin> acquired_event w m r ` I" "e \<notin> released_event w m r ` I" if "e \<in> set log" for e
    using assms that event_apart(4,5) by fastforce+
  then have "filter (\<lambda>e. e \<in> acquired_event w m r ` I) log = []" "filter (\<lambda>e. e \<in> released_event w m r ` I) log = []"
    by (simp_all add: filter_empty_conv)
  then show ?thesis unfolding open_in_def by (simp only: list.size of_nat_0 diff_self)
qed

lemma tracked_reach_ok:
  assumes "tracked_reach w cap self \<lparr>tc_probe = s, tc_slots = Map.empty, tc_poisoned = False\<rparr> c" "listening rx s"
    and "\<forall>e\<in>set (received rx s). resource_name e \<noteq> Some (tr_resource_name self)"
  shows "tracked_inv rx w cap self c \<and> (\<forall>n. log_ok w cap (tr_resource_name self) (take n (received rx (tc_probe c))))"
  using assms(1)
proof induction
  case start
  have "log_ok w cap (tr_resource_name self) (take n (received rx s))" for n
  proof -
    have "\<forall>e\<in>set (take n (received rx s)). resource_name e \<noteq> Some (tr_resource_name self)"
      using assms(3) by (meson in_set_takeD)
    from open_in_absent [OF this] show ?thesis by (simp add: log_ok_def log_exclusive_def log_within_def)
  qed
  moreover have "tracked_inv rx w cap self \<lparr>tc_probe = s, tc_slots = Map.empty, tc_poisoned = False\<rparr>"
    using assms(2) open_in_absent [OF assms(3)]
    by (simp add: tracked_inv_def slots_inv_def log_inv_def holders_def live_def)
  ultimately show ?case by simp
next
  case (more c c')
  then have inv: "tracked_inv rx w cap self c'" using tracked_step_inv by blast
  let ?l = "received rx (tc_probe c)" and ?l' = "received rx (tc_probe c')"
  have "log_ok w cap (tr_resource_name self) (take n ?l')" for n
  proof (cases "n < length ?l'")
    case True
    with tracked_step_log [OF more.hyps(2)] more.IH have "take n ?l' = take n ?l" by fastforce
    with more.IH show ?thesis by simp
  next
    case False
    with tracked_inv_log_ok [OF inv] show ?thesis by simp
  qed
  with inv show ?case by blast
qed

text \<open>(C21) The events of a tracked mutex, reader-writer lock or semaphore show who holds it. In every
  interleaving of acquisitions (including abandoned ones and ones that panic on a poisoned lock), releases on any
  thread, also by a thread other than the acquirer, and activity elsewhere in the process, at every
  moment and for every set of thread ids the acquisitions minus the releases in the log are exactly the live guards
  acquired under these ids. Every prefix of the log respects the lock: an open exclusive hold is the only
  open hold, and a semaphore never shows more open permits than it has. So the order of events is an order of
  critical sections, because a guard reports its release before the inner lock is freed.\<close>

theorem tracked_log_shows_holders:
  fixes s :: "'j probe"
  assumes "tracked_reach w cap self \<lparr>tc_probe = s, tc_slots = Map.empty, tc_poisoned = False\<rparr> c" "listening rx s"
    and "\<forall>e\<in>set (received rx s). resource_name e \<noteq> Some (tr_resource_name self)"
  shows "(\<forall>m I. offers w m \<longrightarrow>
      open_in w m (tr_resource_name self) I (received rx (tc_probe c)) = int (card (live m I (tc_slots c))))
    \<and> (\<forall>n. log_exclusive w (tr_resource_name self) (take n (received rx (tc_probe c)))
        \<and> log_within w cap (tr_resource_name self) (take n (received rx (tc_probe c))))"
  using tracked_reach_ok [OF assms] unfolding tracked_inv_def log_inv_def log_ok_def by blast

text \<open>Thread 5 takes the mutex; the guard is dropped on thread 9.\<close>

definition demo_probe :: "unit probe" where
  "demo_probe = probe_init\<lparr>CAPTURE_LOCK := True, channels := [\<lparr>cn_received = [], cn_alive = True\<rparr>],
     SESSION_SENDER := Some (Some 0)\<rparr>"

lemma tracked_demo:
  "\<exists>c. tracked_reach WMutex None (TrackedMutex_new ''m'')
      \<lparr>tc_probe = demo_probe, tc_slots = Map.empty, tc_poisoned = False\<rparr> c
     \<and> received 0 (tc_probe c) = [LockAcquired 0 ''m'', LockReleased 0 ''m'']"
proof -
  let ?self = "TrackedMutex_new ''m''" and ?c0 = "\<lparr>tc_probe = demo_probe, tc_slots = Map.empty, tc_poisoned = False\<rparr>"
  let ?g = "\<lparr>tg_resource_name = ''m'', tg_thread_id = 0\<rparr>"
  let ?s1 = "snd (current_thread_id 5 demo_probe)"
  let ?s2 = "emit 5 (LockAcquired 0 ''m'') ?s1"
  let ?s3 = "emit 9 (LockReleased 0 ''m'') ?s2"
  let ?R = "tracked_reach WMutex None ?self ?c0"
  let ?conf = "\<lambda>s sl. \<lparr>tc_probe = s, tc_slots = sl, tc_poisoned = False\<rparr>"
  have id: "current_thread_id 5 demo_probe = (0, ?s1)" by (simp add: current_thread_id_def demo_probe_def probe_init_def)
  have "tracked_step WMutex None ?self ?c0 (?conf ?s1 [0 \<mapsto> Waiting 5 Exclusive 0])"
    using tracked_step.request [of WMutex Exclusive ?c0 0 5 0 ?s1 None ?self] id by (simp add: offers_def)
  then have 1: "?R (?conf ?s1 [0 \<mapsto> Waiting 5 Exclusive 0])" by (rule tracked_reach.more [OF tracked_reach.start])
  have "tracked_step WMutex None ?self (?conf ?s1 [0 \<mapsto> Waiting 5 Exclusive 0]) (?conf ?s1 [0 \<mapsto> Granted 5 Exclusive 0])"
    using tracked_step.grant [of "?conf ?s1 [0 \<mapsto> Waiting 5 Exclusive 0]" 0 5 Exclusive 0 None WMutex ?self]
    by (simp add: grantable_def holders_def)
  then have 2: "?R (?conf ?s1 [0 \<mapsto> Granted 5 Exclusive 0])" by (rule tracked_reach.more [OF 1])
  have "tracked_step WMutex None ?self (?conf ?s1 [0 \<mapsto> Granted 5 Exclusive 0]) (?conf ?s2 [0 \<mapsto> Live ?g Exclusive])"
    using tracked_step.acquired [of "?conf ?s1 [0 \<mapsto> Granted 5 Exclusive 0]" 0 5 Exclusive 0 WMutex ?self ?g ?s2 None]
    by (simp add: tracked_acquire_eq acquired_event_def TrackedMutex_new_def)
  then have 3: "?R (?conf ?s2 [0 \<mapsto> Live ?g Exclusive])" by (rule tracked_reach.more [OF 2])
  have "tracked_step WMutex None ?self (?conf ?s2 [0 \<mapsto> Live ?g Exclusive]) (?conf ?s3 [0 \<mapsto> Dropping Exclusive])"
    using tracked_step.release [of "?conf ?s2 [0 \<mapsto> Live ?g Exclusive]" 0 ?g Exclusive WMutex None ?self 9]
    by (simp add: tracked_release_eq released_event_def)
  then have "?R (?conf ?s3 [0 \<mapsto> Dropping Exclusive])" by (rule tracked_reach.more [OF 3])
  moreover have "received 0 ?s3 = [LockAcquired 0 ''m'', LockReleased 0 ''m'']"
    by (simp add: emit_def send_def current_thread_id_def demo_probe_def probe_init_def slot_sender_def Let_def)
  ultimately show ?thesis by fastforce
qed

theorem tracked_log_shows_holders_witness:
  "\<exists>c. received 0 (tc_probe c) = [LockAcquired 0 ''m'', LockReleased 0 ''m'']
     \<and> open_in WMutex Exclusive ''m'' {0} (received 0 (tc_probe (c :: unit tracked_conf))) = int (card (live Exclusive {0} (tc_slots c)))
     \<and> log_exclusive WMutex ''m'' (take 1 (received 0 (tc_probe c)))"
proof -
  obtain c where c: "tracked_reach WMutex None (TrackedMutex_new ''m'')
      \<lparr>tc_probe = demo_probe, tc_slots = Map.empty, tc_poisoned = False\<rparr> c"
    "received 0 (tc_probe c) = [LockAcquired 0 ''m'', LockReleased 0 ''m'']" using tracked_demo by blast
  have start: "listening 0 demo_probe" "\<forall>e\<in>set (received 0 demo_probe). resource_name e \<noteq> Some (tr_resource_name (TrackedMutex_new ''m''))"
    by (simp_all add: demo_probe_def probe_init_def listening_def session_open_def slot_sender_def legacy_apart_def owns_def has_global_def)
  have "offers WMutex Exclusive" by (simp add: offers_def)
  with tracked_log_shows_holders [OF c(1) start] c(2) show ?thesis unfolding TrackedMutex_new_def tracked.simps by blast
qed

section \<open>Reentrant reads\<close>

text \<open>\<open>TrackedParkingLotRwLock\<close> allows a thread to read-lock twice. Its events are right, but the reference
  verifier keeps one entry per lock and drops it at the first release: below thread 0 still
  holds one of its two read guards on a when it takes b, thread 1 takes a for writing while it holds b, and the
  verdict is clean.\<close>

lemma reentrant_read_forgotten:
  "open_in WParkingLotRwLock Shared ''a'' {0}
     [RwLockReadAcquired 0 ''a'', RwLockReadAcquired 0 ''a'', RwLockReadReleased 0 ''a'' :: unit ProbeEvent] = 1
   \<and> vr_verdict (run_verification_from
       [RwLockReadAcquired 0 ''a'', RwLockReadAcquired 0 ''a'', RwLockReadReleased 0 ''a'', LockAcquired 0 ''b'',
        LockReleased 0 ''b'', RwLockReadReleased 0 ''a'', LockAcquired 1 ''b'', RwLockWriteAcquired 1 ''a'' :: unit ProbeEvent]
       target config) = Clean"
  by (simp add: run_verification_from_def find_lock_order_cycle_def lock_event_def closes_cycle_def open_in_def
      acquired_event_def released_event_def)

end
