(* ===== verification/RawEvents.thy ===== *)
theory RawEvents
  imports Prelude
begin

text \<open>
  The wire events of \<^verbatim>\<open>laplace-probe-common\<close>: the 128-byte \<open>RawProbeEvent\<close> (\<^verbatim>\<open>lib.rs\<close>), its decoder
  (\<^verbatim>\<open>decoder.rs\<close>) and the generators of synthetic traces (\<^verbatim>\<open>mock.rs\<close>).
\<close>

section \<open>Raw events\<close>

datatype ProbeEventType =
    TyNetRequest | TyNetResponse | TyLockAcquire | TyLockAcquired | TyLockRelease | TyLockContention
  | TySchedSwitch | TyThreadSpawn | TyThreadExit | TyConnOpen | TyConnClose
  | TyRwLockReadAcquire | TyRwLockReadRelease | TyRwLockWriteAcquire | TyRwLockWriteRelease
  | TyAtomicLoad | TyAtomicStore | TyAtomicRmw | TySemaphoreAcquire | TySemaphoreRelease
  | TyChannelSend | TyChannelRecv

text \<open>The discriminant, \<open>ty as u8\<close>.\<close>

definition event_code :: "ProbeEventType \<Rightarrow> u8" where
  "event_code ty =
     (case ty of TyNetRequest \<Rightarrow> 1 | TyNetResponse \<Rightarrow> 2 | TyLockAcquire \<Rightarrow> 3 | TyLockAcquired \<Rightarrow> 4 | TyLockRelease \<Rightarrow> 5
      | TyLockContention \<Rightarrow> 6 | TySchedSwitch \<Rightarrow> 7 | TyThreadSpawn \<Rightarrow> 8 | TyThreadExit \<Rightarrow> 9 | TyConnOpen \<Rightarrow> 10
      | TyConnClose \<Rightarrow> 11 | TyRwLockReadAcquire \<Rightarrow> 12 | TyRwLockReadRelease \<Rightarrow> 13 | TyRwLockWriteAcquire \<Rightarrow> 14
      | TyRwLockWriteRelease \<Rightarrow> 15 | TyAtomicLoad \<Rightarrow> 16 | TyAtomicStore \<Rightarrow> 17 | TyAtomicRmw \<Rightarrow> 18
      | TySemaphoreAcquire \<Rightarrow> 19 | TySemaphoreRelease \<Rightarrow> 20 | TyChannelSend \<Rightarrow> 21 | TyChannelRecv \<Rightarrow> 22)"

record RawProbeEvent =
  raw_timestamp_ns :: u64
  raw_tid :: u32
  raw_pid :: u32
  raw_event_type :: u8
  raw_l4_proto :: u8
  raw_status_code :: u16
  raw_pad0 :: u32
  raw_resource_id :: u64
  raw_peer_addr :: u64
  raw_peer_port :: u32
  raw_local_port :: u32
  raw_payload_hash :: u64
  raw_payload_len :: u32
  raw_operation_hash :: u32
  raw_latency_ns :: u64
  raw_pad1 :: u64
  raw_correlation_id :: u64
  raw_cpu_id :: u32
  raw_depth :: u32
  raw_comm :: "u8 list"
  raw_parent_tid :: u64
  raw_reserved :: u64

text \<open>\<open>comm\<close> is an array of 16 bytes.\<close>

definition well_formed_raw :: "RawProbeEvent \<Rightarrow> bool" where
  "well_formed_raw e \<longleftrightarrow> length (raw_comm e) = 16"

definition zeroed :: RawProbeEvent where
  "zeroed = \<lparr>raw_timestamp_ns = 0, raw_tid = 0, raw_pid = 0, raw_event_type = 0, raw_l4_proto = 0, raw_status_code = 0, raw_pad0 = 0, raw_resource_id = 0,
     raw_peer_addr = 0, raw_peer_port = 0, raw_local_port = 0, raw_payload_hash = 0, raw_payload_len = 0, raw_operation_hash = 0, raw_latency_ns = 0,
     raw_pad1 = 0, raw_correlation_id = 0, raw_cpu_id = 0, raw_depth = 0, raw_comm = replicate 16 0, raw_parent_tid = 0, raw_reserved = 0\<rparr>"

section \<open>Decoding\<close>

datatype DecodedProbeEvent =
    DeNetworkRequest u32 u64 u64 u32 u64 u32 u16 u64 u64 u32
  | DeNetworkResponse u32 u64 u64 u32 u64 u32 u16 u64
  | DeLockAcquire u32 u64 u64 u64
  | DeLockAcquired u32 u64 u64 u64
  | DeLockRelease u32 u64 u64
  | DeLockContention u32 u64 u64
  | DeSchedSwitch u32 u32 u64 u32
  | DeThreadSpawn u32 u32 u64
  | DeThreadExit u32 u64
  | DeConnOpen u32 u64 u64 u64 u32
  | DeConnClose u32 u64 u64
  | DeRwLockReadAcquire u32 u64 u64
  | DeRwLockReadRelease u32 u64 u64
  | DeRwLockWriteAcquire u32 u64 u64
  | DeRwLockWriteRelease u32 u64 u64
  | DeAtomicLoad u32 u64 u64
  | DeAtomicStore u32 u64 u64
  | DeAtomicRmw u32 u64 u64
  | DeSemaphoreAcquire u32 u64 u64
  | DeSemaphoreRelease u32 u64 u64
  | DeChannelSend u32 u64 u64
  | DeChannelRecv u32 u64 u64

definition parse_event_type :: "u8 \<Rightarrow> ProbeEventType option" where
  "parse_event_type raw =
     (if raw = 1 then Some TyNetRequest
      else if raw = 2 then Some TyNetResponse
      else if raw = 3 then Some TyLockAcquire
      else if raw = 4 then Some TyLockAcquired
      else if raw = 5 then Some TyLockRelease
      else if raw = 6 then Some TyLockContention
      else if raw = 7 then Some TySchedSwitch
      else if raw = 8 then Some TyThreadSpawn
      else if raw = 9 then Some TyThreadExit
      else if raw = 10 then Some TyConnOpen
      else if raw = 11 then Some TyConnClose
      else if raw = 12 then Some TyRwLockReadAcquire
      else if raw = 13 then Some TyRwLockReadRelease
      else if raw = 14 then Some TyRwLockWriteAcquire
      else if raw = 15 then Some TyRwLockWriteRelease
      else if raw = 16 then Some TyAtomicLoad
      else if raw = 17 then Some TyAtomicStore
      else if raw = 18 then Some TyAtomicRmw
      else if raw = 19 then Some TySemaphoreAcquire
      else if raw = 20 then Some TySemaphoreRelease
      else if raw = 21 then Some TyChannelSend
      else if raw = 22 then Some TyChannelRecv
      else None)"

text \<open>A cast to \<open>u32\<close> keeps the low 32 bits.\<close>

definition decode :: "RawProbeEvent \<Rightarrow> DecodedProbeEvent option" where
  "decode raw =
     (case parse_event_type (raw_event_type raw) of
        None \<Rightarrow> None
      | Some evt \<Rightarrow> Some (case evt of
            TyNetRequest \<Rightarrow> DeNetworkRequest (raw_tid raw) (raw_timestamp_ns raw) (raw_resource_id raw) (raw_operation_hash raw) (raw_payload_hash raw) (raw_payload_len raw) (raw_status_code raw) (raw_latency_ns raw) (raw_peer_addr raw) (raw_peer_port raw)
          | TyNetResponse \<Rightarrow> DeNetworkResponse (raw_tid raw) (raw_timestamp_ns raw) (raw_resource_id raw) (raw_operation_hash raw) (raw_payload_hash raw) (raw_payload_len raw) (raw_status_code raw) (raw_latency_ns raw)
          | TyLockAcquire \<Rightarrow> DeLockAcquire (raw_tid raw) (raw_timestamp_ns raw) (raw_resource_id raw) (raw_latency_ns raw)
          | TyLockAcquired \<Rightarrow> DeLockAcquired (raw_tid raw) (raw_timestamp_ns raw) (raw_resource_id raw) (raw_latency_ns raw)
          | TyLockRelease \<Rightarrow> DeLockRelease (raw_tid raw) (raw_timestamp_ns raw) (raw_resource_id raw)
          | TyLockContention \<Rightarrow> DeLockContention (raw_tid raw) (raw_timestamp_ns raw) (raw_resource_id raw)
          | TySchedSwitch \<Rightarrow> DeSchedSwitch (raw_tid raw) (ucast (raw_parent_tid raw)) (raw_timestamp_ns raw) (raw_cpu_id raw)
          | TyThreadSpawn \<Rightarrow> DeThreadSpawn (ucast (raw_parent_tid raw)) (raw_tid raw) (raw_timestamp_ns raw)
          | TyThreadExit \<Rightarrow> DeThreadExit (raw_tid raw) (raw_timestamp_ns raw)
          | TyConnOpen \<Rightarrow> DeConnOpen (raw_tid raw) (raw_timestamp_ns raw) (raw_resource_id raw) (raw_peer_addr raw) (raw_peer_port raw)
          | TyConnClose \<Rightarrow> DeConnClose (raw_tid raw) (raw_timestamp_ns raw) (raw_resource_id raw)
          | TyRwLockReadAcquire \<Rightarrow> DeRwLockReadAcquire (raw_tid raw) (raw_timestamp_ns raw) (raw_resource_id raw)
          | TyRwLockReadRelease \<Rightarrow> DeRwLockReadRelease (raw_tid raw) (raw_timestamp_ns raw) (raw_resource_id raw)
          | TyRwLockWriteAcquire \<Rightarrow> DeRwLockWriteAcquire (raw_tid raw) (raw_timestamp_ns raw) (raw_resource_id raw)
          | TyRwLockWriteRelease \<Rightarrow> DeRwLockWriteRelease (raw_tid raw) (raw_timestamp_ns raw) (raw_resource_id raw)
          | TyAtomicLoad \<Rightarrow> DeAtomicLoad (raw_tid raw) (raw_timestamp_ns raw) (raw_resource_id raw)
          | TyAtomicStore \<Rightarrow> DeAtomicStore (raw_tid raw) (raw_timestamp_ns raw) (raw_resource_id raw)
          | TyAtomicRmw \<Rightarrow> DeAtomicRmw (raw_tid raw) (raw_timestamp_ns raw) (raw_resource_id raw)
          | TySemaphoreAcquire \<Rightarrow> DeSemaphoreAcquire (raw_tid raw) (raw_timestamp_ns raw) (raw_resource_id raw)
          | TySemaphoreRelease \<Rightarrow> DeSemaphoreRelease (raw_tid raw) (raw_timestamp_ns raw) (raw_resource_id raw)
          | TyChannelSend \<Rightarrow> DeChannelSend (raw_tid raw) (raw_timestamp_ns raw) (raw_resource_id raw)
          | TyChannelRecv \<Rightarrow> DeChannelRecv (raw_tid raw) (raw_timestamp_ns raw) (raw_resource_id raw)))"

definition decode_batch :: "RawProbeEvent list \<Rightarrow> DecodedProbeEvent list" where
  "decode_batch events = List.map_filter decode events"

section \<open>Synthetic traces\<close>

definition MOCK_TID_A :: u32 where "MOCK_TID_A = 1001"

definition MOCK_TID_B :: u32 where "MOCK_TID_B = 1002"

definition MOCK_TID_C :: u32 where "MOCK_TID_C = 1003"

definition MOCK_LOCK_X :: u64 where "MOCK_LOCK_X = 0xFFFFDEADBEEF0000"

definition MOCK_LOCK_Y :: u64 where "MOCK_LOCK_Y = 0xFFFFDEADBEEF0008"

definition BASE_CLOCK_NS :: u64 where "BASE_CLOCK_NS = 1000000000"

record MockProbeSource =
  mock_seed :: u64

definition MockProbeSource_new :: "u64 \<Rightarrow> MockProbeSource" where
  "MockProbeSource_new seed = \<lparr>mock_seed = seed\<rparr>"

definition MockProbeSource_default_seed :: MockProbeSource where
  "MockProbeSource_default_seed = MockProbeSource_new 0xCAFEBABE"

definition make_thread_spawn :: "u32 \<Rightarrow> u32 \<Rightarrow> u64 \<Rightarrow> RawProbeEvent" where
  "make_thread_spawn child_tid parent_tid ts = zeroed\<lparr>raw_event_type := event_code TyThreadSpawn, raw_tid := child_tid,
     raw_parent_tid := ucast parent_tid, raw_timestamp_ns := ts\<rparr>"

definition make_lock_acquire :: "u32 \<Rightarrow> u64 \<Rightarrow> u64 \<Rightarrow> u64 \<Rightarrow> RawProbeEvent" where
  "make_lock_acquire tid mutex_addr latency_ns ts = zeroed\<lparr>raw_event_type := event_code TyLockAcquire, raw_tid := tid,
     raw_resource_id := mutex_addr, raw_latency_ns := latency_ns, raw_timestamp_ns := ts\<rparr>"

definition make_lock_acquired :: "u32 \<Rightarrow> u64 \<Rightarrow> u64 \<Rightarrow> u64 \<Rightarrow> RawProbeEvent" where
  "make_lock_acquired tid mutex_addr contention_ns ts = zeroed\<lparr>raw_event_type := event_code TyLockAcquired, raw_tid := tid,
     raw_resource_id := mutex_addr, raw_latency_ns := contention_ns, raw_timestamp_ns := ts\<rparr>"

definition make_lock_release :: "u32 \<Rightarrow> u64 \<Rightarrow> u64 \<Rightarrow> RawProbeEvent" where
  "make_lock_release tid mutex_addr ts = zeroed\<lparr>raw_event_type := event_code TyLockRelease, raw_tid := tid,
     raw_resource_id := mutex_addr, raw_timestamp_ns := ts\<rparr>"

definition make_lock_contention :: "u32 \<Rightarrow> u64 \<Rightarrow> u64 \<Rightarrow> RawProbeEvent" where
  "make_lock_contention tid mutex_addr ts = zeroed\<lparr>raw_event_type := event_code TyLockContention, raw_tid := tid,
     raw_resource_id := mutex_addr, raw_timestamp_ns := ts\<rparr>"

definition make_sched_switch :: "u32 \<Rightarrow> u32 \<Rightarrow> u32 \<Rightarrow> u64 \<Rightarrow> RawProbeEvent" where
  "make_sched_switch prev_tid next_tid cpu_id ts = zeroed\<lparr>raw_event_type := event_code TySchedSwitch, raw_tid := prev_tid,
     raw_parent_tid := ucast next_tid, raw_cpu_id := cpu_id, raw_timestamp_ns := ts\<rparr>"

text \<open>\<open>events.push(mk(.., ts)); ts += d;\<close> for each entry in turn.\<close>

fun pushes :: "((u64 \<Rightarrow> RawProbeEvent) \<times> u64) list \<Rightarrow> u64 \<Rightarrow> RawProbeEvent list" where
  "pushes [] ts = []"
| "pushes ((mk, d) # script) ts = mk ts # pushes script (ts + d)"

definition start_ts :: "MockProbeSource \<Rightarrow> u64" where
  "start_ts self = BASE_CLOCK_NS + mock_seed self mod 1000000"

definition generate_clean_uncontested :: "MockProbeSource \<Rightarrow> RawProbeEvent list" where
  "generate_clean_uncontested self = pushes
     [(make_thread_spawn MOCK_TID_A 0, 100), (make_lock_acquire MOCK_TID_A MOCK_LOCK_X 0, 100),
      (make_lock_acquired MOCK_TID_A MOCK_LOCK_X 0, 100), (make_lock_release MOCK_TID_A MOCK_LOCK_X, 0)] (start_ts self)"

definition generate_ab_ba_deadlock :: "MockProbeSource \<Rightarrow> RawProbeEvent list" where
  "generate_ab_ba_deadlock self = pushes
     [(make_thread_spawn MOCK_TID_A 0, 100), (make_thread_spawn MOCK_TID_B MOCK_TID_A, 100),
      (make_lock_acquire MOCK_TID_A MOCK_LOCK_X 0, 50), (make_lock_acquired MOCK_TID_A MOCK_LOCK_X 0, 50),
      (make_lock_acquire MOCK_TID_B MOCK_LOCK_Y 0, 50), (make_lock_acquired MOCK_TID_B MOCK_LOCK_Y 0, 50),
      (make_lock_acquire MOCK_TID_A MOCK_LOCK_Y 0, 100), (make_lock_contention MOCK_TID_A MOCK_LOCK_Y, 100),
      (make_lock_acquire MOCK_TID_B MOCK_LOCK_X 0, 100), (make_lock_contention MOCK_TID_B MOCK_LOCK_X, 100),
      (make_sched_switch MOCK_TID_A MOCK_TID_B 0, 100), (make_sched_switch MOCK_TID_B MOCK_TID_A 0, 0)] (start_ts self)"

definition generate_data_race :: "MockProbeSource \<Rightarrow> RawProbeEvent list" where
  "generate_data_race self = pushes
     [(make_thread_spawn MOCK_TID_A 0, 100), (make_thread_spawn MOCK_TID_B MOCK_TID_A, 100),
      (make_lock_acquire MOCK_TID_A MOCK_LOCK_X 0, 50), (make_lock_acquired MOCK_TID_A MOCK_LOCK_X 0, 50),
      (make_lock_acquire MOCK_TID_B MOCK_LOCK_X 0, 100), (make_lock_contention MOCK_TID_B MOCK_LOCK_X, 100),
      (make_lock_acquire MOCK_TID_A MOCK_LOCK_X 0, 100), (make_lock_contention MOCK_TID_A MOCK_LOCK_X, 100),
      (make_sched_switch MOCK_TID_A MOCK_TID_B 0, 100), (make_sched_switch MOCK_TID_B MOCK_TID_A 0, 0)] (start_ts self)"

definition starvation_cycle :: "((u64 \<Rightarrow> RawProbeEvent) \<times> u64) list" where
  "starvation_cycle =
     [(make_lock_release MOCK_TID_A MOCK_LOCK_X, 50), (make_lock_acquire MOCK_TID_A MOCK_LOCK_X 0, 50),
      (make_lock_acquired MOCK_TID_A MOCK_LOCK_X 0, 50), (make_lock_contention MOCK_TID_B MOCK_LOCK_X, 50)]"

definition generate_livelock_starvation :: "MockProbeSource \<Rightarrow> RawProbeEvent list" where
  "generate_livelock_starvation self = pushes
     ([(make_thread_spawn MOCK_TID_A 0, 100), (make_thread_spawn MOCK_TID_B MOCK_TID_A, 100),
       (make_lock_acquire MOCK_TID_A MOCK_LOCK_X 0, 50), (make_lock_acquired MOCK_TID_A MOCK_LOCK_X 0, 50),
       (make_lock_acquire MOCK_TID_B MOCK_LOCK_X 0, 50), (make_lock_contention MOCK_TID_B MOCK_LOCK_X, 50)]
      @ concat (replicate 12 starvation_cycle)) (start_ts self)"

section \<open>The decoder is exact\<close>

definition decoded_type :: "DecodedProbeEvent \<Rightarrow> ProbeEventType" where
  "decoded_type d =
     (case d of DeNetworkRequest _ _ _ _ _ _ _ _ _ _ \<Rightarrow> TyNetRequest | DeNetworkResponse _ _ _ _ _ _ _ _ \<Rightarrow> TyNetResponse
      | DeLockAcquire _ _ _ _ \<Rightarrow> TyLockAcquire | DeLockAcquired _ _ _ _ \<Rightarrow> TyLockAcquired | DeLockRelease _ _ _ \<Rightarrow> TyLockRelease
      | DeLockContention _ _ _ \<Rightarrow> TyLockContention | DeSchedSwitch _ _ _ _ \<Rightarrow> TySchedSwitch | DeThreadSpawn _ _ _ \<Rightarrow> TyThreadSpawn
      | DeThreadExit _ _ \<Rightarrow> TyThreadExit | DeConnOpen _ _ _ _ _ \<Rightarrow> TyConnOpen | DeConnClose _ _ _ \<Rightarrow> TyConnClose
      | DeRwLockReadAcquire _ _ _ \<Rightarrow> TyRwLockReadAcquire | DeRwLockReadRelease _ _ _ \<Rightarrow> TyRwLockReadRelease
      | DeRwLockWriteAcquire _ _ _ \<Rightarrow> TyRwLockWriteAcquire | DeRwLockWriteRelease _ _ _ \<Rightarrow> TyRwLockWriteRelease
      | DeAtomicLoad _ _ _ \<Rightarrow> TyAtomicLoad | DeAtomicStore _ _ _ \<Rightarrow> TyAtomicStore | DeAtomicRmw _ _ _ \<Rightarrow> TyAtomicRmw
      | DeSemaphoreAcquire _ _ _ \<Rightarrow> TySemaphoreAcquire | DeSemaphoreRelease _ _ _ \<Rightarrow> TySemaphoreRelease
      | DeChannelSend _ _ _ \<Rightarrow> TyChannelSend | DeChannelRecv _ _ _ \<Rightarrow> TyChannelRecv)"

lemma parse_event_code: "parse_event_type (event_code ty) = Some ty"
  by (cases ty) (simp_all add: parse_event_type_def event_code_def)

lemma parse_event_type_Some: "parse_event_type raw = Some ty \<longleftrightarrow> raw = event_code ty"
proof
  assume "parse_event_type raw = Some ty"
  then show "raw = event_code ty" unfolding parse_event_type_def by (auto simp: event_code_def split: if_splits)
qed (simp add: parse_event_code)

text \<open>A raw event with the fields of a decoded one and zeros elsewhere.\<close>

definition encode :: "DecodedProbeEvent \<Rightarrow> RawProbeEvent" where
  "encode d = (case d of
         DeNetworkRequest t ts r oh ph pl st l pa pp \<Rightarrow> zeroed\<lparr>raw_tid := t, raw_timestamp_ns := ts, raw_resource_id := r, raw_operation_hash := oh, raw_payload_hash := ph, raw_payload_len := pl, raw_status_code := st, raw_latency_ns := l, raw_peer_addr := pa, raw_peer_port := pp\<rparr>
       | DeNetworkResponse t ts r oh ph pl st l \<Rightarrow> zeroed\<lparr>raw_tid := t, raw_timestamp_ns := ts, raw_resource_id := r, raw_operation_hash := oh, raw_payload_hash := ph, raw_payload_len := pl, raw_status_code := st, raw_latency_ns := l\<rparr>
       | DeLockAcquire t ts r l \<Rightarrow> zeroed\<lparr>raw_tid := t, raw_timestamp_ns := ts, raw_resource_id := r, raw_latency_ns := l\<rparr>
       | DeLockAcquired t ts r l \<Rightarrow> zeroed\<lparr>raw_tid := t, raw_timestamp_ns := ts, raw_resource_id := r, raw_latency_ns := l\<rparr>
       | DeLockRelease t ts r \<Rightarrow> zeroed\<lparr>raw_tid := t, raw_timestamp_ns := ts, raw_resource_id := r\<rparr>
       | DeLockContention t ts r \<Rightarrow> zeroed\<lparr>raw_tid := t, raw_timestamp_ns := ts, raw_resource_id := r\<rparr>
       | DeSchedSwitch t q ts c \<Rightarrow> zeroed\<lparr>raw_tid := t, raw_parent_tid := ucast q, raw_timestamp_ns := ts, raw_cpu_id := c\<rparr>
       | DeThreadSpawn q t ts \<Rightarrow> zeroed\<lparr>raw_parent_tid := ucast q, raw_tid := t, raw_timestamp_ns := ts\<rparr>
       | DeThreadExit t ts \<Rightarrow> zeroed\<lparr>raw_tid := t, raw_timestamp_ns := ts\<rparr>
       | DeConnOpen t ts r pa pp \<Rightarrow> zeroed\<lparr>raw_tid := t, raw_timestamp_ns := ts, raw_resource_id := r, raw_peer_addr := pa, raw_peer_port := pp\<rparr>
       | DeConnClose t ts r \<Rightarrow> zeroed\<lparr>raw_tid := t, raw_timestamp_ns := ts, raw_resource_id := r\<rparr>
       | DeRwLockReadAcquire t ts r \<Rightarrow> zeroed\<lparr>raw_tid := t, raw_timestamp_ns := ts, raw_resource_id := r\<rparr>
       | DeRwLockReadRelease t ts r \<Rightarrow> zeroed\<lparr>raw_tid := t, raw_timestamp_ns := ts, raw_resource_id := r\<rparr>
       | DeRwLockWriteAcquire t ts r \<Rightarrow> zeroed\<lparr>raw_tid := t, raw_timestamp_ns := ts, raw_resource_id := r\<rparr>
       | DeRwLockWriteRelease t ts r \<Rightarrow> zeroed\<lparr>raw_tid := t, raw_timestamp_ns := ts, raw_resource_id := r\<rparr>
       | DeAtomicLoad t ts r \<Rightarrow> zeroed\<lparr>raw_tid := t, raw_timestamp_ns := ts, raw_resource_id := r\<rparr>
       | DeAtomicStore t ts r \<Rightarrow> zeroed\<lparr>raw_tid := t, raw_timestamp_ns := ts, raw_resource_id := r\<rparr>
       | DeAtomicRmw t ts r \<Rightarrow> zeroed\<lparr>raw_tid := t, raw_timestamp_ns := ts, raw_resource_id := r\<rparr>
       | DeSemaphoreAcquire t ts r \<Rightarrow> zeroed\<lparr>raw_tid := t, raw_timestamp_ns := ts, raw_resource_id := r\<rparr>
       | DeSemaphoreRelease t ts r \<Rightarrow> zeroed\<lparr>raw_tid := t, raw_timestamp_ns := ts, raw_resource_id := r\<rparr>
       | DeChannelSend t ts r \<Rightarrow> zeroed\<lparr>raw_tid := t, raw_timestamp_ns := ts, raw_resource_id := r\<rparr>
       | DeChannelRecv t ts r \<Rightarrow> zeroed\<lparr>raw_tid := t, raw_timestamp_ns := ts, raw_resource_id := r\<rparr>)\<lparr>raw_event_type := event_code (decoded_type d)\<rparr>"


lemma parse_event_type_None: "parse_event_type raw = None \<longleftrightarrow> raw = 0 \<or> 22 < raw"
proof
  assume none: "parse_event_type raw = None"
  show "raw = 0 \<or> 22 < raw"
  proof (rule ccontr)
    assume "\<not> (raw = 0 \<or> 22 < raw)"
    then have "unat raw \<in> {1..22}" by (auto simp: word_unat_eq_iff word_less_nat_alt word_le_nat_alt)
    also have "{1..22} = set [1..<23 :: nat]" by auto
    finally have "unat raw \<in> set [1..<23]" .
    moreover have "raw = of_nat (unat raw)" by simp
    ultimately obtain n where n: "n \<in> set [1..<23 :: nat]" "raw = of_nat n" by blast
    with none show False by (auto simp: upt_conv_Cons parse_event_type_def)
  qed
qed (auto simp: parse_event_type_def)

lemma ucast_up_down: "ucast (ucast (x :: u32) :: u64) = x"
  by (rule bit_word_eqI) (simp add: bit_unsigned_iff)

lemma decode_encode: "decode (encode d) = Some d"
proof -
  have "raw_event_type (encode d) = event_code (decoded_type d)" by (simp add: encode_def)
  then have "parse_event_type (raw_event_type (encode d)) = Some (decoded_type d)" by (simp add: parse_event_code)
  then show ?thesis by (cases d) (simp_all add: decode_def encode_def decoded_type_def ucast_up_down)
qed

lemma decoded_type_decode: "decode raw = Some d \<Longrightarrow> raw_event_type raw = event_code (decoded_type d)"
proof -
  assume d: "decode raw = Some d"
  then obtain ty where ty: "parse_event_type (raw_event_type raw) = Some ty" by (auto simp: decode_def split: option.splits)
  with d have "decoded_type d = ty" by (cases ty) (auto simp: decode_def decoded_type_def)
  with ty show ?thesis by (simp add: parse_event_type_Some)
qed


lemma decode_None: "decode raw = None \<longleftrightarrow> raw_event_type raw = 0 \<or> 22 < raw_event_type raw"
  using parse_event_type_None [of "raw_event_type raw"] by (cases "parse_event_type (raw_event_type raw)") (simp_all add: decode_def)

text \<open>(C31) The decoder is total on the 22 event types and rejects the rest. An event decodes to nothing exactly when
  its type byte is not between 1 and 22; otherwise the variant is the one of the type byte. Every
  decoded event is the decoding of some raw event, so no field of a variant is fixed or swapped, and a batch
  decodes to the decodings of its known events in their order.\<close>

theorem decoder_exact:
  "(decode raw = None \<longleftrightarrow> raw_event_type raw = 0 \<or> 22 < raw_event_type raw)
   \<and> (decode raw = Some d \<longrightarrow> raw_event_type raw = event_code (decoded_type d))
   \<and> decode (encode d) = Some d
   \<and> decode_batch events = map (the \<circ> decode) (filter (\<lambda>e. raw_event_type e \<noteq> 0 \<and> raw_event_type e \<le> 22) events)"
proof -
  have known: "(raw_event_type e \<noteq> 0 \<and> raw_event_type e \<le> 22) \<longleftrightarrow> decode e \<noteq> None" for e
    by (auto simp: decode_None)
  have "decode_batch events = map (the \<circ> decode) (filter (\<lambda>e. raw_event_type e \<noteq> 0 \<and> raw_event_type e \<le> 22) events)"
    unfolding decode_batch_def List.map_filter_def known ..
  then show ?thesis using decode_None decoded_type_decode decode_encode by blast
qed

theorem decoder_exact_witness:
  "decode (encode (DeLockAcquire 42 500 0xDEADBEEF 1000)) = Some (DeLockAcquire 42 500 0xDEADBEEF 1000)
   \<and> raw_event_type (encode (DeLockAcquire 42 500 0xDEADBEEF 1000)) = 3"
proof -
  let ?d = "DeLockAcquire 42 500 0xDEADBEEF 1000"
  have "decode (encode ?d) = Some ?d" using decoder_exact [of "encode ?d" ?d "[]"] by blast
  moreover have "raw_event_type (encode ?d) = event_code (decoded_type ?d)"
    using decoder_exact [of "encode ?d" ?d "[]"] by blast
  ultimately show ?thesis by (simp add: decoded_type_def event_code_def)
qed

section \<open>The synthetic traces\<close>

text \<open>What a decoded trace says of the locks: the locks each thread holds and the lock it is waiting for.\<close>

type_synonym lock_picture = "(u32 \<Rightarrow> u64 set) \<times> (u32 \<Rightarrow> u64 option)"

fun picture_step :: "DecodedProbeEvent \<Rightarrow> lock_picture \<Rightarrow> lock_picture" where
  "picture_step (DeLockAcquire t ts x l) (held, waits) = (held, waits(t := Some x))"
| "picture_step (DeLockAcquired t ts x l) (held, waits) = (held(t := insert x (held t)), waits(t := None))"
| "picture_step (DeLockRelease t ts x) (held, waits) = (held(t := held t - {x}), waits)"
| "picture_step _ pic = pic"

definition picture :: "RawProbeEvent list \<Rightarrow> lock_picture" where
  "picture events = fold picture_step (decode_batch events) (\<lambda>_. {}, \<lambda>_. None)"

definition mock_event :: "(u64 \<Rightarrow> RawProbeEvent) \<Rightarrow> bool" where
  "mock_event mk \<longleftrightarrow> (\<forall>ts. raw_timestamp_ns (mk ts) = ts \<and> decode (mk ts) \<noteq> None \<and> well_formed_raw (mk ts))"

lemma mock_events [simp]:
  "mock_event (make_thread_spawn a b)" "mock_event (make_lock_acquire a x l)" "mock_event (make_lock_acquired a x l)"
  "mock_event (make_lock_release a x)" "mock_event (make_lock_contention a x)" "mock_event (make_sched_switch a b c)"
  by (simp_all add: mock_event_def make_thread_spawn_def make_lock_acquire_def make_lock_acquired_def make_lock_release_def
      make_lock_contention_def make_sched_switch_def decode_None event_code_def zeroed_def well_formed_raw_def)

lemma decode_mock:
  "decode (make_thread_spawn a b ts) = Some (DeThreadSpawn b a ts)"
  "decode (make_lock_acquire a x l ts) = Some (DeLockAcquire a ts x l)"
  "decode (make_lock_acquired a x l ts) = Some (DeLockAcquired a ts x l)"
  "decode (make_lock_release a x ts) = Some (DeLockRelease a ts x)"
  "decode (make_lock_contention a x ts) = Some (DeLockContention a ts x)"
  "decode (make_sched_switch a b c ts) = Some (DeSchedSwitch a b ts c)"
  by (simp_all add: decode_def make_thread_spawn_def make_lock_acquire_def make_lock_acquired_def make_lock_release_def
      make_lock_contention_def make_sched_switch_def parse_event_code ucast_up_down)

text \<open>A script whose clock advances at every push but possibly the last.\<close>

lemma pushes_ok:
  assumes "\<forall>(mk, d)\<in>set script. mock_event mk" "\<forall>(mk, d)\<in>set (butlast script). 0 < d"
    and "unat ts + (\<Sum>(mk, d)\<leftarrow>script. unat d) < 2 ^ 64"
  shows "sorted_wrt (<) (map raw_timestamp_ns (pushes script ts)) \<and> (\<forall>e\<in>set (pushes script ts). ts \<le> raw_timestamp_ns e)
    \<and> (\<forall>e\<in>set (pushes script ts). decode e \<noteq> None \<and> well_formed_raw e)"
  using assms
proof (induction script arbitrary: ts)
  case (Cons a script)
  obtain mk d where a: "a = (mk, d)" by (cases a)
  have mk: "raw_timestamp_ns (mk ts) = ts" "decode (mk ts) \<noteq> None" "well_formed_raw (mk ts)"
    using Cons.prems(1) a by (simp_all add: mock_event_def)
  show ?case
  proof (cases "script = []")
    case True
    with a mk show ?thesis by simp
  next
    case False
    have d: "0 < d" using Cons.prems(2) a False by simp
    have next_ts: "unat (ts + d) = unat ts + unat d" using Cons.prems(3) a by (simp add: unat_add_lem [THEN iffD1])
    have IH: "sorted_wrt (<) (map raw_timestamp_ns (pushes script (ts + d)))"
      "\<forall>e\<in>set (pushes script (ts + d)). ts + d \<le> raw_timestamp_ns e"
      "\<forall>e\<in>set (pushes script (ts + d)). decode e \<noteq> None \<and> well_formed_raw e"
      using Cons.IH [of "ts + d"] Cons.prems False a next_ts by (simp_all add: add.assoc)
    have "ts < ts + d" using d next_ts by (simp add: word_less_nat_alt)
    with IH(2) have "\<forall>e\<in>set (pushes script (ts + d)). ts < raw_timestamp_ns e" by fastforce
    with IH mk a show ?thesis by (auto simp: less_imp_le)
  qed
qed simp

lemma start_ts_bound: "unat (start_ts self) < 1001000000"
proof -
  have m: "unat (mock_seed self mod 1000000) < 1000000" by (simp add: unat_mod)
  then have "unat (BASE_CLOCK_NS + mock_seed self mod 1000000) = 1000000000 + unat (mock_seed self mod 1000000)"
    by (subst unat_add_lem [THEN iffD1]) (simp_all add: BASE_CLOCK_NS_def)
  with m show ?thesis by (simp add: start_ts_def)
qed

lemma scenario_ok:
  assumes "tr = pushes script (start_ts self)" "\<forall>(mk, d)\<in>set script. mock_event mk" "\<forall>(mk, d)\<in>set (butlast script). 0 < d"
    and "(\<Sum>(mk, d)\<leftarrow>script. unat d) < 1000000"
  shows "sorted_wrt (<) (map raw_timestamp_ns tr) \<and> (\<forall>e\<in>set tr. decode e \<noteq> None)"
proof -
  have "unat (start_ts self) + (\<Sum>(mk, d)\<leftarrow>script. unat d) < 2 ^ 64" using start_ts_bound [of self] assms(4) by simp
  from pushes_ok [OF assms(2,3) this] show ?thesis unfolding assms(1) by blast
qed

lemma decode_batch_simps [simp]:
  "decode_batch [] = []"
  "decode_batch (e # es) = (case decode e of None \<Rightarrow> [] | Some d \<Rightarrow> [d]) @ decode_batch es"
  "decode_batch (xs @ ys) = decode_batch xs @ decode_batch ys"
  by (simp_all add: decode_batch_def List.map_filter_def split: option.split)

lemma pushes_append: "\<exists>ts'. pushes (xs @ ys) ts = pushes xs ts @ pushes ys ts'"
  by (induction xs arbitrary: ts) auto

text \<open>One round of the starvation loop leaves the picture as it is: A has the lock, B waits.\<close>

definition starving :: lock_picture where
  "starving = ((\<lambda>_. {})(MOCK_TID_A := {MOCK_LOCK_X}), [MOCK_TID_B \<mapsto> MOCK_LOCK_X])"

lemma mock_tids: "MOCK_TID_A \<noteq> MOCK_TID_B" "MOCK_TID_B \<noteq> MOCK_TID_A"
  by (simp_all add: MOCK_TID_A_def MOCK_TID_B_def)

lemma starvation_round: "fold picture_step (decode_batch (pushes starvation_cycle ts)) starving = starving"
  by (simp add: starvation_cycle_def starving_def decode_mock fun_eq_iff mock_tids)

lemma starvation_rounds: "fold picture_step (decode_batch (pushes (concat (replicate n starvation_cycle)) ts)) starving = starving"
proof (induction n arbitrary: ts)
  case (Suc n)
  obtain ts' where "pushes (starvation_cycle @ concat (replicate n starvation_cycle)) ts =
      pushes starvation_cycle ts @ pushes (concat (replicate n starvation_cycle)) ts'" using pushes_append by blast
  then show ?case by (simp add: starvation_round Suc.IH)
qed simp

lemma starvation_script:
  "\<forall>(mk, d)\<in>set (concat (replicate n starvation_cycle)). mock_event mk \<and> 0 < d"
  "(\<Sum>(mk, d)\<leftarrow>concat (replicate n starvation_cycle). unat d) = 200 * n"
  by (induction n) (simp_all add: starvation_cycle_def)

lemma starvation_ordered:
  assumes "\<forall>(mk, d)\<in>set cyc. mock_event mk \<and> 0 < d" "(\<Sum>(mk, d)\<leftarrow>cyc. unat d) < 900000"
  shows "sorted_wrt (<) (map raw_timestamp_ns (pushes
      ([(make_thread_spawn MOCK_TID_A 0, 100), (make_thread_spawn MOCK_TID_B MOCK_TID_A, 100),
        (make_lock_acquire MOCK_TID_A MOCK_LOCK_X 0, 50), (make_lock_acquired MOCK_TID_A MOCK_LOCK_X 0, 50),
        (make_lock_acquire MOCK_TID_B MOCK_LOCK_X 0, 50), (make_lock_contention MOCK_TID_B MOCK_LOCK_X, 50)] @ cyc) (start_ts self)))
    \<and> (\<forall>e\<in>set (pushes
      ([(make_thread_spawn MOCK_TID_A 0, 100), (make_thread_spawn MOCK_TID_B MOCK_TID_A, 100),
        (make_lock_acquire MOCK_TID_A MOCK_LOCK_X 0, 50), (make_lock_acquired MOCK_TID_A MOCK_LOCK_X 0, 50),
        (make_lock_acquire MOCK_TID_B MOCK_LOCK_X 0, 50), (make_lock_contention MOCK_TID_B MOCK_LOCK_X, 50)] @ cyc) (start_ts self)).
        decode e \<noteq> None)" (is "?ok (pushes (?pre @ cyc) (start_ts self))")
proof (rule scenario_ok [OF refl])
  have ok: "mock_event mk \<and> 0 < d" if "(mk, d) \<in> set (?pre @ cyc)" for mk d using that assms(1) by auto
  show "\<forall>(mk, d)\<in>set (?pre @ cyc). mock_event mk" by (clarify, drule ok, rule conjunct1)
  show "\<forall>(mk, d)\<in>set (butlast (?pre @ cyc)). 0 < d" by (clarify, drule in_set_butlastD, drule ok, rule conjunct2)
  show "(\<Sum>(mk, d)\<leftarrow>?pre @ cyc. unat d) < 1000000" using assms(2) by simp
qed

lemmas scenario_defs = generate_clean_uncontested_def generate_ab_ba_deadlock_def generate_data_race_def
  generate_livelock_starvation_def

lemma scenarios_ordered:
  "tr \<in> {generate_clean_uncontested self, generate_ab_ba_deadlock self, generate_data_race self, generate_livelock_starvation self}
   \<Longrightarrow> sorted_wrt (<) (map raw_timestamp_ns tr) \<and> (\<forall>e\<in>set tr. decode e \<noteq> None)"
proof (elim insertE emptyE)
  show "tr = generate_clean_uncontested self \<Longrightarrow> ?thesis" by (rule scenario_ok, rule trans, assumption, rule scenario_defs(1)) simp_all
  show "tr = generate_ab_ba_deadlock self \<Longrightarrow> ?thesis" by (rule scenario_ok, rule trans, assumption, rule scenario_defs(2)) simp_all
  show "tr = generate_data_race self \<Longrightarrow> ?thesis" by (rule scenario_ok, rule trans, assumption, rule scenario_defs(3)) simp_all
  assume tr: "tr = generate_livelock_starvation self"
  show ?thesis unfolding tr generate_livelock_starvation_def
    by (rule starvation_ordered [OF starvation_script(1)]) (simp only: starvation_script(2))
qed

text \<open>The generated traces show the scenarios their names promise, for every seed: timestamps strictly increase and
  every event decodes; the deadlock trace ends with each thread holding the lock the other waits for, the
  race trace with a thread waiting for the lock it holds and the other waiting for it too, the
  clean trace with nothing held or awaited, and the starvation trace with the second thread still waiting after the
  first acquired the lock thirteen times.\<close>

theorem mock_scenarios:
  "(\<forall>tr\<in>{generate_clean_uncontested self, generate_ab_ba_deadlock self, generate_data_race self, generate_livelock_starvation self}.
      sorted_wrt (<) (map raw_timestamp_ns tr) \<and> (\<forall>e\<in>set tr. decode e \<noteq> None))
   \<and> picture (generate_clean_uncontested self) = (\<lambda>_. {}, \<lambda>_. None)
   \<and> picture (generate_ab_ba_deadlock self) =
       ((\<lambda>_. {})(MOCK_TID_A := {MOCK_LOCK_X}, MOCK_TID_B := {MOCK_LOCK_Y}),
        [MOCK_TID_A \<mapsto> MOCK_LOCK_Y, MOCK_TID_B \<mapsto> MOCK_LOCK_X])
   \<and> picture (generate_data_race self) =
       ((\<lambda>_. {})(MOCK_TID_A := {MOCK_LOCK_X}), [MOCK_TID_A \<mapsto> MOCK_LOCK_X, MOCK_TID_B \<mapsto> MOCK_LOCK_X])
   \<and> picture (generate_livelock_starvation self) = ((\<lambda>_. {})(MOCK_TID_A := {MOCK_LOCK_X}), [MOCK_TID_B \<mapsto> MOCK_LOCK_X])"
proof -
  note eval = picture_def decode_mock fun_eq_iff mock_tids
  have "picture (generate_clean_uncontested self) = (\<lambda>_. {}, \<lambda>_. None)"
    by (simp add: generate_clean_uncontested_def eval)
  moreover have "picture (generate_ab_ba_deadlock self) =
       ((\<lambda>_. {})(MOCK_TID_A := {MOCK_LOCK_X}, MOCK_TID_B := {MOCK_LOCK_Y}),
        [MOCK_TID_A \<mapsto> MOCK_LOCK_Y, MOCK_TID_B \<mapsto> MOCK_LOCK_X])"
    by (simp add: generate_ab_ba_deadlock_def eval)
  moreover have "picture (generate_data_race self) =
       ((\<lambda>_. {})(MOCK_TID_A := {MOCK_LOCK_X}), [MOCK_TID_A \<mapsto> MOCK_LOCK_X, MOCK_TID_B \<mapsto> MOCK_LOCK_X])"
    by (simp add: generate_data_race_def eval)
  moreover have "picture (generate_livelock_starvation self) = starving"
  proof -
    let ?pre = "[(make_thread_spawn MOCK_TID_A 0, 100), (make_thread_spawn MOCK_TID_B MOCK_TID_A, 100),
       (make_lock_acquire MOCK_TID_A MOCK_LOCK_X 0, 50), (make_lock_acquired MOCK_TID_A MOCK_LOCK_X 0, 50),
       (make_lock_acquire MOCK_TID_B MOCK_LOCK_X 0, 50), (make_lock_contention MOCK_TID_B MOCK_LOCK_X, 50)]"
    obtain ts' where "pushes (?pre @ concat (replicate 12 starvation_cycle)) (start_ts self) =
        pushes ?pre (start_ts self) @ pushes (concat (replicate 12 starvation_cycle)) ts'" using pushes_append by blast
    moreover have "fold picture_step (decode_batch (pushes ?pre (start_ts self))) (\<lambda>_. {}, \<lambda>_. None) = starving"
      by (simp add: eval starving_def)
    ultimately show ?thesis
      unfolding picture_def generate_livelock_starvation_def
      by (simp only: decode_batch_simps(3) fold_append comp_apply starvation_rounds)
  qed
  ultimately show ?thesis unfolding starving_def using scenarios_ordered by blast
qed

end
