(* ===== verification/ProbeClient.thy ===== *)
theory ProbeClient
  imports ProbeSession RawEvents
begin

text \<open>
  The cloud transport of the probe: the projection of probe events into raw events (module \<open>cloud\<close> of
  \<^verbatim>\<open>laplace-probe-sdk/src/session.rs\<close>), the batching client of \<^verbatim>\<open>client.rs\<close> and the emission that forwards to it. When and how the sending of a frame
  returns is decided by the network: it is a step of the environment, which need not happen. The bytes of an event (\<open>bytemuck\<close>) are an argument.
\<close>

section \<open>Projection\<close>

definition u32_try_from :: "u64 \<Rightarrow> u32 option" where
  "u32_try_from v = (if unat v < 2 ^ 32 then Some (ucast v) else None)"

definition probe_event_to_raw :: "'j ProbeEvent \<Rightarrow> RawProbeEvent option" where
  "probe_event_to_raw event =
     (case event of
        LockAcquired tid resource \<Rightarrow>
          (case u32_try_from tid of None \<Rightarrow> None | Some v \<Rightarrow> Some (zeroed\<lparr>raw_event_type := 4, raw_tid := v\<rparr>))
      | LockReleased tid resource \<Rightarrow>
          (case u32_try_from tid of None \<Rightarrow> None | Some v \<Rightarrow> Some (zeroed\<lparr>raw_event_type := 5, raw_tid := v\<rparr>))
      | ThreadBlocked tid blocked_on \<Rightarrow>
          (case u32_try_from tid of None \<Rightarrow> None | Some v \<Rightarrow> Some (zeroed\<lparr>raw_event_type := 6, raw_tid := v\<rparr>))
      | _ \<Rightarrow> None)"

text \<open>The lock is not part of the raw event: acquiring any two locks gives the same one. The ids of
  dynamically spawned tasks do not fit into 32 bits, so what these tasks do is not sent at all.\<close>

lemma cloud_projection_loses:
  "probe_event_to_raw (LockAcquired i a :: 'j ProbeEvent) = probe_event_to_raw (LockAcquired i b :: 'k ProbeEvent)"
  "2 ^ 32 \<le> unat i \<Longrightarrow> probe_event_to_raw (LockAcquired i a :: 'j ProbeEvent) = None"
  by (simp_all add: probe_event_to_raw_def u32_try_from_def)

section \<open>Configuration\<close>

record ProbeClientConfig =
  pcc_edge_url :: string
  pcc_jwt :: string
  pcc_max_batch_size :: nat
  pcc_flush_interval_ms :: u64

text \<open>The two environment variables are arguments.\<close>

definition ProbeClientConfig_default :: "string option \<Rightarrow> string option \<Rightarrow> ProbeClientConfig" where
  "ProbeClientConfig_default LAPLACE_PROBE_EDGE_URL LAPLACE_JWT =
     \<lparr>pcc_edge_url = (case LAPLACE_PROBE_EDGE_URL of Some v \<Rightarrow> v | None \<Rightarrow> ''ws://localhost:8443/ws''),
      pcc_jwt = (case LAPLACE_JWT of Some v \<Rightarrow> v | None \<Rightarrow> []), pcc_max_batch_size = 32, pcc_flush_interval_ms = 100\<rparr>"

section \<open>The client\<close>

definition QUEUE_CAPACITY :: nat where
  "QUEUE_CAPACITY = 4096"

text \<open>The queue between the handles and the sender task, the sender's batch, whether the sender waits for \<open>send_batch\<close> to return, and the frames handed to a
  connection. The batches, each with the fact whether its frame was handed over, are recorded for the statements.\<close>

record client =
  cl_queue :: "RawProbeEvent list"
  cl_batch :: "RawProbeEvent list"
  cl_sending :: bool
  cl_frames :: "u8 list list"
  cl_batches :: "(bool \<times> RawProbeEvent list) list"

definition ProbeClient_connect :: client where
  "ProbeClient_connect = \<lparr>cl_queue = [], cl_batch = [], cl_sending = False, cl_frames = [], cl_batches = []\<rparr>"

text \<open>\<open>try_send\<close> fails on a full queue and the error is dropped.\<close>

definition ProbeClient_emit :: "RawProbeEvent \<Rightarrow> client \<Rightarrow> client" where
  "ProbeClient_emit event c = (if length (cl_queue c) < QUEUE_CAPACITY then c\<lparr>cl_queue := cl_queue c @ [event]\<rparr> else c)"

definition batch_payload :: "(RawProbeEvent \<Rightarrow> u8 list) \<Rightarrow> RawProbeEvent list \<Rightarrow> u8 list" where
  "batch_payload bytes batch = concat (map bytes batch)"

text \<open>How connecting, sending and closing can go once they return: an error before the frame is handed over, an error while closing, or success. Each batch has a connection of its own.\<close>

datatype send_outcome = NotSent | SentNotClosed | SentAndClosed

definition send_batch :: "(RawProbeEvent \<Rightarrow> u8 list) \<Rightarrow> send_outcome \<Rightarrow> RawProbeEvent list \<Rightarrow> u8 list list \<Rightarrow> bool \<times> u8 list list" where
  "send_batch bytes out batch frames =
     (case out of
        NotSent \<Rightarrow> (False, frames)
      | SentNotClosed \<Rightarrow> (False, frames @ [batch_payload bytes batch])
      | SentAndClosed \<Rightarrow> (True, frames @ [batch_payload bytes batch]))"

text \<open>The sender loop, with the select inside it as two steps: it takes the next event while the batch is not
  full, and it leaves the inner loop when the batch is full or the deadline fires, which can be at any time. An empty batch is not sent. Then it
  waits for \<open>send_batch\<close>.\<close>

inductive sender_step :: "ProbeClientConfig \<Rightarrow> client \<Rightarrow> client \<Rightarrow> bool" for config where
  take_event: "sender_step config c (c\<lparr>cl_queue := q, cl_batch := cl_batch c @ [ev]\<rparr>)"
    if "\<not> cl_sending c" "cl_queue c = ev # q" "cl_batch c = [] \<or> length (cl_batch c) < pcc_max_batch_size config"
| flush: "sender_step config c (c\<lparr>cl_sending := True\<rparr>)" if "\<not> cl_sending c" "cl_batch c \<noteq> []"

text \<open>The network lets the sending return; the batch is cleared whatever the outcome.\<close>

inductive send_returns :: "(RawProbeEvent \<Rightarrow> u8 list) \<Rightarrow> client \<Rightarrow> client \<Rightarrow> bool" for bytes where
  returns: "send_returns bytes c (c\<lparr>cl_sending := False, cl_batch := [], cl_frames := snd (send_batch bytes out (cl_batch c) (cl_frames c)),
      cl_batches := cl_batches c @ [(out \<noteq> NotSent, cl_batch c)]\<rparr>)" if "cl_sending c"

text \<open>The reachable states, with every emitted event and the number of events that were queued when it was emitted.\<close>

inductive client_reach :: "(RawProbeEvent \<Rightarrow> u8 list) \<Rightarrow> ProbeClientConfig \<Rightarrow> client \<Rightarrow> (nat \<times> RawProbeEvent) list \<Rightarrow> bool" for bytes config where
  start: "client_reach bytes config ProbeClient_connect []"
| emitted: "client_reach bytes config (ProbeClient_emit event c) (H @ [(length (cl_queue c), event)])" if "client_reach bytes config c H"
| sender: "client_reach bytes config c' H" if "client_reach bytes config c H" "sender_step config c c'"
| network: "client_reach bytes config c' H" if "client_reach bytes config c H" "send_returns bytes c c'"

section \<open>Emission in a build with the cloud feature\<close>

text \<open>The global client is set once; a second initialisation starts a sender whose handle is dropped.\<close>

definition init_cloud_probe :: "client option \<Rightarrow> client option" where
  "init_cloud_probe global_probe_client = (case global_probe_client of None \<Rightarrow> Some ProbeClient_connect | Some client \<Rightarrow> Some client)"

definition emit_cloud :: "os_thread \<Rightarrow> 'j ProbeEvent \<Rightarrow> 'j probe \<times> client option \<Rightarrow> 'j probe \<times> client option" where
  "emit_cloud t event = (\<lambda>(s, global_probe_client).
     (emit t event s,
      case global_probe_client of
        None \<Rightarrow> None
      | Some client \<Rightarrow> Some (case probe_event_to_raw event of None \<Rightarrow> client | Some raw \<Rightarrow> ProbeClient_emit raw client)))"

text \<open>The cloud transport changes nothing of what sinks and sessions receive, and it gets the projections of the emitted events, in order, also of events that no sink takes.\<close>

lemma cloud_is_a_tap:
  "fst (fold (\<lambda>(t, e). emit_cloud t e) es (s, g)) = fold (\<lambda>(t, e). emit t e) es s"
  "snd (fold (\<lambda>(t, e). emit_cloud t e) es (s, Some c)) = Some (fold ProbeClient_emit (List.map_filter (probe_event_to_raw \<circ> snd) es) c)"
proof -
  show "fst (fold (\<lambda>(t, e). emit_cloud t e) es (s, g)) = fold (\<lambda>(t, e). emit t e) es s"
    by (induction es arbitrary: s g) (auto simp: emit_cloud_def)
  show "snd (fold (\<lambda>(t, e). emit_cloud t e) es (s, Some c)) = Some (fold ProbeClient_emit (List.map_filter (probe_event_to_raw \<circ> snd) es) c)"
  proof (induction es arbitrary: s c)
    case (Cons x es)
    obtain t e where "x = (t, e)" by (cases x)
    with Cons show ?case by (cases "probe_event_to_raw e") (simp_all add: emit_cloud_def List.map_filter_def)
  qed (simp add: List.map_filter_def)
qed

section \<open>Delivery\<close>

text \<open>The events that found room in the queue.\<close>

definition accepted :: "(nat \<times> RawProbeEvent) list \<Rightarrow> RawProbeEvent list" where
  "accepted H = map snd (filter (\<lambda>x. fst x < QUEUE_CAPACITY) H)"

definition client_inv :: "(RawProbeEvent \<Rightarrow> u8 list) \<Rightarrow> ProbeClientConfig \<Rightarrow> client \<Rightarrow> (nat \<times> RawProbeEvent) list \<Rightarrow> bool" where
  "client_inv bytes config c H \<longleftrightarrow> concat (map snd (cl_batches c)) @ cl_batch c @ cl_queue c = accepted H
     \<and> length (cl_queue c) \<le> QUEUE_CAPACITY \<and> length (cl_batch c) \<le> max 1 (pcc_max_batch_size config) \<and> (cl_sending c \<longrightarrow> cl_batch c \<noteq> [])
     \<and> (\<forall>b\<in>set (cl_batches c). 1 \<le> length (snd b) \<and> length (snd b) \<le> max 1 (pcc_max_batch_size config))
     \<and> cl_frames c = map (batch_payload bytes \<circ> snd) (filter fst (cl_batches c))"

lemma client_reach_inv: "client_reach bytes config c H \<Longrightarrow> client_inv bytes config c H"
proof (induction rule: client_reach.induct)
  case start
  then show ?case by (simp add: client_inv_def ProbeClient_connect_def accepted_def)
next
  case (emitted c H event)
  then show ?case by (auto simp: client_inv_def ProbeClient_emit_def accepted_def)
next
  case (sender c H c')
  from sender.hyps(2) sender.IH show ?case by cases (auto simp: client_inv_def)
next
  case (network c H c')
  from network.hyps(2) network.IH show ?case
    by cases (auto simp: client_inv_def send_batch_def Suc_le_eq split: send_outcome.split)
qed

text \<open>(C30) Every emitted event is accounted for. Whatever is emitted, however the sender and the network interleave with it and whichever
  sends fail: the events that were emitted while fewer than 4096 were queued, in the order of their emission, are the events of the batches so far, then
  those of the current batch, then the queue. So an event is dropped at the queue exactly when it was full, and none is doubled or
  overtakes another. The frames handed over are the batches except those whose sending failed before the frame was handed over, in order, each frame
  with the bytes of its events in order. A batch has at least one and at most \<open>max_batch_size\<close> events (one, if that is 0); the queue never
  exceeds its capacity.\<close>

theorem client_delivers_in_order:
  assumes "client_reach bytes config c H"
  shows "concat (map snd (cl_batches c)) @ cl_batch c @ cl_queue c = map snd (filter (\<lambda>x. fst x < 4096) H)
    \<and> cl_frames c = map (\<lambda>b. concat (map bytes (snd b))) (filter fst (cl_batches c))
    \<and> (\<forall>b\<in>set (cl_batches c). 1 \<le> length (snd b) \<and> length (snd b) \<le> max 1 (pcc_max_batch_size config))
    \<and> length (cl_queue c) \<le> 4096"
  using client_reach_inv [OF assms] unfolding client_inv_def accepted_def QUEUE_CAPACITY_def
  by (simp add: batch_payload_def [abs_def] comp_def)

section \<open>Draining\<close>

definition sender_work :: "client \<Rightarrow> nat" where
  "sender_work c = 3 * length (cl_queue c) + (if cl_sending c then 1 else if cl_batch c = [] then 0 else 2)"

abbreviation sender_moves :: "(RawProbeEvent \<Rightarrow> u8 list) \<Rightarrow> ProbeClientConfig \<Rightarrow> client \<Rightarrow> client \<Rightarrow> bool" where
  "sender_moves bytes config c c' \<equiv> sender_step config c c' \<or> send_returns bytes c c'"

lemma sender_move_works: "sender_moves bytes config c c' \<Longrightarrow> sender_work c' < sender_work c"
  by (auto simp: sender_work_def elim!: sender_step.cases send_returns.cases)

lemma sender_idle:
  assumes "client_inv bytes config c H"
  shows "(\<forall>c'. \<not> sender_step config c c') \<longleftrightarrow> cl_sending c \<or> cl_queue c = [] \<and> cl_batch c = []"
proof
  assume stuck: "\<forall>c'. \<not> sender_step config c c'"
  show "cl_sending c \<or> cl_queue c = [] \<and> cl_batch c = []"
    using stuck sender_step.flush [of c config] sender_step.take_event [of c _ _ config] by (cases "cl_queue c") blast+
next
  assume "cl_sending c \<or> cl_queue c = [] \<and> cl_batch c = []"
  then show "\<forall>c'. \<not> sender_step config c c'" by (auto elim!: sender_step.cases)
qed

lemma sender_run:
  assumes "client_reach bytes config c H" "(sender_moves bytes config ^^ n) c c'"
  shows "client_reach bytes config c' H \<and> sender_work c' + n \<le> sender_work c"
  using assms(2)
proof (induction n arbitrary: c')
  case 0
  with assms(1) show ?case by simp
next
  case (Suc n)
  then obtain c1 where c1: "(sender_moves bytes config ^^ n) c c1" "sender_moves bytes config c1 c'" by auto
  from Suc.IH [OF c1(1)] sender_move_works [OF c1(2)] c1(2) show ?case
    by (auto intro: client_reach.sender client_reach.network)
qed

text \<open>(C32) The sender empties the queue as long as the network lets each send return. While nothing is emitted, sender and network together make at most three
  steps for each queued event, plus two. The sender itself cannot go on in exactly two cases: it waits for a send to return, or
  queue and batch are empty. So when neither can go on, every event that was ever accepted has been part of exactly one
  batch, in order. A send that never returns keeps the sender where it is: until it returns only the queue can change.\<close>

theorem sender_drains:
  assumes "client_reach bytes config c H" "(sender_moves bytes config ^^ n) c c'"
  shows "n \<le> 3 * length (cl_queue c) + 2
    \<and> ((\<forall>c''. \<not> sender_step config c' c'') \<longleftrightarrow> cl_sending c' \<or> cl_queue c' = [] \<and> cl_batch c' = [])
    \<and> ((\<forall>c''. \<not> sender_moves bytes config c' c'') \<longrightarrow>
        cl_queue c' = [] \<and> cl_batch c' = [] \<and> concat (map snd (cl_batches c')) = map snd (filter (\<lambda>x. fst x < 4096) H))
    \<and> (cl_sending c' \<longrightarrow> (fold ProbeClient_emit events c')\<lparr>cl_queue := cl_queue c'\<rparr> = c')"
proof -
  have run: "client_reach bytes config c' H" "sender_work c' + n \<le> sender_work c" using sender_run [OF assms] by auto
  note inv = client_reach_inv [OF run(1)]
  have "sender_work c \<le> 3 * length (cl_queue c) + 2" by (simp add: sender_work_def)
  moreover have "cl_queue c' = [] \<and> cl_batch c' = [] \<and> concat (map snd (cl_batches c')) = accepted H"
    if stuck: "\<forall>c''. \<not> sender_moves bytes config c' c''"
  proof -
    have "\<not> cl_sending c'" using stuck send_returns.returns by blast
    then show ?thesis using stuck sender_idle [OF inv] inv by (simp add: client_inv_def)
  qed
  moreover have "(fold ProbeClient_emit events c)\<lparr>cl_queue := q\<rparr> = c\<lparr>cl_queue := q\<rparr>" for q c
    by (induction events arbitrary: c) (simp_all add: ProbeClient_emit_def)
  ultimately show ?thesis using run(2) sender_idle [OF inv] by (simp add: accepted_def QUEUE_CAPACITY_def)
qed

section \<open>A run\<close>

text \<open>Two events, each in a batch of its own; the first send fails, the second succeeds. An event is its type byte here.\<close>

definition type_byte :: "RawProbeEvent \<Rightarrow> u8 list" where
  "type_byte e = [raw_event_type e]"

definition demo_client :: client where
  "demo_client = ProbeClient_emit (zeroed\<lparr>raw_event_type := 5\<rparr>) (ProbeClient_emit (zeroed\<lparr>raw_event_type := 4\<rparr>) ProbeClient_connect)"

lemma demo_queued: "client_reach type_byte (ProbeClientConfig_default None None) demo_client [(0, zeroed\<lparr>raw_event_type := 4\<rparr>), (1, zeroed\<lparr>raw_event_type := 5\<rparr>)]"
  using client_reach.emitted [OF client_reach.emitted [OF client_reach.start], of type_byte "ProbeClientConfig_default None None"
      "zeroed\<lparr>raw_event_type := 5\<rparr>" "zeroed\<lparr>raw_event_type := 4\<rparr>"]
  by (simp add: demo_client_def ProbeClient_emit_def ProbeClient_connect_def QUEUE_CAPACITY_def)

lemma demo_moves:
  "\<exists>c'. (sender_moves type_byte (ProbeClientConfig_default None None) ^^ 6) demo_client c' \<and> cl_queue c' = [] \<and> cl_batch c' = [] \<and> \<not> cl_sending c'
     \<and> cl_frames c' = [[5]] \<and> cl_batches c' = [(False, [zeroed\<lparr>raw_event_type := 4\<rparr>]), (True, [zeroed\<lparr>raw_event_type := 5\<rparr>])]"
proof -
  let ?cfg = "ProbeClientConfig_default None None" and ?a = "zeroed\<lparr>raw_event_type := 4\<rparr>" and ?b = "zeroed\<lparr>raw_event_type := 5\<rparr>"
  let ?m = "sender_moves type_byte ?cfg"
  let ?st = "\<lambda>q b s f bs. \<lparr>cl_queue = q, cl_batch = b, cl_sending = s, cl_frames = f, cl_batches = bs\<rparr>"
  have init: "demo_client = ?st [?a, ?b] [] False [] []" by (simp add: demo_client_def ProbeClient_emit_def ProbeClient_connect_def QUEUE_CAPACITY_def)
  have take: "?m (?st (e # q) [] False f bs) (?st q [e] False f bs)" for e q f bs
    using sender_step.take_event [of "?st (e # q) [] False f bs" e q ?cfg] by simp
  have flush: "?m (?st q [e] False f bs) (?st q [e] True f bs)" for e q f bs
    using sender_step.flush [of "?st q [e] False f bs" ?cfg] by simp
  have lost: "?m (?st q [e] True f bs) (?st q [] False f (bs @ [(False, [e])]))" for e q f bs
    using send_returns.returns [of "?st q [e] True f bs" type_byte NotSent] by (simp add: send_batch_def)
  have sent: "?m (?st q [?b] True f bs) (?st q [] False (f @ [[5]]) (bs @ [(True, [?b])]))" for q f bs
    using send_returns.returns [of "?st q [?b] True f bs" type_byte SentAndClosed] by (simp add: send_batch_def batch_payload_def type_byte_def)
  have "(?m ^^ 0) demo_client (?st [?a, ?b] [] False [] [])" by (simp add: init)
  note relpowp_Suc_I [OF relpowp_Suc_I [OF relpowp_Suc_I [OF this take] flush] lost]
  note relpowp_Suc_I [OF relpowp_Suc_I [OF relpowp_Suc_I [OF this take] flush] sent]
  moreover have "Suc (Suc (Suc (Suc (Suc (Suc 0))))) = 6" by simp
  ultimately have "(?m ^^ 6) demo_client (?st [] [] False [[5]] [(False, [?a]), (True, [?b])])" by (simp only: append_Nil append_Cons)
  then show ?thesis by (intro exI conjI, assumption) simp_all
qed

theorem client_delivers_in_order_witness:
  "\<exists>c. client_reach type_byte (ProbeClientConfig_default None None) c [(0, zeroed\<lparr>raw_event_type := 4\<rparr>), (1, zeroed\<lparr>raw_event_type := 5\<rparr>)]
     \<and> cl_frames c = [[5]] \<and> concat (map snd (cl_batches c)) @ cl_batch c @ cl_queue c = [zeroed\<lparr>raw_event_type := 4\<rparr>, zeroed\<lparr>raw_event_type := 5\<rparr>]"
proof -
  obtain c where c: "(sender_moves type_byte (ProbeClientConfig_default None None) ^^ 6) demo_client c" "cl_frames c = [[5]]" using demo_moves by blast
  have "client_reach type_byte (ProbeClientConfig_default None None) c [(0, zeroed\<lparr>raw_event_type := 4\<rparr>), (1, zeroed\<lparr>raw_event_type := 5\<rparr>)]"
    using sender_run [OF demo_queued c(1)] by simp
  with client_delivers_in_order [OF this] c(2) show ?thesis by (intro exI [of _ c]) simp
qed

theorem sender_drains_witness:
  "\<exists>c'. (sender_moves type_byte (ProbeClientConfig_default None None) ^^ 6) demo_client c' \<and> 6 \<le> 3 * length (cl_queue demo_client) + 2
     \<and> (\<forall>c''. \<not> sender_step (ProbeClientConfig_default None None) c' c'') \<and> cl_batch c' = []"
proof -
  obtain c where c: "(sender_moves type_byte (ProbeClientConfig_default None None) ^^ 6) demo_client c" "cl_queue c = []" "cl_batch c = []"
    using demo_moves by blast
  from sender_drains [OF demo_queued c(1), where events = "[]"] c show ?thesis by (intro exI [of _ c]) simp
qed

end
