(* ===== verification/Contract.thy ===== *)
theory Contract
  imports ProbeEvents
begin

text \<open>
  The public contract with the exploration engine, \<^verbatim>\<open>laplace-axiom-contract\<close>: thread and resource ids, the
  operation and outcome vocabulary, the set of runnable threads and the errors of an operation source; and
  the determinism report of \<^verbatim>\<open>laplace-interfaces/src/domain/determinism.rs\<close>. The trait \<open>ExecutionSource\<close> has no
  implementation in the repository.
\<close>

unbundle bit_operations_syntax

section \<open>Ids\<close>

datatype ThreadId = ThreadId (as_usize: usize)

datatype ResourceId = ResourceId (resource_as_usize: usize)

definition ThreadId_display :: "ThreadId \<Rightarrow> string" where
  "ThreadId_display self = ''t'' @ decimal (unat (as_usize self))"

definition ResourceId_display :: "ResourceId \<Rightarrow> string" where
  "ResourceId_display self = ''r'' @ decimal (unat (resource_as_usize self))"

lemma display_inject:
  "ThreadId_display a = ThreadId_display b \<longleftrightarrow> a = b"
  "ResourceId_display r = ResourceId_display q \<longleftrightarrow> r = q"
  using decimal_inject [of "unat (as_usize a)" "unat (as_usize b)"]
    decimal_inject [of "unat (resource_as_usize r)" "unat (resource_as_usize q)"]
  by (auto simp: ThreadId_display_def ResourceId_display_def word_unat_eq_iff ThreadId.expand ResourceId.expand)

section \<open>Operations and outcomes\<close>

datatype AxiomOperation = Request | Release | SharedRequest | SharedRelease | Read | Write | ReadWrite

datatype DeterminismClass = FullyDeterministic | DeterministicWithDeclaredInputs | BestEffort

datatype YieldKind = YieldPoll | YieldWake | YieldCancelled

record PanicReport =
  pr_thread :: ThreadId
  pr_message :: string

definition PanicReport_new :: "ThreadId \<Rightarrow> string \<Rightarrow> PanicReport" where
  "PanicReport_new thread message = \<lparr>pr_thread = thread, pr_message = message\<rparr>"

datatype StepOutcome =
    StepOp AxiomOperation ResourceId
  | StepBlocked ResourceId
  | StepFinished
  | StepPanicked PanicReport
  | StepYield YieldKind

datatype SourceError = InvalidThread ThreadId usize | NonDeterministicInput string | Unsupported string

section \<open>Thread sets\<close>

datatype AxiomThreadSet = AxiomThreadSet (set_bits: u64)

definition AxiomThreadSet_empty :: AxiomThreadSet where
  "AxiomThreadSet_empty = AxiomThreadSet 0"

definition AxiomThreadSet_from_bits :: "u64 \<Rightarrow> AxiomThreadSet" where
  "AxiomThreadSet_from_bits bits = AxiomThreadSet bits"

definition AxiomThreadSet_bits :: "AxiomThreadSet \<Rightarrow> u64" where
  "AxiomThreadSet_bits self = set_bits self"

text \<open>A shift of a 64-bit integer by its width or more panics in a build with overflow checks and shifts by the amount modulo 64 in one without.\<close>

datatype shift_panic = ShiftOverflow

definition shl_u64 :: "bool \<Rightarrow> u64 \<Rightarrow> usize \<Rightarrow> shift_panic + u64" where
  "shl_u64 overflow_checks x n =
     (if unat n < 64 then Inr (push_bit (unat n) x)
      else if overflow_checks then Inl ShiftOverflow else Inr (push_bit (unat n mod 64) x))"

definition AxiomThreadSet_contains :: "bool \<Rightarrow> AxiomThreadSet \<Rightarrow> ThreadId \<Rightarrow> shift_panic + bool" where
  "AxiomThreadSet_contains overflow_checks self thread =
     (if unat (as_usize thread) < 64
      then map_sum id (\<lambda>mask. (set_bits self AND mask) \<noteq> 0) (shl_u64 overflow_checks 1 (as_usize thread))
      else Inr False)"

definition AxiomThreadSet_with :: "bool \<Rightarrow> AxiomThreadSet \<Rightarrow> ThreadId \<Rightarrow> shift_panic + AxiomThreadSet" where
  "AxiomThreadSet_with overflow_checks self thread =
     (if 64 \<le> unat (as_usize thread) then Inr self
      else map_sum id (\<lambda>mask. AxiomThreadSet (set_bits self OR mask)) (shl_u64 overflow_checks 1 (as_usize thread)))"

text \<open>The abstract set: the thread ids below 64 whose bit is set.\<close>

definition threads_of :: "AxiomThreadSet \<Rightarrow> ThreadId set" where
  "threads_of s = {t. unat (as_usize t) < 64 \<and> bit (set_bits s) (unat (as_usize t))}"

text \<open>Adding the threads of a list one after the other.\<close>

fun with_all :: "bool \<Rightarrow> AxiomThreadSet \<Rightarrow> ThreadId list \<Rightarrow> shift_panic + AxiomThreadSet" where
  "with_all overflow_checks s [] = Inr s"
| "with_all overflow_checks s (t # ts) =
     (case AxiomThreadSet_with overflow_checks s t of Inl p \<Rightarrow> Inl p | Inr s' \<Rightarrow> with_all overflow_checks s' ts)"

lemma and_single_bit: "(w :: u64) AND push_bit n 1 \<noteq> 0 \<longleftrightarrow> n < 64 \<and> bit w n"
proof -
  have "bit (w AND push_bit n 1) k \<longleftrightarrow> k = n \<and> n < 64 \<and> bit w n" for k
    by (auto simp: bit_simps dest: bit_imp_le_length)
  then show ?thesis by (auto simp: bit_eq_iff)
qed

lemma contains_exact: "AxiomThreadSet_contains checks s t = Inr (t \<in> threads_of s)"
  using and_single_bit [of "set_bits s" "unat (as_usize t)"] by (simp add: AxiomThreadSet_contains_def shl_u64_def threads_of_def)

lemma with_exact:
  "\<exists>s'. AxiomThreadSet_with checks s t = Inr s' \<and> threads_of s' = threads_of s \<union> {u. u = t \<and> unat (as_usize u) < 64}"
proof -
  have "unat (as_usize u) = unat (as_usize t) \<longleftrightarrow> u = t" for u
    by (cases t; cases u) (simp add: word_unat_eq_iff)
  then show ?thesis by (auto simp: threads_of_def AxiomThreadSet_with_def shl_u64_def bit_simps)
qed

lemma with_all_exact:
  "\<exists>s'. with_all checks s ts = Inr s' \<and> threads_of s' = threads_of s \<union> {u \<in> set ts. unat (as_usize u) < 64}"
proof (induction ts arbitrary: s)
  case (Cons t ts)
  obtain s1 where s1: "AxiomThreadSet_with checks s t = Inr s1" "threads_of s1 = threads_of s \<union> {u. u = t \<and> unat (as_usize u) < 64}"
    using with_exact by blast
  from Cons.IH [of s1] obtain s' where "with_all checks s1 ts = Inr s'" "threads_of s' = threads_of s1 \<union> {u \<in> set ts. unat (as_usize u) < 64}"
    by blast
  with s1 show ?case by auto
qed simp

text \<open>(C40) The bit set of runnable threads implements a set of thread ids, in a build with overflow checks as in one without. No operation panics, although a shift
  by a thread id of 64 or more would, or would hit the bit of another thread. Membership is membership in the abstract set; the
  empty set is empty; adding a thread adds exactly it, without touching the others, when its id is below 64, and
  changes nothing for larger ids, which are never members; the raw bits determine the set, and equal sets have equal
  bits, so the derived equality is set equality. Built from any list of threads the set holds exactly those below 64.\<close>

theorem thread_set_refines_set:
  "AxiomThreadSet_contains checks s t = Inr (t \<in> threads_of s)
   \<and> threads_of AxiomThreadSet_empty = {}
   \<and> (\<exists>s1. AxiomThreadSet_with checks s t = Inr s1 \<and> threads_of s1 = threads_of s \<union> {u. u = t \<and> unat (as_usize u) < 64})
   \<and> (threads_of s = threads_of s' \<longleftrightarrow> s = s')
   \<and> AxiomThreadSet_from_bits (AxiomThreadSet_bits s) = s
   \<and> (\<exists>s2. with_all checks AxiomThreadSet_empty ts = Inr s2 \<and> threads_of s2 = {u \<in> set ts. unat (as_usize u) < 64})"
proof -
  have "s = s'" if eq: "threads_of s = threads_of s'"
  proof -
    have "bit (set_bits s) n = bit (set_bits s') n" if "n < 64" for n
    proof -
      have n: "unat (as_usize (ThreadId (of_nat n))) = n" using that by (simp add: unat_of_nat)
      have "ThreadId (of_nat n) \<in> threads_of s \<longleftrightarrow> ThreadId (of_nat n) \<in> threads_of s'" using eq by simp
      then show ?thesis using that by (simp only: threads_of_def mem_Collect_eq n) simp
    qed
    then have "set_bits s = set_bits s'" by (intro bit_word_eqI) simp
    then show ?thesis by (simp add: AxiomThreadSet.expand)
  qed
  moreover have empty: "threads_of AxiomThreadSet_empty = {}" by (simp add: threads_of_def AxiomThreadSet_empty_def)
  moreover have "\<exists>s2. with_all checks AxiomThreadSet_empty ts = Inr s2 \<and> threads_of s2 = {u \<in> set ts. unat (as_usize u) < 64}"
    using with_all_exact [of checks AxiomThreadSet_empty ts] empty by simp
  ultimately show ?thesis
    using contains_exact with_exact by (auto simp: AxiomThreadSet_from_bits_def AxiomThreadSet_bits_def)
qed

text \<open>The set that \<open>with\<close> returns need not include the thread.\<close>

lemma with_large_id: "64 \<le> unat (as_usize t) \<Longrightarrow> AxiomThreadSet_with checks s t = Inr s \<and> AxiomThreadSet_contains checks s t = Inr False"
  by (simp add: AxiomThreadSet_with_def AxiomThreadSet_contains_def)

section \<open>Determinism reports\<close>

datatype NdKind = NdTime | NdRng | NdHashOrder | NdAddress | NdIo | NdExternalThread | NdDivergenceObserved

datatype Confidence = Possible | Likely | Confirmed

datatype Remedy = Eliminate | Mock | Declare

record SrcLoc =
  sl_file :: string
  sl_line :: u32
  sl_col :: u32

definition SrcLoc_display :: "SrcLoc \<Rightarrow> string" where
  "SrcLoc_display self = sl_file self @ '':'' @ decimal (unat (sl_line self)) @ '':'' @ decimal (unat (sl_col self))"

definition NdKind_as_str :: "NdKind \<Rightarrow> string" where
  "NdKind_as_str self =
     (case self of NdTime \<Rightarrow> ''time'' | NdRng \<Rightarrow> ''rng'' | NdHashOrder \<Rightarrow> ''hash_order'' | NdAddress \<Rightarrow> ''address'' | NdIo \<Rightarrow> ''io''
      | NdExternalThread \<Rightarrow> ''external_thread'' | NdDivergenceObserved \<Rightarrow> ''divergence_observed'')"

definition Confidence_as_str :: "Confidence \<Rightarrow> string" where
  "Confidence_as_str self = (case self of Possible \<Rightarrow> ''possible'' | Likely \<Rightarrow> ''likely'' | Confirmed \<Rightarrow> ''confirmed'')"

definition gates :: "Confidence \<Rightarrow> bool" where
  "gates self \<longleftrightarrow> self = Confirmed"

definition Remedy_as_str :: "Remedy \<Rightarrow> string" where
  "Remedy_as_str self = (case self of Eliminate \<Rightarrow> ''eliminate'' | Mock \<Rightarrow> ''mock'' | Declare \<Rightarrow> ''declare'')"

record NonDeterminismFinding =
  nf_kind :: NdKind
  nf_location :: "SrcLoc option"
  nf_evidence :: string
  nf_remedy :: Remedy
  nf_confidence :: Confidence

definition NonDeterminismFinding_new ::
    "NdKind \<Rightarrow> SrcLoc option \<Rightarrow> string \<Rightarrow> Remedy \<Rightarrow> Confidence \<Rightarrow> NonDeterminismFinding" where
  "NonDeterminismFinding_new kind location evidence remedy confidence =
     \<lparr>nf_kind = kind, nf_location = location, nf_evidence = evidence, nf_remedy = remedy, nf_confidence = confidence\<rparr>"

record DeterminismReport =
  dr_class :: DeterminismClass
  dr_findings :: "NonDeterminismFinding list"

definition DeterminismReport_new :: "DeterminismClass \<Rightarrow> NonDeterminismFinding list \<Rightarrow> DeterminismReport" where
  "DeterminismReport_new class findings = \<lparr>dr_class = class, dr_findings = findings\<rparr>"

definition has_confirmed :: "DeterminismReport \<Rightarrow> bool" where
  "has_confirmed self \<longleftrightarrow> list_ex (\<lambda>f. gates (nf_confidence f)) (dr_findings self)"

definition resolved_class :: "DeterminismReport \<Rightarrow> DeterminismClass" where
  "resolved_class self = (if has_confirmed self then BestEffort else dr_class self)"

text \<open>The discriminants order the classes from the strongest claim to the weakest.\<close>

definition class_code :: "DeterminismClass \<Rightarrow> nat" where
  "class_code c = (case c of FullyDeterministic \<Rightarrow> 0 | DeterministicWithDeclaredInputs \<Rightarrow> 1 | BestEffort \<Rightarrow> 2)"

text \<open>A report never resolves to a stronger claim than its source declared, and a further finding never strengthens it.\<close>

lemma resolved_class_never_stronger:
  "class_code (dr_class r) \<le> class_code (resolved_class r)"
  "class_code (resolved_class r) \<le> class_code (resolved_class (r\<lparr>dr_findings := dr_findings r @ [f]\<rparr>))"
  by (cases "dr_class r"; simp add: resolved_class_def has_confirmed_def class_code_def)+

end
