(* ===== verification/NumberText.thy ===== *)
theory NumberText
  imports ProbeEvents
begin

text \<open>
  Numbers in printed texts: \<open>{}\<close>, \<open>{:x}\<close> and \<open>{:016x}\<close> of Rust's \<open>format!\<close>, a reader for them, and the interface by which a text with
  numbers in it is read back: where a number ends.
\<close>

section \<open>Hexadecimal numbers\<close>

definition hex_digit :: "nat \<Rightarrow> char" where
  "hex_digit d = (if d < 10 then digit d else char_of (87 + d))"

fun hexadecimal :: "nat \<Rightarrow> string" where
  "hexadecimal n = (if n < 16 then [hex_digit n] else hexadecimal (n div 16) @ [hex_digit (n mod 16)])"

declare hexadecimal.simps [simp del]

text \<open>Zeros in front up to a width.\<close>

definition zero_padded :: "nat \<Rightarrow> string \<Rightarrow> string" where
  "zero_padded k s = replicate (k - length s) CHR ''0'' @ s"

section \<open>Reading\<close>

definition digit_value :: "char \<Rightarrow> nat" where
  "digit_value c = (if of_char c < (58 :: nat) then of_char c - 48 else of_char c - 87)"

definition read_number :: "nat \<Rightarrow> string \<Rightarrow> nat" where
  "read_number base s = foldl (\<lambda>n c. n * base + digit_value c) 0 s"

definition is_digit :: "char \<Rightarrow> bool" where
  "is_digit c \<longleftrightarrow> c \<in> set ''0123456789''"

definition is_hex_digit :: "char \<Rightarrow> bool" where
  "is_hex_digit c \<longleftrightarrow> c \<in> set ''0123456789abcdef''"

lemma digits_table: "d < 16 \<Longrightarrow> hex_digit d = ''0123456789abcdef'' ! d"
proof -
  have "\<forall>d<16. hex_digit d = ''0123456789abcdef'' ! d" unfolding hex_digit_def digit_def by code_simp
  then show "d < 16 \<Longrightarrow> hex_digit d = ''0123456789abcdef'' ! d" by blast
qed

lemma hex_digit_value: "d < 16 \<Longrightarrow> digit_value (hex_digit d) = d"
  by (cases "d < 10") (simp_all add: digit_value_def hex_digit_def of_char_digit)

lemma digit_as_hex: "d < 10 \<Longrightarrow> digit d = hex_digit d"
  by (simp add: hex_digit_def)

lemma hex_digit_ok: "d < 16 \<Longrightarrow> is_hex_digit (hex_digit d)"
  unfolding is_hex_digit_def by (simp add: digits_table set_conv_nth del: set_simps) (use less_trans in force)

lemma digit_ok: "d < 10 \<Longrightarrow> is_digit (digit d)"
proof -
  have "\<forall>d<10. is_digit (digit d)" unfolding is_digit_def digit_def by code_simp
  then show "d < 10 \<Longrightarrow> is_digit (digit d)" by blast
qed

lemma read_decimal: "read_number 10 (decimal n) = n"
proof (induction n rule: decimal.induct)
  case (1 n)
  have "d < 10 \<Longrightarrow> digit_value (digit d) = d" for d by (simp add: digit_as_hex hex_digit_value)
  with 1 show ?case by (subst decimal.simps) (auto simp: read_number_def)
qed

lemma read_hexadecimal: "read_number 16 (hexadecimal n) = n"
proof (induction n rule: hexadecimal.induct)
  case (1 n)
  then show ?case by (subst hexadecimal.simps) (auto simp: read_number_def hex_digit_value)
qed

lemma read_padded: "read_number base (zero_padded k s) = read_number base s"
proof -
  have "foldl (\<lambda>n c. n * base + digit_value c) 0 (replicate j CHR ''0'') = 0" for j
    by (induction j) (simp_all add: digit_value_def)
  then show ?thesis by (simp add: read_number_def zero_padded_def)
qed

lemma decimal_chars: "c \<in> set (decimal n) \<Longrightarrow> is_digit c"
proof (induction n rule: decimal.induct)
  case (1 n)
  then show ?case by (subst (asm) (2) decimal.simps) (auto simp: digit_ok split: if_splits)
qed

lemma hexadecimal_chars: "c \<in> set (hexadecimal n) \<Longrightarrow> is_hex_digit c"
proof (induction n rule: hexadecimal.induct)
  case (1 n)
  then show ?case by (subst (asm) (2) hexadecimal.simps) (auto simp: hex_digit_ok split: if_splits)
qed

lemma zero_is_hex: "is_hex_digit CHR ''0''"
  by (simp add: is_hex_digit_def)

section \<open>A number inside a text\<close>

text \<open>A way of printing numbers that can be read back and uses only characters of its alphabet. In a text, such a number ends
  at the first character outside of it.\<close>

locale number_text =
  fixes print :: "nat \<Rightarrow> string" and reader :: "string \<Rightarrow> nat" and alphabet :: "char \<Rightarrow> bool"
  assumes reads: "reader (print n) = n"
    and chars: "c \<in> set (print n) \<Longrightarrow> alphabet c"
begin

definition ends :: "string \<Rightarrow> bool" where
  "ends r \<longleftrightarrow> (case r of [] \<Rightarrow> True | c # cs \<Rightarrow> \<not> alphabet c)"

lemma print_inject: "print m = print n \<longleftrightarrow> m = n"
  by (metis reads)

lemma number_prefix: "ends r \<Longrightarrow> takeWhile alphabet (print n @ r) = print n"
  using chars by (cases r) (auto simp: ends_def takeWhile_append takeWhile_eq_all_conv)

lemma number_then: "ends r \<Longrightarrow> ends s \<Longrightarrow> print m @ r = print n @ s \<longleftrightarrow> m = n \<and> r = s"
  by (metis append_same_eq number_prefix print_inject same_append_eq)

lemma ends_here: "ends []" "ends (c # cs) \<longleftrightarrow> \<not> alphabet c"
  by (simp_all add: ends_def)

lemma number_last: "ends s \<Longrightarrow> print m = print n @ s \<longleftrightarrow> m = n \<and> s = []" "ends s \<Longrightarrow> print m @ s = print n \<longleftrightarrow> m = n \<and> s = []"
  using number_then [of "[]" s m n] number_then [of s "[]" m n] by (auto simp: ends_here)

end

interpretation decimal_text: number_text decimal "read_number 10" is_digit
  by unfold_locales (simp_all add: read_decimal decimal_chars)

interpretation hex_text: number_text hexadecimal "read_number 16" is_hex_digit
  by unfold_locales (simp_all add: read_hexadecimal hexadecimal_chars)

interpretation padded_hex_text: number_text "\<lambda>n. zero_padded k (hexadecimal n)" "read_number 16" is_hex_digit for k
proof unfold_locales
  show "read_number 16 (zero_padded k (hexadecimal n)) = n" for n by (simp add: read_padded read_hexadecimal)
  show "is_hex_digit c" if "c \<in> set (zero_padded k (hexadecimal n))" for c n
    using that hexadecimal_chars [of c n] zero_is_hex by (auto simp: zero_padded_def set_replicate_conv_if split: if_splits)
qed

text \<open>The rules by which two texts with numbers in them are compared.\<close>

lemmas text_simps = decimal_text.print_inject decimal_text.number_then decimal_text.number_last decimal_text.ends_here
  hex_text.print_inject hex_text.number_then hex_text.number_last hex_text.ends_here
  padded_hex_text.print_inject padded_hex_text.number_then padded_hex_text.number_last padded_hex_text.ends_here
  is_digit_def is_hex_digit_def

end
