(* ===== verification/Identifiers.thy ===== *)
theory Identifiers
  imports Contract NumberText
begin

text \<open>
  The identifiers, settings and errors that \<^verbatim>\<open>laplace-interfaces\<close> shares with the engine, with their printed texts: the memory model (\<^verbatim>\<open>domain/memory/types.rs\<close>),
  the scheduler (\<^verbatim>\<open>domain/scheduler/types.rs\<close>), seeds (\<^verbatim>\<open>domain/entropy/types.rs\<close>), resources (\<^verbatim>\<open>domain/resource/types.rs\<close>) and load
  generation (\<^verbatim>\<open>error/kraken.rs\<close>). A text determines what it was printed from, except where this is said.
\<close>

section \<open>Memory\<close>

datatype Address = Address (address_as_usize: usize)

definition Address_display :: "Address \<Rightarrow> string" where
  "Address_display self = ''0x'' @ hexadecimal (unat (address_as_usize self))"

datatype Value = Value (value_as_u64: u64)

definition Value_display :: "Value \<Rightarrow> string" where
  "Value_display self = decimal (unat (value_as_u64 self))"

datatype CoreId = CoreId (core_as_usize: usize)

definition CoreId_display :: "CoreId \<Rightarrow> string" where
  "CoreId_display self = ''Core('' @ decimal (unat (core_as_usize self)) @ '')''"

record StoreEntry =
  se_addr :: Address
  se_val :: Value

datatype MemoryOp = OpRead CoreId Address | OpWrite CoreId Address Value | OpFence CoreId

fun MemoryOp_display :: "MemoryOp \<Rightarrow> string" where
  "MemoryOp_display (OpRead core addr) = ''Read(core='' @ CoreId_display core @ '', addr='' @ Address_display addr @ '')''"
| "MemoryOp_display (OpWrite core addr val) = ''Write(core='' @ CoreId_display core @ '', addr='' @ Address_display addr @ '', val='' @ Value_display val @ '')''"
| "MemoryOp_display (OpFence core) = ''Fence(core='' @ CoreId_display core @ '')''"

datatype ConsistencyModel = SequentiallyConsistent | RelaxedModel

record MemoryConfig =
  num_cores :: usize
  max_buffer_size :: usize
  consistency_model :: ConsistencyModel
  initial_size :: usize

definition MemoryConfig_default :: MemoryConfig where
  "MemoryConfig_default = \<lparr>num_cores = 2, max_buffer_size = 2, consistency_model = RelaxedModel, initial_size = 1024\<rparr>"

section \<open>Scheduling\<close>

datatype SchedThread = SchedThread (sched_thread_as_usize: usize)

definition SchedThread_display :: "SchedThread \<Rightarrow> string" where
  "SchedThread_display self = ''Thread('' @ decimal (unat (sched_thread_as_usize self)) @ '')''"

datatype SchedTask = SchedTask (sched_task_as_usize: usize)

definition SchedTask_display :: "SchedTask \<Rightarrow> string" where
  "SchedTask_display self = ''Task('' @ decimal (unat (sched_task_as_usize self)) @ '')''"

datatype ThreadState = StRunnable | StBlocked | StCompleted

fun ThreadState_is_runnable :: "ThreadState \<Rightarrow> bool" where
  "ThreadState_is_runnable StRunnable = True"
| "ThreadState_is_runnable _ = False"

fun ThreadState_is_blocked :: "ThreadState \<Rightarrow> bool" where
  "ThreadState_is_blocked StBlocked = True"
| "ThreadState_is_blocked _ = False"

fun ThreadState_is_completed :: "ThreadState \<Rightarrow> bool" where
  "ThreadState_is_completed StCompleted = True"
| "ThreadState_is_completed _ = False"

fun ThreadState_display :: "ThreadState \<Rightarrow> string" where
  "ThreadState_display StRunnable = ''RUNNABLE''"
| "ThreadState_display StBlocked = ''BLOCKED''"
| "ThreadState_display StCompleted = ''COMPLETED''"

datatype SchedulingStrategy = Production | Verification

fun is_production :: "SchedulingStrategy \<Rightarrow> bool" where
  "is_production Production = True"
| "is_production Verification = False"

fun is_verification :: "SchedulingStrategy \<Rightarrow> bool" where
  "is_verification Production = False"
| "is_verification Verification = True"

fun SchedulingStrategy_display :: "SchedulingStrategy \<Rightarrow> string" where
  "SchedulingStrategy_display Production = ''PRODUCTION''"
| "SchedulingStrategy_display Verification = ''VERIFICATION''"

datatype SchedulerError =
    SchedInvalidThreadId SchedThread usize
  | SchedInvalidThreadState SchedThread ThreadState ThreadState
  | QueueFull usize usize
  | TimeOverflow u64 u64 u64
  | NoRunnableEvents

fun SchedulerError_display :: "SchedulerError \<Rightarrow> string" where
  "SchedulerError_display (SchedInvalidThreadId thread max_threads) =
     ''Invalid thread ID: '' @ SchedThread_display thread @ '' (max threads: '' @ decimal (unat max_threads) @ '')''"
| "SchedulerError_display (SchedInvalidThreadState thread current expected) =
     ''Thread '' @ SchedThread_display thread @ '' in invalid state: '' @ ThreadState_display current @ '' (expected: '' @ ThreadState_display expected @ '')''"
| "SchedulerError_display (QueueFull max_events attempted) =
     ''Event queue full (max: '' @ decimal (unat max_events) @ '', attempted: '' @ decimal (unat attempted) @ '')''"
| "SchedulerError_display (TimeOverflow current delay max_time) =
     ''Time overflow: '' @ decimal (unat current) @ '' + '' @ decimal (unat delay) @ '' would exceed max time '' @ decimal (unat max_time)"
| "SchedulerError_display NoRunnableEvents = ''No runnable events available''"

section \<open>Seeds\<close>

datatype ContextId = ContextId (context_as_u64: u64)

definition ContextId_display :: "ContextId \<Rightarrow> string" where
  "ContextId_display self = ''Ctx#'' @ decimal (unat (context_as_u64 self))"

datatype LocalSeed = LocalSeed (seed_as_u64: u64)

definition LocalSeed_display :: "LocalSeed \<Rightarrow> string" where
  "LocalSeed_display self = ''Seed(0x'' @ zero_padded 16 (hexadecimal (unat (seed_as_u64 self))) @ '')''"

record SeedAssignment =
  sa_ctx_id :: ContextId
  sa_local_seed :: LocalSeed
  sa_lamport_ts :: u64

definition SeedAssignment_new :: "ContextId \<Rightarrow> LocalSeed \<Rightarrow> u64 \<Rightarrow> SeedAssignment" where
  "SeedAssignment_new ctx seed ts = \<lparr>sa_ctx_id = ctx, sa_local_seed = seed, sa_lamport_ts = ts\<rparr>"

definition SeedAssignment_display :: "SeedAssignment \<Rightarrow> string" where
  "SeedAssignment_display self = ''SeedAssignment { '' @ ContextId_display (sa_ctx_id self) @ '', '' @ LocalSeed_display (sa_local_seed self)
     @ '', lamport: '' @ decimal (unat (sa_lamport_ts self)) @ '' }''"

record GlobalSeedConfig =
  gsc_seed :: u64
  gsc_lamport_mod :: u64
  gsc_max_contexts :: usize

definition GlobalSeedConfig_new :: "u64 \<Rightarrow> u64 \<Rightarrow> usize \<Rightarrow> GlobalSeedConfig" where
  "GlobalSeedConfig_new seed lamport_mod max_contexts = \<lparr>gsc_seed = seed, gsc_lamport_mod = lamport_mod, gsc_max_contexts = max_contexts\<rparr>"

definition GlobalSeedConfig_test_config :: GlobalSeedConfig where
  "GlobalSeedConfig_test_config = \<lparr>gsc_seed = 12345, gsc_lamport_mod = 8, gsc_max_contexts = 3\<rparr>"

section \<open>Load generation\<close>

datatype KrakenError =
    VuQuotaExceeded usize usize
  | DuplicateRegistration ContextId
  | VuNotFound ContextId
  | InvalidSeedAssignment ContextId LocalSeed LocalSeed
  | RngStateCorrupted string
  | KrakenClockError string
  | InvalidTransition string string string
  | KrakenNetworkError string
  | InvalidScenario string
  | OtherKrakenError string

fun KrakenError_display :: "KrakenError \<Rightarrow> string" where
  "KrakenError_display (VuQuotaExceeded current mx) = ''VU quota exceeded: '' @ decimal (unat current) @ ''/'' @ decimal (unat mx)"
| "KrakenError_display (DuplicateRegistration vu) = ''VU '' @ ContextId_display vu @ '' already registered''"
| "KrakenError_display (VuNotFound vu) = ''VU '' @ ContextId_display vu @ '' not found''"
| "KrakenError_display (InvalidSeedAssignment vu expected got) =
     ''Invalid seed for '' @ ContextId_display vu @ '': expected '' @ LocalSeed_display expected @ '', got '' @ LocalSeed_display got"
| "KrakenError_display (RngStateCorrupted msg) = ''RNG state corrupted: '' @ msg"
| "KrakenError_display (KrakenClockError msg) = ''Clock error: '' @ msg"
| "KrakenError_display (InvalidTransition from action reason) =
     ''Invalid transition from state '' @ [CHR 0x27] @ from @ [CHR 0x27] @ '' with action '' @ [CHR 0x27] @ action @ [CHR 0x27] @ '': '' @ reason"
| "KrakenError_display (KrakenNetworkError reason) = ''Network error: '' @ reason"
| "KrakenError_display (InvalidScenario msg) = ''Invalid scenario: '' @ msg"
| "KrakenError_display (OtherKrakenError msg) = ''Kraken error: '' @ msg"

section \<open>Resources\<close>

datatype ThreadStatus = Running | BlockedThread | Finished

datatype RequestResult = Acquired | BlockedRequest

datatype ResourceError =
    ResInvalidThreadId ThreadId
  | ResInvalidResourceId ResourceId
  | AlreadyOwned ThreadId ResourceId
  | NotOwned ThreadId ResourceId
  | DeadlockDetected "ThreadId list"
  | ResourceLeak ThreadId "ResourceId list"
  | MultiCycleDeadlock "ThreadId list list"

text \<open>The loops over the members of a list: a separator before every member but the first.\<close>

fun joined_by :: "string \<Rightarrow> ('a \<Rightarrow> string) \<Rightarrow> 'a list \<Rightarrow> string" where
  "joined_by sep p [] = []"
| "joined_by sep p [x] = p x"
| "joined_by sep p (x # y # xs) = p x @ sep @ joined_by sep p (y # xs)"

definition cycle_display :: "ThreadId list \<Rightarrow> string" where
  "cycle_display cycle = joined_by '' -> '' ThreadId_display cycle"

fun ResourceError_display :: "ResourceError \<Rightarrow> string" where
  "ResourceError_display (ResInvalidThreadId t) = ''Invalid thread ID: '' @ ThreadId_display t"
| "ResourceError_display (ResInvalidResourceId r) = ''Invalid resource ID: '' @ ResourceId_display r"
| "ResourceError_display (AlreadyOwned t r) = ''Thread '' @ ThreadId_display t @ '' already owns resource '' @ ResourceId_display r"
| "ResourceError_display (NotOwned t r) = ''Thread '' @ ThreadId_display t @ '' does not own resource '' @ ResourceId_display r"
| "ResourceError_display (DeadlockDetected cycle) = ''Deadlock detected! Cycle: '' @ cycle_display cycle"
| "ResourceError_display (ResourceLeak t held) = ''Thread '' @ ThreadId_display t @ '' finished with resources: '' @ joined_by '', '' ResourceId_display held"
| "ResourceError_display (MultiCycleDeadlock cycles) = ''Multiple deadlock cycles detected: '' @ joined_by ''; '' cycle_display cycles"

section \<open>Reading the texts back\<close>

lemma unat_same [simp]: "unat a = unat b \<longleftrightarrow> a = (b :: 'a :: len word)"
  by (simp add: word_unat_eq_iff)

lemma same_ids [simp]:
  "address_as_usize a = address_as_usize b \<longleftrightarrow> a = b" "value_as_u64 v = value_as_u64 w \<longleftrightarrow> v = w"
  "core_as_usize c = core_as_usize d \<longleftrightarrow> c = d" "sched_thread_as_usize t = sched_thread_as_usize u \<longleftrightarrow> t = u"
  "sched_task_as_usize k = sched_task_as_usize l \<longleftrightarrow> k = l" "context_as_u64 x = context_as_u64 y \<longleftrightarrow> x = y"
  "seed_as_u64 p = seed_as_u64 q \<longleftrightarrow> p = q" "as_usize i = as_usize j \<longleftrightarrow> i = j" "resource_as_usize r = resource_as_usize s \<longleftrightarrow> r = s"
  by (auto intro: Address.expand Value.expand CoreId.expand SchedThread.expand SchedTask.expand ContextId.expand LocalSeed.expand
      ThreadId.expand ResourceId.expand)

lemma ThreadState_then [simp]:
  "ThreadState_display a @ CHR '' '' # r = ThreadState_display b @ CHR '' '' # s \<longleftrightarrow> a = b \<and> r = s"
  "ThreadState_display a = ThreadState_display b \<longleftrightarrow> a = b"
  by (cases a; cases b; simp)+

lemmas id_texts = CoreId_display_def Address_display_def Value_display_def SchedThread_display_def ContextId_display_def LocalSeed_display_def
  SeedAssignment_display_def ThreadId_display_def ResourceId_display_def

lemma MemoryOp_text: "MemoryOp_display a = MemoryOp_display b \<longleftrightarrow> a = b"
  by (cases a; cases b) (simp_all add: id_texts text_simps)

lemma SchedulerError_text: "SchedulerError_display a = SchedulerError_display b \<longleftrightarrow> a = b"
  by (cases a; cases b) (simp_all add: id_texts text_simps)

lemma SeedAssignment_text: "SeedAssignment_display a = SeedAssignment_display b \<longleftrightarrow> a = b"
  by (cases a; cases b) (simp add: id_texts text_simps)

text \<open>A list whose members are printed with a separator between them. A member is read up to a text that stops it, as the separator does; the list is
  followed by a text that is not a separator.\<close>

locale list_text =
  fixes print :: "'a \<Rightarrow> string" and sep :: string and ok :: "'a \<Rightarrow> bool" and stop outer :: "string \<Rightarrow> bool"
  assumes member: "ok x \<Longrightarrow> ok y \<Longrightarrow> stop r \<Longrightarrow> stop s \<Longrightarrow> print x @ r = print y @ s \<Longrightarrow> x = y \<and> r = s"
    and sep_stops: "stop (sep @ r)"
    and outer_stops: "outer r \<Longrightarrow> stop r"
    and outer_not_sep: "outer r \<Longrightarrow> r \<noteq> sep @ s"
    and outer_empty: "outer []"
    and print_nonempty: "ok x \<Longrightarrow> print x \<noteq> []"
begin

lemma joined_then:
  assumes "outer r" "outer s"
  shows "list_all ok xs \<Longrightarrow> list_all ok ys \<Longrightarrow> xs \<noteq> [] \<Longrightarrow> ys \<noteq> [] \<Longrightarrow>
    joined_by sep print xs @ r = joined_by sep print ys @ s \<Longrightarrow> xs = ys \<and> r = s"
proof (induction xs arbitrary: ys)
  case (Cons x xs)
  obtain y zs where ys: "ys = y # zs" using Cons.prems(4) by (cases ys) simp
  have more: "joined_by sep print (v # vs) @ q = print v @ (if vs = [] then q else sep @ joined_by sep print vs @ q)" for v vs q
    by (cases vs) simp_all
  let ?R = "if xs = [] then r else sep @ joined_by sep print xs @ r" and ?S = "if zs = [] then s else sep @ joined_by sep print zs @ s"
  have "stop ?R" "stop ?S" using assms by (simp_all add: sep_stops outer_stops)
  moreover have "print x @ ?R = print y @ ?S" using Cons.prems(5) unfolding ys more .
  ultimately have "x = y \<and> ?R = ?S" using member [of x y] Cons.prems(1,2) by (simp add: ys)
  then show ?case using Cons.IH [of zs] Cons.prems(1,2) assms outer_not_sep by (auto simp: ys split: if_splits)
qed simp

lemma joined_inject:
  assumes "list_all ok xs" "list_all ok ys"
  shows "joined_by sep print xs = joined_by sep print ys \<longleftrightarrow> xs = ys"
proof -
  have nonempty: "list_all ok zs \<Longrightarrow> joined_by sep print zs = [] \<longleftrightarrow> zs = []" for zs
    using print_nonempty by (cases "(sep, print, zs)" rule: joined_by.cases) auto
  show ?thesis
  proof (cases "xs = [] \<or> ys = []")
    case False
    with joined_then [OF outer_empty outer_empty assms] show ?thesis by auto
  qed (use nonempty [OF assms(1)] nonempty [OF assms(2)] in auto)
qed

end

text \<open>Threads in a cycle, resources held, and cycles that each have a thread.\<close>

abbreviation after_cycle :: "string \<Rightarrow> bool" where
  "after_cycle r \<equiv> r = [] \<or> hd r = CHR '';''"

abbreviation after_id :: "string \<Rightarrow> bool" where
  "after_id r \<equiv> decimal_text.ends r"

lemma after_cycle_stops: "after_cycle r \<Longrightarrow> after_id r"
  by (cases r) (auto simp: text_simps)

interpretation cycle_text: list_text ThreadId_display "'' -> ''" "\<lambda>_. True" after_id after_cycle
  by unfold_locales (auto simp: id_texts text_simps after_cycle_stops)

interpretation held_text: list_text ResourceId_display "'', ''" "\<lambda>_. True" after_id "\<lambda>r. r = []"
  by unfold_locales (auto simp: id_texts text_simps)

interpretation cycles_text: list_text cycle_display "''; ''" "\<lambda>c. c \<noteq> []" after_cycle "\<lambda>r. r = []"
proof unfold_locales
  fix x y :: "ThreadId list" and r s
  assume "x \<noteq> []" "y \<noteq> []" "after_cycle r" "after_cycle s" "cycle_display x @ r = cycle_display y @ s"
  then show "x = y \<and> r = s" using cycle_text.joined_then [of r s x y] by (simp add: cycle_display_def list_all_iff)
next
  fix x :: "ThreadId list"
  assume "x \<noteq> []"
  then show "cycle_display x \<noteq> []"
    using cycle_text.joined_inject [of x "[]"] by (simp add: cycle_display_def list_all_iff)
qed auto

lemma lists_text:
  "cycle_display c = cycle_display d \<longleftrightarrow> c = d" "joined_by '', '' ResourceId_display rs = joined_by '', '' ResourceId_display qs \<longleftrightarrow> rs = qs"
  using cycle_text.joined_inject [of c d] held_text.joined_inject [of rs qs] by (simp_all add: cycle_display_def list_all_iff)

lemma leak_text:
  "ThreadId_display t @ '' finished with resources: '' @ joined_by '', '' ResourceId_display rs
     = ThreadId_display u @ '' finished with resources: '' @ joined_by '', '' ResourceId_display qs \<longleftrightarrow> t = u \<and> rs = qs"
  unfolding ThreadId_display_def by (simp add: text_simps lists_text)

text \<open>The text of a resource error determines the error, as long as each cycle of several has a thread; no cycle and one empty cycle print alike.\<close>

lemma ResourceError_text:
  assumes "\<And>cs. a = MultiCycleDeadlock cs \<Longrightarrow> [] \<notin> set cs" "\<And>cs. b = MultiCycleDeadlock cs \<Longrightarrow> [] \<notin> set cs"
  shows "ResourceError_display a = ResourceError_display b \<longleftrightarrow> a = b"
  using assms
proof (cases a; cases b)
  fix cs ds assume ab: "a = MultiCycleDeadlock cs" "b = MultiCycleDeadlock ds"
  then have "list_all (\<lambda>c. c \<noteq> []) cs" "list_all (\<lambda>c. c \<noteq> []) ds" using assms by (auto simp: list_all_iff)
  from cycles_text.joined_inject [OF this] show ?thesis by (simp add: ab)
qed (simp_all add: lists_text leak_text [simplified], simp_all add: id_texts text_simps)

lemma empty_cycle_unseen: "ResourceError_display (MultiCycleDeadlock []) = ResourceError_display (MultiCycleDeadlock [[]])"
  by (simp add: cycle_display_def)

text \<open>The errors of load generation that carry numbers only are determined by their texts; the states and actions of a transition are not.\<close>

fun numbers_only :: "KrakenError \<Rightarrow> bool" where
  "numbers_only (VuQuotaExceeded _ _) = True"
| "numbers_only (DuplicateRegistration _) = True"
| "numbers_only (VuNotFound _) = True"
| "numbers_only (InvalidSeedAssignment _ _ _) = True"
| "numbers_only _ = False"

lemma KrakenError_text: "numbers_only a \<Longrightarrow> KrakenError_display a = KrakenError_display b \<longleftrightarrow> a = b"
  by (cases a; cases b) (simp_all add: id_texts text_simps)

lemma transition_ambiguous:
  "KrakenError_display (InvalidTransition ''x'' (''y'' @ [CHR 0x27] @ '' with action '' @ [CHR 0x27] @ ''z'') r)
     = KrakenError_display (InvalidTransition (''x'' @ [CHR 0x27] @ '' with action '' @ [CHR 0x27] @ ''y'') ''z'' r)"
  by simp

end
