(* ===== verification/Clocks.thy ===== *)
theory Clocks
  imports Identifiers
begin

text \<open>
  Logical time in \<^verbatim>\<open>laplace-interfaces\<close>: Lamport timestamps and trace events
  (\<^verbatim>\<open>domain/tracing/types.rs\<close>), the scheduled events of the virtual clock and their priority order
  (\<^verbatim>\<open>domain/time/types.rs\<close>).
\<close>

section \<open>Lamport timestamps\<close>

datatype LamportTimestamp = LamportTimestamp (stamp: u64)

text \<open>The derived order compares the counters.\<close>

definition lamport_le :: "LamportTimestamp \<Rightarrow> LamportTimestamp \<Rightarrow> bool" where
  "lamport_le a b \<longleftrightarrow> stamp a \<le> stamp b"

instantiation LamportTimestamp :: linorder
begin

definition less_eq_LamportTimestamp :: "LamportTimestamp \<Rightarrow> LamportTimestamp \<Rightarrow> bool" where
  "less_eq_LamportTimestamp a b \<longleftrightarrow> lamport_le a b"

definition less_LamportTimestamp :: "LamportTimestamp \<Rightarrow> LamportTimestamp \<Rightarrow> bool" where
  "less_LamportTimestamp a b \<longleftrightarrow> stamp a < stamp b"

instance
  by standard (auto simp: less_eq_LamportTimestamp_def lamport_le_def less_LamportTimestamp_def LamportTimestamp.expand)

end

definition LAMPORT_ZERO :: LamportTimestamp where
  "LAMPORT_ZERO = LamportTimestamp 0"

definition increment :: "LamportTimestamp \<Rightarrow> LamportTimestamp" where
  "increment self = LamportTimestamp (stamp self + 1)"

definition sync :: "LamportTimestamp \<Rightarrow> LamportTimestamp \<Rightarrow> LamportTimestamp" where
  "sync remote self = LamportTimestamp (saturating_add (max (stamp self) (stamp remote)) 1)"

section \<open>Trace events\<close>

definition MAX_THREADS :: nat where
  "MAX_THREADS = 16"

datatype TraceThread = TraceThread (thread_num: u32)

text \<open>\<open>ThreadId::new\<close>: the assertion is a debug assertion, so \<open>debug\<close> tells the build.\<close>

definition TraceThread_new :: "bool \<Rightarrow> u32 \<Rightarrow> TraceThread option" where
  "TraceThread_new debug i = (if debug \<and> \<not> unat i < MAX_THREADS then None else Some (TraceThread i))"

definition as_index :: "TraceThread \<Rightarrow> nat" where
  "as_index self = unat (thread_num self)"

record EventMetadata =
  em_timestamp :: LamportTimestamp
  em_thread_id :: TraceThread
  em_pad :: u32
  em_seq_num :: u64

definition EventMetadata_new :: "LamportTimestamp \<Rightarrow> TraceThread \<Rightarrow> u64 \<Rightarrow> EventMetadata" where
  "EventMetadata_new ts t seq_num = \<lparr>em_timestamp = ts, em_thread_id = t, em_pad = 0, em_seq_num = seq_num\<rparr>"

datatype FenceType = FenceAcquire | FenceRelease | FenceSeqCst

datatype MemoryOperation =
    MemRead Address u64 bool
  | MemWrite Address u64 bool
  | MemBufferFlush Address u64
  | MemFence FenceType

datatype SyncEvent = MutexLock u64 | MutexUnlock u64 | CondVarWait u64 | CondVarSignal u64

record ClockEvent =
  ce_prev_timestamp :: LamportTimestamp
  ce_new_timestamp :: LamportTimestamp

datatype SimulationEvent =
    ClockTick EventMetadata ClockEvent
  | Memory EventMetadata MemoryOperation
  | Synchronization EventMetadata SyncEvent
  | SimThreadSpawn EventMetadata TraceThread
  | SimThreadJoin EventMetadata TraceThread

definition metadata :: "SimulationEvent \<Rightarrow> EventMetadata" where
  "metadata self =
     (case self of ClockTick meta event \<Rightarrow> meta | Memory meta operation \<Rightarrow> meta | Synchronization meta sync_event \<Rightarrow> meta
      | SimThreadSpawn meta child_id \<Rightarrow> meta | SimThreadJoin meta child_id \<Rightarrow> meta)"

definition timestamp :: "SimulationEvent \<Rightarrow> LamportTimestamp" where
  "timestamp self = em_timestamp (metadata self)"

definition event_thread :: "SimulationEvent \<Rightarrow> TraceThread" where
  "event_thread self = em_thread_id (metadata self)"

definition happens_before :: "SimulationEvent \<Rightarrow> SimulationEvent \<Rightarrow> bool" where
  "happens_before self other \<longleftrightarrow> timestamp self < timestamp other"

section \<open>The clock condition\<close>

text \<open>Threads that keep Lamport clocks by the two operations, as their documentation says: a local event increments,
  a message carries the sender's timestamp, its reception synchronises with it.\<close>

datatype clock_act = LocalAct TraceThread | SendAct TraceThread nat | RecvAct TraceThread nat

fun act_thread :: "clock_act \<Rightarrow> TraceThread" where
  "act_thread (LocalAct t) = t"
| "act_thread (SendAct t m) = t"
| "act_thread (RecvAct t m) = t"

record clocks =
  ck_clock :: "TraceThread \<Rightarrow> LamportTimestamp"
  ck_msgs :: "nat \<rightharpoonup> LamportTimestamp"
  ck_log :: "SimulationEvent list"

definition tick :: "TraceThread \<Rightarrow> LamportTimestamp \<Rightarrow> clocks \<Rightarrow> clocks" where
  "tick t new c = c\<lparr>ck_clock := (ck_clock c)(t := new),
     ck_log := ck_log c @ [ClockTick (EventMetadata_new new t (of_nat (length (ck_log c))))
       \<lparr>ce_prev_timestamp = ck_clock c t, ce_new_timestamp = new\<rparr>]\<rparr>"

fun clock_step :: "clock_act \<Rightarrow> clocks \<Rightarrow> clocks" where
  "clock_step (LocalAct t) c = tick t (increment (ck_clock c t)) c"
| "clock_step (SendAct t m) c =
     (let new = increment (ck_clock c t) in (tick t new c)\<lparr>ck_msgs := (ck_msgs c)(m \<mapsto> new)\<rparr>)"
| "clock_step (RecvAct t m) c =
     (case ck_msgs c m of None \<Rightarrow> c | Some remote \<Rightarrow> tick t (sync remote (ck_clock c t)) c)"

definition clocks_start :: clocks where
  "clocks_start = \<lparr>ck_clock = (\<lambda>_. LAMPORT_ZERO), ck_msgs = Map.empty, ck_log = []\<rparr>"

text \<open>A run receives only what was sent, and sends each message once.\<close>

definition proper_run :: "clock_act list \<Rightarrow> bool" where
  "proper_run acts \<longleftrightarrow> (\<forall>j t m. j < length acts \<longrightarrow> acts ! j = RecvAct t m \<longrightarrow> (\<exists>i u. i < j \<and> acts ! i = SendAct u m))
     \<and> (\<forall>i j t u m. i < length acts \<longrightarrow> j < length acts \<longrightarrow> acts ! i = SendAct t m \<longrightarrow> acts ! j = SendAct u m \<longrightarrow> i = j)"

inductive causes :: "clock_act list \<Rightarrow> nat \<Rightarrow> nat \<Rightarrow> bool" for acts where
  program: "i < j \<Longrightarrow> j < length acts \<Longrightarrow> act_thread (acts ! i) = act_thread (acts ! j) \<Longrightarrow> causes acts i j"
| message: "i < j \<Longrightarrow> j < length acts \<Longrightarrow> acts ! i = SendAct t m \<Longrightarrow> acts ! j = RecvAct u m \<Longrightarrow> causes acts i j"
| chain: "causes acts i j \<Longrightarrow> causes acts j k \<Longrightarrow> causes acts i k"

lemma timestamp_ClockTick [simp]: "timestamp (ClockTick (EventMetadata_new ts t n) e) = ts"
  by (simp add: timestamp_def metadata_def EventMetadata_new_def)

lemma stamp_increment: "unat (stamp ts) < 2 ^ 64 - 1 \<Longrightarrow> unat (stamp (increment ts)) = unat (stamp ts) + 1"
  by (simp add: increment_def unat_add1 unat_not_max)

lemma stamp_sync:
  assumes "unat (stamp self) < 2 ^ 64 - 1" "unat (stamp remote) < 2 ^ 64 - 1"
  shows "unat (stamp (sync remote self)) = max (unat (stamp self)) (unat (stamp remote)) + 1"
proof -
  have "unat (max (stamp self) (stamp remote)) = max (unat (stamp self)) (unat (stamp remote))"
    by (simp add: max_def word_le_nat_alt)
  then show ?thesis using assms by (simp add: sync_def saturating_add_def unat_add1 unat_not_max)
qed

text \<open>After the first actions: every clock and message is at most the number of events, a thread's clock is at least its
  events' timestamps, a message carries the timestamp of its sending, and timestamps grow along a thread and along a
  message.\<close>

definition log_bounded :: "nat \<Rightarrow> clocks \<Rightarrow> bool" where
  "log_bounded n c \<longleftrightarrow> length (ck_log c) = n \<and> (\<forall>t. unat (stamp (ck_clock c t)) \<le> n)
     \<and> (\<forall>m ts. ck_msgs c m = Some ts \<longrightarrow> unat (stamp ts) \<le> n)"

definition log_covered :: "clock_act list \<Rightarrow> nat \<Rightarrow> clocks \<Rightarrow> bool" where
  "log_covered acts n c \<longleftrightarrow> (\<forall>i<n. timestamp (ck_log c ! i) \<le> ck_clock c (act_thread (acts ! i)))
     \<and> (\<forall>i<n. \<forall>t m. acts ! i = SendAct t m \<longrightarrow> ck_msgs c m = Some (timestamp (ck_log c ! i)))"

definition edge_between :: "clock_act list \<Rightarrow> nat \<Rightarrow> nat \<Rightarrow> bool" where
  "edge_between acts i j \<longleftrightarrow> i < j \<and> (act_thread (acts ! i) = act_thread (acts ! j)
     \<or> (\<exists>t u m. acts ! i = SendAct t m \<and> acts ! j = RecvAct u m))"

definition log_ordered :: "clock_act list \<Rightarrow> nat \<Rightarrow> clocks \<Rightarrow> bool" where
  "log_ordered acts n c \<longleftrightarrow> (\<forall>i j. j < n \<longrightarrow> edge_between acts i j \<longrightarrow> timestamp (ck_log c ! i) < timestamp (ck_log c ! j))"

text \<open>A step that advances the clock of its thread beyond its old value, by at most one beyond all values so far.\<close>

lemma tick_inv:
  assumes "log_bounded n c" "log_covered acts n c" "log_ordered acts n c" "act_thread (acts ! n) = t"
    and new: "ck_clock c t < new" "unat (stamp new) \<le> Suc n"
    and msg: "\<And>u m i. acts ! n = RecvAct u m \<Longrightarrow> i < n \<Longrightarrow> (\<exists>v. acts ! i = SendAct v m) \<Longrightarrow> timestamp (ck_log c ! i) < new"
  shows "length (ck_log (tick t new c)) = Suc n" "unat (stamp (ck_clock (tick t new c) u)) \<le> Suc n"
    and "i < Suc n \<Longrightarrow> timestamp (ck_log (tick t new c) ! i) \<le> ck_clock (tick t new c) (act_thread (acts ! i))"
    and "ck_log (tick t new c) ! n = ClockTick (EventMetadata_new new t (of_nat n)) \<lparr>ce_prev_timestamp = ck_clock c t, ce_new_timestamp = new\<rparr>"
    and "i < n \<Longrightarrow> ck_log (tick t new c) ! i = ck_log c ! i"
    and "log_ordered acts (Suc n) (tick t new c)"
proof -
  have len: "length (ck_log c) = n" using assms(1) by (simp add: log_bounded_def)
  have old: "timestamp (ck_log c ! i) \<le> ck_clock c (act_thread (acts ! i))" if "i < n" for i
    using assms(2) that by (simp add: log_covered_def)
  show "length (ck_log (tick t new c)) = Suc n" by (simp add: tick_def len)
  show "unat (stamp (ck_clock (tick t new c) u)) \<le> Suc n"
    using assms(1) new(2) by (simp add: tick_def log_bounded_def le_SucI)
  show last: "ck_log (tick t new c) ! n = ClockTick (EventMetadata_new new t (of_nat n)) \<lparr>ce_prev_timestamp = ck_clock c t, ce_new_timestamp = new\<rparr>"
    by (simp add: tick_def len nth_append)
  show before: "ck_log (tick t new c) ! i = ck_log c ! i" if "i < n" for i using that by (simp add: tick_def len nth_append)
  show "timestamp (ck_log (tick t new c) ! i) \<le> ck_clock (tick t new c) (act_thread (acts ! i))" if "i < Suc n"
  proof (cases "i = n")
    case True
    then show ?thesis using last assms(4) by (simp add: tick_def)
  next
    case False
    then have "i < n" using that by simp
    with old [OF this] before new(1) show ?thesis by (auto simp: tick_def)
  qed
  show "log_ordered acts (Suc n) (tick t new c)" unfolding log_ordered_def
  proof (intro allI impI)
    fix i j assume j: "j < Suc n" and e: "edge_between acts i j"
    have i: "i < j" using e by (simp add: edge_between_def)
    show "timestamp (ck_log (tick t new c) ! i) < timestamp (ck_log (tick t new c) ! j)"
    proof (cases "j = n")
      case True
      have "timestamp (ck_log c ! i) < new"
      proof (cases "act_thread (acts ! i) = t")
        case True
        then show ?thesis using old [of i] new(1) i \<open>j = n\<close> by auto
      next
        case False
        with e True assms(4) obtain v u m where "acts ! i = SendAct v m" "acts ! n = RecvAct u m"
          by (auto simp: edge_between_def)
        with msg i True show ?thesis by blast
      qed
      with True i before last show ?thesis by simp
    next
      case False
      then have "j < n" using j by simp
      with assms(3) e have "timestamp (ck_log c ! i) < timestamp (ck_log c ! j)" by (simp add: log_ordered_def)
      with \<open>j < n\<close> i before show ?thesis by simp
    qed
  qed
qed

definition clocks_inv :: "clock_act list \<Rightarrow> nat \<Rightarrow> clocks \<Rightarrow> bool" where
  "clocks_inv acts n c \<longleftrightarrow> log_bounded n c \<and> log_covered acts n c \<and> log_ordered acts n c"

lemma LamportTimestamp_less: "a < b \<longleftrightarrow> unat (stamp a) < unat (stamp b)"
  by (simp add: less_LamportTimestamp_def word_less_nat_alt)

lemma clock_step_inv:
  assumes "clocks_inv acts n c" "n < length acts" "proper_run acts" "Suc n < 2 ^ 64"
  shows "clocks_inv acts (Suc n) (clock_step (acts ! n) c)"
proof -
  have inv: "log_bounded n c" "log_covered acts n c" "log_ordered acts n c" using assms(1) unfolding clocks_inv_def by blast+
  have clock: "unat (stamp (ck_clock c t)) \<le> n" for t using inv(1) by (simp add: log_bounded_def)
  have up: "ck_clock c t < increment (ck_clock c t)" "unat (stamp (increment (ck_clock c t))) \<le> Suc n" for t
    using clock [of t] assms(4) by (simp_all add: LamportTimestamp_less stamp_increment)
  have msgs: "unat (stamp ts) \<le> n" if "ck_msgs c m = Some ts" for m ts using inv(1) that unfolding log_bounded_def by blast
  have sent: "ck_msgs c m = Some (timestamp (ck_log c ! i))" if "i < n" "acts ! i = SendAct t m" for i t m
    using inv(2) that unfolding log_covered_def by blast
  show ?thesis
  proof (cases "acts ! n")
    case (LocalAct t)
    note T = tick_inv [OF inv _ up, of t]
    show ?thesis unfolding clocks_inv_def log_bounded_def log_covered_def
      using T(1-3,5,6) LocalAct msgs sent by (auto simp: tick_def less_Suc_eq le_SucI)
  next
    case (SendAct t m)
    have other: "acts ! i \<noteq> SendAct u m" if "i < n" for i u
    proof
      assume "acts ! i = SendAct u m"
      with SendAct assms(2,3) that have "i = n" unfolding proper_run_def by (meson less_trans)
      with that show False by simp
    qed
    note T = tick_inv [OF inv _ up, of t]
    have "log_ordered acts (Suc n) (clock_step (acts ! n) c)" using T(6) SendAct by (simp add: Let_def log_ordered_def)
    moreover have "log_bounded (Suc n) (clock_step (acts ! n) c)"
      using T(1,2) SendAct up(2) msgs by (auto simp: log_bounded_def Let_def le_SucI)
    moreover have "log_covered acts (Suc n) (clock_step (acts ! n) c)"
      using T(3-5) SendAct sent other by (auto simp: log_covered_def Let_def less_Suc_eq)
    ultimately show ?thesis by (simp add: clocks_inv_def)
  next
    case (RecvAct t m)
    then obtain i u where i: "i < n" "acts ! i = SendAct u m" using assms(2,3) unfolding proper_run_def by blast
    let ?r = "timestamp (ck_log c ! i)" and ?new = "sync (timestamp (ck_log c ! i)) (ck_clock c t)"
    have r: "ck_msgs c m = Some ?r" by (rule sent [OF i])
    have new: "unat (stamp ?new) = max (unat (stamp (ck_clock c t))) (unat (stamp ?r)) + 1"
      using clock [of t] msgs [OF r] assms(4) by (intro stamp_sync) auto
    then have grows: "ck_clock c t < ?new" "unat (stamp ?new) \<le> Suc n" "?r < ?new"
      using clock [of t] msgs [OF r] by (auto simp: LamportTimestamp_less)
    have from_msg: "timestamp (ck_log c ! j) < ?new" if "acts ! n = RecvAct v m'" "j < n" "\<exists>w. acts ! j = SendAct w m'" for v m' j
    proof -
      have "ck_msgs c m = Some (timestamp (ck_log c ! j))" using that RecvAct sent by auto
      with r grows(3) show ?thesis by simp
    qed
    note T = tick_inv [OF inv _ grows(1,2) from_msg]
    show ?thesis unfolding clocks_inv_def log_bounded_def log_covered_def
      using T(1-3,5,6) RecvAct r msgs sent by (auto simp: tick_def less_Suc_eq le_SucI)
  qed
qed

lemma clock_run_inv:
  "n \<le> length acts \<Longrightarrow> proper_run acts \<Longrightarrow> length acts < 2 ^ 64 \<Longrightarrow> clocks_inv acts n (fold clock_step (take n acts) clocks_start)"
proof (induction n)
  case 0
  then show ?case by (simp add: clocks_inv_def log_bounded_def log_covered_def log_ordered_def clocks_start_def LAMPORT_ZERO_def)
next
  case (Suc n)
  from clock_step_inv [OF Suc.IH] Suc.prems show ?case by (simp add: take_Suc_conv_app_nth)
qed

text \<open>(C24) Lamport timestamps respect causality. Let threads keep their clocks with \<open>increment\<close> and \<open>sync\<close> as documented and
  log every tick. In any run with fewer than 2 to the power 64 events that receives only what was sent and sends each
  message once, an event that causally precedes another, along its thread, through a message or through any
  chain of these, is before it by \<open>happens_before\<close>.\<close>

theorem lamport_clock_condition:
  assumes "proper_run acts" "length acts < 2 ^ 64" "causes acts i j"
  shows "happens_before (ck_log (fold clock_step acts clocks_start) ! i) (ck_log (fold clock_step acts clocks_start) ! j)"
proof -
  have "clocks_inv acts (length acts) (fold clock_step acts clocks_start)"
    using clock_run_inv [of "length acts" acts] assms(1,2) by simp
  then have edge: "j < length acts \<Longrightarrow> edge_between acts i j \<Longrightarrow>
      timestamp (ck_log (fold clock_step acts clocks_start) ! i) < timestamp (ck_log (fold clock_step acts clocks_start) ! j)" for i j
    by (simp add: clocks_inv_def log_ordered_def)
  from assms(3) show ?thesis unfolding happens_before_def
  proof induction
    case (program i j)
    then show ?case by (intro edge) (simp_all add: edge_between_def)
  next
    case (message i j t m u)
    then show ?case by (intro edge) (auto simp: edge_between_def)
  next
    case (chain i j k)
    then show ?case by simp
  qed
qed

text \<open>Thread 0 sends, thread 1 receives after a local event and goes on.\<close>

theorem lamport_clock_condition_witness:
  "happens_before
     (ck_log (fold clock_step [SendAct (TraceThread 0) 5, LocalAct (TraceThread 1), RecvAct (TraceThread 1) 5, LocalAct (TraceThread 1)]
        clocks_start) ! 0)
     (ck_log (fold clock_step [SendAct (TraceThread 0) 5, LocalAct (TraceThread 1), RecvAct (TraceThread 1) 5, LocalAct (TraceThread 1)]
        clocks_start) ! 3)"
    (is "happens_before (ck_log (fold _ ?acts _) ! _) _")
proof (rule lamport_clock_condition)
  have idx: "i < 4 \<longleftrightarrow> i = 0 \<or> i = 1 \<or> i = 2 \<or> i = (3::nat)" for i by auto
  show "proper_run ?acts"
    unfolding proper_run_def by (auto simp: idx less_Suc_eq numeral_3_eq_3 numeral_2_eq_2)
  have "causes ?acts 0 2" by (rule causes.message) simp_all
  moreover have "causes ?acts 2 3" by (rule causes.program) simp_all
  ultimately show "causes ?acts 0 3" by (rule causes.chain)
qed simp

section \<open>Scheduled events\<close>

datatype Ordering = Less | Equal | Greater

fun reverse_ordering :: "Ordering \<Rightarrow> Ordering" where
  "reverse_ordering Less = Greater"
| "reverse_ordering Equal = Equal"
| "reverse_ordering Greater = Less"

definition u64_cmp :: "u64 \<Rightarrow> u64 \<Rightarrow> Ordering" where
  "u64_cmp a b = (if a < b then Less else if a = b then Equal else Greater)"

datatype TimeMode = EventDriven | RealTime

datatype EventPayload =
    PayTest u64
  | PayMemoryWriteSync CoreId Address u64
  | PayMemoryFence CoreId
  | PayTaskReady string
  | PayWatchdogTimeout string
  | PayCustom string

record ScheduledEvent =
  scheduled_at_ns :: u64
  lamport :: u64
  event_id :: u64
  payload :: EventPayload

definition ScheduledEvent_new :: "u64 \<Rightarrow> u64 \<Rightarrow> u64 \<Rightarrow> EventPayload \<Rightarrow> ScheduledEvent" where
  "ScheduledEvent_new at l i p = \<lparr>scheduled_at_ns = at, lamport = l, event_id = i, payload = p\<rparr>"

definition ScheduledEvent_eq :: "ScheduledEvent \<Rightarrow> ScheduledEvent \<Rightarrow> bool" where
  "ScheduledEvent_eq self other \<longleftrightarrow> event_id self = event_id other"

definition ScheduledEvent_cmp :: "ScheduledEvent \<Rightarrow> ScheduledEvent \<Rightarrow> Ordering" where
  "ScheduledEvent_cmp self other =
     (case u64_cmp (scheduled_at_ns other) (scheduled_at_ns self) of
        Equal \<Rightarrow>
          (case u64_cmp (lamport other) (lamport self) of
             Equal \<Rightarrow> u64_cmp (event_id other) (event_id self)
           | ord \<Rightarrow> ord)
      | ord \<Rightarrow> ord)"

definition ScheduledEvent_partial_cmp :: "ScheduledEvent \<Rightarrow> ScheduledEvent \<Rightarrow> Ordering option" where
  "ScheduledEvent_partial_cmp self other = Some (ScheduledEvent_cmp self other)"

text \<open>What a max-heap of scheduled events returns: an event that no other exceeds. The specification is the
  \<open>SelectNextEvent\<close> of the TLA+ model that the source quotes.\<close>

definition top_of :: "ScheduledEvent set \<Rightarrow> ScheduledEvent \<Rightarrow> bool" where
  "top_of queue e \<longleftrightarrow> e \<in> queue \<and> (\<forall>other\<in>queue. ScheduledEvent_cmp other e \<noteq> Greater)"

definition SelectNextEvent :: "ScheduledEvent set \<Rightarrow> ScheduledEvent \<Rightarrow> bool" where
  "SelectNextEvent queue e \<longleftrightarrow> e \<in> queue \<and> (\<forall>other\<in>queue. scheduled_at_ns e < scheduled_at_ns other
     \<or> scheduled_at_ns e = scheduled_at_ns other \<and> lamport e \<le> lamport other)"

text \<open>The event the queue is documented to hand out: the events are sorted by time, then by Lamport clock, then by id, each ascending.\<close>

definition first_due :: "ScheduledEvent set \<Rightarrow> ScheduledEvent \<Rightarrow> bool" where
  "first_due queue e \<longleftrightarrow> e \<in> queue
     \<and> (\<forall>other\<in>queue. scheduled_at_ns e \<le> scheduled_at_ns other)
     \<and> (\<forall>other\<in>queue. scheduled_at_ns other = scheduled_at_ns e \<longrightarrow> lamport e \<le> lamport other)
     \<and> (\<forall>other\<in>queue. scheduled_at_ns other = scheduled_at_ns e \<and> lamport other = lamport e \<longrightarrow> event_id e \<le> event_id other)"

lemma ScheduledEvent_cmp_Greater:
  "ScheduledEvent_cmp a b = Greater \<longleftrightarrow> scheduled_at_ns a < scheduled_at_ns b
     \<or> scheduled_at_ns a = scheduled_at_ns b \<and> (lamport a < lamport b \<or> lamport a = lamport b \<and> event_id a < event_id b)"
  by (auto simp: ScheduledEvent_cmp_def u64_cmp_def split: Ordering.splits)

lemma ScheduledEvent_cmp_reverse: "ScheduledEvent_cmp b a = reverse_ordering (ScheduledEvent_cmp a b)"
  by (auto simp: ScheduledEvent_cmp_def u64_cmp_def)

lemma ScheduledEvent_cmp_Equal:
  "ScheduledEvent_cmp a b = Equal \<longleftrightarrow> scheduled_at_ns a = scheduled_at_ns b \<and> lamport a = lamport b \<and> event_id a = event_id b"
  by (auto simp: ScheduledEvent_cmp_def u64_cmp_def split: Ordering.splits if_splits)

lemma ScheduledEvent_cmp_trans:
  "ScheduledEvent_cmp a b = Greater \<Longrightarrow> ScheduledEvent_cmp b c = Greater \<Longrightarrow> ScheduledEvent_cmp a c = Greater"
  unfolding ScheduledEvent_cmp_Greater by (auto intro: less_trans)

lemma top_iff_first_due: "top_of queue e \<longleftrightarrow> first_due queue e"
  unfolding top_of_def first_due_def ScheduledEvent_cmp_Greater by (auto simp: not_less order.order_iff_strict)

lemma first_due_selected: "first_due queue e \<Longrightarrow> SelectNextEvent queue e"
  unfolding first_due_def SelectNextEvent_def by (metis order.order_iff_strict)

lemma first_due_exists:
  assumes "finite queue" "queue \<noteq> {}"
  shows "\<exists>e. first_due queue e"
  using assms unfolding top_iff_first_due [symmetric]
proof (induction queue rule: finite_ne_induct)
  case (singleton x)
  have "ScheduledEvent_cmp x x = Equal" by (simp add: ScheduledEvent_cmp_Equal)
  then show ?case by (auto simp: top_of_def)
next
  case (insert x F)
  then obtain e where e: "top_of F e" by blast
  have xx: "ScheduledEvent_cmp x x = Equal" by (simp add: ScheduledEvent_cmp_Equal)
  show ?case
  proof (cases "ScheduledEvent_cmp x e = Greater")
    case True
    have "ScheduledEvent_cmp y x \<noteq> Greater" if "y \<in> F" for y
      using ScheduledEvent_cmp_trans [OF _ True, of y] e that by (auto simp: top_of_def)
    with xx have "top_of (insert x F) x" by (simp add: top_of_def)
    then show ?thesis ..
  next
    case False
    with e have "top_of (insert x F) e" by (simp add: top_of_def)
    then show ?thesis ..
  qed
qed

lemma first_due_unique: "inj_on event_id queue \<Longrightarrow> first_due queue e \<Longrightarrow> first_due queue e' \<Longrightarrow> e = e'"
  unfolding first_due_def by (metis inj_onD order.antisym)

text \<open>(C36) The event queue hands out exactly the event it is documented to. The comparison is a
  strict total order on keys (antisymmetric, transitive, equal only on equal time, clock and id). An event is maximal in a queue if and only if it has the
  earliest time, among these the smallest Lamport clock and among these the smallest id. Such an event satisfies the
  \<open>SelectNextEvent\<close> of the TLA+ model, every non-empty finite queue has one, and when the ids in the queue are
  unique there is exactly one, so that the choice that the model leaves open is made by the id, and the comparison agrees with \<open>eq\<close>.\<close>

theorem event_queue_order:
  "ScheduledEvent_cmp b a = reverse_ordering (ScheduledEvent_cmp a b)
   \<and> (ScheduledEvent_cmp a b = Greater \<and> ScheduledEvent_cmp b c = Greater \<longrightarrow> ScheduledEvent_cmp a c = Greater)
   \<and> (top_of queue e \<longleftrightarrow> first_due queue e)
   \<and> (top_of queue e \<longrightarrow> SelectNextEvent queue e)
   \<and> (finite queue \<and> queue \<noteq> {} \<longrightarrow> (\<exists>e. top_of queue e))
   \<and> (inj_on event_id queue \<longrightarrow> top_of queue e \<and> top_of queue e' \<longrightarrow> e = e')
   \<and> (inj_on event_id queue \<and> a \<in> queue \<and> b \<in> queue \<longrightarrow> (ScheduledEvent_cmp a b = Equal \<longleftrightarrow> ScheduledEvent_eq a b))"
proof -
  have agrees: "ScheduledEvent_cmp a b = Equal \<longleftrightarrow> ScheduledEvent_eq a b" if "inj_on event_id queue" "a \<in> queue" "b \<in> queue"
    using that by (auto simp: ScheduledEvent_cmp_Equal ScheduledEvent_eq_def dest: inj_onD)
  show ?thesis
    unfolding top_iff_first_due
    using ScheduledEvent_cmp_trans [of a b c] first_due_selected first_due_exists first_due_unique agrees
    by (intro conjI impI, intro ScheduledEvent_cmp_reverse) simp_all
qed

text \<open>Three events: the time decides first, then the smaller Lamport clock, then the smaller id.\<close>

definition demo_queue :: "ScheduledEvent set" where
  "demo_queue = {ScheduledEvent_new 5 1 9 (PayTest 0), ScheduledEvent_new 5 1 7 (PayTest 1), ScheduledEvent_new 5 2 3 (PayTest 2), ScheduledEvent_new 6 0 1 (PayTest 3)}"

theorem event_queue_order_witness:
  "top_of demo_queue (ScheduledEvent_new 5 1 7 (PayTest 1)) \<and> \<not> top_of demo_queue (ScheduledEvent_new 5 1 9 (PayTest 0))
   \<and> SelectNextEvent demo_queue (ScheduledEvent_new 5 1 7 (PayTest 1))"
proof -
  have "first_due demo_queue (ScheduledEvent_new 5 1 7 (PayTest 1))" "\<not> first_due demo_queue (ScheduledEvent_new 5 1 9 (PayTest 0))"
    by (simp_all add: first_due_def demo_queue_def ScheduledEvent_new_def)
  with event_queue_order show ?thesis by blast
qed

text \<open>With an id used twice, \<open>eq\<close> and the comparison disagree, against the contract of \<open>Ord\<close>.\<close>

lemma reused_id_breaks_ord:
  "ScheduledEvent_eq (ScheduledEvent_new 5 2 7 p) (ScheduledEvent_new 6 2 7 p)
   \<and> ScheduledEvent_cmp (ScheduledEvent_new 5 2 7 p) (ScheduledEvent_new 6 2 7 p) = Greater"
  by (simp add: ScheduledEvent_eq_def ScheduledEvent_cmp_def u64_cmp_def ScheduledEvent_new_def)

end
