(* ===== verification/Harness.thy ===== *)
theory Harness
  imports Prelude
begin

text \<open>
  The harness specifications of \<^verbatim>\<open>laplace-interfaces/src/domain/harness\<close>: thread programs over named resources and
  gates (\<^verbatim>\<open>spec.rs\<close>), their builder (\<^verbatim>\<open>builder.rs\<close>) and the static check for opposite acquisition orders.
\<close>

section \<open>Specifications\<close>

type_synonym GateId = string

type_synonym HarnessResourceId = string

datatype ReleasePolicy = WaitFor | Simultaneous

record GateSpec =
  gs_id :: GateId
  gs_wait_for :: nat
  gs_policy :: ReleasePolicy

record ResourceSpec =
  rs_id :: HarnessResourceId

datatype ThreadAction = Gate GateId | ReleaseGate GateId | Acquire HarnessResourceId | ReleaseResource HarnessResourceId | Finish

record ThreadSpec =
  ts_id :: string
  ts_actions :: "ThreadAction list"

record HarnessSpec =
  hs_threads :: "ThreadSpec list"
  hs_resources :: "ResourceSpec list"
  hs_sync_points :: "GateSpec list"

section \<open>The check\<close>

text \<open>The loop over the actions, with the held resources and the pairs so far.\<close>

fun pairs_loop :: "HarnessResourceId list \<Rightarrow> (HarnessResourceId \<times> HarnessResourceId) list \<Rightarrow> ThreadAction list \<Rightarrow>
    (HarnessResourceId \<times> HarnessResourceId) list" where
  "pairs_loop held pairs [] = pairs"
| "pairs_loop held pairs (action # actions) =
     (case action of
        Acquire resource \<Rightarrow>
          pairs_loop (if resource \<notin> set held then held @ [resource] else held) (pairs @ map (\<lambda>prior. (prior, resource)) held) actions
      | ReleaseResource resource \<Rightarrow> pairs_loop (filter (\<lambda>held_resource. held_resource \<noteq> resource) held) pairs actions
      | _ \<Rightarrow> pairs_loop held pairs actions)"

definition held_acquisition_pairs :: "ThreadSpec \<Rightarrow> (HarnessResourceId \<times> HarnessResourceId) list" where
  "held_acquisition_pairs thread = pairs_loop [] [] (ts_actions thread)"

definition acquisition_pairs_conflict :: "ThreadSpec \<Rightarrow> ThreadSpec \<Rightarrow> bool" where
  "acquisition_pairs_conflict a b \<longleftrightarrow>
     list_ex (\<lambda>(first, second). list_ex (\<lambda>(other_first, other_second). first = other_second \<and> second = other_first)
       (held_acquisition_pairs b)) (held_acquisition_pairs a)"

definition detects_abba_deadlock :: "HarnessSpec \<Rightarrow> bool" where
  "detects_abba_deadlock self \<longleftrightarrow>
     list_ex (\<lambda>i. list_ex (\<lambda>j. acquisition_pairs_conflict (hs_threads self ! i) (hs_threads self ! j))
       [i + 1..<length (hs_threads self)]) [0..<length (hs_threads self)]"

section \<open>The builder\<close>

record DeadlockProbe =
  dp_threads :: "ThreadSpec list"
  dp_resources :: "ResourceSpec list"
  dp_sync_points :: "GateSpec list"

record ThreadBuilder =
  tb_probe :: DeadlockProbe
  tb_thread :: ThreadSpec

record ResourceBuilder =
  rb_probe :: DeadlockProbe
  rb_resource :: ResourceSpec

record GateBuilder =
  gb_probe :: DeadlockProbe
  gb_id :: GateId
  gb_wait_for :: nat
  gb_policy :: ReleasePolicy

definition DeadlockProbe_new :: DeadlockProbe where
  "DeadlockProbe_new = \<lparr>dp_threads = [], dp_resources = [], dp_sync_points = []\<rparr>"

definition DeadlockProbe_thread :: "string \<Rightarrow> DeadlockProbe \<Rightarrow> ThreadBuilder" where
  "DeadlockProbe_thread i self = \<lparr>tb_probe = self, tb_thread = \<lparr>ts_id = i, ts_actions = []\<rparr>\<rparr>"

definition DeadlockProbe_resource :: "string \<Rightarrow> DeadlockProbe \<Rightarrow> ResourceBuilder" where
  "DeadlockProbe_resource i self = \<lparr>rb_probe = self, rb_resource = \<lparr>rs_id = i\<rparr>\<rparr>"

definition DeadlockProbe_gate :: "string \<Rightarrow> DeadlockProbe \<Rightarrow> GateBuilder" where
  "DeadlockProbe_gate i self = \<lparr>gb_probe = self, gb_id = i, gb_wait_for = 1, gb_policy = WaitFor\<rparr>"

definition DeadlockProbe_build :: "DeadlockProbe \<Rightarrow> HarnessSpec" where
  "DeadlockProbe_build self =
     \<lparr>hs_threads = dp_threads self, hs_resources = dp_resources self, hs_sync_points = dp_sync_points self\<rparr>"

definition push_action :: "ThreadAction \<Rightarrow> ThreadBuilder \<Rightarrow> ThreadBuilder" where
  "push_action action self = self\<lparr>tb_thread := (tb_thread self)\<lparr>ts_actions := ts_actions (tb_thread self) @ [action]\<rparr>\<rparr>"

definition ThreadBuilder_gate :: "string \<Rightarrow> ThreadBuilder \<Rightarrow> ThreadBuilder" where
  "ThreadBuilder_gate i self = push_action (Gate i) self"

definition ThreadBuilder_release_gate :: "string \<Rightarrow> ThreadBuilder \<Rightarrow> ThreadBuilder" where
  "ThreadBuilder_release_gate i self = push_action (ReleaseGate i) self"

definition ThreadBuilder_acquires :: "string \<Rightarrow> ThreadBuilder \<Rightarrow> ThreadBuilder" where
  "ThreadBuilder_acquires i self = push_action (Acquire i) self"

definition ThreadBuilder_then_acquires :: "string \<Rightarrow> ThreadBuilder \<Rightarrow> ThreadBuilder" where
  "ThreadBuilder_then_acquires i self = ThreadBuilder_acquires i self"

definition ThreadBuilder_releases :: "string \<Rightarrow> ThreadBuilder \<Rightarrow> ThreadBuilder" where
  "ThreadBuilder_releases i self = push_action (ReleaseResource i) self"

definition ThreadBuilder_done :: "ThreadBuilder \<Rightarrow> DeadlockProbe" where
  "ThreadBuilder_done self =
     (let probe = tb_probe self; thread = tb_thread (push_action Finish self) in
      probe\<lparr>dp_threads := dp_threads probe @ [thread]\<rparr>)"

definition ResourceBuilder_done :: "ResourceBuilder \<Rightarrow> DeadlockProbe" where
  "ResourceBuilder_done self =
     (let probe = rb_probe self in probe\<lparr>dp_resources := dp_resources probe @ [rb_resource self]\<rparr>)"

definition GateBuilder_wait_for :: "nat \<Rightarrow> GateBuilder \<Rightarrow> GateBuilder" where
  "GateBuilder_wait_for n self = self\<lparr>gb_wait_for := n\<rparr>"

definition GateBuilder_simultaneous :: "GateBuilder \<Rightarrow> GateBuilder" where
  "GateBuilder_simultaneous self = self\<lparr>gb_policy := Simultaneous\<rparr>"

definition GateBuilder_done :: "GateBuilder \<Rightarrow> DeadlockProbe" where
  "GateBuilder_done self =
     (let probe = gb_probe self in probe\<lparr>dp_sync_points := dp_sync_points probe @
        [\<lparr>gs_id = gb_id self, gs_wait_for = gb_wait_for self, gs_policy = gb_policy self\<rparr>]\<rparr>)"

section \<open>What the pairs are\<close>

text \<open>The resources a thread holds after some actions.\<close>

fun hold_action :: "ThreadAction \<Rightarrow> HarnessResourceId set \<Rightarrow> HarnessResourceId set" where
  "hold_action (Acquire r) H = insert r H"
| "hold_action (ReleaseResource r) H = H - {r}"
| "hold_action _ H = H"

definition held_after :: "ThreadAction list \<Rightarrow> HarnessResourceId set" where
  "held_after actions = fold hold_action actions {}"

text \<open>The nestings of an action list that starts with some resources held.\<close>

definition nestings :: "HarnessResourceId set \<Rightarrow> ThreadAction list \<Rightarrow> (HarnessResourceId \<times> HarnessResourceId) set" where
  "nestings H actions = {(a, b). \<exists>k<length actions. actions ! k = Acquire b \<and> a \<in> fold hold_action (take k actions) H}"

lemma nestings_simps:
  "nestings H [] = {}"
  "nestings H (action # actions) = {(a, b). action = Acquire b \<and> a \<in> H} \<union> nestings (hold_action action H) actions"
  by (auto simp: nestings_def less_Suc_eq_0_disj)

lemma pairs_loop_set: "set (pairs_loop held pairs actions) = set pairs \<union> nestings (set held) actions"
proof (induction actions arbitrary: held pairs)
  case (Cons action actions)
  show ?case
  proof (cases action)
    case (Acquire r)
    have "set (if r \<notin> set held then held @ [r] else held) = insert r (set held)" by auto
    moreover have "{(a, b). Acquire r = Acquire b \<and> a \<in> set held} = (\<lambda>prior. (prior, r)) ` set held" by auto
    ultimately show ?thesis using Cons.IH by (simp add: Acquire nestings_simps Un_assoc)
  next
    case (ReleaseResource r)
    have "set (filter (\<lambda>held_resource. held_resource \<noteq> r) held) = set held - {r}" by auto
    then show ?thesis using Cons.IH by (simp add: ReleaseResource nestings_simps)
  qed (simp_all add: Cons.IH nestings_simps)
qed (simp add: nestings_simps)

lemma held_acquisition_pairs_set:
  "(a, b) \<in> set (held_acquisition_pairs th) \<longleftrightarrow>
     (\<exists>k<length (ts_actions th). ts_actions th ! k = Acquire b \<and> a \<in> held_after (take k (ts_actions th)))"
  by (simp add: held_acquisition_pairs_def pairs_loop_set held_after_def nestings_def)

lemma conflict_iff: "acquisition_pairs_conflict x y \<longleftrightarrow>
    (\<exists>a b. (a, b) \<in> set (held_acquisition_pairs x) \<and> (b, a) \<in> set (held_acquisition_pairs y))"
  unfolding acquisition_pairs_conflict_def list_ex_iff by blast

lemma detects_iff:
  "detects_abba_deadlock spec \<longleftrightarrow> (\<exists>i j. i < j \<and> j < length (hs_threads spec)
     \<and> acquisition_pairs_conflict (hs_threads spec ! i) (hs_threads spec ! j))"
proof
  assume "detects_abba_deadlock spec"
  then show "\<exists>i j. i < j \<and> j < length (hs_threads spec) \<and> acquisition_pairs_conflict (hs_threads spec ! i) (hs_threads spec ! j)"
    unfolding detects_abba_deadlock_def list_ex_iff set_upt
    by (metis Suc_eq_plus1 Suc_le_eq atLeastLessThan_iff)
next
  assume "\<exists>i j. i < j \<and> j < length (hs_threads spec) \<and> acquisition_pairs_conflict (hs_threads spec ! i) (hs_threads spec ! j)"
  then obtain i j where ij: "i < j" "j < length (hs_threads spec)"
    and conflict: "acquisition_pairs_conflict (hs_threads spec ! i) (hs_threads spec ! j)" by blast
  from ij have "i \<in> set [0..<length (hs_threads spec)]" "j \<in> set [i + 1..<length (hs_threads spec)]" by auto
  with conflict show "detects_abba_deadlock spec" unfolding detects_abba_deadlock_def list_ex_iff by blast
qed

section \<open>Running a specification\<close>

text \<open>The threads run their actions in any interleaving. A resource has at most one owner and acquiring waits for it to be free,
  or already the thread's own. Gates only restrict the interleavings, so they are passed freely here and every run
  with gates is among the runs below.\<close>

record harness_state =
  hr_pc :: "nat \<Rightarrow> nat"
  hr_owner :: "HarnessResourceId \<rightharpoonup> nat"

definition next_action :: "HarnessSpec \<Rightarrow> harness_state \<Rightarrow> nat \<Rightarrow> ThreadAction option" where
  "next_action spec s i =
     (if i < length (hs_threads spec) \<and> hr_pc s i < length (ts_actions (hs_threads spec ! i))
      then Some (ts_actions (hs_threads spec ! i) ! hr_pc s i) else None)"

definition advance :: "nat \<Rightarrow> harness_state \<Rightarrow> harness_state" where
  "advance i s = s\<lparr>hr_pc := (hr_pc s)(i := Suc (hr_pc s i))\<rparr>"

inductive harness_step :: "HarnessSpec \<Rightarrow> harness_state \<Rightarrow> harness_state \<Rightarrow> bool" for spec where
  acquire: "next_action spec s i = Some (Acquire r) \<Longrightarrow> hr_owner s r = None \<or> hr_owner s r = Some i \<Longrightarrow>
    harness_step spec s ((advance i s)\<lparr>hr_owner := (hr_owner s)(r \<mapsto> i)\<rparr>)"
| release: "next_action spec s i = Some (ReleaseResource r) \<Longrightarrow>
    harness_step spec s ((advance i s)\<lparr>hr_owner := if hr_owner s r = Some i then (hr_owner s)(r := None) else hr_owner s\<rparr>)"
| other: "next_action spec s i = Some a \<Longrightarrow> a = Gate g \<or> a = ReleaseGate g \<or> a = Finish \<Longrightarrow> harness_step spec s (advance i s)"

inductive harness_reach :: "HarnessSpec \<Rightarrow> harness_state \<Rightarrow> bool" for spec where
  start: "harness_reach spec \<lparr>hr_pc = (\<lambda>_. 0), hr_owner = Map.empty\<rparr>"
| step: "harness_reach spec s \<Longrightarrow> harness_step spec s s' \<Longrightarrow> harness_reach spec s'"

text \<open>Two threads, each about to acquire what the other owns.\<close>

definition stuck_pair :: "HarnessSpec \<Rightarrow> harness_state \<Rightarrow> nat \<Rightarrow> nat \<Rightarrow> bool" where
  "stuck_pair spec s i j \<longleftrightarrow> i \<noteq> j \<and> (\<exists>a b. next_action spec s i = Some (Acquire b) \<and> hr_owner s b = Some j
     \<and> next_action spec s j = Some (Acquire a) \<and> hr_owner s a = Some i)"

definition owners_held :: "HarnessSpec \<Rightarrow> harness_state \<Rightarrow> bool" where
  "owners_held spec s \<longleftrightarrow> (\<forall>r i. hr_owner s r = Some i \<longrightarrow> r \<in> held_after (take (hr_pc s i) (ts_actions (hs_threads spec ! i))))"

lemma held_after_next:
  assumes "next_action spec s i = Some a"
  shows "held_after (take (Suc (hr_pc s i)) (ts_actions (hs_threads spec ! i)))
    = hold_action a (held_after (take (hr_pc s i) (ts_actions (hs_threads spec ! i))))"
  using assms by (auto simp: next_action_def held_after_def take_Suc_conv_app_nth split: if_splits)

lemma harness_step_held:
  assumes "harness_step spec s s'" "owners_held spec s"
  shows "owners_held spec s'"
  using assms(1)
proof cases
  case (acquire i r)
  with assms(2) held_after_next [OF acquire(2)] show ?thesis by (auto simp: owners_held_def advance_def)
next
  case (release i r)
  with assms(2) held_after_next [OF release(2)] show ?thesis by (auto simp: owners_held_def advance_def split: if_splits)
next
  case (other i a g)
  with assms(2) held_after_next [OF other(2)] show ?thesis by (auto simp: owners_held_def advance_def)
qed

lemma harness_reach_held: "harness_reach spec s \<Longrightarrow> owners_held spec s"
proof (induction rule: harness_reach.induct)
  case start
  show ?case by (simp add: owners_held_def)
next
  case (step s s')
  from step.hyps(2) step.IH show ?case by (rule harness_step_held)
qed

lemma owned_then_pair:
  assumes "owners_held spec s" "next_action spec s i = Some (Acquire b)" "hr_owner s a = Some i"
  shows "i < length (hs_threads spec)" "(a, b) \<in> set (held_acquisition_pairs (hs_threads spec ! i))"
  using assms by (auto simp: held_acquisition_pairs_set owners_held_def next_action_def split: if_splits)

text \<open>(C28) A specification that passes the check cannot get two threads stuck on each other. If \<open>detects_abba_deadlock\<close> says
  no, then in no state that the thread programs can reach, in any interleaving, is one thread about to acquire a
  resource owned by a second thread that is itself about to acquire a resource owned by the first.\<close>

theorem unflagged_harness_has_no_stuck_pair:
  assumes "\<not> detects_abba_deadlock spec" "harness_reach spec s"
  shows "\<not> stuck_pair spec s i j"
proof
  assume "stuck_pair spec s i j"
  then obtain a b where ij: "i \<noteq> j" and i: "next_action spec s i = Some (Acquire b)" "hr_owner s a = Some i"
    and j: "next_action spec s j = Some (Acquire a)" "hr_owner s b = Some j" unfolding stuck_pair_def by blast
  note held = harness_reach_held [OF assms(2)]
  note pi = owned_then_pair [OF held i] and pj = owned_then_pair [OF held j]
  have "acquisition_pairs_conflict (hs_threads spec ! i) (hs_threads spec ! j)"
    "acquisition_pairs_conflict (hs_threads spec ! j) (hs_threads spec ! i)"
    unfolding conflict_iff using pi(2) pj(2) by blast+
  with assms(1) ij pi(1) pj(1) show False unfolding detects_iff by (metis nat_neq_iff)
qed

text \<open>Two threads that take m1 and then m2, built with the builder; thread 0 has taken m1.\<close>

theorem unflagged_harness_witness:
  "\<exists>spec s. spec = DeadlockProbe_build (ThreadBuilder_done (ThreadBuilder_then_acquires ''m2'' (ThreadBuilder_acquires ''m1''
       (DeadlockProbe_thread ''t2'' (ThreadBuilder_done (ThreadBuilder_then_acquires ''m2'' (ThreadBuilder_acquires ''m1''
         (DeadlockProbe_thread ''t1'' DeadlockProbe_new))))))))
     \<and> \<not> detects_abba_deadlock spec \<and> harness_reach spec s \<and> hr_owner s ''m1'' = Some 0 \<and> \<not> stuck_pair spec s 0 1"
proof -
  let ?prog = "[Acquire ''m1'', Acquire ''m2'', Finish]"
  define spec where "spec = DeadlockProbe_build (ThreadBuilder_done (ThreadBuilder_then_acquires ''m2'' (ThreadBuilder_acquires ''m1''
       (DeadlockProbe_thread ''t2'' (ThreadBuilder_done (ThreadBuilder_then_acquires ''m2'' (ThreadBuilder_acquires ''m1''
         (DeadlockProbe_thread ''t1'' DeadlockProbe_new))))))))"
  have threads: "hs_threads spec = [\<lparr>ts_id = ''t1'', ts_actions = ?prog\<rparr>, \<lparr>ts_id = ''t2'', ts_actions = ?prog\<rparr>]"
    by (simp add: spec_def DeadlockProbe_build_def ThreadBuilder_done_def ThreadBuilder_then_acquires_def ThreadBuilder_acquires_def
        DeadlockProbe_thread_def DeadlockProbe_new_def push_action_def Let_def)
  have clean: "\<not> detects_abba_deadlock spec"
    by (simp add: detects_abba_deadlock_def threads acquisition_pairs_conflict_def held_acquisition_pairs_def upt_conv_Cons)
  let ?init = "\<lparr>hr_pc = (\<lambda>_. 0), hr_owner = Map.empty\<rparr> :: harness_state"
  let ?s = "(advance 0 ?init)\<lparr>hr_owner := [''m1'' \<mapsto> 0]\<rparr>"
  have "next_action spec ?init 0 = Some (Acquire ''m1'')" by (simp add: next_action_def threads)
  then have "harness_step spec ?init ?s" using harness_step.acquire [of spec ?init 0 "''m1''"] by simp
  then have reach: "harness_reach spec ?s" by (rule harness_reach.step [OF harness_reach.start])
  have "hr_owner ?s ''m1'' = Some 0" by (simp add: advance_def)
  with clean reach unflagged_harness_has_no_stuck_pair [OF clean reach, of 0 1] show ?thesis unfolding spec_def by blast
qed

text \<open>The check also flags two threads that each acquire one and the same resource twice: such a thread contributes the pair of the
  resource with itself, though no two resources are taken in opposite orders.\<close>

lemma reentrant_acquire_flagged:
  "detects_abba_deadlock \<lparr>hs_threads = [\<lparr>ts_id = ''t1'', ts_actions = [Acquire ''m'', Acquire ''m'']\<rparr>,
      \<lparr>ts_id = ''t2'', ts_actions = [Acquire ''m'', Acquire ''m'']\<rparr>], hs_resources = [], hs_sync_points = []\<rparr>"
  by (simp add: detects_abba_deadlock_def acquisition_pairs_conflict_def held_acquisition_pairs_def upt_conv_Cons)

end
