(* ===== verification/Tenant.thy ===== *)
theory Tenant
  imports Prelude
begin

text \<open>
  Tenants, contexts and error codes of \<^verbatim>\<open>laplace-interfaces\<close>: the subscription tiers and the limits and upgrades of a tenant
  (\<^verbatim>\<open>domain/tenant/tier.rs\<close>, \<^verbatim>\<open>domain/tenant/model.rs\<close>), the priorities (\<^verbatim>\<open>domain/scheduling.rs\<close>) and the request context
  (\<^verbatim>\<open>domain/context.rs\<close>), and the error codes of the foreign interface (\<^verbatim>\<open>error/codes.rs\<close>, \<^verbatim>\<open>error/tenant.rs\<close>). The wall clock
  is an argument of the operations that read it.
\<close>

section \<open>Tiers\<close>

datatype TenantTier = Free | Standard | Turbo | Pro | Enterprise

definition tier_as_u8 :: "TenantTier \<Rightarrow> u8" where
  "tier_as_u8 self = (case self of Free \<Rightarrow> 0 | Standard \<Rightarrow> 1 | Turbo \<Rightarrow> 2 | Pro \<Rightarrow> 3 | Enterprise \<Rightarrow> 4)"

definition tier_from_u8 :: "u8 \<Rightarrow> TenantTier option" where
  "tier_from_u8 v =
     (if v = 0 then Some Free else if v = 1 then Some Standard else if v = 2 then Some Turbo
      else if v = 3 then Some Pro else if v = 4 then Some Enterprise else None)"

lemma tier_as_u8_eq [simp]: "tier_as_u8 a = tier_as_u8 b \<longleftrightarrow> a = b"
  by (cases a; cases b) (simp_all add: tier_as_u8_def)

lemma tier_from_as_u8 [simp]: "tier_from_u8 (tier_as_u8 tier) = Some tier"
  by (cases tier) (simp_all add: tier_as_u8_def tier_from_u8_def)

lemma tier_from_u8_Some: "tier_from_u8 v = Some tier \<longleftrightarrow> v = tier_as_u8 tier"
  by (cases tier) (auto simp: tier_as_u8_def tier_from_u8_def split: if_splits)

text \<open>The derived order of the variants.\<close>

definition tier_le :: "TenantTier \<Rightarrow> TenantTier \<Rightarrow> bool" where
  "tier_le a b \<longleftrightarrow> tier_as_u8 a \<le> tier_as_u8 b"

instantiation TenantTier :: linorder
begin

definition less_eq_TenantTier :: "TenantTier \<Rightarrow> TenantTier \<Rightarrow> bool" where
  "less_eq_TenantTier a b \<longleftrightarrow> tier_le a b"

definition less_TenantTier :: "TenantTier \<Rightarrow> TenantTier \<Rightarrow> bool" where
  "a < b \<longleftrightarrow> tier_as_u8 a < tier_as_u8 b"

instance
  by standard (auto simp: less_eq_TenantTier_def tier_le_def less_TenantTier_def order.strict_iff_order)

end

text \<open>The order by numbers, for case analyses.\<close>

lemma tier_rank:
  "unat (tier_as_u8 Free) = 0" "unat (tier_as_u8 Standard) = 1" "unat (tier_as_u8 Turbo) = 2" "unat (tier_as_u8 Pro) = 3"
  "unat (tier_as_u8 Enterprise) = 4"
  by (simp_all add: tier_as_u8_def)

lemma tier_le_rank: "a \<le> b \<longleftrightarrow> unat (tier_as_u8 a) \<le> unat (tier_as_u8 b)" "a < b \<longleftrightarrow> unat (tier_as_u8 a) < unat (tier_as_u8 b)"
  by (simp_all add: less_eq_TenantTier_def tier_le_def less_TenantTier_def word_le_nat_alt word_less_nat_alt)

definition uses_turbo_acceleration :: "TenantTier \<Rightarrow> bool" where
  "uses_turbo_acceleration self \<longleftrightarrow> self = Turbo \<or> self = Pro \<or> self = Enterprise"

definition has_sentinel_monitoring :: "TenantTier \<Rightarrow> bool" where
  "has_sentinel_monitoring self \<longleftrightarrow> self = Enterprise"

definition tier_name :: "TenantTier \<Rightarrow> string" where
  "tier_name self = (case self of Free \<Rightarrow> ''Free'' | Standard \<Rightarrow> ''Standard'' | Turbo \<Rightarrow> ''Turbo'' | Pro \<Rightarrow> ''Pro''
     | Enterprise \<Rightarrow> ''Enterprise'')"

definition can_upgrade_to :: "TenantTier \<Rightarrow> TenantTier \<Rightarrow> bool" where
  "can_upgrade_to self target \<longleftrightarrow> tier_as_u8 target > tier_as_u8 self"

definition next_tier :: "TenantTier \<Rightarrow> TenantTier option" where
  "next_tier self = tier_from_u8 (tier_as_u8 self + 1)"

definition previous_tier :: "TenantTier \<Rightarrow> TenantTier option" where
  "previous_tier self = (if tier_as_u8 self = 0 then None else tier_from_u8 (tier_as_u8 self - 1))"

definition supports_turbo :: "TenantTier \<Rightarrow> bool" where
  "supports_turbo self \<longleftrightarrow> self = Turbo \<or> self = Pro \<or> self = Enterprise"

definition TenantTier_default :: TenantTier where
  "TenantTier_default = Free"

lemma can_upgrade_iff: "can_upgrade_to a b \<longleftrightarrow> a < b"
  by (simp add: can_upgrade_to_def less_TenantTier_def)

lemma turbo_iff: "uses_turbo_acceleration tier \<longleftrightarrow> Turbo \<le> tier" "supports_turbo tier \<longleftrightarrow> Turbo \<le> tier"
  "has_sentinel_monitoring tier \<longleftrightarrow> Enterprise \<le> tier"
  unfolding uses_turbo_acceleration_def supports_turbo_def has_sentinel_monitoring_def
  by (cases tier; simp add: tier_le_rank tier_rank)+

text \<open>The neighbours of a tier are its neighbours in the order.\<close>

lemma next_tier_rank: "next_tier a = Some b \<longleftrightarrow> unat (tier_as_u8 b) = unat (tier_as_u8 a) + 1"
  unfolding next_tier_def by (cases a; cases b) (simp_all add: tier_as_u8_def tier_from_u8_def)

lemma previous_tier_rank: "previous_tier a = Some b \<longleftrightarrow> unat (tier_as_u8 a) = unat (tier_as_u8 b) + 1"
  unfolding previous_tier_def by (cases a; cases b) (simp_all add: tier_as_u8_def tier_from_u8_def)

lemma neighbour_tiers:
  "next_tier a = Some b \<Longrightarrow> a < b" "next_tier a = Some b \<Longrightarrow> a < c \<Longrightarrow> b \<le> c" "previous_tier b = Some a \<longleftrightarrow> next_tier a = Some b"
  by (simp_all add: next_tier_rank previous_tier_rank tier_le_rank)

section \<open>Limits\<close>

text \<open>Execution times in milliseconds.\<close>

record ResourceConfig =
  max_concurrent_requests :: usize
  max_execution_time :: u64
  max_memory_mb :: u64
  max_cpu_time_ms :: u64
  use_turbo_acceleration :: bool
  sentinel_monitoring :: bool

definition ResourceConfig_default :: ResourceConfig where
  "ResourceConfig_default = \<lparr>max_concurrent_requests = 0, max_execution_time = 0, max_memory_mb = 0, max_cpu_time_ms = 0,
     use_turbo_acceleration = False, sentinel_monitoring = False\<rparr>"

definition for_tier :: "TenantTier \<Rightarrow> ResourceConfig" where
  "for_tier tier = (case tier of
      Free \<Rightarrow> \<lparr>max_concurrent_requests = 5, max_execution_time = 100, max_memory_mb = 128, max_cpu_time_ms = 100,
        use_turbo_acceleration = False, sentinel_monitoring = False\<rparr>
    | Standard \<Rightarrow> \<lparr>max_concurrent_requests = 20, max_execution_time = 500, max_memory_mb = 512, max_cpu_time_ms = 500,
        use_turbo_acceleration = False, sentinel_monitoring = False\<rparr>
    | Turbo \<Rightarrow> \<lparr>max_concurrent_requests = 100, max_execution_time = 2000, max_memory_mb = 2048, max_cpu_time_ms = 2000,
        use_turbo_acceleration = True, sentinel_monitoring = False\<rparr>
    | Pro \<Rightarrow> \<lparr>max_concurrent_requests = 500, max_execution_time = 10000, max_memory_mb = 8192, max_cpu_time_ms = 10000,
        use_turbo_acceleration = True, sentinel_monitoring = False\<rparr>
    | Enterprise \<Rightarrow> \<lparr>max_concurrent_requests = U64_MAX, max_execution_time = 60000, max_memory_mb = U64_MAX, max_cpu_time_ms = U64_MAX,
        use_turbo_acceleration = True, sentinel_monitoring = True\<rparr>)"

definition is_turbo_enabled :: "ResourceConfig \<Rightarrow> bool" where
  "is_turbo_enabled self = use_turbo_acceleration self"

definition is_sentinel_enabled :: "ResourceConfig \<Rightarrow> bool" where
  "is_sentinel_enabled self = sentinel_monitoring self"

text \<open>One configuration allows at least what another does.\<close>

definition allows :: "ResourceConfig \<Rightarrow> ResourceConfig \<Rightarrow> bool" where
  "allows a b \<longleftrightarrow> max_concurrent_requests b \<le> max_concurrent_requests a \<and> max_execution_time b \<le> max_execution_time a
     \<and> max_memory_mb b \<le> max_memory_mb a \<and> max_cpu_time_ms b \<le> max_cpu_time_ms a
     \<and> (is_turbo_enabled b \<longrightarrow> is_turbo_enabled a) \<and> (is_sentinel_enabled b \<longrightarrow> is_sentinel_enabled a)"

lemma for_tier_mono: "a \<le> b \<Longrightarrow> allows (for_tier b) (for_tier a)"
  by (cases a; cases b) (simp_all add: allows_def for_tier_def is_turbo_enabled_def is_sentinel_enabled_def tier_le_rank tier_rank
      word_le_nat_alt unat_U64_MAX)

lemma for_tier_flags [simp]:
  "use_turbo_acceleration (for_tier tier) = uses_turbo_acceleration tier"
  "sentinel_monitoring (for_tier tier) = has_sentinel_monitoring tier"
  by (cases tier; simp add: for_tier_def uses_turbo_acceleration_def has_sentinel_monitoring_def)+

section \<open>Errors\<close>

datatype TenantError =
    NotFound string
  | Inactive string
  | InvalidId string
  | InvalidTierChange TenantTier TenantTier
  | TenantQuotaExceeded string
  | AcquireTimeout string
  | ExecutionTimeout string u64 u64
  | RuntimeError string
  | PathDenied string
  | TurboPoolExhausted string usize usize
  | TurboSlotStateError string string string
  | TurboSlotCorruption string
  | TurboNotAvailable string TenantTier
  | TurboAllocationFailed string string
  | TenantInternal string

definition to_proto_code :: "TenantError \<Rightarrow> int" where
  "to_proto_code self = (case self of
      NotFound _ \<Rightarrow> 1001 | Inactive _ \<Rightarrow> 1002 | InvalidId _ \<Rightarrow> 1003 | InvalidTierChange _ _ \<Rightarrow> 1004
    | TenantQuotaExceeded _ \<Rightarrow> 2001 | AcquireTimeout _ \<Rightarrow> 2002 | ExecutionTimeout _ _ _ \<Rightarrow> 2003 | RuntimeError _ \<Rightarrow> 2004
    | PathDenied _ \<Rightarrow> 2005
    | TurboPoolExhausted _ _ _ \<Rightarrow> 3001 | TurboSlotStateError _ _ _ \<Rightarrow> 3002 | TurboSlotCorruption _ \<Rightarrow> 3003
    | TurboNotAvailable _ _ \<Rightarrow> 3004 | TurboAllocationFailed _ _ \<Rightarrow> 3005
    | TenantInternal _ \<Rightarrow> 9000)"

definition to_proto_category :: "TenantError \<Rightarrow> string" where
  "to_proto_category self = (case self of
      NotFound _ \<Rightarrow> ''CLIENT_ERROR'' | Inactive _ \<Rightarrow> ''CLIENT_ERROR'' | InvalidId _ \<Rightarrow> ''CLIENT_ERROR''
    | InvalidTierChange _ _ \<Rightarrow> ''CLIENT_ERROR''
    | TenantQuotaExceeded _ \<Rightarrow> ''QUOTA_EXCEEDED'' | AcquireTimeout _ \<Rightarrow> ''QUOTA_EXCEEDED'' | ExecutionTimeout _ _ _ \<Rightarrow> ''QUOTA_EXCEEDED''
    | RuntimeError _ \<Rightarrow> ''EXECUTION_ERROR'' | PathDenied _ \<Rightarrow> ''EXECUTION_ERROR''
    | TenantInternal _ \<Rightarrow> ''INTERNAL_ERROR''
    | _ \<Rightarrow> ''TURBO_ERROR'')"

definition is_recoverable :: "TenantError \<Rightarrow> bool" where
  "is_recoverable self \<longleftrightarrow> (case self of TenantQuotaExceeded _ \<Rightarrow> True | AcquireTimeout _ \<Rightarrow> True | TurboPoolExhausted _ _ _ \<Rightarrow> True
     | TurboAllocationFailed _ _ \<Rightarrow> True | _ \<Rightarrow> False)"

definition suggests_upgrade :: "TenantError \<Rightarrow> bool" where
  "suggests_upgrade self \<longleftrightarrow> (case self of TenantQuotaExceeded _ \<Rightarrow> True | TurboNotAvailable _ _ \<Rightarrow> True | ExecutionTimeout _ _ _ \<Rightarrow> True
     | _ \<Rightarrow> False)"

definition is_turbo_error :: "TenantError \<Rightarrow> bool" where
  "is_turbo_error self \<longleftrightarrow> (case self of TurboPoolExhausted _ _ _ \<Rightarrow> True | TurboSlotStateError _ _ _ \<Rightarrow> True
     | TurboSlotCorruption _ \<Rightarrow> True | TurboNotAvailable _ _ \<Rightarrow> True | TurboAllocationFailed _ _ \<Rightarrow> True | _ \<Rightarrow> False)"

definition extract_tenant_id :: "TenantError \<Rightarrow> string" where
  "extract_tenant_id self = (case self of
      NotFound i \<Rightarrow> i | Inactive i \<Rightarrow> i | InvalidId i \<Rightarrow> i | TenantQuotaExceeded i \<Rightarrow> i | AcquireTimeout i \<Rightarrow> i
    | ExecutionTimeout i _ _ \<Rightarrow> i | TurboPoolExhausted i _ _ \<Rightarrow> i | TurboSlotStateError i _ _ \<Rightarrow> i | TurboSlotCorruption i \<Rightarrow> i
    | TurboNotAvailable i _ \<Rightarrow> i | TurboAllocationFailed i _ \<Rightarrow> i | _ \<Rightarrow> ''unknown'')"

text \<open>A receiver that knows only the code knows the category and the three flags; the thousands of the code tell turbo errors,
  and a turbo error always names its tenant.\<close>

lemma proto_code_determines:
  assumes "to_proto_code a = to_proto_code b"
  shows "to_proto_category a = to_proto_category b" "is_recoverable a = is_recoverable b"
    "suggests_upgrade a = suggests_upgrade b" "is_turbo_error a = is_turbo_error b"
  using assms by (cases a; cases b; simp add: to_proto_code_def to_proto_category_def is_recoverable_def suggests_upgrade_def
      is_turbo_error_def)+

lemma turbo_error_range: "is_turbo_error e \<longleftrightarrow> to_proto_code e div 1000 = 3"
  by (cases e) (simp_all add: is_turbo_error_def to_proto_code_def)

section \<open>Tenants\<close>

record TenantMetadata =
  tm_tenant_id :: string
  tm_tier :: TenantTier
  tm_resource_config :: ResourceConfig
  tm_active :: bool
  tm_created_at :: int
  tm_storage_tree :: string
  tm_fs_root :: string

definition TenantMetadata_new :: "int \<Rightarrow> string \<Rightarrow> TenantTier \<Rightarrow> TenantMetadata" where
  "TenantMetadata_new created_at tenant_id tier =
     \<lparr>tm_tenant_id = tenant_id, tm_tier = tier, tm_resource_config = for_tier tier, tm_active = True, tm_created_at = created_at,
      tm_storage_tree = ''tenant_db_'' @ tenant_id, tm_fs_root = ''root/tenants/'' @ tenant_id\<rparr>"

definition uses_turbo :: "TenantMetadata \<Rightarrow> bool" where
  "uses_turbo self = use_turbo_acceleration (tm_resource_config self)"

definition has_sentinel :: "TenantMetadata \<Rightarrow> bool" where
  "has_sentinel self = sentinel_monitoring (tm_resource_config self)"

definition upgrade_tier :: "TenantTier \<Rightarrow> TenantMetadata \<Rightarrow> (TenantError + unit) \<times> TenantMetadata" where
  "upgrade_tier new_tier self =
     (if \<not> can_upgrade_to (tm_tier self) new_tier then (Inl (InvalidTierChange (tm_tier self) new_tier), self)
      else (Inr (), self\<lparr>tm_tier := new_tier, tm_resource_config := for_tier new_tier\<rparr>))"

definition tenant_validate :: "TenantMetadata \<Rightarrow> TenantError + unit" where
  "tenant_validate self = (if \<not> tm_active self then Inl (Inactive (tm_tenant_id self)) else Inr ())"

text \<open>Upgrade requests served in order, with their results.\<close>

fun upgrades :: "TenantTier list \<Rightarrow> TenantMetadata \<Rightarrow> (TenantError + unit) list \<times> TenantMetadata" where
  "upgrades [] self = ([], self)"
| "upgrades (tier # tiers) self =
     (let (r, self1) = upgrade_tier tier self; (rs, self2) = upgrades tiers self1 in (r # rs, self2))"

text \<open>The tier after some requests is the highest of those seen.\<close>

definition highest :: "TenantTier \<Rightarrow> TenantTier list \<Rightarrow> TenantTier" where
  "highest tier tiers = fold max tiers tier"

lemma highest_simps [simp]: "highest tier [] = tier" "highest tier (t # ts) = highest (max t tier) ts"
  by (simp_all add: highest_def)

lemma highest_ge: "tier \<le> highest tier tiers"
proof (induction tiers arbitrary: tier)
  case (Cons t tiers)
  from Cons.IH [of "max t tier"] show ?case by simp
qed simp

lemma upgrades_state:
  "snd (upgrades tiers self) = (if highest (tm_tier self) tiers = tm_tier self then self
     else self\<lparr>tm_tier := highest (tm_tier self) tiers, tm_resource_config := for_tier (highest (tm_tier self) tiers)\<rparr>)"
proof (induction tiers arbitrary: self)
  case (Cons t tiers)
  show ?case
  proof (cases "tm_tier self < t")
    case True
    with highest_ge [of t tiers] have "highest t tiers \<noteq> tm_tier self" by auto
    with True Cons.IH [of "self\<lparr>tm_tier := t, tm_resource_config := for_tier t\<rparr>"] show ?thesis
      by (simp add: upgrade_tier_def can_upgrade_iff max_def split_beta Let_def)
  next
    case False
    then show ?thesis using Cons.IH [of self] by (simp add: upgrade_tier_def can_upgrade_iff max_def split_beta Let_def)
  qed
qed simp

text \<open>A request for a tier, at a current tier.\<close>

definition upgrade_result :: "TenantTier \<Rightarrow> TenantTier \<Rightarrow> TenantError + unit" where
  "upgrade_result cur tier = (if cur < tier then Inr () else Inl (InvalidTierChange cur tier))"

lemma upgrade_tier_steps: "fst (upgrade_tier t self) = upgrade_result (tm_tier self) t"
  "tm_tier (snd (upgrade_tier t self)) = max t (tm_tier self)"
  by (auto simp: upgrade_tier_def can_upgrade_iff upgrade_result_def max_def)

lemma upgrades_results:
  "fst (upgrades tiers self) = map (\<lambda>k. upgrade_result (highest (tm_tier self) (take k tiers)) (tiers ! k)) [0..<length tiers]"
proof (induction tiers arbitrary: self)
  case (Cons t tiers)
  have "fst (upgrades tiers (snd (upgrade_tier t self)))
      = map (\<lambda>k. upgrade_result (highest (tm_tier self) (take (Suc k) (t # tiers))) ((t # tiers) ! Suc k)) [0..<length tiers]"
    by (simp add: Cons.IH upgrade_tier_steps)
  then show ?case
    by (simp add: split_beta Let_def upt_conv_Cons map_Suc_upt [symmetric] o_def upgrade_tier_steps del: upt_Suc)
qed simp

lemma upgrades_count:
  "length (filter (\<lambda>r. r = Inr ()) (fst (upgrades tiers self))) + unat (tier_as_u8 (tm_tier self)) \<le> 4"
proof (induction tiers arbitrary: self)
  case Nil
  show ?case by (cases "tm_tier self") (simp_all add: tier_rank)
next
  case (Cons t tiers)
  from Cons.IH [of "snd (upgrade_tier t self)"] show ?case
    by (auto simp: upgrade_tier_def can_upgrade_iff tier_le_rank split_beta Let_def)
qed

text \<open>(C38) The life of a tenant under upgrade requests. Whatever the requests, the tenant ends at the highest of its first tier and
  the requested ones, with that tier's limits and nothing else changed, so its turbo and monitoring flags are those of the
  tier and its limits have not shrunk. A request succeeds exactly when it is above everything before it, otherwise it
  fails with the current and the requested tier and changes nothing, and at most four requests ever succeed.\<close>

theorem tenant_upgrades:
  "snd (upgrades tiers (TenantMetadata_new created_at i tier)) = TenantMetadata_new created_at i (highest tier tiers)
   \<and> highest tier tiers \<in> insert tier (set tiers) \<and> (\<forall>t\<in>insert tier (set tiers). t \<le> highest tier tiers)
   \<and> uses_turbo (TenantMetadata_new created_at i (highest tier tiers)) = uses_turbo_acceleration (highest tier tiers)
   \<and> has_sentinel (TenantMetadata_new created_at i (highest tier tiers)) = has_sentinel_monitoring (highest tier tiers)
   \<and> allows (for_tier (highest tier tiers)) (for_tier tier)
   \<and> fst (upgrades tiers (TenantMetadata_new created_at i tier))
       = map (\<lambda>k. upgrade_result (highest tier (take k tiers)) (tiers ! k)) [0..<length tiers]
   \<and> length (filter (\<lambda>r. r = Inr ()) (fst (upgrades tiers (TenantMetadata_new created_at i tier)))) \<le> 4"
proof -
  let ?t = "TenantMetadata_new created_at i"
  have state: "snd (upgrades tiers (?t tier)) = ?t (highest tier tiers)"
    unfolding upgrades_state by (simp add: TenantMetadata_new_def)
  have results: "fst (upgrades tiers (?t tier)) = map (\<lambda>k. upgrade_result (highest tier (take k tiers)) (tiers ! k)) [0..<length tiers]"
    unfolding upgrades_results by (simp add: TenantMetadata_new_def)
  have count: "length (filter (\<lambda>r. r = Inr ()) (fst (upgrades tiers (?t tier)))) \<le> 4"
    using upgrades_count [of tiers "?t tier"] by linarith
  have bound: "highest tier tiers \<in> insert tier (set tiers) \<and> (\<forall>t\<in>insert tier (set tiers). t \<le> highest tier tiers)"
  proof (induction tiers arbitrary: tier)
    case (Cons t tiers)
    from Cons.IH [of "max t tier"] show ?case by (auto simp: max_def split: if_splits)
  qed simp
  have flags: "uses_turbo (?t top) = uses_turbo_acceleration top" "has_sentinel (?t top) = has_sentinel_monitoring top" for top
    by (simp_all add: uses_turbo_def has_sentinel_def TenantMetadata_new_def)
  show ?thesis by (intro conjI state results count flags for_tier_mono [OF highest_ge] conjunct1 [OF bound] conjunct2 [OF bound])
qed

theorem tenant_upgrades_witness:
  "fst (upgrades [Turbo, Standard, Pro, Enterprise] (TenantMetadata_new 0 ''acme'' Free))
     = [Inr (), Inl (InvalidTierChange Turbo Standard), Inr (), Inr ()]
   \<and> snd (upgrades [Turbo, Standard, Pro, Enterprise] (TenantMetadata_new 0 ''acme'' Free)) = TenantMetadata_new 0 ''acme'' Enterprise
   \<and> Turbo \<le> highest Free [Turbo, Standard, Pro, Enterprise]"
proof -
  have "highest Free [Turbo, Standard, Pro, Enterprise] = Enterprise" by (simp add: max_def tier_le_rank tier_rank)
  with tenant_upgrades [of "[Turbo, Standard, Pro, Enterprise]" 0 "''acme''" Free] show ?thesis
    by (simp add: upgrade_result_def upt_conv_Cons max_def tier_le_rank tier_rank del: upgrades.simps)
qed

text \<open>The limits are skipped when a tenant is written out, so reading it back leaves the default limits beside the tier: a
  turbo tenant no longer uses turbo.\<close>

definition reloaded :: "TenantMetadata \<Rightarrow> TenantMetadata" where
  "reloaded self = self\<lparr>tm_resource_config := ResourceConfig_default\<rparr>"

lemma reloaded_loses_limits:
  "uses_turbo (TenantMetadata_new created_at i Turbo)" "\<not> uses_turbo (reloaded (TenantMetadata_new created_at i Turbo))"
  "tm_tier (reloaded (TenantMetadata_new created_at i Turbo)) = Turbo"
  by (simp_all add: reloaded_def uses_turbo_def TenantMetadata_new_def ResourceConfig_default_def uses_turbo_acceleration_def)

end
