(* ===== verification/RequestContext.thy ===== *)
theory RequestContext
  imports Tenant
begin

text \<open>
  The request context of \<^verbatim>\<open>laplace-interfaces/src/domain/context.rs\<close> with the priorities of \<^verbatim>\<open>domain/scheduling.rs\<close>: construction,
  the builder methods, children and validity. The system time read by a constructor is its argument \<open>now\<close>, in nanoseconds.
\<close>

section \<open>Priorities\<close>

datatype PriorityLevel = Lowest | Low | Normal | High | Critical | SystemCritical

definition priority_as_u8 :: "PriorityLevel \<Rightarrow> u8" where
  "priority_as_u8 self = (case self of Lowest \<Rightarrow> 0 | Low \<Rightarrow> 1 | Normal \<Rightarrow> 2 | High \<Rightarrow> 3 | Critical \<Rightarrow> 4 | SystemCritical \<Rightarrow> 5)"

definition priority_from_u8 :: "u8 \<Rightarrow> PriorityLevel option" where
  "priority_from_u8 v =
     (if v = 0 then Some Lowest else if v = 1 then Some Low else if v = 2 then Some Normal else if v = 3 then Some High
      else if v = 4 then Some Critical else if v = 5 then Some SystemCritical else None)"

definition PriorityLevel_default :: PriorityLevel where
  "PriorityLevel_default = Normal"

definition priority_display :: "PriorityLevel \<Rightarrow> string" where
  "priority_display self = (case self of Lowest \<Rightarrow> ''Lowest'' | Low \<Rightarrow> ''Low'' | Normal \<Rightarrow> ''Normal'' | High \<Rightarrow> ''High''
     | Critical \<Rightarrow> ''Critical'' | SystemCritical \<Rightarrow> ''SystemCritical'')"

lemma u8_cases_upto5: "(v :: u8) \<le> 5 \<longleftrightarrow> v = 0 \<or> v = 1 \<or> v = 2 \<or> v = 3 \<or> v = 4 \<or> v = 5"
proof -
  have "unat v \<le> 5 \<longleftrightarrow> unat v = 0 \<or> unat v = 1 \<or> unat v = 2 \<or> unat v = 3 \<or> unat v = 4 \<or> unat v = 5" by arith
  then show ?thesis by (simp add: word_le_nat_alt word_unat_eq_iff)
qed

lemma u8_cases_upto4: "(v :: u8) \<le> 4 \<longleftrightarrow> v = 0 \<or> v = 1 \<or> v = 2 \<or> v = 3 \<or> v = 4"
proof -
  have "unat v \<le> 4 \<longleftrightarrow> unat v = 0 \<or> unat v = 1 \<or> unat v = 2 \<or> unat v = 3 \<or> unat v = 4" by arith
  then show ?thesis by (simp add: word_le_nat_alt word_unat_eq_iff)
qed

lemma priority_from_as_u8 [simp]: "priority_from_u8 (priority_as_u8 p) = Some p"
  by (cases p) (simp_all add: priority_as_u8_def priority_from_u8_def)

lemma priority_as_u8_le [simp]: "priority_as_u8 p \<le> 5"
  by (cases p) (simp_all add: u8_cases_upto5 priority_as_u8_def)

lemma tier_as_u8_le [simp]: "tier_as_u8 t \<le> 4"
  by (cases t) (simp_all add: u8_cases_upto4 tier_as_u8_def)

lemma known_codes: "priority_from_u8 v \<noteq> None \<longleftrightarrow> v \<le> 5" "tier_from_u8 v \<noteq> None \<longleftrightarrow> v \<le> 4"
  unfolding u8_cases_upto5 u8_cases_upto4 priority_from_u8_def tier_from_u8_def by simp_all

section \<open>Contexts\<close>

definition NO_TURBO_SLOT :: u32 where
  "NO_TURBO_SLOT = - 1"

record SovereignContext =
  sc_request_id :: string
  sc_tenant_id :: string
  sc_trace_id :: string
  sc_priority :: u8
  sc_tier :: u8
  sc_is_turbo_mode :: bool
  sc_timestamp :: u64
  sc_turbo_slot :: u32

definition SovereignContext_new :: "u64 \<Rightarrow> string \<Rightarrow> string \<Rightarrow> string \<Rightarrow> SovereignContext" where
  "SovereignContext_new now request_id tenant_id trace_id =
     \<lparr>sc_request_id = request_id, sc_tenant_id = tenant_id, sc_trace_id = trace_id, sc_priority = priority_as_u8 High,
      sc_tier = tier_as_u8 Standard, sc_is_turbo_mode = False, sc_timestamp = now, sc_turbo_slot = NO_TURBO_SLOT\<rparr>"

definition SovereignContext_new_turbo :: "u64 \<Rightarrow> string \<Rightarrow> string \<Rightarrow> string \<Rightarrow> SovereignContext" where
  "SovereignContext_new_turbo now request_id tenant_id trace_id =
     \<lparr>sc_request_id = request_id, sc_tenant_id = tenant_id, sc_trace_id = trace_id, sc_priority = priority_as_u8 High,
      sc_tier = tier_as_u8 Turbo, sc_is_turbo_mode = True, sc_timestamp = now, sc_turbo_slot = NO_TURBO_SLOT\<rparr>"

definition with_priority :: "u8 \<Rightarrow> SovereignContext \<Rightarrow> SovereignContext" where
  "with_priority priority self = self\<lparr>sc_priority := min priority 5\<rparr>"

definition with_tier :: "TenantTier \<Rightarrow> SovereignContext \<Rightarrow> SovereignContext" where
  "with_tier tier self =
     (let self1 = self\<lparr>sc_tier := tier_as_u8 tier\<rparr> in
      if \<not> uses_turbo_acceleration tier then self1\<lparr>sc_is_turbo_mode := False\<rparr> else self1)"

definition allocate_turbo_slot :: "u32 \<Rightarrow> SovereignContext \<Rightarrow> SovereignContext" where
  "allocate_turbo_slot slot self = self\<lparr>sc_turbo_slot := slot\<rparr>"

definition spawn_child :: "u64 \<Rightarrow> string \<Rightarrow> SovereignContext \<Rightarrow> SovereignContext" where
  "spawn_child now new_request_id self =
     \<lparr>sc_request_id = new_request_id, sc_tenant_id = sc_tenant_id self, sc_trace_id = sc_trace_id self,
      sc_priority = sc_priority self, sc_tier = sc_tier self, sc_is_turbo_mode = sc_is_turbo_mode self,
      sc_timestamp = now, sc_turbo_slot = NO_TURBO_SLOT\<rparr>"

definition context_is_valid :: "SovereignContext \<Rightarrow> bool" where
  "context_is_valid self =
     (let has_ids = sc_request_id self \<noteq> [] \<and> sc_tenant_id self \<noteq> [] \<and> sc_trace_id self \<noteq> [];
          priority_valid = sc_priority self \<le> 5;
          tier_valid = sc_tier self \<le> 4;
          turbo_consistent = (if sc_is_turbo_mode self
            then (case tier_from_u8 (sc_tier self) of Some t \<Rightarrow> uses_turbo_acceleration t | None \<Rightarrow> False)
            else True)
      in has_ids \<and> priority_valid \<and> tier_valid \<and> turbo_consistent)"

definition elapsed_ns :: "u64 \<Rightarrow> SovereignContext \<Rightarrow> u64" where
  "elapsed_ns now self = (if now < sc_timestamp self then 0 else now - sc_timestamp self)"

definition has_turbo_slot :: "SovereignContext \<Rightarrow> bool" where
  "has_turbo_slot self \<longleftrightarrow> sc_turbo_slot self \<noteq> NO_TURBO_SLOT"

definition get_turbo_slot :: "SovereignContext \<Rightarrow> u32 option" where
  "get_turbo_slot self = (if sc_turbo_slot self \<noteq> NO_TURBO_SLOT then Some (sc_turbo_slot self) else None)"

definition priority_level :: "SovereignContext \<Rightarrow> PriorityLevel option" where
  "priority_level self = priority_from_u8 (sc_priority self)"

definition tenant_tier :: "SovereignContext \<Rightarrow> TenantTier option" where
  "tenant_tier self = tier_from_u8 (sc_tier self)"

definition SovereignContext_default :: SovereignContext where
  "SovereignContext_default =
     \<lparr>sc_request_id = ''default'', sc_tenant_id = ''default'', sc_trace_id = ''default'', sc_priority = priority_as_u8 Normal,
      sc_tier = tier_as_u8 Standard, sc_is_turbo_mode = False, sc_timestamp = 0, sc_turbo_slot = NO_TURBO_SLOT\<rparr>"

section \<open>Validity\<close>

lemma context_is_valid_iff:
  "context_is_valid c \<longleftrightarrow> sc_request_id c \<noteq> [] \<and> sc_tenant_id c \<noteq> [] \<and> sc_trace_id c \<noteq> []
     \<and> priority_level c \<noteq> None \<and> (\<exists>t. tenant_tier c = Some t \<and> (sc_is_turbo_mode c \<longrightarrow> Turbo \<le> t))"
  unfolding context_is_valid_def Let_def priority_level_def tenant_tier_def known_codes(1) [symmetric]
    known_codes(2) [symmetric] turbo_iff(1)
  by (auto split: option.splits)

text \<open>The contexts that the constructors, the builder methods and children give, starting from ids that are not empty.\<close>

inductive built :: "string \<Rightarrow> string \<Rightarrow> SovereignContext \<Rightarrow> bool" for tenant trace where
  built_new: "request \<noteq> [] \<Longrightarrow> built tenant trace (SovereignContext_new now request tenant trace)"
| built_turbo: "request \<noteq> [] \<Longrightarrow> built tenant trace (SovereignContext_new_turbo now request tenant trace)"
| built_priority: "built tenant trace c \<Longrightarrow> built tenant trace (with_priority p c)"
| built_tier: "built tenant trace c \<Longrightarrow> built tenant trace (with_tier t c)"
| built_slot: "built tenant trace c \<Longrightarrow> built tenant trace (allocate_turbo_slot slot c)"
| built_child: "built tenant trace c \<Longrightarrow> request \<noteq> [] \<Longrightarrow> built tenant trace (spawn_child now request c)"

definition context_inv :: "string \<Rightarrow> string \<Rightarrow> SovereignContext \<Rightarrow> bool" where
  "context_inv tenant trace c \<longleftrightarrow> sc_request_id c \<noteq> [] \<and> sc_tenant_id c = tenant \<and> sc_trace_id c = trace
     \<and> sc_priority c \<le> 5 \<and> (\<exists>t. sc_tier c = tier_as_u8 t \<and> (sc_is_turbo_mode c \<longrightarrow> Turbo \<le> t))"

lemmas context_defs = SovereignContext_new_def SovereignContext_new_turbo_def with_priority_def with_tier_def
  allocate_turbo_slot_def spawn_child_def

lemma built_inv: "built tenant trace c \<Longrightarrow> context_inv tenant trace c"
proof (induction rule: built.induct)
  case (built_new request now)
  then show ?case unfolding context_inv_def by (auto simp: context_defs)
next
  case (built_turbo request now)
  then show ?case unfolding context_inv_def by (auto simp: context_defs intro!: exI [of _ Turbo])
next
  case (built_tier c t)
  then show ?case unfolding context_inv_def by (auto simp: context_defs Let_def turbo_iff(1) intro!: exI [of _ t])
qed (auto simp: context_inv_def context_defs)

lemma context_inv_valid: "context_inv tenant trace c \<Longrightarrow> tenant \<noteq> [] \<Longrightarrow> trace \<noteq> [] \<Longrightarrow> context_is_valid c"
  unfolding context_is_valid_iff context_inv_def tenant_tier_def priority_level_def known_codes(1) by auto

text \<open>Every context a request and its children can get is valid, and stays within its tenant and its trace. However the
  constructors, priorities, tiers, slots and children are combined, the result passes the validity check, belongs to
  the tenant and the trace it started with, and is in turbo mode only on a tier that has it. Validity itself means
  non-empty ids, a known priority and a known tier that allows the mode. A child shares everything but the request id,
  the time and the slot, which it never inherits.\<close>

theorem built_contexts_valid:
  assumes "tenant \<noteq> []" "trace \<noteq> []" "built tenant trace c"
  shows "context_is_valid c \<and> sc_tenant_id c = tenant \<and> sc_trace_id c = trace
    \<and> (\<exists>t p. tenant_tier c = Some t \<and> priority_level c = Some p \<and> (sc_is_turbo_mode c \<longrightarrow> Turbo \<le> t))
    \<and> tenant_tier (spawn_child now request c) = tenant_tier c \<and> priority_level (spawn_child now request c) = priority_level c
    \<and> get_turbo_slot (spawn_child now request c) = None
    \<and> (context_is_valid (spawn_child now request c) \<longleftrightarrow> request \<noteq> [])"
proof -
  have inv: "context_inv tenant trace c" by (rule built_inv [OF assms(3)])
  then have valid: "context_is_valid c" using assms(1,2) by (rule context_inv_valid)
  moreover have "sc_tenant_id c = tenant" "sc_trace_id c = trace" using inv by (simp_all add: context_inv_def)
  moreover have "\<exists>t p. tenant_tier c = Some t \<and> priority_level c = Some p \<and> (sc_is_turbo_mode c \<longrightarrow> Turbo \<le> t)"
    using valid unfolding context_is_valid_iff by auto
  moreover have "tenant_tier (spawn_child now request c) = tenant_tier c" "priority_level (spawn_child now request c) = priority_level c"
    "get_turbo_slot (spawn_child now request c) = None"
    by (simp_all add: spawn_child_def tenant_tier_def priority_level_def get_turbo_slot_def)
  moreover have "context_is_valid (spawn_child now request c) \<longleftrightarrow> request \<noteq> []"
    using valid unfolding context_is_valid_def by (simp add: spawn_child_def)
  ultimately show ?thesis by blast
qed

theorem built_contexts_valid_witness:
  "\<exists>c. c = with_tier Free (with_priority 200 (SovereignContext_new_turbo 7 ''req'' ''acme'' ''trace''))
     \<and> built ''acme'' ''trace'' c \<and> context_is_valid c \<and> \<not> sc_is_turbo_mode c \<and> priority_level c = Some SystemCritical
     \<and> get_turbo_slot (spawn_child 9 ''child'' (allocate_turbo_slot 3 c)) = None"
proof -
  let ?c = "with_tier Free (with_priority 200 (SovereignContext_new_turbo 7 ''req'' ''acme'' ''trace''))"
  have b: "built ''acme'' ''trace'' ?c" by (intro built_tier built_priority built_turbo) simp
  have "\<not> sc_is_turbo_mode ?c" by (simp add: with_tier_def uses_turbo_acceleration_def)
  moreover have "priority_level ?c = Some SystemCritical"
    by (simp add: with_tier_def uses_turbo_acceleration_def with_priority_def priority_level_def priority_from_u8_def Let_def)
  moreover have "get_turbo_slot (spawn_child 9 ''child'' (allocate_turbo_slot 3 ?c)) = None"
    using built_contexts_valid [OF _ _ built_slot [OF b, of 3], where now = 9 and request = "''child''"] by simp
  ultimately show ?thesis using b built_contexts_valid [OF _ _ b] by simp
qed

text \<open>Turbo mode and the slot are independent: lowering the tier leaves an allocated slot in place.\<close>

lemma lowered_tier_keeps_slot: "get_turbo_slot (with_tier Free (allocate_turbo_slot slot c)) = get_turbo_slot (allocate_turbo_slot slot c)"
  by (simp add: get_turbo_slot_def with_tier_def allocate_turbo_slot_def uses_turbo_acceleration_def Let_def)

lemma elapsed_bounded: "unat (elapsed_ns now c) = unat now - unat (sc_timestamp c)"
  unfolding elapsed_ns_def by (simp add: word_less_nat_alt unat_sub word_le_nat_alt)

end
