(* ===== verification/Abi.thy ===== *)
theory Abi
  imports RawEvents
begin

text \<open>
  The foreign interface of \<^verbatim>\<open>laplace-interfaces/src/abi\<close>: the structures that cross it with their validity checks
  (\<^verbatim>\<open>primitives.rs\<close>, \<^verbatim>\<open>shared.rs\<close>, \<^verbatim>\<open>config.rs\<close>), the error codes (\<^verbatim>\<open>error/codes.rs\<close>), and the memory layout that
  \<open>repr(C)\<close> gives the structures. Pointers are 64 bits wide, as the size assertions of the code require.
\<close>

section \<open>The layout of C structures\<close>

text \<open>A scalar of some size aligned to its size, an array, and a structure with the alignment it asks for (\<open>align(n)\<close>, 1 if
  none).\<close>

datatype repr = Scalar nat | Arr nat repr | Struct nat "repr list"

definition round_up :: "nat \<Rightarrow> nat \<Rightarrow> nat" where
  "round_up n a = (n + a - 1) div a * a"

text \<open>The fields of given sizes and alignments placed one after the other, from a position: the offsets and the end.\<close>

fun place :: "nat \<Rightarrow> (nat \<times> nat) list \<Rightarrow> nat list \<times> nat" where
  "place pos [] = ([], pos)"
| "place pos ((sz, al) # fs) =
     (let off = round_up pos al; (offs, e) = place (off + sz) fs in (off # offs, e))"

fun align_of :: "repr \<Rightarrow> nat" where
  "align_of (Scalar n) = n"
| "align_of (Arr n t) = align_of t"
| "align_of (Struct a ts) = Max (insert a (set (map align_of ts)))"

fun size_of :: "repr \<Rightarrow> nat" where
  "size_of (Scalar n) = n"
| "size_of (Arr n t) = n * size_of t"
| "size_of (Struct a ts) = round_up (snd (place 0 (map (\<lambda>t. (size_of t, align_of t)) ts))) (align_of (Struct a ts))"

definition field_shapes :: "repr list \<Rightarrow> (nat \<times> nat) list" where
  "field_shapes ts = map (\<lambda>t. (size_of t, align_of t)) ts"

fun fields_of :: "repr \<Rightarrow> repr list" where
  "fields_of (Struct a ts) = ts"
| "fields_of _ = []"

definition offsets :: "repr \<Rightarrow> nat list" where
  "offsets t = fst (place 0 (field_shapes (fields_of t)))"

lemma round_up_props:
  assumes "0 < a"
  shows "n \<le> round_up n a" "round_up n a < n + a" "a dvd round_up n a"
proof -
  have eq: "(n + a - 1) div a * a + (n + a - 1) mod a = n + a - 1" by (rule div_mult_mod_eq)
  moreover have "(n + a - 1) mod a < a" using assms by simp
  ultimately show "n \<le> round_up n a" unfolding round_up_def using assms by linarith
  from eq assms show "round_up n a < n + a" unfolding round_up_def by linarith
  show "a dvd round_up n a" by (simp add: round_up_def)
qed

text \<open>Placed fields are aligned, follow each other without overlap and end by the end position.\<close>

lemma place_sound:
  assumes "\<forall>(sz, al)\<in>set fs. 0 < al" "place pos fs = (offs, e)"
  shows "length offs = length fs \<and> pos \<le> e
    \<and> (\<forall>i<length fs. pos \<le> offs ! i \<and> snd (fs ! i) dvd offs ! i \<and> offs ! i + fst (fs ! i) \<le> e)
    \<and> (\<forall>i<length fs. \<forall>j<i. offs ! j + fst (fs ! j) \<le> offs ! i)"
  using assms
proof (induction fs arbitrary: pos offs)
  case (Cons f fs)
  obtain sz al where f: "f = (sz, al)" by (cases f)
  obtain rest where rest: "place (round_up pos al + sz) fs = (rest, e)" and offs: "offs = round_up pos al # rest"
    using Cons.prems(2) by (auto simp: f Let_def split: prod.splits)
  have "0 < al" using Cons.prems(1) by (simp add: f)
  note up = round_up_props [OF this, of pos]
  have IH: "length rest = length fs" "round_up pos al + sz \<le> e"
    "\<And>i. i < length fs \<Longrightarrow> round_up pos al + sz \<le> rest ! i \<and> snd (fs ! i) dvd rest ! i \<and> rest ! i + fst (fs ! i) \<le> e"
    "\<And>i j. i < length fs \<Longrightarrow> j < i \<Longrightarrow> rest ! j + fst (fs ! j) \<le> rest ! i"
    using Cons.IH [OF _ rest] Cons.prems(1) by auto
  have "pos \<le> offs ! i \<and> snd ((f # fs) ! i) dvd offs ! i \<and> offs ! i + fst ((f # fs) ! i) \<le> e" if "i < Suc (length fs)" for i
    using that up IH(2) IH(3) [of "i - 1"] by (cases i) (auto simp: f offs)
  moreover have "offs ! j + fst ((f # fs) ! j) \<le> offs ! i" if "i < Suc (length fs)" "j < i" for i j
    using that IH(3) [of "i - 1"] IH(4) [of "i - 1" "j - 1"] by (cases i; cases j) (auto simp: f offs)
  ultimately show ?case using IH(1,2) up by (auto simp: offs)
qed auto

text \<open>Structures whose alignments are all positive have only aligned, disjoint fields inside.\<close>

fun proper_repr :: "repr \<Rightarrow> bool" where
  "proper_repr (Scalar n) \<longleftrightarrow> 0 < n"
| "proper_repr (Arr n t) \<longleftrightarrow> proper_repr t"
| "proper_repr (Struct a ts) \<longleftrightarrow> 0 < a \<and> list_all proper_repr ts"

lemma align_pos: "proper_repr t \<Longrightarrow> 0 < align_of t"
  by (induction t) (auto simp: Max_gr_iff)

definition fits :: "repr \<Rightarrow> bool" where
  "fits t \<longleftrightarrow> align_of t dvd size_of t
     \<and> (\<forall>i<length (fields_of t). align_of (fields_of t ! i) dvd offsets t ! i \<and> offsets t ! i + size_of (fields_of t ! i) \<le> size_of t)
     \<and> (\<forall>i<length (fields_of t). \<forall>j<i. offsets t ! j + size_of (fields_of t ! j) \<le> offsets t ! i)"

lemma struct_fits:
  assumes "proper_repr (Struct a ts)"
  shows "fits (Struct a ts)"
proof -
  let ?t = "Struct a ts"
  obtain offs e where place: "place 0 (field_shapes ts) = (offs, e)" by (cases "place 0 (field_shapes ts)")
  have pos: "\<forall>(sz, al)\<in>set (field_shapes ts). 0 < al"
    using assms by (auto simp: field_shapes_def list_all_iff align_pos)
  have "0 < align_of ?t" by (rule align_pos [OF assms])
  note up = round_up_props [OF this, of e]
  have sz: "size_of ?t = round_up e (align_of ?t)" using place by (simp add: field_shapes_def)
  note place_sound [OF pos place]
  then have "align_of (ts ! i) dvd offs ! i \<and> offs ! i + size_of (ts ! i) \<le> e"
    and "\<And>j. j < i \<Longrightarrow> offs ! j + size_of (ts ! j) \<le> offs ! i" if "i < length ts" for i
    using that by (auto simp: field_shapes_def)
  moreover have "e \<le> size_of ?t" unfolding sz by (rule up(1))
  moreover have "align_of ?t dvd size_of ?t" unfolding sz by (rule up(3))
  moreover have "offsets ?t = offs" by (simp add: offsets_def place)
  ultimately show ?thesis unfolding fits_def by (simp del: align_of.simps size_of.simps) (meson le_trans)
qed

section \<open>Error codes\<close>

datatype LaplaceError =
    Success | Internal | InvalidContext | AbiMismatch | MemoryAlignment | InvalidPointer
  | Timeout | KernelTimeout | SdkTimeout | LockTimeout
  | QuotaExceeded | OutOfMemory | CpuQuotaExceeded | ConcurrencyLimitExceeded | PoolExhausted
  | HandshakeFailed | InvalidRequest | VersionMismatch | TenantNotFound | Unauthorized
  | NetworkError | ConnectionFailed | SerializationError
  | VerificationError | IsolatePoolError | SchedulerError

definition error_code :: "LaplaceError \<Rightarrow> u32" where
  "error_code e = (case e of
      Success \<Rightarrow> 0 | Internal \<Rightarrow> 1000 | InvalidContext \<Rightarrow> 1001 | AbiMismatch \<Rightarrow> 1002 | MemoryAlignment \<Rightarrow> 1003 | InvalidPointer \<Rightarrow> 1004
    | Timeout \<Rightarrow> 2000 | KernelTimeout \<Rightarrow> 2001 | SdkTimeout \<Rightarrow> 2002 | LockTimeout \<Rightarrow> 2003
    | QuotaExceeded \<Rightarrow> 3000 | OutOfMemory \<Rightarrow> 3001 | CpuQuotaExceeded \<Rightarrow> 3002 | ConcurrencyLimitExceeded \<Rightarrow> 3003 | PoolExhausted \<Rightarrow> 3004
    | HandshakeFailed \<Rightarrow> 4000 | InvalidRequest \<Rightarrow> 4001 | VersionMismatch \<Rightarrow> 4002 | TenantNotFound \<Rightarrow> 4003 | Unauthorized \<Rightarrow> 4004
    | NetworkError \<Rightarrow> 5000 | ConnectionFailed \<Rightarrow> 5001 | SerializationError \<Rightarrow> 5002
    | VerificationError \<Rightarrow> 6000 | IsolatePoolError \<Rightarrow> 6001 | SchedulerError \<Rightarrow> 6002)"

definition from_code :: "u32 \<Rightarrow> LaplaceError" where
  "from_code code =
     (if code = 0 then Success else if code = 1000 then Internal else if code = 1001 then InvalidContext
      else if code = 1002 then AbiMismatch else if code = 1003 then MemoryAlignment else if code = 1004 then InvalidPointer
      else if code = 2000 then Timeout else if code = 2001 then KernelTimeout else if code = 2002 then SdkTimeout
      else if code = 2003 then LockTimeout else if code = 3000 then QuotaExceeded else if code = 3001 then OutOfMemory
      else if code = 3002 then CpuQuotaExceeded else if code = 3003 then ConcurrencyLimitExceeded
      else if code = 3004 then PoolExhausted else if code = 4000 then HandshakeFailed else if code = 4001 then InvalidRequest
      else if code = 4002 then VersionMismatch else if code = 4003 then TenantNotFound else if code = 4004 then Unauthorized
      else if code = 5000 then NetworkError else if code = 5001 then ConnectionFailed else if code = 5002 then SerializationError
      else if code = 6000 then VerificationError else if code = 6001 then IsolatePoolError else if code = 6002 then SchedulerError
      else Internal)"

definition is_retryable :: "LaplaceError \<Rightarrow> bool" where
  "is_retryable e \<longleftrightarrow> e \<in> {Timeout, KernelTimeout, SdkTimeout, LockTimeout, NetworkError, ConnectionFailed, PoolExhausted}"

definition is_resource_error :: "LaplaceError \<Rightarrow> bool" where
  "is_resource_error e \<longleftrightarrow> e \<in> {QuotaExceeded, OutOfMemory, CpuQuotaExceeded, ConcurrencyLimitExceeded, PoolExhausted}"

lemma from_error_code [simp]: "from_code (error_code e) = e"
  by (cases e) (simp_all add: error_code_def from_code_def)

lemma error_code_inject: "error_code a = error_code b \<longleftrightarrow> a = b"
  by (metis from_error_code)

text \<open>An unknown code becomes an internal error, and no other code changes on its way through.\<close>

lemma known_or_internal: "error_code (from_code c) = c \<or> from_code c = Internal"
  unfolding from_code_def by (simp add: error_code_def)

lemma code_of_from_code: "error_code (from_code c) = (if c \<in> range error_code then c else error_code Internal)"
  using known_or_internal [of c] by (metis from_error_code rangeE rangeI)

text \<open>The thousands of a code are its class.\<close>

lemma error_classes:
  "is_resource_error e \<longleftrightarrow> unat (error_code e) div 1000 = 3"
  "unat (error_code e) div 1000 = 2 \<Longrightarrow> is_retryable e"
  "is_retryable e \<Longrightarrow> unat (error_code e) div 1000 \<in> {2, 3, 5}"
  by (cases e; simp add: is_resource_error_def is_retryable_def error_code_def)+

section \<open>Structures\<close>

definition KERNEL_OWNED :: u32 where "KERNEL_OWNED = 0"

definition SDK_OWNED :: u32 where "SDK_OWNED = 1"

definition LOCKED :: u32 where "LOCKED = 2"

definition FFI_ABI_VERSION :: u32 where "FFI_ABI_VERSION = 0x00020000"

definition FFI_BUFFER_ALIGN :: nat where "FFI_BUFFER_ALIGN = 8"

text \<open>A pointer is its address, 0 the null pointer.\<close>

record FfiBuffer =
  fb_data :: u64
  fb_len :: usize
  fb_cap :: usize
  fb_padding :: u64

definition FfiBuffer_new :: FfiBuffer where
  "FfiBuffer_new = \<lparr>fb_data = 0, fb_len = 0, fb_cap = 0, fb_padding = 0\<rparr>"

definition FfiBuffer_is_valid :: "FfiBuffer \<Rightarrow> bool" where
  "FfiBuffer_is_valid self =
     (if fb_data self = 0 then fb_len self = 0 \<and> fb_cap self = 0 else fb_cap self \<ge> fb_len self \<and> fb_len self > 0)"

record FfiResponse =
  fr_error_code :: u32
  fr_reserved :: u32
  fr_result_buffer :: FfiBuffer

definition FfiResponse_success :: "FfiBuffer \<Rightarrow> FfiResponse" where
  "FfiResponse_success buffer = \<lparr>fr_error_code = 0, fr_reserved = 0, fr_result_buffer = buffer\<rparr>"

definition FfiResponse_error :: "u32 \<Rightarrow> FfiResponse" where
  "FfiResponse_error code = \<lparr>fr_error_code = code, fr_reserved = 0, fr_result_buffer = FfiBuffer_new\<rparr>"

definition is_success :: "FfiResponse \<Rightarrow> bool" where
  "is_success self \<longleftrightarrow> fr_error_code self = 0"

definition is_error :: "FfiResponse \<Rightarrow> bool" where
  "is_error self \<longleftrightarrow> fr_error_code self \<noteq> 0"

definition FfiResponse_default :: FfiResponse where
  "FfiResponse_default = FfiResponse_error 1000"

definition FfiResponse_is_valid :: "FfiResponse \<Rightarrow> bool" where
  "FfiResponse_is_valid self =
     (if is_success self then FfiBuffer_is_valid (fr_result_buffer self) else fr_error_code self \<noteq> 0)"

record SharedMemoryMetadata =
  sm_version :: u32
  sm_lock_state :: u32
  sm_kernel_ts :: u64
  sm_sdk_ts :: u64
  sm_data_offset :: u32
  sm_data_size :: u32

definition SharedMemoryMetadata_new :: "u32 \<Rightarrow> u32 \<Rightarrow> u32 \<Rightarrow> SharedMemoryMetadata" where
  "SharedMemoryMetadata_new version data_offset data_size =
     \<lparr>sm_version = version, sm_lock_state = KERNEL_OWNED, sm_kernel_ts = 0, sm_sdk_ts = 0, sm_data_offset = data_offset,
      sm_data_size = data_size\<rparr>"

definition SharedMemoryMetadata_is_valid :: "SharedMemoryMetadata \<Rightarrow> bool" where
  "SharedMemoryMetadata_is_valid self \<longleftrightarrow> sm_data_offset self > 0 \<and> sm_data_size self > 0 \<and> sm_version self > 0"

definition is_kernel_owned :: "SharedMemoryMetadata \<Rightarrow> bool" where
  "is_kernel_owned self \<longleftrightarrow> sm_lock_state self = KERNEL_OWNED"

definition is_sdk_owned :: "SharedMemoryMetadata \<Rightarrow> bool" where
  "is_sdk_owned self \<longleftrightarrow> sm_lock_state self = SDK_OWNED"

definition is_locked :: "SharedMemoryMetadata \<Rightarrow> bool" where
  "is_locked self \<longleftrightarrow> sm_lock_state self = LOCKED"

definition update_kernel_timestamp :: "u64 \<Rightarrow> SharedMemoryMetadata \<Rightarrow> SharedMemoryMetadata" where
  "update_kernel_timestamp timestamp self = self\<lparr>sm_kernel_ts := timestamp\<rparr>"

definition update_sdk_timestamp :: "u64 \<Rightarrow> SharedMemoryMetadata \<Rightarrow> SharedMemoryMetadata" where
  "update_sdk_timestamp timestamp self = self\<lparr>sm_sdk_ts := timestamp\<rparr>"

definition SharedMemoryMetadata_default :: SharedMemoryMetadata where
  "SharedMemoryMetadata_default = SharedMemoryMetadata_new 1 32 1024"

text \<open>At most one of the three lock states, and the version word read as \<open>0xMMmmRRRR\<close>.\<close>

lemma lock_states_exclusive:
  "\<not> (is_kernel_owned m \<and> is_sdk_owned m)" "\<not> (is_kernel_owned m \<and> is_locked m)" "\<not> (is_sdk_owned m \<and> is_locked m)"
  by (simp_all add: is_kernel_owned_def is_sdk_owned_def is_locked_def KERNEL_OWNED_def SDK_OWNED_def LOCKED_def)

lemma abi_version_read: "unat FFI_ABI_VERSION div 2 ^ 24 = 0" "unat FFI_ABI_VERSION div 2 ^ 16 mod 2 ^ 8 = 2" "unat FFI_ABI_VERSION mod 2 ^ 16 = 0"
  by (simp_all add: FFI_ABI_VERSION_def)

section \<open>Configuration\<close>

record FfiQuicConfig =
  qc_port :: u16
  qc_padding1 :: u16
  qc_max_streams :: u32
  qc_max_concurrent_uni_streams :: u32
  qc_idle_timeout_ms :: u64
  qc_host_addr :: FfiBuffer
  qc_cert_path :: FfiBuffer
  qc_key_path :: FfiBuffer
  qc_ca_cert_path :: FfiBuffer

text \<open>\<open>u32::from_str\<close>: an optional plus sign and at least one decimal digit, within 32 bits.\<close>

definition is_digit :: "char \<Rightarrow> bool" where
  "is_digit c \<longleftrightarrow> 48 \<le> (of_char c :: nat) \<and> (of_char c :: nat) \<le> 57"

definition parse_u32 :: "string \<Rightarrow> u32 option" where
  "parse_u32 s =
     (let digits = (case s of c # cs \<Rightarrow> if c = CHR ''+'' then cs else s | [] \<Rightarrow> []);
          v = fold (\<lambda>c acc. acc * 10 + (of_char c - 48 :: nat)) digits 0
      in if digits = [] \<or> \<not> list_all is_digit digits \<or> 2 ^ 32 \<le> v then None else Some (of_nat v))"

text \<open>The environment variable is an argument, None when it is not set.\<close>

definition max_concurrent_uni_streams_from_env :: "string option \<Rightarrow> u32" where
  "max_concurrent_uni_streams_from_env var =
     (case Option.bind var parse_u32 of Some v \<Rightarrow> if v > 0 then v else 256 | None \<Rightarrow> 256)"

definition FfiQuicConfig_new :: "string option \<Rightarrow> FfiQuicConfig" where
  "FfiQuicConfig_new var =
     \<lparr>qc_port = 0, qc_padding1 = 0, qc_max_streams = 1000,
      qc_max_concurrent_uni_streams = max_concurrent_uni_streams_from_env var, qc_idle_timeout_ms = 120000,
      qc_host_addr = FfiBuffer_new, qc_cert_path = FfiBuffer_new, qc_key_path = FfiBuffer_new, qc_ca_cert_path = FfiBuffer_new\<rparr>"

definition effective_max_concurrent_uni_streams :: "FfiQuicConfig \<Rightarrow> u32" where
  "effective_max_concurrent_uni_streams self =
     (if qc_max_concurrent_uni_streams self = 0 then 256 else qc_max_concurrent_uni_streams self)"

definition FfiQuicConfig_is_valid :: "FfiQuicConfig \<Rightarrow> bool" where
  "FfiQuicConfig_is_valid self =
     (if qc_port self = 0 \<or> qc_max_streams self = 0 \<or> qc_idle_timeout_ms self = 0 then False
      else FfiBuffer_is_valid (qc_host_addr self) \<and> fb_len (qc_host_addr self) > 0
         \<and> FfiBuffer_is_valid (qc_cert_path self) \<and> fb_len (qc_cert_path self) > 0
         \<and> FfiBuffer_is_valid (qc_key_path self) \<and> fb_len (qc_key_path self) > 0)"

record AxiomConfig =
  ac_max_threads :: u32
  ac_max_depth :: u32
  ac_max_starvation_limit :: u32
  ac_max_danger :: u32
  ac_default_seed :: u64

definition AxiomConfig_default :: AxiomConfig where
  "AxiomConfig_default = \<lparr>ac_max_threads = 8, ac_max_depth = 64, ac_max_starvation_limit = 10, ac_max_danger = 2000,
     ac_default_seed = 0xA1100ACE5EED0001\<rparr>"

record KrakenConfig =
  kc_max_response_bytes :: u32
  kc_yield_interval_iterations :: u32
  kc_max_safety_iterations :: u64
  kc_rng_scale :: u64
  kc_network_base_latency_ms :: u32
  kc_network_jitter_ms :: u32
  kc_network_error_probability_ppm :: u32
  kc_padding :: "u8 list"

definition KrakenConfig_default :: KrakenConfig where
  "KrakenConfig_default = \<lparr>kc_max_response_bytes = 4096, kc_yield_interval_iterations = 256, kc_max_safety_iterations = 5000000,
     kc_rng_scale = 1000000, kc_network_base_latency_ms = 10, kc_network_jitter_ms = 2, kc_network_error_probability_ppm = 0,
     kc_padding = replicate 4 0\<rparr>"

record ProbeConfig =
  pc_max_frame_len :: u32
  pc_batch_size :: u32
  pc_flush_interval_ms :: u64
  pc_lz4_compression_threshold :: u32
  pc_promotion_threshold :: u32
  pc_bind_port :: u16
  pc_padding :: "u8 list"

definition ProbeConfig_default :: ProbeConfig where
  "ProbeConfig_default = \<lparr>pc_max_frame_len = 4 * 1024 * 1024, pc_batch_size = 64, pc_flush_interval_ms = 100,
     pc_lz4_compression_threshold = 4 * 1024, pc_promotion_threshold = 16, pc_bind_port = 9000, pc_padding = replicate 6 0\<rparr>"

record LaplaceGlobalConfig =
  gc_axiom :: AxiomConfig
  gc_kraken :: KrakenConfig
  gc_probe :: ProbeConfig

definition LaplaceGlobalConfig_default :: LaplaceGlobalConfig where
  "LaplaceGlobalConfig_default = \<lparr>gc_axiom = AxiomConfig_default, gc_kraken = KrakenConfig_default, gc_probe = ProbeConfig_default\<rparr>"

text \<open>The limit that is in force is never zero, whatever the environment says.\<close>

lemma effective_streams_pos: "effective_max_concurrent_uni_streams c > 0" "max_concurrent_uni_streams_from_env var > 0"
  unfolding effective_max_concurrent_uni_streams_def max_concurrent_uni_streams_from_env_def
  by (simp_all add: word_gt_0 split: option.splits)

text \<open>A fresh configuration is not valid before a port and three buffers are set, and a valid buffer's bytes lie within its capacity.\<close>

lemma FfiBuffer_is_valid_iff:
  "FfiBuffer_is_valid b \<longleftrightarrow> unat (fb_len b) \<le> unat (fb_cap b) \<and> (fb_data b = 0 \<longleftrightarrow> fb_len b = 0) \<and> (fb_data b = 0 \<longrightarrow> fb_cap b = 0)"
  by (auto simp: FfiBuffer_is_valid_def word_le_nat_alt word_gt_0)

lemma fresh_quic_invalid: "\<not> FfiQuicConfig_is_valid (FfiQuicConfig_new var)"
  by (simp add: FfiQuicConfig_is_valid_def FfiQuicConfig_new_def)

section \<open>Their layouts\<close>

definition FfiBuffer_repr :: repr where
  "FfiBuffer_repr = Struct 8 [Scalar 8, Scalar 8, Scalar 8, Scalar 8]"

definition FfiResponse_repr :: repr where
  "FfiResponse_repr = Struct 8 [Scalar 4, Scalar 4, FfiBuffer_repr]"

definition SharedMemoryMetadata_repr :: repr where
  "SharedMemoryMetadata_repr = Struct 8 [Scalar 4, Scalar 4, Scalar 8, Scalar 8, Scalar 4, Scalar 4]"

definition FfiQuicConfig_repr :: repr where
  "FfiQuicConfig_repr = Struct 8
     [Scalar 2, Scalar 2, Scalar 4, Scalar 4, Scalar 8, FfiBuffer_repr, FfiBuffer_repr, FfiBuffer_repr, FfiBuffer_repr]"

definition AxiomConfig_repr :: repr where
  "AxiomConfig_repr = Struct 8 [Scalar 4, Scalar 4, Scalar 4, Scalar 4, Scalar 8]"

definition KrakenConfig_repr :: repr where
  "KrakenConfig_repr = Struct 8 [Scalar 4, Scalar 4, Scalar 8, Scalar 8, Scalar 4, Scalar 4, Scalar 4, Arr 4 (Scalar 1)]"

definition ProbeConfig_repr :: repr where
  "ProbeConfig_repr = Struct 8 [Scalar 4, Scalar 4, Scalar 8, Scalar 4, Scalar 4, Scalar 2, Arr 6 (Scalar 1)]"

definition LaplaceGlobalConfig_repr :: repr where
  "LaplaceGlobalConfig_repr = Struct 8 [AxiomConfig_repr, KrakenConfig_repr, ProbeConfig_repr]"

text \<open>No alignment is asked for here.\<close>

definition RawProbeEvent_repr :: repr where
  "RawProbeEvent_repr = Struct 1
     [Scalar 8, Scalar 4, Scalar 4, Scalar 1, Scalar 1, Scalar 2, Scalar 4, Scalar 8, Scalar 8, Scalar 4, Scalar 4, Scalar 8, Scalar 4,
      Scalar 4, Scalar 8, Scalar 8, Scalar 8, Scalar 4, Scalar 4, Arr 16 (Scalar 1), Scalar 8, Scalar 8]"

lemmas repr_defs = FfiBuffer_repr_def FfiResponse_repr_def SharedMemoryMetadata_repr_def FfiQuicConfig_repr_def AxiomConfig_repr_def
  KrakenConfig_repr_def ProbeConfig_repr_def LaplaceGlobalConfig_repr_def RawProbeEvent_repr_def

text \<open>No byte of a structure is outside its fields.\<close>

definition dense :: "repr \<Rightarrow> bool" where
  "dense t \<longleftrightarrow> size_of t = sum_list (map size_of (fields_of t))"

definition crossing :: "repr list" where
  "crossing = [FfiBuffer_repr, FfiResponse_repr, SharedMemoryMetadata_repr, FfiQuicConfig_repr, AxiomConfig_repr, KrakenConfig_repr,
     ProbeConfig_repr, LaplaceGlobalConfig_repr, RawProbeEvent_repr]"

lemma crossing_sizes: "map size_of crossing = [32, 40, 32, 152, 24, 40, 32, 96, 128]" "map align_of crossing = replicate 9 FFI_BUFFER_ALIGN"
  by code_simp+

lemma crossing_dense: "map dense crossing = [True, True, True, False, True, True, True, True, True]"
  by code_simp

lemma crossing_offsets:
  "map offsets crossing =
    [[0, 8, 16, 24], [0, 4, 8], [0, 4, 8, 16, 24, 28], [0, 2, 4, 8, 16, 24, 56, 88, 120], [0, 4, 8, 12, 16],
     [0, 4, 8, 16, 24, 28, 32, 36], [0, 4, 8, 16, 20, 24, 26], [0, 24, 64],
     [0, 8, 12, 16, 17, 18, 20, 24, 32, 40, 44, 48, 56, 60, 64, 72, 80, 88, 92, 96, 112, 120]]"
  by code_simp

lemma crossing_fits: "list_all fits crossing"
  unfolding crossing_def repr_defs by (simp add: struct_fits)

end
