(* ===== verification/ModelPaths.thy ===== *)
theory ModelPaths
  imports Prelude
begin

text \<open>
  The tables of the model rewrite (\<^verbatim>\<open>laplace-macro/src/model.rs\<close>): which paths of the standard library and of tokio the attribute
  sends to the model runtime, which it knows but cannot model, and the aliases that \<open>use\<close> items give them. The syntax trees of
  the parser library are represented by the parts the code looks at: a path is a list of segments, a segment an identifier
  with optional generic arguments, which are pieces of syntax of any type \<open>'a\<close>.
\<close>

section \<open>Paths\<close>

type_synonym ident = string

datatype 'a args = NoArgs | Args "'a list"

datatype 'a segment = Segment (seg_ident: ident) (seg_args: "'a args")

datatype 'a path = Path (leading_colon: bool) (segments: "'a segment list")

definition plain :: "'a segment \<Rightarrow> bool" where
  "plain seg \<longleftrightarrow> (case seg_args seg of NoArgs \<Rightarrow> True | Args _ \<Rightarrow> False)"

lemma plain_Segment [simp]: "plain (Segment i a) \<longleftrightarrow> a = NoArgs"
  by (cases a) (simp_all add: plain_def)

definition all_plain :: "'a path \<Rightarrow> bool" where
  "all_plain p \<longleftrightarrow> list_all plain (segments p)"

definition idents :: "'a path \<Rightarrow> ident list" where
  "idents p = map seg_ident (segments p)"

text \<open>A path written out in the macro, such as \<open>::laplace_sdk::rt::spawn\<close>.\<close>

definition quoted :: "ident list \<Rightarrow> 'a path" where
  "quoted ids = Path True (map (\<lambda>i. Segment i NoArgs) ids)"

definition rt_path :: "ident list \<Rightarrow> 'a path" where
  "rt_path ids = quoted ([''laplace_sdk'', ''rt''] @ ids)"

section \<open>Spawning\<close>

definition is_supported_spawn_path :: "'a path \<Rightarrow> bool" where
  "is_supported_spawn_path path \<longleftrightarrow>
     (if \<not> all_plain path then False
      else idents path = [''std'', ''thread'', ''spawn''] \<or> idents path = [''thread'', ''spawn''])"

definition is_tokio_spawn_path :: "'a path \<Rightarrow> bool" where
  "is_tokio_spawn_path path \<longleftrightarrow>
     (if \<not> all_plain path then False
      else idents path = [''tokio'', ''spawn''] \<or> idents path = [''tokio'', ''task'', ''spawn''])"

definition is_unmodeled_tokio_spawn_path :: "'a path \<Rightarrow> bool" where
  "is_unmodeled_tokio_spawn_path path \<longleftrightarrow>
     (if \<not> all_plain path then False
      else (case idents path of
              [tokio, task, method] \<Rightarrow> tokio = ''tokio'' \<and> task = ''task'' \<and> (method = ''spawn_blocking'' \<or> method = ''spawn_local'')
            | _ \<Rightarrow> False))"

section \<open>Locks\<close>

definition model_path :: "ident \<Rightarrow> 'a args \<Rightarrow> 'a segment option \<Rightarrow> 'a path" where
  "model_path target arguments method =
     Path True ([Segment ''laplace_sdk'' NoArgs, Segment ''rt'' NoArgs, Segment target arguments] @
       (case method of Some m \<Rightarrow> [m] | None \<Rightarrow> []))"

definition model_target_for :: "ident \<Rightarrow> ident option" where
  "model_target_for i = (if i = ''Mutex'' then Some ''ModelMutex'' else if i = ''RwLock'' then Some ''ModelRwLock'' else None)"

definition rewrite_std_sync_type_path :: "'a path \<Rightarrow> 'a path option" where
  "rewrite_std_sync_type_path path =
     (case segments path of
        [std, sync, ty] \<Rightarrow>
          if seg_ident std \<noteq> ''std'' \<or> seg_ident sync \<noteq> ''sync'' then None
          else if \<not> plain std \<or> \<not> plain sync then None
          else (case model_target_for (seg_ident ty) of None \<Rightarrow> None | Some target \<Rightarrow> Some (model_path target (seg_args ty) None))
      | _ \<Rightarrow> None)"

definition rewrite_std_sync_constructor_path :: "'a path \<Rightarrow> 'a path option" where
  "rewrite_std_sync_constructor_path path =
     (case segments path of
        [std, sync, ty, method] \<Rightarrow>
          if seg_ident std \<noteq> ''std'' \<or> seg_ident sync \<noteq> ''sync'' then None
          else if \<not> plain std \<or> \<not> plain sync \<or> seg_ident method \<noteq> ''new'' \<or> \<not> plain method then None
          else (case model_target_for (seg_ident ty) of
                  None \<Rightarrow> None
                | Some target \<Rightarrow> Some (model_path target (seg_args ty) (Some method)))
      | _ \<Rightarrow> None)"

definition tokio_model_target_for :: "ident \<Rightarrow> ident option" where
  "tokio_model_target_for i =
     (if i = ''Mutex'' then Some ''ModelAsyncMutex'' else if i = ''RwLock'' then Some ''ModelAsyncRwLock''
      else if i = ''Semaphore'' then Some ''ModelAsyncSemaphore'' else if i = ''Notify'' then Some ''ModelAsyncNotify'' else None)"

definition rewrite_tokio_sync_type_path :: "'a path \<Rightarrow> 'a path option" where
  "rewrite_tokio_sync_type_path path =
     (case segments path of
        [tokio, sync, ty] \<Rightarrow>
          if seg_ident tokio \<noteq> ''tokio'' \<or> seg_ident sync \<noteq> ''sync'' then None
          else if \<not> plain tokio \<or> \<not> plain sync then None
          else (case tokio_model_target_for (seg_ident ty) of
                  None \<Rightarrow> None
                | Some target \<Rightarrow> Some (model_path target (seg_args ty) None))
      | _ \<Rightarrow> None)"

definition rewrite_tokio_sync_constructor_path :: "'a path \<Rightarrow> 'a path option" where
  "rewrite_tokio_sync_constructor_path path =
     (case segments path of
        [tokio, sync, ty, method] \<Rightarrow>
          if seg_ident tokio \<noteq> ''tokio'' \<or> seg_ident sync \<noteq> ''sync'' then None
          else if \<not> plain tokio \<or> \<not> plain sync \<or> \<not> (seg_ident method = ''new'' \<or> seg_ident method = ''const_new'') \<or> \<not> plain method
          then None
          else (case tokio_model_target_for (seg_ident ty) of
                  None \<Rightarrow> None
                | Some target \<Rightarrow> Some (model_path target (seg_args ty) (Some method)))
      | _ \<Rightarrow> None)"

section \<open>Channels\<close>

definition channel_path :: "ident \<Rightarrow> ident \<Rightarrow> 'a args \<Rightarrow> 'a path" where
  "channel_path module nm arguments =
     Path True [Segment ''laplace_sdk'' NoArgs, Segment ''rt'' NoArgs, Segment module NoArgs, Segment nm arguments]"

definition tokio_channel_fn_target_for :: "ident \<Rightarrow> ident \<Rightarrow> (ident \<times> ident) option" where
  "tokio_channel_fn_target_for module func =
     (if (module, func) \<in> {(''mpsc'', ''channel''), (''mpsc'', ''unbounded_channel''), (''oneshot'', ''channel''), (''watch'', ''channel''),
        (''broadcast'', ''channel'')} then Some (module, func) else None)"

definition tokio_channel_type_target_for :: "ident \<Rightarrow> ident \<Rightarrow> (ident \<times> ident) option" where
  "tokio_channel_type_target_for module ty =
     (if (module, ty) \<in> {(''mpsc'', ''Sender''), (''mpsc'', ''Receiver''), (''mpsc'', ''UnboundedSender''), (''mpsc'', ''UnboundedReceiver''),
        (''oneshot'', ''Sender''), (''oneshot'', ''Receiver''), (''watch'', ''Sender''), (''watch'', ''Receiver''), (''watch'', ''Ref''),
        (''broadcast'', ''Sender''), (''broadcast'', ''Receiver'')} then Some (module, ty) else None)"

definition rewrite_tokio_sync_channel_constructor_path :: "'a path \<Rightarrow> 'a path option" where
  "rewrite_tokio_sync_channel_constructor_path path =
     (case segments path of
        [tokio, sync, module, func] \<Rightarrow>
          if seg_ident tokio \<noteq> ''tokio'' \<or> seg_ident sync \<noteq> ''sync'' then None
          else if \<not> plain tokio \<or> \<not> plain sync \<or> \<not> plain module then None
          else (case tokio_channel_fn_target_for (seg_ident module) (seg_ident func) of
                  None \<Rightarrow> None
                | Some (target_module, target_fn) \<Rightarrow> Some (channel_path target_module target_fn (seg_args func)))
      | _ \<Rightarrow> None)"

definition rewrite_tokio_sync_channel_type_path :: "'a path \<Rightarrow> 'a path option" where
  "rewrite_tokio_sync_channel_type_path path =
     (case segments path of
        [tokio, sync, module, ty] \<Rightarrow>
          if seg_ident tokio \<noteq> ''tokio'' \<or> seg_ident sync \<noteq> ''sync'' then None
          else if \<not> plain tokio \<or> \<not> plain sync \<or> \<not> plain module then None
          else (case tokio_channel_type_target_for (seg_ident module) (seg_ident ty) of
                  None \<Rightarrow> None
                | Some (target_module, target_ty) \<Rightarrow> Some (channel_path target_module target_ty (seg_args ty)))
      | _ \<Rightarrow> None)"

section \<open>Time and select\<close>

definition time_fn_target_for :: "ident \<Rightarrow> ident option" where
  "time_fn_target_for i = (if i = ''sleep'' \<or> i = ''timeout'' \<or> i = ''interval'' then Some i else None)"

definition rewrite_tokio_time_fn_path :: "'a path \<Rightarrow> 'a path option" where
  "rewrite_tokio_time_fn_path path =
     (case segments path of
        [tokio, time, func] \<Rightarrow>
          if seg_ident tokio \<noteq> ''tokio'' \<or> seg_ident time \<noteq> ''time'' then None
          else if \<not> plain tokio \<or> \<not> plain time \<or> \<not> plain func then None
          else (case time_fn_target_for (seg_ident func) of None \<Rightarrow> None | Some target \<Rightarrow> Some (rt_path [''time'', target]))
      | _ \<Rightarrow> None)"

definition time_type_target_for :: "ident \<Rightarrow> ident option" where
  "time_type_target_for i = (if i = ''Sleep'' \<or> i = ''Timeout'' \<or> i = ''Interval'' then Some i else None)"

definition rewrite_tokio_time_type_path :: "'a path \<Rightarrow> 'a path option" where
  "rewrite_tokio_time_type_path path =
     (case segments path of
        [tokio, time, ty] \<Rightarrow>
          if seg_ident tokio \<noteq> ''tokio'' \<or> seg_ident time \<noteq> ''time'' then None
          else if \<not> plain tokio \<or> \<not> plain time then None
          else (case time_type_target_for (seg_ident ty) of None \<Rightarrow> None | Some target \<Rightarrow> Some (channel_path ''time'' target (seg_args ty)))
      | _ \<Rightarrow> None)"

definition is_tokio_select_macro_path :: "'a path \<Rightarrow> bool" where
  "is_tokio_select_macro_path path \<longleftrightarrow> (if \<not> all_plain path then False else idents path = [''tokio'', ''select''])"

section \<open>Primitives that are known but not modelled\<close>

datatype Unmodeled = UCondvar | UAtomic | UChannel | UTokioSpawn | UTokioTime | UArcSwap

definition marker_ident :: "Unmodeled \<Rightarrow> ident" where
  "marker_ident self = (case self of UCondvar \<Rightarrow> ''CONDVAR'' | UAtomic \<Rightarrow> ''ATOMIC'' | UChannel \<Rightarrow> ''CHANNEL''
     | UTokioSpawn \<Rightarrow> ''TOKIO_SPAWN'' | UTokioTime \<Rightarrow> ''TOKIO_TIME'' | UArcSwap \<Rightarrow> ''ARC_SWAP'')"

definition classify_tokio_time_unmodeled :: "'a path \<Rightarrow> Unmodeled option" where
  "classify_tokio_time_unmodeled path =
     (case take 3 (segments path) of
        [tokio, time, i] \<Rightarrow>
          if seg_ident tokio \<noteq> ''tokio'' \<or> seg_ident time \<noteq> ''time'' then None
          else if \<not> plain tokio \<or> \<not> plain time then None
          else if seg_ident i \<in> {''Instant'', ''sleep_until'', ''interval_at'', ''timeout_at'', ''advance'', ''pause'', ''resume''}
          then Some UTokioTime else None
      | _ \<Rightarrow> None)"

definition classify_arc_swap_unmodeled :: "'a path \<Rightarrow> Unmodeled option" where
  "classify_arc_swap_unmodeled path =
     (case segments path of
        [] \<Rightarrow> None
      | first # _ \<Rightarrow>
          if seg_ident first = ''arc_swap'' \<or> seg_ident first \<in> {''ArcSwap'', ''ArcSwapOption'', ''ArcSwapAny'', ''ArcSwapWeak''}
          then Some UArcSwap else None)"

definition is_known_atomic_type :: "ident \<Rightarrow> bool" where
  "is_known_atomic_type i \<longleftrightarrow> i \<in> {''AtomicBool'', ''AtomicI8'', ''AtomicI16'', ''AtomicI32'', ''AtomicI64'', ''AtomicIsize'', ''AtomicU8'',
     ''AtomicU16'', ''AtomicU32'', ''AtomicU64'', ''AtomicUsize'', ''AtomicPtr''}"

definition classify_unmodeled :: "'a path \<Rightarrow> Unmodeled option" where
  "classify_unmodeled path =
     (case classify_tokio_time_unmodeled path of
        Some primitive \<Rightarrow> Some primitive
      | None \<Rightarrow>
          if is_tokio_spawn_path path \<or> is_unmodeled_tokio_spawn_path path then Some UTokioSpawn
          else (case classify_arc_swap_unmodeled path of
                  Some primitive \<Rightarrow> Some primitive
                | None \<Rightarrow>
                    let has = (\<lambda>nm. list_ex (\<lambda>seg. seg_ident seg = nm) (segments path)) in
                    if has ''Condvar'' then Some UCondvar
                    else if has ''mpsc'' then Some UChannel
                    else if list_ex (\<lambda>seg. seg_ident seg = ''atomic'' \<or> is_known_atomic_type (seg_ident seg)) (segments path)
                    then Some UAtomic else None))"

section \<open>What happens to a path\<close>

text \<open>The chains of \<open>visit_expr_call_mut\<close>, \<open>visit_type_path_mut\<close> and \<open>visit_macro_mut\<close> after the children have been visited.\<close>

datatype 'a outcome = Rewrite "'a path" | Flag Unmodeled | Leave

definition call_outcome :: "bool \<Rightarrow> 'a path \<Rightarrow> 'a outcome" where
  "call_outcome tasks effective =
     (if tasks \<and> is_tokio_spawn_path effective then Rewrite (rt_path [''spawn_task''])
      else if is_supported_spawn_path effective then Rewrite (rt_path [''spawn''])
      else case rewrite_std_sync_constructor_path effective of Some rewritten \<Rightarrow> Rewrite rewritten
      | None \<Rightarrow> (case rewrite_tokio_sync_constructor_path effective of Some rewritten \<Rightarrow> Rewrite rewritten
      | None \<Rightarrow> (case rewrite_tokio_sync_channel_constructor_path effective of Some rewritten \<Rightarrow> Rewrite rewritten
      | None \<Rightarrow> (case rewrite_tokio_time_fn_path effective of Some rewritten \<Rightarrow> Rewrite rewritten
      | None \<Rightarrow> (case classify_unmodeled effective of Some primitive \<Rightarrow> Flag primitive | None \<Rightarrow> Leave)))))"

definition type_outcome :: "'a path \<Rightarrow> 'a outcome" where
  "type_outcome effective =
     (case rewrite_std_sync_type_path effective of Some rewritten \<Rightarrow> Rewrite rewritten
      | None \<Rightarrow> (case rewrite_tokio_sync_type_path effective of Some rewritten \<Rightarrow> Rewrite rewritten
      | None \<Rightarrow> (case rewrite_tokio_sync_channel_type_path effective of Some rewritten \<Rightarrow> Rewrite rewritten
      | None \<Rightarrow> (case rewrite_tokio_time_type_path effective of Some rewritten \<Rightarrow> Rewrite rewritten
      | None \<Rightarrow> (case classify_unmodeled effective of Some primitive \<Rightarrow> Flag primitive | None \<Rightarrow> Leave)))))"

definition macro_outcome :: "'a path \<Rightarrow> 'a outcome" where
  "macro_outcome effective = (if is_tokio_select_macro_path effective then Rewrite (rt_path [''laplace_select'']) else Leave)"

section \<open>The reference table\<close>

text \<open>An entry names a path, the path below \<open>::laplace_sdk::rt\<close> that replaces it, and the one segment that may carry generic
  arguments, with its position in the new path.\<close>

type_synonym entry = "ident list \<times> ident list \<times> (nat \<times> nat) option"

definition matches_entry :: "'a path \<Rightarrow> entry \<Rightarrow> bool" where
  "matches_entry p = (\<lambda>(src, dst, carry). idents p = src \<and>
     list_all plain (case carry of None \<Rightarrow> segments p | Some (k, l) \<Rightarrow> take k (segments p) @ drop (Suc k) (segments p)))"

definition rt_segs :: "ident list \<Rightarrow> 'a segment list" where
  "rt_segs dst = map (\<lambda>i. Segment i NoArgs) ([''laplace_sdk'', ''rt''] @ dst)"

definition apply_entry :: "'a path \<Rightarrow> entry \<Rightarrow> 'a path" where
  "apply_entry p = (\<lambda>(src, dst, carry).
     Path True (case carry of None \<Rightarrow> rt_segs dst
       | Some (k, l) \<Rightarrow> (rt_segs dst)[l := Segment (([''laplace_sdk'', ''rt''] @ dst) ! l) (seg_args (segments p ! k))]))"

definition spawn_task_entries :: "entry list" where
  "spawn_task_entries = [([''tokio'', ''spawn''], [''spawn_task''], None), ([''tokio'', ''task'', ''spawn''], [''spawn_task''], None)]"

definition spawn_entries :: "entry list" where
  "spawn_entries = [([''std'', ''thread'', ''spawn''], [''spawn''], None), ([''thread'', ''spawn''], [''spawn''], None)]"

definition std_lock_entries :: "entry list" where
  "std_lock_entries =
     [([''std'', ''sync'', ''Mutex'', ''new''], [''ModelMutex'', ''new''], Some (2, 2)),
      ([''std'', ''sync'', ''RwLock'', ''new''], [''ModelRwLock'', ''new''], Some (2, 2))]"

definition tokio_lock_entries :: "entry list" where
  "tokio_lock_entries =
     [([''tokio'', ''sync'', ''Mutex'', ''new''], [''ModelAsyncMutex'', ''new''], Some (2, 2)),
      ([''tokio'', ''sync'', ''Mutex'', ''const_new''], [''ModelAsyncMutex'', ''const_new''], Some (2, 2)),
      ([''tokio'', ''sync'', ''RwLock'', ''new''], [''ModelAsyncRwLock'', ''new''], Some (2, 2)),
      ([''tokio'', ''sync'', ''RwLock'', ''const_new''], [''ModelAsyncRwLock'', ''const_new''], Some (2, 2)),
      ([''tokio'', ''sync'', ''Semaphore'', ''new''], [''ModelAsyncSemaphore'', ''new''], Some (2, 2)),
      ([''tokio'', ''sync'', ''Semaphore'', ''const_new''], [''ModelAsyncSemaphore'', ''const_new''], Some (2, 2)),
      ([''tokio'', ''sync'', ''Notify'', ''new''], [''ModelAsyncNotify'', ''new''], Some (2, 2)),
      ([''tokio'', ''sync'', ''Notify'', ''const_new''], [''ModelAsyncNotify'', ''const_new''], Some (2, 2))]"

definition channel_entries :: "entry list" where
  "channel_entries = map (\<lambda>(m, f). ([''tokio'', ''sync'', m, f], [m, f], Some (3, 3)))
     [(''mpsc'', ''channel''), (''mpsc'', ''unbounded_channel''), (''oneshot'', ''channel''), (''watch'', ''channel''), (''broadcast'', ''channel'')]"

definition time_entries :: "entry list" where
  "time_entries = map (\<lambda>f. ([''tokio'', ''time'', f], [''time'', f], None)) [''sleep'', ''timeout'', ''interval'']"

definition call_entries :: "bool \<Rightarrow> entry list" where
  "call_entries tasks = (if tasks then spawn_task_entries else []) @ spawn_entries @ std_lock_entries @ tokio_lock_entries @
     channel_entries @ time_entries"

definition std_lock_type_entries :: "entry list" where
  "std_lock_type_entries =
     [([''std'', ''sync'', ''Mutex''], [''ModelMutex''], Some (2, 2)), ([''std'', ''sync'', ''RwLock''], [''ModelRwLock''], Some (2, 2))]"

definition tokio_lock_type_entries :: "entry list" where
  "tokio_lock_type_entries =
     [([''tokio'', ''sync'', ''Mutex''], [''ModelAsyncMutex''], Some (2, 2)), ([''tokio'', ''sync'', ''RwLock''], [''ModelAsyncRwLock''], Some (2, 2)),
      ([''tokio'', ''sync'', ''Semaphore''], [''ModelAsyncSemaphore''], Some (2, 2)),
      ([''tokio'', ''sync'', ''Notify''], [''ModelAsyncNotify''], Some (2, 2))]"

definition channel_type_entries :: "entry list" where
  "channel_type_entries = map (\<lambda>(m, t). ([''tokio'', ''sync'', m, t], [m, t], Some (3, 3)))
     [(''mpsc'', ''Sender''), (''mpsc'', ''Receiver''), (''mpsc'', ''UnboundedSender''), (''mpsc'', ''UnboundedReceiver''), (''oneshot'', ''Sender''),
      (''oneshot'', ''Receiver''), (''watch'', ''Sender''), (''watch'', ''Receiver''), (''watch'', ''Ref''), (''broadcast'', ''Sender''),
      (''broadcast'', ''Receiver'')]"

definition time_type_entries :: "entry list" where
  "time_type_entries = map (\<lambda>t. ([''tokio'', ''time'', t], [''time'', t], Some (2, 3))) [''Sleep'', ''Timeout'', ''Interval'']"

definition type_entries :: "entry list" where
  "type_entries = std_lock_type_entries @ tokio_lock_type_entries @ channel_type_entries @ time_type_entries"

text \<open>The replacement by the first entry that matches.\<close>

fun lookup_entry :: "entry list \<Rightarrow> 'a path \<Rightarrow> 'a path option" where
  "lookup_entry [] p = None"
| "lookup_entry (e # es) p = (if matches_entry p e then Some (apply_entry p e) else lookup_entry es p)"

lemma lookup_append: "lookup_entry (es @ fs) p = (case lookup_entry es p of Some r \<Rightarrow> Some r | None \<Rightarrow> lookup_entry fs p)"
  by (induction es) auto

lemma lookup_lengths: "\<forall>e\<in>set es. length (fst e) \<noteq> length (segments p) \<Longrightarrow> lookup_entry es p = None"
proof (induction es)
  case (Cons e es)
  then have "length (idents p) \<noteq> length (fst e)" by (simp add: idents_def)
  then have "\<not> matches_entry p e" by (auto simp: matches_entry_def split_beta)
  with Cons show ?case by simp
qed simp

text \<open>The paths of two, three and four segments, and the rest, which no entry matches.\<close>

lemma segments_cases:
  obtains (two) b i x j y where "p = Path b [Segment i x, Segment j y]"
  | (three) b i x j y k z where "p = Path b [Segment i x, Segment j y, Segment k z]"
  | (four) b i x j y k z l v where "p = Path b [Segment i x, Segment j y, Segment k z, Segment l v]"
  | (other) "length (segments p) \<noteq> 2" "length (segments p) \<noteq> 3" "length (segments p) \<noteq> 4"
proof -
  obtain b xs where p: "p = Path b xs" by (cases p)
  consider "length xs = 2" | "length xs = 3" | "length xs = 4" | "length xs \<notin> {2, 3, 4}" by auto
  then show ?thesis
  proof cases
    case 1
    then obtain s t where "xs = [s, t]" by (auto simp: numeral_2_eq_2 length_Suc_conv)
    then show ?thesis using two unfolding p by (cases s; cases t) blast
  next
    case 2
    then obtain s t u where "xs = [s, t, u]" by (auto simp: numeral_3_eq_3 length_Suc_conv)
    then show ?thesis using three unfolding p by (cases s; cases t; cases u) blast
  next
    case 3
    then obtain s t u w where "xs = [s, t, u, w]" by (auto simp: numeral_eq_Suc length_Suc_conv)
    then show ?thesis using four unfolding p by (cases s; cases t; cases u; cases w) blast
  next
    case 4
    then show ?thesis using other by (simp add: p)
  qed
qed

lemmas entry_simps = matches_entry_def apply_entry_def rt_segs_def idents_def all_plain_def rt_path_def quoted_def model_path_def channel_path_def

lemma std_lock_lookup: "rewrite_std_sync_constructor_path p = lookup_entry std_lock_entries p"
proof (cases rule: segments_cases [of p])
  case other
  then show ?thesis by (subst lookup_lengths) (auto simp: rewrite_std_sync_constructor_path_def std_lock_entries_def split: list.splits)
qed (auto simp: rewrite_std_sync_constructor_path_def std_lock_entries_def entry_simps model_target_for_def)

lemma tokio_lock_lookup: "rewrite_tokio_sync_constructor_path p = lookup_entry tokio_lock_entries p"
proof (cases rule: segments_cases [of p])
  case other
  then show ?thesis by (subst lookup_lengths) (auto simp: rewrite_tokio_sync_constructor_path_def tokio_lock_entries_def split: list.splits)
qed (auto simp: rewrite_tokio_sync_constructor_path_def tokio_lock_entries_def entry_simps tokio_model_target_for_def)

lemma lookup_channel_shape:
  "lookup_entry (map (\<lambda>(m, f). ([''tokio'', ''sync'', m, f], [m, f], Some (3, 3))) ms)
       (Path b [Segment i x, Segment j y, Segment k z, Segment l v])
     = (if i = ''tokio'' \<and> j = ''sync'' \<and> x = NoArgs \<and> y = NoArgs \<and> z = NoArgs \<and> (k, l) \<in> set ms then Some (channel_path k l v) else None)"
  by (induction ms) (auto simp: entry_simps)

lemma channel_lookup: "rewrite_tokio_sync_channel_constructor_path p = lookup_entry channel_entries p"
proof (cases rule: segments_cases [of p])
  case (four b i x j y k z l v)
  show ?thesis unfolding four channel_entries_def lookup_channel_shape by (simp add: rewrite_tokio_sync_channel_constructor_path_def tokio_channel_fn_target_for_def)
next
  case other
  then show ?thesis by (subst lookup_lengths) (auto simp: rewrite_tokio_sync_channel_constructor_path_def channel_entries_def split: list.splits)
qed (simp_all add: rewrite_tokio_sync_channel_constructor_path_def channel_entries_def entry_simps)

lemma time_lookup: "rewrite_tokio_time_fn_path p = lookup_entry time_entries p"
proof (cases rule: segments_cases [of p])
  case other
  then show ?thesis by (subst lookup_lengths) (auto simp: rewrite_tokio_time_fn_path_def time_entries_def split: list.splits)
qed (auto simp: rewrite_tokio_time_fn_path_def time_entries_def entry_simps time_fn_target_for_def)

lemma std_lock_type_lookup: "rewrite_std_sync_type_path p = lookup_entry std_lock_type_entries p"
proof (cases rule: segments_cases [of p])
  case other
  then show ?thesis by (subst lookup_lengths) (auto simp: rewrite_std_sync_type_path_def std_lock_type_entries_def split: list.splits)
qed (auto simp: rewrite_std_sync_type_path_def std_lock_type_entries_def entry_simps model_target_for_def)

lemma tokio_lock_type_lookup: "rewrite_tokio_sync_type_path p = lookup_entry tokio_lock_type_entries p"
proof (cases rule: segments_cases [of p])
  case other
  then show ?thesis by (subst lookup_lengths) (auto simp: rewrite_tokio_sync_type_path_def tokio_lock_type_entries_def split: list.splits)
qed (auto simp: rewrite_tokio_sync_type_path_def tokio_lock_type_entries_def entry_simps tokio_model_target_for_def)

lemma channel_type_lookup: "rewrite_tokio_sync_channel_type_path p = lookup_entry channel_type_entries p"
proof (cases rule: segments_cases [of p])
  case (four b i x j y k z l v)
  show ?thesis unfolding four channel_type_entries_def lookup_channel_shape by (simp add: rewrite_tokio_sync_channel_type_path_def tokio_channel_type_target_for_def)
next
  case other
  then show ?thesis by (subst lookup_lengths) (auto simp: rewrite_tokio_sync_channel_type_path_def channel_type_entries_def split: list.splits)
qed (simp_all add: rewrite_tokio_sync_channel_type_path_def channel_type_entries_def entry_simps)

lemma time_type_lookup: "rewrite_tokio_time_type_path p = lookup_entry time_type_entries p"
proof (cases rule: segments_cases [of p])
  case other
  then show ?thesis by (subst lookup_lengths) (auto simp: rewrite_tokio_time_type_path_def time_type_entries_def split: list.splits)
qed (auto simp: rewrite_tokio_time_type_path_def time_type_entries_def entry_simps time_type_target_for_def)

lemma spawn_lookup:
  "lookup_entry spawn_entries p = (if is_supported_spawn_path p then Some (rt_path [''spawn'']) else None)"
  "lookup_entry spawn_task_entries p = (if is_tokio_spawn_path p then Some (rt_path [''spawn_task'']) else None)"
  by (auto simp: spawn_entries_def spawn_task_entries_def is_supported_spawn_path_def is_tokio_spawn_path_def entry_simps)

lemmas lookups = spawn_lookup std_lock_lookup tokio_lock_lookup channel_lookup time_lookup std_lock_type_lookup tokio_lock_type_lookup
  channel_type_lookup time_type_lookup

definition reference_outcome :: "entry list \<Rightarrow> 'a path \<Rightarrow> 'a outcome" where
  "reference_outcome es p =
     (case lookup_entry es p of Some r \<Rightarrow> Rewrite r
      | None \<Rightarrow> (case classify_unmodeled p of Some u \<Rightarrow> Flag u | None \<Rightarrow> Leave))"

lemma outcomes_by_table: "call_outcome tasks p = reference_outcome (call_entries tasks) p" "type_outcome p = reference_outcome type_entries p"
  by (auto simp: call_outcome_def type_outcome_def reference_outcome_def call_entries_def type_entries_def lookup_append lookups
      split: option.splits)

section \<open>The outcome does not look into arguments\<close>

lemma plain_map_segment [simp]: "plain (map_segment g seg) = plain seg"
  by (cases seg; cases "seg_args seg") simp_all

lemma map_path_simps [simp]: "idents (map_path g p) = idents p" "all_plain (map_path g p) = all_plain p"
  by (simp_all add: idents_def all_plain_def segment.map_sel path.map_sel list.pred_map o_def)

lemma rt_segs_simps [simp]:
  "length (rt_segs dst) = length dst + 2" "map (map_segment g) (rt_segs dst) = rt_segs dst" "list_all plain (rt_segs dst)"
  "map seg_ident (rt_segs dst) = [''laplace_sdk'', ''rt''] @ dst"
  by (simp_all add: rt_segs_def list_all_iff o_def)

text \<open>The positions of the carried arguments lie within the paths.\<close>

definition entries_ok :: "entry list \<Rightarrow> bool" where
  "entries_ok es \<longleftrightarrow> list_all (\<lambda>(src, dst, carry). case carry of None \<Rightarrow> True | Some (k, l) \<Rightarrow> k < length src \<and> l < length dst + 2) es"

lemma entries_ok_tables: "entries_ok (call_entries tasks)" "entries_ok type_entries"
  by (simp_all add: entries_ok_def call_entries_def type_entries_def spawn_task_entries_def spawn_entries_def std_lock_entries_def
      tokio_lock_entries_def channel_entries_def time_entries_def std_lock_type_entries_def tokio_lock_type_entries_def
      channel_type_entries_def time_type_entries_def)

lemma entries_ok_Cons: "entries_ok (e # es) \<longleftrightarrow> entries_ok [e] \<and> entries_ok es"
  by (simp add: entries_ok_def)

lemma matches_map_path: "matches_entry (map_path g p) e = matches_entry p e"
  by (simp add: matches_entry_def path.map_sel list.pred_map take_map drop_map o_def split: option.splits prod.splits)

lemma map_path_entry:
  assumes "entries_ok [e]" "matches_entry p e"
  shows "apply_entry (map_path g p) e = map_path g (apply_entry p e)"
proof -
  obtain src dst carry where e: "e = (src, dst, carry)" by (cases e)
  have len: "length (segments p) = length src" using assms(2) by (auto simp: e matches_entry_def idents_def)
  show ?thesis
    using assms(1) len
    by (auto simp: e apply_entry_def entries_ok_def path.map_sel segment.map_sel map_update split: option.splits prod.splits)
qed

lemma lookup_map_path: "entries_ok es \<Longrightarrow> lookup_entry es (map_path g p) = map_option (map_path g) (lookup_entry es p)"
proof (induction es)
  case (Cons e es)
  then have "entries_ok [e]" "entries_ok es" by (simp_all add: entries_ok_Cons [of e es])
  with Cons.IH map_path_entry [of e p g] show ?case by (simp add: matches_map_path)
qed simp

lemma classify_map_path: "classify_unmodeled (map_path g p) = classify_unmodeled p"
proof -
  have time: "classify_tokio_time_unmodeled (map_path g p) = classify_tokio_time_unmodeled p"
    unfolding classify_tokio_time_unmodeled_def path.map_sel take_map
    by (auto simp: segment.map_sel split: list.splits)
  have arc: "classify_arc_swap_unmodeled (map_path g p) = classify_arc_swap_unmodeled p"
    unfolding classify_arc_swap_unmodeled_def path.map_sel by (auto simp: segment.map_sel split: list.splits)
  have spawn: "is_tokio_spawn_path (map_path g p) = is_tokio_spawn_path p"
    "is_unmodeled_tokio_spawn_path (map_path g p) = is_unmodeled_tokio_spawn_path p"
    by (simp_all add: is_tokio_spawn_path_def is_unmodeled_tokio_spawn_path_def)
  have names: "list_ex (\<lambda>seg. Q (seg_ident seg)) (segments (map_path g p)) = list_ex (\<lambda>seg. Q (seg_ident seg)) (segments p)" for Q
    by (simp add: list_ex_iff path.map_sel segment.map_sel)
  show ?thesis
    unfolding classify_unmodeled_def Let_def time arc spawn names [of "\<lambda>i. i = ''Condvar''"] names [of "\<lambda>i. i = ''mpsc''"]
      names [of "\<lambda>i. i = ''atomic'' \<or> is_known_atomic_type i"] by (rule refl)
qed

lemma reference_map_path: "entries_ok es \<Longrightarrow> reference_outcome es (map_path g p) = map_outcome g (reference_outcome es p)"
  unfolding reference_outcome_def lookup_map_path classify_map_path by (auto split: option.splits)

lemma outcome_map_path:
  "call_outcome tasks (map_path g p) = map_outcome g (call_outcome tasks p)" "type_outcome (map_path g p) = map_outcome g (type_outcome p)"
  "macro_outcome (map_path g p) = map_outcome g (macro_outcome p)"
  by (simp_all add: outcomes_by_table reference_map_path entries_ok_tables macro_outcome_def is_tokio_select_macro_path_def rt_path_def
      quoted_def)

section \<open>Arguments are kept\<close>

definition arg_items :: "'a segment \<Rightarrow> 'a list" where
  "arg_items seg = (case seg_args seg of NoArgs \<Rightarrow> [] | Args xs \<Rightarrow> xs)"

definition path_items :: "'a path \<Rightarrow> 'a list" where
  "path_items p = concat (map arg_items (segments p))"

lemma plain_no_items: "plain seg \<Longrightarrow> arg_items seg = []"
  by (auto simp: plain_def arg_items_def split: args.splits)

lemma plain_no_items_list: "list_all plain segs \<Longrightarrow> concat (map arg_items segs) = []"
  by (induction segs) (simp_all add: plain_no_items)

lemma path_items_one:
  assumes "list_all plain (take k segs @ drop (Suc k) segs)" "k < length segs"
  shows "concat (map arg_items segs) = arg_items (segs ! k)"
proof -
  have "concat (map arg_items (take k segs)) = []" "concat (map arg_items (drop (Suc k) segs)) = []"
    using assms(1) by (intro plain_no_items_list; simp)+
  then show ?thesis by (subst id_take_nth_drop [OF assms(2)]) (simp del: concat_eq_Nil_conv)
qed

lemma path_items_entry:
  assumes "entries_ok [e]" "matches_entry p e"
  shows "path_items (apply_entry p e) = path_items p"
proof -
  obtain src dst carry where e: "e = (src, dst, carry)" by (cases e)
  have len: "length (segments p) = length src" using assms(2) by (auto simp: e matches_entry_def idents_def)
  show ?thesis
  proof (cases carry)
    case None
    with assms(2) show ?thesis by (simp add: e matches_entry_def apply_entry_def path_items_def plain_no_items_list del: concat_eq_Nil_conv)
  next
    case (Some kl)
    then obtain k l where kl: "carry = Some (k, l)" by (cases kl) simp
    then have bounds: "k < length (segments p)" "l < length dst + 2" using assms(1) len by (auto simp: entries_ok_def e)
    let ?new = "(rt_segs dst :: 'a segment list)[l := Segment (([''laplace_sdk'', ''rt''] @ dst) ! l) (seg_args (segments p ! k))]"
    have "path_items p = arg_items (segments p ! k)"
      using assms(2) bounds(1) unfolding path_items_def by (intro path_items_one) (simp_all add: e kl matches_entry_def)
    moreover have "list_all plain (take l ?new @ drop (Suc l) ?new)"
      using rt_segs_simps(3) [of dst] by (auto simp: list_all_iff dest: in_set_takeD in_set_dropD)
    then have "concat (map arg_items ?new) = arg_items (?new ! l)" using bounds(2) by (intro path_items_one) simp_all
    ultimately show ?thesis using bounds(2) by (simp add: e kl apply_entry_def path_items_def arg_items_def)
  qed
qed

lemma lookup_items:
  assumes "entries_ok es" "lookup_entry es p = Some r"
  shows "path_items r = path_items p" "leading_colon r" "take 2 (idents r) = [''laplace_sdk'', ''rt'']"
proof -
  have "\<exists>e. entries_ok [e] \<and> matches_entry p e \<and> r = apply_entry p e"
    using assms by (induction es) (auto simp: entries_ok_def split: if_splits)
  then obtain e where e: "entries_ok [e]" "matches_entry p e" "r = apply_entry p e" by blast
  then show "path_items r = path_items p" by (simp add: path_items_entry)
  obtain src dst carry where "e = (src, dst, carry)" by (cases e)
  then show "leading_colon r" "take 2 (idents r) = [''laplace_sdk'', ''rt'']"
    using e by (auto simp: apply_entry_def idents_def map_update entries_ok_def list_update_id split: option.splits prod.splits)
qed

text \<open>(C27) The chains of tests amount to one table. A call is rewritten exactly when its path is one of the paths of the table, with generic
  arguments at most on the segment that may have them, and then to the runtime path of that entry with the arguments
  carried over; the same holds for types with their own table. What no entry matches is flagged exactly when the
  classifier knows it. A rewritten path is an absolute path below \<open>::laplace_sdk::rt\<close> and keeps every generic argument.\<close>

theorem rewrite_table_exact:
  "call_outcome tasks p = reference_outcome (call_entries tasks) p \<and> type_outcome p = reference_outcome type_entries p
   \<and> (call_outcome tasks p = Rewrite r \<or> type_outcome p = Rewrite r \<longrightarrow>
        path_items r = path_items p \<and> leading_colon r \<and> take 2 (idents r) = [''laplace_sdk'', ''rt''])"
proof -
  have "path_items r = path_items p \<and> leading_colon r \<and> take 2 (idents r) = [''laplace_sdk'', ''rt'']"
    if "entries_ok es" "reference_outcome es p = Rewrite r" for es
    using that lookup_items [of es p r] by (auto simp: reference_outcome_def split: option.splits)
  with entries_ok_tables show ?thesis unfolding outcomes_by_table by blast
qed

theorem rewrite_table_exact_witness:
  "type_outcome (Path False [Segment ''tokio'' NoArgs, Segment ''sync'' NoArgs, Segment ''Mutex'' (Args [''T''])])
     = Rewrite (model_path ''ModelAsyncMutex'' (Args [''T'']) None)
   \<and> path_items (model_path ''ModelAsyncMutex'' (Args [''T'']) None) = [''T'']"
proof -
  let ?p = "Path False [Segment ''tokio'' NoArgs, Segment ''sync'' NoArgs, Segment ''Mutex'' (Args [''T''])]"
  let ?r = "model_path ''ModelAsyncMutex'' (Args [''T'']) None"
  have "type_outcome ?p = Rewrite ?r"
    by (simp add: type_outcome_def rewrite_std_sync_type_path_def rewrite_tokio_sync_type_path_def tokio_model_target_for_def)
  moreover have "path_items ?p = [''T'']" by (simp add: path_items_def arg_items_def)
  ultimately show ?thesis using rewrite_table_exact [of False ?p ?r] by simp
qed

end
