(* ===== verification/MacroArgs.thy ===== *)
theory MacroArgs
  imports ModelPaths
begin

text \<open>
  The arguments of the attributes of \<^verbatim>\<open>laplace-macro\<close>: \<open>VerifyArgs\<close> (\<^verbatim>\<open>verify.rs\<close>), \<open>AxiomTargetArgs\<close> (\<^verbatim>\<open>target.rs\<close>)
  and \<open>ByocTestArgs\<close> (\<^verbatim>\<open>byoc_test.rs\<close>). The parser library splits the attribute into metas, which are the input here. An
  integer literal is its value; parsing it as a \<open>usize\<close> fails from \<open>2 ^ 64\<close> on.
\<close>

section \<open>Metas\<close>

datatype lit = LitStr string | LitInt nat | LitBool bool | LitOther

text \<open>A name-value meta has a value that is a literal or another expression (\<open>None\<close>).\<close>

datatype 'a meta =
    MetaPath "'a path"
  | MetaList "'a path"
  | MetaNameValue "'a path" "lit option"

definition get_ident :: "'a path \<Rightarrow> ident option" where
  "get_ident p = (case segments p of [Segment i NoArgs] \<Rightarrow> if leading_colon p then None else Some i | _ \<Rightarrow> None)"

datatype args_error =
    ExpectedKeyValue
  | ExpectedLiteral ident
  | ExpectedKind ident
  | IntegerRange
  | ThreadsZero
  | ThreadsTooMany
  | UnsupportedExpected
  | UnsupportedDeterminism
  | UnknownKey ident
  | ModesExclusive
  | ModeRequired
  | ThreadsRequired
  | DuplicateName

definition base10_parse :: "nat \<Rightarrow> args_error + usize" where
  "base10_parse n = (if n < 2 ^ 64 then Inr (of_nat n) else Inl IntegerRange)"

section \<open>The verify attribute\<close>

definition VALID_DETERMINISM_LABELS :: "string list" where
  "VALID_DETERMINISM_LABELS = [''fully_deterministic'', ''fully-deterministic'', ''full'', ''deterministic_with_declared_inputs'',
     ''deterministic-with-declared-inputs'', ''declared_inputs'', ''declared'']"

record VerifyArgs =
  va_threads :: "usize option"
  va_scenario :: bool
  va_tasks :: bool
  va_name :: "string option"
  va_expected :: "string option"
  va_determinism :: string
  va_write_ard :: bool
  va_output_dir :: string
  va_buffer :: usize
  va_max_depth :: "usize option"

text \<open>The local variables of the parser's loop.\<close>

record verify_vars =
  vv_threads :: "usize option"
  vv_scenario :: bool
  vv_tasks :: bool
  vv_name :: "string option"
  vv_expected :: "string option"
  vv_determinism :: "string option"
  vv_write_ard :: "bool option"
  vv_output_dir :: "string option"
  vv_buffer :: "usize option"
  vv_max_depth :: "usize option"

definition verify_vars_init :: verify_vars where
  "verify_vars_init = \<lparr>vv_threads = None, vv_scenario = False, vv_tasks = False, vv_name = None, vv_expected = None,
     vv_determinism = None, vv_write_ard = None, vv_output_dir = None, vv_buffer = None, vv_max_depth = None\<rparr>"

definition want_str :: "ident \<Rightarrow> lit \<Rightarrow> args_error + string" where
  "want_str key l = (case l of LitStr s \<Rightarrow> Inr s | _ \<Rightarrow> Inl (ExpectedKind key))"

definition want_bool :: "ident \<Rightarrow> lit \<Rightarrow> args_error + bool" where
  "want_bool key l = (case l of LitBool b \<Rightarrow> Inr b | _ \<Rightarrow> Inl (ExpectedKind key))"

definition want_int :: "ident \<Rightarrow> lit \<Rightarrow> args_error + usize" where
  "want_int key l = (case l of LitInt i \<Rightarrow> base10_parse i | _ \<Rightarrow> Inl (ExpectedKind key))"

definition key_name :: "'a path \<Rightarrow> ident" where
  "key_name p = (if segments p = [] then ''<unknown>'' else seg_ident (last (segments p)))"

definition verify_key :: "'a path \<Rightarrow> lit \<Rightarrow> verify_vars \<Rightarrow> args_error + verify_vars" where
  "verify_key p l v =
     (case get_ident p of
        None \<Rightarrow> Inl (UnknownKey (key_name p))
      | Some key \<Rightarrow>
          if key = ''threads'' then
            (case want_int key l of
               Inl e \<Rightarrow> Inl e
             | Inr n \<Rightarrow> if n = 0 then Inl ThreadsZero else if n > 8 then Inl ThreadsTooMany else Inr (v\<lparr>vv_threads := Some n\<rparr>))
          else if key = ''name'' then
            (case want_str key l of Inl e \<Rightarrow> Inl e | Inr s \<Rightarrow> Inr (v\<lparr>vv_name := Some s\<rparr>))
          else if key = ''expected'' then
            (case want_str key l of
               Inl e \<Rightarrow> Inl e
             | Inr s \<Rightarrow> if s \<noteq> ''clean'' \<and> s \<noteq> ''bug'' then Inl UnsupportedExpected else Inr (v\<lparr>vv_expected := Some s\<rparr>))
          else if key = ''determinism'' then
            (case want_str key l of
               Inl e \<Rightarrow> Inl e
             | Inr s \<Rightarrow> if s \<notin> set VALID_DETERMINISM_LABELS then Inl UnsupportedDeterminism else Inr (v\<lparr>vv_determinism := Some s\<rparr>))
          else if key = ''write_ard'' then
            (case want_bool key l of Inl e \<Rightarrow> Inl e | Inr b \<Rightarrow> Inr (v\<lparr>vv_write_ard := Some b\<rparr>))
          else if key = ''output_dir'' then
            (case want_str key l of Inl e \<Rightarrow> Inl e | Inr s \<Rightarrow> Inr (v\<lparr>vv_output_dir := Some s\<rparr>))
          else if key = ''buffer'' then
            (case want_int key l of Inl e \<Rightarrow> Inl e | Inr n \<Rightarrow> Inr (v\<lparr>vv_buffer := Some n\<rparr>))
          else if key = ''max_depth'' then
            (case want_int key l of Inl e \<Rightarrow> Inl e | Inr n \<Rightarrow> Inr (v\<lparr>vv_max_depth := Some n\<rparr>))
          else Inl (UnknownKey (key_name p)))"

definition verify_meta :: "'a meta \<Rightarrow> verify_vars \<Rightarrow> args_error + verify_vars" where
  "verify_meta m v =
     (case m of
        MetaPath p \<Rightarrow>
          if get_ident p = Some ''scenario'' then Inr (v\<lparr>vv_scenario := True\<rparr>)
          else if get_ident p = Some ''tasks'' then Inr (v\<lparr>vv_tasks := True\<rparr>)
          else Inl ExpectedKeyValue
      | MetaList p \<Rightarrow> Inl ExpectedKeyValue
      | MetaNameValue p val \<Rightarrow>
          (case val of
             None \<Rightarrow> Inl (ExpectedLiteral (case get_ident p of Some key \<Rightarrow> key | None \<Rightarrow> ''<unknown>''))
           | Some l \<Rightarrow> verify_key p l v))"

fun verify_metas :: "'a meta list \<Rightarrow> verify_vars \<Rightarrow> args_error + verify_vars" where
  "verify_metas [] v = Inr v"
| "verify_metas (m # ms) v = (case verify_meta m v of Inl e \<Rightarrow> Inl e | Inr v1 \<Rightarrow> verify_metas ms v1)"

definition verify_finish :: "verify_vars \<Rightarrow> args_error + VerifyArgs" where
  "verify_finish v =
     (let mode_count = of_bool (vv_threads v \<noteq> None) + of_bool (vv_scenario v) + (of_bool (vv_tasks v) :: nat)
      in if mode_count > 1 then Inl ModesExclusive
         else if mode_count = 0 then Inl ModeRequired
         else Inr \<lparr>va_threads = vv_threads v, va_scenario = vv_scenario v, va_tasks = vv_tasks v, va_name = vv_name v,
           va_expected = vv_expected v,
           va_determinism = (case vv_determinism v of Some d \<Rightarrow> d | None \<Rightarrow> ''fully_deterministic''),
           va_write_ard = (case vv_write_ard v of Some b \<Rightarrow> b | None \<Rightarrow> False),
           va_output_dir = (case vv_output_dir v of Some d \<Rightarrow> d | None \<Rightarrow> ''.''),
           va_buffer = (case vv_buffer v of Some n \<Rightarrow> n | None \<Rightarrow> 8192), va_max_depth = vv_max_depth v\<rparr>)"

definition VerifyArgs_parse :: "'a meta list \<Rightarrow> args_error + VerifyArgs" where
  "VerifyArgs_parse metas = (case verify_metas metas verify_vars_init of Inl e \<Rightarrow> Inl e | Inr v \<Rightarrow> verify_finish v)"

section \<open>The axiom-target attribute\<close>

text \<open>Unknown keys and values of the wrong kind are skipped.\<close>

record AxiomTargetArgs =
  ta_threads :: usize
  ta_name :: "string option"
  ta_write_ard :: bool
  ta_output_dir :: string

record target_vars =
  tv_threads :: "usize option"
  tv_name :: "string option"
  tv_write_ard :: bool
  tv_output_dir :: string

definition target_meta :: "'a meta \<Rightarrow> target_vars \<Rightarrow> args_error + target_vars" where
  "target_meta m v =
     (case m of
        MetaNameValue p (Some l) \<Rightarrow>
          (case (get_ident p, l) of
             (Some key, LitInt i) \<Rightarrow>
               if key = ''threads'' then (case base10_parse i of Inl e \<Rightarrow> Inl e | Inr n \<Rightarrow> Inr (v\<lparr>tv_threads := Some n\<rparr>)) else Inr v
           | (Some key, LitStr s) \<Rightarrow>
               if key = ''name'' then Inr (v\<lparr>tv_name := Some s\<rparr>)
               else if key = ''output_dir'' then Inr (v\<lparr>tv_output_dir := s\<rparr>) else Inr v
           | (Some key, LitBool b) \<Rightarrow> if key = ''write_ard'' then Inr (v\<lparr>tv_write_ard := b\<rparr>) else Inr v
           | _ \<Rightarrow> Inr v)
      | _ \<Rightarrow> Inr v)"

fun target_metas :: "'a meta list \<Rightarrow> target_vars \<Rightarrow> args_error + target_vars" where
  "target_metas [] v = Inr v"
| "target_metas (m # ms) v = (case target_meta m v of Inl e \<Rightarrow> Inl e | Inr v1 \<Rightarrow> target_metas ms v1)"

definition AxiomTargetArgs_parse :: "'a meta list \<Rightarrow> args_error + AxiomTargetArgs" where
  "AxiomTargetArgs_parse metas =
     (case target_metas metas \<lparr>tv_threads = None, tv_name = None, tv_write_ard = True, tv_output_dir = ''.''\<rparr> of
        Inl e \<Rightarrow> Inl e
      | Inr v \<Rightarrow>
          (case tv_threads v of
             None \<Rightarrow> Inl ThreadsRequired
           | Some n \<Rightarrow> Inr \<lparr>ta_threads = n, ta_name = tv_name v, ta_write_ard = tv_write_ard v, ta_output_dir = tv_output_dir v\<rparr>))"

section \<open>The byoc-test attribute\<close>

text \<open>Its arguments are identifiers with an expression each, a literal or not; the comma after one is optional.\<close>

record ByocTestArgs =
  ba_name :: "string option"
  ba_expected :: string
  ba_write_ard :: bool
  ba_output_dir :: "string option"
  ba_buffer :: usize
  ba_max_depth :: "usize option"
  ba_lock_events_only :: bool

definition parse_lit_str :: "lit option \<Rightarrow> ident \<Rightarrow> args_error + string" where
  "parse_lit_str expr field = (case expr of Some (LitStr v) \<Rightarrow> Inr v | _ \<Rightarrow> Inl (ExpectedKind field))"

definition parse_lit_bool :: "lit option \<Rightarrow> ident \<Rightarrow> args_error + bool" where
  "parse_lit_bool expr field = (case expr of Some (LitBool v) \<Rightarrow> Inr v | _ \<Rightarrow> Inl (ExpectedKind field))"

definition parse_lit_usize :: "lit option \<Rightarrow> ident \<Rightarrow> args_error + usize" where
  "parse_lit_usize expr field = (case expr of Some (LitInt v) \<Rightarrow> base10_parse v | _ \<Rightarrow> Inl (ExpectedKind field))"

definition byoc_arg :: "ident \<Rightarrow> lit option \<Rightarrow> ByocTestArgs \<Rightarrow> args_error + ByocTestArgs" where
  "byoc_arg key val v =
     (if key = ''name'' then
        (case parse_lit_str val key of
           Inl e \<Rightarrow> Inl e
         | Inr s \<Rightarrow> if ba_name v \<noteq> None then Inl DuplicateName else Inr (v\<lparr>ba_name := Some s\<rparr>))
      else if key = ''expected'' then
        (case parse_lit_str val key of
           Inl e \<Rightarrow> Inl e
         | Inr s \<Rightarrow> if s \<noteq> ''clean'' \<and> s \<noteq> ''bug'' then Inl UnsupportedExpected else Inr (v\<lparr>ba_expected := s\<rparr>))
      else if key = ''write_ard'' then
        (case parse_lit_bool val key of Inl e \<Rightarrow> Inl e | Inr b \<Rightarrow> Inr (v\<lparr>ba_write_ard := b\<rparr>))
      else if key = ''output_dir'' then
        (case parse_lit_str val key of Inl e \<Rightarrow> Inl e | Inr s \<Rightarrow> Inr (v\<lparr>ba_output_dir := Some s\<rparr>))
      else if key = ''buffer'' then
        (case parse_lit_usize val key of Inl e \<Rightarrow> Inl e | Inr n \<Rightarrow> Inr (v\<lparr>ba_buffer := n\<rparr>))
      else if key = ''max_depth'' then
        (case parse_lit_usize val key of Inl e \<Rightarrow> Inl e | Inr n \<Rightarrow> Inr (v\<lparr>ba_max_depth := Some n\<rparr>))
      else if key = ''lock_events_only'' then
        (case parse_lit_bool val key of Inl e \<Rightarrow> Inl e | Inr b \<Rightarrow> Inr (v\<lparr>ba_lock_events_only := b\<rparr>))
      else Inl (UnknownKey key))"

fun byoc_args :: "(ident \<times> lit option) list \<Rightarrow> ByocTestArgs \<Rightarrow> args_error + ByocTestArgs" where
  "byoc_args [] v = Inr v"
| "byoc_args ((key, val) # rest) v = (case byoc_arg key val v of Inl e \<Rightarrow> Inl e | Inr v1 \<Rightarrow> byoc_args rest v1)"

definition ByocTestArgs_parse :: "(ident \<times> lit option) list \<Rightarrow> args_error + ByocTestArgs" where
  "ByocTestArgs_parse args = byoc_args args
     \<lparr>ba_name = None, ba_expected = ''clean'', ba_write_ard = False, ba_output_dir = None, ba_buffer = 8192, ba_max_depth = None,
       ba_lock_events_only = False\<rparr>"

section \<open>What the verify attribute accepts\<close>

text \<open>The literals a key may have, the value that a meta gives to a key, and the value given last.\<close>

fun accepts :: "ident \<Rightarrow> lit \<Rightarrow> bool" where
  "accepts key (LitInt n) \<longleftrightarrow> key = ''threads'' \<and> 1 \<le> n \<and> n \<le> 8 \<or> key \<in> {''buffer'', ''max_depth''} \<and> n < 2 ^ 64"
| "accepts key (LitStr s) \<longleftrightarrow> key \<in> {''name'', ''output_dir''} \<or> key = ''expected'' \<and> s \<in> {''clean'', ''bug''}
     \<or> key = ''determinism'' \<and> s \<in> set VALID_DETERMINISM_LABELS"
| "accepts key (LitBool b) \<longleftrightarrow> key = ''write_ard''"
| "accepts key LitOther \<longleftrightarrow> False"

fun value_for :: "ident \<Rightarrow> 'a meta \<Rightarrow> lit option" where
  "value_for key (MetaNameValue p (Some l)) = (if get_ident p = Some key then Some l else None)"
| "value_for key _ = None"

fun flag_for :: "ident \<Rightarrow> 'a meta \<Rightarrow> bool" where
  "flag_for key (MetaPath p) \<longleftrightarrow> get_ident p = Some key"
| "flag_for key _ \<longleftrightarrow> False"

definition accepted :: "'a meta \<Rightarrow> bool" where
  "accepted m \<longleftrightarrow> flag_for ''scenario'' m \<or> flag_for ''tasks'' m \<or> (\<exists>key l. value_for key m = Some l \<and> accepts key l)"

definition last_value :: "ident \<Rightarrow> 'a meta list \<Rightarrow> lit option" where
  "last_value key ms = (case rev (List.map_filter (value_for key) ms) of [] \<Rightarrow> None | l # _ \<Rightarrow> Some l)"

fun str_of :: "lit \<Rightarrow> string" where
  "str_of (LitStr s) = s" | "str_of _ = []"

fun int_of :: "lit \<Rightarrow> usize" where
  "int_of (LitInt n) = of_nat n" | "int_of _ = 0"

fun bool_of :: "lit \<Rightarrow> bool" where
  "bool_of (LitBool b) = b" | "bool_of _ = False"

definition or_else :: "'b \<Rightarrow> 'b option \<Rightarrow> 'b" where
  "or_else d x = (case x of Some y \<Rightarrow> y | None \<Rightarrow> d)"

definition flagged :: "ident \<Rightarrow> 'a meta list \<Rightarrow> bool" where
  "flagged key ms \<longleftrightarrow> list_ex (flag_for key) ms"

definition modes :: "'a meta list \<Rightarrow> nat" where
  "modes ms = of_bool (last_value ''threads'' ms \<noteq> None) + of_bool (flagged ''scenario'' ms) + of_bool (flagged ''tasks'' ms)"

text \<open>The variables after the metas, each from the last meta that sets it.\<close>

definition assigned :: "'a meta list \<Rightarrow> verify_vars" where
  "assigned ms = \<lparr>vv_threads = map_option int_of (last_value ''threads'' ms), vv_scenario = flagged ''scenario'' ms,
     vv_tasks = flagged ''tasks'' ms, vv_name = map_option str_of (last_value ''name'' ms),
     vv_expected = map_option str_of (last_value ''expected'' ms), vv_determinism = map_option str_of (last_value ''determinism'' ms),
     vv_write_ard = map_option bool_of (last_value ''write_ard'' ms), vv_output_dir = map_option str_of (last_value ''output_dir'' ms),
     vv_buffer = map_option int_of (last_value ''buffer'' ms), vv_max_depth = map_option int_of (last_value ''max_depth'' ms)\<rparr>"

lemma accepted_eval:
  "accepted (MetaNameValue p (Some l)) \<longleftrightarrow> (case get_ident p of Some key \<Rightarrow> accepts key l | None \<Rightarrow> False)"
  "accepted (MetaPath p) \<longleftrightarrow> get_ident p \<in> {Some ''scenario'', Some ''tasks''}"
  by (auto simp: accepted_def split: option.splits if_splits)

lemma last_value_snoc:
  "last_value key (ms @ [m]) = (case value_for key m of Some l \<Rightarrow> Some l | None \<Rightarrow> last_value key ms)"
  by (simp add: last_value_def List.map_filter_def split: option.splits)

lemma last_value_Nil [simp]: "last_value key [] = None"
  by (simp add: last_value_def List.map_filter_def)

lemma flagged_snoc: "flagged key (ms @ [m]) \<longleftrightarrow> flagged key ms \<or> flag_for key m"
  by (simp add: flagged_def disj_commute)

lemma small_threads: "n \<le> 8 \<Longrightarrow> n \<noteq> 0 \<Longrightarrow> (of_nat n :: usize) \<noteq> 0 \<and> \<not> (of_nat n :: usize) > 8"
  by (auto simp: word_less_nat_alt unat_of_nat_u64 word_unat_eq_iff)

lemma large_threads: "n < 2 ^ 64 \<Longrightarrow> ((of_nat n :: usize) = 0 \<longleftrightarrow> n = 0) \<and> ((of_nat n :: usize) > 8 \<longleftrightarrow> n > 8)"
  by (auto simp: word_less_nat_alt unat_of_nat_u64 word_unat_eq_iff)

lemma verify_key_step:
  assumes "get_ident p = Some key"
  shows "verify_key p l (assigned ms) = Inr v \<longleftrightarrow> accepts key l \<and> v = assigned (ms @ [MetaNameValue p (Some l)])"
proof -
  note eval = verify_key_def want_int_def want_str_def want_bool_def base10_parse_def assigned_def last_value_snoc flagged_snoc assms
  show ?thesis
  proof (cases "key = ''threads''")
    case True
    show ?thesis
    proof (cases l)
      case (LitInt i)
      show ?thesis
      proof (cases "i < 2 ^ 64")
        case small: True
        then show ?thesis using \<open>key = ''threads''\<close> LitInt large_threads [OF small] by (auto simp: eval)
      qed (use True LitInt in \<open>auto simp: eval\<close>)
    qed (use True in \<open>auto simp: eval\<close>)
  next
    case other: False
    show ?thesis
    proof (cases "key \<in> {''name'', ''expected'', ''determinism'', ''output_dir''}")
      case True
      then show ?thesis by (elim insertE emptyE; cases l; simp add: eval; blast)
    next
      case no_string: False
      show ?thesis
      proof (cases "key \<in> {''write_ard'', ''buffer'', ''max_depth''}")
        case True
        then show ?thesis by (elim insertE emptyE; cases l; simp add: eval; blast)
      next
        case False
        with other no_string show ?thesis by (cases l) (simp_all add: verify_key_def assms)
      qed
    qed
  qed
qed

lemma verify_meta_step: "verify_meta m (assigned ms) = Inr v \<longleftrightarrow> accepted m \<and> v = assigned (ms @ [m])"
proof (cases m)
  case (MetaPath p)
  then show ?thesis
    by (auto simp: verify_meta_def accepted_def assigned_def last_value_snoc flagged_snoc)
next
  case (MetaList p)
  then show ?thesis by (simp add: verify_meta_def accepted_def)
next
  case (MetaNameValue p val)
  show ?thesis
  proof (cases val)
    case None
    with MetaNameValue show ?thesis by (simp add: verify_meta_def accepted_def)
  next
    case (Some l)
    show ?thesis
    proof (cases "get_ident p")
      case None
      with MetaNameValue Some show ?thesis by (simp add: verify_meta_def accepted_def verify_key_def)
    next
      case (Some key)
      with MetaNameValue \<open>val = Some l\<close> verify_key_step [OF Some, of l ms v] show ?thesis
        by (simp add: verify_meta_def accepted_def)
    qed
  qed
qed

lemma verify_metas_from:
  "verify_metas ms (assigned pre) = Inr v \<longleftrightarrow> list_all accepted ms \<and> v = assigned (pre @ ms)"
proof (induction ms arbitrary: pre)
  case (Cons m ms)
  show ?case
  proof (cases "verify_meta m (assigned pre)")
    case (Inl e)
    then have "\<not> accepted m" using verify_meta_step [of m pre "assigned (pre @ [m])"] by auto
    with Inl show ?thesis by simp
  next
    case (Inr v1)
    then have "accepted m" "v1 = assigned (pre @ [m])" using verify_meta_step by auto
    with Inr Cons.IH [of "pre @ [m]"] show ?thesis by simp
  qed
qed auto

lemma assigned_Nil: "verify_vars_init = assigned []"
  by (simp add: verify_vars_init_def assigned_def flagged_def)

lemma last_value_given:
  assumes "list_all accepted ms" "last_value key ms = Some l"
  shows "accepts key l"
proof -
  from assms(2) have "l \<in> set (List.map_filter (value_for key) ms)"
    unfolding last_value_def by (metis list.case_eq_if list.set_sel(1) option.distinct(1) option.inject set_rev)
  then obtain m where m: "m \<in> set ms" "value_for key m = Some l"
    by (auto simp: List.map_filter_def)
  with assms(1) have "accepted m" by (auto simp: list_all_iff)
  moreover from m(2) obtain p where p: "m = MetaNameValue p (Some l)" "get_ident p = Some key"
    by (cases "(key, m)" rule: value_for.cases) (auto split: if_splits)
  ultimately show ?thesis by (auto simp: accepted_def split: if_splits)
qed

lemma verify_finish_assigned:
  "verify_finish (assigned ms) =
     (if modes ms > 1 then Inl ModesExclusive else if modes ms = 0 then Inl ModeRequired
      else Inr \<lparr>va_threads = map_option int_of (last_value ''threads'' ms), va_scenario = flagged ''scenario'' ms,
        va_tasks = flagged ''tasks'' ms, va_name = map_option str_of (last_value ''name'' ms),
        va_expected = map_option str_of (last_value ''expected'' ms),
        va_determinism = or_else ''fully_deterministic'' (map_option str_of (last_value ''determinism'' ms)),
        va_write_ard = or_else False (map_option bool_of (last_value ''write_ard'' ms)),
        va_output_dir = or_else ''.'' (map_option str_of (last_value ''output_dir'' ms)),
        va_buffer = or_else 8192 (map_option int_of (last_value ''buffer'' ms)),
        va_max_depth = map_option int_of (last_value ''max_depth'' ms)\<rparr>)"
  by (simp add: verify_finish_def assigned_def modes_def or_else_def)

lemma one_mode:
  assumes "modes ms = 1"
  shows "case map_option g (last_value ''threads'' ms) of Some n \<Rightarrow> \<not> flagged ''scenario'' ms \<and> \<not> flagged ''tasks'' ms
    | None \<Rightarrow> flagged ''scenario'' ms \<noteq> flagged ''tasks'' ms"
  using assms unfolding modes_def
  by (cases "last_value ''threads'' ms"; cases "flagged ''scenario'' ms"; cases "flagged ''tasks'' ms") simp_all

lemma parse_outcome:
  fixes ms :: "'a meta list"
  shows "VerifyArgs_parse ms = (if list_all accepted ms then verify_finish (assigned ms)
     else Inl (projl (verify_metas ms verify_vars_init)))"
proof (cases "verify_metas ms verify_vars_init")
  case (Inl e)
  then have "\<not> list_all accepted ms" using verify_metas_from [of ms "[]" "assigned ms"] unfolding assigned_Nil [where 'a = 'a] by simp
  with Inl show ?thesis by (simp add: VerifyArgs_parse_def)
next
  case (Inr v)
  then show ?thesis using verify_metas_from [of ms "[]" v] unfolding assigned_Nil [where 'a = 'a] VerifyArgs_parse_def by simp
qed

lemma accepted_values:
  assumes "list_all accepted ms"
  shows "\<forall>l. last_value ''threads'' ms = Some l \<longrightarrow> 1 \<le> unat (int_of l) \<and> unat (int_of l) \<le> 8"
    and "\<forall>l. last_value ''expected'' ms = Some l \<longrightarrow> str_of l \<in> {''clean'', ''bug''}"
    and "\<forall>l. last_value ''determinism'' ms = Some l \<longrightarrow> str_of l \<in> set VALID_DETERMINISM_LABELS"
proof -
  note given = last_value_given [OF assms]
  show "\<forall>l. last_value ''threads'' ms = Some l \<longrightarrow> 1 \<le> unat (int_of l) \<and> unat (int_of l) \<le> 8"
  proof (intro allI impI)
    fix l assume "last_value ''threads'' ms = Some l"
    from given [OF this] show "1 \<le> unat (int_of l) \<and> unat (int_of l) \<le> 8"
      by (cases l) (auto simp: unat_of_nat_u64)
  qed
  show "\<forall>l. last_value ''expected'' ms = Some l \<longrightarrow> str_of l \<in> {''clean'', ''bug''}"
  proof (intro allI impI)
    fix l assume "last_value ''expected'' ms = Some l"
    from given [OF this] show "str_of l \<in> {''clean'', ''bug''}" by (cases l) auto
  qed
  show "\<forall>l. last_value ''determinism'' ms = Some l \<longrightarrow> str_of l \<in> set VALID_DETERMINISM_LABELS"
  proof (intro allI impI)
    fix l assume "last_value ''determinism'' ms = Some l"
    from given [OF this] show "str_of l \<in> set VALID_DETERMINISM_LABELS" by (cases l) auto
  qed
qed

lemma parsed_iff:
  "VerifyArgs_parse ms = Inr args \<longleftrightarrow> list_all accepted ms \<and> modes ms = 1 \<and> verify_finish (assigned ms) = Inr args"
  unfolding parse_outcome verify_finish_assigned by (cases "modes ms") auto

lemma parsed_fields:
  assumes "VerifyArgs_parse ms = Inr args"
  shows "case va_threads args of Some n \<Rightarrow> 1 \<le> unat n \<and> unat n \<le> 8 \<and> \<not> va_scenario args \<and> \<not> va_tasks args
      | None \<Rightarrow> va_scenario args \<noteq> va_tasks args"
    and "or_else ''clean'' (va_expected args) \<in> {''clean'', ''bug''}" "va_determinism args \<in> set VALID_DETERMINISM_LABELS"
proof -
  have ok: "list_all accepted ms" "modes ms = 1" "verify_finish (assigned ms) = Inr args" using assms unfolding parsed_iff by blast+
  note eq = ok(3) [unfolded verify_finish_assigned ok(2), simplified, symmetric]
  show "case va_threads args of Some n \<Rightarrow> 1 \<le> unat n \<and> unat n \<le> 8 \<and> \<not> va_scenario args \<and> \<not> va_tasks args
      | None \<Rightarrow> va_scenario args \<noteq> va_tasks args"
    using one_mode [OF ok(2), of int_of] accepted_values(1) [OF ok(1)] unfolding eq
    by (cases "last_value ''threads'' ms") simp_all
  show "or_else ''clean'' (va_expected args) \<in> {''clean'', ''bug''}"
    using accepted_values(2) [OF ok(1)] unfolding eq by (cases "last_value ''expected'' ms") (simp_all add: or_else_def)
  show "va_determinism args \<in> set VALID_DETERMINISM_LABELS"
    using accepted_values(3) [OF ok(1)] unfolding eq
    by (cases "last_value ''determinism'' ms") (simp_all add: or_else_def VALID_DETERMINISM_LABELS_def)
qed

text \<open>(C25) What the verify attribute accepts. Parsing gives arguments exactly when every meta is a known flag or a known key with a
  literal it may have, and just one of \<open>threads\<close>, \<open>scenario\<close> and \<open>tasks\<close> is given; every field then has the value given
  last or its default. Several modes and no mode are each rejected with their own error, an unacceptable meta with some error. What is accepted
  has one to eight threads in threads mode, an expectation of clean or bug, and a known determinism label.\<close>

theorem verify_args_exact:
  "(VerifyArgs_parse ms = Inr args \<longleftrightarrow> list_all accepted ms \<and> modes ms = 1
      \<and> args = \<lparr>va_threads = map_option int_of (last_value ''threads'' ms), va_scenario = flagged ''scenario'' ms,
        va_tasks = flagged ''tasks'' ms, va_name = map_option str_of (last_value ''name'' ms),
        va_expected = map_option str_of (last_value ''expected'' ms),
        va_determinism = or_else ''fully_deterministic'' (map_option str_of (last_value ''determinism'' ms)),
        va_write_ard = or_else False (map_option bool_of (last_value ''write_ard'' ms)),
        va_output_dir = or_else ''.'' (map_option str_of (last_value ''output_dir'' ms)),
        va_buffer = or_else 8192 (map_option int_of (last_value ''buffer'' ms)),
        va_max_depth = map_option int_of (last_value ''max_depth'' ms)\<rparr>)
   \<and> (list_all accepted ms \<longrightarrow> (VerifyArgs_parse ms = Inl ModesExclusive \<longleftrightarrow> modes ms > 1)
       \<and> (VerifyArgs_parse ms = Inl ModeRequired \<longleftrightarrow> modes ms = 0))
   \<and> (\<not> list_all accepted ms \<longrightarrow> isl (VerifyArgs_parse ms))
   \<and> (VerifyArgs_parse ms = Inr args \<longrightarrow>
        (case va_threads args of Some n \<Rightarrow> 1 \<le> unat n \<and> unat n \<le> 8 \<and> \<not> va_scenario args \<and> \<not> va_tasks args
         | None \<Rightarrow> va_scenario args \<noteq> va_tasks args)
        \<and> or_else ''clean'' (va_expected args) \<in> {''clean'', ''bug''} \<and> va_determinism args \<in> set VALID_DETERMINISM_LABELS)"
    (is "(?parsed \<longleftrightarrow> ?ok \<and> modes ms = 1 \<and> args = ?args) \<and> ?modes \<and> ?bad \<and> (?parsed \<longrightarrow> ?fields)")
proof -
  have "?parsed \<longleftrightarrow> ?ok \<and> modes ms = 1 \<and> args = ?args"
    unfolding parsed_iff verify_finish_assigned by auto
  moreover have "?modes" "?bad" by (simp_all add: parse_outcome verify_finish_assigned)
  ultimately show ?thesis using parsed_fields [of ms args] by blast
qed

definition ident_path :: "ident \<Rightarrow> unit path" where
  "ident_path i = Path False [Segment i NoArgs]"

theorem verify_args_exact_witness:
  "va_threads (projr (VerifyArgs_parse [MetaNameValue (ident_path ''threads'') (Some (LitInt 2)),
     MetaNameValue (ident_path ''expected'') (Some (LitStr ''bug'')), MetaNameValue (ident_path ''threads'') (Some (LitInt 3))])) = Some 3
   \<and> VerifyArgs_parse [MetaNameValue (ident_path ''threads'') (Some (LitInt 2)), MetaPath (ident_path ''tasks'')] = Inl ModesExclusive
   \<and> isl (VerifyArgs_parse [MetaNameValue (ident_path ''threads'') (Some (LitInt 9))])"
proof -
  let ?a = "[MetaNameValue (ident_path ''threads'') (Some (LitInt 2)),
     MetaNameValue (ident_path ''expected'') (Some (LitStr ''bug'')), MetaNameValue (ident_path ''threads'') (Some (LitInt 3))]"
  let ?b = "[MetaNameValue (ident_path ''threads'') (Some (LitInt 2)), MetaPath (ident_path ''tasks'')]"
  let ?c = "[MetaNameValue (ident_path ''threads'') (Some (LitInt 9))]"
  note eval = accepted_eval get_ident_def ident_path_def last_value_def List.map_filter_def flagged_def modes_def
  have parsed: "VerifyArgs_parse ?a = Inr (projr (VerifyArgs_parse ?a))"
    by (simp add: VerifyArgs_parse_def verify_meta_def verify_key_def get_ident_def ident_path_def want_int_def want_str_def base10_parse_def
        verify_finish_def verify_vars_init_def)
  note fields = verify_args_exact [of ?a "projr (VerifyArgs_parse ?a)", THEN conjunct1, THEN iffD1, OF parsed, THEN conjunct2, THEN conjunct2]
  have "va_threads (projr (VerifyArgs_parse ?a)) = map_option int_of (last_value ''threads'' ?a)"
    using arg_cong [OF fields, of va_threads] by simp
  moreover have "list_all accepted ?b" "modes ?b > 1" by (simp_all add: eval)
  then have "VerifyArgs_parse ?b = Inl ModesExclusive" using verify_args_exact [of ?b] by blast
  moreover have "\<not> list_all accepted ?c" by (simp add: eval)
  then have "isl (VerifyArgs_parse ?c)" using verify_args_exact [of ?c] by blast
  ultimately show ?thesis by (simp add: eval)
qed

end
