(* ===== verification/ModelRewrite.thy ===== *)
theory ModelRewrite
  imports ModelPaths
begin

text \<open>
  The pass of the model attribute over a function or an inline module (\<^verbatim>\<open>laplace-macro/src/model.rs\<close>): the aliases that
  \<open>use\<close> items introduce, the visitor that rewrites paths and collects the primitives it cannot model, and the markers put at the
  start of a function. The visitor of the parser library visits every child of a node, in order; nodes the pass does
  not treat are \<open>Node\<close>.
\<close>

section \<open>Aliases\<close>

datatype UseTree =
    UsePath ident UseTree
  | UseName ident
  | UseRename ident ident
  | UseGlob
  | UseGroup "UseTree list"

type_synonym aliases = "ident \<rightharpoonup> ident list"

definition merge_aliases :: "aliases \<Rightarrow> aliases \<Rightarrow> aliases" where
  "merge_aliases base overlay = base ++ overlay"

definition insert_tokio_alias :: "ident \<Rightarrow> ident list \<Rightarrow> aliases \<Rightarrow> aliases" where
  "insert_tokio_alias binding canonical table =
     (case canonical of i # _ \<Rightarrow> if i = ''tokio'' then table(binding \<mapsto> canonical) else table | [] \<Rightarrow> table)"

fun collect_use_aliases :: "UseTree \<Rightarrow> ident list \<Rightarrow> aliases \<Rightarrow> aliases" where
  "collect_use_aliases (UsePath i tree) prefix table = collect_use_aliases tree (prefix @ [i]) table"
| "collect_use_aliases (UseName i) prefix table =
     (if i = ''self'' then (if prefix = [] then table else insert_tokio_alias (last prefix) prefix table)
      else insert_tokio_alias i (prefix @ [i]) table)"
| "collect_use_aliases (UseRename i rename) prefix table = insert_tokio_alias rename (prefix @ [i]) table"
| "collect_use_aliases UseGlob prefix table = table"
| "collect_use_aliases (UseGroup items) prefix table = fold (\<lambda>item. collect_use_aliases item prefix) items table"

definition remove_shadowed_aliases :: "ident list \<Rightarrow> aliases \<Rightarrow> aliases" where
  "remove_shadowed_aliases item_idents table = fold (\<lambda>i t. t(i := None)) item_idents table"

text \<open>The prefix of an alias, with the arguments of the replaced segment on its last segment.\<close>

definition expand :: "ident list \<Rightarrow> 'a args \<Rightarrow> 'a segment list" where
  "expand prefix arguments =
     map (\<lambda>k. Segment (prefix ! k) (if k = length prefix - 1 then arguments else NoArgs)) [0..<length prefix]"

definition canonicalize :: "aliases \<Rightarrow> 'a path \<Rightarrow> 'a path option" where
  "canonicalize al p =
     (case segments p of
        [] \<Rightarrow> None
      | first # rest \<Rightarrow>
          (case al (seg_ident first) of
             None \<Rightarrow> None
           | Some canonical_prefix \<Rightarrow> Some (Path False (expand canonical_prefix (seg_args first) @ rest))))"

definition effective :: "aliases \<Rightarrow> 'a path \<Rightarrow> 'a path" where
  "effective al p = (case canonicalize al p of Some c \<Rightarrow> c | None \<Rightarrow> p)"

section \<open>Syntax\<close>

text \<open>An expression path and a type path have the syntax of a qualified self type beside the path; a local statement
  has its pattern, its initialiser and its diverging branch; a macro call is opaque but for its path; an item inside a
  body is a \<open>use\<close> item, an item with a name, or a node.\<close>

datatype ast =
    ExprPath "ast list" "ast path"
  | ExprCall ast "ast list"
  | TypePath "ast list" "ast path"
  | MacroCall "ast path"
  | StmtExpr ast bool
  | StmtLocal bool "ast list" "ast option" "ast list"
  | UseItem UseTree
  | DeclItem ident "ast list"
  | Node "ast list"

definition item_ident :: "ast \<Rightarrow> ident option" where
  "item_ident item = (case item of DeclItem i _ \<Rightarrow> Some i | _ \<Rightarrow> None)"

definition use_tree :: "ast \<Rightarrow> UseTree option" where
  "use_tree item = (case item of UseItem t \<Rightarrow> Some t | _ \<Rightarrow> None)"

definition scan_use_aliases_stmts :: "ast list \<Rightarrow> aliases" where
  "scan_use_aliases_stmts stmts =
     remove_shadowed_aliases (List.map_filter item_ident stmts)
       (fold (\<lambda>tree. collect_use_aliases tree []) (List.map_filter use_tree stmts) Map.empty)"

section \<open>The visitor\<close>

text \<open>Visiting takes and returns the set of primitives recorded so far. The actions of the children of a list or of the arguments
  of a path run in order.\<close>

fun seqs :: "('s \<Rightarrow> 'b \<times> 's) list \<Rightarrow> 's \<Rightarrow> 'b list \<times> 's" where
  "seqs [] s = ([], s)"
| "seqs (m # ms) s = (let (x, s1) = m s; (xs, s2) = seqs ms s1 in (x # xs, s2))"

definition seq_args :: "('s \<Rightarrow> 'b \<times> 's) args \<Rightarrow> 's \<Rightarrow> 'b args \<times> 's" where
  "seq_args a s = (case a of NoArgs \<Rightarrow> (NoArgs, s) | Args ms \<Rightarrow> let (xs, s1) = seqs ms s in (Args xs, s1))"

definition seq_segment :: "('s \<Rightarrow> 'b \<times> 's) segment \<Rightarrow> 's \<Rightarrow> 'b segment \<times> 's" where
  "seq_segment seg s = (let (a, s1) = seq_args (seg_args seg) s in (Segment (seg_ident seg) a, s1))"

definition seq_path :: "('s \<Rightarrow> 'b \<times> 's) path \<Rightarrow> 's \<Rightarrow> 'b path \<times> 's" where
  "seq_path p s = (let (segs, s1) = seqs (map seq_segment (segments p)) s in (Path (leading_colon p) segs, s1))"

definition seq_option :: "('s \<Rightarrow> 'b \<times> 's) option \<Rightarrow> 's \<Rightarrow> 'b option \<times> 's" where
  "seq_option m s = (case m of None \<Rightarrow> (None, s) | Some m \<Rightarrow> let (x, s1) = m s in (Some x, s1))"

definition settle :: "'a outcome \<Rightarrow> 'a path \<Rightarrow> Unmodeled set \<Rightarrow> 'a path \<times> Unmodeled set" where
  "settle out p s = (case out of Rewrite rewritten \<Rightarrow> (rewritten, s) | Flag primitive \<Rightarrow> (p, insert primitive s) | Leave \<Rightarrow> (p, s))"

definition is_expr_path :: "ast \<Rightarrow> bool" where
  "is_expr_path e \<longleftrightarrow> (case e of ExprPath _ _ \<Rightarrow> True | _ \<Rightarrow> False)"

definition is_call :: "ast \<Rightarrow> bool" where
  "is_call e \<longleftrightarrow> (case e of ExprCall _ _ \<Rightarrow> True | _ \<Rightarrow> False)"

text \<open>In tasks mode the value of a statement may be a discarded spawn: \<open>rewrite_discarded_spawn\<close> then replaces the path of the
  called function before the statement is visited. The flag \<open>discarded\<close> tells a call, and the path called by it, that it is
  such an expression; a replaced path has no arguments left to visit.\<close>

primrec visit :: "aliases \<Rightarrow> bool \<Rightarrow> ast \<Rightarrow> bool \<Rightarrow> Unmodeled set \<Rightarrow> ast \<times> Unmodeled set" where
  "visit al tasks (ExprPath qself p) discarded = (\<lambda>s.
     let (q, s1) = seqs (map (\<lambda>t. visit al tasks t False) qself) s in
     if discarded \<and> is_tokio_spawn_path (effective al p) then (ExprPath q (rt_path [''spawn_task'']), s1)
     else let (p1, s2) = seq_path (map_path (\<lambda>t. visit al tasks t False) p) s1 in (ExprPath q p1, s2))"
| "visit al tasks (ExprCall func arguments) discarded = (\<lambda>s.
     let (f, s1) = visit al tasks func (discarded \<and> is_expr_path func) s;
         (xs, s2) = seqs (map (\<lambda>t. visit al tasks t False) arguments) s1
     in case f of
          ExprPath q p \<Rightarrow> let (p1, s3) = settle (call_outcome tasks (effective al p)) p s2 in (ExprCall (ExprPath q p1) xs, s3)
        | _ \<Rightarrow> (ExprCall f xs, s2))"
| "visit al tasks (TypePath qself p) discarded = (\<lambda>s.
     let (q, s1) = seqs (map (\<lambda>t. visit al tasks t False) qself) s;
         (p1, s2) = seq_path (map_path (\<lambda>t. visit al tasks t False) p) s1;
         (p2, s3) = settle (type_outcome (effective al p1)) p1 s2
     in (TypePath q p2, s3))"
| "visit al tasks (MacroCall p) discarded = (\<lambda>s.
     let (p1, s1) = seq_path (map_path (\<lambda>t. visit al tasks t False) p) s;
         (p2, s2) = settle (macro_outcome (effective al p1)) p1 s1
     in (MacroCall p2, s2))"
| "visit al tasks (StmtExpr e semi) discarded = (\<lambda>s.
     let (e1, s1) = visit al tasks e (tasks \<and> semi \<and> is_call e) s in (StmtExpr e1 semi, s1))"
| "visit al tasks (StmtLocal wild pat init diverge) discarded = (\<lambda>s.
     let (pat1, s1) = seqs (map (\<lambda>t. visit al tasks t False) pat) s;
         (init1, s2) = seq_option (map_option (\<lambda>t. visit al tasks t (tasks \<and> wild \<and> is_call t)) init) s1;
         (div1, s3) = seqs (map (\<lambda>t. visit al tasks t False) diverge) s2
     in (StmtLocal wild pat1 init1 div1, s3))"
| "visit al tasks (UseItem tree) discarded = (\<lambda>s. (UseItem tree, s))"
| "visit al tasks (DeclItem i body) discarded = (\<lambda>s.
     let (xs, s1) = seqs (map (\<lambda>t. visit al tasks t False) body) s in (DeclItem i xs, s1))"
| "visit al tasks (Node xs) discarded = (\<lambda>s.
     let (ys, s1) = seqs (map (\<lambda>t. visit al tasks t False) xs) s in (Node ys, s1))"

section \<open>Functions and modules\<close>

record item_fn =
  fn_name :: ident
  fn_sig :: "ast list"
  fn_stmts :: "ast list"

text \<open>The markers, in the order of the set.\<close>

definition marker_stmt :: "Unmodeled \<Rightarrow> ast" where
  "marker_stmt u = StmtLocal True [] (Some (ExprPath [] (rt_path [''unmodeled'', marker_ident u]))) []"

definition ordered_primitives :: "Unmodeled set \<Rightarrow> Unmodeled list" where
  "ordered_primitives s = filter (\<lambda>u. u \<in> s) [UCondvar, UAtomic, UChannel, UTokioSpawn, UTokioTime, UArcSwap]"

definition inject_unmodeled_markers :: "Unmodeled set \<Rightarrow> item_fn \<Rightarrow> item_fn" where
  "inject_unmodeled_markers s func = func\<lparr>fn_stmts := map marker_stmt (ordered_primitives s) @ fn_stmts func\<rparr>"

definition apply_model_rewrite_with_base_aliases :: "aliases \<Rightarrow> bool \<Rightarrow> item_fn \<Rightarrow> item_fn" where
  "apply_model_rewrite_with_base_aliases base_aliases tasks func =
     (let al = merge_aliases base_aliases (scan_use_aliases_stmts (fn_stmts func));
          (sig, s1) = seqs (map (\<lambda>t. visit al tasks t False) (fn_sig func)) {};
          (stmts, s2) = seqs (map (\<lambda>t. visit al tasks t False) (fn_stmts func)) s1
      in inject_unmodeled_markers s2 (func\<lparr>fn_sig := sig, fn_stmts := stmts\<rparr>))"

definition apply_model_rewrite_with_options :: "bool \<Rightarrow> item_fn \<Rightarrow> item_fn" where
  "apply_model_rewrite_with_options tasks func = apply_model_rewrite_with_base_aliases Map.empty tasks func"

definition apply_model_rewrite :: "item_fn \<Rightarrow> item_fn" where
  "apply_model_rewrite func = apply_model_rewrite_with_options False func"

text \<open>The items of a module; a module without contents is out of line.\<close>

datatype item =
    IFn item_fn
  | IMod ident "item list option"
  | IUse UseTree
  | IDecl ident
  | IOther

definition mod_item_ident :: "item \<Rightarrow> ident option" where
  "mod_item_ident it = (case it of IFn f \<Rightarrow> Some (fn_name f) | IMod i _ \<Rightarrow> Some i | IDecl i \<Rightarrow> Some i | _ \<Rightarrow> None)"

definition mod_use_tree :: "item \<Rightarrow> UseTree option" where
  "mod_use_tree it = (case it of IUse t \<Rightarrow> Some t | _ \<Rightarrow> None)"

definition scan_use_aliases_items :: "item list \<Rightarrow> aliases" where
  "scan_use_aliases_items items =
     remove_shadowed_aliases (List.map_filter mod_item_ident items)
       (fold (\<lambda>tree. collect_use_aliases tree []) (List.map_filter mod_use_tree items) Map.empty)"

primrec rewrite_item :: "bool \<Rightarrow> item \<Rightarrow> aliases \<Rightarrow> item" where
  "rewrite_item tasks (IFn f) scope_aliases = IFn (apply_model_rewrite_with_base_aliases scope_aliases tasks f)"
| "rewrite_item tasks (IMod i content) scope_aliases =
     IMod i (map_option (map (\<lambda>it. rewrite_item tasks it
       (merge_aliases scope_aliases (scan_use_aliases_items (case content of Some items \<Rightarrow> items | None \<Rightarrow> []))))) content)"
| "rewrite_item tasks (IUse t) scope_aliases = IUse t"
| "rewrite_item tasks (IDecl i) scope_aliases = IDecl i"
| "rewrite_item tasks IOther scope_aliases = IOther"

definition apply_model_rewrite_to_items :: "item list \<Rightarrow> aliases \<Rightarrow> bool \<Rightarrow> item list" where
  "apply_model_rewrite_to_items items base_aliases tasks =
     map (\<lambda>it. rewrite_item tasks it (merge_aliases base_aliases (scan_use_aliases_items items))) items"

datatype model_error = UnknownArgument | OutOfLineMod ident | UnsupportedItem

definition apply_model_rewrite_to_annotated_mod :: "ident \<Rightarrow> item list option \<Rightarrow> model_error + item" where
  "apply_model_rewrite_to_annotated_mod i content =
     (case content of None \<Rightarrow> Inl (OutOfLineMod i)
      | Some items \<Rightarrow> Inr (IMod i (Some (apply_model_rewrite_to_items items Map.empty False))))"

definition model_impl :: "bool \<Rightarrow> item \<Rightarrow> model_error + item" where
  "model_impl attr_empty it =
     (if \<not> attr_empty then Inl UnknownArgument
      else case it of
        IFn f \<Rightarrow> Inr (IFn (apply_model_rewrite f))
      | IMod i content \<Rightarrow> apply_model_rewrite_to_annotated_mod i content
      | _ \<Rightarrow> Inl UnsupportedItem)"

lemma rewrite_item_mod:
  "rewrite_item tasks (IMod i (Some items)) scope_aliases = IMod i (Some (apply_model_rewrite_to_items items scope_aliases tasks))"
  by (simp add: apply_model_rewrite_to_items_def o_def)

section \<open>The pass without state\<close>

text \<open>The places whose path the pass decides on, in the order of the visit, and the decision at each.\<close>

datatype site = CallSite "ast path" | TypeSite "ast path" | MacroSite "ast path"

fun site_path :: "site \<Rightarrow> ast path" where
  "site_path (CallSite p) = p"
| "site_path (TypeSite p) = p"
| "site_path (MacroSite p) = p"

fun site_outcome :: "aliases \<Rightarrow> bool \<Rightarrow> site \<Rightarrow> ast outcome" where
  "site_outcome al tasks (CallSite p) = call_outcome tasks (effective al p)"
| "site_outcome al tasks (TypeSite p) = type_outcome (effective al p)"
| "site_outcome al tasks (MacroSite p) = macro_outcome (effective al p)"

primrec sites :: "ast \<Rightarrow> site list" where
  "sites (ExprPath qself p) = concat (map sites qself) @ concat (path_items (map_path sites p))"
| "sites (ExprCall func arguments) =
     sites func @ concat (map sites arguments) @ (case func of ExprPath q p \<Rightarrow> [CallSite p] | _ \<Rightarrow> [])"
| "sites (TypePath qself p) = concat (map sites qself) @ concat (path_items (map_path sites p)) @ [TypeSite p]"
| "sites (MacroCall p) = concat (path_items (map_path sites p)) @ [MacroSite p]"
| "sites (StmtExpr e semi) = sites e"
| "sites (StmtLocal wild pat init diverge) =
     concat (map sites pat) @ (case map_option sites init of Some xs \<Rightarrow> xs | None \<Rightarrow> []) @ concat (map sites diverge)"
| "sites (UseItem tree) = []"
| "sites (DeclItem i body) = concat (map sites body)"
| "sites (Node xs) = concat (map sites xs)"

definition settled :: "'a outcome \<Rightarrow> 'a path \<Rightarrow> 'a path" where
  "settled out p = (case out of Rewrite r \<Rightarrow> r | _ \<Rightarrow> p)"

primrec rewritten :: "aliases \<Rightarrow> bool \<Rightarrow> ast \<Rightarrow> ast" where
  "rewritten al tasks (ExprPath qself p) = ExprPath (map (rewritten al tasks) qself) (map_path (rewritten al tasks) p)"
| "rewritten al tasks (ExprCall func arguments) =
     ExprCall (case rewritten al tasks func of
         ExprPath q p \<Rightarrow> ExprPath q (settled (call_outcome tasks (effective al p)) p) | f \<Rightarrow> f)
       (map (rewritten al tasks) arguments)"
| "rewritten al tasks (TypePath qself p) = TypePath (map (rewritten al tasks) qself)
     (settled (type_outcome (effective al (map_path (rewritten al tasks) p))) (map_path (rewritten al tasks) p))"
| "rewritten al tasks (MacroCall p) =
     MacroCall (settled (macro_outcome (effective al (map_path (rewritten al tasks) p))) (map_path (rewritten al tasks) p))"
| "rewritten al tasks (StmtExpr e semi) = StmtExpr (rewritten al tasks e) semi"
| "rewritten al tasks (StmtLocal wild pat init diverge) =
     StmtLocal wild (map (rewritten al tasks) pat) (map_option (rewritten al tasks) init) (map (rewritten al tasks) diverge)"
| "rewritten al tasks (UseItem tree) = UseItem tree"
| "rewritten al tasks (DeclItem i body) = DeclItem i (map (rewritten al tasks) body)"
| "rewritten al tasks (Node xs) = Node (map (rewritten al tasks) xs)"

definition recorded :: "aliases \<Rightarrow> bool \<Rightarrow> site list \<Rightarrow> Unmodeled set" where
  "recorded al tasks xs = {u. \<exists>x\<in>set xs. site_outcome al tasks x = Flag u}"

lemma recorded_simps [simp]:
  "recorded al tasks [] = {}" "recorded al tasks (xs @ ys) = recorded al tasks xs \<union> recorded al tasks ys"
  "recorded al tasks (concat xss) = (\<Union>xs\<in>set xss. recorded al tasks xs)"
  "recorded al tasks [x] = (case site_outcome al tasks x of Flag u \<Rightarrow> {u} | _ \<Rightarrow> {})"
  by (auto simp: recorded_def split: outcome.splits)

lemma path_items_map: "path_items (map_path g p) = map g (path_items p)"
proof -
  have "arg_items (map_segment g seg) = map g (arg_items seg)" for seg
    by (cases "seg_args seg") (simp_all add: arg_items_def segment.map_sel)
  then show ?thesis by (simp add: path_items_def path.map_sel map_concat o_def)
qed

lemma set_path_items: "set (path_items p) = set_path p"
proof -
  have args: "set (arg_items seg) = set_segment seg" for seg :: "'a segment"
    by (cases seg; cases "seg_args seg") (auto simp: arg_items_def)
  show ?thesis by (cases p) (auto simp: path_items_def args)
qed

lemma seqs_pure:
  assumes "\<And>x s. x \<in> set xs \<Longrightarrow> v x s = (g x, s \<union> R x)"
  shows "seqs (map v xs) s = (map g xs, s \<union> (\<Union>x\<in>set xs. R x))"
  using assms by (induction xs arbitrary: s) (auto simp: Let_def)

lemma seq_path_pure:
  assumes "\<And>x s. x \<in> set_path p \<Longrightarrow> v x s = (g x, s \<union> R x)"
  shows "seq_path (map_path v p) s = (map_path g p, s \<union> (\<Union>x\<in>set_path p. R x))"
proof -
  have seg: "seq_segment (map_segment v seg) s = (map_segment g seg, s \<union> (\<Union>x\<in>set_segment seg. R x))"
    if "seg \<in> set (segments p)" for seg s
  proof -
    have "v x s = (g x, s \<union> R x)" if "x \<in> set_segment seg" for x s
      using that assms [of x s] \<open>seg \<in> set (segments p)\<close> by (cases p) auto
    then show ?thesis
      by (cases seg; cases "seg_args seg") (auto simp: seq_segment_def seq_args_def seqs_pure)
  qed
  have "seqs (map (\<lambda>seg. seq_segment (map_segment v seg)) (segments p)) s
      = (map (map_segment g) (segments p), s \<union> (\<Union>seg\<in>set (segments p). \<Union>x\<in>set_segment seg. R x))"
    by (rule seqs_pure) (rule seg)
  then show ?thesis by (cases p) (simp add: seq_path_def o_def)
qed

text \<open>The tables that occur map to paths that start with tokio.\<close>

definition tokio_rooted :: "aliases \<Rightarrow> bool" where
  "tokio_rooted al \<longleftrightarrow> (\<forall>b c. al b = Some c \<longrightarrow> (\<exists>rest. c = ''tokio'' # rest))"

lemma arg_items_NoArgs [simp]: "arg_items (Segment i NoArgs) = []"
  by (simp add: arg_items_def)

lemma expand_simps:
  "map (map_segment g) (expand prefix a) = expand prefix (map_args g a)" "map seg_ident (expand prefix a) = prefix"
  by (simp_all add: expand_def o_def map_nth)

lemma expand_snoc: "expand (prefix @ [i]) a = map (\<lambda>i. Segment i NoArgs) prefix @ [Segment i a]"
  by (rule nth_equalityI) (auto simp: expand_def nth_append)

lemma effective_map_path: "effective al (map_path g p) = map_path g (effective al p)"
  by (cases p) (auto simp: effective_def canonicalize_def expand_simps segment.map_sel split: list.splits option.splits)

lemma effective_items:
  assumes "tokio_rooted al"
  shows "path_items (effective al p) = path_items p" "all_plain (effective al p) = all_plain p"
proof -
  have "path_items (effective al p) = path_items p \<and> all_plain (effective al p) = all_plain p"
  proof (cases "canonicalize al p")
    case (Some c)
    then obtain seg rest pre where p: "segments p = seg # rest" and al: "al (seg_ident seg) = Some pre"
      and c: "c = Path False (expand pre (seg_args seg) @ rest)"
      by (auto simp: canonicalize_def split: list.splits option.splits)
    from assms al have "pre \<noteq> []" by (auto simp: tokio_rooted_def)
    then obtain pre' i where pre: "pre = pre' @ [i]" by (cases pre rule: rev_cases) auto
    have "arg_items (Segment i (seg_args seg)) = arg_items seg" "plain (Segment i (seg_args seg)) = plain seg"
      by (simp_all add: arg_items_def plain_def split: args.splits)
    then show ?thesis
      using Some by (simp add: effective_def c path_items_def all_plain_def p pre expand_snoc list_all_iff o_def ball_Un)
  qed (simp add: effective_def)
  then show "path_items (effective al p) = path_items p" "all_plain (effective al p) = all_plain p" by simp_all
qed

lemma effective_rt:
  assumes "al ''laplace_sdk'' = None" "take 2 (idents p) = [''laplace_sdk'', ''rt'']"
  shows "effective al p = p"
  using assms by (auto simp: effective_def canonicalize_def idents_def split: list.splits)

lemma settle_eq: "settle out p s = (settled out p, s \<union> (case out of Flag u \<Rightarrow> {u} | _ \<Rightarrow> {}))"
  by (simp add: settle_def settled_def split: outcome.splits)

text \<open>A path of the runtime is not rewritten again.\<close>

definition foreign_entries :: "entry list \<Rightarrow> bool" where
  "foreign_entries es \<longleftrightarrow> list_all (\<lambda>(src, dst, carry). take 1 src \<noteq> [''laplace_sdk'']) es"

lemma foreign_tables: "foreign_entries (call_entries tasks)" "foreign_entries type_entries"
  by (simp_all add: foreign_entries_def call_entries_def type_entries_def spawn_task_entries_def spawn_entries_def std_lock_entries_def
      tokio_lock_entries_def channel_entries_def time_entries_def std_lock_type_entries_def tokio_lock_type_entries_def
      channel_type_entries_def time_type_entries_def)

lemma lookup_foreign:
  assumes "foreign_entries es" "take 2 (idents p) = [''laplace_sdk'', ''rt'']"
  shows "lookup_entry es p = None"
proof -
  have "take 1 (idents p) = [''laplace_sdk'']" using assms(2) by (cases "idents p") auto
  then show ?thesis using assms(1) by (induction es) (auto simp: foreign_entries_def matches_entry_def)
qed

lemma map_rt_path [simp]: "map_path g (rt_path ids) = rt_path ids"
  by (simp add: rt_path_def quoted_def)

lemma classify_spawn_task: "classify_unmodeled (rt_path [''spawn_task'']) = None"
  by (simp add: classify_unmodeled_def classify_tokio_time_unmodeled_def classify_arc_swap_unmodeled_def is_tokio_spawn_path_def
      is_unmodeled_tokio_spawn_path_def rt_path_def quoted_def idents_def is_known_atomic_type_def)

lemma spawn_task_left:
  assumes "al ''laplace_sdk'' = None"
  shows "call_outcome tasks (effective al (rt_path [''spawn_task''])) = Leave"
proof -
  have rt: "take 2 (idents (rt_path [''spawn_task''])) = [''laplace_sdk'', ''rt'']" by (simp add: rt_path_def quoted_def idents_def)
  show ?thesis
    by (simp add: effective_rt [of al, OF assms rt] outcomes_by_table reference_outcome_def lookup_foreign [OF foreign_tables(1) rt]
        classify_spawn_task)
qed

lemma rewritten_shape: "is_expr_path (rewritten al tasks t) = is_expr_path t"
  by (cases t) (simp_all add: is_expr_path_def)

text \<open>The expression after a visit; a path called by a discarded spawn has been replaced already.\<close>

definition visited :: "aliases \<Rightarrow> bool \<Rightarrow> bool \<Rightarrow> ast \<Rightarrow> ast" where
  "visited al tasks discarded t =
     (case t of ExprPath q p \<Rightarrow> if discarded \<and> is_tokio_spawn_path (effective al p)
        then ExprPath (map (rewritten al tasks) q) (rt_path [''spawn_task'']) else rewritten al tasks t
      | _ \<Rightarrow> rewritten al tasks t)"

lemma visited_False [simp]: "visited al tasks False t = rewritten al tasks t"
  by (simp add: visited_def split: ast.splits)

lemma visited_other: "\<not> is_expr_path t \<Longrightarrow> visited al tasks d t = rewritten al tasks t"
  by (simp add: visited_def is_expr_path_def split: ast.splits)

lemma visit_list_refines:
  assumes "\<And>t s. t \<in> set ts \<Longrightarrow> visit al tasks t False s = (rewritten al tasks t, s \<union> recorded al tasks (sites t))"
  shows "seqs (map (\<lambda>t. visit al tasks t False) ts) s = (map (rewritten al tasks) ts, s \<union> (\<Union>t\<in>set ts. recorded al tasks (sites t)))"
  by (rule seqs_pure) (rule assms)

lemma visit_path_refines:
  assumes "\<And>t s. t \<in> set_path p \<Longrightarrow> visit al tasks t False s = (rewritten al tasks t, s \<union> recorded al tasks (sites t))"
  shows "seq_path (map_path (\<lambda>t. visit al tasks t False) p) s
    = (map_path (rewritten al tasks) p, s \<union> (\<Union>t\<in>set_path p. recorded al tasks (sites t)))"
  by (rule seq_path_pure) (rule assms)

lemma flagged_map: "(case map_outcome g out of Flag u \<Rightarrow> {u} | _ \<Rightarrow> {}) = (case out of Flag u \<Rightarrow> {u} | _ \<Rightarrow> {})"
  by (cases out) simp_all

text \<open>A call of a path: the outcome is that of the path as written, whatever happened inside its arguments.\<close>

lemma call_refines:
  assumes "al ''laplace_sdk'' = None" "d \<longrightarrow> tasks"
  shows "(case visited al tasks d (ExprPath q p) of
      ExprPath q1 p1 \<Rightarrow> let (p2, s3) = settle (call_outcome tasks (effective al p1)) p1 s in (ExprCall (ExprPath q1 p2) xs, s3)
    | f \<Rightarrow> (ExprCall f xs, s))
    = (ExprCall (ExprPath (map (rewritten al tasks) q) (settled (call_outcome tasks (effective al (map_path (rewritten al tasks) p)))
          (map_path (rewritten al tasks) p))) xs, s \<union> recorded al tasks [CallSite p])"
proof (cases "d \<and> is_tokio_spawn_path (effective al p)")
  case True
  with assms have "call_outcome tasks (effective al p) = Rewrite (rt_path [''spawn_task''])" by (simp add: call_outcome_def)
  then show ?thesis
    using True by (simp add: visited_def settle_eq settled_def spawn_task_left [of al, OF assms(1)] effective_map_path outcome_map_path)
next
  case False
  then have "visited al tasks d (ExprPath q p) = rewritten al tasks (ExprPath q p)" by (auto simp: visited_def)
  then show ?thesis by (simp add: settle_eq effective_map_path outcome_map_path flagged_map)
qed

lemma visit_refines:
  assumes "al ''laplace_sdk'' = None" "tokio_rooted al"
  shows "(d \<longrightarrow> tasks) \<Longrightarrow> visit al tasks t d s = (visited al tasks d t, s \<union> recorded al tasks (sites t))"
proof (induction t arbitrary: d s)
  case (ExprPath q p)
  have "set_path p = {}" if "is_tokio_spawn_path (effective al p)"
  proof -
    have "all_plain p" using that assms(2) by (simp add: is_tokio_spawn_path_def effective_items split: if_splits)
    then show ?thesis using set_path_items [of p] by (simp add: path_items_def all_plain_def plain_no_items_list)
  qed
  moreover have "seqs (map (\<lambda>t. visit al tasks t False) q) s
      = (map (rewritten al tasks) q, s \<union> (\<Union>t\<in>set q. recorded al tasks (sites t)))" for s
    by (rule visit_list_refines) (simp add: ExprPath.IH(1))
  moreover have "seq_path (map_path (\<lambda>t. visit al tasks t False) p) s
      = (map_path (rewritten al tasks) p, s \<union> (\<Union>t\<in>set_path p. recorded al tasks (sites t)))" for s
    by (rule visit_path_refines) (simp add: ExprPath.IH(2))
  ultimately show ?case by (simp add: visited_def path_items_map set_path_items Un_assoc)
next
  case (ExprCall func arguments)
  have args: "seqs (map (\<lambda>t. visit al tasks t False) arguments) s
      = (map (rewritten al tasks) arguments, s \<union> (\<Union>t\<in>set arguments. recorded al tasks (sites t)))" for s
    by (rule visit_list_refines) (simp add: ExprCall.IH(2))
  have func: "visit al tasks func (d \<and> is_expr_path func) s = (visited al tasks (d \<and> is_expr_path func) func, s \<union> recorded al tasks (sites func))" for s
    using ExprCall by simp
  let ?xs = "map (rewritten al tasks) arguments"
  let ?s2 = "s \<union> recorded al tasks (sites func) \<union> (\<Union>t\<in>set arguments. recorded al tasks (sites t))"
  show ?case
  proof (cases "is_expr_path func")
    case True
    then obtain q p where qp: "func = ExprPath q p" by (auto simp: is_expr_path_def split: ast.splits)
    have "visit al tasks (ExprCall func arguments) d s =
        (case visited al tasks d func of
           ExprPath q1 p1 \<Rightarrow> let (p2, s3) = settle (call_outcome tasks (effective al p1)) p1 ?s2 in (ExprCall (ExprPath q1 p2) ?xs, s3)
         | f \<Rightarrow> (ExprCall f ?xs, ?s2))"
      using True unfolding visit.simps(2) func args Let_def prod.case by (cases "visited al tasks d func") simp_all
    also have "\<dots> = (rewritten al tasks (ExprCall func arguments), ?s2 \<union> recorded al tasks [CallSite p])"
      using call_refines [where al = al and q = q and p = p, OF assms(1) ExprCall.prems] unfolding qp by simp
    also have "\<dots> = (visited al tasks d (ExprCall func arguments), s \<union> recorded al tasks (sites (ExprCall func arguments)))"
      by (simp add: qp visited_other is_expr_path_def Un_assoc del: recorded_simps(4))
    finally show ?thesis .
  next
    case False
    then have "visited al tasks (d \<and> is_expr_path func) func = rewritten al tasks func" by simp
    moreover have "\<not> is_expr_path (rewritten al tasks func)" using False by (simp add: rewritten_shape)
    ultimately have "visit al tasks (ExprCall func arguments) d s = (ExprCall (rewritten al tasks func) ?xs, ?s2)"
      unfolding visit.simps(2) func args Let_def prod.case by (cases "rewritten al tasks func") (simp_all add: is_expr_path_def)
    also have "\<dots> = (visited al tasks d (ExprCall func arguments), s \<union> recorded al tasks (sites (ExprCall func arguments)))"
      using False \<open>\<not> is_expr_path (rewritten al tasks func)\<close>
      by (auto simp: visited_other is_expr_path_def Un_assoc split: ast.splits)
    finally show ?thesis .
  qed
next
  case (TypePath q p)
  have "seqs (map (\<lambda>t. visit al tasks t False) q) s
      = (map (rewritten al tasks) q, s \<union> (\<Union>t\<in>set q. recorded al tasks (sites t)))" for s
    by (rule visit_list_refines) (simp add: TypePath.IH(1))
  moreover have "seq_path (map_path (\<lambda>t. visit al tasks t False) p) s
      = (map_path (rewritten al tasks) p, s \<union> (\<Union>t\<in>set_path p. recorded al tasks (sites t)))" for s
    by (rule visit_path_refines) (simp add: TypePath.IH(2))
  ultimately show ?case
    by (simp add: visited_def path_items_map set_path_items settle_eq effective_map_path outcome_map_path flagged_map Un_assoc)
next
  case (MacroCall p)
  have "seq_path (map_path (\<lambda>t. visit al tasks t False) p) s
      = (map_path (rewritten al tasks) p, s \<union> (\<Union>t\<in>set_path p. recorded al tasks (sites t)))" for s
    by (rule visit_path_refines) (simp add: MacroCall.IH)
  then show ?case
    by (simp add: visited_def path_items_map set_path_items settle_eq effective_map_path outcome_map_path flagged_map Un_assoc)
next
  case (StmtExpr e semi)
  have "visited al tasks (tasks \<and> semi \<and> is_call e) e = rewritten al tasks e" by (auto simp: visited_def is_call_def split: ast.splits)
  with StmtExpr.IH [of "tasks \<and> semi \<and> is_call e" s] show ?case by (simp add: visited_other is_expr_path_def)
next
  case (StmtLocal wild pat init diverge)
  have lists: "seqs (map (\<lambda>t. visit al tasks t False) pat) s
      = (map (rewritten al tasks) pat, s \<union> (\<Union>t\<in>set pat. recorded al tasks (sites t)))"
    "seqs (map (\<lambda>t. visit al tasks t False) diverge) s
      = (map (rewritten al tasks) diverge, s \<union> (\<Union>t\<in>set diverge. recorded al tasks (sites t)))" for s
    by (rule visit_list_refines, simp add: StmtLocal.IH)+
  have "visited al tasks (tasks \<and> wild \<and> is_call e) e = rewritten al tasks e" for e
    by (auto simp: visited_def is_call_def split: ast.splits)
  then have "seq_option (map_option (\<lambda>t. visit al tasks t (tasks \<and> wild \<and> is_call t)) init) s
      = (map_option (rewritten al tasks) init, s \<union> recorded al tasks (case map_option sites init of Some xs \<Rightarrow> xs | None \<Rightarrow> []))" for s
    using StmtLocal.IH(2) by (cases init) (simp_all add: seq_option_def)
  with lists show ?case by (simp add: visited_other is_expr_path_def Un_assoc)
next
  case (DeclItem i body)
  have "seqs (map (\<lambda>t. visit al tasks t False) body) s
      = (map (rewritten al tasks) body, s \<union> (\<Union>t\<in>set body. recorded al tasks (sites t)))" for s
    by (rule visit_list_refines) (simp add: DeclItem.IH)
  then show ?case by (simp add: visited_other is_expr_path_def)
next
  case (Node xs)
  have "seqs (map (\<lambda>t. visit al tasks t False) xs) s
      = (map (rewritten al tasks) xs, s \<union> (\<Union>t\<in>set xs. recorded al tasks (sites t)))" for s
    by (rule visit_list_refines) (simp add: Node.IH)
  then show ?case by (simp add: visited_other is_expr_path_def)
qed (simp add: visited_other is_expr_path_def)

section \<open>Sites after the pass\<close>

text \<open>The site that a site becomes: its path settled, with the pass applied inside its arguments.\<close>

fun after :: "aliases \<Rightarrow> bool \<Rightarrow> site \<Rightarrow> site" where
  "after al tasks (CallSite p) = CallSite (map_path (rewritten al tasks) (settled (call_outcome tasks (effective al p)) p))"
| "after al tasks (TypeSite p) = TypeSite (map_path (rewritten al tasks) (settled (type_outcome (effective al p)) p))"
| "after al tasks (MacroSite p) = MacroSite (map_path (rewritten al tasks) (settled (macro_outcome (effective al p)) p))"

lemma settled_map: "settled (map_outcome g out) (map_path g p) = map_path g (settled out p)"
  by (simp add: settled_def split: outcome.splits)

lemma outcome_items:
  assumes "tokio_rooted al" "site_outcome al tasks x = Rewrite r"
  shows "path_items r = path_items (site_path x)" "leading_colon r" "take 2 (idents r) = [''laplace_sdk'', ''rt'']"
proof -
  have ref: "path_items r = path_items p \<and> leading_colon r \<and> take 2 (idents r) = [''laplace_sdk'', ''rt'']"
    if "entries_ok es" "reference_outcome es (effective al p) = Rewrite r" for es and p :: "ast path"
    using that lookup_items [of es "effective al p" r] effective_items(1) [OF assms(1), of p]
    by (auto simp: reference_outcome_def split: option.splits)
  have "path_items r = path_items (site_path x) \<and> leading_colon r \<and> take 2 (idents r) = [''laplace_sdk'', ''rt'']"
  proof (cases x)
    case (CallSite p)
    with assms(2) ref [OF entries_ok_tables(1), of tasks p] show ?thesis by (simp add: outcomes_by_table)
  next
    case (TypeSite p)
    with assms(2) ref [OF entries_ok_tables(2), of p] show ?thesis by (simp add: outcomes_by_table)
  next
    case (MacroSite p)
    with assms(2) have "all_plain (effective al p)" and r: "r = rt_path [''laplace_select'']"
      by (auto simp: macro_outcome_def is_tokio_select_macro_path_def split: if_splits)
    then have "all_plain p" by (simp only: effective_items(2) [OF assms(1)])
    then have "path_items p = []" unfolding path_items_def all_plain_def by (rule plain_no_items_list)
    then show ?thesis by (simp add: MacroSite r rt_path_def quoted_def path_items_def idents_def o_def)
  qed
  then show "path_items r = path_items (site_path x)" "leading_colon r" "take 2 (idents r) = [''laplace_sdk'', ''rt'']" by simp_all
qed

lemma settled_items: "tokio_rooted al \<Longrightarrow> path_items (settled (site_outcome al tasks x) (site_path x)) = path_items (site_path x)"
  by (auto simp: settled_def outcome_items split: outcome.splits)

lemma concat_items: "concat (path_items (map_path sites p)) = concat (map sites (path_items p))"
  by (simp add: path_items_map)

lemma sites_list:
  assumes "\<And>t. t \<in> set ts \<Longrightarrow> sites (rewritten al tasks t) = map (after al tasks) (sites t)"
  shows "concat (map sites (map (rewritten al tasks) ts)) = map (after al tasks) (concat (map sites ts))"
  using assms by (induction ts) simp_all

text \<open>The sites inside the arguments of a settled path are those inside the path.\<close>

lemma sites_settled:
  assumes "tokio_rooted al" "\<And>t. t \<in> set_path (site_path x) \<Longrightarrow> sites (rewritten al tasks t) = map (after al tasks) (sites t)"
  shows "concat (path_items (map_path sites (map_path (rewritten al tasks) (settled (site_outcome al tasks x) (site_path x)))))
    = map (after al tasks) (concat (path_items (map_path sites (site_path x))))"
  unfolding concat_items path_items_map settled_items [OF assms(1)]
  by (rule sites_list) (simp add: assms(2) set_path_items)

lemma other_call:
  "\<not> is_expr_path func \<Longrightarrow> sites (ExprCall func arguments) = sites func @ concat (map sites arguments)"
  "\<not> is_expr_path func \<Longrightarrow> rewritten al tasks (ExprCall func arguments)
     = ExprCall (rewritten al tasks func) (map (rewritten al tasks) arguments)"
proof -
  assume "\<not> is_expr_path func"
  then show "sites (ExprCall func arguments) = sites func @ concat (map sites arguments)" by (simp add: is_expr_path_def split: ast.splits)
  from \<open>\<not> is_expr_path func\<close> have "\<not> is_expr_path (rewritten al tasks func)" by (simp add: rewritten_shape)
  then show "rewritten al tasks (ExprCall func arguments) = ExprCall (rewritten al tasks func) (map (rewritten al tasks) arguments)"
    by (simp add: is_expr_path_def split: ast.splits)
qed

lemma sites_rewritten:
  assumes "tokio_rooted al"
  shows "sites (rewritten al tasks t) = map (after al tasks) (sites t)"
proof (induction t)
  case (ExprPath q p)
  have "concat (path_items (map_path sites (map_path (rewritten al tasks) p))) = map (after al tasks) (concat (path_items (map_path sites p)))"
    unfolding concat_items path_items_map by (rule sites_list) (simp add: ExprPath.IH(2) set_path_items)
  with sites_list [of q] ExprPath.IH(1) show ?case by simp
next
  case (ExprCall func arguments)
  note args = sites_list [of arguments, OF ExprCall.IH(2)]
  show ?case
  proof (cases "is_expr_path func")
    case True
    then obtain q p where qp: "func = ExprPath q p" by (auto simp: is_expr_path_def split: ast.splits)
    have out: "call_outcome tasks (effective al (map_path (rewritten al tasks) p)) = map_outcome (rewritten al tasks) (call_outcome tasks (effective al p))"
      by (simp add: effective_map_path outcome_map_path)
    have "concat (map sites (path_items (map_path (rewritten al tasks) (settled (call_outcome tasks (effective al p)) p))))
        = concat (map sites (path_items (map_path (rewritten al tasks) p)))"
      using settled_items [OF assms, of tasks "CallSite p"] by (simp add: path_items_map)
    with ExprCall.IH(1) args show ?thesis by (simp add: qp out settled_map concat_items)
  next
    case False
    with ExprCall.IH(1) args show ?thesis by (simp add: other_call(1) other_call(2) rewritten_shape del: sites.simps(2) rewritten.simps(2))
  qed
next
  case (TypePath q p)
  have "concat (path_items (map_path sites (map_path (rewritten al tasks) (settled (type_outcome (effective al p)) p))))
      = map (after al tasks) (concat (path_items (map_path sites p)))"
    using sites_settled [OF assms, of "TypeSite p" tasks] TypePath.IH(2) by simp
  with sites_list [of q] TypePath.IH(1) show ?case by (simp add: effective_map_path outcome_map_path settled_map)
next
  case (MacroCall p)
  have "concat (path_items (map_path sites (map_path (rewritten al tasks) (settled (macro_outcome (effective al p)) p))))
      = map (after al tasks) (concat (path_items (map_path sites p)))"
    using sites_settled [OF assms, of "MacroSite p" tasks] MacroCall.IH by simp
  then show ?case by (simp add: effective_map_path outcome_map_path settled_map)
next
  case (StmtLocal wild pat init diverge)
  with sites_list [of pat] sites_list [of diverge] show ?case by (cases init) simp_all
next
  case (DeclItem i body)
  with sites_list [of body] show ?case by simp
next
  case (Node xs)
  with sites_list [of xs] show ?case by simp
qed simp_all

section \<open>The alias tables\<close>

text \<open>The leaves of a \<open>use\<close> tree: each name it binds with the path it stands for.\<close>

fun leaves :: "UseTree \<Rightarrow> ident list \<Rightarrow> (ident \<times> ident list) list" where
  "leaves (UsePath i tree) prefix = leaves tree (prefix @ [i])"
| "leaves (UseName i) prefix = (if i = ''self'' then (if prefix = [] then [] else [(last prefix, prefix)]) else [(i, prefix @ [i])])"
| "leaves (UseRename i rename) prefix = [(rename, prefix @ [i])]"
| "leaves UseGlob prefix = []"
| "leaves (UseGroup items) prefix = concat (map (\<lambda>item. leaves item prefix) items)"

definition tokio_leaf :: "ident \<times> ident list \<Rightarrow> bool" where
  "tokio_leaf leaf \<longleftrightarrow> (case snd leaf of i # _ \<Rightarrow> i = ''tokio'' | [] \<Rightarrow> False)"

lemma insert_tokio_alias_eq: "insert_tokio_alias b c table = (if tokio_leaf (b, c) then table(b \<mapsto> c) else table)"
  by (simp add: insert_tokio_alias_def tokio_leaf_def split: list.splits)

definition enter :: "(ident \<times> ident list) list \<Rightarrow> aliases \<Rightarrow> aliases" where
  "enter xs table = table ++ map_of (rev (filter tokio_leaf xs))"

lemma enter_simps: "enter [] table = table" "enter (xs @ ys) table = enter ys (enter xs table)"
  "enter [(b, c)] table = insert_tokio_alias b c table"
  by (simp_all add: enter_def insert_tokio_alias_eq map_add_def fun_eq_iff split: option.splits)

lemma enter_concat: "enter (concat (map f xs)) table = fold (\<lambda>x. enter (f x)) xs table"
  by (induction xs arbitrary: table) (simp_all add: enter_simps)

lemma collect_leaves: "collect_use_aliases tree prefix table = enter (leaves tree prefix) table"
proof (induction tree prefix table rule: collect_use_aliases.induct)
  case (5 items prefix table)
  have "fold (\<lambda>item. collect_use_aliases item prefix) items table = fold (\<lambda>item. enter (leaves item prefix)) items table"
    using 5 by (intro fold_cong) auto
  then show ?case by (simp add: enter_concat)
qed (simp_all add: enter_simps)

lemma shadowed: "remove_shadowed_aliases is table b = (if b \<in> set is then None else table b)"
  unfolding remove_shadowed_aliases_def by (induction "is" arbitrary: table) simp_all

text \<open>What a scope binds: the leaves of its \<open>use\<close> items that start with tokio, the last one for a name, unless an item of the scope has
  the name.\<close>

definition scope_table :: "UseTree list \<Rightarrow> ident list \<Rightarrow> aliases" where
  "scope_table trees declared = (\<lambda>b. if b \<in> set declared then None
     else map_of (rev (filter tokio_leaf (concat (map (\<lambda>t. leaves t []) trees)))) b)"

lemma fold_collect: "fold (\<lambda>tree. collect_use_aliases tree []) trees table = enter (concat (map (\<lambda>t. leaves t []) trees)) table"
  unfolding collect_leaves enter_concat by (rule refl)

lemma scan_stmts: "scan_use_aliases_stmts stmts = scope_table (List.map_filter use_tree stmts) (List.map_filter item_ident stmts)"
  unfolding scan_use_aliases_stmts_def fold_collect scope_table_def enter_def by (simp add: fun_eq_iff shadowed)

lemma scan_items: "scan_use_aliases_items items = scope_table (List.map_filter mod_use_tree items) (List.map_filter mod_item_ident items)"
  unfolding scan_use_aliases_items_def fold_collect scope_table_def enter_def by (simp add: fun_eq_iff shadowed)

lemma scope_table_rooted: "tokio_rooted (scope_table trees declared)"
  unfolding tokio_rooted_def scope_table_def
  by (auto dest!: map_of_SomeD simp: tokio_leaf_def split: if_splits list.splits)

lemma merge_rooted: "tokio_rooted a \<Longrightarrow> tokio_rooted b \<Longrightarrow> tokio_rooted (merge_aliases a b)"
  unfolding tokio_rooted_def merge_aliases_def map_add_Some_iff by blast

section \<open>The pass over a function\<close>

definition fn_table :: "aliases \<Rightarrow> item_fn \<Rightarrow> aliases" where
  "fn_table base_aliases func = merge_aliases base_aliases (scan_use_aliases_stmts (fn_stmts func))"

definition fn_sites :: "item_fn \<Rightarrow> site list" where
  "fn_sites func = concat (map sites (fn_sig func @ fn_stmts func))"

text \<open>A path below \<open>::laplace_sdk::rt\<close>.\<close>

definition is_rt :: "'a path \<Rightarrow> bool" where
  "is_rt p \<longleftrightarrow> leading_colon p \<and> take 2 (idents p) = [''laplace_sdk'', ''rt'']"

lemma fn_table_rooted: "tokio_rooted base \<Longrightarrow> tokio_rooted (fn_table base func)"
  unfolding fn_table_def scan_stmts by (rule merge_rooted [OF _ scope_table_rooted])

lemma rewritten_fn:
  assumes "tokio_rooted base" "fn_table base func ''laplace_sdk'' = None"
  shows "apply_model_rewrite_with_base_aliases base tasks func = func\<lparr>
    fn_sig := map (rewritten (fn_table base func) tasks) (fn_sig func),
    fn_stmts := map marker_stmt (ordered_primitives (recorded (fn_table base func) tasks (fn_sites func)))
      @ map (rewritten (fn_table base func) tasks) (fn_stmts func)\<rparr>"
proof -
  let ?al = "fn_table base func"
  have "seqs (map (\<lambda>t. visit ?al tasks t False) ts) s = (map (rewritten ?al tasks) ts, s \<union> (\<Union>t\<in>set ts. recorded ?al tasks (sites t)))" for ts s
    by (rule visit_list_refines) (simp add: visit_refines [of ?al, OF assms(2) fn_table_rooted [OF assms(1)]])
  then show ?thesis
    unfolding apply_model_rewrite_with_base_aliases_def fn_table_def [symmetric] by (simp add: inject_unmodeled_markers_def fn_sites_def Let_def)
qed

lemma set_ordered_primitives: "set (ordered_primitives s) = s"
proof -
  have all: "u \<in> set [UCondvar, UAtomic, UChannel, UTokioSpawn, UTokioTime, UArcSwap]" for u by (cases u) simp_all
  show ?thesis unfolding ordered_primitives_def set_filter using all by blast
qed

lemma after_outcome:
  assumes "tokio_rooted al" "al ''laplace_sdk'' = None"
  shows "(\<forall>r. site_outcome al tasks (after al tasks x) \<noteq> Rewrite r)
    \<and> (\<forall>u. site_outcome al tasks (after al tasks x) = Flag u \<longrightarrow> is_rt (site_path (after al tasks x)) \<or> site_outcome al tasks x = Flag u)"
proof (cases "site_outcome al tasks x")
  case (Rewrite r)
  note rt = outcome_items(2,3) [OF assms(1) Rewrite]
  have path: "site_path (after al tasks x) = map_path (rewritten al tasks) r" using Rewrite by (cases x) (simp_all add: settled_def)
  then have is_rt: "is_rt (site_path (after al tasks x))" using rt by (simp add: is_rt_def path.map_sel)
  then have take2: "take 2 (idents (site_path (after al tasks x))) = [''laplace_sdk'', ''rt'']" by (simp add: is_rt_def)
  have "site_outcome al tasks (after al tasks x) \<noteq> Rewrite r'" for r'
    using effective_rt [of al, OF assms(2) take2] lookup_foreign [OF foreign_tables(1) take2] lookup_foreign [OF foreign_tables(2) take2] take2
    by (cases x) (auto simp: outcomes_by_table reference_outcome_def macro_outcome_def is_tokio_select_macro_path_def split: option.splits if_splits)
  with is_rt show ?thesis by blast
next
  case (Flag u)
  then have "site_outcome al tasks (after al tasks x) = Flag u"
    by (cases x) (simp_all add: settled_def effective_map_path outcome_map_path)
  with Flag show ?thesis by simp
next
  case Leave
  then have "site_outcome al tasks (after al tasks x) = Leave"
    by (cases x) (simp_all add: settled_def effective_map_path outcome_map_path)
  then show ?thesis by simp
qed

text \<open>(C13) The pass leaves no known primitive unnoticed. Whatever the function and the aliases of its module, as long as no alias is
  called like the runtime crate: the result is the function with markers in front, one for each kind of primitive that some call or
  type names without a model, and no others; the calls, types and macros of the result are those of the function, in
  order, each with its path settled; none of them could be rewritten further, and one that still names a known primitive
  without a model is either a path of the runtime or has its marker.\<close>

theorem model_rewrite_complete:
  assumes "tokio_rooted base" "fn_table base func ''laplace_sdk'' = None"
  shows "\<exists>markers sig body. apply_model_rewrite_with_base_aliases base tasks func
      = func\<lparr>fn_sig := sig, fn_stmts := map marker_stmt markers @ body\<rparr>
    \<and> distinct markers \<and> set markers = {u. \<exists>x\<in>set (fn_sites func). site_outcome (fn_table base func) tasks x = Flag u}
    \<and> concat (map sites (sig @ body)) = map (after (fn_table base func) tasks) (fn_sites func)
    \<and> (\<forall>y\<in>set (concat (map sites (sig @ body))). (\<forall>r. site_outcome (fn_table base func) tasks y \<noteq> Rewrite r)
        \<and> (\<forall>u. site_outcome (fn_table base func) tasks y = Flag u \<longrightarrow> is_rt (site_path y) \<or> u \<in> set markers))"
proof -
  let ?al = "fn_table base func"
  let ?markers = "ordered_primitives (recorded ?al tasks (fn_sites func))"
  let ?rw = "map (rewritten ?al tasks)"
  have rooted: "tokio_rooted ?al" by (rule fn_table_rooted [OF assms(1)])
  have set_markers: "set ?markers = {u. \<exists>x\<in>set (fn_sites func). site_outcome ?al tasks x = Flag u}"
    by (simp add: set_ordered_primitives recorded_def)
  have sites: "concat (map sites (?rw (fn_sig func) @ ?rw (fn_stmts func))) = map (after ?al tasks) (fn_sites func)"
    using sites_list [of "fn_sig func @ fn_stmts func" ?al tasks] sites_rewritten [OF rooted] unfolding fn_sites_def by simp
  have "\<forall>y\<in>set (map (after ?al tasks) (fn_sites func)). (\<forall>r. site_outcome ?al tasks y \<noteq> Rewrite r)
      \<and> (\<forall>u. site_outcome ?al tasks y = Flag u \<longrightarrow> is_rt (site_path y) \<or> u \<in> set ?markers)"
    using after_outcome [of ?al, OF rooted assms(2)] unfolding set_markers by fastforce
  then have "\<forall>y\<in>set (concat (map sites (?rw (fn_sig func) @ ?rw (fn_stmts func)))). (\<forall>r. site_outcome ?al tasks y \<noteq> Rewrite r)
      \<and> (\<forall>u. site_outcome ?al tasks y = Flag u \<longrightarrow> is_rt (site_path y) \<or> u \<in> set ?markers)"
    unfolding sites .
  moreover have "distinct ?markers" by (simp add: ordered_primitives_def)
  ultimately show ?thesis using rewritten_fn [OF assms] set_markers sites by blast
qed

text \<open>A function with a local import of the channel module, a channel call with type arguments, and an atomic.\<close>

definition demo_fn :: item_fn where
  "demo_fn = \<lparr>fn_name = ''f'', fn_sig = [],
     fn_stmts =
       [UseItem (UsePath ''tokio'' (UsePath ''sync'' (UseName ''mpsc''))),
        StmtExpr (ExprCall (ExprPath [] (Path False [Segment ''mpsc'' NoArgs, Segment ''channel'' (Args [])])) []) True,
        StmtExpr (ExprCall (ExprPath [] (Path False [Segment ''AtomicBool'' NoArgs, Segment ''new'' NoArgs])) []) True]\<rparr>"

lemma demo_table: "fn_table Map.empty demo_fn = [''mpsc'' \<mapsto> [''tokio'', ''sync'', ''mpsc'']]"
  by (simp add: fn_table_def merge_aliases_def scan_stmts scope_table_def demo_fn_def List.map_filter_def use_tree_def item_ident_def tokio_leaf_def
      fun_eq_iff)

lemma demo_channel:
  "effective [''mpsc'' \<mapsto> [''tokio'', ''sync'', ''mpsc'']] (Path False [Segment ''mpsc'' NoArgs, Segment ''channel'' a])
     = Path False [Segment ''tokio'' NoArgs, Segment ''sync'' NoArgs, Segment ''mpsc'' NoArgs, Segment ''channel'' a]"
  "effective [''mpsc'' \<mapsto> [''tokio'', ''sync'', ''mpsc'']] (Path False [Segment ''AtomicBool'' NoArgs, Segment ''new'' NoArgs])
     = Path False [Segment ''AtomicBool'' NoArgs, Segment ''new'' NoArgs]"
  by (simp_all add: effective_def canonicalize_def expand_def upt_rec)

lemmas call_outcome_defs = call_outcome_def is_supported_spawn_path_def rewrite_std_sync_constructor_path_def rewrite_tokio_sync_constructor_path_def
  rewrite_tokio_sync_channel_constructor_path_def rewrite_tokio_time_fn_path_def classify_unmodeled_def classify_tokio_time_unmodeled_def
  classify_arc_swap_unmodeled_def is_tokio_spawn_path_def is_unmodeled_tokio_spawn_path_def

lemma demo_outcomes:
  "call_outcome False (Path False [Segment ''tokio'' NoArgs, Segment ''sync'' NoArgs, Segment ''mpsc'' NoArgs, Segment ''channel'' a])
     = Rewrite (channel_path ''mpsc'' ''channel'' a)"
  "call_outcome False (Path False [Segment ''AtomicBool'' NoArgs, Segment ''new'' NoArgs]) = Flag UAtomic"
  by (simp_all add: call_outcome_defs tokio_channel_fn_target_for_def
      tokio_model_target_for_def is_known_atomic_type_def all_plain_def idents_def)

theorem model_rewrite_complete_witness:
  "tokio_rooted Map.empty \<and> fn_table Map.empty demo_fn ''laplace_sdk'' = None
   \<and> (\<exists>markers sig body. apply_model_rewrite demo_fn = demo_fn\<lparr>fn_sig := sig, fn_stmts := map marker_stmt markers @ body\<rparr>
        \<and> set markers = {UAtomic}
        \<and> map site_path (concat (map sites (sig @ body)))
            = [channel_path ''mpsc'' ''channel'' (Args []), Path False [Segment ''AtomicBool'' NoArgs, Segment ''new'' NoArgs]])"
proof -
  have hyps: "tokio_rooted Map.empty" "fn_table Map.empty demo_fn ''laplace_sdk'' = None" by (simp_all add: tokio_rooted_def demo_table)
  have sites: "fn_sites demo_fn = [CallSite (Path False [Segment ''mpsc'' NoArgs, Segment ''channel'' (Args [])]),
      CallSite (Path False [Segment ''AtomicBool'' NoArgs, Segment ''new'' NoArgs])]"
    by (simp add: fn_sites_def demo_fn_def path_items_def arg_items_def)
  have "{u. \<exists>x\<in>set (fn_sites demo_fn). site_outcome (fn_table Map.empty demo_fn) False x = Flag u} = {UAtomic}"
    unfolding demo_table sites by (auto simp: demo_channel demo_outcomes)
  moreover have "map site_path (map (after (fn_table Map.empty demo_fn) False) (fn_sites demo_fn))
      = [channel_path ''mpsc'' ''channel'' (Args []), Path False [Segment ''AtomicBool'' NoArgs, Segment ''new'' NoArgs]]"
    unfolding demo_table sites by (simp add: demo_channel demo_outcomes settled_def channel_path_def)
  ultimately show ?thesis
    using hyps model_rewrite_complete [OF hyps, of False] unfolding apply_model_rewrite_def apply_model_rewrite_with_options_def by metis
qed

section \<open>What the tables miss\<close>

text \<open>A group that renames \<open>self\<close> binds a path ending in \<open>self\<close>, which nothing recognises: a tokio mutex reached through it is neither
  rewritten nor marked.\<close>

lemma renamed_self_path:
  "effective [''s'' \<mapsto> [''tokio'', ''sync'', ''self'']] (Path False [Segment ''s'' NoArgs, Segment ''Mutex'' NoArgs, Segment ''new'' NoArgs])
     = Path False [Segment ''tokio'' NoArgs, Segment ''sync'' NoArgs, Segment ''self'' NoArgs, Segment ''Mutex'' NoArgs, Segment ''new'' NoArgs]"
  by (simp add: effective_def canonicalize_def expand_def upt_rec)

lemma renamed_self_missed:
  "collect_use_aliases (UsePath ''tokio'' (UsePath ''sync'' (UseGroup [UseRename ''self'' ''s'']))) [] Map.empty
     = [''s'' \<mapsto> [''tokio'', ''sync'', ''self'']]"
  "call_outcome tasks (effective [''s'' \<mapsto> [''tokio'', ''sync'', ''self'']]
     (Path False [Segment ''s'' NoArgs, Segment ''Mutex'' NoArgs, Segment ''new'' NoArgs])) = Leave"
  unfolding renamed_self_path
  by (simp_all add: insert_tokio_alias_def call_outcome_defs is_known_atomic_type_def all_plain_def idents_def)

text \<open>An import in a function does not hide an alias of the module when it is not from tokio: the name still resolves to tokio.\<close>

lemma inner_import_ignored:
  "fn_table [''Mutex'' \<mapsto> [''tokio'', ''sync'', ''Mutex'']]
     \<lparr>fn_name = ''f'', fn_sig = [], fn_stmts = [UseItem (UsePath ''std'' (UsePath ''sync'' (UseName ''Mutex'')))]\<rparr>
   = [''Mutex'' \<mapsto> [''tokio'', ''sync'', ''Mutex'']]"
  by (simp add: fn_table_def merge_aliases_def scan_stmts scope_table_def List.map_filter_def use_tree_def item_ident_def tokio_leaf_def fun_eq_iff)

text \<open>A path of the runtime's own channel module counts as a channel without a model.\<close>

lemma runtime_channel_flagged: "call_outcome tasks (channel_path ''mpsc'' ''channel'' a) = Flag UChannel"
  by (simp add: call_outcome_defs channel_path_def all_plain_def idents_def)

end
