(* ===== verification/VerifyHarness.thy ===== *)
theory VerifyHarness
  imports MacroArgs ModelRewrite EndToEnd
begin

text \<open>
  The verify attribute (\<^verbatim>\<open>laplace-macro/src/verify.rs\<close>): which functions it accepts, the test it generates in each of its three modes,
  and what running that test does, with the event dump of \<^verbatim>\<open>laplace-probe-sdk/src/session.rs\<close> at its end. A run of the test composes the rewrite,
  the capture session, the probe hooks and the reference verifier of the other theories. The user's function is what its threads do: calls that reach a
  hook of the runtime, and events that tracked primitives emit themselves.
\<close>

section \<open>The annotated function\<close>

text \<open>The parameters are a receiver, a reference with its mutability and referent, or another type.\<close>

datatype fn_arg = ReceiverArg | TypedRef bool ast | TypedOther ast

record verify_fn =
  vf_attrs :: "ast path list"
  vf_async :: bool
  vf_name :: ident
  vf_inputs :: "fn_arg list"
  vf_output :: "ast list"
  vf_stmts :: "ast list"

definition is_test_attribute :: "ast path \<Rightarrow> bool" where
  "is_test_attribute p \<longleftrightarrow> get_ident p = Some ''test''
     \<or> length (segments p) = 2 \<and> seg_ident (segments p ! 0) = ''tokio'' \<and> seg_ident (segments p ! 1) = ''test''"

text \<open>The rewrite sees the types of the parameters, the return type and the body.\<close>

definition arg_ast :: "fn_arg \<Rightarrow> ast" where
  "arg_ast a = (case a of ReceiverArg \<Rightarrow> Node [] | TypedRef m t \<Rightarrow> Node [t] | TypedOther t \<Rightarrow> t)"

definition set_arg_ast :: "fn_arg \<Rightarrow> ast \<Rightarrow> fn_arg" where
  "set_arg_ast a x =
     (case a of
        ReceiverArg \<Rightarrow> ReceiverArg
      | TypedRef m t \<Rightarrow> (case x of Node [t1] \<Rightarrow> TypedRef m t1 | _ \<Rightarrow> a)
      | TypedOther t \<Rightarrow> TypedOther x)"

definition verify_rewrite :: "bool \<Rightarrow> verify_fn \<Rightarrow> verify_fn" where
  "verify_rewrite tasks func =
     (let g = apply_model_rewrite_with_options tasks
        \<lparr>fn_name = vf_name func, fn_sig = map arg_ast (vf_inputs func) @ vf_output func, fn_stmts = vf_stmts func\<rparr>;
          n = length (vf_inputs func)
      in func\<lparr>vf_inputs := map2 set_arg_ast (vf_inputs func) (take n (fn_sig g)), vf_output := drop n (fn_sig g), vf_stmts := fn_stmts g\<rparr>)"

text \<open>Whether the only generic argument of \<open>Arc\<close> is a type is for the parser to say (\<open>is_type\<close>).\<close>

datatype StateSignature = SigReference ast | SigArc ast | SigNone

definition classify_state_type :: "(ast \<Rightarrow> bool) \<Rightarrow> fn_arg \<Rightarrow> StateSignature option" where
  "classify_state_type is_type a =
     (case a of
        TypedRef m t \<Rightarrow> Some (SigReference t)
      | TypedOther (TypePath qself p) \<Rightarrow>
          if segments p = [] then None
          else let seg = last (segments p) in
            if seg_ident seg \<noteq> ''Arc'' then None
            else (case seg_args seg of Args [inner] \<Rightarrow> if is_type inner then Some (SigArc inner) else None | _ \<Rightarrow> None)
      | _ \<Rightarrow> None)"

section \<open>The generated test\<close>

datatype verify_error = TestAttribute | AsyncComposition | TaskSignature | UnsupportedSignature | ScenarioSignature

datatype mode = ModeThreads usize | ModeScenario | ModeTasks

record harness =
  hn_test_fn :: string
  hn_func :: verify_fn
  hn_name :: "string option"
  hn_mode :: mode
  hn_state :: StateSignature
  hn_async :: bool
  hn_expected :: string
  hn_declared :: bool
  hn_determinism :: string
  hn_capture_mode :: string
  hn_write_ard :: bool
  hn_output_dir :: string
  hn_max_depth :: "usize option"

definition task_signature_ok :: "verify_fn \<Rightarrow> bool" where
  "task_signature_ok func \<longleftrightarrow> (case vf_inputs func of [TypedRef True t] \<Rightarrow> True | _ \<Rightarrow> False)"

definition laplace_verify_impl :: "(ast \<Rightarrow> bool) \<Rightarrow> VerifyArgs \<Rightarrow> verify_fn \<Rightarrow> verify_error + harness" where
  "laplace_verify_impl is_type args item =
     (if list_ex is_test_attribute (vf_attrs item) then Inl TestAttribute
      else
        let func = verify_rewrite (va_tasks args) item;
            h = (\<lambda>m state. \<lparr>hn_test_fn = ''__laplace_verify_'' @ vf_name func, hn_func = func, hn_name = va_name args, hn_mode = m,
              hn_state = state, hn_async = vf_async func,
              hn_expected = (case va_expected args of Some e \<Rightarrow> e | None \<Rightarrow> ''clean''), hn_declared = (va_expected args \<noteq> None),
              hn_determinism = va_determinism args, hn_capture_mode = (if va_scenario args then ''scenario'' else ''verify''),
              hn_write_ard = va_write_ard args, hn_output_dir = va_output_dir args, hn_max_depth = va_max_depth args\<rparr>)
        in if va_tasks args \<and> vf_async func then Inl AsyncComposition
           else if va_tasks args \<and> \<not> task_signature_ok func then Inl TaskSignature
           else
             (case (case vf_inputs func of [] \<Rightarrow> Some SigNone | [a] \<Rightarrow> classify_state_type is_type a | _ \<Rightarrow> None) of
                None \<Rightarrow> Inl UnsupportedSignature
              | Some state \<Rightarrow>
                  if va_tasks args then Inr (h ModeTasks state)
                  else if va_scenario args then (if state = SigNone then Inr (h ModeScenario state) else Inl ScenarioSignature)
                  else Inr (h (ModeThreads (the (va_threads args))) state)))"

section \<open>The event dump\<close>

text \<open>The file name of a target, and the envelope that is written; the files of the directory are a map. Writing needs the
  directory from the environment, and may fail without notice (\<open>io_ok\<close>).\<close>

fun replace_colons :: "string \<Rightarrow> string" where
  "replace_colons (a # b # xs) = (if a = CHR '':'' \<and> b = CHR '':'' then ''__'' @ replace_colons xs else a # replace_colons (b # xs))"
| "replace_colons [a] = [a]"
| "replace_colons [] = []"

record 'j envelope =
  en_schema_version :: string
  en_target :: string
  en_expected :: string
  en_determinism :: string
  en_capture_mode :: string
  en_events :: "'j ProbeEvent list"

type_synonym 'j files = "string \<times> string \<rightharpoonup> 'j envelope"

definition dump_events_with_mode ::
    "string option \<Rightarrow> bool \<Rightarrow> string \<Rightarrow> string \<Rightarrow> string \<Rightarrow> string \<Rightarrow> 'j ProbeEvent list \<Rightarrow> 'j files \<Rightarrow> 'j files" where
  "dump_events_with_mode events_dir io_ok target_name expected determinism capture_mode events fs =
     (case events_dir of
        None \<Rightarrow> fs
      | Some dir \<Rightarrow>
          if io_ok then fs((dir, replace_colons target_name @ ''.json'') \<mapsto>
            \<lparr>en_schema_version = ''2'', en_target = target_name, en_expected = expected, en_determinism = determinism,
              en_capture_mode = capture_mode, en_events = events\<rparr>)
          else fs)"

definition dump_events_if_configured ::
    "string option \<Rightarrow> bool \<Rightarrow> string \<Rightarrow> string \<Rightarrow> string \<Rightarrow> 'j ProbeEvent list \<Rightarrow> 'j files \<Rightarrow> 'j files" where
  "dump_events_if_configured events_dir io_ok target_name expected determinism events fs =
     dump_events_with_mode events_dir io_ok target_name expected determinism ''verify'' events fs"

section \<open>Running the test\<close>

text \<open>The environment of a test run: the module path of the test, the depths that the license and \<^verbatim>\<open>laplace.toml\<close> set, and the dump directory.\<close>

record test_env =
  te_module :: string
  te_license_depth :: "nat option"
  te_toml_depth :: "nat option"
  te_events_dir :: "string option"
  te_io_ok :: bool

datatype test_panic = VacuousVerdict | AssertFailed panic | UnsupportedExpectedValue | BodyPanicked

definition target_name_of :: "test_env \<Rightarrow> harness \<Rightarrow> string" where
  "target_name_of env h = (case hn_name h of Some n \<Rightarrow> n | None \<Rightarrow> te_module env @ ''::'' @ vf_name (hn_func h))"

definition harness_config :: "test_env \<Rightarrow> harness \<Rightarrow> ProbeSessionConfig" where
  "harness_config env h =
     (let d = ProbeSessionConfig_default (te_license_depth env) (te_toml_depth env)
      in d\<lparr>pc_write_ard := hn_write_ard h, pc_output_dir := hn_output_dir h,
           pc_max_depth := (case hn_max_depth h of Some md \<Rightarrow> unat md | None \<Rightarrow> pc_max_depth d)\<rparr>)"

definition reference_check :: "test_env \<Rightarrow> harness \<Rightarrow> 'j ProbeEvent list \<Rightarrow> test_panic + unit" where
  "reference_check env h events =
     (if events = [] then (if hn_declared h then Inl VacuousVerdict else Inr ())
      else
        let reference = run_verification_from events (target_name_of env h) (harness_config env h);
            check = (if hn_expected h = ''clean'' then map_sum AssertFailed id (assert_clean reference)
                     else if hn_expected h = ''bug'' then map_sum AssertFailed id (assert_bug reference)
                     else Inl UnsupportedExpectedValue)
        in check)"

definition verification_tail :: "test_env \<Rightarrow> harness \<Rightarrow> 'j ProbeEvent list \<Rightarrow> 'j files \<Rightarrow> (test_panic + unit) \<times> 'j files" where
  "verification_tail env h events fs =
     (case reference_check env h events of
        Inl p \<Rightarrow> (Inl p, fs)
      | Inr u \<Rightarrow> (Inr (), dump_events_with_mode (te_events_dir env) (te_io_ok env) (target_name_of env h) (hn_expected h)
          (hn_determinism h) (hn_capture_mode h) events fs))"

text \<open>The process: the hook registry, the probe and the files. The probe's hooks are one object here.\<close>

record 'j process =
  pr_rt :: rt
  pr_probe :: "'j probe"
  pr_files :: "'j files"

definition probe_hook :: hook where
  "probe_hook = 0"

definition hook_of :: "rt \<Rightarrow> HookCall \<Rightarrow> hook option" where
  "hook_of r c =
     (case c of
        LockEv _ \<Rightarrow> lock_hook r
      | TaskEv _ \<Rightarrow> task_observer_hook r
      | ALockEv _ \<Rightarrow> async_lock_hook r
      | ANotifyEv _ \<Rightarrow> async_notify_hook r
      | AChannelEv _ \<Rightarrow> async_channel_hook r
      | ABroadcastEv _ \<Rightarrow> async_broadcast_hook r
      | ACellEv _ \<Rightarrow> async_cell_hook r
      | ATimerEv _ \<Rightarrow> async_timer_hook r)"

text \<open>What a thread of the test does: call a seam of the runtime, or emit an event that carries the thread's id.\<close>

datatype 'j act = Seam os_thread HookCall | Direct os_thread "u64 \<Rightarrow> 'j ProbeEvent"

definition act_step :: "rt \<Rightarrow> 'j act \<Rightarrow> 'j probe \<Rightarrow> 'j probe" where
  "act_step r a s =
     (case a of
        Seam t c \<Rightarrow> if hook_of r c = Some probe_hook then probe_call t c s else s
      | Direct t f \<Rightarrow> emit_here t f s)"

definition harness_hooks :: "mode \<Rightarrow> rt \<Rightarrow> rt" where
  "harness_hooks m r =
     (case m of
        ModeThreads n \<Rightarrow> r
      | ModeScenario \<Rightarrow> install_probe_lock_hook probe_hook r
      | ModeTasks \<Rightarrow> install_probe_async_hooks probe_hook probe_hook probe_hook probe_hook probe_hook
          (install_probe_task_hook probe_hook (install_probe_lock_hook probe_hook r)))"

text \<open>In threads mode worker \<open>i\<close> gives itself the id \<open>i\<close> before its first action; otherwise the test's own thread takes id 0.\<close>

definition harness_ids :: "mode \<Rightarrow> os_thread \<Rightarrow> (nat \<Rightarrow> os_thread) \<Rightarrow> 'j probe \<Rightarrow> 'j probe" where
  "harness_ids m main worker s =
     (case m of
        ModeThreads n \<Rightarrow> fold (\<lambda>i. set_probe_thread_id (worker i) (of_nat i)) [0..<unat n] s
      | _ \<Rightarrow> set_probe_thread_id main 0 s)"

text \<open>How a piece of code ends: it returns, it panics, or it never comes back, as a body that deadlocks. Which of these the user's code does is not for
  the test to decide. The test joins its workers in the order of their index, and a panicked worker makes the join panic.\<close>

datatype ending = Returns | Panics | Hangs

fun join_endings :: "ending list \<Rightarrow> ending" where
  "join_endings [] = Returns"
| "join_endings (Returns # es) = join_endings es"
| "join_endings (Panics # es) = Panics"
| "join_endings (Hangs # es) = Hangs"

text \<open>\<open>own\<close> is the ending of what the test's own thread runs: the default value of the state in threads mode, the function in scenario mode, and the composition with
  the runner of its tasks in tasks mode. \<open>ends i\<close> is the ending of worker \<open>i\<close>.\<close>

definition body_ending :: "mode \<Rightarrow> ending \<Rightarrow> (nat \<Rightarrow> ending) \<Rightarrow> ending" where
  "body_ending m own ends = (case m of ModeThreads n \<Rightarrow> join_endings (own # map ends [0..<unat n]) | _ \<Rightarrow> own)"

text \<open>A test does not end (\<open>None\<close>) while another session runs or when its body does not come back. A panic of the body unwinds through the session. The actions
  are those until the session is finished or dropped.\<close>

definition run_test :: "test_env \<Rightarrow> harness \<Rightarrow> os_thread \<Rightarrow> (nat \<Rightarrow> os_thread) \<Rightarrow> 'j act list \<Rightarrow> ending \<Rightarrow> (nat \<Rightarrow> ending) \<Rightarrow> 'j process
    \<Rightarrow> ((test_panic + unit) \<times> 'j process) option" where
  "run_test env h main worker acts own ends s =
     (case CaptureSession_begin (pr_probe s) of
        None \<Rightarrow> None
      | Some (session, s1) \<Rightarrow>
          let r = harness_hooks (hn_mode h) (pr_rt s);
              s2 = fold (act_step r) acts (harness_ids (hn_mode h) main worker s1)
          in case body_ending (hn_mode h) own ends of
               Hangs \<Rightarrow> None
             | Panics \<Rightarrow> Some (Inl BodyPanicked, s\<lparr>pr_rt := r, pr_probe := CaptureSession_drop session s2\<rparr>)
             | Returns \<Rightarrow>
                 let (events, s3) = CaptureSession_finish session s2;
                     (result, fs) = verification_tail env h events (pr_files s)
                 in Some (result, s\<lparr>pr_rt := r, pr_probe := s3, pr_files := fs\<rparr>))"

section \<open>What the check says\<close>

text \<open>A trace has a conflict when it has two opposed edges.\<close>

definition conflict :: "'j ProbeEvent list \<Rightarrow> bool" where
  "conflict events \<longleftrightarrow> (\<exists>e\<in>edges_of events. \<exists>f\<in>edges_of events. opposed e f)"

lemma verdict_conflict: "vr_verdict (run_verification_from events target config) = Clean \<longleftrightarrow> \<not> conflict events"
  unfolding conflict_def by (rule verdict_clean_iff)

lemma reference_check_pass:
  "reference_check env h events = Inr () \<longleftrightarrow>
     (if events = [] then \<not> hn_declared h
      else if hn_expected h = ''clean'' then \<not> conflict events
      else hn_expected h = ''bug'' \<and> conflict events)"
  using verdict_conflict [of events "target_name_of env h" "harness_config env h"]
  by (cases "vr_verdict (run_verification_from events (target_name_of env h) (harness_config env h))")
    (auto simp: reference_check_def Let_def assert_clean_def assert_bug_def)

lemma verification_tail_result: "fst (verification_tail env h events fs) = reference_check env h events"
  by (simp add: verification_tail_def split: sum.splits)

lemma run_test_result:
  assumes "run_test env h main worker acts own ends s = Some (result, s')" "body_ending (hn_mode h) own ends = Returns"
    "CaptureSession_begin (pr_probe s) = Some (session, s1)"
  shows "result = reference_check env h (fst (CaptureSession_finish session
    (fold (act_step (harness_hooks (hn_mode h) (pr_rt s))) acts (harness_ids (hn_mode h) main worker s1))))"
proof -
  let ?s2 = "fold (act_step (harness_hooks (hn_mode h) (pr_rt s))) acts (harness_ids (hn_mode h) main worker s1)"
  obtain events s3 where fin: "CaptureSession_finish session ?s2 = (events, s3)" by fastforce
  have "result = fst (verification_tail env h events (pr_files s))"
    using assms fin by (auto simp: run_test_def Let_def split: prod.splits)
  with fin show ?thesis by (simp add: verification_tail_result)
qed

lemma run_test_total:
  assumes "\<not> CAPTURE_LOCK (pr_probe s)" "body_ending (hn_mode h) own ends = Returns"
  shows "\<exists>result s'. run_test env h main worker acts own ends s = Some (result, s')"
  using assms by (auto simp: run_test_def CaptureSession_begin_def Let_def split: prod.splits)

lemma run_test_panics:
  assumes "\<not> CAPTURE_LOCK (pr_probe s)" "body_ending (hn_mode h) own ends = Panics"
  shows "\<exists>s'. run_test env h main worker acts own ends s = Some (Inl BodyPanicked, s') \<and> pr_files s' = pr_files s
    \<and> \<not> CAPTURE_LOCK (pr_probe s') \<and> slot_sender (SESSION_SENDER (pr_probe s')) = None"
  using assms by (auto simp: run_test_def CaptureSession_begin_def CaptureSession_drop_def CaptureSession_tear_down_def slot_sender_def Let_def
      split: option.splits)

lemma run_test_hangs: "body_ending (hn_mode h) own ends = Hangs \<Longrightarrow> run_test env h main worker acts own ends s = None"
  by (simp add: run_test_def Let_def split: option.split prod.split)

lemma joined_iff:
  "join_endings es = Returns \<longleftrightarrow> (\<forall>i<length es. es ! i = Returns)"
  "join_endings es = Panics \<longleftrightarrow> (\<exists>i<length es. es ! i = Panics \<and> (\<forall>j<i. es ! j = Returns))"
  "join_endings es = Hangs \<longleftrightarrow> (\<exists>i<length es. es ! i = Hangs \<and> (\<forall>j<i. es ! j = Returns))"
  by (induction es rule: join_endings.induct) (simp_all add: All_less_Suc2 Ex_less_Suc2)

section \<open>Threads mode\<close>

text \<open>What the workers do, by their index: a call of a seam or an event of their own; and the events with the index as id.\<close>

type_synonym 'j script = "(nat \<times> (HookCall + (u64 \<Rightarrow> 'j ProbeEvent))) list"

definition acts_of :: "(nat \<Rightarrow> os_thread) \<Rightarrow> 'j script \<Rightarrow> 'j act list" where
  "acts_of worker script = map (\<lambda>(i, x). case x of Inl c \<Rightarrow> Seam (worker i) c | Inr f \<Rightarrow> Direct (worker i) f) script"

definition emitted :: "'j script \<Rightarrow> 'j ProbeEvent list" where
  "emitted script = concat (map (\<lambda>(i, x). case x of Inl c \<Rightarrow> [] | Inr f \<Rightarrow> [f (of_nat i)]) script)"

definition no_legacy :: "'j probe \<Rightarrow> bool" where
  "no_legacy s \<longleftrightarrow> (\<forall>t. PROBE_SENDER s t = None) \<and> slot_sender (GLOBAL_PROBE_SENDER s) = None"

definition unhooked :: "rt \<Rightarrow> bool" where
  "unhooked r \<longleftrightarrow> (\<forall>c. hook_of r c \<noteq> Some probe_hook)"

lemma begin_session:
  assumes "CaptureSession_begin s = Some (session, s1)" "no_legacy s"
  shows "session = \<lparr>cs_collector = Some (length (channels s))\<rparr>" "session_open (length (channels s)) s1" "no_legacy s1"
    "received (length (channels s)) s1 = []" "NEXT_IMPLICIT_THREAD_ID s1 = 0" "PROBE_THREAD_ID s1 = PROBE_THREAD_ID s"
  using assms by (auto simp: CaptureSession_begin_def Let_def no_legacy_def session_open_def legacy_apart_def slot_sender_def split: if_splits)

lemma finish_session:
  assumes "session = \<lparr>cs_collector = Some rx\<rparr>" "session_open rx s"
  shows "fst (CaptureSession_finish session s) = received rx s"
    "\<not> CAPTURE_LOCK (snd (CaptureSession_finish session s))" "slot_sender (SESSION_SENDER (snd (CaptureSession_finish session s))) = None"
  using assms by (auto simp: CaptureSession_finish_def CaptureSession_tear_down_def CaptureSession_drop_def Let_def session_open_def
      slot_sender_def split: option.splits)

lemma set_ids:
  assumes "inj_on worker {..<n}" "n < 2 ^ 64"
  shows "session_open rx (fold (\<lambda>i. set_probe_thread_id (worker i) (of_nat i)) [0..<n] s) = session_open rx s
    \<and> no_legacy (fold (\<lambda>i. set_probe_thread_id (worker i) (of_nat i)) [0..<n] s) = no_legacy s
    \<and> channels (fold (\<lambda>i. set_probe_thread_id (worker i) (of_nat i)) [0..<n] s) = channels s
    \<and> (\<forall>i<n. PROBE_THREAD_ID (fold (\<lambda>i. set_probe_thread_id (worker i) (of_nat i)) [0..<n] s) (worker i) = Some (of_nat i))"
  using assms
proof (induction n)
  case (Suc n)
  have inj: "inj_on worker {..<n}" using Suc.prems(1) by (rule inj_on_subset) auto
  have new: "worker i \<noteq> worker n" if "i < n" for i using inj_onD [OF Suc.prems(1), of i n] that by auto
  show ?case using Suc.IH [OF inj] Suc.prems(2) new
    by (auto simp: set_probe_thread_id_def session_open_def legacy_apart_def no_legacy_def less_Suc_eq)
qed simp

lemma workers_run:
  assumes "session_open rx s" "no_legacy s" "\<forall>i<n. PROBE_THREAD_ID s (worker i) = Some (of_nat i)" "unhooked r"
    and "\<forall>x\<in>set script. fst x < n"
  shows "session_open rx (fold (act_step r) (acts_of worker script) s)
    \<and> received rx (fold (act_step r) (acts_of worker script) s) = received rx s @ emitted script"
  using assms
proof (induction script arbitrary: s)
  case Nil
  then show ?case by (simp add: acts_of_def emitted_def)
next
  case (Cons a script)
  obtain i x where a: "a = (i, x)" by (cases a)
  show ?case
  proof (cases x)
    case (Inl c)
    with Cons a show ?thesis by (simp add: acts_of_def emitted_def act_step_def unhooked_def)
  next
    case (Inr f)
    let ?s = "emit (worker i) (f (of_nat i)) s"
    have "emit_here (worker i) f s = ?s"
      using Cons.prems(3,5) a by (simp add: emit_here_def current_thread_id_def)
    moreover have "session_open rx ?s" "no_legacy ?s" "\<forall>i<n. PROBE_THREAD_ID ?s (worker i) = Some (of_nat i)"
      using session_step [OF Cons.prems(1), of "ActEmit (worker i) (f (of_nat i))"] Cons.prems(2,3)
      by (simp_all add: no_legacy_def sends_to_def)
    moreover have "received rx ?s = received rx s @ [f (of_nat i)]"
      using emit_session [OF Cons.prems(1), of "worker i"] Cons.prems(2) by (simp add: no_legacy_def)
    ultimately show ?thesis using Cons.IH [of ?s] Cons.prems(4,5) a Inr
      by (simp add: acts_of_def emitted_def act_step_def)
  qed
qed

lemma accepted_harness:
  assumes "VerifyArgs_parse metas = Inr args" "laplace_verify_impl is_type args item = Inr h"
  shows "hn_expected h = or_else ''clean'' (va_expected args)" "hn_expected h \<in> {''clean'', ''bug''}"
    "hn_declared h = (va_expected args \<noteq> None)" "hn_determinism h = va_determinism args"
    "hn_mode h = (case va_threads args of Some n \<Rightarrow> ModeThreads n | None \<Rightarrow> if va_scenario args then ModeScenario else ModeTasks)"
    "hn_capture_mode h = (if va_scenario args then ''scenario'' else ''verify'')"
proof -
  obtain m state where h: "h = \<lparr>hn_test_fn = ''__laplace_verify_'' @ vf_name (verify_rewrite (va_tasks args) item),
      hn_func = verify_rewrite (va_tasks args) item, hn_name = va_name args, hn_mode = m,
      hn_state = state, hn_async = vf_async (verify_rewrite (va_tasks args) item),
      hn_expected = (case va_expected args of Some e \<Rightarrow> e | None \<Rightarrow> ''clean''), hn_declared = (va_expected args \<noteq> None),
      hn_determinism = va_determinism args, hn_capture_mode = (if va_scenario args then ''scenario'' else ''verify''),
      hn_write_ard = va_write_ard args, hn_output_dir = va_output_dir args, hn_max_depth = va_max_depth args\<rparr>"
    and m: "m = (if va_tasks args then ModeTasks else if va_scenario args then ModeScenario else ModeThreads (the (va_threads args)))"
    using assms(2) unfolding laplace_verify_impl_def Let_def by (fastforce split: if_splits option.splits)
  show "hn_expected h = or_else ''clean'' (va_expected args)" by (simp add: h or_else_def)
  then show "hn_expected h \<in> {''clean'', ''bug''}" using parsed_fields(2) [OF assms(1)] by simp
  show "hn_mode h = (case va_threads args of Some n \<Rightarrow> ModeThreads n | None \<Rightarrow> if va_scenario args then ModeScenario else ModeTasks)"
    using parsed_fields(1) [OF assms(1)] by (auto simp: h m split: option.splits)
  show "hn_declared h = (va_expected args \<noteq> None)" "hn_determinism h = va_determinism args"
    "hn_capture_mode h = (if va_scenario args then ''scenario'' else ''verify'')" by (simp_all add: h)
qed

text \<open>The outcome the expectation asks of a trace: an undeclared expectation is clean, and then an empty trace passes.\<close>

definition meets :: "string option \<Rightarrow> bool \<Rightarrow> bool \<Rightarrow> bool" where
  "meets expected silent conflicts \<longleftrightarrow> (if silent then expected = None else conflicts = (expected = Some ''bug''))"

lemma accepted_check:
  assumes "VerifyArgs_parse metas = Inr args" "laplace_verify_impl is_type args item = Inr h"
  shows "reference_check env h events = Inr () \<longleftrightarrow> meets (va_expected args) (events = []) (conflict events)"
    "events = [] \<Longrightarrow> va_expected args \<noteq> None \<Longrightarrow> reference_check env h events = Inl VacuousVerdict"
proof -
  note fields = accepted_harness [OF assms]
  show "reference_check env h events = Inr () \<longleftrightarrow> meets (va_expected args) (events = []) (conflict events)"
    using fields(2) unfolding reference_check_pass fields(1,3) meets_def
    by (cases "va_expected args") (auto simp: or_else_def)
  show "reference_check env h events = Inl VacuousVerdict" if "events = []" "va_expected args \<noteq> None"
    using that fields(3) by (simp add: reference_check_def)
qed

lemma threads_test_returns:
  assumes "VerifyArgs_parse metas = Inr args" "laplace_verify_impl is_type args item = Inr h" "va_threads args = Some n"
    and "inj_on worker {..<unat n}" "\<forall>x\<in>set script. fst x < unat n"
    and "\<not> CAPTURE_LOCK (pr_probe s)" "no_legacy (pr_probe s)" "unhooked (pr_rt s)" "body_ending (ModeThreads n) own ends = Returns"
  shows "\<exists>result s'. run_test env h main worker (acts_of worker script) own ends s = Some (result, s')
    \<and> (result = Inr () \<longleftrightarrow> meets (va_expected args) (emitted script = []) (conflict (emitted script)))
    \<and> pr_files s' = (if result = Inr () then dump_events_with_mode (te_events_dir env) (te_io_ok env) (target_name_of env h)
         (or_else ''clean'' (va_expected args)) (va_determinism args) ''verify'' (emitted script) (pr_files s) else pr_files s)
    \<and> \<not> CAPTURE_LOCK (pr_probe s') \<and> slot_sender (SESSION_SENDER (pr_probe s')) = None"
proof -
  note fields = accepted_harness [OF assms(1,2)]
  have mode: "hn_mode h = ModeThreads n" "\<not> va_scenario args" using fields(5) parsed_fields(1) [OF assms(1)] assms(3) by simp_all
  obtain session s1 where start: "CaptureSession_begin (pr_probe s) = Some (session, s1)"
    using assms(6) by (simp add: CaptureSession_begin_def Let_def)
  note opened = begin_session [OF start assms(7)]
  let ?rx = "length (channels (pr_probe s))" and ?s2 = "harness_ids (ModeThreads n) main worker s1"
  let ?s3 = "fold (act_step (pr_rt s)) (acts_of worker script) ?s2"
  have ids: "session_open ?rx ?s2" "no_legacy ?s2" "received ?rx ?s2 = []" "\<forall>i<unat n. PROBE_THREAD_ID ?s2 (worker i) = Some (of_nat i)"
    using set_ids [OF assms(4) unat_u64_bound, of ?rx s1] opened(2,3,4) by (simp_all add: harness_ids_def)
  have run: "session_open ?rx ?s3" "received ?rx ?s3 = emitted script"
    using workers_run [OF ids(1,2,4) assms(8,5)] ids(3) by simp_all
  obtain events s4 where fin: "CaptureSession_finish session ?s3 = (events, s4)" by fastforce
  have ended: "events = emitted script" "\<not> CAPTURE_LOCK s4" "slot_sender (SESSION_SENDER s4) = None"
    using finish_session [OF opened(1) run(1)] run(2) unfolding fin by simp_all
  obtain result fs where tail: "verification_tail env h events (pr_files s) = (result, fs)" by fastforce
  have result: "result = reference_check env h events" using verification_tail_result [of env h events "pr_files s"] tail by simp
  have "run_test env h main worker (acts_of worker script) own ends s = Some (result, s\<lparr>pr_rt := pr_rt s, pr_probe := s4, pr_files := fs\<rparr>)"
    using start fin tail assms(9) by (simp add: run_test_def mode harness_hooks_def)
  moreover have "fs = (if result = Inr () then dump_events_with_mode (te_events_dir env) (te_io_ok env) (target_name_of env h)
         (or_else ''clean'' (va_expected args)) (va_determinism args) ''verify'' (emitted script) (pr_files s) else pr_files s)"
    using tail mode(2) unfolding verification_tail_def fields(1,4,6) ended(1) by (auto split: sum.splits)
  moreover have "result = Inr () \<longleftrightarrow> meets (va_expected args) (emitted script = []) (conflict (emitted script))"
    unfolding result accepted_check(1) [OF assms(1,2)] ended(1) ..
  ultimately show ?thesis using ended(2,3) by simp
qed

lemma threads_ending:
  "body_ending (ModeThreads n) own ends = Returns \<longleftrightarrow> own = Returns \<and> (\<forall>i<unat n. ends i = Returns)"
  "body_ending (ModeThreads n) own ends = Panics \<longleftrightarrow> own = Panics \<or> own = Returns \<and> (\<exists>i<unat n. ends i = Panics \<and> (\<forall>j<i. ends j = Returns))"
  "body_ending (ModeThreads n) own ends = Hangs \<longleftrightarrow> own = Hangs \<or> own = Returns \<and> (\<exists>i<unat n. ends i = Hangs \<and> (\<forall>j<i. ends j = Returns))"
  by (cases own; auto simp: body_ending_def joined_iff)+

text \<open>(C3) A test in threads mode. Take any accepted attribute and function in threads mode, run in a process without older
  sinks and hooks, any interleaving of what its workers do, and any way in which its workers end. If making the state returns and every worker returns, the test ends, and
  it passes exactly when the events its workers emitted
  themselves meet the declared expectation: they are captured completely and in order, worker \<open>i\<close> under the id \<open>i\<close>; a conflict of lock orders
  among them is required for an expected bug and excluded otherwise; without events a declared expectation fails. Calls of hooked
  seams leave no event, since this mode installs no hook. A test that passes writes the envelope with
  exactly these events, one that fails writes nothing, and the next session can begin. If making the state panics, or the first worker (by index) that does not
  return panics, the test fails whatever was expected, writes nothing, and the next session can begin. If making the state never returns, or
  the first worker that does not return hangs, for example in the deadlock that a bug is expected to have, the test never ends.\<close>

theorem threads_test_exact:
  assumes "VerifyArgs_parse metas = Inr args" "laplace_verify_impl is_type args item = Inr h" "va_threads args = Some n"
    and "inj_on worker {..<unat n}" "\<forall>x\<in>set script. fst x < unat n"
    and "\<not> CAPTURE_LOCK (pr_probe s)" "no_legacy (pr_probe s)" "unhooked (pr_rt s)"
  shows "(own = Returns \<and> (\<forall>i<unat n. ends i = Returns) \<longrightarrow>
      (\<exists>result s'. run_test env h main worker (acts_of worker script) own ends s = Some (result, s')
        \<and> (result = Inr () \<longleftrightarrow> meets (va_expected args) (emitted script = []) (conflict (emitted script)))
        \<and> pr_files s' = (if result = Inr () then dump_events_with_mode (te_events_dir env) (te_io_ok env) (target_name_of env h)
             (or_else ''clean'' (va_expected args)) (va_determinism args) ''verify'' (emitted script) (pr_files s) else pr_files s)
        \<and> \<not> CAPTURE_LOCK (pr_probe s') \<and> slot_sender (SESSION_SENDER (pr_probe s')) = None))
    \<and> (own = Panics \<or> own = Returns \<and> (\<exists>i<unat n. ends i = Panics \<and> (\<forall>j<i. ends j = Returns)) \<longrightarrow>
      (\<exists>s'. run_test env h main worker (acts_of worker script) own ends s = Some (Inl BodyPanicked, s') \<and> pr_files s' = pr_files s
        \<and> \<not> CAPTURE_LOCK (pr_probe s') \<and> slot_sender (SESSION_SENDER (pr_probe s')) = None))
    \<and> (own = Hangs \<or> own = Returns \<and> (\<exists>i<unat n. ends i = Hangs \<and> (\<forall>j<i. ends j = Returns)) \<longrightarrow>
      run_test env h main worker (acts_of worker script) own ends s = None)"
proof -
  have mode: "hn_mode h = ModeThreads n" using accepted_harness(5) [OF assms(1,2)] assms(3) by simp
  show ?thesis unfolding threads_ending [symmetric]
    using threads_test_returns [OF assms] run_test_panics [OF assms(6), of h own ends] run_test_hangs [of h own ends] unfolding mode
    by (intro conjI impI) blast+
qed

section \<open>Scenario mode\<close>

lemma scenario_hooked: "hook_of (harness_hooks ModeScenario r) (LockEv c) = Some probe_hook"
  by (simp add: hook_of_def harness_hooks_def install_probe_lock_hook_def install_lock_hook_def lock_hook_def)

lemma seam_run:
  assumes "\<And>c. hook_of r (LockEv c) = Some probe_hook"
  shows "fold (act_step r) (map (\<lambda>(t, c). Seam t (LockEv c)) cs) s = probe_run (map (\<lambda>(t, c). (t, LockEv c)) cs) s"
proof (induction cs arbitrary: s)
  case (Cons a cs)
  obtain t c where "a = (t, c)" by (cases a)
  with Cons show ?case by (simp add: act_step_def assms)
qed simp

text \<open>The id of a thread that makes no call does not matter to the run.\<close>

lemma lock_call_id: "probe_call t (LockEv c) s = emit_here t (lock_probe_event c) s"
  by (simp add: probe_call_def ProbeLockHook_def)

lemma set_id_commutes:
  assumes "t \<noteq> main"
  shows "emit_here t f (set_probe_thread_id main i s) = set_probe_thread_id main i (emit_here t f s)"
proof -
  have emit: "emit t e (set_probe_thread_id main i s) = set_probe_thread_id main i (emit t e s)" for e s
    by (simp add: emit_def send_def set_probe_thread_id_def split: option.splits)
  show ?thesis
  proof (cases "PROBE_THREAD_ID s t")
    case None
    then have "current_thread_id t (set_probe_thread_id main i s)
        = (fst (current_thread_id t s), set_probe_thread_id main i (snd (current_thread_id t s)))"
      using assms by (simp add: current_thread_id_def set_probe_thread_id_def Let_def fun_upd_twist)
    then show ?thesis by (simp add: emit_here_def emit case_prod_unfold)
  next
    case (Some j)
    then have "current_thread_id t (set_probe_thread_id main i s) = (j, set_probe_thread_id main i s)" "current_thread_id t s = (j, s)"
      using assms by (simp_all add: current_thread_id_def set_probe_thread_id_def)
    then show ?thesis by (simp add: emit_here_def emit)
  qed
qed

lemma silent_main:
  assumes "\<forall>x\<in>set cs. fst x \<noteq> main"
  shows "probe_run (map (\<lambda>(t, c). (t, LockEv c)) cs) (set_probe_thread_id main i s)
    = set_probe_thread_id main i (probe_run (map (\<lambda>(t, c). (t, LockEv c)) cs) s)"
  using assms
proof (induction cs arbitrary: s)
  case (Cons a cs)
  obtain t c where "a = (t, c)" by (cases a)
  with Cons show ?case by (simp add: lock_call_id set_id_commutes)
qed simp

lemma only_main:
  assumes "\<forall>x\<in>set cs. fst x = main" "session_open rx s" "no_legacy s" "PROBE_THREAD_ID s main = Some i"
  shows "session_open rx (probe_run (map (\<lambda>(t, c). (t, LockEv c)) cs) s)
    \<and> received rx (probe_run (map (\<lambda>(t, c). (t, LockEv c)) cs) s) = received rx s @ lock_trace (\<lambda>_. i) cs"
  using assms
proof (induction cs arbitrary: s)
  case (Cons a cs)
  obtain c where a: "a = (main, c)" using Cons.prems(1) by (cases a) auto
  let ?s = "emit main (lock_probe_event c i) s"
  have "probe_call main (LockEv c) s = ?s"
    using Cons.prems(4) by (simp add: lock_call_id emit_here_def current_thread_id_def)
  moreover have "session_open rx ?s" "no_legacy ?s" "PROBE_THREAD_ID ?s main = Some i"
    using session_step [OF Cons.prems(2), of "ActEmit main (lock_probe_event c i)"] Cons.prems(3,4)
    by (simp_all add: no_legacy_def sends_to_def)
  moreover have "received rx ?s = received rx s @ [lock_probe_event c i]"
    using emit_session [OF Cons.prems(2), of main] Cons.prems(3) by (simp add: no_legacy_def)
  ultimately show ?case using Cons.IH [of ?s] Cons.prems(1) a by (simp add: lock_trace_def)
qed (simp add: lock_trace_def)

lemma finish_set_id:
  "CaptureSession_finish session (set_probe_thread_id t i s)
     = (fst (CaptureSession_finish session s), set_probe_thread_id t i (snd (CaptureSession_finish session s)))"
  by (simp add: CaptureSession_finish_def CaptureSession_tear_down_def CaptureSession_drop_def set_probe_thread_id_def Let_def split: option.splits)

lemma finish_released:
  "\<not> CAPTURE_LOCK (snd (CaptureSession_finish session s))" "slot_sender (SESSION_SENDER (snd (CaptureSession_finish session s))) = None"
  by (simp_all add: CaptureSession_finish_def CaptureSession_tear_down_def CaptureSession_drop_def slot_sender_def Let_def split: option.splits)

lemma fresh_no_legacy: "fresh_process s \<Longrightarrow> no_legacy s"
  by (simp add: fresh_process_def no_legacy_def)

lemma scenario_events:
  fixes s :: "'j probe"
  assumes start: "CaptureSession_begin s = Some (session, s1)" and fresh: "fresh_process s" and len: "length cs < 2 ^ 64"
    and "(\<forall>x\<in>set cs. fst x = main) \<or> (\<forall>x\<in>set cs. fst x \<noteq> main)"
  shows "\<exists>ids. inj_on ids (fst ` set cs)
    \<and> fst (CaptureSession_finish session (probe_run (map (\<lambda>(t, c). (t, LockEv c)) cs) (set_probe_thread_id main 0 s1))) = lock_trace ids cs"
  using assms(4)
proof
  assume main: "\<forall>x\<in>set cs. fst x = main"
  let ?s2 = "set_probe_thread_id main 0 s1" and ?rx = "length (channels s)"
  note opened = begin_session [OF start fresh_no_legacy [OF fresh]]
  have "session_open ?rx ?s2" "no_legacy ?s2" "PROBE_THREAD_ID ?s2 main = Some 0" "received ?rx ?s2 = []"
    using opened(2,3,4) by (simp_all add: set_probe_thread_id_def session_open_def legacy_apart_def no_legacy_def)
  from only_main [OF main this(1,2,3)] this(4)
  have run: "session_open ?rx (probe_run (map (\<lambda>(t, c). (t, LockEv c)) cs) ?s2)"
    "received ?rx (probe_run (map (\<lambda>(t, c). (t, LockEv c)) cs) ?s2) = lock_trace (\<lambda>_. 0) cs" by simp_all
  have "inj_on (\<lambda>_. 0 :: u64) (fst ` set cs)" using main by (auto intro!: inj_onI)
  then show ?thesis unfolding finish_session(1) [OF opened(1) run(1)] run(2) by (intro exI conjI) (assumption, rule refl)
next
  assume silent: "\<forall>x\<in>set cs. fst x \<noteq> main"
  let ?cs = "map (\<lambda>(t, c). (t, LockEv c)) cs"
  obtain events s2 where fin: "CaptureSession_finish session (probe_run ?cs s1) = (events, s2)" by fastforce
  have "\<forall>(t, c)\<in>set ?cs. projected c" by (auto simp: projected_def)
  from session_records [OF start fresh this _ fin] len obtain ids where
    ev: "events = map (\<lambda>(t, c). the (call_event c (ids t))) ?cs" and inj: "inj_on ids (fst ` set ?cs)" by auto
  have "events = lock_trace ids cs" by (simp add: ev lock_trace_def call_event_def case_prod_unfold)
  moreover have "fst ` set ?cs = fst ` set cs" by force
  ultimately show ?thesis using inj by (auto simp: silent_main [OF silent] finish_set_id fin)
qed

lemma scenario_mode:
  assumes "VerifyArgs_parse metas = Inr args" "laplace_verify_impl is_type args item = Inr h" "va_scenario args"
  shows "hn_mode h = ModeScenario"
  using accepted_harness(5) [OF assms(1,2)] parsed_fields(1) [OF assms(1)] assms(3) by (cases "va_threads args") simp_all

lemma scenario_test_returns:
  fixes s :: "'j process"
  assumes "VerifyArgs_parse metas = Inr args" "laplace_verify_impl is_type args item = Inr h" "va_scenario args"
    and "\<not> CAPTURE_LOCK (pr_probe s)" "fresh_process (pr_probe s)" "length cs < 2 ^ 64"
    and "(\<forall>x\<in>set cs. fst x = main) \<or> (\<forall>x\<in>set cs. fst x \<noteq> main)"
  shows "\<exists>result s'. run_test env h main worker (map (\<lambda>(t, c). Seam t (LockEv c)) cs) Returns ends s = Some (result, s')
    \<and> (result = Inr () \<longleftrightarrow> meets (va_expected args) (cs = []) (\<exists>a b. nested cs a b \<and> nested cs b a))
    \<and> \<not> CAPTURE_LOCK (pr_probe s') \<and> slot_sender (SESSION_SENDER (pr_probe s')) = None"
proof -
  let ?acts = "map (\<lambda>(t, c). Seam t (LockEv c)) cs :: 'j act list"
  note mode = scenario_mode [OF assms(1-3)]
  obtain session s1 where start: "CaptureSession_begin (pr_probe s) = Some (session, s1)"
    using assms(4) by (simp add: CaptureSession_begin_def Let_def)
  let ?r = "harness_hooks ModeScenario (pr_rt s)"
  let ?s3 = "fold (act_step ?r) ?acts (harness_ids ModeScenario main worker s1)"
  have s3: "?s3 = probe_run (map (\<lambda>(t, c). (t, LockEv c)) cs) (set_probe_thread_id main 0 s1)"
    unfolding seam_run [of ?r, OF scenario_hooked] by (simp add: harness_ids_def)
  from scenario_events [OF start assms(5,6,7)] obtain ids where
    ids: "inj_on ids (fst ` set cs)" "fst (CaptureSession_finish session ?s3) = lock_trace ids cs" unfolding s3 by blast
  obtain events s4 where fin: "CaptureSession_finish session ?s3 = (events, s4)" by fastforce
  obtain result fs where tail: "verification_tail env h events (pr_files s) = (result, fs)" by fastforce
  have result: "result = reference_check env h events" using verification_tail_result [of env h events "pr_files s"] tail by simp
  have "run_test env h main worker ?acts Returns ends s = Some (result, s\<lparr>pr_rt := ?r, pr_probe := s4, pr_files := fs\<rparr>)"
    using start fin tail by (simp add: run_test_def mode body_ending_def)
  moreover have events: "events = lock_trace ids cs" using ids(2) fin by simp
  have empty: "(events = []) = (cs = [])" by (simp add: events lock_trace_def)
  have "conflict events = (\<exists>a b. nested cs a b \<and> nested cs b a)"
    using lock_trace_verdict [OF ids(1), where 'j = 'j] verdict_conflict [of events] unfolding events by blast
  then have "result = Inr () \<longleftrightarrow> meets (va_expected args) (cs = []) (\<exists>a b. nested cs a b \<and> nested cs b a)"
    unfolding result accepted_check(1) [OF assms(1,2)] empty by simp
  moreover have "\<not> CAPTURE_LOCK s4" "slot_sender (SESSION_SENDER s4) = None" using finish_released [of session ?s3] fin by simp_all
  ultimately show ?thesis by simp
qed

text \<open>(C4) A test in scenario mode. Take any accepted attribute and function in scenario mode, run in a fresh process, and any interleaving of its mutex
  acquisitions and releases until it ends, where either only the test's own thread or only other threads use mutexes. If the function returns, the test ends, and it passes exactly when the
  declared expectation is met: an expected bug requires two mutexes that were nested in both orders, in terms of the program's own threads and locks,
  a clean expectation excludes them, and without any lock call only an undeclared expectation passes. If the function panics, the test fails whatever was
  expected and writes nothing. If it never returns, as a body does whose expected deadlock happens in this run, the test never ends: there is no verdict. In the first two cases the next session can begin.\<close>

theorem scenario_test_exact:
  fixes s :: "'j process"
  assumes "VerifyArgs_parse metas = Inr args" "laplace_verify_impl is_type args item = Inr h" "va_scenario args"
    and "\<not> CAPTURE_LOCK (pr_probe s)" "fresh_process (pr_probe s)" "length cs < 2 ^ 64"
    and "(\<forall>x\<in>set cs. fst x = main) \<or> (\<forall>x\<in>set cs. fst x \<noteq> main)"
  shows "(\<exists>result s'. run_test env h main worker (map (\<lambda>(t, c). Seam t (LockEv c)) cs) Returns ends s = Some (result, s')
        \<and> (result = Inr () \<longleftrightarrow> meets (va_expected args) (cs = []) (\<exists>a b. nested cs a b \<and> nested cs b a))
        \<and> \<not> CAPTURE_LOCK (pr_probe s') \<and> slot_sender (SESSION_SENDER (pr_probe s')) = None)
    \<and> (\<exists>s'. run_test env h main worker (map (\<lambda>(t, c). Seam t (LockEv c)) cs) Panics ends s = Some (Inl BodyPanicked, s')
        \<and> pr_files s' = pr_files s \<and> \<not> CAPTURE_LOCK (pr_probe s') \<and> slot_sender (SESSION_SENDER (pr_probe s')) = None)
    \<and> run_test env h main worker (map (\<lambda>(t, c). Seam t (LockEv c)) cs) Hangs ends s = None"
  using scenario_test_returns [OF assms] run_test_panics [OF assms(4), of h Panics] run_test_hangs [of h Hangs]
  by (simp add: scenario_mode [OF assms(1-3)] body_ending_def)

section \<open>Concrete tests\<close>

definition demo_item :: verify_fn where
  "demo_item = \<lparr>vf_attrs = [], vf_async = False, vf_name = ''f'', vf_inputs = [], vf_output = [], vf_stmts = []\<rparr>"

definition demo_env :: test_env where
  "demo_env = \<lparr>te_module = ''m'', te_license_depth = None, te_toml_depth = None, te_events_dir = None, te_io_ok = True\<rparr>"

definition demo_process :: "unit process" where
  "demo_process = \<lparr>pr_rt = rt_init, pr_probe = probe_init, pr_files = Map.empty\<rparr>"

definition demo_metas :: "lit \<Rightarrow> unit meta list" where
  "demo_metas l = [MetaNameValue (ident_path ''threads'') (Some l), MetaNameValue (ident_path ''expected'') (Some (LitStr ''bug''))]"

definition demo_scenario :: "unit meta list" where
  "demo_scenario = [MetaPath (ident_path ''scenario''), MetaNameValue (ident_path ''expected'') (Some (LitStr ''clean''))]"

lemma demo_accepted: "va_tasks args = False \<Longrightarrow> \<exists>h. laplace_verify_impl is_type args demo_item = Inr h"
  by (simp add: laplace_verify_impl_def demo_item_def verify_rewrite_def Let_def apply_model_rewrite_with_options_def
      apply_model_rewrite_with_base_aliases_def inject_unmodeled_markers_def ordered_primitives_def)

lemma demo_parsed:
  "\<exists>args. VerifyArgs_parse (demo_metas (LitInt 2)) = Inr args \<and> va_threads args = Some 2 \<and> va_tasks args = False \<and> va_expected args = Some ''bug''"
  "\<exists>args. VerifyArgs_parse demo_scenario = Inr args \<and> va_scenario args \<and> va_tasks args = False \<and> va_expected args = Some ''clean''"
  by (simp_all add: demo_metas_def demo_scenario_def VerifyArgs_parse_def verify_meta_def verify_key_def get_ident_def ident_path_def want_int_def
      want_str_def base10_parse_def verify_finish_def verify_vars_init_def)

lemma demo_start:
  "\<not> CAPTURE_LOCK (pr_probe demo_process)" "fresh_process (pr_probe demo_process)" "no_legacy (pr_probe demo_process)"
  "unhooked (pr_rt demo_process)"
  by (simp_all add: demo_process_def probe_init_def fresh_process_def no_legacy_def slot_sender_def unhooked_def hook_of_def rt_init_def
      lock_hook_def task_observer_hook_def async_lock_hook_def async_notify_hook_def async_channel_hook_def async_broadcast_hook_def
      async_cell_hook_def async_timer_hook_def split: HookCall.split)

text \<open>Workers 0 and 1 take tracked mutexes in opposite orders.\<close>

definition demo_script :: "unit script" where
  "demo_script = [(0, Inr (\<lambda>i. LockAcquired i ''a'')), (0, Inr (\<lambda>i. LockAcquired i ''b'')),
     (1, Inr (\<lambda>i. LockAcquired i ''b'')), (1, Inr (\<lambda>i. LockAcquired i ''a''))]"

lemma demo_conflict: "emitted demo_script \<noteq> [] \<and> conflict (emitted demo_script)"
proof -
  have "vr_verdict (run_verification_from (emitted demo_script) ''t'' undefined) \<noteq> Clean"
    by (simp add: emitted_def demo_script_def run_verification_from_def find_lock_order_cycle_def lock_event_def closes_cycle_def
        modes_conflict_def cycle_text_def)
  then show ?thesis unfolding verdict_conflict by (simp add: emitted_def demo_script_def)
qed

theorem threads_test_exact_witness:
  "\<exists>args h result s'. VerifyArgs_parse (demo_metas (LitInt 2)) = Inr args \<and> laplace_verify_impl (\<lambda>_. True) args demo_item = Inr h
     \<and> run_test demo_env h 9 id (acts_of id demo_script) Returns (\<lambda>_. Returns) demo_process = Some (result, s') \<and> result = Inr ()"
proof -
  obtain args where args: "VerifyArgs_parse (demo_metas (LitInt 2)) = Inr args" "va_threads args = Some 2" "va_tasks args = False"
    "va_expected args = Some ''bug''" using demo_parsed(1) by blast
  obtain h where h: "laplace_verify_impl (\<lambda>_. True) args demo_item = Inr h" using demo_accepted [OF args(3)] by blast
  have "\<forall>x\<in>set demo_script. fst x < unat (2 :: usize)" by (simp add: demo_script_def)
  from threads_test_exact [OF args(1) h args(2) _ this demo_start(1,3,4), where worker = id and env = demo_env and main = 9 and own = Returns and ends = "\<lambda>_. Returns"] demo_conflict args h
  show ?thesis by (auto simp: meets_def)
qed

text \<open>Threads 5 and 9 take two mutexes in the same order.\<close>

theorem scenario_test_exact_witness:
  "\<exists>args h result s'. VerifyArgs_parse demo_scenario = Inr args \<and> laplace_verify_impl (\<lambda>_. True) args demo_item = Inr h
     \<and> run_test demo_env h 0 id (map (\<lambda>(t, c). Seam t (LockEv c)) [(5, lock_acquire 1), (5, lock_acquire 2)]) Returns (\<lambda>_. Returns) demo_process
       = Some (result, s') \<and> result = Inr ()"
proof -
  let ?cs = "[(5, lock_acquire 1), (5, lock_acquire 2)] :: (os_thread \<times> LockCall) list"
  obtain args where args: "VerifyArgs_parse demo_scenario = Inr args" "va_scenario args" "va_tasks args = False"
    "va_expected args = Some ''clean''" using demo_parsed(2) by blast
  obtain h where h: "laplace_verify_impl (\<lambda>_. True) args demo_item = Inr h" using demo_accepted [OF args(3)] by blast
  have "\<not> (\<exists>a b. nested ?cs a b \<and> nested ?cs b a)"
    by (auto simp: nested_def calls_hold_def Cons_eq_append_conv)
  with scenario_test_exact [OF args(1) h args(2) demo_start(1,2), where cs = ?cs and main = 0 and env = demo_env and worker = id and ends = "\<lambda>_. Returns"] args h
  show ?thesis by (auto simp: meets_def)
qed

section \<open>Limits\<close>

text \<open>Calls of seams alone leave a threads-mode test without events, whatever their lock orders: with no declared expectation it passes.\<close>

lemma threads_mode_blind: "\<forall>x\<in>set script. isl (snd x) \<Longrightarrow> emitted script = []"
  by (force simp: emitted_def split: sum.splits)

text \<open>No mode removes its hooks. After a scenario test the lock hook stays installed, so a later test in threads mode records the
  calls it would not have recorded before.\<close>

lemma hooks_stay:
  "run_test env h main worker acts own ends s = Some (result, s') \<Longrightarrow> hn_mode h = ModeScenario \<Longrightarrow> lock_hook (pr_rt s') = Some probe_hook"
  by (auto simp: run_test_def harness_hooks_def install_probe_lock_hook_def install_lock_hook_def lock_hook_def Let_def
      split: option.splits ending.splits prod.splits)

text \<open>The test's own thread has id 0 and so has the first other thread that makes a call. Here thread 0 holds only mutex 1 and thread 5 only
  mutex 2, no mutex is nested in another, and the clean test fails.\<close>

lemma scenario_child_aliases_main:
  "let cs = [(0, lock_acquire 1), (5, lock_acquire 2), (0, lock_release 1), (0, lock_acquire 1)] in
   \<exists>args h result s'. VerifyArgs_parse demo_scenario = Inr args \<and> laplace_verify_impl (\<lambda>_. True) args demo_item = Inr h
     \<and> run_test demo_env h 0 id (map (\<lambda>(t, c). Seam t (LockEv c)) cs) Returns (\<lambda>_. Returns) demo_process = Some (result, s') \<and> result \<noteq> Inr ()
     \<and> \<not> (\<exists>a b. nested cs a b)"
proof -
  let ?cs = "[(0, lock_acquire 1), (5, lock_acquire 2), (0, lock_release 1), (0, lock_acquire 1)] :: (os_thread \<times> LockCall) list"
  obtain args where args: "VerifyArgs_parse demo_scenario = Inr args" "va_scenario args" "va_tasks args = False"
    "va_expected args = Some ''clean''" using demo_parsed(2) by blast
  obtain h where h: "laplace_verify_impl (\<lambda>_. True) args demo_item = Inr h" using demo_accepted [OF args(3)] by blast
  have mode: "hn_mode h = ModeScenario"
    using accepted_harness(5) [OF args(1) h] parsed_fields(1) [OF args(1)] args(2) by (cases "va_threads args") simp_all
  obtain session s1 where start: "CaptureSession_begin (pr_probe demo_process) = Some (session, s1)"
    by (simp add: demo_process_def CaptureSession_begin_def probe_init_def Let_def)
  obtain result s' where run: "run_test demo_env h 0 id (map (\<lambda>(t, c). Seam t (LockEv c)) ?cs) Returns (\<lambda>_. Returns) demo_process = Some (result, s')"
    using run_test_total [OF demo_start(1), of h Returns] mode unfolding body_ending_def by fastforce
  let ?s3 = "probe_run (map (\<lambda>(t, c). (t, LockEv c)) ?cs) (set_probe_thread_id 0 0 s1)"
  have "fst (CaptureSession_finish session ?s3) = lock_trace (\<lambda>_. 0) ?cs"
    using start by (auto simp: demo_process_def CaptureSession_begin_def probe_init_def set_probe_thread_id_def lock_call_id emit_here_def
        current_thread_id_def emit_def send_def slot_sender_def CaptureSession_finish_def CaptureSession_tear_down_def lock_trace_def Let_def)
  then have result: "result = reference_check demo_env h (lock_trace (\<lambda>_. 0) ?cs :: unit ProbeEvent list)"
    using run_test_result [OF run _ start] unfolding body_ending_def mode seam_run [of "harness_hooks ModeScenario r" for r, OF scenario_hooked]
    by (simp add: harness_ids_def)
  have "vr_verdict (run_verification_from (lock_trace (\<lambda>_. 0) ?cs :: unit ProbeEvent list) ''t'' undefined) \<noteq> Clean"
    by (simp add: lock_trace_def lock_probe_event_def run_verification_from_def find_lock_order_cycle_def lock_event_def closes_cycle_def
        modes_conflict_def cycle_text_def)
  then have "conflict (lock_trace (\<lambda>_. 0) ?cs :: unit ProbeEvent list)" unfolding verdict_conflict by simp
  then have "result \<noteq> Inr ()"
    unfolding result accepted_check(1) [OF args(1) h] meets_def args(4) by (simp add: lock_trace_def)
  moreover have "\<not> (\<exists>a b. nested ?cs a b)" by (auto simp: nested_def calls_hold_def Cons_eq_append_conv)
  ultimately show ?thesis using args h run unfolding Let_def by blast
qed

text \<open>Different targets can have the same file name, and the later dump replaces the earlier.\<close>

lemma dump_names_collide: "replace_colons ''a::b'' = replace_colons ''a__b''"
  by simp

end
