(* ===== verification/LegacyHarness.thy ===== *)
theory LegacyHarness
  imports VerifyHarness
begin

text \<open>
  The two older attributes of \<^verbatim>\<open>laplace-macro\<close>, \<open>axiom_target\<close> (\<^verbatim>\<open>target.rs\<close>) and \<open>laplace_byoc_test\<close> (\<^verbatim>\<open>byoc_test.rs\<close>), and
  how the tests they generate end. Both collect events over a bounded channel that is read only after the threads ran. The generated main thread is a
  list of instructions; a worker registers a clone of the sender for its thread and in the process-wide slot and runs its body, which is a parameter. The harness is
  alone in its process, and a body does not emit from threads of its own.
\<close>

section \<open>Expansion\<close>

record target_harness =
  th_test_fn :: string
  th_func :: verify_fn
  th_threads :: usize
  th_target :: string
  th_state :: "ast option"
  th_write_ard :: bool
  th_output_dir :: string

text \<open>The type inside the \<open>Arc\<close> of the first parameter; without it the generated test is a compile error.\<close>

definition target_state_type :: "(ast \<Rightarrow> bool) \<Rightarrow> fn_arg list \<Rightarrow> ast option" where
  "target_state_type is_type inputs =
     (case inputs of
        TypedOther (TypePath qself p) # _ \<Rightarrow>
          if segments p \<noteq> [] \<and> seg_ident (last (segments p)) = ''Arc'' then
            (case seg_args (last (segments p)) of Args (inner # _) \<Rightarrow> if is_type inner then Some inner else None | _ \<Rightarrow> None)
          else None
      | _ \<Rightarrow> None)"

definition axiom_target_impl :: "(ast \<Rightarrow> bool) \<Rightarrow> AxiomTargetArgs \<Rightarrow> verify_fn \<Rightarrow> target_harness" where
  "axiom_target_impl is_type args func =
     \<lparr>th_test_fn = ''__laplace_axiom_'' @ vf_name func, th_func = func, th_threads = ta_threads args,
       th_target = (case ta_name args of Some n \<Rightarrow> n | None \<Rightarrow> vf_name func),
       th_state = target_state_type is_type (vf_inputs func), th_write_ard = ta_write_ard args, th_output_dir = ta_output_dir args\<rparr>"

datatype byoc_error = ByocAsync | ByocParameters | ByocReturns

record byoc_harness =
  bh_test_fn :: string
  bh_body :: "ast list"
  bh_target :: string
  bh_expected :: string
  bh_write_ard :: bool
  bh_output_dir :: "string option"
  bh_buffer :: usize
  bh_max_depth :: "usize option"
  bh_lock_events_only :: bool

definition laplace_byoc_test_impl :: "ByocTestArgs \<Rightarrow> verify_fn \<Rightarrow> byoc_error + byoc_harness" where
  "laplace_byoc_test_impl args func =
     (if vf_async func then Inl ByocAsync
      else if vf_inputs func \<noteq> [] then Inl ByocParameters
      else if vf_output func \<noteq> [] then Inl ByocReturns
      else Inr \<lparr>bh_test_fn = vf_name func, bh_body = vf_stmts func,
        bh_target = (case ba_name args of Some n \<Rightarrow> n | None \<Rightarrow> vf_name func), bh_expected = ba_expected args,
        bh_write_ard = ba_write_ard args, bh_output_dir = ba_output_dir args, bh_buffer = ba_buffer args, bh_max_depth = ba_max_depth args,
        bh_lock_events_only = ba_lock_events_only args\<rparr>)"

text \<open>What a byoc test does with the collected events: the filter, and a warning when nothing is left.\<close>

definition byoc_events :: "byoc_harness \<Rightarrow> 'j ProbeEvent list \<Rightarrow> 'j ProbeEvent list" where
  "byoc_events h events =
     (if bh_lock_events_only h
      then filter (\<lambda>e. case e of LockAcquired _ _ \<Rightarrow> True | LockReleased _ _ \<Rightarrow> True | _ \<Rightarrow> False) events else events)"

section \<open>The generated tests as programs\<close>

datatype main_op = DropTx | Join nat | ClearSlot | CollectAll

definition target_main :: "nat \<Rightarrow> main_op list" where
  "target_main n = DropTx # map Join [0..<n] @ [ClearSlot, CollectAll]"

text \<open>The body of a byoc test joins the threads it cares to join.\<close>

definition byoc_main :: "nat list \<Rightarrow> main_op list" where
  "byoc_main js = map Join js @ [DropTx, CollectAll]"

text \<open>What the body of a worker does is a parameter: a relation between the state that the workers share, the worker's own state, an action and the states after it. So a body may
  compute, take locks, wait for as long as the shared state keeps it from going on, emit, return and panic.\<close>

datatype 'e body_act = Silent | Emits 'e | ReturnsNow | PanicsNow

type_synonym ('c, 'l, 'e) body = "'c \<Rightarrow> 'l \<Rightarrow> 'e body_act \<Rightarrow> 'c \<Rightarrow> 'l \<Rightarrow> bool"

datatype 'l worker = Spawned 'l | Running 'l | Exited | Panicked

text \<open>The log of the emitted events is kept for the statements.\<close>

record ('c, 'l, 'e) legacy =
  lg_shared :: 'c
  lg_channel :: "(nat \<times> 'e) list"
  lg_workers :: "'l worker list"
  lg_main_tx :: bool
  lg_slot :: bool
  lg_ops :: "main_op list"
  lg_failed :: bool
  lg_collected :: "(nat \<times> 'e) list"
  lg_emitted :: "(nat \<times> 'e) list"

definition legacy_init :: "main_op list \<Rightarrow> 'c \<Rightarrow> 'l list \<Rightarrow> ('c, 'l, 'e) legacy" where
  "legacy_init ops c ls = \<lparr>lg_shared = c, lg_channel = [], lg_workers = map Spawned ls, lg_main_tx = True, lg_slot = False, lg_ops = ops, lg_failed = False,
     lg_collected = [], lg_emitted = []\<rparr>"

fun over :: "'l worker \<Rightarrow> bool" where
  "over Exited = True"
| "over Panicked = True"
| "over w = False"

definition sender_lives :: "('c, 'l, 'e) legacy \<Rightarrow> bool" where
  "sender_lives s \<longleftrightarrow> lg_main_tx s \<or> lg_slot s \<or> list_ex (\<lambda>w. \<not> over w) (lg_workers s)"

text \<open>A send waits while the channel is full, and with capacity 0 until it is received. Joining a panicked worker makes the main thread panic, which ends the test. Nothing matters
  after the end of the test.\<close>

inductive legacy_step :: "('c, 'l, 'e) body \<Rightarrow> nat \<Rightarrow> ('c, 'l, 'e) legacy \<Rightarrow> ('c, 'l, 'e) legacy \<Rightarrow> bool" for body cap where
  register: "legacy_step body cap s (s\<lparr>lg_workers := (lg_workers s)[i := Running l], lg_slot := True\<rparr>)"
    if "lg_ops s \<noteq> []" "i < length (lg_workers s)" "lg_workers s ! i = Spawned l"
| silent: "legacy_step body cap s (s\<lparr>lg_workers := (lg_workers s)[i := Running l'], lg_shared := c'\<rparr>)"
    if "lg_ops s \<noteq> []" "i < length (lg_workers s)" "lg_workers s ! i = Running l" "body (lg_shared s) l Silent c' l'"
| emits: "legacy_step body cap s (s\<lparr>lg_workers := (lg_workers s)[i := Running l'], lg_shared := c', lg_channel := lg_channel s @ [(i, e)], lg_emitted := lg_emitted s @ [(i, e)]\<rparr>)"
    if "lg_ops s \<noteq> []" "i < length (lg_workers s)" "lg_workers s ! i = Running l" "body (lg_shared s) l (Emits e) c' l'" "length (lg_channel s) < cap"
| handoff: "legacy_step body cap s (s\<lparr>lg_workers := (lg_workers s)[i := Running l'], lg_shared := c', lg_collected := lg_collected s @ [(i, e)], lg_emitted := lg_emitted s @ [(i, e)]\<rparr>)"
    if "lg_ops s = CollectAll # ops" "i < length (lg_workers s)" "lg_workers s ! i = Running l" "body (lg_shared s) l (Emits e) c' l'" "cap = 0"
| exits: "legacy_step body cap s (s\<lparr>lg_workers := (lg_workers s)[i := Exited], lg_shared := c'\<rparr>)"
    if "lg_ops s \<noteq> []" "i < length (lg_workers s)" "lg_workers s ! i = Running l" "body (lg_shared s) l ReturnsNow c' l'"
| dies: "legacy_step body cap s (s\<lparr>lg_workers := (lg_workers s)[i := Panicked], lg_shared := c'\<rparr>)"
    if "lg_ops s \<noteq> []" "i < length (lg_workers s)" "lg_workers s ! i = Running l" "body (lg_shared s) l PanicsNow c' l'"
| drops: "legacy_step body cap s (s\<lparr>lg_main_tx := False, lg_ops := ops\<rparr>)" if "lg_ops s = DropTx # ops"
| joins: "legacy_step body cap s (s\<lparr>lg_ops := ops\<rparr>)" if "lg_ops s = Join i # ops" "i < length (lg_workers s)" "lg_workers s ! i = Exited"
| join_fails: "legacy_step body cap s (s\<lparr>lg_ops := [], lg_failed := True\<rparr>)" if "lg_ops s = Join i # ops" "i < length (lg_workers s)" "lg_workers s ! i = Panicked"
| clears: "legacy_step body cap s (s\<lparr>lg_slot := False, lg_ops := ops\<rparr>)" if "lg_ops s = ClearSlot # ops"
| receives: "legacy_step body cap s (s\<lparr>lg_channel := xs, lg_collected := lg_collected s @ [x]\<rparr>)" if "lg_ops s = CollectAll # ops" "lg_channel s = x # xs"
| collected: "legacy_step body cap s (s\<lparr>lg_ops := ops\<rparr>)" if "lg_ops s = CollectAll # ops" "lg_channel s = []" "\<not> sender_lives s"

section \<open>Bodies that terminate\<close>

fun todo :: "('l \<Rightarrow> nat) \<Rightarrow> 'l worker \<Rightarrow> nat" where
  "todo rank (Spawned l) = 2 * rank l + 2"
| "todo rank (Running l) = 2 * rank l + 1"
| "todo rank w = 0"

definition work :: "('l \<Rightarrow> nat) \<Rightarrow> ('c, 'l, 'e) legacy \<Rightarrow> nat" where
  "work rank s = sum_list (map (todo rank) (lg_workers s)) + length (lg_channel s) + length (lg_ops s)"

text \<open>Every action of a body brings the worker closer to its end.\<close>

definition terminating :: "('l \<Rightarrow> nat) \<Rightarrow> ('c, 'l, 'e) body \<Rightarrow> bool" where
  "terminating rank body \<longleftrightarrow> (\<forall>c l a c' l'. body c l a c' l' \<and> a \<noteq> ReturnsNow \<and> a \<noteq> PanicsNow \<longrightarrow> rank l' < rank l)"

lemma terminatingD:
  assumes "terminating rank body"
  shows "body c l Silent c' l' \<Longrightarrow> rank l' < rank l" "body c l (Emits e) c' l' \<Longrightarrow> rank l' < rank l"
  using assms unfolding terminating_def by (metis body_act.distinct)+

lemma sum_update: "i < length xs \<Longrightarrow> sum_list (map f (xs[i := y])) + f (xs ! i) = sum_list (map f xs) + (f y :: nat)"
  by (induction xs arbitrary: i) (auto split: nat.splits)

lemma work_update:
  assumes "i < length (lg_workers s)" "todo rank w + n < todo rank (lg_workers s ! i)"
  shows "sum_list (map (todo rank) ((lg_workers s)[i := w])) + n < sum_list (map (todo rank) (lg_workers s))"
  using sum_update [OF assms(1), of "todo rank" w] assms(2) by simp

lemma work_decreases:
  assumes "terminating rank body" "legacy_step body cap s s'"
  shows "work rank s' < work rank s"
  using assms(2)
proof cases
  case (register i l)
  then show ?thesis using work_update [of i s rank "Running l" 0] by (simp add: work_def)
next
  case (silent i l c' l')
  then have "rank l' < rank l" using terminatingD [OF assms(1)] by blast
  with silent show ?thesis using work_update [of i s rank "Running l'" 0] by (simp add: work_def)
next
  case (emits i l e c' l')
  then have "rank l' < rank l" using terminatingD [OF assms(1)] by blast
  with emits show ?thesis using work_update [of i s rank "Running l'" 1] by (simp add: work_def)
next
  case (handoff ops i l e c' l')
  then have "rank l' < rank l" using terminatingD [OF assms(1)] by blast
  with handoff show ?thesis using work_update [of i s rank "Running l'" 0] by (simp add: work_def)
next
  case (exits i l c' l')
  then show ?thesis using work_update [of i s rank Exited 0] by (simp add: work_def)
next
  case (dies i l c' l')
  then show ?thesis using work_update [of i s rank Panicked 0] by (simp add: work_def)
qed (simp_all add: work_def)

lemma run_length: "terminating rank body \<Longrightarrow> (legacy_step body cap ^^ k) s s' \<Longrightarrow> k + work rank s' \<le> work rank s"
proof (induction k arbitrary: s')
  case (Suc k)
  then obtain u where "(legacy_step body cap ^^ k) s u" "legacy_step body cap u s'" by auto
  with Suc work_decreases show ?case by fastforce
qed simp

section \<open>How an axiom-target test ends\<close>

text \<open>Everything emitted is collected or in the channel, in the order of emission, and the channel keeps its bound.\<close>

definition accounted :: "nat \<Rightarrow> nat \<Rightarrow> ('c, 'l, 'e) legacy \<Rightarrow> bool" where
  "accounted cap n s \<longleftrightarrow> length (lg_workers s) = n \<and> length (lg_channel s) \<le> cap \<and> lg_emitted s = lg_collected s @ lg_channel s"

lemma accounted_step: "legacy_step body cap s s' \<Longrightarrow> accounted cap n s \<Longrightarrow> accounted cap n s'"
  by (induction rule: legacy_step.induct) (auto simp: accounted_def)

text \<open>The phases of the main thread: before and between the joins, after them, and failed. It collects only when all workers have exited and the
  slot is clear; until then everything emitted is in the channel.\<close>

abbreviation joins_from :: "nat \<Rightarrow> nat \<Rightarrow> main_op list" where
  "joins_from k n \<equiv> map Join [k..<n] @ [ClearSlot, CollectAll]"

definition waiting :: "nat \<Rightarrow> ('c, 'l, 'e) legacy \<Rightarrow> bool" where
  "waiting n s \<longleftrightarrow> lg_collected s = [] \<and> \<not> lg_failed s \<and> (lg_ops s = target_main n
     \<or> (\<exists>k\<le>n. lg_ops s = joins_from k n \<and> \<not> lg_main_tx s \<and> (\<forall>i<k. lg_workers s ! i = Exited)))"

definition closing :: "nat \<Rightarrow> ('c, 'l, 'e) legacy \<Rightarrow> bool" where
  "closing cap s \<longleftrightarrow> (lg_ops s = [CollectAll] \<or> lg_ops s = [] \<and> lg_channel s = []) \<and> \<not> sender_lives s \<and> \<not> lg_failed s
     \<and> (\<forall>w\<in>set (lg_workers s). w = Exited) \<and> length (lg_emitted s) \<le> cap"

definition broken :: "('c, 'l, 'e) legacy \<Rightarrow> bool" where
  "broken s \<longleftrightarrow> lg_ops s = [] \<and> lg_failed s \<and> (\<exists>i<length (lg_workers s). lg_workers s ! i = Panicked \<and> (\<forall>j<i. lg_workers s ! j = Exited))"

definition target_inv :: "nat \<Rightarrow> nat \<Rightarrow> ('c, 'l, 'e) legacy \<Rightarrow> bool" where
  "target_inv cap n s \<longleftrightarrow> accounted cap n s \<and> (waiting n s \<or> closing cap s \<or> broken s)"

lemma join_head: "joins_from k n = Join i # ops \<longleftrightarrow> k < n \<and> i = k \<and> ops = joins_from (Suc k) n"
  by (cases "k < n") (auto simp: upt_conv_Cons)

lemma clear_head: "joins_from k n = ClearSlot # ops \<longleftrightarrow> n \<le> k \<and> ops = [CollectAll]"
  by (cases "k < n") (auto simp: upt_conv_Cons)

lemma other_heads: "joins_from k n \<noteq> DropTx # ops" "joins_from k n \<noteq> CollectAll # ops" "joins_from k n \<noteq> []"
  by (cases "k < n"; simp add: upt_conv_Cons)+

lemma waiting_ops: "waiting n s \<Longrightarrow> lg_ops s \<noteq> CollectAll # ops \<and> lg_ops s \<noteq> []"
  using other_heads [of _ n] unfolding waiting_def target_main_def by (metis list.distinct(1) list.inject main_op.distinct)

lemma waiting_join:
  assumes "waiting n s" "lg_ops s = Join i # ops"
  shows "i < n" "ops = joins_from (Suc i) n" "\<not> lg_main_tx s" "\<forall>j<i. lg_workers s ! j = Exited" "lg_collected s = []" "\<not> lg_failed s"
proof -
  obtain k where k: "lg_ops s = joins_from k n" "\<not> lg_main_tx s" "\<forall>i<k. lg_workers s ! i = Exited"
    using assms unfolding waiting_def target_main_def by auto
  then have "k < n \<and> i = k \<and> ops = joins_from (Suc k) n" using assms(2) join_head by metis
  with k(2,3) show "i < n" "ops = joins_from (Suc i) n" "\<not> lg_main_tx s" "\<forall>j<i. lg_workers s ! j = Exited" by auto
  show "lg_collected s = []" "\<not> lg_failed s" using assms(1) by (simp_all add: waiting_def)
qed

lemma waiting_clear:
  assumes "waiting n s" "lg_ops s = ClearSlot # ops"
  shows "ops = [CollectAll]" "\<not> lg_main_tx s" "\<forall>i<n. lg_workers s ! i = Exited" "lg_collected s = []" "\<not> lg_failed s"
proof -
  obtain k where k: "lg_ops s = joins_from k n" "\<not> lg_main_tx s" "\<forall>i<k. lg_workers s ! i = Exited"
    using assms unfolding waiting_def target_main_def by auto
  then have "n \<le> k \<and> ops = [CollectAll]" using assms(2) clear_head by metis
  with k(2,3) show "ops = [CollectAll]" "\<not> lg_main_tx s" "\<forall>i<n. lg_workers s ! i = Exited" by auto
  show "lg_collected s = []" "\<not> lg_failed s" using assms(1) by (simp_all add: waiting_def)
qed

lemma waiting_worker:
  assumes "waiting n s" "lg_workers s ! i \<noteq> Exited" "lg_ops t = lg_ops s" "lg_workers t = (lg_workers s)[i := w]" "lg_main_tx t = lg_main_tx s"
    "lg_collected t = lg_collected s" "lg_failed t = lg_failed s"
  shows "waiting n t"
proof -
  have "\<forall>j<k. lg_workers t ! j = Exited" if "\<forall>j<k. lg_workers s ! j = Exited" for k
    using that assms(2,4) by (metis nth_list_update_neq)
  with assms(1,3,5-7) show ?thesis unfolding waiting_def by metis
qed

lemma waiting_step:
  assumes "legacy_step body cap s s'" "waiting n s" "accounted cap n s"
  shows "waiting n s' \<or> closing cap s' \<or> broken s'"
  using assms(1)
proof cases
  case (register i l)
  then show ?thesis using waiting_worker [OF assms(2), of i s' "Running l"] by simp
next
  case (silent i l c' l')
  then show ?thesis using waiting_worker [OF assms(2), of i s' "Running l'"] by simp
next
  case (emits i l e c' l')
  then show ?thesis using waiting_worker [OF assms(2), of i s' "Running l'"] by simp
next
  case (exits i l c' l')
  then show ?thesis using waiting_worker [OF assms(2), of i s' Exited] by simp
next
  case (dies i l c' l')
  then show ?thesis using waiting_worker [OF assms(2), of i s' Panicked] by simp
next
  case (drops ops)
  then have "ops = joins_from 0 n" using assms(2) other_heads(1) [of _ n] unfolding waiting_def target_main_def by (metis list.inject)
  with drops assms(2) have "waiting n s'" unfolding waiting_def by force
  then show ?thesis ..
next
  case (joins i ops)
  note k = waiting_join [OF assms(2) joins(2)]
  then have "\<forall>j<Suc i. lg_workers s ! j = Exited" using joins(4) less_Suc_eq by auto
  with k have "waiting n s'" using joins(1) unfolding waiting_def by (intro conjI disjI2 exI [of _ "Suc i"]) simp_all
  then show ?thesis ..
next
  case (join_fails i ops)
  have "\<forall>j<i. lg_workers s ! j = Exited" using waiting_join [OF assms(2) join_fails(2)] by blast
  with join_fails have "broken s'" by (auto simp: broken_def)
  then show ?thesis by blast
next
  case (clears ops)
  note k = waiting_clear [OF assms(2) clears(2)]
  have "\<forall>w\<in>set (lg_workers s). w = Exited" using k(3) assms(3) by (metis accounted_def in_set_conv_nth)
  then have "closing cap s'" using k clears assms(3) by (auto simp: closing_def sender_lives_def accounted_def list_ex_iff)
  then show ?thesis by blast
qed (use assms(2) waiting_ops in \<open>blast+\<close>)

lemma closing_step:
  assumes "legacy_step body cap s s'" "closing cap s"
  shows "closing cap s'"
proof -
  have "\<forall>w\<in>set (lg_workers s). w = Exited" using assms(2) by (simp add: closing_def)
  then have exited: "i < length (lg_workers s) \<Longrightarrow> lg_workers s ! i = Exited" for i using nth_mem by blast
  from assms(1) show ?thesis
    by cases (use assms(2) exited in \<open>auto simp: closing_def sender_lives_def\<close>)
qed

lemma broken_step: "legacy_step body cap s s' \<Longrightarrow> \<not> broken s"
  by (auto simp: broken_def elim: legacy_step.cases)

lemma target_inv_step: "legacy_step body cap s s' \<Longrightarrow> target_inv cap n s \<Longrightarrow> target_inv cap n s'"
  using accounted_step waiting_step closing_step broken_step unfolding target_inv_def by blast

lemma target_inv_reach: "(legacy_step body cap)\<^sup>*\<^sup>* (legacy_init (target_main (length ls)) c ls) s \<Longrightarrow> target_inv cap (length ls) s"
proof (induction rule: rtranclp_induct)
  case base
  show ?case by (simp add: target_inv_def accounted_def waiting_def legacy_init_def)
next
  case (step s s')
  then show ?case using target_inv_step by blast
qed

definition stuck :: "('c, 'l, 'e) body \<Rightarrow> nat \<Rightarrow> ('c, 'l, 'e) legacy \<Rightarrow> bool" where
  "stuck body cap s \<longleftrightarrow> (\<forall>s'. \<not> legacy_step body cap s s')"

text \<open>A worker that cannot go on is over, or has no action, or can only emit and the channel is full.\<close>

lemma worker_stuck:
  assumes "stuck body cap s" "lg_ops s \<noteq> []" "i < length (lg_workers s)"
  shows "over (lg_workers s ! i) \<or> (\<exists>l. lg_workers s ! i = Running l \<and>
    (\<forall>a c' l'. body (lg_shared s) l a c' l' \<longrightarrow> (\<exists>e. a = Emits e) \<and> cap \<le> length (lg_channel s)))"
proof (cases "lg_workers s ! i")
  case (Spawned l)
  with assms register [OF assms(2,3)] show ?thesis unfolding stuck_def by blast
next
  case (Running l)
  have "(\<exists>e. a = Emits e) \<and> cap \<le> length (lg_channel s)" if "body (lg_shared s) l a c' l'" for a c' l'
    using assms(1) that silent [of s i l body c' l' cap] emits [of s i l body _ c' l' cap] exits [of s i l body c' l' cap] dies [of s i l body c' l' cap]
      assms(2,3) Running unfolding stuck_def by (cases a) (auto simp: not_less [symmetric])
  with Running show ?thesis by blast
qed simp_all

lemma target_stuck:
  assumes "target_inv cap n s" "stuck body cap s" "lg_ops s \<noteq> []"
  shows "\<exists>i ops. lg_ops s = Join i # ops \<and> i < n \<and> \<not> over (lg_workers s ! i)"
proof -
  have acc: "accounted cap n s" using assms(1) unfolding target_inv_def by blast
  from assms(1,3) consider (wait) "waiting n s" | (close) "closing cap s" unfolding target_inv_def broken_def by blast
  then show ?thesis
  proof cases
    case wait
    then consider "lg_ops s = target_main n" | k where "k \<le> n" "lg_ops s = joins_from k n" unfolding waiting_def by blast
    then show ?thesis
    proof cases
      case 1
      then show ?thesis using drops [of s] assms(2) unfolding stuck_def target_main_def by blast
    next
      case 2
      show ?thesis
      proof (cases "k < n")
        case True
        then have ops: "lg_ops s = Join k # joins_from (Suc k) n" using 2(2) join_head by metis
        have k: "k < length (lg_workers s)" using acc True by (simp add: accounted_def)
        have "\<not> over (lg_workers s ! k)"
          using joins [OF ops k] join_fails [OF ops k] assms(2) unfolding stuck_def by (cases "lg_workers s ! k") auto
        with ops True show ?thesis by blast
      next
        case False
        then show ?thesis using 2 clears [of s] assms(2) unfolding stuck_def by auto
      qed
    qed
  next
    case close
    then have "lg_ops s = [CollectAll]" "\<not> sender_lives s" using assms(3) unfolding closing_def by auto
    then show ?thesis using receives [of s "[]"] legacy_step.collected [of s "[]"] assms(2) unfolding stuck_def by (cases "lg_channel s") blast+
  qed
qed

text \<open>(C26) How the test of an axiom target ends, whatever the bodies of its threads do: they may share state, take locks, wait for each other, emit, return and panic, in any
  interleaving. Everything emitted is collected or in the channel, in the order of emission. A test that has finished had every
  thread return, emitted at most 4096 events and collected all of them in order; a test that failed did so at the join of a panicked thread. A run that can go on neither way is
  stuck at the join of a thread that is running, and every running thread waits: its body has no action, as in a deadlock, or it can only emit and the channel holds 4096 events, which nobody reads
  before the joins. So if no body ever waits or panics, a stuck test with fewer than 4096 events has finished. If every action brings a body closer to its end, a run has boundedly many steps.\<close>

theorem axiom_target_ends:
  fixes ls :: "'l list" and body :: "('c, 'l, 'e) body"
  assumes "(legacy_step body 4096)\<^sup>*\<^sup>* (legacy_init (target_main (length ls)) c ls) s"
  shows "lg_emitted s = lg_collected s @ lg_channel s
    \<and> (lg_ops s = [] \<and> \<not> lg_failed s \<longrightarrow> (\<forall>w\<in>set (lg_workers s). w = Exited) \<and> lg_collected s = lg_emitted s \<and> length (lg_emitted s) \<le> 4096)
    \<and> (lg_failed s \<longrightarrow> (\<exists>i<length ls. lg_workers s ! i = Panicked \<and> (\<forall>j<i. lg_workers s ! j = Exited)))
    \<and> (stuck body 4096 s \<and> lg_ops s \<noteq> [] \<longrightarrow>
        (\<exists>i l ops. lg_ops s = Join i # ops \<and> i < length ls \<and> lg_workers s ! i = Running l)
        \<and> (\<forall>i<length ls. over (lg_workers s ! i) \<or> (\<exists>l. lg_workers s ! i = Running l
             \<and> (\<forall>a c' l'. body (lg_shared s) l a c' l' \<longrightarrow> (\<exists>e. a = Emits e) \<and> length (lg_channel s) = 4096))))
    \<and> (stuck body 4096 s \<and> length (lg_emitted s) < 4096 \<and> (\<forall>c l. \<exists>a c' l'. body c l a c' l') \<and> (\<forall>w\<in>set (lg_workers s). w \<noteq> Panicked) \<longrightarrow>
        lg_ops s = [] \<and> \<not> lg_failed s)
    \<and> (terminating rank body \<and> (legacy_step body 4096 ^^ k) s s' \<longrightarrow> k \<le> work rank s)"
proof -
  note inv = target_inv_reach [OF assms]
  then have acc: "accounted 4096 (length ls) s" and phase: "waiting (length ls) s \<or> closing 4096 s \<or> broken s" unfolding target_inv_def by blast+
  have len: "length (lg_workers s) = length ls" "length (lg_channel s) \<le> 4096" "lg_emitted s = lg_collected s @ lg_channel s"
    using acc by (simp_all add: accounted_def)
  have fin: "(\<forall>w\<in>set (lg_workers s). w = Exited) \<and> lg_collected s = lg_emitted s \<and> length (lg_emitted s) \<le> 4096" if "lg_ops s = []" "\<not> lg_failed s"
    using phase that waiting_ops len(3) unfolding closing_def broken_def by auto
  have fail: "\<exists>i<length ls. lg_workers s ! i = Panicked \<and> (\<forall>j<i. lg_workers s ! j = Exited)" if "lg_failed s"
    using phase that len(1) unfolding waiting_def closing_def broken_def by auto
  have wait: "over (lg_workers s ! i) \<or> (\<exists>l. lg_workers s ! i = Running l
      \<and> (\<forall>a c' l'. body (lg_shared s) l a c' l' \<longrightarrow> (\<exists>e. a = Emits e) \<and> length (lg_channel s) = 4096))"
    if "stuck body 4096 s" "lg_ops s \<noteq> []" "i < length ls" for i
    using worker_stuck [OF that(1,2), of i] that(3) len(1,2) by fastforce
  have join: "\<exists>i l ops. lg_ops s = Join i # ops \<and> i < length ls \<and> lg_workers s ! i = Running l" if "stuck body 4096 s" "lg_ops s \<noteq> []"
    using target_stuck [OF inv that] wait [OF that] by blast
  have free: "lg_ops s = [] \<and> \<not> lg_failed s"
    if "stuck body 4096 s" "length (lg_emitted s) < 4096" "\<forall>c l. \<exists>a c' l'. body c l a c' l'" "\<forall>w\<in>set (lg_workers s). w \<noteq> Panicked"
  proof -
    have "\<not> lg_failed s" using fail that(4) len(1) by (metis nth_mem)
    moreover have "lg_ops s = []"
    proof (rule ccontr)
      assume ops: "lg_ops s \<noteq> []"
      note at = join [OF that(1) ops]
      obtain i l where "i < length ls" "lg_workers s ! i = Running l" using at by blast
      moreover have "length (lg_channel s) \<noteq> 4096" using len(3) that(2) by simp
      ultimately show False using wait [OF that(1) ops, of i] that(3) by force
    qed
    ultimately show ?thesis by blast
  qed
  have bound: "k \<le> work rank s" if "terminating rank body" "(legacy_step body 4096 ^^ k) s s'" using run_length [OF that] by simp
  show ?thesis
  proof (intro conjI impI allI; (elim conjE)?)
    show "lg_emitted s = lg_collected s @ lg_channel s" by (rule len(3))
  qed (rule fin [THEN conjunct1] fin [THEN conjunct2, THEN conjunct1] fin [THEN conjunct2, THEN conjunct2] fail join wait free [THEN conjunct1] free [THEN conjunct2] bound;
      assumption)+
qed

text \<open>A body that emits a list of numbers and returns.\<close>

definition emitting :: "(unit, nat list, nat) body" where
  "emitting c l a c' l' \<longleftrightarrow> (case l of [] \<Rightarrow> a = ReturnsNow \<and> l' = [] | e # es \<Rightarrow> a = Emits e \<and> l' = es)"

lemma emitting_run:
  "\<exists>s :: (unit, nat list, nat) legacy. (legacy_step emitting 4096)\<^sup>*\<^sup>* (legacy_init (target_main 1) () [[7]]) s \<and> lg_ops s = [] \<and> \<not> lg_failed s \<and> lg_emitted s = [(0, 7)]"
proof -
  let ?st = "\<lambda>ch ws tx sl ops col em. \<lparr>lg_shared = (), lg_channel = ch, lg_workers = [ws], lg_main_tx = tx, lg_slot = sl, lg_ops = ops, lg_failed = False, lg_collected = col,
    lg_emitted = em\<rparr> :: (unit, nat list, nat) legacy"
  let ?R = "legacy_step emitting 4096"
  have "legacy_init (target_main 1) () [[7]] = ?st [] (Spawned [7]) True False [DropTx, Join 0, ClearSlot, CollectAll] [] []"
    by (simp add: legacy_init_def target_main_def)
  also have "?R\<^sup>*\<^sup>* \<dots> (?st [] (Running [7]) True True [DropTx, Join 0, ClearSlot, CollectAll] [] [])"
    using register [of "?st [] (Spawned [7]) True False [DropTx, Join 0, ClearSlot, CollectAll] [] []" 0 "[7]" emitting 4096] by (simp add: r_into_rtranclp)
  also have "?R\<^sup>*\<^sup>* \<dots> (?st [(0, 7)] (Running []) True True [DropTx, Join 0, ClearSlot, CollectAll] [] [(0, 7)])"
    using emits [of "?st [] (Running [7]) True True [DropTx, Join 0, ClearSlot, CollectAll] [] []" 0 "[7]" emitting 7 "()" "[]" 4096]
    by (simp add: r_into_rtranclp emitting_def)
  also have "?R\<^sup>*\<^sup>* \<dots> (?st [(0, 7)] Exited True True [DropTx, Join 0, ClearSlot, CollectAll] [] [(0, 7)])"
    using exits [of "?st [(0, 7)] (Running []) True True [DropTx, Join 0, ClearSlot, CollectAll] [] [(0, 7)]" 0 "[]" emitting "()" "[]" 4096]
    by (simp add: r_into_rtranclp emitting_def)
  also have "?R\<^sup>*\<^sup>* \<dots> (?st [(0, 7)] Exited False True [Join 0, ClearSlot, CollectAll] [] [(0, 7)])"
    using drops [of "?st [(0, 7)] Exited True True [DropTx, Join 0, ClearSlot, CollectAll] [] [(0, 7)]"] by (simp add: r_into_rtranclp)
  also have "?R\<^sup>*\<^sup>* \<dots> (?st [(0, 7)] Exited False True [ClearSlot, CollectAll] [] [(0, 7)])"
    using joins [of "?st [(0, 7)] Exited False True [Join 0, ClearSlot, CollectAll] [] [(0, 7)]"] by (simp add: r_into_rtranclp)
  also have "?R\<^sup>*\<^sup>* \<dots> (?st [(0, 7)] Exited False False [CollectAll] [] [(0, 7)])"
    using clears [of "?st [(0, 7)] Exited False True [ClearSlot, CollectAll] [] [(0, 7)]"] by (simp add: r_into_rtranclp)
  also have "?R\<^sup>*\<^sup>* \<dots> (?st [] Exited False False [CollectAll] [(0, 7)] [(0, 7)])"
    using receives [of "?st [(0, 7)] Exited False False [CollectAll] [] [(0, 7)]"] by (simp add: r_into_rtranclp)
  also have "?R\<^sup>*\<^sup>* \<dots> (?st [] Exited False False [] [(0, 7)] [(0, 7)])"
    using collected [of "?st [] Exited False False [CollectAll] [(0, 7)] [(0, 7)]"] by (simp add: r_into_rtranclp sender_lives_def)
  finally show ?thesis by (intro exI conjI) (assumption, simp_all)
qed

theorem axiom_target_ends_witness:
  "\<exists>s :: (unit, nat list, nat) legacy. (legacy_step emitting 4096)\<^sup>*\<^sup>* (legacy_init (target_main 1) () [[7]]) s \<and> lg_ops s = [] \<and> lg_collected s = [(0, 7)]
     \<and> (\<forall>w\<in>set (lg_workers s). w = Exited)"
proof -
  obtain s :: "(unit, nat list, nat) legacy" where s: "(legacy_step emitting 4096)\<^sup>*\<^sup>* (legacy_init (target_main 1) () [[7]]) s" "lg_ops s = []" "\<not> lg_failed s"
    "lg_emitted s = [(0, 7)]" using emitting_run by blast
  have "(legacy_step emitting 4096)\<^sup>*\<^sup>* (legacy_init (target_main (length [[7]])) () [[7]]) s" using s(1) by simp
  from axiom_target_ends [OF this, THEN conjunct2, THEN conjunct1] s(2-4)
  have "(\<forall>w\<in>set (lg_workers s). w = Exited) \<and> lg_collected s = [(0, 7)]" by simp
  with s(1,2) show ?thesis by blast
qed

section \<open>How a byoc test ends\<close>

text \<open>It does not finish once a thread was started: the thread leaves a clone of the sender in the process-wide slot, which nobody clears, and the
  collection waits for that sender.\<close>

definition byoc_open :: "('c, 'l, 'e) legacy \<Rightarrow> bool" where
  "byoc_open s \<longleftrightarrow> lg_workers s \<noteq> [] \<and> (lg_slot s \<or> (\<forall>w\<in>set (lg_workers s). \<exists>l. w = Spawned l))
     \<and> (lg_failed s \<or> (\<exists>pre. lg_ops s = pre @ [CollectAll] \<and> set pre \<inter> {ClearSlot, CollectAll} = {}))"

lemma byoc_open_step:
  assumes "legacy_step body cap s s'" "byoc_open s"
  shows "byoc_open s' \<or> lg_failed s'"
proof (cases "lg_failed s")
  case True
  with assms(1) show ?thesis by cases simp_all
next
  case False
  with assms(2) obtain pre where pre: "lg_ops s = pre @ [CollectAll]" "set pre \<inter> {ClearSlot, CollectAll} = {}"
    and ws: "lg_workers s \<noteq> []" "lg_slot s \<or> (\<forall>w\<in>set (lg_workers s). \<exists>l. w = Spawned l)" unfolding byoc_open_def by blast
  have lives: "sender_lives s" using ws by (cases "lg_workers s") (auto simp: sender_lives_def)
  have slot: "lg_slot s" if "i < length (lg_workers s)" "lg_workers s ! i = Running l" for i l using ws(2) that by (metis nth_mem worker.distinct(1))
  have keep: "byoc_open s'" if "lg_ops s' = lg_ops s" "lg_workers s' \<noteq> []" "lg_slot s'" using that pre unfolding byoc_open_def by auto
  from assms(1) show ?thesis
  proof cases
    case (drops ops)
    then obtain pre' where "pre = DropTx # pre'" using pre by (cases pre) auto
    with drops pre ws show ?thesis unfolding byoc_open_def by auto
  next
    case (joins i ops)
    then obtain pre' where "pre = Join i # pre'" using pre by (cases pre) auto
    with joins pre ws show ?thesis unfolding byoc_open_def by auto
  next
    case (clears ops)
    then show ?thesis using pre by (cases pre) auto
  next
    case (receives ops x xs)
    then show ?thesis using assms(2) unfolding byoc_open_def by simp
  qed (use keep ws(1) slot lives in auto)
qed

lemma byoc_test_hangs:
  assumes "(legacy_step body cap)\<^sup>*\<^sup>* (legacy_init (byoc_main js) c ls) s" "ls \<noteq> []"
  shows "lg_ops s \<noteq> [] \<or> lg_failed s"
proof -
  have start: "byoc_open (legacy_init (byoc_main js) c ls)"
    using assms(2) by (auto simp: byoc_open_def legacy_init_def byoc_main_def intro!: exI [of _ "map Join js @ [DropTx]"])
  from assms(1) have "byoc_open s \<or> lg_failed s"
  proof (induction rule: rtranclp_induct)
    case (step s s')
    then show ?case using byoc_open_step [OF step.hyps(2)] by (auto elim: legacy_step.cases)
  qed (use start in blast)
  then show ?thesis by (auto simp: byoc_open_def)
qed

end
