(* ===== verification/TrackedDerive.thy ===== *)
theory TrackedDerive
  imports MacroArgs Tracked
begin

text \<open>
  The attribute \<open>laplace_tracked\<close> (\<^verbatim>\<open>laplace-macro/src/tracked_derive.rs\<close>) and the convenience macros \<open>mutex!\<close> and \<open>rwlock!\<close>
  (\<^verbatim>\<open>convenience.rs\<close>): which tracked primitive a marked field becomes, with which resource name its default value is made, and which
  structs are rejected. Generic arguments are opaque; whether one is a type is for the parser to say (\<open>is_type\<close>).
\<close>

section \<open>Options of a field\<close>

text \<open>An attribute has its path and, in the list form, the metas inside.\<close>

datatype 'a attribute = Attribute (attr_path: "'a path") (attr_list: "'a meta list option")

record TrackOptions =
  to_name :: "string option"
  to_permits :: "usize option"

datatype derive_error =
    TrackName
  | TrackPermits
  | TrackInteger
  | TrackArgument
  | DuplicateResource string
  | SemaphorePermits
  | UnsupportedType
  | UnnamedFields

definition is_track :: "'a attribute \<Rightarrow> bool" where
  "is_track a \<longleftrightarrow> get_ident (attr_path a) = Some ''track''"

definition track_meta :: "'a meta \<Rightarrow> TrackOptions \<Rightarrow> derive_error + TrackOptions" where
  "track_meta m opts =
     (case m of
        MetaNameValue p v \<Rightarrow>
          if get_ident p = Some ''name'' then (case v of Some (LitStr s) \<Rightarrow> Inr (opts\<lparr>to_name := Some s\<rparr>) | _ \<Rightarrow> Inl TrackName)
          else if get_ident p = Some ''permits'' then
            (case v of
               Some (LitInt i) \<Rightarrow> (case base10_parse i of Inl e \<Rightarrow> Inl TrackInteger | Inr n \<Rightarrow> Inr (opts\<lparr>to_permits := Some n\<rparr>))
             | _ \<Rightarrow> Inl TrackPermits)
          else Inl TrackArgument
      | _ \<Rightarrow> Inl TrackArgument)"

fun track_metas :: "'a meta list \<Rightarrow> TrackOptions \<Rightarrow> derive_error + TrackOptions" where
  "track_metas [] opts = Inr opts"
| "track_metas (m # ms) opts = (case track_meta m opts of Inl e \<Rightarrow> Inl e | Inr opts1 \<Rightarrow> track_metas ms opts1)"

fun track_attrs :: "'a attribute list \<Rightarrow> TrackOptions \<Rightarrow> derive_error + TrackOptions" where
  "track_attrs [] opts = Inr opts"
| "track_attrs (a # as) opts =
     (case (if is_track a then (case attr_list a of Some metas \<Rightarrow> track_metas metas opts | None \<Rightarrow> Inr opts) else Inr opts) of
        Inl e \<Rightarrow> Inl e
      | Inr opts1 \<Rightarrow> track_attrs as opts1)"

definition extract_track_options :: "'a attribute list \<Rightarrow> derive_error + TrackOptions" where
  "extract_track_options attrs = track_attrs attrs \<lparr>to_name = None, to_permits = None\<rparr>"

section \<open>Types\<close>

definition ends_with :: "string \<Rightarrow> string \<Rightarrow> bool" where
  "ends_with pat s \<longleftrightarrow> length pat \<le> length s \<and> drop (length s - length pat) s = pat"

definition contains :: "string \<Rightarrow> string \<Rightarrow> bool" where
  "contains pat s \<longleftrightarrow> list_ex (\<lambda>i. take (length pat) (drop i s) = pat) [0..<length s + 1]"

fun join_colons :: "ident list \<Rightarrow> string" where
  "join_colons [] = []"
| "join_colons [i] = i"
| "join_colons (i # is) = i @ ''::'' @ join_colons is"

definition typepath_to_string :: "'a path \<Rightarrow> string" where
  "typepath_to_string p = join_colons (idents p)"

definition extract_first_generic :: "('a \<Rightarrow> bool) \<Rightarrow> 'a path \<Rightarrow> 'a option" where
  "extract_first_generic is_type p =
     (if segments p = [] then None
      else case seg_args (last (segments p)) of Args (inner # _) \<Rightarrow> if is_type inner then Some inner else None | _ \<Rightarrow> None)"

datatype 'a field_type = TypeOfPath "'a path" | TypeOther

text \<open>The tracked type of a field. Its default value is the default of the inner type, false, zero or the declared permits.\<close>

datatype 'a tracked_type =
    AsTrackedStdMutex 'a
  | AsTrackedStdRwLock 'a
  | AsTrackedMutex 'a
  | AsTrackedRwLock 'a
  | AsTrackedAtomicBool
  | AsTrackedAtomicU32
  | AsTrackedAtomicU64
  | AsTrackedAtomicUsize
  | AsTrackedSemaphore usize

definition map_field_type_to_tracked :: "('a \<Rightarrow> bool) \<Rightarrow> 'a field_type \<Rightarrow> TrackOptions \<Rightarrow> derive_error + 'a tracked_type" where
  "map_field_type_to_tracked is_type ty opts =
     (case ty of
        TypeOther \<Rightarrow> Inl UnsupportedType
      | TypeOfPath p \<Rightarrow>
          let s = typepath_to_string p; inner = extract_first_generic is_type p in
          if (contains ''std::sync::Mutex'' s \<or> contains ''::std::sync::Mutex'' s) \<and> inner \<noteq> None then Inr (AsTrackedStdMutex (the inner))
          else if (contains ''std::sync::RwLock'' s \<or> contains ''::std::sync::RwLock'' s) \<and> inner \<noteq> None
            then Inr (AsTrackedStdRwLock (the inner))
          else if ends_with ''Mutex'' s \<and> inner \<noteq> None then Inr (AsTrackedMutex (the inner))
          else if ends_with ''RwLock'' s \<and> \<not> contains ''std::sync'' s \<and> inner \<noteq> None then Inr (AsTrackedRwLock (the inner))
          else if ends_with ''AtomicBool'' s then Inr AsTrackedAtomicBool
          else if ends_with ''AtomicU32'' s then Inr AsTrackedAtomicU32
          else if ends_with ''AtomicU64'' s then Inr AsTrackedAtomicU64
          else if ends_with ''AtomicUsize'' s then Inr AsTrackedAtomicUsize
          else if ends_with ''Semaphore'' s then
            (case to_permits opts of None \<Rightarrow> Inl SemaphorePermits | Some permits \<Rightarrow> Inr (AsTrackedSemaphore permits))
          else Inl UnsupportedType)"

section \<open>Structs\<close>

record 'a struct_field =
  sf_name :: ident
  sf_attrs :: "'a attribute list"
  sf_type :: "'a field_type"

text \<open>A field of the result has its old type or a tracked one; its default is the default of its type or a tracked primitive with a name.\<close>

datatype 'a out_type = Unchanged "'a field_type" | Changed "'a tracked_type"

datatype 'a default_code = DefaultOfType | NewTracked "'a tracked_type" string

record 'a out_field =
  of_name :: ident
  of_attrs :: "'a attribute list"
  of_type :: "'a out_type"
  of_default :: "'a default_code"

definition has_track :: "'a struct_field \<Rightarrow> bool" where
  "has_track f \<longleftrightarrow> list_ex is_track (sf_attrs f)"

definition expand_field :: "('a \<Rightarrow> bool) \<Rightarrow> 'a struct_field \<Rightarrow> string set \<Rightarrow> derive_error + 'a out_field \<times> string set" where
  "expand_field is_type f resource_names =
     (if has_track f then
        (case extract_track_options (sf_attrs f) of
           Inl e \<Rightarrow> Inl e
         | Inr track_options \<Rightarrow>
             let nm = (case to_name track_options of Some n \<Rightarrow> n | None \<Rightarrow> sf_name f) in
             if nm \<in> resource_names then Inl (DuplicateResource nm)
             else (case map_field_type_to_tracked is_type (sf_type f) track_options of
                     Inl e \<Rightarrow> Inl e
                   | Inr tt \<Rightarrow> Inr (\<lparr>of_name = sf_name f, of_attrs = filter (\<lambda>a. \<not> is_track a) (sf_attrs f), of_type = Changed tt,
                       of_default = NewTracked tt nm\<rparr>, insert nm resource_names)))
      else Inr (\<lparr>of_name = sf_name f, of_attrs = sf_attrs f, of_type = Unchanged (sf_type f), of_default = DefaultOfType\<rparr>, resource_names))"

fun expand_fields :: "('a \<Rightarrow> bool) \<Rightarrow> 'a struct_field list \<Rightarrow> string set \<Rightarrow> derive_error + 'a out_field list" where
  "expand_fields is_type [] names = Inr []"
| "expand_fields is_type (f # fs) names =
     (case expand_field is_type f names of
        Inl e \<Rightarrow> Inl e
      | Inr (o1, names1) \<Rightarrow> (case expand_fields is_type fs names1 of Inl e \<Rightarrow> Inl e | Inr os \<Rightarrow> Inr (o1 # os)))"

text \<open>A struct without named fields (\<open>None\<close>) runs into an unreachable arm.\<close>

definition expand_attribute :: "('a \<Rightarrow> bool) \<Rightarrow> 'a struct_field list option \<Rightarrow> derive_error + 'a out_field list" where
  "expand_attribute is_type item = (case item of None \<Rightarrow> Inl UnnamedFields | Some fs \<Rightarrow> expand_fields is_type fs {})"

section \<open>Convenience macros\<close>

definition mutex_impl :: "string option \<Rightarrow> tracked" where
  "mutex_impl nm = TrackedMutex_named (case nm of Some n \<Rightarrow> n | None \<Rightarrow> ''laplace_mutex'')"

definition rwlock_impl :: "string option \<Rightarrow> tracked" where
  "rwlock_impl nm = TrackedRwLock_named (case nm of Some n \<Rightarrow> n | None \<Rightarrow> ''laplace_rwlock'')"

section \<open>What the expansion does\<close>

text \<open>Without the loop: the options and the resource name of a marked field, and its expansion.\<close>

definition options_of :: "'a struct_field \<Rightarrow> TrackOptions" where
  "options_of f = projr (extract_track_options (sf_attrs f))"

definition resource_of :: "'a struct_field \<Rightarrow> string" where
  "resource_of f = (case to_name (options_of f) of Some n \<Rightarrow> n | None \<Rightarrow> sf_name f)"

definition field_ok :: "('a \<Rightarrow> bool) \<Rightarrow> 'a struct_field \<Rightarrow> bool" where
  "field_ok is_type f \<longleftrightarrow> has_track f \<longrightarrow>
     \<not> isl (extract_track_options (sf_attrs f)) \<and> \<not> isl (map_field_type_to_tracked is_type (sf_type f) (options_of f))"

definition out_of :: "('a \<Rightarrow> bool) \<Rightarrow> 'a struct_field \<Rightarrow> 'a out_field" where
  "out_of is_type f =
     (if has_track f then
        let tt = projr (map_field_type_to_tracked is_type (sf_type f) (options_of f)) in
        \<lparr>of_name = sf_name f, of_attrs = filter (\<lambda>a. \<not> is_track a) (sf_attrs f), of_type = Changed tt, of_default = NewTracked tt (resource_of f)\<rparr>
      else \<lparr>of_name = sf_name f, of_attrs = sf_attrs f, of_type = Unchanged (sf_type f), of_default = DefaultOfType\<rparr>)"

abbreviation resources :: "'a struct_field list \<Rightarrow> string list" where
  "resources fs \<equiv> map resource_of (filter has_track fs)"

lemma expand_field_exact:
  "expand_field is_type f names = Inr (g, names') \<longleftrightarrow>
     field_ok is_type f \<and> (has_track f \<longrightarrow> resource_of f \<notin> names) \<and> g = out_of is_type f
     \<and> names' = (if has_track f then insert (resource_of f) names else names)"
  by (auto simp: expand_field_def field_ok_def out_of_def resource_of_def options_of_def Let_def split: sum.splits)

lemma expand_fields_exact:
  "expand_fields is_type fs names = Inr gs \<longleftrightarrow>
     list_all (field_ok is_type) fs \<and> distinct (resources fs) \<and> set (resources fs) \<inter> names = {} \<and> gs = map (out_of is_type) fs"
proof (induction fs arbitrary: names gs)
  case (Cons f fs)
  show ?case
  proof (cases "expand_field is_type f names")
    case (Inl e)
    then have "\<not> (field_ok is_type f \<and> (has_track f \<longrightarrow> resource_of f \<notin> names))"
      using expand_field_exact [of is_type f names] by (metis Inl_Inr_False)
    with Inl show ?thesis by auto
  next
    case (Inr r)
    obtain g names1 where "r = (g, names1)" by (cases r)
    with Inr expand_field_exact [of is_type f names g names1]
    have "field_ok is_type f" "has_track f \<longrightarrow> resource_of f \<notin> names" "g = out_of is_type f"
      "names1 = (if has_track f then insert (resource_of f) names else names)" by auto
    note first = this Inr [unfolded \<open>r = (g, names1)\<close>]
    show ?thesis
    proof (cases "expand_fields is_type fs names1")
      case (Inl e)
      then have "\<not> (list_all (field_ok is_type) fs \<and> distinct (resources fs) \<and> set (resources fs) \<inter> names1 = {})"
        using Cons.IH [of names1 "map (out_of is_type) fs"] by simp
      moreover have "set (resources fs) \<inter> names1 = {}" if "distinct (resources (f # fs))" "set (resources (f # fs)) \<inter> names = {}"
        using that first(4) by (auto split: if_splits)
      moreover have "distinct (resources fs)" if "distinct (resources (f # fs))" using that by (simp split: if_splits)
      ultimately have "\<not> (list_all (field_ok is_type) fs \<and> distinct (resources (f # fs)) \<and> set (resources (f # fs)) \<inter> names = {})"
        by blast
      moreover have "expand_fields is_type (f # fs) names = Inl e" "list_all (field_ok is_type) (f # fs) \<Longrightarrow> list_all (field_ok is_type) fs"
        using Inl first(5) by simp_all
      ultimately show ?thesis by (metis sum.distinct(1))
    next
      case (Inr gs1)
      with Cons.IH [of names1 gs1]
      have "list_all (field_ok is_type) fs \<and> distinct (resources fs) \<and> set (resources fs) \<inter> names1 = {} \<and> gs1 = map (out_of is_type) fs" by simp
      with Inr first show ?thesis by auto
    qed
  qed
qed auto

text \<open>The tracked type by the path as it is usually written; a renamed or foreign type falls under the last cases by the end of its name.\<close>

definition written :: "ident list \<Rightarrow> 'a \<Rightarrow> 'a field_type" where
  "written is inner = TypeOfPath (Path False (map (\<lambda>i. Segment i NoArgs) (butlast is) @ [Segment (last is) (Args [inner])]))"

lemma usual_types:
  assumes "is_type inner"
  shows "map_field_type_to_tracked is_type (written [''std'', ''sync'', ''Mutex''] inner) opts = Inr (AsTrackedStdMutex inner)"
    "map_field_type_to_tracked is_type (written [''std'', ''sync'', ''RwLock''] inner) opts = Inr (AsTrackedStdRwLock inner)"
    "map_field_type_to_tracked is_type (written [''tokio'', ''sync'', ''Mutex''] inner) opts = Inr (AsTrackedMutex inner)"
    "map_field_type_to_tracked is_type (written [''tokio'', ''sync'', ''RwLock''] inner) opts = Inr (AsTrackedRwLock inner)"
    "map_field_type_to_tracked is_type (written [''Mutex''] inner) opts = Inr (AsTrackedMutex inner)"
    "map_field_type_to_tracked is_type (written [''RwLock''] inner) opts = Inr (AsTrackedRwLock inner)"
  using assms
  by (simp_all add: written_def map_field_type_to_tracked_def typepath_to_string_def idents_def extract_first_generic_def Let_def
      contains_def ends_with_def upt_rec)

text \<open>What \<open>laplace_tracked\<close> makes of a struct. The expansion succeeds exactly when the struct has named fields, every marked field has
  well-formed options and a type with a tracked form, and the resource names of the marked fields (the given name, else the
  field's) are pairwise different. The result has the fields in order: an unmarked field with its type, attributes and default,
  a marked field with its tracked type, without the mark, and with a default that makes that primitive under its
  resource name.\<close>

theorem tracked_struct_exact:
  "expand_attribute is_type item = Inr gs \<longleftrightarrow>
     (\<exists>fs. item = Some fs \<and> list_all (field_ok is_type) fs \<and> distinct (map resource_of (filter has_track fs)) \<and> gs = map (out_of is_type) fs)"
  by (cases item) (simp_all add: expand_attribute_def expand_fields_exact)

section \<open>Limits\<close>

text \<open>The type is recognised by the text of its path: a guard counts as a mutex, and so does any type whose name ends like one.\<close>

lemma recognised_by_text:
  assumes "is_type inner"
  shows "map_field_type_to_tracked is_type (written [''std'', ''sync'', ''MutexGuard''] inner) opts = Inr (AsTrackedStdMutex inner)"
    "map_field_type_to_tracked is_type (written [''parking_lot'', ''ReentrantMutex''] inner) opts = Inr (AsTrackedMutex inner)"
  using assms
  by (simp_all add: written_def map_field_type_to_tracked_def typepath_to_string_def idents_def extract_first_generic_def Let_def
      contains_def ends_with_def upt_rec)

text \<open>Unnamed mutexes of \<open>mutex!\<close> share one resource name, and the verifier does not relate a resource to itself: two of them taken in opposite orders give a clean verdict.\<close>

lemma unnamed_mutexes_alias:
  "vr_verdict (run_verification_from
     [LockAcquired 0 (tr_resource_name (mutex_impl None)), LockAcquired 0 (tr_resource_name (mutex_impl None)),
      LockAcquired 1 (tr_resource_name (mutex_impl None)), LockAcquired 1 (tr_resource_name (mutex_impl None)) :: unit ProbeEvent] target config) = Clean"
  by (simp add: mutex_impl_def TrackedMutex_named_def TrackedMutex_new_def run_verification_from_def find_lock_order_cycle_def lock_event_def)

end
