(* ===== verification/Settings.thy ===== *)
theory Settings
  imports ProbeSession
begin

text \<open>
  Where the exploration depth comes from: the search for \<^verbatim>\<open>laplace.toml\<close> (\<^verbatim>\<open>laplace-probe-sdk/src/config.rs\<close>), the depth in the
  license token (\<^verbatim>\<open>license.rs\<close>) and the built-in default. The file system is a function from absolute paths, as lists of components, to what reading
  gives; parsing TOML, JSON and base64 is third-party and an argument.
\<close>

section \<open>Files\<close>

datatype file_entry = NoFile | Unreadable | Text string

type_synonym file_system = "string list \<Rightarrow> file_entry"

definition exists_file :: "file_system \<Rightarrow> string list \<Rightarrow> bool" where
  "exists_file fs p \<longleftrightarrow> fs p \<noteq> NoFile"

definition read_to_string :: "file_system \<Rightarrow> string list \<Rightarrow> string option" where
  "read_to_string fs p = (case fs p of Text t \<Rightarrow> Some t | _ \<Rightarrow> None)"

text \<open>\<open>Path::parent\<close>: the root has none.\<close>

definition parent :: "string list \<Rightarrow> string list option" where
  "parent p = (if p = [] then None else Some (butlast p))"

section \<open>The project configuration\<close>

record TomlAxiom =
  tx_max_depth :: "u32 option"
  tx_max_threads :: "u32 option"
  tx_max_starvation_limit :: "u32 option"
  tx_max_danger :: "u32 option"
  tx_default_seed :: "u64 option"

record ProjectConfig =
  pj_max_depth :: "usize option"
  pj_max_threads :: "usize option"
  pj_max_starvation_limit :: "usize option"
  pj_max_danger :: "usize option"
  pj_default_seed :: "u64 option"

definition find_laplace_toml :: "file_system \<Rightarrow> string list option \<Rightarrow> string list \<Rightarrow> string list option" where
  "find_laplace_toml fs manifest_dir cwd =
     (let in_dir = (\<lambda>d. d @ [''laplace.toml'']);
          two_up = (\<lambda>d. Option.bind (parent d) parent);
          fallback = (if exists_file fs (in_dir cwd) then Some (in_dir cwd) else None)
      in case manifest_dir of
           None \<Rightarrow> fallback
         | Some base \<Rightarrow>
             if exists_file fs (in_dir base) then Some (in_dir base)
             else (case two_up base of
                     Some d \<Rightarrow>
                       if exists_file fs (in_dir d) then Some (in_dir d)
                       else (case parent d of
                               Some d2 \<Rightarrow> if exists_file fs (in_dir d2) then Some (in_dir d2) else fallback
                             | None \<Rightarrow> fallback)
                   | None \<Rightarrow> fallback))"

definition load_project_config ::
    "(string \<Rightarrow> TomlAxiom option) \<Rightarrow> file_system \<Rightarrow> string list option \<Rightarrow> string list \<Rightarrow> ProjectConfig option" where
  "load_project_config parse_toml fs manifest_dir cwd =
     (case find_laplace_toml fs manifest_dir cwd of
        None \<Rightarrow> None
      | Some p \<Rightarrow>
          (case read_to_string fs p of
             None \<Rightarrow> None
           | Some content \<Rightarrow>
               (case parse_toml content of
                  None \<Rightarrow> None
                | Some axiom \<Rightarrow> Some \<lparr>pj_max_depth = map_option ucast (tx_max_depth axiom), pj_max_threads = map_option ucast (tx_max_threads axiom),
                    pj_max_starvation_limit = map_option ucast (tx_max_starvation_limit axiom),
                    pj_max_danger = map_option ucast (tx_max_danger axiom), pj_default_seed = tx_default_seed axiom\<rparr>)))"

definition load_toml_max_depth ::
    "(string \<Rightarrow> TomlAxiom option) \<Rightarrow> file_system \<Rightarrow> string list option \<Rightarrow> string list \<Rightarrow> usize option" where
  "load_toml_max_depth parse_toml fs manifest_dir cwd =
     Option.bind (load_project_config parse_toml fs manifest_dir cwd) pj_max_depth"

section \<open>The license\<close>

fun split_dots :: "string \<Rightarrow> string list" where
  "split_dots [] = [[]]"
| "split_dots (c # cs) = (if c = CHR ''.'' then [] # split_dots cs else (case split_dots cs of p # ps \<Rightarrow> (c # p) # ps | [] \<Rightarrow> [[c]]))"

definition config_path :: "string list option \<Rightarrow> string list option" where
  "config_path home_dir = map_option (\<lambda>h. h @ [''.laplace'', ''config.json'']) home_dir"

text \<open>The parsers give the token of the configuration, the bytes of the payload and the depth among the claims, if they succeed.\<close>

definition load_axiom_max_depth ::
    "(string \<Rightarrow> string option) \<Rightarrow> (string \<Rightarrow> u8 list option) \<Rightarrow> (u8 list \<Rightarrow> usize option option) \<Rightarrow> file_system \<Rightarrow> string list option \<Rightarrow> usize option" where
  "load_axiom_max_depth parse_config decode parse_claims fs home_dir =
     (case config_path home_dir of
        None \<Rightarrow> None
      | Some p \<Rightarrow>
          (case Option.bind (read_to_string fs p) parse_config of
             None \<Rightarrow> None
           | Some jwt \<Rightarrow>
               let parts = split_dots jwt in
               if length parts \<noteq> 3 then None
               else (case Option.bind (decode (parts ! 1)) parse_claims of
                       None \<Rightarrow> None
                     | Some depth \<Rightarrow> depth)))"

section \<open>What is found\<close>

lemma split_dots_join: "split_dots s \<noteq> [] \<and> concat (map (\<lambda>p. p @ ''.'') (split_dots s)) = s @ ''.''"
  by (induction s) (auto split: list.splits)

lemma split_dots_free: "\<forall>p\<in>set (split_dots s). CHR ''.'' \<notin> set p"
  by (induction s) (auto split: list.splits)

text \<open>The candidates in the order they are tried.\<close>

definition candidates :: "string list option \<Rightarrow> string list \<Rightarrow> string list list" where
  "candidates manifest_dir cwd =
     (case manifest_dir of
        None \<Rightarrow> []
      | Some base \<Rightarrow> base # (if length base \<ge> 2 then [take (length base - 2) base] else [])
          @ (if length base \<ge> 3 then [take (length base - 3) base] else [])) @ [cwd]"

lemma parents:
  "Option.bind (parent p) parent = (if length p \<ge> 2 then Some (take (length p - 2) p) else None)"
  by (cases p rule: rev_cases) (auto simp: parent_def butlast_conv_take Suc_le_eq)

text \<open>The first candidate that exists is taken, the crate's own directory first and the working directory last.\<close>

lemma find_laplace_toml_first:
  "find_laplace_toml fs manifest_dir cwd
     = find (exists_file fs) (map (\<lambda>d. d @ [''laplace.toml'']) (candidates manifest_dir cwd))"
proof (cases manifest_dir)
  case (Some base)
  have "parent (take (length base - 2) base) = (if length base \<ge> 3 then Some (take (length base - 3) base) else None)"
    if "length base \<ge> 2" using that by (auto simp: parent_def butlast_take numeral_2_eq_2 numeral_3_eq_3)
  with Some show ?thesis by (auto simp: find_laplace_toml_def candidates_def parents Let_def split: option.splits)
qed (simp add: find_laplace_toml_def candidates_def Let_def)

text \<open>The directory above the crate is not among them.\<close>

lemma parent_toml_ignored:
  "let fs = (\<lambda>p. if p = [''ws'', ''laplace.toml''] then Text ''x'' else NoFile) in find_laplace_toml fs (Some [''ws'', ''crate'']) [''ws'', ''crate''] = None"
  by (simp add: find_laplace_toml_def exists_file_def parent_def Let_def)

text \<open>The depth of a default configuration: the license, else the file, else 500.\<close>

lemma default_depth:
  "pc_max_depth (ProbeSessionConfig_default (map_option unat license) (map_option unat (load_toml_max_depth parse_toml fs manifest_dir cwd)))
     = (case license of Some d \<Rightarrow> unat d
        | None \<Rightarrow> (case load_toml_max_depth parse_toml fs manifest_dir cwd of Some d \<Rightarrow> unat d | None \<Rightarrow> 500))"
  by (simp add: ProbeSessionConfig_default_def warn_toml_depth_override_def split: option.splits)

text \<open>A depth from the file is the written number, and less than \<open>2 ^ 32\<close>.\<close>

lemma toml_depth_bounds:
  assumes "load_toml_max_depth parse_toml fs manifest_dir cwd = Some d"
  shows "\<exists>p content axiom w. find_laplace_toml fs manifest_dir cwd = Some p \<and> fs p = Text content \<and> parse_toml content = Some axiom
    \<and> tx_max_depth axiom = Some w \<and> unat d = unat w \<and> unat d < 2 ^ 32"
proof -
  from assms obtain p content axiom w where *: "find_laplace_toml fs manifest_dir cwd = Some p" "read_to_string fs p = Some content"
    "parse_toml content = Some axiom" "tx_max_depth axiom = Some w" "d = ucast w"
    by (auto simp: load_toml_max_depth_def load_project_config_def bind_eq_Some_conv split: option.splits)
  have "unat w < 2 ^ 32" using unsigned_less [of w] by simp
  moreover have "unat (ucast w :: usize) = unat w"
    by (simp add: unsigned_ucast_eq take_bit_nat_eq_self_iff less_trans [OF \<open>unat w < 2 ^ 32\<close>])
  moreover from *(2) have "fs p = Text content" by (auto simp: read_to_string_def split: file_entry.splits)
  ultimately show ?thesis using * by auto
qed

end
