(* ===== verification/Kraken.thy ===== *)
theory Kraken
  imports NumberText
begin

text \<open>
  The load-testing vocabulary of \<^verbatim>\<open>laplace-interfaces\<close>: virtual HTTP messages (\<^verbatim>\<open>domain/transport/types.rs\<close>), scenarios with their validation,
  chaos schedules and ramp-up profiles (\<^verbatim>\<open>domain/kraken/types.rs\<close>). Floating-point numbers are a type of their own with the operations that are used
  as an argument. Integer overflow panics, as in a build with overflow checks (\<open>None\<close>).
\<close>

section \<open>Messages\<close>

datatype HttpMethod = Get | Post | Put | Delete | Patch | Head | Options

definition is_idempotent :: "HttpMethod \<Rightarrow> bool" where
  "is_idempotent m \<longleftrightarrow> (case m of Get \<Rightarrow> True | Head \<Rightarrow> True | Put \<Rightarrow> True | Delete \<Rightarrow> True | _ \<Rightarrow> False)"

definition is_safe :: "HttpMethod \<Rightarrow> bool" where
  "is_safe m \<longleftrightarrow> (case m of Get \<Rightarrow> True | Head \<Rightarrow> True | Options \<Rightarrow> True | _ \<Rightarrow> False)"

definition http_method_display :: "HttpMethod \<Rightarrow> string" where
  "http_method_display m = (case m of Get \<Rightarrow> ''GET'' | Post \<Rightarrow> ''POST'' | Put \<Rightarrow> ''PUT'' | Delete \<Rightarrow> ''DELETE'' | Patch \<Rightarrow> ''PATCH''
     | Head \<Rightarrow> ''HEAD'' | Options \<Rightarrow> ''OPTIONS'')"

record VirtualRequest =
  vq_vu_id :: u64
  vq_method :: HttpMethod
  vq_path :: string
  vq_headers :: "string \<rightharpoonup> string"
  vq_body :: "u8 list option"
  vq_sent_at_tick :: u64

definition VirtualRequest_new :: "u64 \<Rightarrow> HttpMethod \<Rightarrow> string \<Rightarrow> u64 \<Rightarrow> VirtualRequest" where
  "VirtualRequest_new vu_id method p sent_at_tick =
     \<lparr>vq_vu_id = vu_id, vq_method = method, vq_path = p, vq_headers = Map.empty, vq_body = None, vq_sent_at_tick = sent_at_tick\<rparr>"

definition VirtualRequest_with_body :: "u8 list \<Rightarrow> VirtualRequest \<Rightarrow> VirtualRequest" where
  "VirtualRequest_with_body body self = self\<lparr>vq_body := Some body\<rparr>"

definition VirtualRequest_with_header :: "string \<Rightarrow> string \<Rightarrow> VirtualRequest \<Rightarrow> VirtualRequest" where
  "VirtualRequest_with_header key v self = self\<lparr>vq_headers := (vq_headers self)(key \<mapsto> v)\<rparr>"

definition VirtualRequest_get_header :: "string \<Rightarrow> VirtualRequest \<Rightarrow> string option" where
  "VirtualRequest_get_header key self = vq_headers self key"

record VirtualResponse =
  vs_status :: u16
  vs_headers :: "string \<rightharpoonup> string"
  vs_body :: "u8 list option"
  vs_latency_ticks :: u64

definition VirtualResponse_new :: "u16 \<Rightarrow> u64 \<Rightarrow> VirtualResponse" where
  "VirtualResponse_new status latency_ticks = \<lparr>vs_status = status, vs_headers = Map.empty, vs_body = None, vs_latency_ticks = latency_ticks\<rparr>"

definition response_ok :: "u64 \<Rightarrow> VirtualResponse" where
  "response_ok latency_ticks = VirtualResponse_new 200 latency_ticks"

definition response_created :: "u64 \<Rightarrow> VirtualResponse" where
  "response_created latency_ticks = VirtualResponse_new 201 latency_ticks"

definition response_bad_request :: "u64 \<Rightarrow> VirtualResponse" where
  "response_bad_request latency_ticks = VirtualResponse_new 400 latency_ticks"

definition response_not_found :: "u64 \<Rightarrow> VirtualResponse" where
  "response_not_found latency_ticks = VirtualResponse_new 404 latency_ticks"

definition response_server_error :: "u64 \<Rightarrow> VirtualResponse" where
  "response_server_error latency_ticks = VirtualResponse_new 500 latency_ticks"

definition VirtualResponse_with_body :: "u8 list \<Rightarrow> VirtualResponse \<Rightarrow> VirtualResponse" where
  "VirtualResponse_with_body body self = self\<lparr>vs_body := Some body\<rparr>"

definition VirtualResponse_with_header :: "string \<Rightarrow> string \<Rightarrow> VirtualResponse \<Rightarrow> VirtualResponse" where
  "VirtualResponse_with_header key v self = self\<lparr>vs_headers := (vs_headers self)(key \<mapsto> v)\<rparr>"

definition VirtualResponse_get_header :: "string \<Rightarrow> VirtualResponse \<Rightarrow> string option" where
  "VirtualResponse_get_header key self = vs_headers self key"

definition is_success_status :: "VirtualResponse \<Rightarrow> bool" where
  "is_success_status self \<longleftrightarrow> vs_status self \<ge> 200 \<and> vs_status self < 300"

definition is_client_error :: "VirtualResponse \<Rightarrow> bool" where
  "is_client_error self \<longleftrightarrow> vs_status self \<ge> 400 \<and> vs_status self < 500"

definition is_server_error :: "VirtualResponse \<Rightarrow> bool" where
  "is_server_error self \<longleftrightarrow> vs_status self \<ge> 500 \<and> vs_status self < 600"

section \<open>Scenarios\<close>

datatype VUState = Idle | Thinking | Requesting | Validating | Waiting | Finished

definition is_terminal :: "VUState \<Rightarrow> bool" where
  "is_terminal st \<longleftrightarrow> st = Finished"

definition is_blocking :: "VUState \<Rightarrow> bool" where
  "is_blocking st \<longleftrightarrow> st = Requesting \<or> st = Waiting"

record 'f f64_ops =
  f_zero :: 'f
  f_one :: 'f
  f_tolerance :: 'f
  f_add :: "'f \<Rightarrow> 'f \<Rightarrow> 'f"
  f_sub :: "'f \<Rightarrow> 'f \<Rightarrow> 'f"
  f_abs :: "'f \<Rightarrow> 'f"
  f_less :: "'f \<Rightarrow> 'f \<Rightarrow> bool"
  f_le :: "'f \<Rightarrow> 'f \<Rightarrow> bool"

definition VUState_display :: "VUState \<Rightarrow> string" where
  "VUState_display st = (case st of Idle \<Rightarrow> ''Idle'' | Thinking \<Rightarrow> ''Thinking'' | Requesting \<Rightarrow> ''Requesting'' | Validating \<Rightarrow> ''Validating''
     | Waiting \<Rightarrow> ''Waiting'' | Finished \<Rightarrow> ''Finished'')"

definition VUID_display :: "u64 \<Rightarrow> string" where
  "VUID_display self = ''VU#'' @ decimal (unat self)"

datatype 'f ThinkTimeDistribution = Normal 'f 'f | Uniform u64 u64

datatype 'f ScenarioStep =
    Think "'f ThinkTimeDistribution"
  | Request HttpMethod string "(string \<times> string) list" "string option" "(string \<times> string) list"
  | Branch "('f \<times> usize) list"
  | RetryOnError u32
  | Loop u32 usize
  | Finish

datatype step_fault = NegativeNormal | EmptyUniform | NoChoices | ProbabilitySum | ProbabilityRange | NoRetries | NoIterations

definition step_validate :: "'f f64_ops \<Rightarrow> 'f ScenarioStep \<Rightarrow> step_fault + unit" where
  "step_validate ops step =
     (case step of
        Think (Normal mean std_dev) \<Rightarrow>
          if f_less ops mean (f_zero ops) \<or> f_less ops std_dev (f_zero ops) then Inl NegativeNormal else Inr ()
      | Think (Uniform mn mx) \<Rightarrow> if mn > mx then Inl EmptyUniform else Inr ()
      | Request _ _ _ _ _ \<Rightarrow> Inr ()
      | Branch choices \<Rightarrow>
          if choices = [] then Inl NoChoices
          else if f_less ops (f_tolerance ops)
              (f_abs ops (f_sub ops (foldl (f_add ops) (f_zero ops) (map fst choices)) (f_one ops))) then Inl ProbabilitySum
          else if \<not> list_all (\<lambda>(p, _). f_le ops (f_zero ops) p \<and> f_le ops p (f_one ops)) choices then Inl ProbabilityRange
          else Inr ()
      | RetryOnError max_retries \<Rightarrow> if max_retries = 0 then Inl NoRetries else Inr ()
      | Loop iterations _ \<Rightarrow> if iterations = 0 then Inl NoIterations else Inr ()
      | Finish \<Rightarrow> Inr ())"

text \<open>The error of a scenario has the index of the step.\<close>

record 'f Scenario =
  sc_name :: string
  sc_steps :: "'f ScenarioStep list"

fun validate_steps :: "'f f64_ops \<Rightarrow> nat \<Rightarrow> 'f ScenarioStep list \<Rightarrow> nat \<times> step_fault + unit" where
  "validate_steps ops idx [] = Inr ()"
| "validate_steps ops idx (step # steps) =
     (case step_validate ops step of Inl e \<Rightarrow> Inl (idx, e) | Inr _ \<Rightarrow> validate_steps ops (Suc idx) steps)"

definition Scenario_new :: "'f f64_ops \<Rightarrow> string \<Rightarrow> 'f ScenarioStep list \<Rightarrow> nat \<times> step_fault + 'f Scenario" where
  "Scenario_new ops nm steps = (case validate_steps ops 0 steps of Inl e \<Rightarrow> Inl e | Inr _ \<Rightarrow> Inr \<lparr>sc_name = nm, sc_steps = steps\<rparr>)"

definition step_at :: "'f Scenario \<Rightarrow> nat \<Rightarrow> 'f ScenarioStep option" where
  "step_at self index = (if index < length (sc_steps self) then Some (sc_steps self ! index) else None)"

section \<open>Chaos schedules\<close>

definition Scenario_len :: "'f Scenario \<Rightarrow> nat" where
  "Scenario_len self = length (sc_steps self)"

definition Scenario_is_empty :: "'f Scenario \<Rightarrow> bool" where
  "Scenario_is_empty self = List.null (sc_steps self)"

text \<open>The texts of distributions, steps and scenarios. How a floating-point number is printed with no or with two digits after the point is an argument; arrows and Greek letters
  are their bytes in UTF-8.\<close>

definition utf8_arrow :: string where "utf8_arrow = [CHR 0xE2, CHR 0x86, CHR 0x92]"

definition utf8_mu :: string where "utf8_mu = [CHR 0xCE, CHR 0xBC]"

definition utf8_sigma :: string where "utf8_sigma = [CHR 0xCF, CHR 0x83]"

fun ThinkTimeDistribution_display :: "('f \<Rightarrow> string) \<Rightarrow> 'f ThinkTimeDistribution \<Rightarrow> string" where
  "ThinkTimeDistribution_display fixed (Normal mean std_dev) = ''Normal('' @ utf8_mu @ ''='' @ fixed mean @ ''ms, '' @ utf8_sigma @ ''='' @ fixed std_dev @ ''ms)''"
| "ThinkTimeDistribution_display fixed (Uniform mn mx) = ''Uniform('' @ decimal (unat mn) @ ''ms..'' @ decimal (unat mx) @ ''ms)''"

fun choices_display :: "('f \<Rightarrow> string) \<Rightarrow> ('f \<times> usize) list \<Rightarrow> string" where
  "choices_display fixed [] = []"
| "choices_display fixed [(p, idx)] = fixed p @ utf8_arrow @ decimal (unat idx)"
| "choices_display fixed ((p, idx) # c # cs) = fixed p @ utf8_arrow @ decimal (unat idx) @ '', '' @ choices_display fixed (c # cs)"

text \<open>The body is cut after thirty characters; a character is an element of the string here.\<close>

fun ScenarioStep_display :: "('f \<Rightarrow> string) \<Rightarrow> ('f \<Rightarrow> string) \<Rightarrow> 'f ScenarioStep \<Rightarrow> string" where
  "ScenarioStep_display fixed_0 fixed_2 (Think distribution) = ''Think('' @ ThinkTimeDistribution_display fixed_0 distribution @ '')''"
| "ScenarioStep_display fixed_0 fixed_2 (Request verb path _ body _) =
     (case body of Some b \<Rightarrow> ''Request('' @ http_method_display verb @ '' '' @ path @ '', body='' @ take 30 b @ ''...)''
      | None \<Rightarrow> ''Request('' @ http_method_display verb @ '' '' @ path @ '')'')"
| "ScenarioStep_display fixed_0 fixed_2 (Branch choices) = ''Branch('' @ choices_display fixed_2 choices @ '')''"
| "ScenarioStep_display fixed_0 fixed_2 (RetryOnError max_retries) = ''RetryOnError(max_retries='' @ decimal (unat max_retries) @ '')''"
| "ScenarioStep_display fixed_0 fixed_2 (Loop iterations jump_back_idx) = ''Loop(iterations='' @ decimal (unat iterations) @ '', goto='' @ decimal (unat jump_back_idx) @ '')''"
| "ScenarioStep_display fixed_0 fixed_2 Finish = ''Finish''"

fun steps_display :: "('f \<Rightarrow> string) \<Rightarrow> ('f \<Rightarrow> string) \<Rightarrow> nat \<Rightarrow> 'f ScenarioStep list \<Rightarrow> string" where
  "steps_display fixed_0 fixed_2 i [] = []"
| "steps_display fixed_0 fixed_2 i (step # steps) =
     ''  ['' @ decimal i @ ''] '' @ ScenarioStep_display fixed_0 fixed_2 step @ [CHR 0x0A] @ steps_display fixed_0 fixed_2 (Suc i) steps"

definition Scenario_display :: "('f \<Rightarrow> string) \<Rightarrow> ('f \<Rightarrow> string) \<Rightarrow> 'f Scenario \<Rightarrow> string" where
  "Scenario_display fixed_0 fixed_2 self = ''Scenario: '' @ sc_name self @ [CHR 0x0A] @ steps_display fixed_0 fixed_2 0 (sc_steps self)"

text \<open>One line per step, numbered as \<open>step_at\<close> finds it.\<close>

lemma steps_display_lines:
  "steps_display f g i steps = concat (map (\<lambda>j. ''  ['' @ decimal (i + j) @ ''] '' @ ScenarioStep_display f g (steps ! j) @ [CHR 0x0A]) [0..<length steps])"
proof (induction steps arbitrary: i)
  case (Cons a steps)
  then show ?case by (simp add: upt_conv_Cons map_Suc_upt [symmetric] comp_def del: upt_Suc)
qed simp

lemma Scenario_display_steps:
  "Scenario_display f g sc = ''Scenario: '' @ sc_name sc @ [CHR 0x0A]
     @ concat (map (\<lambda>j. ''  ['' @ decimal j @ ''] '' @ ScenarioStep_display f g (sc_steps sc ! j) @ [CHR 0x0A]) [0..<Scenario_len sc])"
  by (simp add: Scenario_display_def steps_display_lines Scenario_len_def)

lemma scenario_empty: "Scenario_is_empty sc \<longleftrightarrow> Scenario_len sc = 0"
  by (simp add: Scenario_is_empty_def Scenario_len_def List.null_iff)

datatype ChaosEvent = LatencySpike u64 u64 u64 | NetworkPartition u64 u64 u64 u64

definition is_active_at_ms :: "ChaosEvent \<Rightarrow> u64 \<Rightarrow> bool" where
  "is_active_at_ms ev now \<longleftrightarrow>
     (case ev of LatencySpike start_ms end_ms _ \<Rightarrow> now \<ge> start_ms \<and> now < end_ms
      | NetworkPartition start_ms end_ms _ _ \<Rightarrow> now \<ge> start_ms \<and> now < end_ms)"

definition affects_vu_id :: "ChaosEvent \<Rightarrow> u64 \<Rightarrow> bool" where
  "affects_vu_id ev vu_id \<longleftrightarrow> (case ev of NetworkPartition _ _ first past \<Rightarrow> first \<le> vu_id \<and> vu_id < past | _ \<Rightarrow> False)"

record ChaosSchedule =
  cz_events :: "ChaosEvent list"

definition ChaosSchedule_new :: ChaosSchedule where
  "ChaosSchedule_new = \<lparr>cz_events = []\<rparr>"

definition add_event :: "ChaosEvent \<Rightarrow> ChaosSchedule \<Rightarrow> ChaosSchedule" where
  "add_event ev self = self\<lparr>cz_events := cz_events self @ [ev]\<rparr>"

definition from_events :: "ChaosEvent list \<Rightarrow> ChaosSchedule" where
  "from_events events = \<lparr>cz_events = events\<rparr>"

definition get_active_events :: "ChaosSchedule \<Rightarrow> u64 \<Rightarrow> u64 \<Rightarrow> ChaosEvent list" where
  "get_active_events self now vu_id =
     filter (\<lambda>ev. is_active_at_ms ev now \<and> (case ev of LatencySpike _ _ _ \<Rightarrow> True | NetworkPartition _ _ _ _ \<Rightarrow> affects_vu_id ev vu_id))
       (cz_events self)"

definition is_partitioned :: "ChaosSchedule \<Rightarrow> u64 \<Rightarrow> u64 \<Rightarrow> bool" where
  "is_partitioned self now vu_id \<longleftrightarrow>
     list_ex (\<lambda>ev. (case ev of NetworkPartition _ _ _ _ \<Rightarrow> True | _ \<Rightarrow> False) \<and> is_active_at_ms ev now \<and> affects_vu_id ev vu_id) (cz_events self)"

definition checked_plus :: "u64 \<Rightarrow> u64 \<Rightarrow> u64 option" where
  "checked_plus a b = (if unat a + unat b < 2 ^ 64 then Some (a + b) else None)"

fun checked_sum :: "u64 list \<Rightarrow> u64 \<Rightarrow> u64 option" where
  "checked_sum [] acc = Some acc"
| "checked_sum (x # xs) acc = (case checked_plus acc x of None \<Rightarrow> None | Some y \<Rightarrow> checked_sum xs y)"

definition extra_latency :: "u64 \<Rightarrow> ChaosEvent \<Rightarrow> u64 option" where
  "extra_latency now ev = (case ev of LatencySpike _ _ extra \<Rightarrow> if is_active_at_ms ev now then Some extra else None | _ \<Rightarrow> None)"

definition total_extra_latency_ms :: "ChaosSchedule \<Rightarrow> u64 \<Rightarrow> u64 option" where
  "total_extra_latency_ms self now = checked_sum (List.map_filter (extra_latency now) (cz_events self)) 0"

definition event_count :: "ChaosSchedule \<Rightarrow> nat" where
  "event_count self = length (cz_events self)"

section \<open>Ramp-up\<close>

datatype RampUpProfile = Linear usize u64 | Step usize usize u64 | Instant usize

fun RampUpProfile_display :: "RampUpProfile \<Rightarrow> string" where
  "RampUpProfile_display (Linear target_vus duration_secs) = ''Linear(0'' @ utf8_arrow @ decimal (unat target_vus) @ '' VUs over '' @ decimal (unat duration_secs) @ ''s)''"
| "RampUpProfile_display (Step start_vus step_size step_duration_secs) =
     ''Step('' @ decimal (unat start_vus) @ ''+'' @ decimal (unat step_size) @ ''VU every '' @ decimal (unat step_duration_secs) @ ''s)''"
| "RampUpProfile_display (Instant target_vus) = ''Instant('' @ decimal (unat target_vus) @ '' VUs)''"

lemma RampUpProfile_text: "RampUpProfile_display a = RampUpProfile_display b \<longleftrightarrow> a = b"
  by (cases a; cases b) (simp_all add: text_simps utf8_arrow_def word_unat_eq_iff)

text \<open>A duration is its number of nanoseconds. The two floating-point results are arguments: the ceiling of the linear share below the end, and the number of whole steps.\<close>

definition target_vus_at :: "(nat \<Rightarrow> u64 \<Rightarrow> usize \<Rightarrow> usize) \<Rightarrow> (nat \<Rightarrow> u64 \<Rightarrow> u64) \<Rightarrow> RampUpProfile \<Rightarrow> nat \<Rightarrow> usize option" where
  "target_vus_at linear_share whole_steps self elapsed_ns =
     (case self of
        Linear target_vus duration_secs \<Rightarrow>
          Some (if elapsed_ns \<ge> unat duration_secs * 10 ^ 9 then target_vus
                else if elapsed_ns = 0 then 0 else linear_share elapsed_ns duration_secs target_vus)
      | Step start_vus step_size step_duration_secs \<Rightarrow>
          let step_index = whole_steps elapsed_ns step_duration_secs in
          if unat step_index * unat step_size < 2 ^ 64 then checked_plus start_vus (step_index * step_size) else None
      | Instant target_vus \<Rightarrow> Some target_vus)"

definition total_duration_secs :: "RampUpProfile \<Rightarrow> u64 option" where
  "total_duration_secs self =
     (case self of
        Linear _ duration_secs \<Rightarrow> Some duration_secs
      | Step _ _ step_duration_secs \<Rightarrow> if unat step_duration_secs * 10 < 2 ^ 64 then Some (step_duration_secs * 10) else None
      | Instant _ \<Rightarrow> Some 0)"

section \<open>Properties\<close>

text \<open>A scenario is accepted as given when all steps are valid, and otherwise rejected with the index of the first invalid step.\<close>

lemma validate_steps_first:
  "validate_steps ops n steps = (case find (\<lambda>k. isl (step_validate ops (steps ! k))) [0..<length steps] of
     None \<Rightarrow> Inr () | Some k \<Rightarrow> Inl (n + k, projl (step_validate ops (steps ! k))))"
proof (induction steps arbitrary: n)
  case (Cons step steps)
  have upt: "[0..<length (step # steps)] = 0 # map Suc [0..<length steps]" by (simp add: map_Suc_upt upt_conv_Cons del: upt_Suc)
  have "find (\<lambda>k. P (step # steps) k) (map Suc xs) = map_option Suc (find (\<lambda>k. P (step # steps) (Suc k)) xs)" for P :: "'a ScenarioStep list \<Rightarrow> nat \<Rightarrow> bool" and xs
    by (induction xs) auto
  from this [of "\<lambda>ss k. isl (step_validate ops (ss ! k))"] show ?case
    unfolding upt by (cases "step_validate ops step") (auto simp: Cons.IH split: option.splits)
qed simp

lemma scenario_new_first:
  "Scenario_new ops nm steps = (case find (\<lambda>k. isl (step_validate ops (steps ! k))) [0..<length steps] of
     None \<Rightarrow> Inr \<lparr>sc_name = nm, sc_steps = steps\<rparr> | Some k \<Rightarrow> Inl (k, projl (step_validate ops (steps ! k))))"
  by (simp add: Scenario_new_def validate_steps_first split: option.splits)

lemma checked_sum_exact:
  "checked_sum xs acc = (if unat acc + sum_list (map unat xs) < 2 ^ 64 then Some (of_nat (unat acc + sum_list (map unat xs))) else None)"
proof (induction xs arbitrary: acc)
  case (Cons x xs)
  show ?case
  proof (cases "unat acc + unat x < 2 ^ 64")
    case True
    then have "unat (acc + x) = unat acc + unat x" by (rule unat_add_no_overflow)
    with True Cons.IH [of "acc + x"] show ?thesis by (simp add: checked_plus_def add.assoc)
  qed (simp add: checked_plus_def)
qed (use unat_u64_bound in simp)

lemma status_classes_apart:
  "\<not> (is_success_status r \<and> is_client_error r)" "\<not> (is_success_status r \<and> is_server_error r)" "\<not> (is_client_error r \<and> is_server_error r)"
  by (auto simp: is_success_status_def is_client_error_def is_server_error_def word_le_nat_alt word_less_nat_alt)

text \<open>What is asked of a schedule agrees: a user is partitioned exactly when its active events have a partition, the extra latency is
  the sum over the active spikes among them, for every user the same, and adding an event adds it when it is active.\<close>

lemma chaos_queries_agree:
  "is_partitioned self now vu_id \<longleftrightarrow> (\<exists>a b c d. NetworkPartition a b c d \<in> set (get_active_events self now vu_id))"
  "List.map_filter (extra_latency now) (cz_events self) = List.map_filter (extra_latency now) (get_active_events self now vu_id)"
  "get_active_events (add_event ev self) now vu_id = get_active_events self now vu_id @ get_active_events (from_events [ev]) now vu_id"
proof -
  show "is_partitioned self now vu_id \<longleftrightarrow> (\<exists>a b c d. NetworkPartition a b c d \<in> set (get_active_events self now vu_id))"
  proof -
    have "is_partitioned self now vu_id \<longleftrightarrow>
        (\<exists>ev\<in>set (cz_events self). \<exists>a b c d. ev = NetworkPartition a b c d \<and> is_active_at_ms ev now \<and> affects_vu_id ev vu_id)"
      unfolding is_partitioned_def list_ex_iff by (intro bex_cong refl) (simp split: ChaosEvent.splits)
    also have "\<dots> \<longleftrightarrow> (\<exists>a b c d. NetworkPartition a b c d \<in> set (get_active_events self now vu_id))"
      unfolding get_active_events_def by force
    finally show ?thesis .
  qed
  have "List.map_filter (extra_latency now) xs = List.map_filter (extra_latency now)
      (filter (\<lambda>ev. is_active_at_ms ev now \<and> (case ev of LatencySpike _ _ _ \<Rightarrow> True | NetworkPartition _ _ _ _ \<Rightarrow> affects_vu_id ev vu_id)) xs)" for xs
    by (induction xs) (auto simp: List.map_filter_def extra_latency_def split: ChaosEvent.splits)
  then show "List.map_filter (extra_latency now) (cz_events self) = List.map_filter (extra_latency now) (get_active_events self now vu_id)"
    by (simp add: get_active_events_def)
  show "get_active_events (add_event ev self) now vu_id = get_active_events self now vu_id @ get_active_events (from_events [ev]) now vu_id"
    by (simp add: get_active_events_def add_event_def from_events_def)
qed

text \<open>A safe method should be idempotent; OPTIONS is not counted as such.\<close>

lemma options_safe_not_idempotent: "is_safe m \<and> \<not> is_idempotent m \<longleftrightarrow> m = Options"
  by (cases m) (simp_all add: is_safe_def is_idempotent_def)

text \<open>A staircase has no bound: with one user per step the target exceeds any number once enough steps have passed, and with large steps the
  computation overflows.\<close>

lemma staircase_unbounded:
  "target_vus_at share (\<lambda>_ _. n) (Step 0 1 d) t = Some n" "target_vus_at share (\<lambda>_ _. 2 ^ 32) (Step 0 (2 ^ 32) d) t = None"
proof -
  show "target_vus_at share (\<lambda>_ _. n) (Step 0 1 d) t = Some n"
    using unat_u64_bound [of n] by (simp add: target_vus_at_def checked_plus_def Let_def)
  have "unat ((2 :: u64) ^ 32) = 2 ^ 32" by simp
  then show "target_vus_at share (\<lambda>_ _. 2 ^ 32) (Step 0 (2 ^ 32) d) t = None" by (simp add: target_vus_at_def Let_def)
qed

end
