(* ===== verification/Select.thy ===== *)
theory Select
  imports Hooks ModelRewrite
begin

text \<open>
  The select macro (\<^verbatim>\<open>laplace-model-rt/src/select_macro.rs\<close>) and the blind-spot markers (\<^verbatim>\<open>unmodeled.rs\<close>). The macro
  \<^verbatim>\<open>tokio::select!\<close> is an argument of the model.
\<close>

section \<open>The select gate\<close>

text \<open>The tokens of a use of the macro: whether it begins with \<^verbatim>\<open>biased;\<close>, and the branches. The expansion is the argument applied with or
  without \<^verbatim>\<open>biased;\<close>; the random number is what an unbiased select draws.\<close>

record 'b select_tokens =
  written_biased :: bool
  select_rest :: "'b list"

definition laplace_select :: "(bool \<Rightarrow> 'b list \<Rightarrow> nat \<Rightarrow> 'r) \<Rightarrow> 'b select_tokens \<Rightarrow> rt \<Rightarrow> nat \<Rightarrow> 'r" where
  "laplace_select tokio_select tokens s =
     (if written_biased tokens then tokio_select True (select_rest tokens)
      else if deterministic_select_enabled s then tokio_select True (select_rest tokens)
      else tokio_select False (select_rest tokens))"

text \<open>One poll of a select whose branches are ready or not: it takes a ready branch when there is one, and with \<^verbatim>\<open>biased;\<close> the first in the order written.\<close>

fun first_ready :: "'v poll list \<Rightarrow> (nat \<times> 'v) option" where
  "first_ready [] = None"
| "first_ready (Ready v # bs) = Some (0, v)"
| "first_ready (Pending # bs) = map_option (\<lambda>(k, v). (Suc k, v)) (first_ready bs)"

text \<open>While the engine has the gate on, a select is decided by which branches are ready; an explicit \<^verbatim>\<open>biased;\<close> is kept either way; with the gate
  off and no \<^verbatim>\<open>biased;\<close> the macro is the stock one.\<close>

lemma engine_select_replays:
  assumes biased_first: "\<And>bs r. tokio_select True bs r = first_ready bs"
  shows "laplace_select tokio_select tokens (set_deterministic_select True s) r = first_ready (select_rest tokens)"
    and "written_biased tokens \<Longrightarrow> laplace_select tokio_select tokens s r = first_ready (select_rest tokens)"
    and "\<not> written_biased tokens \<Longrightarrow>
      laplace_select tokio_select tokens (set_deterministic_select False s) = tokio_select False (select_rest tokens)"
  by (simp_all add: laplace_select_def deterministic_select_enabled_def set_deterministic_select_def biased_first)

lemma first_ready_eq: "first_ready bs = map_option (\<lambda>k. (k, case bs ! k of Ready v \<Rightarrow> v)) (find (\<lambda>k. bs ! k \<noteq> Pending) [0..<length bs])"
proof (induction bs)
  case (Cons b bs)
  have upt: "[0..<length (b # bs)] = 0 # map Suc [0..<length bs]" by (simp add: map_Suc_upt upt_conv_Cons del: upt_Suc)
  have "find P (map Suc xs) = map_option Suc (find (P \<circ> Suc) xs)" for P xs by (induction xs) auto
  then show ?case unfolding upt
    by (cases b) (simp_all add: Cons.IH option.map_comp comp_def)
qed simp

section \<open>Blind-spot markers\<close>

definition unmodeled_markers :: "ident list" where
  "unmodeled_markers = [''CONDVAR'', ''ATOMIC'', ''CHANNEL'', ''TOKIO_SPAWN'', ''TOKIO_TIME'', ''ARC_SWAP'']"

text \<open>Every marker the rewrite inserts names a constant of the runtime, no two the same, and no constant is left without a use.\<close>

lemma markers_exist: "set unmodeled_markers = range marker_ident" "inj marker_ident"
proof -
  show inj: "inj marker_ident"
    unfolding inj_def marker_ident_def by (intro allI impI) (simp split: Unmodeled.splits)
  have "range marker_ident = marker_ident ` {UCondvar, UAtomic, UChannel, UTokioSpawn, UTokioTime, UArcSwap}"
    by (rule arg_cong [where f = "image marker_ident"]) (auto intro: Unmodeled.exhaust)
  then show "set unmodeled_markers = range marker_ident" by (simp add: unmodeled_markers_def marker_ident_def)
qed

end
