(* ===== verification/Vocabulary.thy ===== *)
theory Vocabulary
  imports Tenant Abi
begin

text \<open>
  Smaller parts of the contract crate \<^verbatim>\<open>laplace-interfaces\<close>: the two transport error types with their codes
  (\<^verbatim>\<open>error/transport.rs\<close>, \<^verbatim>\<open>domain/transport/error.rs\<close>), the panels of a subscription (\<^verbatim>\<open>domain/tui.rs\<close>), default limits and capacities
  (\<^verbatim>\<open>domain/resource/types.rs\<close>), the routing of telemetry (\<^verbatim>\<open>domain/telemetry_event.rs\<close>, \<^verbatim>\<open>telemetry_config.rs\<close>), the
  storage strategy (\<^verbatim>\<open>domain/pool/types.rs\<close>), the server and runtime statistics (\<^verbatim>\<open>domain/quic/mod.rs\<close>, \<^verbatim>\<open>domain/runtime.rs\<close>), the usage of a
  tenant (\<^verbatim>\<open>domain/resource/traits.rs\<close>) and the defaults of the pluggable network (\<^verbatim>\<open>domain/transport/pluggable.rs\<close>).
\<close>

section \<open>Transport errors\<close>

text \<open>Two types of this name with the same constructors; each has its own codes.\<close>

datatype TransportError = TConnectionClosed | TStreamError | TInvalidConfig | TIoError | TTlsError | TTimeout

definition knul_error_code :: "TransportError \<Rightarrow> u32" where
  "knul_error_code self = (case self of TConnectionClosed \<Rightarrow> 2001 | TStreamError \<Rightarrow> 2002 | TInvalidConfig \<Rightarrow> 2003
     | TIoError \<Rightarrow> 2004 | TTlsError \<Rightarrow> 2005 | TTimeout \<Rightarrow> 2006)"

definition transport_error_code :: "TransportError \<Rightarrow> u32" where
  "transport_error_code self = (case self of TConnectionClosed \<Rightarrow> 5001 | TStreamError \<Rightarrow> 5000 | TInvalidConfig \<Rightarrow> 4001
     | TIoError \<Rightarrow> 5000 | TTlsError \<Rightarrow> 4000 | TTimeout \<Rightarrow> 2000)"

text \<open>The codes of the domain type read back as the error the source names beside each.\<close>

lemma transport_codes_named:
  "from_code (transport_error_code e) = (case e of TConnectionClosed \<Rightarrow> ConnectionFailed | TStreamError \<Rightarrow> NetworkError
     | TInvalidConfig \<Rightarrow> InvalidRequest | TIoError \<Rightarrow> NetworkError | TTlsError \<Rightarrow> HandshakeFailed | TTimeout \<Rightarrow> Timeout)"
  by (cases e) (simp_all add: transport_error_code_def from_code_def)

lemma transport_codes_retryable:
  "is_retryable (from_code (transport_error_code e)) \<longleftrightarrow> e \<noteq> TInvalidConfig \<and> e \<noteq> TTlsError"
  by (cases e) (simp_all add: transport_codes_named is_retryable_def)

text \<open>The codes of the other type are taken by timeouts of kernel, client and locks, or by nothing: an invalid configuration reads back as a lock timeout and
  is retried, a timeout reads back as an internal error and is not.\<close>

lemma knul_codes_misread:
  "map (\<lambda>e. from_code (knul_error_code e)) [TConnectionClosed, TStreamError, TInvalidConfig, TIoError, TTlsError, TTimeout]
     = [KernelTimeout, SdkTimeout, LockTimeout, Internal, Internal, Internal]"
  "is_retryable (from_code (knul_error_code TInvalidConfig))"
  "\<not> is_retryable (from_code (knul_error_code TTimeout))"
  by (simp_all add: knul_error_code_def from_code_def is_retryable_def)

section \<open>Panels of a subscription\<close>

datatype tui_Tier = TuiFree | TuiPro | TuiUltra | TuiEnterprise

definition tui_priority :: "tui_Tier \<Rightarrow> u32" where
  "tui_priority self = (case self of TuiFree \<Rightarrow> 0 | TuiPro \<Rightarrow> 1 | TuiUltra \<Rightarrow> 2 | TuiEnterprise \<Rightarrow> 3)"

datatype PanelType = KrakenPanel | AxiomPanel | ApiStats | ChaosRadar | ResilienceStats | TimeTravel | SovereignPanel | SecurityAudit

record TuiCapabilities =
  allowed_panels :: "PanelType list"
  enable_ttd :: bool
  refresh_rate_ms :: u64
  tui_tier :: tui_Tier
  tui_signature :: "string option"
  is_authenticated :: bool

definition capabilities_free :: TuiCapabilities where
  "capabilities_free = \<lparr>allowed_panels = [KrakenPanel, AxiomPanel], enable_ttd = False, refresh_rate_ms = 500, tui_tier = TuiFree,
     tui_signature = None, is_authenticated = False\<rparr>"

definition capabilities_pro :: TuiCapabilities where
  "capabilities_pro = \<lparr>allowed_panels = [KrakenPanel, AxiomPanel, ApiStats, TimeTravel], enable_ttd = True, refresh_rate_ms = 200, tui_tier = TuiPro,
     tui_signature = Some ''LAPLACE-SIG-2026-PRO-DEMO'', is_authenticated = True\<rparr>"

definition capabilities_ultra :: TuiCapabilities where
  "capabilities_ultra = \<lparr>allowed_panels = [KrakenPanel, AxiomPanel, ApiStats, ChaosRadar, ResilienceStats, TimeTravel], enable_ttd = True,
     refresh_rate_ms = 100, tui_tier = TuiUltra, tui_signature = Some ''LAPLACE-SIG-2026-ULTRA-DEMO'', is_authenticated = True\<rparr>"

definition capabilities_enterprise :: TuiCapabilities where
  "capabilities_enterprise = \<lparr>allowed_panels = [KrakenPanel, AxiomPanel, ApiStats, ChaosRadar, ResilienceStats, TimeTravel, SovereignPanel, SecurityAudit],
     enable_ttd = True, refresh_rate_ms = 100, tui_tier = TuiEnterprise, tui_signature = Some ''LAPLACE-SIG-2026-ENT-DEMO'', is_authenticated = True\<rparr>"

definition has_panel :: "TuiCapabilities \<Rightarrow> PanelType \<Rightarrow> bool" where
  "has_panel self p \<longleftrightarrow> p \<in> set (allowed_panels self)"

definition has_any_panel :: "TuiCapabilities \<Rightarrow> PanelType list \<Rightarrow> bool" where
  "has_any_panel self panels \<longleftrightarrow> list_ex (has_panel self) panels"

text \<open>The lowest tier a panel is documented for decides who has it, with the debugger following its panel.\<close>

definition panel_from :: "PanelType \<Rightarrow> tui_Tier" where
  "panel_from p = (case p of KrakenPanel \<Rightarrow> TuiFree | AxiomPanel \<Rightarrow> TuiFree | ApiStats \<Rightarrow> TuiPro | TimeTravel \<Rightarrow> TuiPro
     | ChaosRadar \<Rightarrow> TuiUltra | ResilienceStats \<Rightarrow> TuiUltra | SovereignPanel \<Rightarrow> TuiEnterprise | SecurityAudit \<Rightarrow> TuiEnterprise)"

definition panels_follow_tier :: "TuiCapabilities \<Rightarrow> bool" where
  "panels_follow_tier caps \<longleftrightarrow> (\<forall>p. has_panel caps p \<longleftrightarrow> tui_priority (panel_from p) \<le> tui_priority (tui_tier caps))
     \<and> (enable_ttd caps \<longleftrightarrow> has_panel caps TimeTravel) \<and> (is_authenticated caps \<longleftrightarrow> tui_signature caps \<noteq> None)"

lemma all_panels: "(\<forall>p. P p) \<longleftrightarrow> P KrakenPanel \<and> P AxiomPanel \<and> P ApiStats \<and> P ChaosRadar \<and> P ResilienceStats \<and> P TimeTravel
  \<and> P SovereignPanel \<and> P SecurityAudit"
  by (metis PanelType.exhaust)

lemma panels_by_tier:
  "panels_follow_tier capabilities_free" "panels_follow_tier capabilities_pro"
  "panels_follow_tier capabilities_ultra" "panels_follow_tier capabilities_enterprise"
  unfolding panels_follow_tier_def all_panels
  by (simp_all add: has_panel_def tui_priority_def panel_from_def capabilities_free_def capabilities_pro_def
      capabilities_ultra_def capabilities_enterprise_def word_le_nat_alt)

section \<open>Limits and capacities\<close>

definition ResourceCapacity_new :: "u32 \<Rightarrow> u32 option" where
  "ResourceCapacity_new n = (if n \<ge> 1 then Some n else None)"

definition ResourceCapacity_MUTEX :: u32 where
  "ResourceCapacity_MUTEX = 1"

datatype ResourceType = CpuMicroseconds | MemoryBytes | NetworkBytes | ConcurrentRequests | StorageBytes

definition default_limit_free :: "ResourceType \<Rightarrow> u64" where
  "default_limit_free self = (case self of CpuMicroseconds \<Rightarrow> 100000 | MemoryBytes \<Rightarrow> 32 * 1024 * 1024 | NetworkBytes \<Rightarrow> 10 * 1024 * 1024
     | ConcurrentRequests \<Rightarrow> 5 | StorageBytes \<Rightarrow> 100 * 1024 * 1024)"

definition default_limit_pro :: "ResourceType \<Rightarrow> u64" where
  "default_limit_pro self = (case self of CpuMicroseconds \<Rightarrow> 1000000 | MemoryBytes \<Rightarrow> 256 * 1024 * 1024 | NetworkBytes \<Rightarrow> 100 * 1024 * 1024
     | ConcurrentRequests \<Rightarrow> 100 | StorageBytes \<Rightarrow> 10 * 1024 * 1024 * 1024)"

definition default_limit_enterprise :: "ResourceType \<Rightarrow> u64" where
  "default_limit_enterprise self = (case self of CpuMicroseconds \<Rightarrow> 10000000 | MemoryBytes \<Rightarrow> 2 * 1024 * 1024 * 1024 | NetworkBytes \<Rightarrow> 1024 * 1024 * 1024
     | ConcurrentRequests \<Rightarrow> 1000 | StorageBytes \<Rightarrow> 1024 * 1024 * 1024 * 1024)"

text \<open>None of the products wraps around, and a higher tier has the higher limit.\<close>

lemma default_limits_rise:
  "default_limit_free t < default_limit_pro t" "default_limit_pro t < default_limit_enterprise t"
  by (cases t; simp add: default_limit_free_def default_limit_pro_def default_limit_enterprise_def)+

text \<open>The limits of a tenant's tier are others: twice as many bytes as the memory limit of the same tier would be within the tenant's.\<close>

lemma limits_disagree:
  "unat (max_memory_mb (for_tier Free)) * 2 ^ 20 = 4 * unat (default_limit_free MemoryBytes)"
  "unat (max_concurrent_requests (for_tier Pro)) = 5 * unat (default_limit_pro ConcurrentRequests)"
  by (simp_all add: for_tier_def default_limit_free_def default_limit_pro_def)

section \<open>Telemetry\<close>

datatype TelemetryDomain = InternalDomain | ExternalDomain

datatype TelemetryEvent =
    LogError string
  | DporBacktrack u64
  | StateChanged u64 string
  | ApiTrace string string string bool
  | AxiomViolation string
  | AxiomClean
  | PanicEvent string "string option"
  | ExternalSinkError string string

definition telemetry_event_domain :: "TelemetryEvent \<Rightarrow> TelemetryDomain" where
  "telemetry_event_domain self = (case self of LogError _ \<Rightarrow> ExternalDomain | PanicEvent _ _ \<Rightarrow> ExternalDomain
     | ExternalSinkError _ _ \<Rightarrow> ExternalDomain | _ \<Rightarrow> InternalDomain)"

text \<open>The sample rate is a floating-point number; its range check is an argument.\<close>

record 'f TelemetryConfig =
  tc_dsn :: string
  tc_environment :: string
  tc_release_version :: string
  tc_sample_rate :: 'f
  tc_retention_days :: u32
  tc_opt_in :: bool
  tc_domain :: TelemetryDomain

definition TelemetryConfig_default :: "'f \<Rightarrow> 'f TelemetryConfig" where
  "TelemetryConfig_default zero = \<lparr>tc_dsn = [], tc_environment = ''development'', tc_release_version = ''unknown'', tc_sample_rate = zero,
     tc_retention_days = 180, tc_opt_in = False, tc_domain = ExternalDomain\<rparr>"

definition TelemetryConfig_is_valid :: "('f \<Rightarrow> bool) \<Rightarrow> 'f TelemetryConfig \<Rightarrow> bool" where
  "TelemetryConfig_is_valid in_unit self \<longleftrightarrow> in_unit (tc_sample_rate self) \<and> tc_retention_days self = 180"

definition log_redacted_fmt :: "'t \<Rightarrow> string" where
  "log_redacted_fmt self = ''[REDACTED]''"

section \<open>Pool\<close>

datatype StorageStrategy = StandardStorage | TurboStorage

definition expected_latency_ns :: "StorageStrategy \<Rightarrow> u64" where
  "expected_latency_ns self = (case self of StandardStorage \<Rightarrow> 41500 | TurboStorage \<Rightarrow> 500)"

definition is_zero_copy :: "StorageStrategy \<Rightarrow> bool" where
  "is_zero_copy self \<longleftrightarrow> self = TurboStorage"

definition strategy_name :: "StorageStrategy \<Rightarrow> string" where
  "strategy_name self = (case self of StandardStorage \<Rightarrow> ''Standard-FFI'' | TurboStorage \<Rightarrow> ''Turbo-ZeroCopy'')"

datatype HealthStatus = Healthy | Degraded string | Unhealthy string

definition is_healthy :: "HealthStatus \<Rightarrow> bool" where
  "is_healthy self \<longleftrightarrow> self = Healthy"

definition is_degraded :: "HealthStatus \<Rightarrow> bool" where
  "is_degraded self \<longleftrightarrow> (case self of Degraded _ \<Rightarrow> True | _ \<Rightarrow> False)"

definition is_unhealthy :: "HealthStatus \<Rightarrow> bool" where
  "is_unhealthy self \<longleftrightarrow> (case self of Unhealthy _ \<Rightarrow> True | _ \<Rightarrow> False)"

definition health_reason :: "HealthStatus \<Rightarrow> string option" where
  "health_reason self = (case self of Healthy \<Rightarrow> None | Degraded reason \<Rightarrow> Some reason | Unhealthy reason \<Rightarrow> Some reason)"

text \<open>A status is in exactly one class, and exactly the healthy one has no reason.\<close>

lemma health_classes:
  "(is_healthy s \<or> is_degraded s \<or> is_unhealthy s) \<and> \<not> (is_healthy s \<and> is_degraded s) \<and> \<not> (is_healthy s \<and> is_unhealthy s)
     \<and> \<not> (is_degraded s \<and> is_unhealthy s) \<and> (health_reason s = None \<longleftrightarrow> is_healthy s)"
  by (cases s) (simp_all add: is_healthy_def is_degraded_def is_unhealthy_def health_reason_def)

section \<open>Server statistics\<close>

record 'f QuicServerStats =
  qs_total_requests :: u64
  qs_active_connections :: u32
  qs_total_bytes_in :: u64
  qs_total_bytes_out :: u64
  qs_avg_latency_ms :: 'f
  qs_error_count :: u64
  qs_uptime_ms :: u64

record 'f TransportStats =
  ts_total_packets_received :: u64
  ts_active_connections :: u32
  ts_total_bytes_in :: u64
  ts_total_bytes_out :: u64
  ts_error_count :: u64
  ts_uptime_ms :: u64
  ts_avg_latency_ms :: 'f

definition into_transport_stats :: "'f QuicServerStats \<Rightarrow> 'f TransportStats" where
  "into_transport_stats self =
     \<lparr>ts_total_packets_received = qs_total_requests self, ts_active_connections = qs_active_connections self, ts_total_bytes_in = qs_total_bytes_in self,
      ts_total_bytes_out = qs_total_bytes_out self, ts_error_count = qs_error_count self, ts_uptime_ms = qs_uptime_ms self, ts_avg_latency_ms = qs_avg_latency_ms self\<rparr>"

text \<open>The conversion loses nothing.\<close>

lemma into_transport_stats_inj: "into_transport_stats a = into_transport_stats b \<longleftrightarrow> a = (b :: 'f QuicServerStats)"
  by (cases a; cases b) (auto simp: into_transport_stats_def)

section \<open>Usage of a tenant\<close>

record ResourceUsage =
  ru_tenant_id :: string
  cpu_used_us :: u64
  memory_used_bytes :: u64
  network_used_bytes :: u64
  ru_concurrent_requests :: u32
  storage_used_bytes :: u64

definition ResourceUsage_new :: "string \<Rightarrow> ResourceUsage" where
  "ResourceUsage_new tenant_id = \<lparr>ru_tenant_id = tenant_id, cpu_used_us = 0, memory_used_bytes = 0, network_used_bytes = 0, ru_concurrent_requests = 0, storage_used_bytes = 0\<rparr>"

definition ResourceUsage_default :: ResourceUsage where
  "ResourceUsage_default = ResourceUsage_new ''unknown''"

definition is_within_free_tier :: "ResourceUsage \<Rightarrow> bool" where
  "is_within_free_tier self \<longleftrightarrow> cpu_used_us self \<le> default_limit_free CpuMicroseconds \<and> memory_used_bytes self \<le> default_limit_free MemoryBytes
     \<and> network_used_bytes self \<le> default_limit_free NetworkBytes \<and> ucast (ru_concurrent_requests self) \<le> default_limit_free ConcurrentRequests"

text \<open>What has been used of a resource.\<close>

definition used :: "ResourceUsage \<Rightarrow> ResourceType \<Rightarrow> u64" where
  "used self r = (case r of CpuMicroseconds \<Rightarrow> cpu_used_us self | MemoryBytes \<Rightarrow> memory_used_bytes self | NetworkBytes \<Rightarrow> network_used_bytes self
     | ConcurrentRequests \<Rightarrow> ucast (ru_concurrent_requests self) | StorageBytes \<Rightarrow> storage_used_bytes self)"

text \<open>The check covers every resource but the storage.\<close>

lemma free_tier_check: "is_within_free_tier u \<longleftrightarrow> (\<forall>r. r \<noteq> StorageBytes \<longrightarrow> used u r \<le> default_limit_free r)"
  unfolding is_within_free_tier_def
proof safe
  fix r assume "cpu_used_us u \<le> default_limit_free CpuMicroseconds" "memory_used_bytes u \<le> default_limit_free MemoryBytes"
    "network_used_bytes u \<le> default_limit_free NetworkBytes" "ucast (ru_concurrent_requests u) \<le> default_limit_free ConcurrentRequests" "r \<noteq> StorageBytes"
  then show "used u r \<le> default_limit_free r" by (cases r) (simp_all add: used_def)
qed (auto simp: used_def dest: spec [where x = CpuMicroseconds] spec [where x = MemoryBytes] spec [where x = NetworkBytes] spec [where x = ConcurrentRequests])

lemma storage_unchecked: "is_within_free_tier ((ResourceUsage_new t)\<lparr>storage_used_bytes := default_limit_free StorageBytes + 1\<rparr>)"
  by (simp add: is_within_free_tier_def ResourceUsage_new_def default_limit_free_def)

section \<open>Runtime statistics\<close>

record RuntimeStats =
  isolate_count :: u32
  active_isolates :: u32
  heap_bytes :: u64
  rs_total_requests :: u64
  rs_pending_requests :: u32
  total_exec_us :: u64

definition RuntimeStats_new :: RuntimeStats where
  "RuntimeStats_new = \<lparr>isolate_count = 0, active_isolates = 0, heap_bytes = 0, rs_total_requests = 0, rs_pending_requests = 0, total_exec_us = 0\<rparr>"

text \<open>The floating-point zero and the quotient of two converted integers are arguments.\<close>

definition avg_exec_us :: "'f \<Rightarrow> (u64 \<Rightarrow> u64 \<Rightarrow> 'f) \<Rightarrow> RuntimeStats \<Rightarrow> 'f" where
  "avg_exec_us f_zero divide_f64 self = (if rs_total_requests self = 0 then f_zero else divide_f64 (total_exec_us self) (rs_total_requests self))"

text \<open>No division by zero: what the quotient does there is never used.\<close>

lemma avg_exec_us_total: "(\<And>x n. n \<noteq> 0 \<Longrightarrow> q x n = q' x n) \<Longrightarrow> avg_exec_us z q s = avg_exec_us z q' s"
  by (simp add: avg_exec_us_def)

section \<open>The pluggable network\<close>

record TransportPacket =
  tp_data :: "u8 list"
  tp_connection_id :: u64
  tp_timestamp_us :: u64
  tp_stream_id :: "u64 option"

text \<open>The wall clock gives the microseconds since the epoch, or nothing when it stands before it.\<close>

definition WallClockProvider_now_us :: "nat option \<Rightarrow> u64" where
  "WallClockProvider_now_us since_epoch = (case since_epoch of None \<Rightarrow> 0 | Some micros \<Rightarrow> of_nat micros)"

definition TransportPacket_new :: "nat option \<Rightarrow> u8 list \<Rightarrow> u64 \<Rightarrow> TransportPacket" where
  "TransportPacket_new since_epoch bytes connection_id =
     (let now = (case since_epoch of None \<Rightarrow> 0 | Some micros \<Rightarrow> of_nat micros)
      in \<lparr>tp_data = bytes, tp_connection_id = connection_id, tp_timestamp_us = now, tp_stream_id = None\<rparr>)"

definition TransportPacket_len :: "TransportPacket \<Rightarrow> nat" where
  "TransportPacket_len self = length (tp_data self)"

definition TransportPacket_is_empty :: "TransportPacket \<Rightarrow> bool" where
  "TransportPacket_is_empty self = List.null (tp_data self)"

datatype ('os, 'addr, 'any) BoundSocket = OsSocket 'os | VirtualSocket 'addr 'any

text \<open>Binding by the operating system is an argument.\<close>

definition OsSocketProvider_bind :: "('addr \<Rightarrow> 'e + 'os) \<Rightarrow> 'addr \<Rightarrow> TransportError + ('os, 'addr, 'any) BoundSocket" where
  "OsSocketProvider_bind udp_bind addr = (case udp_bind addr of Inl _ \<Rightarrow> Inl TIoError | Inr socket \<Rightarrow> Inr (OsSocket socket))"

datatype InterceptReason = PacketDrop | InterceptPartition

definition NullInterceptor_on_receive :: "TransportPacket \<Rightarrow> (InterceptReason + unit) \<times> TransportPacket" where
  "NullInterceptor_on_receive packet = (Inr (), packet)"

definition NullInterceptor_on_send :: "TransportPacket \<Rightarrow> u64" where
  "NullInterceptor_on_send packet = 0"

text \<open>A packet made while the wall clock stands still carries its time; a clock beyond 64 bits of microseconds wraps around.\<close>

lemma packet_time: "tp_timestamp_us (TransportPacket_new c d i) = WallClockProvider_now_us c"
  "micros < 2 ^ 64 \<Longrightarrow> unat (WallClockProvider_now_us (Some micros)) = micros"
  by (simp_all add: TransportPacket_new_def WallClockProvider_now_us_def unat_of_nat)

lemma packet_empty: "TransportPacket_is_empty p \<longleftrightarrow> TransportPacket_len p = 0"
  by (simp add: TransportPacket_is_empty_def TransportPacket_len_def List.null_iff)

text \<open>An I/O error is all that the caller learns, and reads back as a retryable network error.\<close>

lemma bind_fails_retryable:
  "OsSocketProvider_bind udp addr = Inl e \<Longrightarrow> (\<exists>x. udp addr = Inl x) \<and> is_retryable (from_code (transport_error_code e))"
  by (auto simp: OsSocketProvider_bind_def transport_codes_retryable split: sum.splits)

section \<open>Platform configuration\<close>

record NetworkConfig =
  nc_max_connections :: u32
  nc_idle_timeout_ms :: u64
  nc_bind_address :: string
  nc_port :: u16

definition NetworkConfig_default :: NetworkConfig where
  "NetworkConfig_default = \<lparr>nc_max_connections = 1000, nc_idle_timeout_ms = 30000, nc_bind_address = ''127.0.0.1'', nc_port = 4433\<rparr>"

record VerificationConfig =
  vc_max_virtual_users :: u32
  vc_max_simulation_duration_secs :: u64
  vc_deterministic :: bool
  vc_global_seed :: u64

definition VerificationConfig_default :: VerificationConfig where
  "VerificationConfig_default = \<lparr>vc_max_virtual_users = 100, vc_max_simulation_duration_secs = 300, vc_deterministic = True, vc_global_seed = 0xDEADBEEFCAFE1337\<rparr>"

record ResourceLimitConfig =
  rl_max_memory_per_vu_bytes :: u64
  rl_max_scheduler_threads :: u32
  rl_max_trace_events :: u32

definition ResourceLimitConfig_default :: ResourceLimitConfig where
  "ResourceLimitConfig_default = \<lparr>rl_max_memory_per_vu_bytes = 64 * 1024 * 1024, rl_max_scheduler_threads = 8, rl_max_trace_events = 100000\<rparr>"

record LaplaceConfig =
  lc_network :: NetworkConfig
  lc_verification :: VerificationConfig
  lc_resources :: ResourceLimitConfig

definition LaplaceConfig_default :: LaplaceConfig where
  "LaplaceConfig_default = \<lparr>lc_network = NetworkConfig_default, lc_verification = VerificationConfig_default, lc_resources = ResourceLimitConfig_default\<rparr>"

text \<open>The two configurations agree on the number of threads, and the memory of all virtual users fits into 64 bits.\<close>

lemma default_configs_fit:
  "rl_max_scheduler_threads (lc_resources LaplaceConfig_default) = ac_max_threads (gc_axiom LaplaceGlobalConfig_default)"
  "unat (vc_max_virtual_users (lc_verification LaplaceConfig_default)) * unat (rl_max_memory_per_vu_bytes (lc_resources LaplaceConfig_default)) < 2 ^ 64"
  by (simp_all add: LaplaceConfig_default_def ResourceLimitConfig_default_def VerificationConfig_default_def LaplaceGlobalConfig_default_def AxiomConfig_default_def)

datatype ConfigSyncError = ChannelClosed | Rejected string

fun ConfigSyncError_display :: "ConfigSyncError \<Rightarrow> string" where
  "ConfigSyncError_display ChannelClosed = ''IPC channel closed''"
| "ConfigSyncError_display (Rejected reason) = ''Config rejected by daemon: '' @ reason"

lemma ConfigSyncError_text: "ConfigSyncError_display a = ConfigSyncError_display b \<longleftrightarrow> a = b"
  by (cases a; cases b) simp_all

section \<open>Texts\<close>

definition ResourceType_display :: "ResourceType \<Rightarrow> string" where
  "ResourceType_display self = (case self of CpuMicroseconds \<Rightarrow> ''CPU'' | MemoryBytes \<Rightarrow> ''Memory'' | NetworkBytes \<Rightarrow> ''Network''
     | ConcurrentRequests \<Rightarrow> ''Concurrency'' | StorageBytes \<Rightarrow> ''Storage'')"

definition knul_error_display :: "TransportError \<Rightarrow> string" where
  "knul_error_display self = (case self of TConnectionClosed \<Rightarrow> ''Connection closed or unreachable'' | TStreamError \<Rightarrow> ''Stream operation failed''
     | TInvalidConfig \<Rightarrow> ''Configuration invalid'' | TIoError \<Rightarrow> ''Internal I/O error'' | TTlsError \<Rightarrow> ''TLS handshake failed'' | TTimeout \<Rightarrow> ''Operation timed out'')"

definition transport_error_display :: "TransportError \<Rightarrow> string" where
  "transport_error_display self = (case self of TConnectionClosed \<Rightarrow> ''Connection closed'' | TStreamError \<Rightarrow> ''Stream error''
     | TInvalidConfig \<Rightarrow> ''Invalid configuration'' | TIoError \<Rightarrow> ''I/O error'' | TTlsError \<Rightarrow> ''TLS error'' | TTimeout \<Rightarrow> ''Operation timeout'')"

definition tui_display_name :: "tui_Tier \<Rightarrow> string" where
  "tui_display_name self = (case self of TuiFree \<Rightarrow> ''Free'' | TuiPro \<Rightarrow> ''Pro'' | TuiUltra \<Rightarrow> ''Ultra'' | TuiEnterprise \<Rightarrow> ''Enterprise'')"

text \<open>The check mark and the cross as their bytes in UTF-8.\<close>

definition check_mark :: string where "check_mark = [CHR 0xE2, CHR 0x9C, CHR 0x93]"

definition cross_mark :: string where "cross_mark = [CHR 0xE2, CHR 0x9C, CHR 0x97]"

definition auth_display :: "TuiCapabilities \<Rightarrow> string" where
  "auth_display self = (if is_authenticated self then check_mark @ '' Active'' else cross_mark @ '' Failed'')"

definition signature_display :: "TuiCapabilities \<Rightarrow> string" where
  "signature_display self = (case tui_signature self of Some sig \<Rightarrow> ''Laplace-Signature: '' @ sig @ '' '' @ check_mark | None \<Rightarrow> ''Laplace-Signature: Not Provided'')"

text \<open>Each text tells what it was made from; no signature can print as a missing one.\<close>

lemma ResourceType_text: "ResourceType_display r = ResourceType_display q \<longleftrightarrow> r = q"
  by (cases r; cases q) (simp_all add: ResourceType_display_def)

lemma TransportError_texts: "knul_error_display e = knul_error_display d \<longleftrightarrow> e = d" "transport_error_display e = transport_error_display d \<longleftrightarrow> e = d"
  by (cases e; cases d; simp add: knul_error_display_def transport_error_display_def)+

lemma tui_Tier_text: "tui_display_name t = tui_display_name u \<longleftrightarrow> t = u"
  by (cases t; cases u) (simp_all add: tui_display_name_def)

lemma signature_text: "signature_display a = signature_display b \<longleftrightarrow> tui_signature a = tui_signature b"
proof -
  have "''Laplace-Signature: '' @ sig @ '' '' @ check_mark \<noteq> ''Laplace-Signature: Not Provided''" for sig
    by (auto simp: check_mark_def dest: arg_cong [where f = last])
  then show ?thesis by (auto simp: signature_display_def split: option.splits) (metis append_Cons append_Nil)+
qed

end
