(* ===== verification/TraceLines.thy ===== *)
theory TraceLines
  imports Clocks RequestContext Abi
begin

text \<open>
  What \<^verbatim>\<open>laplace-interfaces\<close> prints into logs: trace events and tracing errors (\<^verbatim>\<open>domain/tracing/types.rs\<close>, \<^verbatim>\<open>domain/tracing/traits.rs\<close>), error codes
  (\<^verbatim>\<open>error/codes.rs\<close>) and request contexts (\<^verbatim>\<open>domain/context.rs\<close>).
\<close>

section \<open>Trace events\<close>

definition TraceThread_display :: "TraceThread \<Rightarrow> string" where
  "TraceThread_display self = ''T'' @ decimal (unat (thread_num self))"

definition LamportTimestamp_display :: "LamportTimestamp \<Rightarrow> string" where
  "LamportTimestamp_display self = ''@'' @ decimal (unat (stamp self))"

fun FenceType_display :: "FenceType \<Rightarrow> string" where
  "FenceType_display FenceAcquire = ''Acquire''"
| "FenceType_display FenceRelease = ''Release''"
| "FenceType_display FenceSeqCst = ''SeqCst''"

fun MemoryOperation_display :: "MemoryOperation \<Rightarrow> string" where
  "MemoryOperation_display (MemRead addr val cache_hit) = ''Read(0x'' @ hexadecimal (unat (address_as_usize addr)) @ '') = '' @ decimal (unat val) @ '' ''
     @ (if cache_hit then ''[cache]'' else ''[main]'')"
| "MemoryOperation_display (MemWrite addr val buffered) = ''Write(0x'' @ hexadecimal (unat (address_as_usize addr)) @ '', '' @ decimal (unat val) @ '') ''
     @ (if buffered then ''[buffered]'' else ''[direct]'')"
| "MemoryOperation_display (MemBufferFlush addr val) = ''Flush(0x'' @ hexadecimal (unat (address_as_usize addr)) @ '', '' @ decimal (unat val) @ '')''"
| "MemoryOperation_display (MemFence fence_type) = ''Fence('' @ FenceType_display fence_type @ '')''"

fun SyncEvent_display :: "SyncEvent \<Rightarrow> string" where
  "SyncEvent_display (MutexLock lock_id) = ''MutexLock('' @ decimal (unat lock_id) @ '')''"
| "SyncEvent_display (MutexUnlock lock_id) = ''MutexUnlock('' @ decimal (unat lock_id) @ '')''"
| "SyncEvent_display (CondVarWait cv_id) = ''CondVarWait('' @ decimal (unat cv_id) @ '')''"
| "SyncEvent_display (CondVarSignal cv_id) = ''CondVarSignal('' @ decimal (unat cv_id) @ '')''"

definition ClockEvent_display :: "ClockEvent \<Rightarrow> string" where
  "ClockEvent_display self = ''ClockTick('' @ LamportTimestamp_display (ce_prev_timestamp self) @ '' -> '' @ LamportTimestamp_display (ce_new_timestamp self) @ '')''"

definition SimulationEvent_display :: "SimulationEvent \<Rightarrow> string" where
  "SimulationEvent_display self = ''['' @ TraceThread_display (em_thread_id (metadata self)) @ ''@'' @ LamportTimestamp_display (em_timestamp (metadata self)) @ ''] ''
     @ (case self of
          ClockTick _ event \<Rightarrow> ClockEvent_display event
        | Memory _ operation \<Rightarrow> MemoryOperation_display operation
        | Synchronization _ sync_event \<Rightarrow> SyncEvent_display sync_event
        | SimThreadSpawn _ child_id \<Rightarrow> ''Spawn -> '' @ TraceThread_display child_id
        | SimThreadJoin _ child_id \<Rightarrow> ''Join <- '' @ TraceThread_display child_id)"

datatype TracingError = TraceBufferFull | CausalityViolation LamportTimestamp LamportTimestamp | TraceInvalidThreadId u32

fun TracingError_display :: "TracingError \<Rightarrow> string" where
  "TracingError_display TraceBufferFull = ''Event buffer is full''"
| "TracingError_display (CausalityViolation expected_min received) =
     ''Causality violation: expected timestamp >= '' @ decimal (unat (stamp expected_min)) @ '', got '' @ decimal (unat (stamp received))"
| "TracingError_display (TraceInvalidThreadId tid) = ''Invalid thread ID: '' @ decimal (unat tid)"

section \<open>Error codes\<close>

definition LaplaceError_message :: "LaplaceError \<Rightarrow> string" where
  "LaplaceError_message self = (case self of
      Success \<Rightarrow> ''Success'' | Internal \<Rightarrow> ''Internal error'' | InvalidContext \<Rightarrow> ''Invalid context'' | AbiMismatch \<Rightarrow> ''ABI version mismatch''
    | MemoryAlignment \<Rightarrow> ''Memory alignment violation'' | InvalidPointer \<Rightarrow> ''Invalid pointer'' | Timeout \<Rightarrow> ''Operation timeout''
    | KernelTimeout \<Rightarrow> ''Kernel operation timeout'' | SdkTimeout \<Rightarrow> ''SDK operation timeout'' | LockTimeout \<Rightarrow> ''Lock acquisition timeout''
    | QuotaExceeded \<Rightarrow> ''Resource quota exceeded'' | OutOfMemory \<Rightarrow> ''Out of memory'' | CpuQuotaExceeded \<Rightarrow> ''CPU quota exceeded''
    | ConcurrencyLimitExceeded \<Rightarrow> ''Concurrency limit exceeded'' | PoolExhausted \<Rightarrow> ''Connection pool exhausted'' | HandshakeFailed \<Rightarrow> ''Handshake failed''
    | InvalidRequest \<Rightarrow> ''Invalid request'' | VersionMismatch \<Rightarrow> ''Version mismatch'' | TenantNotFound \<Rightarrow> ''Tenant not found''
    | Unauthorized \<Rightarrow> ''Unauthorized'' | NetworkError \<Rightarrow> ''Network error'' | ConnectionFailed \<Rightarrow> ''Connection failed''
    | SerializationError \<Rightarrow> ''Serialization error'' | VerificationError \<Rightarrow> ''Verification error'' | IsolatePoolError \<Rightarrow> ''Isolate pool error''
    | SchedulerError \<Rightarrow> ''Scheduler error'')"

text \<open>The derived \<open>Debug\<close> text is the name of the variant.\<close>

definition LaplaceError_debug :: "LaplaceError \<Rightarrow> string" where
  "LaplaceError_debug self = (case self of
      Success \<Rightarrow> ''Success'' | Internal \<Rightarrow> ''Internal'' | InvalidContext \<Rightarrow> ''InvalidContext'' | AbiMismatch \<Rightarrow> ''AbiMismatch''
    | MemoryAlignment \<Rightarrow> ''MemoryAlignment'' | InvalidPointer \<Rightarrow> ''InvalidPointer'' | Timeout \<Rightarrow> ''Timeout''
    | KernelTimeout \<Rightarrow> ''KernelTimeout'' | SdkTimeout \<Rightarrow> ''SdkTimeout'' | LockTimeout \<Rightarrow> ''LockTimeout''
    | QuotaExceeded \<Rightarrow> ''QuotaExceeded'' | OutOfMemory \<Rightarrow> ''OutOfMemory'' | CpuQuotaExceeded \<Rightarrow> ''CpuQuotaExceeded''
    | ConcurrencyLimitExceeded \<Rightarrow> ''ConcurrencyLimitExceeded'' | PoolExhausted \<Rightarrow> ''PoolExhausted'' | HandshakeFailed \<Rightarrow> ''HandshakeFailed''
    | InvalidRequest \<Rightarrow> ''InvalidRequest'' | VersionMismatch \<Rightarrow> ''VersionMismatch'' | TenantNotFound \<Rightarrow> ''TenantNotFound''
    | Unauthorized \<Rightarrow> ''Unauthorized'' | NetworkError \<Rightarrow> ''NetworkError'' | ConnectionFailed \<Rightarrow> ''ConnectionFailed''
    | SerializationError \<Rightarrow> ''SerializationError'' | VerificationError \<Rightarrow> ''VerificationError'' | IsolatePoolError \<Rightarrow> ''IsolatePoolError''
    | SchedulerError \<Rightarrow> ''SchedulerError'')"

definition LaplaceError_display :: "LaplaceError \<Rightarrow> string" where
  "LaplaceError_display self = ''LaplaceError::'' @ LaplaceError_debug self @ '' (0x'' @ zero_padded 4 (hexadecimal (unat (error_code self))) @ ''): '' @ LaplaceError_message self"

section \<open>Request contexts\<close>

definition TenantTier_debug :: "TenantTier \<Rightarrow> string" where
  "TenantTier_debug t = (case t of Free \<Rightarrow> ''Free'' | Standard \<Rightarrow> ''Standard'' | Turbo \<Rightarrow> ''Turbo'' | Pro \<Rightarrow> ''Pro'' | Enterprise \<Rightarrow> ''Enterprise'')"

definition PriorityLevel_debug :: "PriorityLevel \<Rightarrow> string" where
  "PriorityLevel_debug p = (case p of Lowest \<Rightarrow> ''Lowest'' | Low \<Rightarrow> ''Low'' | Normal \<Rightarrow> ''Normal'' | High \<Rightarrow> ''High'' | Critical \<Rightarrow> ''Critical''
     | SystemCritical \<Rightarrow> ''SystemCritical'')"

text \<open>The nanoseconds of the wall clock, cut to 64 bits, and 0 when the clock is before the epoch.\<close>

definition current_timestamp :: "nat option \<Rightarrow> u64" where
  "current_timestamp since_epoch = (case since_epoch of None \<Rightarrow> 0 | Some nanos \<Rightarrow> of_nat nanos)"

definition SovereignContext_display :: "u64 \<Rightarrow> SovereignContext \<Rightarrow> string" where
  "SovereignContext_display now self =
     (let tier_str = (case tenant_tier self of Some t \<Rightarrow> TenantTier_debug t | None \<Rightarrow> ''Invalid('' @ decimal (unat (sc_tier self)) @ '')'');
          priority_str = (case priority_level self of Some p \<Rightarrow> PriorityLevel_debug p | None \<Rightarrow> ''Invalid('' @ decimal (unat (sc_priority self)) @ '')'')
      in ''SovereignContext { req_id: '' @ sc_request_id self @ '', tenant: '' @ sc_tenant_id self @ '', trace: '' @ sc_trace_id self
         @ '', priority: '' @ priority_str @ '', tier: '' @ tier_str @ '', turbo: '' @ (if sc_is_turbo_mode self then ''true'' else ''false'')
         @ '', turbo_slot: '' @ (if has_turbo_slot self then decimal (unat (sc_turbo_slot self)) else ''None'')
         @ '', elapsed: '' @ decimal (unat (elapsed_ns now self)) @ ''ns }'')"

section \<open>What a line tells\<close>

lemma same_trace_ids [simp]: "thread_num a = thread_num b \<longleftrightarrow> a = b" "stamp s = stamp t \<longleftrightarrow> s = t"
  by (auto intro: TraceThread.expand LamportTimestamp.expand)

lemma FenceType_text [simp]: "FenceType_display a = FenceType_display b \<longleftrightarrow> a = b"
  by (cases a; cases b) simp_all

lemma MemoryOperation_text: "MemoryOperation_display a = MemoryOperation_display b \<longleftrightarrow> a = b"
  by (cases a; cases b) (auto simp: text_simps)

lemma SyncEvent_text: "SyncEvent_display a = SyncEvent_display b \<longleftrightarrow> a = b"
  by (cases a; cases b) (auto simp: text_simps)

lemma ClockEvent_text: "ClockEvent_display a = ClockEvent_display b \<longleftrightarrow> a = b"
  by (cases a; cases b) (simp add: ClockEvent_display_def LamportTimestamp_display_def text_simps)

lemmas event_texts = MemoryOperation_text SyncEvent_text ClockEvent_text

text \<open>The five kinds of event differ in their first letters.\<close>

lemma bodies_apart:
  "ClockEvent_display c \<noteq> MemoryOperation_display m" "ClockEvent_display c \<noteq> SyncEvent_display e" "MemoryOperation_display m \<noteq> SyncEvent_display e"
  "ClockEvent_display c \<noteq> CHR ''S'' # r" "ClockEvent_display c \<noteq> CHR ''J'' # r"
  "MemoryOperation_display m \<noteq> CHR ''S'' # r" "MemoryOperation_display m \<noteq> CHR ''J'' # r"
  "SyncEvent_display e \<noteq> CHR ''S'' # r" "SyncEvent_display e \<noteq> CHR ''J'' # r"
  by (cases m; cases e; simp add: ClockEvent_display_def)+

text \<open>An event without what its line leaves out: the sequence number in its thread.\<close>

fun without_seq :: "SimulationEvent \<Rightarrow> SimulationEvent" where
  "without_seq (ClockTick m e) = ClockTick (m\<lparr>em_pad := 0, em_seq_num := 0\<rparr>) e"
| "without_seq (Memory m e) = Memory (m\<lparr>em_pad := 0, em_seq_num := 0\<rparr>) e"
| "without_seq (Synchronization m e) = Synchronization (m\<lparr>em_pad := 0, em_seq_num := 0\<rparr>) e"
| "without_seq (SimThreadSpawn m t) = SimThreadSpawn (m\<lparr>em_pad := 0, em_seq_num := 0\<rparr>) t"
| "without_seq (SimThreadJoin m t) = SimThreadJoin (m\<lparr>em_pad := 0, em_seq_num := 0\<rparr>) t"

text \<open>The line of an event determines it up to the sequence number.\<close>

lemma trace_line_tells: "SimulationEvent_display a = SimulationEvent_display b \<longleftrightarrow> without_seq a = without_seq b"
proof -
  have meta: "m\<lparr>em_pad := 0, em_seq_num := 0\<rparr> = n\<lparr>em_pad := 0, em_seq_num := 0\<rparr> \<longleftrightarrow> em_timestamp m = em_timestamp n \<and> em_thread_id m = em_thread_id n"
    for m n :: EventMetadata by (cases m; cases n) auto
  note apart = bodies_apart bodies_apart [THEN not_sym]
  show ?thesis
    by (cases a; cases b)
      (simp_all add: SimulationEvent_display_def metadata_def TraceThread_display_def LamportTimestamp_display_def text_simps meta conj_ac event_texts apart)
qed

text \<open>Thread 1 at time 5 is printed with two at-signs, the one of the line and the one of the timestamp.\<close>

lemma doubled_at: "SimulationEvent_display (SimThreadSpawn (EventMetadata_new (LamportTimestamp 5) (TraceThread 1) 0) (TraceThread 2)) = ''[T1@@5] Spawn -> T2''"
  by (simp add: SimulationEvent_display_def metadata_def EventMetadata_new_def TraceThread_display_def LamportTimestamp_display_def decimal.simps digit_as_hex digits_table)

lemma TracingError_text: "TracingError_display a = TracingError_display b \<longleftrightarrow> a = b"
  by (cases a; cases b) (simp_all add: text_simps)

text \<open>Messages are different for different errors, so the text of an error tells its code; the code is printed in hexadecimal.\<close>

lemma message_inject: "LaplaceError_message a = LaplaceError_message b \<longleftrightarrow> a = b"
  by (cases a; cases b) (simp_all add: LaplaceError_message_def)

lemma codes_in_hexadecimal:
  "LaplaceError_display Internal = ''LaplaceError::Internal (0x03e8): Internal error''"
  "LaplaceError_display VerificationError = ''LaplaceError::VerificationError (0x1770): Verification error''"
  by (simp_all add: LaplaceError_display_def LaplaceError_debug_def LaplaceError_message_def error_code_def zero_padded_def
      hexadecimal.simps digits_table)

text \<open>A context that is valid prints its tier and its priority by name, and the text of a slot shows whether it has one.\<close>

lemma valid_context_text:
  assumes "context_is_valid c"
  shows "\<exists>t p. tenant_tier c = Some t \<and> priority_level c = Some p \<and> SovereignContext_display now c =
    ''SovereignContext { req_id: '' @ sc_request_id c @ '', tenant: '' @ sc_tenant_id c @ '', trace: '' @ sc_trace_id c
         @ '', priority: '' @ PriorityLevel_debug p @ '', tier: '' @ TenantTier_debug t @ '', turbo: '' @ (if sc_is_turbo_mode c then ''true'' else ''false'')
         @ '', turbo_slot: '' @ (case get_turbo_slot c of None \<Rightarrow> ''None'' | Some slot \<Rightarrow> decimal (unat slot))
         @ '', elapsed: '' @ decimal (unat (elapsed_ns now c)) @ ''ns }''"
  using assms unfolding context_is_valid_iff
  by (auto simp: SovereignContext_display_def Let_def has_turbo_slot_def get_turbo_slot_def)

end
