(* ===== verification/AsyncCapture.thy ===== *)
theory AsyncCapture
  imports ProbeHooks AsyncLedger ChannelLedger ArcSwapCells
begin

text \<open>
  The composition of the asynchronous seams with the probe and a capture session: what the captured events say of the live futures, guards and
  channel endpoints, of broadcasts and of cell versions. A reader of events is an interface; it is interpreted for the four families.
\<close>

section \<open>What one callback leaves in a session\<close>

definition capturing :: "sink \<Rightarrow> 'j probe \<Rightarrow> bool" where
  "capturing rx s \<longleftrightarrow> session_open rx s \<and> (\<forall>t. \<not> owns s t) \<and> \<not> has_global s"

lemma capturing_acts:
  assumes "capturing rx s" "\<forall>a\<in>set acts. (\<forall>t tx. a \<noteq> ActSetSender t tx) \<and> (\<forall>t. a \<noteq> ActClearSender t)"
  shows "capturing rx (fold probe_apply acts s)
    \<and> received rx (fold probe_apply acts s) = received rx s @ concat (map (\<lambda>a. case a of ActEmit t e \<Rightarrow> [e] | _ \<Rightarrow> []) acts)"
  using assms
proof (induction acts arbitrary: s)
  case (Cons a acts)
  have quiet: "\<not> sends_to rx a" using Cons.prems(2) by (auto simp: sends_to_def)
  have opened: "session_open rx s" using Cons.prems(1) by (simp add: capturing_def)
  have "received rx (probe_apply a s) = received rx s @ (case a of ActEmit t e \<Rightarrow> [e] | _ \<Rightarrow> [])"
    using captured_run [OF opened, of "[a]"] quiet Cons.prems by (cases a) (auto simp: capturing_def)
  moreover have "capturing rx (probe_apply a s)"
    using session_step [OF opened quiet] Cons.prems by (cases a) (auto simp: capturing_def)
  ultimately show ?case using Cons.IH [of "probe_apply a s"] Cons.prems(2) by simp
qed simp

definition task_acts :: "os_thread \<Rightarrow> TaskCall \<Rightarrow> 'j probe \<Rightarrow> 'j probe_act list" where
  "task_acts t c s =
     (case c of
        task_registered task \<Rightarrow> [ActEmit t (TaskProbe (TaskSpawned task None None))]
      | dynamic_task_spawned task \<Rightarrow> [ActEmit t (TaskProbe (TaskSpawned task (current_task_id t s) None))]
      | poll_started task attempt \<Rightarrow> [ActSetTask t task, ActSetThreadId t task, ActEmit t (TaskProbe (TaskPolled task attempt))]
      | poll_completed task attempt outcome \<Rightarrow>
          (case outcome of
             OutPending \<Rightarrow> [ActEmit t (TaskProbe (FuturePending task None attempt))]
           | OutReady \<Rightarrow> [ActEmit t (TaskProbe (FutureReady task None attempt))]
           | OutPanicked \<Rightarrow> []) @ [ActClearTask t]
      | task_completed task \<Rightarrow> [ActClearTask t, ActEmit t (TaskProbe (TaskCompleted task))]
      | join_requested joined \<Rightarrow>
          (case current_task_id t s of None \<Rightarrow> [] | Some i \<Rightarrow> [ActEmit t (TaskProbe (TaskJoinRequested i joined))])
      | join_resolved joined \<Rightarrow>
          (case current_task_id t s of None \<Rightarrow> [] | Some i \<Rightarrow> [ActEmit t (TaskProbe (TaskJoinResolved i joined))]))"

lemma task_call_acts: "probe_call t (TaskEv c) s = fold probe_apply (task_acts t c s) s"
  by (cases c) (simp_all add: probe_call_def ProbeTaskHook_def task_acts_def split: option.split TaskPollOutcome.split)

lemma task_call_events:
  assumes "capturing rx s"
  shows "capturing rx (probe_call t (TaskEv c) s)
    \<and> (\<exists>ks. received rx (probe_call t (TaskEv c) s) = received rx s @ map TaskProbe ks)"
proof -
  have "\<forall>a\<in>set (task_acts t c s). (\<forall>t tx. a \<noteq> ActSetSender t tx) \<and> (\<forall>t. a \<noteq> ActClearSender t)"
    by (cases c) (auto simp: task_acts_def split: option.splits TaskPollOutcome.splits)
  moreover have "\<exists>ks. concat (map (\<lambda>a. case a of ActEmit t e \<Rightarrow> [e] | _ \<Rightarrow> []) (task_acts t c s)) = map TaskProbe ks"
    by (cases c) (simp_all add: task_acts_def map_eq_Cons_conv eq_commute [of _ "map TaskProbe _"] split: option.split TaskPollOutcome.split)
  ultimately show ?thesis using capturing_acts [OF assms] unfolding task_call_acts by metis
qed

lemma projected_call_event:
  assumes "capturing rx s" "projected c"
  shows "capturing rx (probe_call t c s)
    \<and> (\<exists>i. received rx (probe_call t c s) = received rx s @ [the (call_event c i)])"
  using capturing_acts [OF assms(1), of "[ActCurrentThreadId t, ActEmit t (the (call_event c (thread_id (probe_apply (ActCurrentThreadId t) s) t)))]"]
  unfolding probe_call_projected [OF assms(2)] emit_here_acts by auto

section \<open>Readers\<close>

text \<open>A reading of the hook calls that has a counterpart on the events: the event of a call has the call's effect, and what is not projected has none.\<close>

locale event_reader =
  fixes call_effect :: "HookCall \<Rightarrow> 'x \<Rightarrow> 'x"
    and event_effect :: "'j ProbeEvent \<Rightarrow> 'x \<Rightarrow> 'x"
  assumes same_effect: "projected c \<Longrightarrow> event_effect (the (call_event c i)) x = call_effect c x"
    and silent: "\<not> projected c \<Longrightarrow> call_effect c x = x"
    and task_silent: "event_effect (TaskProbe k) x = x"
begin

lemma tasks_no_effect: "fold event_effect (map TaskProbe ks) x = x"
  by (induction ks) (simp_all add: task_silent)

lemma reading_run:
  "capturing rx s \<Longrightarrow> capturing rx (probe_run cs s)
    \<and> fold event_effect (received rx (probe_run cs s)) x = fold call_effect (map snd cs) (fold event_effect (received rx s) x)"
proof (induction cs arbitrary: s)
  case (Cons a cs)
  obtain t c where a: "a = (t, c)" by (cases a)
  let ?s = "probe_call t c s"
  have "capturing rx ?s \<and> fold event_effect (received rx ?s) x = call_effect c (fold event_effect (received rx s) x)"
  proof (cases "projected c")
    case True
    with projected_call_event [OF Cons.prems True, of t] show ?thesis by (auto simp: same_effect)
  next
    case False
    then consider (task) l where "c = TaskEv l" | (timer) l where "c = ATimerEv l" by (cases c) (simp_all add: projected_def)
    then show ?thesis
    proof cases
      case task
      with task_call_events [OF Cons.prems, of t l] silent [OF False] show ?thesis by (auto simp: tasks_no_effect)
    qed (use Cons.prems silent [OF False] in \<open>simp add: probe_call_def\<close>)
  qed
  with Cons.IH [of ?s] a show ?case by simp
qed simp

lemma session_reading:
  fixes s :: "'j probe"
  assumes "CaptureSession_begin s = Some (session, s1)" "\<forall>t. \<not> owns s t" "\<not> has_global s"
    and "CaptureSession_finish session (probe_run cs s1) = (events, s2)"
  shows "fold event_effect events x = fold call_effect (map snd cs) x"
proof -
  let ?rx = "length (channels s)"
  have s1: "session = \<lparr>cs_collector = Some ?rx\<rparr>" "s1 = s\<lparr>CAPTURE_LOCK := True, NEXT_IMPLICIT_THREAD_ID := 0,
      channels := channels s @ [\<lparr>cn_received = [], cn_alive = True\<rparr>], SESSION_SENDER := Some (Some ?rx)\<rparr>"
    using assms(1) by (auto simp: CaptureSession_begin_def Let_def split: if_splits)
  have "capturing ?rx s1" using assms(2,3)
    by (auto simp: s1 capturing_def session_open_def legacy_apart_def owns_def has_global_def slot_sender_def)
  from reading_run [OF this, of cs x]
  have "fold event_effect (received ?rx (probe_run cs s1)) x = fold call_effect (map snd cs) x" by (simp add: s1)
  moreover have "events = received ?rx (probe_run cs s1)"
    using assms(4) by (simp add: CaptureSession_finish_def CaptureSession_tear_down_def s1 Let_def split: option.splits)
  ultimately show ?thesis by simp
qed

end

section \<open>Locks\<close>

definition acquire_kind_of :: "ProbeAcquireKind \<Rightarrow> AsyncAcquireKind" where
  "acquire_kind_of kind =
     (case kind of PMutex \<Rightarrow> AcqMutex | PRwRead \<Rightarrow> AcqRwRead | PRwWrite \<Rightarrow> AcqRwWrite
      | PSemaphorePermits permits \<Rightarrow> AcqSemaphorePermits permits)"

definition channel_kind_of :: "ProbeChannelKind \<Rightarrow> AsyncChannelKind" where
  "channel_kind_of kind =
     (case kind of PMpscBounded capacity \<Rightarrow> MpscBounded capacity | PMpscUnbounded \<Rightarrow> MpscUnbounded | POneshot \<Rightarrow> Oneshot | PWatch \<Rightarrow> Watch)"

lemma kind_of_from [simp]:
  "acquire_kind_of (from_AsyncAcquireKind k) = k" "channel_kind_of (from_AsyncChannelKind ck) = ck"
   apply (cases k; simp add: acquire_kind_of_def from_AsyncAcquireKind_def)
  apply (cases ck; simp add: channel_kind_of_def from_AsyncChannelKind_def)
  done

fun al_event_effect :: "u64 \<Rightarrow> 'j ProbeEvent \<Rightarrow> standing \<Rightarrow> standing" where
  "al_event_effect w (AsyncLockProbe (AsyncLockRequested t r w' k)) x = (if w' = w then Queued r (acquire_kind_of k) else x)"
| "al_event_effect w (AsyncLockProbe (AsyncLockAcquired t r w' k)) x = (if w' = w then Held r (acquire_kind_of k) else x)"
| "al_event_effect w (AsyncLockProbe (AsyncLockReleased t r w' k)) x = (if w' = w then NoStanding else x)"
| "al_event_effect w (AsyncLockProbe (AsyncLockWaiterDropped t r w')) x = (if w' = w then NoStanding else x)"
| "al_event_effect w e x = x"

lemma lock_event_apart [simp]:
  "al_event_effect w (lock_probe_event l i) x = x"
  by (cases l) (simp_all add: lock_probe_event_def)

interpretation lock_reader: event_reader "al_effect w" "al_event_effect w :: 'j ProbeEvent \<Rightarrow> standing \<Rightarrow> standing"
proof
  show "al_event_effect w (the (call_event c i) :: 'j ProbeEvent) x = al_effect w c x" if "projected c" for c i x
  proof (cases c)
    case (ALockEv l)
    then show ?thesis by (cases l) (simp_all add: call_event_def async_lock_probe_event_def)
  qed (use that in \<open>simp_all add: projected_def call_event_def\<close>)
  show "al_effect w c x = x" if "\<not> projected c" for c x
    using that by (cases c) (simp_all add: projected_def)
qed simp

definition event_standing :: "'j ProbeEvent list \<Rightarrow> u64 \<Rightarrow> standing" where
  "event_standing events w = fold (al_event_effect w) events NoStanding"

text \<open>(C2) End to end for the asynchronous locks. Take any interleaving of operations on any number of asynchronous mutexes, reader-writer locks and semaphores,
  whatever the wrapped library does, and let the probe receive its hook calls, each on the thread that made it, in a capture session among calls of all
  other families. Then the events the session returns tell for each waiter exactly what it is: queued or holding, on which lock and how, when its unresolved future or its guard
  is alive, and nothing otherwise.\<close>

theorem captured_locks_are_live:
  fixes s :: "'j probe"
  assumes "CaptureSession_begin s = Some (session, s1)" "\<forall>t. \<not> owns s t" "\<not> has_global s"
    and "async_lock_hook (ls_rt c0) = Some h" "calls (ls_rt c0) = []" "ls_objs c0 = Map.empty" "lock_reach A c0 c"
    and log: "map snd cs = map snd (calls (ls_rt c))"
    and finish: "CaptureSession_finish session (probe_run cs s1) = (events, s2)"
  shows "event_standing events w = (case ls_objs c w of None \<Rightarrow> NoStanding | Some ob \<Rightarrow> obj_standing ob)"
proof -
  have "event_standing events w = fold (al_effect w) (map snd (calls (ls_rt c))) NoStanding"
    unfolding event_standing_def lock_reader.session_reading [OF assms(1-3) finish] log ..
  also have "\<dots> = standing_in (calls (ls_rt c)) w" by (simp add: standing_in_def fold_map comp_def case_prod_unfold)
  finally show ?thesis using lock_reach_inv [OF assms(7)] assms(4-6) by (simp add: ledger_inv_def)
qed

text \<open>Waiter 1 holds the demonstration mutex and waiter 2 queues; the calls come from thread 7.\<close>

theorem captured_locks_are_live_witness:
  "\<exists>c session s1 events s2. lock_reach bit_api (demo_sys False (demo_rt 1) Map.empty) c
     \<and> CaptureSession_begin (probe_init :: unit probe) = Some (session, s1)
     \<and> CaptureSession_finish session (probe_run (map (\<lambda>(h, e). (7, e)) (calls (ls_rt c))) s1) = (events, s2)
     \<and> event_standing events 1 = Held 1 AcqMutex \<and> event_standing events 2 = Queued 1 AcqMutex \<and> event_standing events 3 = NoStanding"
proof -
  obtain s where run: "lock_reach bit_api (demo_sys False (demo_rt 1) Map.empty)
     (demo_sys True s [1 \<mapsto> LockGuard \<lparr>amg_inner = (), amg_resource = 1, amg_waiter = 1\<rparr>,
       2 \<mapsto> LockFut (demo_fut 2 True False)])" (is "lock_reach _ _ ?c") using demo_reach by blast
  obtain session s1 where start: "CaptureSession_begin (probe_init :: unit probe) = Some (session, s1)"
    by (simp add: CaptureSession_begin_def probe_init_def Let_def)
  let ?cs = "map (\<lambda>(h, e). (7, e)) (calls (ls_rt ?c))"
  obtain events s2 where finish: "CaptureSession_finish session (probe_run ?cs s1) = (events, s2)" by fastforce
  have free: "\<forall>t. \<not> owns (probe_init :: unit probe) t" "\<not> has_global (probe_init :: unit probe)"
    by (simp_all add: owns_def has_global_def probe_init_def slot_sender_def)
  have "map snd ?cs = map snd (calls (ls_rt ?c))" by (simp add: case_prod_unfold)
  note view = captured_locks_are_live [OF start free _ _ _ run this finish, of 0]
  show ?thesis
    by (rule exI [of _ ?c], intro exI conjI, rule run, rule start, rule finish)
      (use view [of 1] view [of 2] view [of 3] in \<open>simp_all add: hook_reads hook_installs rt_init_def aml_standing_def\<close>)
qed

section \<open>Channels\<close>

fun ep_event_effect :: "u64 \<Rightarrow> 'j ProbeEvent \<Rightarrow> chan_view \<Rightarrow> chan_view" where
  "ep_event_effect r (AsyncChannelProbe (AsyncChannelCreated t r' kd)) v = (if r' = r then (Some (channel_kind_of kd), 1, 1) else v)"
| "ep_event_effect r (AsyncChannelProbe (AsyncChannelEndpointCloned t r' PSender)) v = (if r' = r then tx_plus v else v)"
| "ep_event_effect r (AsyncChannelProbe (AsyncChannelEndpointCloned t r' PReceiver)) v = (if r' = r then rx_plus v else v)"
| "ep_event_effect r (AsyncChannelProbe (AsyncChannelEndpointDropped t r' PSender)) v = (if r' = r then tx_minus v else v)"
| "ep_event_effect r (AsyncChannelProbe (AsyncChannelEndpointDropped t r' PReceiver)) v = (if r' = r then rx_minus v else v)"
| "ep_event_effect r (AsyncChannelProbe (AsyncChannelOpResolved t r' w PSend out)) v = (if r' = r then tx_used v else v)"
| "ep_event_effect r e v = v"

lemma ep_effects_agree: "ep_event_effect r (AsyncChannelProbe (async_channel_probe_event l i)) v = ep_effect r (AChannelEv l) v"
proof (cases l)
  case (ch_op_resolved r' w k out)
  then show ?thesis by (cases k) (simp_all add: async_channel_probe_event_def from_AsyncChannelOp_def)
next
  case (ch_endpoint_cloned r' d)
  then show ?thesis by (cases d) (simp_all add: async_channel_probe_event_def from_AsyncChannelSide_def)
next
  case (ch_endpoint_dropped r' d)
  then show ?thesis by (cases d) (simp_all add: async_channel_probe_event_def from_AsyncChannelSide_def)
qed (simp_all add: async_channel_probe_event_def)

lemma channel_event_apart [simp]: "ep_event_effect r (lock_probe_event l i) v = v"
  by (cases l) (simp_all add: lock_probe_event_def)

interpretation channel_reader: event_reader "ep_effect r" "ep_event_effect r :: 'j ProbeEvent \<Rightarrow> chan_view \<Rightarrow> chan_view"
proof
  show "ep_event_effect r (the (call_event c i) :: 'j ProbeEvent) v = ep_effect r c v" if "projected c" for c i v
    using that by (cases c) (simp_all add: projected_def call_event_def ep_effects_agree)
  show "ep_effect r c v = v" if "\<not> projected c" for c v
    using that by (cases c) (simp_all add: projected_def)
qed simp

definition event_view :: "'j ProbeEvent list \<Rightarrow> u64 \<Rightarrow> chan_view" where
  "event_view events r = fold (ep_event_effect r) events (None, 0, 0)"

text \<open>(C9) End to end for the channels. Take any interleaving of creating, cloning, subscribing, using and dropping mpsc, oneshot and watch endpoints,
  whatever the wrapped library does, and let the probe receive its hook calls in a capture session. Then the senders and receivers of each channel, counted off the events
  the session returns, are the live ones.\<close>

theorem captured_endpoints_are_live:
  fixes s :: "'j probe"
  assumes "CaptureSession_begin s = Some (session, s1)" "\<forall>t. \<not> owns s t" "\<not> has_global s"
    and "async_channel_hook r0 = Some h" "calls r0 = []" "chan_reach A (k0, r0, {#}) (k, r, M)"
    and log: "map snd cs = map snd (calls r)"
    and finish: "CaptureSession_finish session (probe_run cs s1) = (events, s2)"
  shows "fst (snd (event_view events ch)) = live_count True M ch \<and> snd (snd (event_view events ch)) = live_count False M ch"
proof -
  have "event_view events ch = fold (ep_effect ch) (map snd (calls r)) (None, 0, 0)"
    unfolding event_view_def channel_reader.session_reading [OF assms(1-3) finish] log ..
  also have "\<dots> = view_in (calls r) ch" by (simp add: view_in_def fold_map comp_def case_prod_unfold)
  finally have view: "event_view events ch = view_in (calls r) ch" .
  have "chan_inv r0 {#}" using assms(4,5) by (simp add: chan_inv_def)
  then have "chan_inv r M" using chan_reach_inv [OF assms(6)] by simp
  then show ?thesis unfolding chan_inv_def view by blast
qed

text \<open>An unbounded channel with a cloned sender.\<close>

theorem captured_endpoints_are_live_witness:
  "\<exists>k r M session s1 events s2. chan_reach slow_api (False, chan_rt, {#}) (k, r, M)
     \<and> CaptureSession_begin (probe_init :: unit probe) = Some (session, s1)
     \<and> CaptureSession_finish session (probe_run (map (\<lambda>(h, e). (7, e)) (calls r)) s1) = (events, s2)
     \<and> fst (snd (event_view events 1)) = 2 \<and> snd (snd (event_view events 1)) = 1"
proof -
  obtain r where run: "chan_reach slow_api (False, chan_rt, {#})
     (False, r, {#UnbTx \<lparr>utx_inner = (), utx_resource = 1\<rparr>, UnbTx \<lparr>utx_inner = (), utx_resource = 1\<rparr>,
        UnbRx \<lparr>urx_inner = (), urx_resource = 1\<rparr>#})" using chan_demo by blast
  obtain session s1 where start: "CaptureSession_begin (probe_init :: unit probe) = Some (session, s1)"
    by (simp add: CaptureSession_begin_def probe_init_def Let_def)
  let ?cs = "map (\<lambda>(h, e). (7, e)) (calls r)"
  obtain events s2 where finish: "CaptureSession_finish session (probe_run ?cs s1) = (events, s2)" by fastforce
  have free: "\<forall>t. \<not> owns (probe_init :: unit probe) t" "\<not> has_global (probe_init :: unit probe)"
    by (simp_all add: owns_def has_global_def probe_init_def slot_sender_def)
  have "async_channel_hook chan_rt = Some 0" "calls chan_rt = []" "map snd ?cs = map snd (calls r)"
    by (simp_all add: chan_rt_def hook_installs hook_reads rt_init_def case_prod_unfold)
  note counts = captured_endpoints_are_live [OF start free this(1,2) run this(3) finish, of 1]
  show ?thesis by (intro exI conjI, rule run, rule start, rule finish) (use counts in simp_all)
qed

section \<open>Broadcast channels and cells\<close>

text \<open>The number of successful sends and the subscribed receivers, read off the calls and off the events.\<close>

definition bc_effect :: "u64 \<Rightarrow> HookCall \<Rightarrow> nat \<times> u64 set \<Rightarrow> nat \<times> u64 set" where
  "bc_effect r c v = (fst v + (if is_ok_send r c then 1 else 0), rx_effect r c (snd v))"

fun bc_event_effect :: "u64 \<Rightarrow> 'j ProbeEvent \<Rightarrow> nat \<times> u64 set \<Rightarrow> nat \<times> u64 set" where
  "bc_event_effect r (AsyncBroadcastProbe (AsyncBroadcastSubscribed t r' i q)) v = (fst v, if r' = r then insert i (snd v) else snd v)"
| "bc_event_effect r (AsyncBroadcastProbe (AsyncBroadcastEndpointDropped t r' PReceiver (Some i))) v = (fst v, if r' = r then snd v - {i} else snd v)"
| "bc_event_effect r (AsyncBroadcastProbe (AsyncBroadcastOpResolved t r' w None BroadcastSend (BroadcastOk n))) v = (fst v + (if r' = r then 1 else 0), snd v)"
| "bc_event_effect r e v = v"

lemma bc_effects_agree: "bc_event_effect r (AsyncBroadcastProbe (async_broadcast_probe_event l i)) v = bc_effect r (ABroadcastEv l) v"
proof (cases l)
  case (bc_op_resolved r' w rid k out)
  then show ?thesis
    by (cases rid; cases k; cases out)
      (simp_all add: async_broadcast_probe_event_def bc_effect_def is_ok_send_def from_AsyncBroadcastOp_def from_AsyncBroadcastOutcome_def)
next
  case (bc_endpoint_dropped r' d rid)
  then show ?thesis by (cases d; cases rid) (simp_all add: async_broadcast_probe_event_def from_AsyncChannelSide_def bc_effect_def is_ok_send_def)
qed (simp_all add: async_broadcast_probe_event_def bc_effect_def is_ok_send_def)

lemma broadcast_event_apart [simp]: "bc_event_effect r (lock_probe_event l i) v = v"
  by (cases l) (simp_all add: lock_probe_event_def)

interpretation broadcast_reader: event_reader "bc_effect r" "bc_event_effect r :: 'j ProbeEvent \<Rightarrow> nat \<times> u64 set \<Rightarrow> nat \<times> u64 set"
proof
  show "bc_event_effect r (the (call_event c i) :: 'j ProbeEvent) v = bc_effect r c v" if "projected c" for c i v
    using that by (cases c) (simp_all add: projected_def call_event_def bc_effects_agree, simp_all add: bc_effect_def is_ok_send_def)
  show "bc_effect r c v = v" if "\<not> projected c" for c v
    using that by (cases c) (simp_all add: projected_def bc_effect_def is_ok_send_def)
qed simp

lemma bc_effects: "fold (bc_effect r) (map snd log) (n, R) = (n + ok_sends r log, fold (\<lambda>(h, e). rx_effect r e) log R)"
  by (induction log arbitrary: n R) (auto simp: bc_effect_def ok_sends_def)

text \<open>The successful sends and the receivers of a broadcast channel counted off the captured events are those of the channel.\<close>

lemma captured_broadcast_exact:
  fixes s :: "'j probe"
  assumes "CaptureSession_begin s = Some (session, s1)" "\<forall>t. \<not> owns s t" "\<not> has_global s"
    and "broadcast_channel B n (k, r0) = (Inr (tx, rx, q), (k', r1))" "async_broadcast_hook r0 = Some h" "calls r0 = []"
    and "bc_reach B (btx_resource tx) \<lparr>bs_seq = q, bs_tk = k', bs_rt = r1, bs_tx = {#tx#}, bs_rx = {#rx#}\<rparr> c"
    and log: "map snd cs = map snd (calls (bs_rt c))"
    and finish: "CaptureSession_finish session (probe_run cs s1) = (events, s2)"
    and view: "fold (bc_event_effect (btx_resource tx)) events (0, {}) = (sends, receivers)"
  shows "bs_seq c = of_nat sends \<and> receivers = brx_id ` set_mset (bs_rx c)"
proof -
  have "bc_inv (btx_resource tx) c"
    using bc_reach_inv [OF assms(7) broadcast_channel_inv [OF assms(4)]] assms(5,6) by simp
  moreover have "(sends, receivers) = (ok_sends (btx_resource tx) (calls (bs_rt c)), rx_in (btx_resource tx) (calls (bs_rt c)))"
    using broadcast_reader.session_reading [OF assms(1-3) finish, of "btx_resource tx" "(0, {})"] view log by (simp add: bc_effects rx_in_def)
  ultimately show ?thesis by (simp add: bc_inv_def)
qed

text \<open>The versions stored into a cell, in order.\<close>

fun st_effect :: "u64 \<Rightarrow> HookCall \<Rightarrow> u64 list \<Rightarrow> u64 list" where
  "st_effect r (ACellEv (cell_store r' v)) vs = (if r' = r then vs @ [v] else vs)"
| "st_effect r c vs = vs"

fun st_event_effect :: "u64 \<Rightarrow> 'j ProbeEvent \<Rightarrow> u64 list \<Rightarrow> u64 list" where
  "st_event_effect r (AsyncCellProbe (AsyncCellStore t r' v)) vs = (if r' = r then vs @ [v] else vs)"
| "st_event_effect r e vs = vs"

lemma cell_event_apart [simp]: "st_event_effect r (lock_probe_event l i) vs = vs"
  by (cases l) (simp_all add: lock_probe_event_def)

interpretation cell_reader: event_reader "st_effect r" "st_event_effect r :: 'j ProbeEvent \<Rightarrow> u64 list \<Rightarrow> u64 list"
proof
  show "st_event_effect r (the (call_event c i) :: 'j ProbeEvent) vs = st_effect r c vs" if "projected c" for c i vs
  proof (cases c)
    case (ACellEv l)
    then show ?thesis by (cases l) (simp_all add: call_event_def async_cell_probe_event_def)
  qed (use that in \<open>simp_all add: projected_def call_event_def\<close>)
  show "st_effect r c vs = vs" if "\<not> projected c" for c vs
    using that by (cases c) (simp_all add: projected_def)
qed simp

lemma st_effects: "fold (st_effect r) (map snd log) vs = vs @ List.map_filter (store_version r) log"
proof (induction log arbitrary: vs)
  case (Cons a log)
  have "st_effect r (snd a) vs = vs @ (case store_version r a of None \<Rightarrow> [] | Some v \<Rightarrow> [v])"
    by (induction r a rule: store_version.induct) auto
  with Cons show ?case by (simp add: List.map_filter_def split: option.splits)
qed (simp add: List.map_filter_def)

text \<open>The stores among the captured events are the versions 1, 2, 3 and so on, one for each publication that has been reported.\<close>

lemma captured_cell_versions:
  fixes s :: "'j probe" and A :: "('k, 'a Versioned) arc_swap"
  assumes "CaptureSession_begin s = Some (session, s1)" "\<forall>t. \<not> owns s t" "\<not> has_global s"
    and "atomic_cell A" "ModelArcSwap_new A v0 r0 = (Inr c, r1)" "async_cell_hook r0 = Some h" "calls r0 = []"
    and run: "(swap_step A (mas_resource c))\<^sup>*\<^sup>* (cell_start (\<lambda>c. as_load A (mas_inner c)) c r1) x"
    and log: "map snd cs = map snd (calls (cl_rt x))"
    and finish: "CaptureSession_finish session (probe_run cs s1) = (events, s2)"
  shows "fold (st_event_effect (mas_resource c)) events [] = map of_nat [1..<length (cl_history x) - (if cl_storing x = None then 0 else 1)]"
proof -
  have "logged_stores (mas_resource c) r0 = []" "logged_loads (mas_resource c) r0 = []"
    using assms(7) by (simp_all add: logged_stores_def logged_loads_def List.map_filter_def)
  then have "swap_cell.cell_inv A h (mas_resource c) (cell_start (\<lambda>c. as_load A (mas_inner c)) c r1)"
    using ModelArcSwap_new_start [OF assms(5,6,4)] by simp
  then have inv: "swap_cell.cell_inv A h (mas_resource c) x" by (rule swap_cell.inv_reachable [OF run assms(4)])
  have "fold (st_event_effect (mas_resource c)) events [] = logged_stores (mas_resource c) (cl_rt x)"
    unfolding cell_reader.session_reading [OF assms(1-3) finish] log by (simp add: st_effects logged_stores_def)
  then show ?thesis using inv unfolding swap_cell.cell_inv_def by simp
qed

end
