(* ===== verification/TasksTest.thy ===== *)
theory TasksTest
  imports VerifyHarness AsyncCapture NativeRunner
begin

text \<open>
  The tasks mode of the verify attribute (\<^verbatim>\<open>laplace-macro/src/verify.rs\<close>): the generated test composes the tasks, runs them with the native runner of theory \<open>NativeRunner\<close> and checks
  what was captured. Composition and tasks are parameters, and so is what timers and other threads do; whether the body returns is a matter of its runs.
\<close>

section \<open>The body of the test\<close>

text \<open>Runs of the runner while timers and other threads act on the process.\<close>

definition native_move :: "('u, 'x) runtime \<Rightarrow> ('u, 'x) runner \<Rightarrow> ('u, 'x) runner \<Rightarrow> bool" where
  "native_move E r r' \<longleftrightarrow> native_step E r r' \<or> (\<exists>w. ex_outside E (rn_world r) w \<and> r' = r\<lparr>rn_world := w\<rparr>)"

definition hook_calls :: "'x tworld_scheme \<Rightarrow> 'x tworld_scheme \<Rightarrow> HookCall list" where
  "hook_calls w w' = map snd (drop (length (calls (tw_rt w))) (calls (tw_rt w')))"

text \<open>What the body can do, with the hook calls it makes until it ends: the composition panics or does not come back; the runner returns; nothing can move although the runner has
  not returned; or the run goes on for ever, where the runner moves again and again or has nothing to do again and again.\<close>

inductive tasks_body :: "('u, 'x) runtime \<Rightarrow> ('u TaskSet \<times> 'x tworld_scheme \<Rightarrow> ending \<times> 'u TaskSet \<times> 'x tworld_scheme) \<Rightarrow> 'x tworld_scheme
    \<Rightarrow> HookCall list \<Rightarrow> ending \<Rightarrow> bool" for E compose w where
  not_composed: "tasks_body E compose w (hook_calls w w1) own" if "compose (TaskSet_new, w) = (own, ts, w1)" "own \<noteq> Returns"
| runner_returned: "tasks_body E compose w (hook_calls w (rn_world r)) Returns"
    if "compose (TaskSet_new, w) = (Returns, ts, w1)" "(native_move E)\<^sup>*\<^sup>* (run_task_set_native ts w1) r" "returned r"
| runner_stuck: "tasks_body E compose w (hook_calls w (rn_world r)) Hangs"
    if "compose (TaskSet_new, w) = (Returns, ts, w1)" "(native_move E)\<^sup>*\<^sup>* (run_task_set_native ts w1) r" "\<not> returned r" "\<forall>r'. \<not> native_move E r r'"
| runner_for_ever: "tasks_body E compose w cs Hangs"
    if "compose (TaskSet_new, w) = (Returns, ts, w1)" "f 0 = run_task_set_native ts w1" "\<forall>n :: nat. native_move E (f n) (f (Suc n)) \<and> \<not> returned (f n)"
      "\<forall>n. \<exists>m\<ge>n. native_step E (f m) (f (Suc m)) \<or> (\<forall>r'. \<not> native_step E (f m) r')"


section \<open>The generated test\<close>

text \<open>A task does its lock calls under its id: the calls of a run, each with the task polled last, and 0 for the composition before any poll.\<close>

fun attributed :: "u64 \<Rightarrow> HookCall list \<Rightarrow> (u64 \<times> LockCall) list" where
  "attributed i [] = []"
| "attributed i (LockEv c # cs) = (i, c) # attributed i cs"
| "attributed i (TaskEv (poll_started task n) # cs) = attributed task cs"
| "attributed i (_ # cs) = attributed i cs"

definition by_task :: "HookCall list \<Rightarrow> (os_thread \<times> LockCall) list" where
  "by_task cs = map (\<lambda>(i, c). (unat i, c)) (attributed 0 cs)"

abbreviation is_lock :: "'j ProbeEvent \<Rightarrow> bool" where
  "is_lock e \<equiv> lock_event e \<noteq> None"

lemma edges_from_locks: "edges_from holds (filter is_lock events) = edges_from holds events"
  by (induction events arbitrary: holds) (auto simp: hold_step_def split: option.splits)

lemma conflict_locks: "conflict (filter is_lock events) = conflict events"
  unfolding conflict_def edges_of_eval edges_from_locks ..

lemma lock_is_lock: "is_lock (lock_probe_event l i)"
  by (cases l) (simp_all add: lock_event_call)

lemma projected_lock:
  "projected c \<Longrightarrow> filter is_lock [the (call_event c i)] = (case c of LockEv l \<Rightarrow> [lock_probe_event l i] | _ \<Rightarrow> [])"
proof (cases c)
  case (LockEv l)
  then show ?thesis using lock_is_lock [of l i] by (simp add: call_event_def)
qed (simp_all add: projected_def call_event_def lock_event_def)

lemma task_call_id:
  "PROBE_THREAD_ID (probe_call t (TaskEv l) s) t = (case l of poll_started task n \<Rightarrow> Some task | _ \<Rightarrow> PROBE_THREAD_ID s t)"
  by (cases l) (simp_all add: probe_call_def ProbeTaskHook_def set_probe_thread_id_def set_current_task_id_def clear_current_task_id_def
      split: option.split TaskPollOutcome.split)

lemma attributed_run:
  assumes "capturing rx s" "PROBE_THREAD_ID s main = Some i"
  shows "capturing rx (probe_run (map (Pair main) cs) s)
    \<and> filter is_lock (received rx (probe_run (map (Pair main) cs) s)) = filter is_lock (received rx s) @ map (\<lambda>(i, c). lock_probe_event c i) (attributed i cs)
    \<and> length (received rx s) \<le> length (received rx (probe_run (map (Pair main) cs) s))
    \<and> (\<exists>j. PROBE_THREAD_ID (probe_run (map (Pair main) cs) s) main = Some j)"
  using assms
proof (induction cs arbitrary: s i)
  case (Cons c cs)
  let ?s = "probe_call main c s"
  show ?case
  proof (cases "projected c")
    case True
    have s: "?s = emit main (the (call_event c i)) s"
      using Cons.prems(2) by (simp add: probe_call_projected [OF True] emit_here_def current_thread_id_def)
    have id: "PROBE_THREAD_ID ?s main = Some i" using Cons.prems(2) by (simp add: s)
    have kept: "capturing rx ?s" "received rx ?s = received rx s @ [the (call_event c i)]"
      using capturing_acts [OF Cons.prems(1), of "[ActEmit main (the (call_event c i))]"] by (simp_all add: s)
    have rest: "map (\<lambda>(i, c). lock_probe_event c i) (attributed i (c # cs))
        = filter is_lock [the (call_event c i)] @ map (\<lambda>(i, c). lock_probe_event c i) (attributed i cs)"
      using True unfolding projected_lock [OF True] by (cases c) (simp_all add: projected_def)
    show ?thesis using Cons.IH [OF kept(1) id] kept(2) unfolding rest by simp
  next
    case False
    then consider (task) l where "c = TaskEv l" | (timer) l where "c = ATimerEv l" by (cases c) (simp_all add: projected_def)
    then show ?thesis
    proof cases
      case task
      obtain ks where kept: "capturing rx ?s" "received rx ?s = received rx s @ map TaskProbe ks"
        using task_call_events [OF Cons.prems(1), of main l] task by auto
      have none: "filter is_lock (map TaskProbe ks) = []" by (simp add: filter_empty_conv lock_event_def)
      obtain j where j: "PROBE_THREAD_ID ?s main = Some j" "attributed i (c # cs) = attributed j cs"
        using Cons.prems(2) by (cases l) (simp_all add: task task_call_id)
      show ?thesis using Cons.IH [OF kept(1) j(1)] kept(2) none unfolding j(2) by simp
    qed (use Cons in \<open>simp add: probe_call_def\<close>)
  qed
qed simp

lemma tasks_hooked: "act_step (harness_hooks ModeTasks r) (Seam t c) s = probe_call t c s"
proof (cases c)
  case (ATimerEv l)
  then show ?thesis by (simp add: act_step_def probe_call_def)
qed (simp_all add: act_step_def hook_of_def harness_hooks_def install_probe_lock_hook_def install_probe_task_hook_def install_probe_async_hooks_def
    hook_reads hook_installs)

lemma tasks_run: "fold (act_step (harness_hooks ModeTasks r)) (map (Seam main) cs) s = probe_run (map (Pair main) cs) s"
  by (induction cs arbitrary: s) (simp_all add: tasks_hooked)

lemma by_task_trace: "lock_trace of_nat (by_task cs) = map (\<lambda>(i, c). lock_probe_event c i) (attributed 0 cs)"
  by (simp add: lock_trace_def by_task_def case_prod_unfold)

lemma by_task_ids: "inj_on (of_nat :: nat \<Rightarrow> u64) (fst ` set (by_task cs))"
  by (rule inj_onI) (auto simp: by_task_def)

lemma tasks_events:
  fixes s :: "'j probe"
  assumes start: "CaptureSession_begin s = Some (session, s1)" and "no_legacy s"
  shows "conflict (fst (CaptureSession_finish session (probe_run (map (Pair main) cs) (set_probe_thread_id main 0 s1))))
      \<longleftrightarrow> (\<exists>a b. nested (by_task cs) a b \<and> nested (by_task cs) b a)"
    and "TaskEv (task_registered task) \<in> set cs \<Longrightarrow>
      fst (CaptureSession_finish session (probe_run (map (Pair main) cs) (set_probe_thread_id main 0 s1))) \<noteq> []"
proof -
  let ?rx = "length (channels s)" and ?s2 = "set_probe_thread_id main 0 s1"
  note opened = begin_session [OF assms]
  have s2: "capturing ?rx ?s2" "PROBE_THREAD_ID ?s2 main = Some 0" "received ?rx ?s2 = []"
    using opened(2,3,4)
    by (simp_all add: capturing_def set_probe_thread_id_def session_open_def legacy_apart_def no_legacy_def owns_def has_global_def)
  have run: "capturing ?rx (probe_run (map (Pair main) cs) ?s2)"
    "filter is_lock (received ?rx (probe_run (map (Pair main) cs) ?s2)) = lock_trace of_nat (by_task cs)" for cs
    using attributed_run [OF s2(1,2), of cs] by (simp_all add: opened(4) by_task_trace)
  have events: "fst (CaptureSession_finish session (probe_run (map (Pair main) cs) ?s2)) = received ?rx (probe_run (map (Pair main) cs) ?s2)"
    by (rule finish_session(1) [OF opened(1)]) (use run(1) in \<open>simp add: capturing_def\<close>)
  have "conflict (received ?rx (probe_run (map (Pair main) cs) ?s2)) = conflict (lock_trace of_nat (by_task cs) :: 'j ProbeEvent list)"
    using conflict_locks [of "received ?rx (probe_run (map (Pair main) cs) ?s2)"] unfolding run(2) by simp
  also have "\<dots> = (\<exists>a b. nested (by_task cs) a b \<and> nested (by_task cs) b a)"
    using lock_trace_verdict [OF by_task_ids, where 'j = 'j] verdict_conflict [of "lock_trace of_nat (by_task cs) :: 'j ProbeEvent list"] by blast
  finally show "conflict (fst (CaptureSession_finish session (probe_run (map (Pair main) cs) ?s2)))
      \<longleftrightarrow> (\<exists>a b. nested (by_task cs) a b \<and> nested (by_task cs) b a)" unfolding events .
  assume "TaskEv (task_registered task) \<in> set cs"
  then obtain xs ys where cs: "cs = xs @ TaskEv (task_registered task) # ys" by (meson split_list)
  let ?s3 = "probe_call main (TaskEv (task_registered task)) (probe_run (map (Pair main) xs) ?s2)"
  have s3: "received ?rx ?s3 = received ?rx (probe_run (map (Pair main) xs) ?s2) @ [TaskProbe (TaskSpawned task None None)]"
    "capturing ?rx ?s3"
    using capturing_acts [OF run(1), of "task_acts main (task_registered task) s1"] unfolding task_call_acts by (simp_all add: task_acts_def)
  obtain i where "PROBE_THREAD_ID ?s3 main = Some i"
    using attributed_run [OF s2(1,2), of xs] by (auto simp: task_call_id)
  from attributed_run [OF s3(2) this, of ys] s3(1)
  show "fst (CaptureSession_finish session (probe_run (map (Pair main) cs) ?s2)) \<noteq> []"
    unfolding events by (auto simp: cs probe_run_def)
qed

lemma tasks_mode:
  assumes "VerifyArgs_parse metas = Inr args" "laplace_verify_impl is_type args item = Inr h" "va_tasks args"
  shows "hn_mode h = ModeTasks"
  using accepted_harness(5) [OF assms(1,2)] parsed_fields(1) [OF assms(1)] assms(3) by (cases "va_threads args") simp_all












text \<open>Polling a task in the runner.\<close>

definition poll_at :: "('u, 'x) runtime \<Rightarrow> nat \<Rightarrow> ('u, 'x) runner \<Rightarrow> ('u, 'x) runner" where
  "poll_at E i r = (case ObservedTask_poll (ex_poll E) (ex_waker E i) (rn_tasks r ! i) (rn_world r) of
     (p, task, w) \<Rightarrow> r\<lparr>rn_tasks := (rn_tasks r)[i := task], rn_polled := (rn_polled r)(i \<mapsto> length (tw_woken (rn_world r))), rn_world := w\<rparr>)"

lemma poll_at_step:
  assumes "\<not> rn_inside r" "runnable E r i" "\<not> ex_blocks E (ex_waker E i) (ot_future (rn_tasks r ! i)) (rn_world r)"
  shows "native_step E r (poll_at E i r)"
  using native_step.poll [OF assms] unfolding poll_at_def by (auto split: prod.split)

lemma poll_at_eq:
  "ObservedTask_poll (ex_poll E) (ex_waker E i) (rn_tasks r ! i) (rn_world r) = (p, task, w) \<Longrightarrow>
   poll_at E i r = r\<lparr>rn_tasks := (rn_tasks r)[i := task], rn_polled := (rn_polled r)(i \<mapsto> length (tw_woken (rn_world r))), rn_world := w\<rparr>"
  by (simp add: poll_at_def)






section \<open>Limits\<close>

text \<open>The reference check looks at blocking locks only. Without any, a test whose composition registers a task and whose run returns passes when nothing or clean is expected and fails when a
  bug is expected, whatever the order in which its tasks take asynchronous locks; and the failing test has not written the events by then.\<close>

lemma by_task_none: "\<forall>c\<in>set cs. \<forall>l. c \<noteq> LockEv l \<Longrightarrow> by_task cs = []"
proof -
  have "\<forall>c\<in>set cs. \<forall>l. c \<noteq> LockEv l \<Longrightarrow> attributed i cs = []" for i
    by (induction i cs rule: attributed.induct) auto
  then show "\<forall>c\<in>set cs. \<forall>l. c \<noteq> LockEv l \<Longrightarrow> by_task cs = []" by (simp add: by_task_def)
qed

text \<open>A task that waits for something that never comes: the body hangs, and with it the test.\<close>

definition waiting_runtime :: "(unit, unit) runtime" where
  "waiting_runtime = \<lparr>ex_poll = (\<lambda>cx u w. (Inr Pending, u, w)), ex_blocks = (\<lambda>_ _ _. False), ex_waker = id, ex_outside = (\<lambda>_ _. False)\<rparr>"

lemma waiting_task_hangs:
  fixes w :: tworld
  shows "\<exists>cs. tasks_body waiting_runtime (\<lambda>s. (Returns, snd (TaskSet_spawn () s))) w cs Hangs"
proof -
  let ?E = waiting_runtime
  have E: "ex_poll ?E = (\<lambda>cx u w. (Inr Pending, u, w))" "ex_waker ?E = id" "\<And>cx u w. \<not> ex_blocks ?E cx u w" "\<And>w w'. \<not> ex_outside ?E w w'"
    by (simp_all add: waiting_runtime_def)
  obtain ts w1 where c: "snd (TaskSet_spawn () (TaskSet_new, w)) = (ts, w1)" by (meson surj_pair)
  then obtain A where A: "ts_tasks ts = [A]" "\<not> ot_finished A" by (auto simp: TaskSet_new_def TaskSet_spawn_def MAX_MODEL_TASKS_def Let_def)
  define r0 where "r0 = run_task_set_native ts w1"
  have r0: "rn_tasks r0 = [A]" "rn_next r0 = 0" "rn_polled r0 = (\<lambda>_. None)" "\<not> rn_inside r0" "rn_world r0 = w1"
    by (simp_all add: r0_def run_task_set_native_def TaskSet_into_tasks_def A)
  obtain A' w2 where A': "ObservedTask_poll (ex_poll ?E) 0 A w1 = (Pending, A', w2)" "\<not> ot_finished A'" "tw_woken w2 = tw_woken w1"
    using A(2) by (simp add: ObservedTask_poll_def E poll_outcome_def Let_def)
  define r1 where "r1 = poll_at ?E 0 r0"
  have r1: "r1 = r0\<lparr>rn_tasks := [A'], rn_polled := [0 \<mapsto> length (tw_woken w1)], rn_world := w2\<rparr>"
    using poll_at_eq [of ?E 0 r0 Pending A' w2] A'(1) by (simp add: r1_def r0 E(2))
  have "native_step ?E r0 r1" unfolding r1_def by (rule poll_at_step) (simp_all add: E r0 runnable_def A)
  then have "(native_move ?E)\<^sup>*\<^sup>* r0 r1" by (simp add: native_move_def r_into_rtranclp)
  moreover have "\<not> runnable ?E r1 i" for i by (cases "i = 0") (simp_all add: runnable_def r1 A'(3))
  then have "\<not> native_move ?E r1 r'" for r'
    using A'(2) by (auto simp: native_move_def E r1 r0 elim!: native_step.cases)
  moreover have "\<not> returned r1" by (simp add: returned_def r1 r0)
  ultimately show ?thesis using tasks_body.runner_stuck [of "\<lambda>s. (Returns, snd (TaskSet_spawn () s))" w ts w1 ?E r1] c unfolding r0_def by auto
qed

lemma async_deadlock_unseen:
  fixes s :: "'j process"
  assumes "VerifyArgs_parse metas = Inr args" "laplace_verify_impl is_type args item = Inr h" "va_tasks args" "va_expected args = Some ''bug''"
    and "CaptureSession_begin (pr_probe s) = Some (session, s1)" "no_legacy (pr_probe s)" "TaskEv (task_registered task) \<in> set cs"
    and "\<forall>c\<in>set cs. \<forall>l. c \<noteq> LockEv l"
    and run: "run_test env h main worker (map (Seam main) cs) Returns ends s = Some (result, s')"
  shows "result \<noteq> Inr () \<and> pr_files s' = pr_files s"
proof -
  note mode = tasks_mode [OF assms(1-3)]
  let ?s3 = "probe_run (map (Pair main) cs) (set_probe_thread_id main 0 s1)"
  obtain events s4 where fin: "CaptureSession_finish session ?s3 = (events, s4)" by fastforce
  have "\<not> conflict events" "events \<noteq> []"
    using tasks_events [OF assms(5,6), where main = main and cs = cs] assms(7) fin by_task_none [OF assms(8)] by (simp_all add: nested_def)
  then have fails: "reference_check env h events \<noteq> Inr ()" using assms(4) by (simp add: accepted_check(1) [OF assms(1,2)] meets_def)
  moreover have "result = reference_check env h events"
    using run_test_result [OF run _ assms(5)] fin unfolding mode tasks_run by (simp add: harness_ids_def body_ending_def)
  moreover have "pr_files s' = snd (verification_tail env h events (pr_files s))"
    using run assms(5) fin by (auto simp: run_test_def mode tasks_run harness_ids_def body_ending_def Let_def split: prod.splits)
  ultimately show ?thesis using fails by (auto simp: verification_tail_def split: sum.splits)
qed

end
