(* ===== verification/Spec2Isabelle.thy ===== *)
theory Spec2Isabelle
  imports LockSeam AsyncLedger ChannelLedger VirtualTime Spawn NativeRunner ArcSwapCells EndToEnd Tracked ProbeClient Clocks Contract Harness
    RequestContext Abi LegacyHarness TrackedDerive Settings Kraken Select Vocabulary TraceLines TasksTest
begin

text \<open>
  \<^bold>\<open>Laplace: the instrumentation side, verified.\<close>

  Laplace explores the interleavings of a Rust program. The exploration engine is not part of the repository; what is there is
  everything between the user's program and the engine. An attribute macro rewrites the synchronisation primitives of an annotated
  function to types of a model runtime (\<^verbatim>\<open>crates/laplace-macro\<close>). These types wrap the standard library, tokio and arc-swap and
  report each acquisition, send, poll, timer and publication through process-wide hooks (\<^verbatim>\<open>crates/laplace-model-rt\<close>). The
  probe implements the hooks, turns calls into events, collects them in capture sessions, checks the lock order and can ship the events to
  a server (\<^verbatim>\<open>crates/laplace-probe-sdk\<close>, \<^verbatim>\<open>crates/laplace-probe-common\<close>). The contracts shared with the engine are
  \<^verbatim>\<open>crates/laplace-axiom-contract\<close> and \<^verbatim>\<open>crates/laplace-interfaces\<close>. Correctness of this side means that what is
  reported is what happened: wrapping changes nothing, no event is lost, doubled or attributed to the wrong thread, the rewrite
  leaves no primitive out without saying so, and a generated test whose body returns passes exactly when it should.

  \<^bold>\<open>Conventions.\<close> Theory \<open>Prelude\<close>. Rust integers are words of their width; counters that the code checks are
  checked, saturating arithmetic saturates, and an overflow that panics in a build with overflow checks is an error value. A panic is the left
  side of a sum and keeps the state changes made before it (the state-and-panic monad). The state of the process is passed explicitly and
  a log in it records the calls of the hooks. A future is its state with a poll and a drop; the wrapped library is an argument with
  arbitrary behaviour, and a theorem that needs documented behaviour of it has it as an assumption. Concurrency is an inductive step
  relation whose reachable states are all interleavings; a step is what the code does between two points at which another thread
  can observe it. Fuel occurs nowhere; what recurses is structural or has a termination proof.

  \<^bold>\<open>The model runtime.\<close> (\<^verbatim>\<open>laplace-model-rt/src\<close>)
  \<^item> \<open>Hooks\<close>: the ten hook slots, their install, clear and read functions and every callback (\<^verbatim>\<open>hooks.rs\<close>); the locale \<open>hook_registry\<close>
    states what a slot promises.
  \<^item> \<open>Ids\<close>: the id counters, their exhaustion and reset, and the lazily assigned id as a race of threads; the locale \<open>id_allocator\<close> gives
    consecutive, distinct ids for the four counters.
  \<^item> \<open>LockSeam\<close>: \<^verbatim>\<open>mutex.rs\<close>, \<^verbatim>\<open>rwlock.rs\<close>. Transparency against the standard locks with poisoning (locale \<open>lock_seam\<close>), mutual
    exclusion, and that the log balances with the threads inside, in every interleaving.
  \<^item> \<open>AsyncLocks\<close>, \<open>AsyncLedger\<close>: \<^verbatim>\<open>async_mutex.rs\<close>, \<^verbatim>\<open>async_rwlock.rs\<close>, \<^verbatim>\<open>async_semaphore.rs\<close>. The standing of every waiter, read off
    the log, is that of the live future or guard (locale \<open>lock_future\<close>, four interpretations).
  \<^item> \<open>Channels\<close>, \<open>OpLife\<close>, \<open>ChannelLedger\<close>: \<^verbatim>\<open>mpsc.rs\<close>, \<^verbatim>\<open>oneshot.rs\<close>, \<^verbatim>\<open>watch.rs\<close>, \<^verbatim>\<open>broadcast.rs\<close>, \<^verbatim>\<open>async_notify.rs\<close>. One
    operation leaves one well-formed trace (locale \<open>op_future\<close>, six interpretations); the endpoint counts and broadcast positions of the log
    are exact.
  \<^item> \<open>VirtualTime\<close>: \<^verbatim>\<open>async_time.rs\<close>. Sleep, timeout and interval against the virtual clock.
  \<^item> \<open>Tasks\<close>, \<open>Spawn\<close>: \<^verbatim>\<open>task_set.rs\<close>, \<^verbatim>\<open>spawn.rs\<close>. Poll traces with contained panics, no lost wakeup, the agreement of the three
    spawn modes, ids of dynamic tasks.
  \<^item> \<open>ArcSwapCells\<close>: \<^verbatim>\<open>arc_swap.rs\<close>. Versions are linear (locale \<open>versioned_cell\<close>), a cache is a fresh load.
  \<^item> \<open>Select\<close>: \<^verbatim>\<open>select_macro.rs\<close>, \<^verbatim>\<open>unmodeled.rs\<close>. The select gate and the blind-spot markers.

  \<^bold>\<open>The probe.\<close> (\<^verbatim>\<open>laplace-probe-sdk/src\<close>, \<^verbatim>\<open>laplace-probe-common/src\<close>)
  \<^item> \<open>ProbeEvents\<close>, \<open>LockOrder\<close>: \<^verbatim>\<open>event.rs\<close> and the reference verifier of \<^verbatim>\<open>session.rs\<close>; its verdict is exactly the absence of opposed nesting.
  \<^item> \<open>ProbeSession\<close>, \<open>ProbeHooks\<close>, \<open>EndToEnd\<close>: sinks, thread ids and capture sessions of \<^verbatim>\<open>session.rs\<close>; the callbacks of \<^verbatim>\<open>model_lock.rs\<close>,
    \<^verbatim>\<open>async_hooks.rs\<close>, \<^verbatim>\<open>task.rs\<close>; the verdict in terms of the program's own threads and locks.
  \<^item> \<open>AsyncCapture\<close>: runtime and probe together. What the runtime's log says of waiters and endpoints, the captured events say too
    (locale \<open>event_reader\<close>, interpreted for locks, channels, broadcasts and cells), so the events show the live futures, guards, endpoints,
    receivers and publications.
  \<^item> \<open>NativeRunner\<close>: the native runner of a task set, \<^verbatim>\<open>run_task_set_native\<close> of \<^verbatim>\<open>task.rs\<close>, as a step relation in which the current-thread tokio runtime polls any task that was woken.
    It returns for every composition of tasks that wait for earlier tasks, with a complete trace of each.
  \<^item> \<open>Tracked\<close>: the seven files \<^verbatim>\<open>tracked*.rs\<close>; captured events show the live guards and never an impossible state.
  \<^item> \<open>RawEvents\<close>, \<open>ProbeClient\<close>: wire events, decoder and mock scenarios; projection, queue, batches and frames of \<^verbatim>\<open>client.rs\<close>,
    delivery in order, draining, and the emission that forwards to the client. The network is the environment: a send returns, or it never does and the sender stands still.
  \<^item> \<open>Settings\<close>: \<^verbatim>\<open>config.rs\<close>, \<^verbatim>\<open>license.rs\<close>. Where the depth of the exploration comes from.

  \<^bold>\<open>The macros.\<close> (\<^verbatim>\<open>laplace-macro/src\<close>)
  \<^item> \<open>ModelPaths\<close>, \<open>ModelRewrite\<close>: \<^verbatim>\<open>model.rs\<close>. The rewriting decisions are one table; a rewritten function has the sites of the original in
    order, each settled, and one marker for each kind of primitive without a model. Syntax is a tree with the nodes the visitor looks at; other nodes are sequences of their parts.
  \<^item> \<open>MacroArgs\<close>, \<open>VerifyHarness\<close>: \<^verbatim>\<open>verify.rs\<close> and the event dump of \<^verbatim>\<open>session.rs\<close>. Accepted arguments and signatures; the generated test
    as a run of hooks, session and verifier. The annotated function returns, panics or hangs, which is its own affair; the theorems say what the test does in each case.
  \<^item> \<open>TasksTest\<close>: the tasks mode of \<^verbatim>\<open>verify.rs\<close>: composition, native runner and check, over all behaviours of the body, those included in which the runner waits or runs for ever.
  \<^item> \<open>LegacyHarness\<close>: \<^verbatim>\<open>target.rs\<close>, \<^verbatim>\<open>byoc_test.rs\<close>. The generated tests as a step relation with the bounded channel and arbitrary bodies of the threads, which may block and panic; how they end.
  \<^item> \<open>TrackedDerive\<close>: \<^verbatim>\<open>tracked_derive.rs\<close>, \<^verbatim>\<open>convenience.rs\<close>.

  \<^bold>\<open>The contracts.\<close> (\<^verbatim>\<open>laplace-axiom-contract/src\<close>, \<^verbatim>\<open>laplace-interfaces/src\<close>)
  \<^item> \<open>Contract\<close>: ids, operations, the 64-bit thread set with Rust's shift in builds with and without overflow checks, determinism reports. \<open>Clocks\<close>: Lamport clocks and the order of scheduled events.
  \<^item> \<open>Harness\<close>: harness specifications, their builder and the check for opposed acquisition.
  \<^item> \<open>Tenant\<close>, \<open>RequestContext\<close>: tiers, limits, upgrades, errors; priorities, contexts and their validity.
  \<^item> \<open>Abi\<close>: the structures of the foreign interface with the C layout algorithm, and the error codes.
  \<^item> \<open>Kraken\<close>: virtual HTTP messages, scenarios, chaos schedules, ramp-up. \<open>Vocabulary\<close>: transport errors, panels, default limits,
    usage, telemetry, pool, server and runtime statistics, the defaults of the pluggable network, the platform configuration.
  \<^item> \<open>NumberText\<close>, \<open>Identifiers\<close>, \<open>TraceLines\<close>: the identifiers and errors of the engine and what is printed into logs (\<^verbatim>\<open>domain/memory\<close>,
    \<^verbatim>\<open>domain/scheduler\<close>, \<^verbatim>\<open>domain/entropy\<close>, \<^verbatim>\<open>domain/resource\<close>, \<^verbatim>\<open>domain/tracing\<close>, \<^verbatim>\<open>error/kraken.rs\<close>, \<^verbatim>\<open>error/codes.rs\<close>). A text determines
    what it was printed from: the locales \<open>number_text\<close> (decimal and hexadecimal numbers inside a text) and \<open>list_text\<close> (lists with separators).

  \<^bold>\<open>Bounds.\<close> Ids, versions, clocks and deadlines are 64-bit words; where a theorem needs that a counter does not reach its end this is a
  hypothesis, and the behaviour at the end is a theorem of its own (exhaustion panics, saturating deadlines). The cloud queue, the batch size and
  the channel of 4096 events of the older tests are bounded as in the code.

  \<^bold>\<open>Not modelled.\<close> The exploration engine and its algorithms, of which the repository has only the traits
  (\<^verbatim>\<open>domain/*/traits.rs\<close>, \<^verbatim>\<open>kernel.rs\<close>, \<^verbatim>\<open>knul.rs\<close>): there is no code to check them against;
  web sockets, UDP sockets, wall clocks and files; the parsers and printers of Rust
  tokens, JSON, TOML and base64, which are third-party crates; floating-point arithmetic, which is an argument where code depends on it;
  the text of tenant errors; re-exports and forwarding macro entry points; vendored crates, examples and tests.
\<close>

end
